(* ===== verification/Prelude.thy ===== *)
theory Prelude
  imports Main "HOL-Library.Word" "HOL-Library.Sublist" "HOL-Library.Multiset"
begin

text \<open>
  Shared vocabulary of the development.

  A Rust \<open>&str\<close> or \<open>String\<close> is the list of its UTF-8 bytes, so \<open>length\<close> is
  Rust's \<open>len()\<close> and slicing is by byte index, as in the source. The operations of the
  standard library that the modelled code calls (\<open>trim\<close>, \<open>strip_prefix\<close>, \<open>split\<close>,
  \<open>lines\<close>, \<open>join\<close>, \<open>replace\<close>, ...) are defined here once. \<open>trim\<close> strips Unicode
  white space, by its UTF-8 encodings; on valid UTF-8 this is what \<open>str::trim\<close> does.

  Fixed-width integers whose overflow the source handles are words; \<open>saturating_mul\<close>,
  \<open>saturating_sub\<close> and \<open>checked_div\<close> are given for them. Results \<open>Result<T, E>\<close> are
  sums \<open>'e + 't\<close> with \<open>Inl\<close> the error.
\<close>

named_theorems str_simps \<open>characteristic facts of the string operations\<close>
named_theorems inv_intros \<open>preservation facts of component invariants\<close>

type_synonym u8 = "8 word"
type_synonym u64 = "64 word"

section \<open>Prefixes and suffixes\<close>

fun strip_prefix :: "'a list \<Rightarrow> 'a list \<Rightarrow> 'a list option" where
  "strip_prefix [] s = Some s"
| "strip_prefix (p # ps) [] = None"
| "strip_prefix (p # ps) (c # cs) = (if p = c then strip_prefix ps cs else None)"

definition strip_suffix :: "'a list \<Rightarrow> 'a list \<Rightarrow> 'a list option" where
  "strip_suffix p s = map_option rev (strip_prefix (rev p) (rev s))"

definition starts_with :: "'a list \<Rightarrow> 'a list \<Rightarrow> bool" where
  "starts_with s p \<longleftrightarrow> strip_prefix p s \<noteq> None"

definition ends_with :: "'a list \<Rightarrow> 'a list \<Rightarrow> bool" where
  "ends_with s p \<longleftrightarrow> strip_suffix p s \<noteq> None"

lemma strip_prefix_iff [str_simps]: "strip_prefix p s = Some r \<longleftrightarrow> s = p @ r"
  by (induction p s rule: strip_prefix.induct) auto

lemma strip_prefix_append [simp]: "strip_prefix p (p @ r) = Some r"
  by (simp add: strip_prefix_iff)

lemma strip_prefix_self [simp]: "strip_prefix p p = Some []"
  using strip_prefix_append [of p "[]"] by simp

lemma strip_suffix_iff [str_simps]: "strip_suffix p s = Some r \<longleftrightarrow> s = r @ p"
proof -
  have "strip_suffix p s = Some r \<longleftrightarrow> strip_prefix (rev p) (rev s) = Some (rev r)"
    by (cases "strip_prefix (rev p) (rev s)") (auto simp: strip_suffix_def)
  also have "\<dots> \<longleftrightarrow> s = r @ p"
    by (metis rev_append rev_rev_ident strip_prefix_iff)
  finally show ?thesis .
qed

lemma strip_suffix_append [simp]: "strip_suffix p (r @ p) = Some r"
  by (simp add: strip_suffix_iff)

lemma starts_with_iff [str_simps]: "starts_with s p \<longleftrightarrow> (\<exists>r. s = p @ r)"
  by (auto simp: starts_with_def strip_prefix_iff)

lemma starts_with_append [simp]: "starts_with (p @ r) p"
  by (auto simp: starts_with_iff)

lemma ends_with_iff [str_simps]: "ends_with s p \<longleftrightarrow> (\<exists>r. s = r @ p)"
  by (auto simp: ends_with_def strip_suffix_iff)

lemma starts_with_singleton: "starts_with s [c] \<longleftrightarrow> s \<noteq> [] \<and> hd s = c"
  by (cases s) (auto simp: starts_with_def)

lemma strip_prefix_length: "strip_prefix p s = Some r \<Longrightarrow> length s = length p + length r"
  by (auto simp: strip_prefix_iff)

section \<open>White space\<close>

text \<open>The UTF-8 encodings of the characters with the Unicode property White\_Space.\<close>

definition ws_encodings :: "string list" where
  "ws_encodings =
     [[CHR 0x20], [CHR 0x09], [CHR 0x0A], [CHR 0x0B], [CHR 0x0C], [CHR 0x0D],
      [CHR 0xC2, CHR 0x85], [CHR 0xC2, CHR 0xA0], [CHR 0xE1, CHR 0x9A, CHR 0x80],
      [CHR 0xE2, CHR 0x80, CHR 0x80], [CHR 0xE2, CHR 0x80, CHR 0x81],
      [CHR 0xE2, CHR 0x80, CHR 0x82], [CHR 0xE2, CHR 0x80, CHR 0x83],
      [CHR 0xE2, CHR 0x80, CHR 0x84], [CHR 0xE2, CHR 0x80, CHR 0x85],
      [CHR 0xE2, CHR 0x80, CHR 0x86], [CHR 0xE2, CHR 0x80, CHR 0x87],
      [CHR 0xE2, CHR 0x80, CHR 0x88], [CHR 0xE2, CHR 0x80, CHR 0x89],
      [CHR 0xE2, CHR 0x80, CHR 0x8A], [CHR 0xE2, CHR 0x80, CHR 0xA8],
      [CHR 0xE2, CHR 0x80, CHR 0xA9], [CHR 0xE2, CHR 0x80, CHR 0xAF],
      [CHR 0xE2, CHR 0x81, CHR 0x9F], [CHR 0xE3, CHR 0x80, CHR 0x80]]"

fun strip_any :: "'a list list \<Rightarrow> 'a list \<Rightarrow> 'a list option" where
  "strip_any [] s = None"
| "strip_any (p # ps) s = (case strip_prefix p s of Some r \<Rightarrow> Some r | None \<Rightarrow> strip_any ps s)"

lemma strip_any_Some: "strip_any ps s = Some r \<Longrightarrow> \<exists>p \<in> set ps. s = p @ r"
  by (induction ps) (auto simp: strip_prefix_iff split: option.splits)

lemma strip_any_None: "strip_any ps s = None \<longleftrightarrow> (\<forall>p \<in> set ps. \<not> starts_with s p)"
  by (induction ps) (auto simp: starts_with_def split: option.splits)

text \<open>\<open>strip_many ps s\<close> removes encodings in \<open>ps\<close> from the front of \<open>s\<close> until none is left.
  An empty encoding is never used, and the guard makes the recursion total without it.\<close>

function strip_many :: "'a list list \<Rightarrow> 'a list \<Rightarrow> 'a list" where
  "strip_many ps s = (case strip_any ps s of None \<Rightarrow> s
     | Some r \<Rightarrow> if length r < length s then strip_many ps r else s)"
  by pat_completeness auto
termination
  by (relation "measure (\<lambda>(ps, s). length s)") auto

declare strip_many.simps [simp del]

definition trim_start :: "string \<Rightarrow> string" where
  "trim_start s = strip_many ws_encodings s"

definition trim_end :: "string \<Rightarrow> string" where
  "trim_end s = rev (strip_many (map rev ws_encodings) (rev s))"

definition trim :: "string \<Rightarrow> string" where
  "trim s = trim_end (trim_start s)"

lemma strip_many_suffix: "\<exists>p. s = p @ strip_many ps s"
proof (induction ps s rule: strip_many.induct)
  case (1 ps s)
  show ?case
  proof (cases "strip_any ps s")
    case None
    then show ?thesis by (simp add: strip_many.simps)
  next
    case (Some r)
    then obtain p where p: "s = p @ r" by (meson strip_any_Some)
    show ?thesis
    proof (cases "length r < length s")
      case True
      with 1 Some obtain q where "r = q @ strip_many ps r" by blast
      moreover have "strip_many ps s = strip_many ps r"
        using Some True by (simp add: strip_many.simps [of ps s])
      ultimately have "s = (p @ q) @ strip_many ps s" using p by simp
      then show ?thesis by blast
    next
      case False
      then show ?thesis using Some by (simp add: strip_many.simps [of ps s])
    qed
  qed
qed

lemma strip_many_fixed: "[] \<notin> set ps \<Longrightarrow> strip_any ps (strip_many ps s) = None"
proof (induction ps s rule: strip_many.induct)
  case (1 ps s)
  show ?case
  proof (cases "strip_any ps s")
    case None
    then show ?thesis by (simp add: strip_many.simps)
  next
    case (Some r)
    then obtain p where "p \<in> set ps" "s = p @ r" by (meson strip_any_Some)
    with 1(2) have "length r < length s" by (cases p) auto
    then show ?thesis using 1 Some by (simp add: strip_many.simps [of ps s])
  qed
qed

lemma strip_many_id: "strip_any ps s = None \<Longrightarrow> strip_many ps s = s"
  by (simp add: strip_many.simps)

lemma ws_encodings_nonempty: "[] \<notin> set ws_encodings" "[] \<notin> set (map rev ws_encodings)"
  by (simp_all add: ws_encodings_def)

lemma trim_start_idem [simp]: "trim_start (trim_start s) = trim_start s"
  by (simp add: trim_start_def strip_many_id strip_many_fixed ws_encodings_nonempty)

lemma trim_end_idem [simp]: "trim_end (trim_end s) = trim_end s"
  by (simp only: trim_end_def rev_rev_ident
      strip_many_id [OF strip_many_fixed [OF ws_encodings_nonempty(2)]])

lemma trim_end_prefix: "\<exists>q. s = trim_end s @ q"
proof -
  obtain p where "rev s = p @ strip_many (map rev ws_encodings) (rev s)"
    using strip_many_suffix by blast
  then have "s = rev (strip_many (map rev ws_encodings) (rev s)) @ rev p"
    by (metis rev_append rev_rev_ident)
  then show ?thesis by (auto simp: trim_end_def)
qed

lemma trim_start_suffix: "\<exists>p. s = p @ trim_start s"
  unfolding trim_start_def by (rule strip_many_suffix)

lemma trim_infix: "\<exists>p q. s = p @ trim s @ q"
proof -
  obtain p where p: "s = p @ trim_start s" using trim_start_suffix by blast
  obtain q where q: "trim_start s = trim s @ q"
    unfolding trim_def using trim_end_prefix by blast
  have "s = p @ trim s @ q" using p by (subst q [symmetric])
  then show ?thesis by blast
qed

lemma trim_idem [simp]: "trim (trim s) = trim s"
proof -
  obtain q where q: "trim_start s = trim s @ q"
    unfolding trim_def using trim_end_prefix by blast
  have "strip_any ws_encodings (trim_start s) = None"
    by (simp add: trim_start_def strip_many_fixed ws_encodings_nonempty)
  then have "strip_any ws_encodings (trim s) = None"
    unfolding q strip_any_None by (auto simp: starts_with_iff)
  then have "trim_start (trim s) = trim s" by (simp add: trim_start_def strip_many_id)
  then show ?thesis by (simp add: trim_def)
qed

section \<open>Splitting and joining\<close>

abbreviation NL :: char where "NL \<equiv> CHR 0x0A"
abbreviation CR :: char where "CR \<equiv> CHR 0x0D"

text \<open>\<open>s.split(c)\<close>: always at least one piece.\<close>

fun split_on :: "'a \<Rightarrow> 'a list \<Rightarrow> 'a list list" where
  "split_on c [] = [[]]"
| "split_on c (x # xs) = (if x = c then [] # split_on c xs
     else (case split_on c xs of [] \<Rightarrow> [[x]] | y # ys \<Rightarrow> (x # y) # ys))"

fun split_inclusive :: "'a \<Rightarrow> 'a list \<Rightarrow> 'a list list" where
  "split_inclusive c [] = []"
| "split_inclusive c (x # xs) = (if x = c then [x] # split_inclusive c xs
     else (case split_inclusive c xs of [] \<Rightarrow> [[x]] | y # ys \<Rightarrow> (x # y) # ys))"

text \<open>\<open>str::lines\<close>: a line loses its line feed and one carriage return before it; the last
  line keeps a carriage return when no line feed follows.\<close>

definition line_content :: "string \<Rightarrow> string" where
  "line_content l = (case strip_suffix [NL] l of None \<Rightarrow> l
     | Some l' \<Rightarrow> (case strip_suffix [CR] l' of None \<Rightarrow> l' | Some l'' \<Rightarrow> l''))"

definition lines :: "string \<Rightarrow> string list" where
  "lines s = map line_content (split_inclusive NL s)"

fun join :: "'a list \<Rightarrow> 'a list list \<Rightarrow> 'a list" where
  "join sep [] = []"
| "join sep [x] = x"
| "join sep (x # y # ys) = x @ sep @ join sep (y # ys)"

lemma split_on_not_Nil [simp]: "split_on c s \<noteq> []"
  by (induction s) (auto split: list.splits)

lemma split_on_no_sep: "c \<notin> set s \<Longrightarrow> split_on c s = [s]"
  by (induction s) auto

lemma split_on_append: "c \<notin> set s \<Longrightarrow> split_on c (s @ c # t) = s # split_on c t"
  by (induction s) auto

lemma split_on_pieces: "x \<in> set (split_on c s) \<Longrightarrow> c \<notin> set x"
  by (induction s arbitrary: x) (auto split: list.splits if_splits)

lemma join_Cons: "ys \<noteq> [] \<Longrightarrow> join sep (x # ys) = x @ sep @ join sep ys"
  by (cases ys) auto

lemma join_split_on: "join [c] (split_on c s) = s"
proof (induction s)
  case (Cons x xs)
  obtain y ys where y: "split_on c xs = y # ys" by (meson neq_Nil_conv split_on_not_Nil)
  show ?case using Cons y by (cases ys) (auto simp: join_Cons)
qed simp

lemma split_on_join:
  "ls \<noteq> [] \<Longrightarrow> \<forall>l \<in> set ls. c \<notin> set l \<Longrightarrow> split_on c (join [c] ls) = ls"
  by (induction "[c]" ls rule: join.induct) (auto simp: split_on_no_sep split_on_append)

lemma concat_split_inclusive [simp]: "concat (split_inclusive c s) = s"
  by (induction s) (auto split: list.splits)

lemma split_inclusive_append:
  "c \<notin> set s \<Longrightarrow> split_inclusive c (s @ c # t) = (s @ [c]) # split_inclusive c t"
  by (induction s) auto

lemma split_inclusive_no_sep:
  "c \<notin> set s \<Longrightarrow> s \<noteq> [] \<Longrightarrow> split_inclusive c s = [s]"
proof (induction s)
  case (Cons x xs)
  then show ?case by (cases xs) auto
qed simp

lemma line_content_plain [simp]: "\<not> ends_with l [NL] \<Longrightarrow> line_content l = l"
  by (simp add: line_content_def ends_with_def)

lemma line_content_snoc:
  "line_content (l @ [NL]) = (case strip_suffix [CR] l of None \<Rightarrow> l | Some l' \<Rightarrow> l')"
  by (simp add: line_content_def)

lemma line_content_snoc_plain:
  "\<not> ends_with l [CR] \<Longrightarrow> line_content (l @ [NL]) = l"
  by (simp add: line_content_snoc ends_with_def)

text \<open>Lines without line feeds and without a final carriage return survive being printed
  one per line and read back.\<close>

definition clean_line :: "string \<Rightarrow> bool" where
  "clean_line l \<longleftrightarrow> NL \<notin> set l \<and> CR \<notin> set l"

lemma clean_lineD: "clean_line l \<Longrightarrow> NL \<notin> set l" "clean_line l \<Longrightarrow> \<not> ends_with l [CR]"
  by (auto simp: clean_line_def ends_with_iff)

lemma lines_append_line: "clean_line l \<Longrightarrow> lines (l @ NL # t) = l # lines t"
  by (simp add: lines_def split_inclusive_append line_content_snoc_plain clean_lineD)

lemma lines_concat:
  "\<forall>l \<in> set ls. clean_line l \<Longrightarrow> lines (concat (map (\<lambda>l. l @ [NL]) ls)) = ls"
  by (induction ls) (auto simp: lines_append_line, simp add: lines_def)

lemma lines_single: "clean_line l \<Longrightarrow> l \<noteq> [] \<Longrightarrow> lines l = [l]"
  by (simp add: lines_def split_inclusive_no_sep clean_line_def)
    (rule line_content_plain, auto simp: ends_with_iff)

lemma lines_join:
  "\<forall>l \<in> set ls. clean_line l \<Longrightarrow> ls \<noteq> [] \<Longrightarrow> last ls \<noteq> [] \<Longrightarrow> lines (join [NL] ls) = ls"
  by (induction "[NL]" ls rule: join.induct) (auto simp: lines_single lines_append_line)

section \<open>Searching and replacing\<close>

fun find_byte :: "('a \<Rightarrow> bool) \<Rightarrow> 'a list \<Rightarrow> nat option" where
  "find_byte P [] = None"
| "find_byte P (x # xs) = (if P x then Some 0 else map_option Suc (find_byte P xs))"

lemma find_byte_Some:
  "find_byte P s = Some i \<longleftrightarrow> i < length s \<and> P (s ! i) \<and> (\<forall>j < i. \<not> P (s ! j))"
proof (induction s arbitrary: i)
  case (Cons x xs)
  then show ?case by (cases i) (auto simp: nth_Cons' less_Suc_eq_0_disj)
qed simp

lemma find_byte_None: "find_byte P s = None \<longleftrightarrow> (\<forall>x \<in> set s. \<not> P x)"
  by (induction s) auto

text \<open>\<open>s.split_once(c)\<close>\<close>

definition split_once :: "'a \<Rightarrow> 'a list \<Rightarrow> ('a list \<times> 'a list) option" where
  "split_once c s = (case find_byte (\<lambda>x. x = c) s of None \<Rightarrow> None
     | Some i \<Rightarrow> Some (take i s, drop (Suc i) s))"

lemma split_once_Some: "split_once c s = Some (a, b) \<longleftrightarrow> s = a @ c # b \<and> c \<notin> set a"
proof
  assume "split_once c s = Some (a, b)"
  then obtain i where i: "find_byte (\<lambda>x. x = c) s = Some i" "a = take i s" "b = drop (Suc i) s"
    by (auto simp: split_once_def split: option.splits)
  then have "i < length s" "s ! i = c" "\<forall>j < i. s ! j \<noteq> c" by (auto simp: find_byte_Some)
  with i show "s = a @ c # b \<and> c \<notin> set a"
    by (auto simp: id_take_nth_drop [symmetric] in_set_conv_nth)
next
  assume a: "s = a @ c # b \<and> c \<notin> set a"
  then have "find_byte (\<lambda>x. x = c) s = Some (length a)"
    by (auto simp: find_byte_Some nth_append)
  with a show "split_once c s = Some (a, b)" by (simp add: split_once_def)
qed

lemma split_once_None: "split_once c s = None \<longleftrightarrow> c \<notin> set s"
  using find_byte_None [of "\<lambda>x. x = c" s] by (auto simp: split_once_def split: option.splits)

definition contains_sub :: "'a list \<Rightarrow> 'a list \<Rightarrow> bool" where
  "contains_sub s p \<longleftrightarrow> list_ex (\<lambda>t. starts_with t p) (suffixes s)"

lemma contains_sub_iff: "contains_sub s p \<longleftrightarrow> (\<exists>a b. s = a @ p @ b)"
  by (simp add: contains_sub_def list_ex_iff starts_with_iff set_suffixes_eq suffix_def) blast

text \<open>\<open>s.replace(p, r)\<close> for a non-empty pattern: non-overlapping, left to right. The first
  argument counts the bytes of a match still to be skipped.\<close>

fun replace_from :: "nat \<Rightarrow> 'a list \<Rightarrow> 'a list \<Rightarrow> 'a list \<Rightarrow> 'a list" where
  "replace_from k p r [] = []"
| "replace_from (Suc k) p r (x # xs) = replace_from k p r xs"
| "replace_from 0 p r (x # xs) =
     (if starts_with (x # xs) p then r @ replace_from (length p - 1) p r xs
      else x # replace_from 0 p r xs)"

definition replace :: "'a list \<Rightarrow> 'a list \<Rightarrow> 'a list \<Rightarrow> 'a list" where
  "replace p r s = replace_from 0 p r s"

lemma replace_Nil [simp]: "replace p r [] = []"
  by (simp add: replace_def)

lemma replace_from_skip: "replace_from (length q) p r (q @ s) = replace_from 0 p r s"
  by (induction q) auto

lemma replace_match:
  "p \<noteq> [] \<Longrightarrow> replace p r (p @ s) = r @ replace p r s"
  by (cases p) (auto simp: replace_def starts_with_iff replace_from_skip)

lemma replace_no_match:
  "\<not> starts_with (x # s) p \<Longrightarrow> replace p r (x # s) = x # replace p r s"
  by (simp add: replace_def)

section \<open>ASCII\<close>

abbreviation code :: "char \<Rightarrow> nat" where "code c \<equiv> of_char c"

definition is_ascii_digit :: "char \<Rightarrow> bool" where
  "is_ascii_digit c \<longleftrightarrow> 0x30 \<le> code c \<and> code c \<le> 0x39"

definition is_ascii_upper :: "char \<Rightarrow> bool" where
  "is_ascii_upper c \<longleftrightarrow> 0x41 \<le> code c \<and> code c \<le> 0x5A"

definition is_ascii_lower :: "char \<Rightarrow> bool" where
  "is_ascii_lower c \<longleftrightarrow> 0x61 \<le> code c \<and> code c \<le> 0x7A"

definition is_ascii_alphabetic :: "char \<Rightarrow> bool" where
  "is_ascii_alphabetic c \<longleftrightarrow> is_ascii_upper c \<or> is_ascii_lower c"

definition is_ascii_alphanumeric :: "char \<Rightarrow> bool" where
  "is_ascii_alphanumeric c \<longleftrightarrow> is_ascii_alphabetic c \<or> is_ascii_digit c"

definition ascii_lower :: "char \<Rightarrow> char" where
  "ascii_lower c = (if is_ascii_upper c then char_of (code c + 32) else c)"

definition to_ascii_lowercase :: "string \<Rightarrow> string" where
  "to_ascii_lowercase s = map ascii_lower s"

definition eq_ignore_ascii_case :: "string \<Rightarrow> string \<Rightarrow> bool" where
  "eq_ignore_ascii_case s t \<longleftrightarrow> to_ascii_lowercase s = to_ascii_lowercase t"

text \<open>A byte index of a string is a character boundary unless the byte there continues a
  UTF-8 sequence.\<close>

definition is_continuation :: "char \<Rightarrow> bool" where
  "is_continuation c \<longleftrightarrow> 0x80 \<le> code c \<and> code c \<le> 0xBF"

definition is_char_boundary :: "string \<Rightarrow> nat \<Rightarrow> bool" where
  "is_char_boundary s i \<longleftrightarrow> i = 0 \<or> i = length s \<or> (i < length s \<and> \<not> is_continuation (s ! i))"

lemma ascii_lower_idem [simp]: "ascii_lower (ascii_lower c) = ascii_lower c"
  by (auto simp: ascii_lower_def is_ascii_upper_def)

lemma to_ascii_lowercase_idem [simp]:
  "to_ascii_lowercase (to_ascii_lowercase s) = to_ascii_lowercase s"
  by (simp add: to_ascii_lowercase_def)

section \<open>Fixed-width arithmetic\<close>

definition saturating_add :: "'a::len word \<Rightarrow> 'a word \<Rightarrow> 'a word" where
  "saturating_add a b = (if unat a + unat b < 2 ^ LENGTH('a) then a + b else - 1)"

definition saturating_mul :: "'a::len word \<Rightarrow> 'a word \<Rightarrow> 'a word" where
  "saturating_mul a b = (if unat a * unat b < 2 ^ LENGTH('a) then a * b else - 1)"

definition saturating_sub :: "'a::len word \<Rightarrow> 'a word \<Rightarrow> 'a word" where
  "saturating_sub a b = (if b \<le> a then a - b else 0)"

lemma unat_minus_one_word: "unat (- 1 :: 'a::len word) = 2 ^ LENGTH('a) - 1"
  by (simp add: unsigned_minus_1_eq_mask mask_eq_exp_minus_1)

lemma unat_saturating_add:
  "unat (saturating_add a (b :: 'a::len word)) = min (unat a + unat b) (2 ^ LENGTH('a) - 1)"
  by (auto simp: saturating_add_def unat_word_ariths unat_minus_one_word)

lemma unat_saturating_mul:
  "unat (saturating_mul a (b :: 'a::len word)) = min (unat a * unat b) (2 ^ LENGTH('a) - 1)"
  by (auto simp: saturating_mul_def unat_word_ariths unat_minus_one_word)

lemma unat_saturating_sub:
  "unat (saturating_sub a (b :: 'a::len word)) = unat a - unat b"
  by (auto simp: saturating_sub_def unat_sub word_le_nat_alt)

section \<open>Lists\<close>

text \<open>\<open>filter_map\<close> of an iterator.\<close>

abbreviation filter_map :: "('a \<Rightarrow> 'b option) \<Rightarrow> 'a list \<Rightarrow> 'b list" where
  "filter_map f xs \<equiv> List.map_filter f xs"

lemma filter_map_append [simp]: "filter_map f (xs @ ys) = filter_map f xs @ filter_map f ys"
  by (induction xs) (auto split: option.splits)

lemma set_filter_map: "set (filter_map f xs) = {y. \<exists>x \<in> set xs. f x = Some y}"
  by (induction xs) (auto split: option.splits)


lemma find_upt_Some:
  "find P [a ..< b] = Some i \<longleftrightarrow> a \<le> i \<and> i < b \<and> P i \<and> (\<forall>j. a \<le> j \<and> j < i \<longrightarrow> \<not> P j)" (is "?l \<longleftrightarrow> ?r")
proof
  assume ?l
  then obtain k where k: "k < b - a" "i = a + k" "P i" "\<forall>j < k. \<not> P (a + j)"
    by (auto simp: find_Some_iff)
  have "\<not> P j" if "a \<le> j" "j < i" for j
    using k(4) [rule_format, of "j - a"] that k(2) by simp
  then show ?r using k by auto
next
  assume ?r
  then show ?l by (auto simp: find_Some_iff intro!: exI [of _ "i - a"])
qed

section \<open>Strings that trimming leaves alone\<close>

definition is_ascii_graphic :: "char \<Rightarrow> bool" where
  "is_ascii_graphic c \<longleftrightarrow> 0x21 \<le> code c \<and> code c \<le> 0x7E"

lemma ws_encodings_not_graphic:
  "list_all (\<lambda>w. w \<noteq> [] \<and> \<not> is_ascii_graphic (hd w) \<and> \<not> is_ascii_graphic (last w)) ws_encodings"
  by code_simp

lemma strip_any_ws_graphic:
  assumes "s \<noteq> []" and "is_ascii_graphic (hd s)"
  shows "strip_any ws_encodings s = None"
proof -
  have "\<not> starts_with s w" if "w \<in> set ws_encodings" for w
    using assms that ws_encodings_not_graphic
    by (cases w) (auto simp: starts_with_iff list_all_iff)
  then show ?thesis by (simp add: strip_any_None)
qed

lemma strip_any_ws_rev_graphic:
  assumes "s \<noteq> []" and "is_ascii_graphic (hd s)"
  shows "strip_any (map rev ws_encodings) s = None"
proof -
  have "\<not> starts_with s (rev w)" if "w \<in> set ws_encodings" for w
  proof
    assume "starts_with s (rev w)"
    then obtain r where "s = rev w @ r" by (auto simp: starts_with_iff)
    moreover have "w \<noteq> []" "\<not> is_ascii_graphic (last w)"
      using that ws_encodings_not_graphic by (auto simp: list_all_iff)
    ultimately show False using assms by (simp add: hd_rev)
  qed
  then show ?thesis by (auto simp: strip_any_None)
qed

lemma trim_start_graphic: "s \<noteq> [] \<Longrightarrow> is_ascii_graphic (hd s) \<Longrightarrow> trim_start s = s"
  by (simp add: trim_start_def strip_many_id strip_any_ws_graphic)

lemma trim_end_graphic: "s \<noteq> [] \<Longrightarrow> is_ascii_graphic (last s) \<Longrightarrow> trim_end s = s"
  by (simp add: trim_end_def strip_many_id strip_any_ws_rev_graphic hd_rev)

lemma trim_graphic:
  "s \<noteq> [] \<Longrightarrow> is_ascii_graphic (hd s) \<Longrightarrow> is_ascii_graphic (last s) \<Longrightarrow> trim s = s"
  by (simp add: trim_def trim_start_graphic trim_end_graphic)

lemma trim_Nil [simp]: "trim [] = []" "trim_start [] = []" "trim_end [] = []"
  using trim_infix [of "[]"] trim_start_suffix [of "[]"] trim_end_prefix [of "[]"] by auto

lemma length_trim_le: "length (trim s) \<le> length s"
proof -
  obtain p q where "s = p @ trim s @ q" using trim_infix by blast
  then have "length s = length p + length (trim s) + length q" by (metis add.assoc length_append)
  then show ?thesis by simp
qed

lemma strip_many_concat: "\<exists>qs. set qs \<subseteq> set ps \<and> s = concat qs @ strip_many ps s"
proof (induction ps s rule: strip_many.induct)
  case (1 ps s)
  show ?case
  proof (cases "strip_any ps s")
    case None
    then show ?thesis by (intro exI [of _ "[]"]) (simp add: strip_many.simps)
  next
    case (Some r)
    then obtain p where p: "p \<in> set ps" "s = p @ r" by (meson strip_any_Some)
    show ?thesis
    proof (cases "length r < length s")
      case True
      then obtain qs where qs: "set qs \<subseteq> set ps" "r = concat qs @ strip_many ps r"
        using 1 Some by blast
      have "strip_many ps s = strip_many ps r" using Some True by (simp add: strip_many.simps [of ps s])
      then have "s = concat (p # qs) @ strip_many ps s" using p(2) qs(2) by simp
      then show ?thesis using p(1) qs(1) by (intro exI [of _ "p # qs"]) simp
    next
      case False
      then show ?thesis using Some by (intro exI [of _ "[]"]) (simp add: strip_many.simps [of ps s])
    qed
  qed
qed

lemma ws_bytes_not_graphic: "list_all (list_all (\<lambda>c. \<not> is_ascii_graphic c)) ws_encodings"
  by code_simp

lemma strip_many_keeps:
  assumes "\<forall>p \<in> set ps. \<forall>c \<in> set p. \<not> P c" and "x \<in> set s" and "P x"
  shows "x \<in> set (strip_many ps s)"
proof -
  obtain qs where qs: "set qs \<subseteq> set ps" "s = concat qs @ strip_many ps s" using strip_many_concat by blast
  have "x \<notin> set (concat qs)" using assms(1,3) qs(1) by auto
  then show ?thesis using assms(2) qs(2) by (metis Un_iff set_append)
qed

lemma trim_keeps_graphic: "c \<in> set s \<Longrightarrow> is_ascii_graphic c \<Longrightarrow> c \<in> set (trim s)"
  using ws_bytes_not_graphic
  by (auto simp: trim_def trim_end_def trim_start_def list_all_iff intro!: strip_many_keeps [of _ is_ascii_graphic])

lemma trim_nonempty: "s \<noteq> [] \<Longrightarrow> is_ascii_graphic (hd s) \<Longrightarrow> trim s \<noteq> []"
  using trim_keeps_graphic [of "hd s" s] by auto

section \<open>Trimming one side and then both\<close>

text \<open>The encodings of white space are prefix-free and suffix-free, and the first byte of one never
  continues another, so white space at the end can be stripped independently of the front.\<close>

lemma ws_prefix_free:
  "list_all (\<lambda>p. list_all (\<lambda>q. p = q \<or> \<not> starts_with p q) ws_encodings) ws_encodings"
  "list_all (\<lambda>p. list_all (\<lambda>q. p = q \<or> \<not> starts_with p q) (map rev ws_encodings)) (map rev ws_encodings)"
  "list_all (\<lambda>p. list_all (\<lambda>q. hd q \<notin> set (tl p)) ws_encodings) ws_encodings"
  by code_simp+

lemma strip_many_prefix_free:
  assumes "list_all (\<lambda>p. list_all (\<lambda>q. p = q \<or> \<not> starts_with p q) ps) ps" and "[] \<notin> set ps" and "p \<in> set ps"
  shows "strip_many ps (p @ s) = strip_many ps s"
proof -
  have "strip_any ps (p @ s) \<noteq> None"
    unfolding strip_any_None using assms(3) starts_with_append [of p s] by blast
  then obtain r where r: "strip_any ps (p @ s) = Some r" by blast
  then obtain q where q: "q \<in> set ps" "p @ s = q @ r" by (meson strip_any_Some)
  then have "starts_with p q \<or> starts_with q p"
    by (auto simp: append_eq_append_conv2 starts_with_iff)
  then have "p = q" using assms(1,3) q(1) by (auto simp: list_all_iff)
  then have "r = s" using q(2) by simp
  moreover have "p \<noteq> []" using assms(2,3) by auto
  ultimately show ?thesis using r by (simp add: strip_many.simps [of ps "p @ s"])
qed

lemma trim_start_ws: "q \<in> set ws_encodings \<Longrightarrow> trim_start (q @ s) = trim_start s"
  unfolding trim_start_def
  by (rule strip_many_prefix_free [OF ws_prefix_free(1) ws_encodings_nonempty(1)])

lemma trim_end_ws:
  assumes "q \<in> set ws_encodings"
  shows "trim_end (s @ q) = trim_end s"
proof -
  have "rev q \<in> set (map rev ws_encodings)" using assms by simp
  from strip_many_prefix_free [OF ws_prefix_free(2) ws_encodings_nonempty(2) this]
  show ?thesis by (simp add: trim_end_def)
qed

lemma strip_any_append_ws:
  assumes q: "q \<in> set ws_encodings" and "u \<noteq> []"
  shows "strip_any ws_encodings (u @ q) = map_option (\<lambda>r. r @ q) (strip_any ws_encodings u)"
proof -
  have step: "strip_prefix p (u @ q) = map_option (\<lambda>r. r @ q) (strip_prefix p u)" if "p \<in> set ws_encodings" for p
  proof (cases "strip_prefix p u")
    case None
    have "strip_prefix p (u @ q) = None"
    proof (rule ccontr)
      assume "strip_prefix p (u @ q) \<noteq> None"
      then obtain r where r: "u @ q = p @ r" by (auto simp: strip_prefix_iff)
      moreover have "\<not> (\<exists>u'. u = p @ u')" using None by (metis option.distinct(1) strip_prefix_append)
      ultimately obtain q1 where q1: "p = u @ q1" "q = q1 @ r" "q1 \<noteq> []"
        by (auto simp: append_eq_append_conv2)
      then have "hd q \<in> set (tl p)" using assms(2) by (cases u; cases q1) auto
      then show False using that q ws_prefix_free(3) by (auto simp: list_all_iff)
    qed
    then show ?thesis using None by simp
  next
    case (Some r)
    then have "u @ q = p @ r @ q" by (simp add: strip_prefix_iff)
    then show ?thesis using Some by (simp add: strip_prefix_iff)
  qed
  have "set ps \<subseteq> set ws_encodings \<Longrightarrow> strip_any ps (u @ q) = map_option (\<lambda>r. r @ q) (strip_any ps u)" for ps
    by (induction ps) (auto simp: step split: option.splits)
  then show ?thesis by simp
qed

lemma trim_start_append_ws:
  assumes "q \<in> set ws_encodings"
  shows "trim_start (u @ q) = (if trim_start u = [] then [] else trim_start u @ q)"
proof (induction u rule: length_induct)
  case (1 u)
  have q: "trim_start q = []" using trim_start_ws [OF assms, of "[]"] by simp
  show ?case
  proof (cases "u = []")
    case False
    show ?thesis
    proof (cases "strip_any ws_encodings u")
      case None
      then have "trim_start u = u" "trim_start (u @ q) = u @ q"
        using strip_any_append_ws [OF assms False] by (simp_all add: trim_start_def strip_many_id)
      then show ?thesis using False by simp
    next
      case (Some r)
      then obtain p where p: "p \<in> set ws_encodings" "u = p @ r" by (meson strip_any_Some)
      moreover have "p \<noteq> []" using p(1) ws_encodings_nonempty(1) by metis
      ultimately have "length r < length u" by simp
      then show ?thesis using 1 p by (simp add: trim_start_ws)
    qed
  qed (simp add: q)
qed

lemma trim_append_ws: "q \<in> set ws_encodings \<Longrightarrow> trim (u @ q) = trim u"
  by (simp add: trim_def trim_start_append_ws trim_end_ws)

lemma trim_append_ws_many: "set qs \<subseteq> set ws_encodings \<Longrightarrow> trim (u @ concat qs) = trim u"
  by (induction qs rule: rev_induct) (simp_all add: trim_append_ws append_assoc [symmetric] del: append_assoc)

lemma trim_trim_end: "trim (trim_end s) = trim s"
proof -
  obtain qs where qs: "set qs \<subseteq> set (map rev ws_encodings)"
    "rev s = concat qs @ strip_many (map rev ws_encodings) (rev s)"
    using strip_many_concat by blast
  have "s = trim_end s @ rev (concat qs)"
    unfolding trim_end_def by (metis qs(2) rev_append rev_rev_ident)
  moreover have "rev (concat qs) = concat (map rev (rev qs))" by (simp add: rev_concat)
  moreover have "set (map rev (rev qs)) \<subseteq> set ws_encodings" using qs(1) by auto
  ultimately show ?thesis using trim_append_ws_many by metis
qed

section \<open>Numbers and paths as text\<close>

fun dec_of_nat :: "nat \<Rightarrow> string" where
  "dec_of_nat n = (if n < 10 then [char_of (0x30 + n)] else dec_of_nat (n div 10) @ [char_of (0x30 + n mod 10)])"

declare dec_of_nat.simps [simp del]

text \<open>\<open>Path::join\<close> on Unix: an absolute path replaces the base.\<close>

definition path_join :: "string \<Rightarrow> string \<Rightarrow> string" where
  "path_join base p =
     (if starts_with p ''/'' then p
      else if base = [] \<or> ends_with base ''/'' then base @ p else base @ ''/'' @ p)"

text \<open>\<open>Path::parent\<close> on Unix, on the reversed path: trailing separators and dot components are
  skipped before and after the last component.\<close>

fun skip_seps_rev :: "string \<Rightarrow> string" where
  "skip_seps_rev (c # d # r) =
     (if c = CHR ''/'' then skip_seps_rev (d # r)
      else if c = CHR ''.'' \<and> d = CHR ''/'' then skip_seps_rev r
      else c # d # r)"
| "skip_seps_rev [c] = (if c = CHR ''/'' then [] else [c])"
| "skip_seps_rev [] = []"

definition path_parent :: "string \<Rightarrow> string option" where
  "path_parent p =
     (let r = skip_seps_rev (rev p)
      in if r = [] then None
         else (let r' = dropWhile (\<lambda>c. c \<noteq> CHR ''/'') r; q = skip_seps_rev r'
               in if q = [] \<and> r' \<noteq> [] then Some ''/'' else Some (rev q)))"

section \<open>Numbers in text\<close>

text \<open>\<open>str::parse\<close> for an unsigned integer of the given maximum: an optional plus sign and at
  least one decimal digit, without overflow.\<close>

definition parse_unsigned :: "nat \<Rightarrow> string \<Rightarrow> nat option" where
  "parse_unsigned bound s =
     (let ds = (case strip_prefix ''+'' s of Some r \<Rightarrow> r | None \<Rightarrow> s);
          n = foldl (\<lambda>acc c. 10 * acc + (code c - 0x30)) 0 ds
      in if ds \<noteq> [] \<and> list_all is_ascii_digit ds \<and> n \<le> bound then Some n else None)"

definition hex_digit :: "nat \<Rightarrow> char" where
  "hex_digit d = (if d < 10 then char_of (0x30 + d) else char_of (0x57 + d))"

text \<open>\<open>format!("{n:x}")\<close>: lower-case, no leading zeros, one digit for zero.\<close>

fun hex_of_nat :: "nat \<Rightarrow> string" where
  "hex_of_nat n = (if n < 16 then [hex_digit n] else hex_of_nat (n div 16) @ [hex_digit (n mod 16)])"

declare hex_of_nat.simps [simp del]

definition rsplit_once :: "'a \<Rightarrow> 'a list \<Rightarrow> ('a list \<times> 'a list) option" where
  "rsplit_once c s = map_option (\<lambda>(a, b). (rev b, rev a)) (split_once c (rev s))"

lemma if_memI: "a \<in> S \<Longrightarrow> b \<in> S \<Longrightarrow> (if c then a else b) \<in> S"
  by simp

lemma if_memI2: "(c \<Longrightarrow> a \<in> S) \<Longrightarrow> (\<not> c \<Longrightarrow> b \<in> S) \<Longrightarrow> (if c then a else b) \<in> S"
  by simp

end
