(* ===== verification/Ledger.thy ===== *)
theory Ledger
  imports Prelude
begin

text \<open>
  The interface shared by the components that own items on behalf of a caller: the
  message-delivery lifecycle and the interjection buffer. A step takes some items in and
  gives some out, and nothing else appears or vanishes. The laws of one step are the
  assumptions of the locale \<open>item_ledger\<close>; inside it they are carried to whole runs.
  Each component interprets the locale on its own step function.
\<close>

locale item_ledger =
  fixes step :: "'st \<Rightarrow> 'op \<Rightarrow> 'st"
    and held :: "'st \<Rightarrow> 'item list"
    and taken_in :: "'st \<Rightarrow> 'op \<Rightarrow> 'item list"
    and given_out :: "'st \<Rightarrow> 'op \<Rightarrow> 'item list"
  assumes step_balance:
    "mset (held (step s a)) + mset (given_out s a) = mset (held s) + mset (taken_in s a)"
begin

fun run :: "'st \<Rightarrow> 'op list \<Rightarrow> 'st" where
  "run s [] = s"
| "run s (a # as) = run (step s a) as"

fun run_in :: "'st \<Rightarrow> 'op list \<Rightarrow> 'item list" where
  "run_in s [] = []"
| "run_in s (a # as) = taken_in s a @ run_in (step s a) as"

fun run_out :: "'st \<Rightarrow> 'op list \<Rightarrow> 'item list" where
  "run_out s [] = []"
| "run_out s (a # as) = given_out s a @ run_out (step s a) as"

lemma run_append: "run s (as @ bs) = run (run s as) bs"
  by (induction as arbitrary: s) auto

lemma run_balance:
  "mset (held (run s as)) + mset (run_out s as) = mset (held s) + mset (run_in s as)"
proof (induction as arbitrary: s)
  case (Cons a as)
  have "mset (held (run s (a # as))) + mset (run_out s (a # as))
      = mset (held (step s a)) + mset (given_out s a) + mset (run_in (step s a) as)"
    using Cons [of "step s a"] by (simp add: ac_simps)
  also have "\<dots> = mset (held s) + mset (run_in s (a # as))"
    by (simp only: step_balance run_in.simps mset_append add.assoc)
  finally show ?case .
qed simp

lemma no_loss_no_duplication:
  assumes "held s = []" and "held (run s as) = []"
  shows "mset (run_out s as) = mset (run_in s as)"
  using run_balance [of s as] assms by simp

lemma out_bounded_by_in:
  assumes "held s = []"
  shows "mset (run_out s as) \<subseteq># mset (run_in s as)"
  using run_balance [of s as] assms by (simp add: mset_subset_eq_exists_conv) (metis add.commute)

end

end
