(* ===== verification/Message_Delivery.thy ===== *)
theory Message_Delivery
  imports Ledger
begin

text \<open>
  The crate \<open>xai-message-delivery-core\<close>: turn-bound ownership of messages that are delivered
  at a safe point (\<open>lifecycle.rs\<close>), opaque child addresses (\<open>address.rs\<close>), restart-stable
  agent identities (\<open>identity.rs\<close>) and the authorisation of delivery operations
  (\<open>envelope.rs\<close>). The type parameters of the Rust generics are type variables here.
\<close>

unbundle bit_operations_syntax

section \<open>Lifecycle: data\<close>

record ('p, 'e) turn_binding =
  tb_prompt_id :: 'p
  tb_epoch :: 'e

record ('i, 's, 'c) delivery_message =
  identity :: 'i
  source :: 's
  content :: 'c

record ('i, 's, 'c, 'k, 'p, 'e) owned_delivery =
  binding :: "('p, 'e) turn_binding"
  message :: "('i, 's, 'c) delivery_message"
  completion :: 'k

datatype ('i, 's, 'c, 'k, 'p, 'e) delivery_slot =
    Pending "('i, 's, 'c, 'k, 'p, 'e) owned_delivery"
  | Projecting "('i, 's, 'c, 'k, 'p, 'e) owned_delivery"
  | Delivered "('i, 's, 'c, 'k, 'p, 'e) owned_delivery"

fun owned :: "('i, 's, 'c, 'k, 'p, 'e) delivery_slot \<Rightarrow> ('i, 's, 'c, 'k, 'p, 'e) owned_delivery" where
  "owned (Pending d) = d"
| "owned (Projecting d) = d"
| "owned (Delivered d) = d"

datatype terminal_cause = Completion | SoftCancel | Rewind | HardTeardown | ActorDrop

fun falls_back :: "terminal_cause \<Rightarrow> bool" where
  "falls_back Completion = True"
| "falls_back SoftCancel = True"
| "falls_back Rewind = True"
| "falls_back HardTeardown = False"
| "falls_back ActorDrop = False"

datatype ('p, 'e) terminal_target = Turn "('p, 'e) turn_binding" | All

record ('i, 's, 'c, 'k, 'p, 'e) terminal_transition =
  fallbacks :: "('i, 's, 'c, 'k, 'p, 'e) owned_delivery list"
  completions :: "('i, 's, 'c, 'k, 'p, 'e) owned_delivery list"

text \<open>The lifecycle has the single field \<open>slots\<close>.\<close>

type_synonym ('i, 's, 'c, 'k, 'p, 'e) slots = "('i, 's, 'c, 'k, 'p, 'e) delivery_slot list"

abbreviation slot_identity :: "('i, 's, 'c, 'k, 'p, 'e) delivery_slot \<Rightarrow> 'i" where
  "slot_identity sl \<equiv> identity (message (owned sl))"

abbreviation slot_binding :: "('i, 's, 'c, 'k, 'p, 'e) delivery_slot \<Rightarrow> ('p, 'e) turn_binding" where
  "slot_binding sl \<equiv> binding (owned sl)"

section \<open>Lifecycle: operations\<close>

definition lifecycle_default :: "('i, 's, 'c, 'k, 'p, 'e) slots" where
  "lifecycle_default = []"

definition lifecycle_is_empty :: "('i, 's, 'c, 'k, 'p, 'e) slots \<Rightarrow> bool" where
  "lifecycle_is_empty l \<longleftrightarrow> l = []"

definition contains_identity :: "('i, 's, 'c, 'k, 'p, 'e) slots \<Rightarrow> 'i \<Rightarrow> bool" where
  "contains_identity l i \<longleftrightarrow> list_ex (\<lambda>sl. slot_identity sl = i) l"

text \<open>\<open>Err(message)\<close> hands the message back and leaves the state as it was.\<close>

definition admit_pending ::
  "('i, 's, 'c, 'k, 'p, 'e) slots \<Rightarrow> ('p, 'e) turn_binding \<Rightarrow> ('i, 's, 'c) delivery_message \<Rightarrow> 'k
   \<Rightarrow> (('i, 's, 'c) delivery_message + unit) \<times> ('i, 's, 'c, 'k, 'p, 'e) slots" where
  "admit_pending l b m k =
     (if list_ex (\<lambda>sl. slot_identity sl = identity m) l then (Inl m, l)
      else (Inr (), l @ [Pending \<lparr>binding = b, message = m, completion = k\<rparr>]))"

definition pending_messages ::
  "('i, 's, 'c, 'k, 'p, 'e) slots \<Rightarrow> ('p, 'e) turn_binding \<Rightarrow> ('i, 's, 'c) delivery_message list" where
  "pending_messages l b = filter_map (\<lambda>sl. case sl of
       Pending d \<Rightarrow> (if binding d = b then Some (message d) else None)
     | _ \<Rightarrow> None) l"

definition begin_slot ::
  "('p, 'e) turn_binding \<Rightarrow> ('i, 's, 'c, 'k, 'p, 'e) delivery_slot \<Rightarrow> ('i, 's, 'c, 'k, 'p, 'e) delivery_slot" where
  "begin_slot b sl = (case sl of
       Pending d \<Rightarrow> (if binding d = b then Projecting d else sl)
     | _ \<Rightarrow> sl)"

definition begin_delivery ::
  "('i, 's, 'c, 'k, 'p, 'e) slots \<Rightarrow> ('p, 'e) turn_binding
   \<Rightarrow> ('i, 's, 'c) delivery_message list \<times> ('i, 's, 'c, 'k, 'p, 'e) slots" where
  "begin_delivery l b =
     (let messages = pending_messages l b
      in if messages = [] then (messages, l) else (messages, map (begin_slot b) l))"

definition projecting_messages ::
  "('i, 's, 'c, 'k, 'p, 'e) slots \<Rightarrow> ('p, 'e) turn_binding \<Rightarrow> ('i, 's, 'c) delivery_message list" where
  "projecting_messages l b = filter_map (\<lambda>sl. case sl of
       Projecting d \<Rightarrow> (if binding d = b then Some (message d) else None)
     | _ \<Rightarrow> None) l"

definition finish_slot ::
  "('p, 'e) turn_binding \<Rightarrow> ('i, 's, 'c, 'k, 'p, 'e) delivery_slot \<Rightarrow> ('i, 's, 'c, 'k, 'p, 'e) delivery_slot" where
  "finish_slot b sl = (case sl of
       Projecting d \<Rightarrow> (if binding d = b then Delivered d else sl)
     | _ \<Rightarrow> sl)"

text \<open>The callback \<open>commit\<close> is the caller's; it is called only when there is something to
  commit, and its error leaves the slots unchanged.\<close>

definition finish_delivery ::
  "('i, 's, 'c, 'k, 'p, 'e) slots \<Rightarrow> ('p, 'e) turn_binding
   \<Rightarrow> (('i, 's, 'c) delivery_message list \<Rightarrow> 'err + unit)
   \<Rightarrow> ('err + ('i, 's, 'c) delivery_message list) \<times> ('i, 's, 'c, 'k, 'p, 'e) slots" where
  "finish_delivery l b commit =
     (let messages = projecting_messages l b
      in if messages = [] then (Inr messages, l)
         else case commit messages of
             Inl err \<Rightarrow> (Inl err, l)
           | Inr _ \<Rightarrow> (Inr messages, map (finish_slot b) l))"

definition target_matches ::
  "('p, 'e) terminal_target \<Rightarrow> ('i, 's, 'c, 'k, 'p, 'e) delivery_slot \<Rightarrow> bool" where
  "target_matches target sl = (case target of Turn b \<Rightarrow> slot_binding sl = b | All \<Rightarrow> True)"

fun transition_from ::
  "('p, 'e) terminal_target \<Rightarrow> terminal_cause \<Rightarrow> ('i, 's, 'c, 'k, 'p, 'e) terminal_transition
   \<Rightarrow> ('i, 's, 'c, 'k, 'p, 'e) slots
   \<Rightarrow> ('i, 's, 'c, 'k, 'p, 'e) terminal_transition \<times> ('i, 's, 'c, 'k, 'p, 'e) slots" where
  "transition_from target cause t [] = (t, [])"
| "transition_from target cause t (sl # l) =
     (if \<not> target_matches target sl then
        (let (t', l') = transition_from target cause t l in (t', sl # l'))
      else
        (case sl of
           Pending d \<Rightarrow>
             if falls_back cause
             then transition_from target cause (t\<lparr>fallbacks := fallbacks t @ [d]\<rparr>) l
             else transition_from target cause (t\<lparr>completions := completions t @ [d]\<rparr>) l
         | Projecting d \<Rightarrow> transition_from target cause (t\<lparr>completions := completions t @ [d]\<rparr>) l
         | Delivered d \<Rightarrow> transition_from target cause (t\<lparr>completions := completions t @ [d]\<rparr>) l))"

definition transition ::
  "('i, 's, 'c, 'k, 'p, 'e) slots \<Rightarrow> ('p, 'e) terminal_target \<Rightarrow> terminal_cause
   \<Rightarrow> ('i, 's, 'c, 'k, 'p, 'e) terminal_transition \<times> ('i, 's, 'c, 'k, 'p, 'e) slots" where
  "transition l target cause =
     transition_from target cause \<lparr>fallbacks = [], completions = []\<rparr> l"

section \<open>Lifecycle: behaviour of the operations\<close>

lemma owned_begin_slot [simp]: "owned (begin_slot b sl) = owned sl"
  by (simp add: begin_slot_def split: delivery_slot.splits)

lemma owned_finish_slot [simp]: "owned (finish_slot b sl) = owned sl"
  by (simp add: finish_slot_def split: delivery_slot.splits)

lemma map_owned_begin [simp]: "map owned (snd (begin_delivery l b)) = map owned l"
  by (simp add: begin_delivery_def Let_def)

lemma map_owned_finish [simp]: "map owned (snd (finish_delivery l b commit)) = map owned l"
  by (simp add: finish_delivery_def Let_def split: sum.splits)

fun is_Pending :: "('i, 's, 'c, 'k, 'p, 'e) delivery_slot \<Rightarrow> bool" where
  "is_Pending (Pending d) = True"
| "is_Pending _ = False"

lemma pending_messages_eq:
  "pending_messages l b =
     map (\<lambda>sl. message (owned sl)) (filter (\<lambda>sl. is_Pending sl \<and> slot_binding sl = b) l)"
  unfolding pending_messages_def
  by (induction l) (auto split: delivery_slot.splits)

lemma begin_no_pending:
  assumes "sl \<in> set (snd (begin_delivery l b))" and "slot_binding sl = b"
  shows "\<not> is_Pending sl"
proof (cases "pending_messages l b = []")
  case True
  then have "filter (\<lambda>sl. is_Pending sl \<and> slot_binding sl = b) l = []"
    by (simp add: pending_messages_eq)
  with assms True show ?thesis by (auto simp: begin_delivery_def filter_empty_conv)
next
  case False
  with assms obtain sl' where "sl' \<in> set l" "sl = begin_slot b sl'"
    by (auto simp: begin_delivery_def Let_def)
  with assms show ?thesis by (auto simp: begin_slot_def split: delivery_slot.splits if_splits)
qed

text \<open>The reference definition of a terminal transition: three filters.\<close>

definition falls_back_slot :: "terminal_cause \<Rightarrow> ('i, 's, 'c, 'k, 'p, 'e) delivery_slot \<Rightarrow> bool" where
  "falls_back_slot cause sl \<longleftrightarrow> is_Pending sl \<and> falls_back cause"

lemma transition_from_eq:
  "transition_from target cause t l =
     (\<lparr>fallbacks = fallbacks t @ map owned (filter (\<lambda>sl. target_matches target sl \<and> falls_back_slot cause sl) l),
       completions = completions t @ map owned (filter (\<lambda>sl. target_matches target sl \<and> \<not> falls_back_slot cause sl) l)\<rparr>,
      filter (\<lambda>sl. \<not> target_matches target sl) l)"
  by (induction l arbitrary: t) (auto simp: falls_back_slot_def split: delivery_slot.splits)

lemma transition_eq:
  "transition l target cause =
     (\<lparr>fallbacks = map owned (filter (\<lambda>sl. target_matches target sl \<and> falls_back_slot cause sl) l),
       completions = map owned (filter (\<lambda>sl. target_matches target sl \<and> \<not> falls_back_slot cause sl) l)\<rparr>,
      filter (\<lambda>sl. \<not> target_matches target sl) l)"
  by (simp add: transition_def transition_from_eq)

section \<open>Lifecycle: invariant and runs\<close>

text \<open>An identity is owned by at most one slot.\<close>

definition lifecycle_inv :: "('i, 's, 'c, 'k, 'p, 'e) slots \<Rightarrow> bool" where
  "lifecycle_inv l \<longleftrightarrow> distinct (map slot_identity l)"

datatype ('i, 's, 'c, 'k, 'p, 'e) lifecycle_op =
    AdmitOp "('p, 'e) turn_binding" "('i, 's, 'c) delivery_message" 'k
  | BeginOp "('p, 'e) turn_binding"
  | FinishOp "('p, 'e) turn_binding" "('i, 's, 'c) delivery_message list \<Rightarrow> bool"
  | TransitionOp "('p, 'e) terminal_target" terminal_cause

text \<open>\<open>commit\<close> of a \<open>FinishOp\<close> is its success as a function of the messages it is given.\<close>

fun lifecycle_step ::
  "('i, 's, 'c, 'k, 'p, 'e) slots \<Rightarrow> ('i, 's, 'c, 'k, 'p, 'e) lifecycle_op \<Rightarrow> ('i, 's, 'c, 'k, 'p, 'e) slots" where
  "lifecycle_step l (AdmitOp b m k) = snd (admit_pending l b m k)"
| "lifecycle_step l (BeginOp b) = snd (begin_delivery l b)"
| "lifecycle_step l (FinishOp b commit) =
     snd (finish_delivery l b (\<lambda>ms. if commit ms then Inr () else Inl ()))"
| "lifecycle_step l (TransitionOp target cause) = snd (transition l target cause)"

fun lifecycle_admitted ::
  "('i, 's, 'c, 'k, 'p, 'e) slots \<Rightarrow> ('i, 's, 'c, 'k, 'p, 'e) lifecycle_op \<Rightarrow> ('i, 's, 'c, 'k, 'p, 'e) owned_delivery list" where
  "lifecycle_admitted l (AdmitOp b m k) =
     (case fst (admit_pending l b m k) of
        Inl _ \<Rightarrow> [] | Inr _ \<Rightarrow> [\<lparr>binding = b, message = m, completion = k\<rparr>])"
| "lifecycle_admitted l _ = []"

fun lifecycle_released ::
  "('i, 's, 'c, 'k, 'p, 'e) slots \<Rightarrow> ('i, 's, 'c, 'k, 'p, 'e) lifecycle_op \<Rightarrow> ('i, 's, 'c, 'k, 'p, 'e) owned_delivery list" where
  "lifecycle_released l (TransitionOp target cause) =
     fallbacks (fst (transition l target cause)) @ completions (fst (transition l target cause))"
| "lifecycle_released l _ = []"

lemma mset_map_partition3:
  "mset (map f (filter (\<lambda>x. \<not> P x) l)) + mset (map f (filter (\<lambda>x. P x \<and> Q x) l)
     @ map f (filter (\<lambda>x. P x \<and> \<not> Q x) l)) = mset (map f l)"
  by (induction l) auto

lemma lifecycle_step_balance:
  "mset (map owned (lifecycle_step l a)) + mset (lifecycle_released l a)
     = mset (map owned l) + mset (lifecycle_admitted l a)"
proof (cases a)
  case (TransitionOp target cause)
  then show ?thesis
    using mset_map_partition3 [of owned "target_matches target" l "falls_back_slot cause"]
    by (simp add: transition_eq)
next
  case (BeginOp b)
  then show ?thesis by (simp del: mset_map)
next
  case (FinishOp b commit)
  then show ?thesis by (simp del: mset_map)
qed (simp add: admit_pending_def)

interpretation delivery: item_ledger lifecycle_step "map owned" lifecycle_admitted lifecycle_released
  by unfold_locales (rule lifecycle_step_balance)

lemma lifecycle_inv_default: "lifecycle_inv lifecycle_default"
  by (simp add: lifecycle_inv_def lifecycle_default_def)

lemma lifecycle_inv_owned: "lifecycle_inv l \<longleftrightarrow> distinct (map (identity \<circ> message) (map owned l))"
  by (simp add: lifecycle_inv_def comp_def)

lemma lifecycle_inv_map_owned: "map owned l = map owned l' \<Longrightarrow> lifecycle_inv l \<longleftrightarrow> lifecycle_inv l'"
  by (simp only: lifecycle_inv_owned)

lemma lifecycle_inv_admit [inv_intros]:
  "lifecycle_inv l \<Longrightarrow> lifecycle_inv (snd (admit_pending l b m k))"
  by (auto simp: lifecycle_inv_def admit_pending_def list_ex_iff)

lemma lifecycle_inv_transition [inv_intros]:
  "lifecycle_inv l \<Longrightarrow> lifecycle_inv (snd (transition l target cause))"
  by (simp add: lifecycle_inv_def transition_eq distinct_map_filter)

lemma lifecycle_inv_step [inv_intros]: "lifecycle_inv l \<Longrightarrow> lifecycle_inv (lifecycle_step l a)"
proof (cases a)
  case (BeginOp b)
  then show "lifecycle_inv l \<Longrightarrow> ?thesis"
    by (simp add: lifecycle_inv_map_owned [OF map_owned_begin])
next
  case (FinishOp b commit)
  then show "lifecycle_inv l \<Longrightarrow> ?thesis"
    by (simp add: lifecycle_inv_map_owned [OF map_owned_finish])
qed (simp_all add: inv_intros)

lemma lifecycle_inv_run: "lifecycle_inv l \<Longrightarrow> lifecycle_inv (delivery.run l as)"
  by (induction as arbitrary: l) (auto simp: inv_intros)

text \<open>C34: Over any sequence of admissions, begins, finishes and terminal transitions that starts
  from the empty lifecycle, every delivery is conserved: what was admitted is exactly what has
  been released (as a fallback or a completion) together with what is still owned, counted with
  multiplicity, and at every point no two slots own the same identity.\<close>

theorem lifecycle_conservation:
  "mset (delivery.run_in lifecycle_default as)
     = mset (delivery.run_out lifecycle_default as)
       + mset (map owned (delivery.run lifecycle_default as))
   \<and> lifecycle_inv (delivery.run lifecycle_default as)"
  using delivery.run_balance [of lifecycle_default as]
    lifecycle_inv_run [OF lifecycle_inv_default, of as]
  by (simp add: lifecycle_default_def ac_simps)

text \<open>A terminal transition splits the slots it targets: the pending ones fall back exactly
  when the cause is one that falls back, all others are completed, both lists keep the order of
  admission, and the slots of other turns stay as they are.\<close>

theorem transition_partition:
  "transition l target cause = (t, l') \<longleftrightarrow>
     fallbacks t = map owned (filter (\<lambda>sl. target_matches target sl \<and> is_Pending sl \<and> falls_back cause) l)
     \<and> completions t = map owned (filter (\<lambda>sl. target_matches target sl \<and> \<not> (is_Pending sl \<and> falls_back cause)) l)
     \<and> l' = filter (\<lambda>sl. \<not> target_matches target sl) l"
  by (cases t) (auto simp: transition_eq falls_back_slot_def)

text \<open>Once \<open>begin_delivery\<close> has handed a turn's messages over, no terminal transition of that
  turn gives any of them back as a fallback, whatever other turns do and whether or not the
  commit succeeds: they are all completed, in order of admission.\<close>

theorem no_fallback_after_begin:
  "let t = fst (transition (snd (finish_delivery (snd (begin_delivery l b)) b' commit)) (Turn b) cause)
   in fallbacks t = [] \<and> completions t = map owned (filter (\<lambda>sl. slot_binding sl = b) l)"
proof -
  define l1 where "l1 = snd (begin_delivery l b)"
  define l2 where "l2 = snd (finish_delivery l1 b' commit)"
  have pend: "\<not> is_Pending sl" if "sl \<in> set l2" "slot_binding sl = b" for sl
  proof -
    have "\<forall>sl \<in> set l1. slot_binding sl = b \<longrightarrow> \<not> is_Pending sl"
      using begin_no_pending unfolding l1_def by blast
    then show ?thesis using that
      by (auto simp: l2_def finish_delivery_def Let_def finish_slot_def
          split: if_splits sum.splits delivery_slot.splits)
  qed
  have "map owned l2 = map owned l" by (simp add: l2_def l1_def)
  then have "filter (\<lambda>d. binding d = b) (map owned l2) = filter (\<lambda>d. binding d = b) (map owned l)"
    by simp
  then have "map owned (filter (\<lambda>sl. slot_binding sl = b) l2) = map owned (filter (\<lambda>sl. slot_binding sl = b) l)"
    by (simp add: filter_map comp_def)
  moreover have "filter (\<lambda>sl. slot_binding sl = b \<and> is_Pending sl \<and> falls_back cause) l2 = []"
    using pend by (auto simp: filter_empty_conv)
  moreover have "filter (\<lambda>sl. slot_binding sl = b \<and> (is_Pending sl \<longrightarrow> \<not> falls_back cause)) l2
      = filter (\<lambda>sl. slot_binding sl = b) l2"
    using pend by (auto intro: filter_cong)
  ultimately show ?thesis
    by (simp add: transition_eq falls_back_slot_def target_matches_def l2_def l1_def)
qed


section \<open>Identities and addresses\<close>

definition AGENT_PREFIX :: string where "AGENT_PREFIX = ''ag1.''"
definition ATTEMPT_PREFIX :: string where "ATTEMPT_PREFIX = ''at1.''"
definition ADDRESS_PREFIX :: string where "ADDRESS_PREFIX = ''aa1.''"

definition is_lower_hex :: "char \<Rightarrow> bool" where
  "is_lower_hex c \<longleftrightarrow> is_ascii_digit c \<or> (0x61 \<le> code c \<and> code c \<le> 0x66)"

definition parse_prefixed :: "string \<Rightarrow> string \<Rightarrow> string option" where
  "parse_prefixed token pre =
     (let token = trim token
      in case strip_prefix pre token of
           None \<Rightarrow> None
         | Some rest \<Rightarrow>
             if rest = [] \<or> \<not> list_all is_lower_hex rest then None else Some token)"

definition UUID_HYPHENS :: "nat list" where "UUID_HYPHENS = [8, 13, 18, 23]"

definition is_uuid_v7 :: "string \<Rightarrow> bool" where
  "is_uuid_v7 token \<longleftrightarrow>
     length token = 36
     \<and> list_all (\<lambda>(index, byte). if index \<in> set UUID_HYPHENS then byte = CHR ''-'' else is_lower_hex byte)
         (enumerate 0 token)
     \<and> token ! 14 = CHR ''7''
     \<and> token ! 19 \<in> {CHR ''8'', CHR ''9'', CHR ''a'', CHR ''b''}"

text \<open>An \<open>AgentId\<close>, \<open>AttemptId\<close> or \<open>AgentAddress\<close> wraps a string of its own; the wrappers are kept.\<close>

datatype agent_id = AgentId (agent_str: string)
datatype attempt_id = AttemptId (attempt_str: string)
datatype agent_address = AgentAddress (address_str: string)

definition agent_mint :: "128 word \<Rightarrow> agent_id" where
  "agent_mint entropy = AgentId (AGENT_PREFIX @ hex_of_nat (unat entropy))"

definition agent_parse :: "string \<Rightarrow> agent_id option" where
  "agent_parse token =
     (let token = trim token
      in if is_uuid_v7 token then Some (AgentId token)
         else map_option AgentId (parse_prefixed token AGENT_PREFIX))"

definition from_uuid_v7 :: "string \<Rightarrow> agent_id option" where
  "from_uuid_v7 token = (if is_uuid_v7 token then Some (AgentId token) else None)"

definition attempt_mint :: "128 word \<Rightarrow> attempt_id" where
  "attempt_mint entropy = AttemptId (ATTEMPT_PREFIX @ hex_of_nat (unat entropy))"

definition attempt_parse :: "string \<Rightarrow> attempt_id option" where
  "attempt_parse token = map_option AttemptId (parse_prefixed token ATTEMPT_PREFIX)"

datatype identity_action =
    Start agent_id attempt_id
  | Resume agent_id attempt_id
  | Fork agent_id attempt_id

definition next_identity ::
  "agent_id option \<Rightarrow> bool \<Rightarrow> 128 word \<Rightarrow> 128 word \<Rightarrow> identity_action" where
  "next_identity previous fork agent_entropy attempt_entropy =
     (let attempt = attempt_mint attempt_entropy
      in case previous of
           None \<Rightarrow> Start (agent_mint agent_entropy) attempt
         | Some agent \<Rightarrow>
             if fork then Fork (agent_mint agent_entropy) attempt else Resume agent attempt)"

definition is_presentable :: "string \<Rightarrow> bool" where
  "is_presentable token \<longleftrightarrow>
     token \<noteq> [] \<and> \<not> eq_ignore_ascii_case token ''null''
     \<and> \<not> eq_ignore_ascii_case token ''none'' \<and> \<not> eq_ignore_ascii_case token ''undefined''"

definition address_mint :: "128 word \<Rightarrow> agent_address" where
  "address_mint entropy = AgentAddress (ADDRESS_PREFIX @ hex_of_nat (unat entropy))"

definition address_parse :: "string \<Rightarrow> agent_address option" where
  "address_parse token =
     (let token = trim token in if \<not> is_presentable token then None else Some (AgentAddress token))"

definition mint_child_address :: "bool \<Rightarrow> 128 word \<Rightarrow> agent_address option" where
  "mint_child_address workflow entropy = (if workflow then None else Some (address_mint entropy))"

definition advertised_address :: "string option \<Rightarrow> bool \<Rightarrow> string option" where
  "advertised_address stored workflow =
     (if workflow then None
      else case stored of
          None \<Rightarrow> None
        | Some token \<Rightarrow> if address_parse token \<noteq> None then Some token else None)"

datatype address_presence = Active | PendingPresence | Gone

record address_candidate =
  stored_address :: "string option"
  session_id :: string
  owner_match :: bool
  generation_current :: bool
  workflow :: bool
  presence :: address_presence

datatype address_decision =
    Owned address_presence
  | RawSessionId
  | Foreign
  | Stale
  | WorkflowNotAddressable
  | Unresolved

definition resolve_address :: "string \<Rightarrow> address_candidate option \<Rightarrow> address_decision" where
  "resolve_address presented candidate =
     (case candidate of
        None \<Rightarrow> Unresolved
      | Some c \<Rightarrow>
          (let presented = trim presented;
               address_match = (case stored_address c of None \<Rightarrow> False | Some stored \<Rightarrow> stored = presented)
           in if session_id c = presented \<and> \<not> address_match then RawSessionId
              else if \<not> address_match then Unresolved
              else if workflow c then WorkflowNotAddressable
              else if \<not> owner_match c then Foreign
              else if \<not> generation_current c \<or> presence c = Gone then Stale
              else Owned (presence c)))"

section \<open>Authorisation of operations\<close>

datatype principal = Human | Agent | Runtime

datatype operation = Queue | Steer | Interject | InterruptAndSend

datatype operation_set = OperationSet u8

definition QUEUE :: operation_set where "QUEUE = OperationSet (push_bit 0 1)"

definition QUEUE_AND_STEER :: operation_set where
  "QUEUE_AND_STEER = OperationSet (push_bit 0 1 OR push_bit 1 1)"

definition operation_flag :: "operation \<Rightarrow> u8" where
  "operation_flag operation = (case operation of
       Queue \<Rightarrow> push_bit 0 1 | Steer \<Rightarrow> push_bit 1 1
     | Interject \<Rightarrow> push_bit 2 1 | InterruptAndSend \<Rightarrow> push_bit 3 1)"

fun operation_set_contains :: "operation_set \<Rightarrow> operation \<Rightarrow> bool" where
  "operation_set_contains (OperationSet bits) operation \<longleftrightarrow> bits AND operation_flag operation \<noteq> 0"

text \<open>\<open>Ok\<close> and \<open>Err\<close> carry the operation they were asked for.\<close>

definition authorize_operation :: "operation_set \<Rightarrow> operation \<Rightarrow> operation + operation" where
  "authorize_operation allowed requested =
     (if operation_set_contains allowed requested then Inr requested else Inl requested)"

section \<open>Round trips of identities\<close>

lemma hex_of_nat_small [simp]: "n < 16 \<Longrightarrow> hex_of_nat n = [hex_digit n]"
  by (simp add: hex_of_nat.simps)

lemma hex_of_nat_big: "16 \<le> n \<Longrightarrow> hex_of_nat n = hex_of_nat (n div 16) @ [hex_digit (n mod 16)]"
  by (subst hex_of_nat.simps) simp

lemma of_char_hex_digit: "d < 16 \<Longrightarrow> code (hex_digit d) = (if d < 10 then 0x30 + d else 0x57 + d)"
  by (simp add: hex_digit_def)

lemma hex_digit_is_lower_hex: "d < 16 \<Longrightarrow> is_lower_hex (hex_digit d)"
  by (simp add: is_lower_hex_def is_ascii_digit_def of_char_hex_digit)

lemma hex_of_nat_lower_hex: "hex_of_nat n \<noteq> [] \<and> list_all is_lower_hex (hex_of_nat n)"
proof (induction n rule: hex_of_nat.induct)
  case (1 n)
  then show ?case by (cases "n < 16") (simp_all add: hex_of_nat_big hex_digit_is_lower_hex)
qed

fun nat_of_hex :: "nat \<Rightarrow> string \<Rightarrow> nat" where
  "nat_of_hex acc [] = acc"
| "nat_of_hex acc (c # cs) =
     nat_of_hex (16 * acc + (if code c < 0x40 then code c - 0x30 else code c - 0x57)) cs"

lemma nat_of_hex_append: "nat_of_hex acc (s @ t) = nat_of_hex (nat_of_hex acc s) t"
  by (induction s arbitrary: acc) auto

lemma nat_of_hex_of_nat: "nat_of_hex 0 (hex_of_nat n) = n"
proof (induction n rule: hex_of_nat.induct)
  case (1 n)
  show ?case
  proof (cases "n < 16")
    case False
    then show ?thesis using 1
      by (simp add: hex_of_nat_big nat_of_hex_append of_char_hex_digit)
  qed (simp add: of_char_hex_digit)
qed

lemma hex_of_nat_inj: "hex_of_nat m = hex_of_nat n \<Longrightarrow> m = n"
  by (metis nat_of_hex_of_nat)

lemma lower_hex_graphic: "is_lower_hex c \<Longrightarrow> is_ascii_graphic c"
  by (auto simp: is_lower_hex_def is_ascii_graphic_def is_ascii_digit_def)

lemma trim_token:
  assumes "pre \<noteq> []" and "is_ascii_graphic (hd pre)"
  shows "trim (pre @ hex_of_nat n) = pre @ hex_of_nat n"
proof (rule trim_graphic)
  have h: "hex_of_nat n \<noteq> []" "list_all is_lower_hex (hex_of_nat n)"
    using hex_of_nat_lower_hex by auto
  then show "is_ascii_graphic (last (pre @ hex_of_nat n))"
    by (simp add: list_all_iff lower_hex_graphic)
  show "is_ascii_graphic (hd (pre @ hex_of_nat n))" using assms by simp
qed (use assms in simp)

lemma parse_prefixed_token:
  assumes "pre \<noteq> []" and "is_ascii_graphic (hd pre)"
  shows "parse_prefixed (pre @ hex_of_nat n) pre = Some (pre @ hex_of_nat n)"
  using hex_of_nat_lower_hex [of n] trim_token [OF assms, of n] by (simp add: parse_prefixed_def)

lemma not_uuid_prefixed: "\<not> is_uuid_v7 (AGENT_PREFIX @ s)"
  by (cases s) (auto simp: is_uuid_v7_def AGENT_PREFIX_def UUID_HYPHENS_def is_lower_hex_def is_ascii_digit_def)

lemma token_prefixes:
  "AGENT_PREFIX \<noteq> []" "is_ascii_graphic (hd AGENT_PREFIX)"
  "ATTEMPT_PREFIX \<noteq> []" "is_ascii_graphic (hd ATTEMPT_PREFIX)"
  "ADDRESS_PREFIX \<noteq> []" "is_ascii_graphic (hd ADDRESS_PREFIX)"
  by (simp_all add: AGENT_PREFIX_def ATTEMPT_PREFIX_def ADDRESS_PREFIX_def is_ascii_graphic_def)

lemma presentable_address: "is_presentable (ADDRESS_PREFIX @ s)"
  by (simp add: is_presentable_def ADDRESS_PREFIX_def eq_ignore_ascii_case_def to_ascii_lowercase_def
      ascii_lower_def is_ascii_upper_def)

text \<open>A minted agent id, attempt id or address parses back to itself, and distinct entropies
  mint distinct tokens; an agent token never parses as an attempt token.\<close>

theorem mint_parse_round_trip:
  "agent_parse (agent_str (agent_mint n)) = Some (agent_mint n)
   \<and> attempt_parse (attempt_str (attempt_mint n)) = Some (attempt_mint n)
   \<and> address_parse (address_str (address_mint n)) = Some (address_mint n)
   \<and> attempt_parse (agent_str (agent_mint n)) = None
   \<and> inj agent_mint \<and> inj attempt_mint \<and> inj address_mint"
proof -
  have "attempt_parse (agent_str (agent_mint n)) = None"
    using trim_token [OF token_prefixes(1,2), of "unat n"]
    by (simp add: attempt_parse_def agent_mint_def parse_prefixed_def)
      (simp add: AGENT_PREFIX_def ATTEMPT_PREFIX_def)
  moreover have "inj agent_mint" "inj attempt_mint" "inj address_mint"
    by (auto simp: inj_def agent_mint_def attempt_mint_def address_mint_def dest!: hex_of_nat_inj intro: unsigned_word_eqI)
  ultimately show ?thesis
    by (simp add: agent_parse_def agent_mint_def attempt_parse_def attempt_mint_def address_parse_def
        address_mint_def trim_token parse_prefixed_token token_prefixes not_uuid_prefixed presentable_address)
qed

text \<open>A presented token resolves to an owned child exactly when it is, after trimming, the
  address stored for the candidate, the candidate is not a workflow child, the caller owns it,
  its generation is current and it is not gone; the presence reported is the candidate's. A
  session id alone never resolves to ownership.\<close>

theorem resolve_address_owned_iff:
  "resolve_address presented candidate = Owned p \<longleftrightarrow>
     (\<exists>c. candidate = Some c \<and> stored_address c = Some (trim presented) \<and> \<not> workflow c
        \<and> owner_match c \<and> generation_current c \<and> presence c \<noteq> Gone \<and> presence c = p)"
  by (cases candidate) (auto simp: resolve_address_def Let_def split: option.splits)

lemma operation_set_contains_QUEUE [simp]: "operation_set_contains QUEUE x \<longleftrightarrow> x = Queue"
  by (cases x) (simp_all add: QUEUE_def operation_flag_def)

lemma operation_set_contains_QUEUE_AND_STEER [simp]:
  "operation_set_contains QUEUE_AND_STEER x \<longleftrightarrow> x = Queue \<or> x = Steer"
  by (cases x) (simp_all add: QUEUE_AND_STEER_def operation_flag_def)

end
