(* ===== verification/Sliding_Window.thy ===== *)
theory Sliding_Window
  imports Complex_Main Prelude
begin

text \<open>
  \<open>window.rs\<close> of the crate \<open>xai-circuit-breaker\<close>: the bounded sliding window over samples
  \<open>(timestamp, is_failure)\<close>, with its incremental failure count, and the interface
  \<open>sample_window\<close> that the breaker relies on.

  An \<open>Instant\<close> is an integer number of nanoseconds, a \<open>Duration\<close> a natural number of
  nanoseconds. \<open>Instant::checked_sub\<close> fails below the least representable instant (a signed
  64-bit number of seconds on Unix).
\<close>

type_synonym instant = int
type_synonym duration = nat

definition INSTANT_MIN :: int where "INSTANT_MIN = - (2 ^ 63) * 10 ^ 9"

definition checked_sub :: "instant \<Rightarrow> duration \<Rightarrow> instant option" where
  "checked_sub t d = (if INSTANT_MIN \<le> t - int d then Some (t - int d) else None)"

definition MAX_WINDOW_ENTRIES :: nat where "MAX_WINDOW_ENTRIES = 10000"

record sliding_window =
  entries :: "(instant \<times> bool) list"
  failures :: nat

definition window_new :: sliding_window where
  "window_new = \<lparr>entries = [], failures = 0\<rparr>"

definition window_push :: "bool \<Rightarrow> instant \<Rightarrow> sliding_window \<Rightarrow> sliding_window" where
  "window_push is_failure at_time w =
     (let w1 = (if MAX_WINDOW_ENTRIES \<le> length (entries w)
                then (case entries w of
                        [] \<Rightarrow> w
                      | (_, was_failure) # rest \<Rightarrow>
                          \<lparr>entries = rest, failures = (if was_failure then failures w - 1 else failures w)\<rparr>)
                else w)
      in \<lparr>entries = entries w1 @ [(at_time, is_failure)],
          failures = (if is_failure then failures w1 + 1 else failures w1)\<rparr>)"

fun evict_loop :: "instant \<Rightarrow> (instant \<times> bool) list \<Rightarrow> nat \<Rightarrow> (instant \<times> bool) list \<times> nat" where
  "evict_loop cutoff [] f = ([], f)"
| "evict_loop cutoff ((ts, was_failure) # rest) f =
     (if ts < cutoff then evict_loop cutoff rest (if was_failure then f - 1 else f)
      else ((ts, was_failure) # rest, f))"

definition window_evict :: "duration \<Rightarrow> instant \<Rightarrow> sliding_window \<Rightarrow> sliding_window" where
  "window_evict window now w =
     (case checked_sub now window of
        None \<Rightarrow> w
      | Some cutoff \<Rightarrow>
          (let (es, f) = evict_loop cutoff (entries w) (failures w) in \<lparr>entries = es, failures = f\<rparr>))"

definition window_sample_count :: "sliding_window \<Rightarrow> nat" where
  "window_sample_count w = length (entries w)"

definition window_clear :: "sliding_window \<Rightarrow> sliding_window" where
  "window_clear w = w\<lparr>entries := [], failures := 0\<rparr>"

section \<open>The error rate as a 64-bit float\<close>

text \<open>
  \<open>n as f64 / d as f64\<close> for \<open>n \<le> d\<close>, both below \<open>2 ^ 53\<close> and so exact as floats: the exact
  quotient rounded to 53 significant bits, ties to even. \<open>scale n d\<close> is the number of
  doublings that bring \<open>n\<close> up to \<open>d\<close>, so that \<open>n * 2 ^ scale n d / d\<close> is in \<open>[1, 2)\<close>. The
  quotients met here are far from the subnormal range.
\<close>

function scale :: "nat \<Rightarrow> nat \<Rightarrow> nat" where
  "scale n d = (if n = 0 \<or> d \<le> n then 0 else Suc (scale (2 * n) d))"
  by pat_completeness auto
termination
  by (relation "measure (\<lambda>(n, d). d - n)") auto

declare scale.simps [simp del]

definition round_half_even :: "nat \<Rightarrow> nat \<Rightarrow> nat" where
  "round_half_even a b =
     (let q = a div b; r = a mod b
      in if 2 * r < b then q else if b < 2 * r then q + 1 else if even q then q else q + 1)"

definition f64_div :: "nat \<Rightarrow> nat \<Rightarrow> rat" where
  "f64_div n d = (let s = 52 + scale n d in of_nat (round_half_even (n * 2 ^ s) d) / 2 ^ s)"

definition window_error_rate :: "sliding_window \<Rightarrow> rat" where
  "window_error_rate w = (if entries w = [] then 0 else f64_div (failures w) (length (entries w)))"

lemma round_half_even_bounds:
  assumes "0 < b"
  shows "a div b \<le> round_half_even a b" and "2 * b * round_half_even a b \<le> 2 * a + b"
proof -
  show "a div b \<le> round_half_even a b" by (simp add: round_half_even_def Let_def)
  have a: "a = b * (a div b) + a mod b" by simp
  have "2 * b * (a div b) \<le> 2 * a + b"
    unfolding mult.assoc using times_div_less_eq_dividend [of b a] by linarith
  moreover have "2 * b * (a div b + 1) \<le> 2 * a + b" if "b \<le> 2 * (a mod b)"
  proof -
    have "2 * b * (a div b + 1) = 2 * (b * (a div b)) + 2 * b" by (simp add: algebra_simps)
    also have "\<dots> \<le> 2 * (b * (a div b)) + (2 * (a mod b) + b)" using that by simp
    also have "\<dots> = 2 * (b * (a div b) + a mod b) + b" by (simp only: distrib_left add.assoc)
    finally show ?thesis by simp
  qed
  ultimately show "2 * b * round_half_even a b \<le> 2 * a + b"
    by (auto simp: round_half_even_def Let_def)
qed

text \<open>For the threshold one half, the rounding of the quotient never changes the comparison.\<close>

lemma f64_div_half:
  assumes d: "0 < d" "d \<le> 2 ^ 50"
  shows "1 / 2 \<le> f64_div n d \<longleftrightarrow> d \<le> 2 * n"
proof -
  define s where "s = 51 + scale n d"
  define q where "q = round_half_even (n * 2 ^ Suc s) d"
  have rate: "f64_div n d = of_nat q / 2 ^ Suc s"
    by (simp add: f64_div_def q_def s_def Let_def)
  have "1 / 2 \<le> f64_div n d \<longleftrightarrow> (2 ^ s :: rat) \<le> of_nat q"
    unfolding rate by (simp add: le_divide_eq)
  also have "\<dots> \<longleftrightarrow> 2 ^ s \<le> q"
    by (metis of_nat_le_iff of_nat_numeral of_nat_power)
  also have "\<dots> \<longleftrightarrow> d \<le> 2 * n"
  proof
    assume "d \<le> 2 * n"
    then have "2 ^ s * d \<le> n * 2 ^ Suc s" by (simp add: mult.commute)
    then have "2 ^ s \<le> n * 2 ^ Suc s div d" using d(1) by (simp add: less_eq_div_iff_mult_less_eq)
    then show "2 ^ s \<le> q" using round_half_even_bounds(1) [OF d(1)] unfolding q_def by (rule le_trans)
  next
    assume le: "2 ^ s \<le> q"
    show "d \<le> 2 * n"
    proof (rule ccontr)
      assume "\<not> d \<le> 2 * n"
      then have n: "2 * n + 1 \<le> d" by simp
      have "2 * d * q \<le> 2 * (n * 2 ^ Suc s) + d"
        unfolding q_def using round_half_even_bounds(2) [OF d(1)] .
      also have "2 * (n * 2 ^ Suc s) + 2 * 2 ^ s = 2 * 2 ^ s * (2 * n + 1)" by (simp add: algebra_simps)
      then have "2 * (n * 2 ^ Suc s) + 2 * 2 ^ s \<le> 2 * 2 ^ s * d"
        using mult_le_mono2 [OF n] by (simp only:)
      then have "2 * (n * 2 ^ Suc s) + d + 2 * 2 ^ s \<le> 2 * d * 2 ^ s + d" by (simp add: algebra_simps)
      moreover have "d < 2 * 2 ^ s"
      proof -
        have "(2 :: nat) ^ 50 < 2 * 2 ^ s" 
          unfolding power_Suc [symmetric] by (rule power_strict_increasing) (simp_all add: s_def)
        then show ?thesis using d(2) by linarith
      qed
      ultimately have "2 * d * q < 2 * d * 2 ^ s" by linarith
      then show False using le by simp
    qed
  qed
  finally show ?thesis .
qed

section \<open>Invariant\<close>

definition window_inv :: "sliding_window \<Rightarrow> bool" where
  "window_inv w \<longleftrightarrow> failures w = length (filter snd (entries w)) \<and> length (entries w) \<le> MAX_WINDOW_ENTRIES"

definition take_last :: "nat \<Rightarrow> 'a list \<Rightarrow> 'a list" where
  "take_last n xs = drop (length xs - n) xs"

abbreviation older :: "instant \<Rightarrow> instant \<times> bool \<Rightarrow> bool" where
  "older cutoff e \<equiv> fst e < cutoff"

lemma evict_loop_eq:
  "f = length (filter snd es) \<Longrightarrow>
   evict_loop cutoff es f
     = (dropWhile (older cutoff) es, length (filter snd (dropWhile (older cutoff) es)))"
  by (induction cutoff es f rule: evict_loop.induct) auto

lemma window_inv_length: "window_inv w \<Longrightarrow> length (entries w) \<le> MAX_WINDOW_ENTRIES"
  by (simp add: window_inv_def)

lemma window_inv_new [inv_intros]: "window_inv window_new"
  by (simp add: window_inv_def window_new_def)

lemma window_inv_clear [inv_intros]: "window_inv (window_clear w)"
  by (simp add: window_inv_def window_clear_def)

lemma entries_push:
  "window_inv w \<Longrightarrow> entries (window_push f t w) = take_last MAX_WINDOW_ENTRIES (entries w @ [(t, f)])"
  by (auto simp: window_push_def window_inv_def take_last_def MAX_WINDOW_ENTRIES_def Suc_diff_le Let_def
      split: list.splits)

lemma window_inv_push [inv_intros]: "window_inv w \<Longrightarrow> window_inv (window_push f t w)"
  by (auto simp: window_push_def window_inv_def MAX_WINDOW_ENTRIES_def Let_def split: list.splits)

lemma entries_evict:
  "window_inv w \<Longrightarrow> entries (window_evict d now w) =
     (case checked_sub now d of None \<Rightarrow> entries w | Some cutoff \<Rightarrow> dropWhile (older cutoff) (entries w))"
  by (simp add: window_evict_def window_inv_def evict_loop_eq split: option.splits)

lemma window_inv_evict [inv_intros]: "window_inv w \<Longrightarrow> window_inv (window_evict d now w)"
  using length_dropWhile_le
  by (fastforce simp: window_evict_def window_inv_def evict_loop_eq intro: le_trans split: option.splits)

section \<open>The interface of a sample window\<close>

lemma take_last_take_last:
  "take_last n (take_last n xs @ [y]) = take_last n (xs @ [y])" if "0 < n"
proof (cases "length xs < n")
  case False
  with that have "Suc (length xs) - (length xs - n + n) + (length xs - n) = Suc (length xs) - n" by simp
  then show ?thesis by (simp add: take_last_def)
qed (simp add: take_last_def)

lemma dropWhile_take_last_append:
  assumes "\<forall>x \<in> set ds. P x"
  shows "dropWhile P (take_last n (ds @ zs)) = dropWhile P (take_last n zs)"
proof (cases "n \<le> length zs")
  case True
  then show ?thesis by (simp add: take_last_def)
next
  case False
  then have "take_last n (ds @ zs) = take_last (n - length zs) ds @ zs" and "take_last n zs = zs"
    by (auto simp: take_last_def)
  moreover have "\<forall>x \<in> set (take_last (n - length zs) ds). P x"
    using assms in_set_dropD by (fastforce simp: take_last_def)
  ultimately show ?thesis by (simp add: dropWhile_append2)
qed

text \<open>Expiring before a sample is added never matters once one expires again afterwards.\<close>

lemma expire_add_expire:
  assumes "0 < n" and "\<And>x. P x \<Longrightarrow> Q x"
  shows "dropWhile Q (take_last n (dropWhile P (take_last n xs) @ [y])) = dropWhile Q (take_last n (xs @ [y]))"
proof -
  let ?X = "take_last n xs"
  have "?X @ [y] = takeWhile P ?X @ (dropWhile P ?X @ [y])" by (simp add: append_assoc [symmetric] del: append_assoc)
  then have "take_last n (xs @ [y]) = take_last n (takeWhile P ?X @ (dropWhile P ?X @ [y]))"
    using take_last_take_last [OF assms(1), of xs y] by (simp only:)
  moreover have "\<forall>x \<in> set (takeWhile P ?X). Q x" using assms(2) by (auto dest: set_takeWhileD)
  ultimately show ?thesis using dropWhile_take_last_append [of "takeWhile P ?X" Q] by metis
qed

locale sample_window =
  fixes winv :: "'w \<Rightarrow> bool"
    and samples :: "'w \<Rightarrow> (instant \<times> bool) list"
    and add_sample :: "bool \<Rightarrow> instant \<Rightarrow> 'w \<Rightarrow> 'w"
    and expire :: "duration \<Rightarrow> instant \<Rightarrow> 'w \<Rightarrow> 'w"
    and capacity :: nat
  assumes capacity_pos: "0 < capacity"
    and samples_bounded: "winv w \<Longrightarrow> length (samples w) \<le> capacity"
    and winv_add: "winv w \<Longrightarrow> winv (add_sample f t w)"
    and winv_expire: "winv w \<Longrightarrow> winv (expire d t w)"
    and samples_add: "winv w \<Longrightarrow> samples (add_sample f t w) = take_last capacity (samples w @ [(t, f)])"
    and samples_expire: "winv w \<Longrightarrow> INSTANT_MIN \<le> t - int d \<Longrightarrow>
      samples (expire d t w) = dropWhile (older (t - int d)) (samples w)"
begin

text \<open>The way the breaker feeds the window: add a sample, then expire at the same instant.\<close>

fun feed :: "duration \<Rightarrow> (instant \<times> bool) list \<Rightarrow> 'w \<Rightarrow> 'w" where
  "feed d [] w = w"
| "feed d ((t, f) # es) w = feed d es (expire d t (add_sample f t w))"

lemma winv_feed: "winv w \<Longrightarrow> winv (feed d es w)"
  by (induction d es w rule: feed.induct) (simp_all add: winv_add winv_expire)

lemma feed_append: "feed d (es @ fs) w = feed d fs (feed d es w)"
  by (induction d es w rule: feed.induct) auto

text \<open>Fed with a monotone clock, the window holds exactly the newest \<open>capacity\<close> samples of the
  whole history, less those older than the window at the last instant.\<close>

lemma feed_history:
  assumes "winv w" and "samples w = []" and "sorted (map fst (es @ [(t, f)]))"
    and "INSTANT_MIN \<le> fst (hd (es @ [(t, f)])) - int d"
  shows "samples (feed d (es @ [(t, f)]) w)
     = dropWhile (older (t - int d)) (take_last capacity (es @ [(t, f)]))"
  using assms(3,4)
proof (induction es arbitrary: t f rule: rev_induct)
  case Nil
  then show ?case using assms(1,2) by (simp add: samples_expire samples_add winv_add)
next
  case (snoc e es)
  obtain t0 f0 where e: "e = (t0, f0)" by (cases e)
  let ?w = "feed d (es @ [e]) w"
  have le: "t0 \<le> t" and s: "sorted (map fst (es @ [e]))"
    using snoc.prems(1) by (auto simp: e sorted_append)
  have "fst (hd (es @ [e])) \<le> t" using snoc.prems(1) by (cases es) (auto simp: e)
  then have min: "INSTANT_MIN \<le> t - int d" and "INSTANT_MIN \<le> fst (hd (es @ [e])) - int d"
    using snoc.prems(2) by (cases es; simp)+
  then have IH: "samples ?w = dropWhile (older (t0 - int d)) (take_last capacity (es @ [e]))"
    using snoc.IH s by (simp add: e)
  have inv: "winv ?w" using assms(1) by (rule winv_feed)
  have "samples (feed d ((es @ [e]) @ [(t, f)]) w)
      = dropWhile (older (t - int d)) (take_last capacity (samples ?w @ [(t, f)]))"
    using inv min by (simp only: feed_append feed.simps samples_expire samples_add winv_add)
  then show ?case
    unfolding IH using le
    by (simp only:) (rule expire_add_expire [OF capacity_pos], simp)
qed

end

interpretation window: sample_window window_inv entries window_push window_evict MAX_WINDOW_ENTRIES
proof unfold_locales
  show "0 < MAX_WINDOW_ENTRIES" by (simp add: MAX_WINDOW_ENTRIES_def)
qed (simp_all add: inv_intros entries_push entries_evict checked_sub_def window_inv_length)

lemma failures_eq: "window_inv w \<Longrightarrow> failures w = length (filter snd (entries w))"
  by (simp add: window_inv_def)

end
