(* ===== verification/Circuit_Breaker.thy ===== *)
theory Circuit_Breaker
  imports Sliding_Window
begin

text \<open>
  The crate \<open>xai-circuit-breaker\<close>: configuration (\<open>config.rs\<close>), the three-state breaker
  (\<open>breaker.rs\<close>, \<open>state.rs\<close>), the registry (\<open>registry.rs\<close>) and the retry policies
  (\<open>retry_policy.rs\<close>, \<open>grpc.rs\<close>).

  Each public operation is one step of the model; the readings of the clock it takes are its
  arguments, in the order of the reads. The atomics keep their width: the millisecond stamps
  are 64-bit words with the truncating cast of the source, the probe counter is a 64-bit word
  that wraps. Callbacks of the observer are recorded, in order, in the field \<open>observed\<close>.
\<close>

section \<open>Configuration\<close>

type_synonym u16 = "16 word"
type_synonym usize = "64 word"

text \<open>The value of an \<open>f64\<close>: a finite float as the rational it denotes.\<close>

datatype f64 = Finite rat | Inf | NegInf | NaN

fun rate_ge :: "rat \<Rightarrow> f64 \<Rightarrow> bool" where
  "rate_ge r (Finite t) \<longleftrightarrow> t \<le> r"
| "rate_ge r Inf \<longleftrightarrow> False"
| "rate_ge r NegInf \<longleftrightarrow> True"
| "rate_ge r NaN \<longleftrightarrow> False"

record breaker_config =
  window_duration :: duration
  min_samples :: nat
  error_rate_threshold :: f64
  open_duration :: duration
  half_open_max_probes :: usize
  failure_codes :: "u16 set"
  enabled :: bool

abbreviation from_secs :: "nat \<Rightarrow> duration" where "from_secs n \<equiv> n * 10 ^ 9"
abbreviation from_millis :: "nat \<Rightarrow> duration" where "from_millis n \<equiv> n * 10 ^ 6"

definition default_failure_codes :: "u16 set" where
  "default_failure_codes = {429, 500, 502, 503, 504}"

definition config_server :: breaker_config where
  "config_server = \<lparr>
     window_duration = from_secs 60, min_samples = 10, error_rate_threshold = Finite (1 / 2),
     open_duration = from_secs 10, half_open_max_probes = 1,
     failure_codes = default_failure_codes, enabled = True\<rparr>"

definition config_client :: breaker_config where
  "config_client = \<lparr>
     window_duration = from_secs 60, min_samples = 5, error_rate_threshold = Finite (1 / 2),
     open_duration = from_secs 60, half_open_max_probes = 1,
     failure_codes = {401}, enabled = True\<rparr>"

definition parse_bool :: "string \<Rightarrow> bool option" where
  "parse_bool s = (if s = ''true'' then Some True else if s = ''false'' then Some False else None)"

definition lookup_or :: "(string \<Rightarrow> 'a option) \<Rightarrow> (string \<Rightarrow> string option) \<Rightarrow> string \<Rightarrow> 'a \<Rightarrow> 'a" where
  "lookup_or parse get key dflt =
     (case get key of
        Some v \<Rightarrow> (case parse v of Some parsed \<Rightarrow> parsed | None \<Rightarrow> dflt)
      | None \<Rightarrow> dflt)"

definition parse_failure_codes :: "string \<Rightarrow> u16 set" where
  "parse_failure_codes s =
     set (filter_map (\<lambda>c. map_option of_nat (parse_unsigned (2 ^ 16 - 1) (trim c))) (split_on (CHR '','') s))"

text \<open>\<open>parse_f64\<close> stands for the decimal-to-binary conversion of \<open>str::parse::<f64>\<close>.\<close>

definition from_lookup_with_prefix ::
  "(string \<Rightarrow> f64 option) \<Rightarrow> string \<Rightarrow> (string \<Rightarrow> string option) \<Rightarrow> breaker_config" where
  "from_lookup_with_prefix parse_f64 pre get =
     (let u64_max = 2 ^ 64 - 1;
          codes = (case get (pre @ ''FAILURE_CODES'') of
              Some raw \<Rightarrow>
                (let codes = parse_failure_codes raw
                 in if codes = {} then default_failure_codes else codes)
            | None \<Rightarrow> default_failure_codes)
      in \<lparr>
        window_duration = from_secs (lookup_or (parse_unsigned u64_max) get (pre @ ''WINDOW_SECS'') 60),
        min_samples = lookup_or (parse_unsigned u64_max) get (pre @ ''MIN_SAMPLES'') 10,
        error_rate_threshold = lookup_or parse_f64 get (pre @ ''ERROR_RATE_THRESHOLD'') (Finite (1 / 2)),
        open_duration = from_secs (lookup_or (parse_unsigned u64_max) get (pre @ ''OPEN_DURATION_SECS'') 10),
        half_open_max_probes =
          max (of_nat (lookup_or (parse_unsigned u64_max) get (pre @ ''HALF_OPEN_MAX_PROBES'') 1)) 1,
        failure_codes = codes,
        enabled = lookup_or parse_bool get (pre @ ''ENABLED'') True\<rparr>)"

definition is_failure_status :: "breaker_config \<Rightarrow> u16 \<Rightarrow> bool" where
  "is_failure_status cfg status \<longleftrightarrow> status \<in> failure_codes cfg"

section \<open>The breaker: state\<close>

datatype breaker_state = Closed | Open | HalfOpen

fun as_u8 :: "breaker_state \<Rightarrow> u8" where
  "as_u8 Closed = 0"
| "as_u8 Open = 1"
| "as_u8 HalfOpen = 2"

text \<open>An invalid value fails a debug assertion and reads as \<open>Closed\<close> in a release build.\<close>

definition from_u8 :: "u8 \<Rightarrow> breaker_state" where
  "from_u8 v = (if v = 0 then Closed else if v = 1 then Open else if v = 2 then HalfOpen else Closed)"

datatype outcome = Success | Failure

text \<open>The error of \<open>check\<close>, with its \<open>retry_after\<close>.\<close>

datatype breaker_open = BreakerOpen (retry_after: duration)

datatype observer_event =
    OnStateChange breaker_state breaker_state string
  | OnProbeAdmission bool
  | OnOutcome outcome breaker_state

record breaker =
  config :: breaker_config
  state_u8 :: u8
  baseline :: instant
  opened_at_millis :: u64
  half_open_probes :: usize
  probe_claimed_at_millis :: u64
  is_open_fast :: bool
  window :: sliding_window
  observed :: "observer_event list"

definition with_clock :: "breaker_config \<Rightarrow> instant \<Rightarrow> breaker" where
  "with_clock cfg now = \<lparr>
     config = cfg\<lparr>half_open_max_probes := max (half_open_max_probes cfg) 1\<rparr>,
     state_u8 = as_u8 Closed, baseline = now, opened_at_millis = 0, half_open_probes = 0,
     probe_claimed_at_millis = 0, is_open_fast = False, window = window_new, observed = []\<rparr>"

definition notify :: "observer_event \<Rightarrow> breaker \<Rightarrow> breaker" where
  "notify ev b = b\<lparr>observed := observed b @ [ev]\<rparr>"

definition current_state :: "breaker \<Rightarrow> breaker_state" where
  "current_state b = from_u8 (state_u8 b)"

definition is_open :: "breaker \<Rightarrow> bool" where
  "is_open b = is_open_fast b"

definition elapsed_millis :: "breaker \<Rightarrow> instant \<Rightarrow> u64" where
  "elapsed_millis b now = of_nat (nat (now - baseline b) div 10 ^ 6)"

definition as_millis_u64 :: "duration \<Rightarrow> u64" where
  "as_millis_u64 d = of_nat (d div 10 ^ 6)"

section \<open>The breaker: operations\<close>

definition cas_state :: "breaker_state \<Rightarrow> breaker_state \<Rightarrow> breaker \<Rightarrow> bool \<times> breaker" where
  "cas_state from_st to_st b =
     (if state_u8 b = as_u8 from_st then (True, b\<lparr>state_u8 := as_u8 to_st\<rparr>) else (False, b))"

definition HALF_OPEN_PROBE_BACKOFF :: duration where
  "HALF_OPEN_PROBE_BACKOFF = from_millis 50"

definition try_half_open_probe :: "instant \<Rightarrow> breaker \<Rightarrow> (breaker_open + unit) \<times> breaker" where
  "try_half_open_probe t b =
     (let now = elapsed_millis b t;
          prev = half_open_probes b;
          b = b\<lparr>half_open_probes := prev + 1\<rparr>
      in if prev < half_open_max_probes (config b)
         then (Inr (), notify (OnProbeAdmission True) (b\<lparr>probe_claimed_at_millis := now\<rparr>))
         else
           (let b = b\<lparr>half_open_probes := half_open_probes b - 1\<rparr>;
                lease_millis = as_millis_u64 (open_duration (config b));
                claimed = probe_claimed_at_millis b
            in if saturating_sub now claimed \<ge> lease_millis
               then (Inr (), notify (OnProbeAdmission True) (b\<lparr>probe_claimed_at_millis := now\<rparr>))
               else (Inl (BreakerOpen (min HALF_OPEN_PROBE_BACKOFF (open_duration (config b)))),
                     notify (OnProbeAdmission False) b)))"

definition trip :: "instant \<Rightarrow> breaker_state \<Rightarrow> string \<Rightarrow> breaker \<Rightarrow> breaker" where
  "trip t prev reason b =
     (let b = b\<lparr>state_u8 := as_u8 Open, opened_at_millis := elapsed_millis b t,
                half_open_probes := 0, is_open_fast := True\<rparr>
      in if prev \<noteq> Open then notify (OnStateChange prev Open reason) b else b)"

definition breaker_close :: "breaker_state \<Rightarrow> string \<Rightarrow> breaker \<Rightarrow> breaker" where
  "breaker_close prev reason b =
     (let b = b\<lparr>state_u8 := as_u8 Closed, window := window_clear (window b),
                half_open_probes := 0, is_open_fast := False\<rparr>
      in if prev \<noteq> Closed then notify (OnStateChange prev Closed reason) b else b)"

definition elapsed_since_open :: "instant \<Rightarrow> breaker \<Rightarrow> duration" where
  "elapsed_since_open t b = from_millis (unat (saturating_sub (elapsed_millis b t) (opened_at_millis b)))"

definition check_open :: "instant \<Rightarrow> instant \<Rightarrow> breaker \<Rightarrow> (breaker_open + unit) \<times> breaker" where
  "check_open t1 t2 b =
     (let elapsed = elapsed_since_open t1 b
      in if elapsed \<ge> open_duration (config b) then
           (let (won, b1) = cas_state Open HalfOpen b
            in if won then
                 try_half_open_probe t2
                   (notify (OnStateChange Open HalfOpen ''open_elapsed'') (b1\<lparr>is_open_fast := False\<rparr>))
               else case current_state b1 of
                   Closed \<Rightarrow> (Inr (), b1)
                 | HalfOpen \<Rightarrow> try_half_open_probe t2 b1
                 | Open \<Rightarrow> (Inl (BreakerOpen (open_duration (config b1) - elapsed_since_open t2 b1)), b1))
         else (Inl (BreakerOpen (open_duration (config b) - elapsed)), b))"

definition check :: "instant \<Rightarrow> instant \<Rightarrow> breaker \<Rightarrow> (breaker_open + unit) \<times> breaker" where
  "check t1 t2 b =
     (if \<not> enabled (config b) then (Inr (), b)
      else case current_state b of
          Closed \<Rightarrow> (Inr (), b)
        | Open \<Rightarrow> check_open t1 t2 b
        | HalfOpen \<Rightarrow> try_half_open_probe t1 b)"

definition window_record :: "bool \<Rightarrow> instant \<Rightarrow> breaker \<Rightarrow> breaker" where
  "window_record is_failure now b =
     b\<lparr>window := window_evict (window_duration (config b)) now (window_push is_failure now (window b))\<rparr>"

definition should_trip :: "breaker_config \<Rightarrow> sliding_window \<Rightarrow> bool" where
  "should_trip cfg w \<longleftrightarrow>
     min_samples cfg \<le> window_sample_count w \<and> rate_ge (window_error_rate w) (error_rate_threshold cfg)"

definition record_outcome :: "instant \<Rightarrow> instant \<Rightarrow> outcome \<Rightarrow> breaker \<Rightarrow> breaker" where
  "record_outcome now t2 oc b =
     (if \<not> enabled (config b) then b
      else
        (let is_failure = (oc = Failure);
             prev_state = current_state b;
             b' = (case prev_state of
                 Closed \<Rightarrow>
                   (let b1 = window_record is_failure now b
                    in if should_trip (config b1) (window b1) then trip t2 prev_state ''trip'' b1 else b1)
               | HalfOpen \<Rightarrow>
                   if is_failure then trip t2 prev_state ''probe_failure'' b
                   else breaker_close prev_state ''probe_success'' b
               | Open \<Rightarrow> window_record is_failure now b)
         in notify (OnOutcome oc (current_state b')) b'))"

definition breaker_error_rate :: "instant \<Rightarrow> breaker \<Rightarrow> rat \<times> breaker" where
  "breaker_error_rate now b =
     (let b = b\<lparr>window := window_evict (window_duration (config b)) now (window b)\<rparr>
      in (window_error_rate (window b), b))"

definition force_half_open :: "breaker \<Rightarrow> breaker" where
  "force_half_open b =
     (let prev = current_state b;
          b = b\<lparr>state_u8 := as_u8 HalfOpen, is_open_fast := False, half_open_probes := 0\<rparr>
      in if prev \<noteq> HalfOpen then notify (OnStateChange prev HalfOpen ''force_half_open'') b else b)"

section \<open>The registry\<close>

record registry =
  reg_config :: breaker_config
  breakers :: "string \<rightharpoonup> breaker"

definition registry_new :: "breaker_config \<Rightarrow> registry" where
  "registry_new cfg = \<lparr>reg_config = cfg, breakers = Map.empty\<rparr>"

definition registry_get :: "string \<Rightarrow> instant \<Rightarrow> registry \<Rightarrow> breaker option \<times> registry" where
  "registry_get key now r =
     (if \<not> enabled (reg_config r) then (None, r)
      else case breakers r key of
          Some cb \<Rightarrow> (Some cb, r)
        | None \<Rightarrow>
            (let cb = with_clock (reg_config r) now
             in (Some cb, r\<lparr>breakers := (breakers r)(key \<mapsto> cb)\<rparr>)))"

section \<open>Retry policies\<close>

datatype disposition = Retryable | AuthRefresh | Terminal

record retry_policy =
  retryable :: "nat list"
  auth_refresh :: "nat list"
  terminal :: "nat list"
  default_disposition :: disposition

definition classify :: "retry_policy \<Rightarrow> nat \<Rightarrow> disposition option" where
  "classify p status =
     (if 200 \<le> status \<and> status < 300 then None
      else if status \<in> set (auth_refresh p) then Some AuthRefresh
      else if status \<in> set (terminal p) then Some Terminal
      else if status \<in> set (retryable p) \<or> (500 \<le> status \<and> status < 600) then Some Retryable
      else Some (default_disposition p))"

definition should_retry :: "retry_policy \<Rightarrow> nat \<Rightarrow> bool" where
  "should_retry p status \<longleftrightarrow> classify p status = Some Retryable"

definition policy_server :: retry_policy where
  "policy_server = \<lparr>retryable = [429], auth_refresh = [], terminal = [], default_disposition = Terminal\<rparr>"

definition policy_edge_client :: retry_policy where
  "policy_edge_client =
     \<lparr>retryable = [429], auth_refresh = [], terminal = [525, 526], default_disposition = Terminal\<rparr>"

definition policy_client_storage :: retry_policy where
  "policy_client_storage =
     \<lparr>retryable = [], auth_refresh = [401], terminal = [400, 403, 404, 525, 526],
      default_disposition = Retryable\<rparr>"

datatype grpc_code =
    Ok | Cancelled | Unknown | InvalidArgument | DeadlineExceeded | NotFound | AlreadyExists
  | PermissionDenied | ResourceExhausted | FailedPrecondition | Aborted | OutOfRange
  | Unimplemented | Internal | Unavailable | DataLoss | Unauthenticated

type_synonym grpc_retry_policy = "grpc_code list"

definition GRPC_DEFAULT :: grpc_retry_policy where "GRPC_DEFAULT = [Unavailable, Unknown]"

definition GRPC_PERMISSIVE :: grpc_retry_policy where
  "GRPC_PERMISSIVE = [Unavailable, Unknown, Internal, DeadlineExceeded]"

definition grpc_is_retryable :: "grpc_retry_policy \<Rightarrow> grpc_code \<Rightarrow> bool" where
  "grpc_is_retryable p c \<longleftrightarrow> c \<in> set p"

definition grpc_classify :: "grpc_retry_policy \<Rightarrow> grpc_code \<Rightarrow> disposition option" where
  "grpc_classify p c =
     (if c = Ok then None else if grpc_is_retryable p c then Some Retryable else Some Terminal)"

section \<open>Invariant\<close>

definition breaker_inv :: "breaker \<Rightarrow> bool" where
  "breaker_inv b \<longleftrightarrow>
     window_inv (window b)
     \<and> state_u8 b = as_u8 (current_state b)
     \<and> (is_open_fast b \<longleftrightarrow> current_state b = Open)
     \<and> 1 \<le> half_open_max_probes (config b)
     \<and> half_open_probes b \<le> half_open_max_probes (config b)
     \<and> (current_state b \<noteq> HalfOpen \<longrightarrow> half_open_probes b = 0)"

lemma from_u8_as_u8 [simp]: "from_u8 (as_u8 s) = s"
  by (cases s) (simp_all add: from_u8_def)

lemma from_u8_consts [simp]: "from_u8 0 = Closed" "from_u8 1 = Open" "from_u8 2 = HalfOpen"
  by (simp_all add: from_u8_def)

lemma notify_fields [simp]:
  "config (notify e b) = config b" "state_u8 (notify e b) = state_u8 b" "window (notify e b) = window b"
  "baseline (notify e b) = baseline b" "opened_at_millis (notify e b) = opened_at_millis b"
  "half_open_probes (notify e b) = half_open_probes b" "is_open_fast (notify e b) = is_open_fast b"
  "probe_claimed_at_millis (notify e b) = probe_claimed_at_millis b"
  "current_state (notify e b) = current_state b"
  by (simp_all add: notify_def current_state_def)

lemma breaker_inv_notify [simp]: "breaker_inv (notify e b) \<longleftrightarrow> breaker_inv b"
  by (simp add: breaker_inv_def)

lemma breaker_inv_with_clock [inv_intros]: "breaker_inv (with_clock cfg now)"
  by (simp add: breaker_inv_def with_clock_def current_state_def from_u8_def inv_intros)

lemma word_plus_one_le:
  fixes p m :: "'a::len word"
  shows "p < m \<Longrightarrow> p + 1 \<le> m"
  using inc_le by blast

lemma breaker_inv_probe [inv_intros]:
  "breaker_inv b \<Longrightarrow> current_state b = HalfOpen \<Longrightarrow> breaker_inv (snd (try_half_open_probe t b))"
  by (auto simp: try_half_open_probe_def Let_def breaker_inv_def current_state_def word_plus_one_le)

lemma breaker_inv_trip [inv_intros]: "breaker_inv b \<Longrightarrow> breaker_inv (trip t prev reason b)"
  by (auto simp: trip_def Let_def breaker_inv_def current_state_def)

lemma breaker_inv_close [inv_intros]: "breaker_inv b \<Longrightarrow> breaker_inv (breaker_close prev reason b)"
  by (auto simp: breaker_close_def Let_def breaker_inv_def current_state_def inv_intros)

lemma breaker_inv_window_record [inv_intros]:
  "breaker_inv b \<Longrightarrow> breaker_inv (window_record f now b)"
  by (auto simp: window_record_def breaker_inv_def current_state_def inv_intros)

lemma check_open_won:
  assumes "state_u8 b = as_u8 Open" and "open_duration (config b) \<le> elapsed_since_open t1 b"
  shows "check_open t1 t2 b = try_half_open_probe t2
     (notify (OnStateChange Open HalfOpen ''open_elapsed'') (b\<lparr>state_u8 := as_u8 HalfOpen, is_open_fast := False\<rparr>))"
  using assms by (simp add: check_open_def Let_def cas_state_def)

lemma breaker_inv_check [inv_intros]:
  assumes "breaker_inv b"
  shows "breaker_inv (snd (check t1 t2 b))"
proof (cases "current_state b")
  case Open
  show ?thesis
  proof (cases "open_duration (config b) \<le> elapsed_since_open t1 b")
    case True
    have st: "state_u8 b = as_u8 Open" using assms Open by (simp add: breaker_inv_def)
    have "breaker_inv (b\<lparr>state_u8 := as_u8 HalfOpen, is_open_fast := False\<rparr>)"
      using assms Open by (simp add: breaker_inv_def current_state_def)
    then have "breaker_inv (snd (check_open t1 t2 b))"
      unfolding check_open_won [OF st True]
      by (intro breaker_inv_probe) (simp_all add: current_state_def)
    then show ?thesis using Open assms by (simp add: check_def)
  qed (use assms Open in \<open>simp add: check_def check_open_def\<close>)
qed (use assms in \<open>simp_all add: check_def inv_intros\<close>)

lemma breaker_inv_record [inv_intros]: "breaker_inv b \<Longrightarrow> breaker_inv (record_outcome now t2 oc b)"
  by (auto simp: record_outcome_def Let_def inv_intros split: breaker_state.splits)

lemma breaker_inv_error_rate [inv_intros]: "breaker_inv b \<Longrightarrow> breaker_inv (snd (breaker_error_rate now b))"
  by (auto simp: breaker_error_rate_def Let_def breaker_inv_def current_state_def inv_intros)

lemma breaker_inv_force [inv_intros]: "breaker_inv b \<Longrightarrow> breaker_inv (force_half_open b)"
  by (auto simp: force_half_open_def Let_def breaker_inv_def current_state_def from_u8_def)


section \<open>Runs\<close>

datatype breaker_op =
    CheckOp instant instant
  | RecordOp instant instant outcome
  | ErrorRateOp instant
  | ForceHalfOpenOp

fun breaker_step :: "breaker \<Rightarrow> breaker_op \<Rightarrow> breaker" where
  "breaker_step b (CheckOp t1 t2) = snd (check t1 t2 b)"
| "breaker_step b (RecordOp t1 t2 oc) = record_outcome t1 t2 oc b"
| "breaker_step b (ErrorRateOp t) = snd (breaker_error_rate t b)"
| "breaker_step b ForceHalfOpenOp = force_half_open b"

lemma breaker_inv_step: "breaker_inv b \<Longrightarrow> breaker_inv (breaker_step b a)"
  by (cases a) (simp_all add: inv_intros)

lemma breaker_inv_run: "breaker_inv b \<Longrightarrow> breaker_inv (foldl breaker_step b as)"
  by (induction as arbitrary: b) (simp_all add: breaker_inv_step)

section \<open>Clock readings\<close>

lemma unat_elapsed_millis:
  "nat (t - baseline b) div 10 ^ 6 < 2 ^ 64 \<Longrightarrow> unat (elapsed_millis b t) = nat (t - baseline b) div 10 ^ 6"
  by (simp add: elapsed_millis_def unat_of_nat)

lemma millis_div_diff:
  fixes a c :: nat
  assumes "a \<le> c"
  shows "(c div 1000000 - a div 1000000) * 1000000 \<le> (c - a) + 999999"
    and "c - a \<le> (c div 1000000 - a div 1000000) * 1000000 + 999999"
proof -
  have "c div 1000000 * 1000000 + c mod 1000000 = c" "a div 1000000 * 1000000 + a mod 1000000 = a"
    "c mod 1000000 < 1000000" "a mod 1000000 < 1000000" "a div 1000000 \<le> c div 1000000"
    using assms by (simp_all add: div_le_mono)
  then show "(c div 1000000 - a div 1000000) * 1000000 \<le> (c - a) + 999999"
    and "c - a \<le> (c div 1000000 - a div 1000000) * 1000000 + 999999"
    unfolding diff_mult_distrib using assms by linarith+
qed

lemma elapsed_since_trip:
  assumes "baseline b \<le> t0" and "t0 \<le> t1" and "nat (t1 - baseline b) div 10 ^ 6 < 2 ^ 64"
    and e_def: "e = elapsed_since_open t1 (trip t0 prev reason b)"
  shows "e \<le> nat (t1 - t0) + 999999" and "nat (t1 - t0) \<le> e + 999999"
proof -
  let ?a = "nat (t0 - baseline b)" and ?c = "nat (t1 - baseline b)"
  have le: "?a \<le> ?c" and d: "?c - ?a = nat (t1 - t0)" using assms(1,2) by auto
  have c: "?c div 10 ^ 6 < 2 ^ 64" by (fact assms(3))
  then have a: "?a div 10 ^ 6 < 2 ^ 64" using div_le_mono [OF le] by (rule le_less_trans [rotated])
  have "e = (?c div 1000000 - ?a div 1000000) * 1000000"
    using unat_elapsed_millis [OF a] unat_elapsed_millis [OF c]
    by (simp add: e_def elapsed_since_open_def trip_def Let_def unat_saturating_sub elapsed_millis_def)
  then show "e \<le> nat (t1 - t0) + 999999" and "nat (t1 - t0) \<le> e + 999999"
    using millis_div_diff [OF le] by (simp_all only: d)
qed

lemma trip_fields [simp]:
  "config (trip t prev reason b) = config b" "state_u8 (trip t prev reason b) = as_u8 Open"
  "half_open_probes (trip t prev reason b) = 0" "window (trip t prev reason b) = window b"
  "current_state (trip t prev reason b) = Open"
  by (simp_all add: trip_def Let_def current_state_def)

lemma window_record_fields [simp]:
  "config (window_record f now b) = config b" "current_state (window_record f now b) = current_state b"
  by (simp_all add: window_record_def current_state_def)

lemma close_fields [simp]:
  "current_state (breaker_close prev reason b) = Closed"
  "window (breaker_close prev reason b) = window_clear (window b)"
  "half_open_probes (breaker_close prev reason b) = 0" "is_open_fast (breaker_close prev reason b) = False"
  by (simp_all add: breaker_close_def Let_def current_state_def)

lemma probe_slot_free:
  assumes "half_open_probes b < half_open_max_probes (config b)"
  shows "try_half_open_probe t b = (Inr (), notify (OnProbeAdmission True)
     (b\<lparr>half_open_probes := half_open_probes b + 1, probe_claimed_at_millis := elapsed_millis b t\<rparr>))"
  using assms by (simp add: try_half_open_probe_def Let_def elapsed_millis_def)

lemma probe_all_claimed:
  assumes "\<not> half_open_probes b < half_open_max_probes (config b)"
  shows "try_half_open_probe t b =
     (if as_millis_u64 (open_duration (config b)) \<le> saturating_sub (elapsed_millis b t) (probe_claimed_at_millis b)
      then (Inr (), notify (OnProbeAdmission True) (b\<lparr>probe_claimed_at_millis := elapsed_millis b t\<rparr>))
      else (Inl (BreakerOpen (min HALF_OPEN_PROBE_BACKOFF (open_duration (config b)))),
            notify (OnProbeAdmission False) b))"
  using assms by (simp add: try_half_open_probe_def Let_def elapsed_millis_def)

text \<open>In every state reached from construction by any sequence of checks, recorded outcomes,
  rate queries and forced half-opens, at any clock readings: the lock-free flag read by
  \<open>is_open\<close> agrees with the authoritative state, the incremental failure count is the number of
  failed samples, the window never exceeds its cap, and the claimed probe slots never exceed the
  configured maximum and are all free outside the half-open state.\<close>

theorem breaker_run_invariant:
  "let b = foldl breaker_step (with_clock cfg now) as
   in (is_open b \<longleftrightarrow> current_state b = Open)
      \<and> failures (window b) = length (filter snd (entries (window b)))
      \<and> length (entries (window b)) \<le> MAX_WINDOW_ENTRIES
      \<and> half_open_probes b \<le> half_open_max_probes (config b)
      \<and> \<not> (current_state b \<noteq> HalfOpen \<and> half_open_probes b \<noteq> 0)"
  using breaker_inv_run [OF breaker_inv_with_clock, of cfg now as]
  by (auto simp: breaker_inv_def window_inv_def is_open_def Let_def)

text \<open>Fed by \<open>record\<close> with a monotone clock, the window of a closed breaker holds exactly the
  newest \<open>MAX_WINDOW_ENTRIES\<close> of all recorded samples, less those older than the window at the
  last record.\<close>

theorem window_holds_recent_history:
  assumes "sorted (map fst (es @ [(t, f)]))"
    and "INSTANT_MIN \<le> fst (hd (es @ [(t, f)])) - int d"
  shows "entries (window.feed d (es @ [(t, f)]) window_new)
     = dropWhile (\<lambda>e. fst e < t - int d) (take_last MAX_WINDOW_ENTRIES (es @ [(t, f)]))"
  by (rule window.feed_history [OF window_inv_new _ assms]) (simp add: window_new_def)

theorem window_holds_recent_history_witness:
  "entries (window.feed 60 ([(0, True), (50, False)] @ [(100, True)]) window_new) = [(50, False), (100, True)]"
proof -
  have "entries (window.feed 60 ([(0, True), (50, False)] @ [(100, True)]) window_new)
     = dropWhile (\<lambda>e. fst e < 100 - int 60) (take_last MAX_WINDOW_ENTRIES ([(0, True), (50, False)] @ [(100, True)]))"
    by (rule window_holds_recent_history) (simp_all add: INSTANT_MIN_def)
  then show ?thesis by (simp add: take_last_def MAX_WINDOW_ENTRIES_def)
qed

lemma should_trip_half:
  assumes "window_inv w" and "error_rate_threshold cfg = Finite (1 / 2)" and "0 < min_samples cfg"
  shows "should_trip cfg w \<longleftrightarrow> min_samples cfg \<le> length (entries w)
     \<and> length (entries w) \<le> 2 * length (filter snd (entries w))"
proof (cases "entries w = []")
  case False
  moreover have "length (entries w) \<le> 2 ^ 50"
    using window_inv_length [OF assms(1)] by (simp add: MAX_WINDOW_ENTRIES_def)
  ultimately show ?thesis
    using f64_div_half [of "length (entries w)" "failures w"] assms
    by (simp add: should_trip_def window_sample_count_def window_error_rate_def failures_eq)
qed (use assms in \<open>simp add: should_trip_def window_sample_count_def\<close>)

text \<open>With the threshold one half of both presets, recording an outcome in the closed state
  opens the breaker exactly when the live window then has at least the minimum number of samples
  and at least half of them failed; the floating-point comparison is exact. The breaker never
  leaves the closed state otherwise.\<close>

theorem record_trips_iff:
  assumes "breaker_inv b" and "enabled (config b)" and "current_state b = Closed"
    and "error_rate_threshold (config b) = Finite (1 / 2)" and "0 < min_samples (config b)"
    and es_def: "es = entries (window (window_record (oc = Failure) now b))"
  shows "current_state (record_outcome now t2 oc b) =
     (if min_samples (config b) \<le> length es \<and> length es \<le> 2 * length (filter snd es) then Open else Closed)"
proof -
  have "window_inv (window (window_record (oc = Failure) now b))"
    using breaker_inv_window_record [OF assms(1)] by (simp add: breaker_inv_def)
  then show ?thesis
    using should_trip_half assms by (auto simp: record_outcome_def Let_def)
qed

theorem record_trips_iff_witness:
  "current_state (record_outcome 5 6 Failure
     (with_clock (config_client\<lparr>min_samples := 1\<rparr>) 0)) = Open"
  using record_trips_iff [OF breaker_inv_with_clock, of "config_client\<lparr>min_samples := 1\<rparr>" 0 _ Failure 5 6, OF _ _ _ _ refl]
  by (simp add: with_clock_def config_client_def current_state_def window_record_def window_push_def
      window_new_def window_evict_def checked_sub_def INSTANT_MIN_def MAX_WINDOW_ENTRIES_def)

lemma record_half_open:
  assumes "enabled (config b)" and "current_state b = HalfOpen"
  shows "current_state (record_outcome t1 t2 Success b) = Closed"
    and "entries (window (record_outcome t1 t2 Success b)) = []"
    and "current_state (record_outcome t1 t2 Failure b) = Open"
  using assms by (simp_all add: record_outcome_def Let_def window_clear_def)

text \<open>C35: The cool-down is kept to within one millisecond. A breaker tripped at \<open>t0\<close> sheds every
  check made at least a millisecond before \<open>t0 + open_duration\<close>, with a positive retry delay and
  no change of state, and a check made a millisecond after \<open>t0 + open_duration\<close> or later is
  admitted as a probe; that probe's success closes the breaker with an empty window and its
  failure opens it again.\<close>

theorem cooldown_and_recovery:
  assumes inv: "breaker_inv b" and en: "enabled (config b)" and t: "baseline b \<le> t0" "t0 \<le> t1"
    and range: "nat (t1 - baseline b) div 10 ^ 6 < 2 ^ 64"
    and tripped: "b0 = trip t0 prev reason b"
  shows "(nat (t1 - t0) + 10 ^ 6 \<le> open_duration (config b) \<longrightarrow>
           (\<exists>d > 0. check t1 t2 b0 = (Inl (BreakerOpen d), b0)))
     \<and> (open_duration (config b) + 10 ^ 6 \<le> nat (t1 - t0) \<longrightarrow>
           (\<exists>b1. check t1 t2 b0 = (Inr (), b1) \<and> current_state b1 = HalfOpen
              \<and> current_state (record_outcome t3 t4 Success b1) = Closed
              \<and> entries (window (record_outcome t3 t4 Success b1)) = []
              \<and> current_state (record_outcome t3 t4 Failure b1) = Open))"
proof -
  let ?e = "elapsed_since_open t1 b0"
  have e: "?e \<le> nat (t1 - t0) + 999999" "nat (t1 - t0) \<le> ?e + 999999"
    using elapsed_since_trip [OF t range refl] by (simp_all add: tripped)
  have st: "current_state b0 = Open" "config b0 = config b" "state_u8 b0 = as_u8 Open"
    "half_open_probes b0 = 0"
    by (simp_all add: tripped)
  have "check t1 t2 b0 = check_open t1 t2 b0" using en st by (simp add: check_def)
  moreover have "check_open t1 t2 b0 = (Inl (BreakerOpen (open_duration (config b) - ?e)), b0)
      \<and> 0 < open_duration (config b) - ?e"
    if "nat (t1 - t0) + 10 ^ 6 \<le> open_duration (config b)"
    using that e st by (simp add: check_open_def Let_def)
  moreover have "\<exists>b1. check_open t1 t2 b0 = (Inr (), b1) \<and> current_state b1 = HalfOpen \<and> config b1 = config b"
    if "open_duration (config b) + 10 ^ 6 \<le> nat (t1 - t0)"
  proof -
    let ?b = "notify (OnStateChange Open HalfOpen ''open_elapsed'') (b0\<lparr>state_u8 := as_u8 HalfOpen, is_open_fast := False\<rparr>)"
    have "check_open t1 t2 b0 = try_half_open_probe t2 ?b"
      using that e st by (intro check_open_won) simp_all
    moreover have "half_open_probes ?b < half_open_max_probes (config ?b)"
      using inv st by (simp add: breaker_inv_def word_le_nat_alt word_less_nat_alt)
    ultimately show ?thesis using st by (auto simp: probe_slot_free current_state_def)
  qed
  ultimately show ?thesis using record_half_open en by metis
qed

theorem cooldown_and_recovery_witness:
  "\<exists>b1. check 20000000000 20000000000 (trip 0 Closed ''trip'' (with_clock config_server 0)) = (Inr (), b1)
     \<and> current_state b1 = HalfOpen"
proof -
  let ?b = "with_clock config_server 0"
  have b: "enabled (config ?b)" "open_duration (config ?b) = 10000000000" "baseline ?b = 0"
    by (simp_all add: with_clock_def config_server_def)
  have "(open_duration (config ?b) + 10 ^ 6 \<le> nat (20000000000 - 0) \<longrightarrow>
     (\<exists>b1. check 20000000000 20000000000 (trip 0 Closed ''trip'' ?b) = (Inr (), b1) \<and> current_state b1 = HalfOpen
        \<and> current_state (record_outcome 0 0 Success b1) = Closed
        \<and> entries (window (record_outcome 0 0 Success b1)) = []
        \<and> current_state (record_outcome 0 0 Failure b1) = Open))"
    by (rule cooldown_and_recovery [OF breaker_inv_with_clock b(1) _ _ _ refl, THEN conjunct2])
      (simp_all add: b(3))
  then show ?thesis by (simp add: b(2)) blast
qed

section \<open>Probe admission\<close>

text \<open>A series of checks, with the number of them that were admitted.\<close>

fun checks :: "instant list \<Rightarrow> breaker \<Rightarrow> nat \<times> breaker" where
  "checks [] b = (0, b)"
| "checks (t # ts) b =
     (let (r, b1) = check t t b; (n, b2) = checks ts b1
      in (if r = Inr () then Suc n else n, b2))"

definition within_lease :: "breaker \<Rightarrow> nat \<Rightarrow> instant \<Rightarrow> bool" where
  "within_lease b m0 t \<longleftrightarrow> m0 \<le> unat (elapsed_millis b t)
     \<and> unat (elapsed_millis b t) < m0 + unat (as_millis_u64 (open_duration (config b)))"

definition lease_fresh :: "breaker \<Rightarrow> nat \<Rightarrow> bool" where
  "lease_fresh b m0 \<longleftrightarrow>
     (half_open_probes b = half_open_max_probes (config b) \<longrightarrow> m0 \<le> unat (probe_claimed_at_millis b))"

lemma unat_Suc_below:
  fixes p m :: "'a::len word"
  assumes "p < m"
  shows "unat (p + 1) = Suc (unat p)"
proof -
  have "Suc (unat p) \<le> unat m" using assms by (simp add: word_less_nat_alt)
  then have "Suc (unat p) < 2 ^ LENGTH('a)" using unsigned_less [of m] by (rule le_less_trans)
  then show ?thesis by (simp add: unat_word_ariths)
qed

lemma probe_step:
  assumes inv: "breaker_inv b" and st: "current_state b = HalfOpen"
    and lease: "within_lease b m0 t" and fresh: "lease_fresh b m0"
    and res: "try_half_open_probe t b = (r, b')"
  shows "current_state b' = HalfOpen \<and> config b' = config b \<and> baseline b' = baseline b
     \<and> lease_fresh b' m0
     \<and> (if half_open_probes b < half_open_max_probes (config b)
        then r = Inr () \<and> unat (half_open_probes b') = Suc (unat (half_open_probes b))
        else r \<noteq> Inr () \<and> half_open_probes b' = half_open_probes b)"
proof (cases "half_open_probes b < half_open_max_probes (config b)")
  case True
  then show ?thesis
    using res st lease
    by (auto simp: probe_slot_free current_state_def lease_fresh_def within_lease_def unat_Suc_below)
next
  case False
  then have "half_open_probes b = half_open_max_probes (config b)"
    using inv by (simp add: breaker_inv_def)
  then have "unat (saturating_sub (elapsed_millis b t) (probe_claimed_at_millis b))
      < unat (as_millis_u64 (open_duration (config b)))"
    using lease fresh by (simp add: unat_saturating_sub within_lease_def lease_fresh_def) linarith
  then have "\<not> as_millis_u64 (open_duration (config b))
      \<le> saturating_sub (elapsed_millis b t) (probe_claimed_at_millis b)"
    by (simp add: word_le_nat_alt)
  then show ?thesis using False res st fresh
    by (auto simp: probe_all_claimed current_state_def lease_fresh_def)
qed

lemma config_server_simps:
  "enabled config_server" "open_duration config_server = 10000000000" "half_open_max_probes config_server = 1"
  "min_samples config_server = 10" "error_rate_threshold config_server = Finite (1 / 2)"
  by (simp_all add: config_server_def)

lemma half_open_server:
  "config (force_half_open (with_clock config_server 0)) = config_server"
  "baseline (force_half_open (with_clock config_server 0)) = 0"
  "current_state (force_half_open (with_clock config_server 0)) = HalfOpen"
  "half_open_probes (force_half_open (with_clock config_server 0)) = 0"
  "probe_claimed_at_millis (force_half_open (with_clock config_server 0)) = 0"
  by (simp_all add: force_half_open_def with_clock_def Let_def current_state_def config_server_def)

text \<open>While the breaker is half-open and no probe's lease has run out, checks admit exactly
  the free probe slots and no more: of any number of checks within the lease, the first
  \<open>max_probes - claimed\<close> are admitted and the rest are shed.\<close>

theorem probes_admitted_exactly:
  assumes "breaker_inv b" and "enabled (config b)" and "current_state b = HalfOpen"
    and "list_all (within_lease b m0) ts" and "lease_fresh b m0"
  shows "fst (checks ts b) =
     min (length ts) (unat (half_open_max_probes (config b)) - unat (half_open_probes b))"
  using assms
proof (induction ts arbitrary: b)
  case (Cons t ts)
  obtain r b' where res: "try_half_open_probe t b = (r, b')" by fastforce
  have chk: "check t t b = (r, b')" using Cons.prems res by (simp add: check_def)
  have step: "current_state b' = HalfOpen \<and> config b' = config b \<and> baseline b' = baseline b \<and> lease_fresh b' m0
     \<and> (if half_open_probes b < half_open_max_probes (config b)
        then r = Inr () \<and> unat (half_open_probes b') = Suc (unat (half_open_probes b))
        else r \<noteq> Inr () \<and> half_open_probes b' = half_open_probes b)"
    using Cons.prems res by (intro probe_step) simp_all
  have inv: "breaker_inv b'" using breaker_inv_check [OF Cons.prems(1), of t t] by (simp add: chk)
  have "list_all (within_lease b' m0) ts"
    using Cons.prems(4) step by (simp add: within_lease_def elapsed_millis_def list_all_iff)
  then have IH: "fst (checks ts b') =
      min (length ts) (unat (half_open_max_probes (config b)) - unat (half_open_probes b'))"
    using Cons.IH [OF inv] Cons.prems step by simp
  show ?case
    using IH step chk
    by (auto simp: Let_def word_less_nat_alt split: prod.splits if_splits)
qed simp

theorem probes_admitted_exactly_witness:
  "fst (checks [0, 1000000, 2000000] (force_half_open (with_clock config_server 0))) = 1"
proof -
  define b where "b = force_half_open (with_clock config_server 0)"
  have b: "config b = config_server" "baseline b = 0" "current_state b = HalfOpen" "half_open_probes b = 0"
    by (simp_all add: b_def half_open_server)
  have "fst (checks [0, 1000000, 2000000] b) =
      min (length [0, 1000000, 2000000 :: int]) (unat (half_open_max_probes (config b)) - unat (half_open_probes b))"
  proof (rule probes_admitted_exactly [of _ 0])
    show "breaker_inv b" by (simp add: b_def inv_intros)
  qed (simp_all add: b within_lease_def lease_fresh_def elapsed_millis_def as_millis_u64_def config_server_simps)
  then show ?thesis by (simp add: b config_server_simps b_def [symmetric])
qed

text \<open>A half-open breaker whose probe slots are all claimed is never stuck: once the newest
  claim is at least one \<open>open_duration\<close> old, the next check is admitted and renews the claim, so
  that a second check at the same instant is shed again unless the lease is empty.\<close>

theorem lost_probe_reclaimed:
  assumes "enabled (config b)" and "current_state b = HalfOpen"
    and "half_open_probes b = half_open_max_probes (config b)"
    and "as_millis_u64 (open_duration (config b))
       \<le> saturating_sub (elapsed_millis b t) (probe_claimed_at_millis b)"
  shows "\<exists>b1. check t t' b = (Inr (), b1) \<and> current_state b1 = HalfOpen
     \<and> half_open_probes b1 = half_open_probes b
     \<and> (as_millis_u64 (open_duration (config b)) \<noteq> 0 \<longrightarrow>
          (\<exists>d b2. check t t' b1 = (Inl (BreakerOpen d), b2) \<and> d \<le> HALF_OPEN_PROBE_BACKOFF))"
proof -
  let ?b1 = "notify (OnProbeAdmission True) (b\<lparr>probe_claimed_at_millis := elapsed_millis b t\<rparr>)"
  have "check t t' b = (Inr (), ?b1)" using assms by (simp add: check_def probe_all_claimed)
  moreover have st: "current_state ?b1 = HalfOpen" using assms by (simp add: current_state_def)
  moreover have "\<exists>d b2. check t t' ?b1 = (Inl (BreakerOpen d), b2) \<and> d \<le> HALF_OPEN_PROBE_BACKOFF"
    if "as_millis_u64 (open_duration (config b)) \<noteq> 0"
  proof -
    have "elapsed_millis ?b1 t = elapsed_millis b t" by (simp add: elapsed_millis_def)
    then show ?thesis using assms that st
      by (simp add: check_def probe_all_claimed saturating_sub_def)
  qed
  ultimately show ?thesis by auto
qed

theorem lost_probe_reclaimed_witness:
  "\<exists>b1. check 11000000000 0 ((force_half_open (with_clock config_server 0))\<lparr>half_open_probes := 1\<rparr>) = (Inr (), b1)"
proof -
  define b where "b = (force_half_open (with_clock config_server 0))\<lparr>half_open_probes := 1\<rparr>"
  have b: "config b = config_server" "baseline b = 0" "current_state b = HalfOpen"
    "half_open_probes b = 1" "probe_claimed_at_millis b = 0"
    using half_open_server by (simp_all add: b_def current_state_def)
  have "\<exists>b1. check 11000000000 0 b = (Inr (), b1) \<and> current_state b1 = HalfOpen
     \<and> half_open_probes b1 = half_open_probes b
     \<and> (as_millis_u64 (open_duration (config b)) \<noteq> 0 \<longrightarrow>
          (\<exists>d b2. check 11000000000 0 b1 = (Inl (BreakerOpen d), b2) \<and> d \<le> HALF_OPEN_PROBE_BACKOFF))"
    by (rule lost_probe_reclaimed)
      (simp_all add: b config_server_simps elapsed_millis_def as_millis_u64_def saturating_sub_def)
  then show ?thesis unfolding b_def by blast
qed

section \<open>Disabled breakers, the registry and the policies\<close>

lemma disabled_never_sheds:
  "\<not> enabled (config b) \<Longrightarrow> check t1 t2 b = (Inr (), b) \<and> record_outcome t1 t2 oc b = b"
  by (simp add: check_def record_outcome_def)

lemma registry_get_stable:
  "enabled (reg_config r) \<Longrightarrow> registry_get key now r = (cb, r') \<Longrightarrow> registry_get key now' r' = (cb, r')"
  by (cases "breakers r key") (auto simp: registry_get_def Let_def split: option.splits dest: sym)

text \<open>The three presets classify every HTTP status as documented: success statuses are no
  error; the server preset retries 429 and 5xx and nothing else; the edge preset does the same
  but drops 525 and 526; the storage preset drops 400, 403, 404, 525 and 526, refreshes
  credentials on 401 and retries all other errors.\<close>

theorem retry_presets:
  "(classify p status = None \<longleftrightarrow> 200 \<le> status \<and> status < 300)
   \<and> (should_retry policy_server status \<longleftrightarrow> status = 429 \<or> 500 \<le> status \<and> status < 600)
   \<and> (should_retry policy_edge_client status \<longleftrightarrow>
     status = 429 \<or> 500 \<le> status \<and> status < 600 \<and> status \<noteq> 525 \<and> status \<noteq> 526)
   \<and> classify policy_client_storage status =
     (if 200 \<le> status \<and> status < 300 then None
      else if status = 401 then Some AuthRefresh
      else if status \<in> {400, 403, 404, 525, 526} then Some Terminal
      else Some Retryable)"
  by (auto simp: classify_def should_retry_def policy_server_def policy_edge_client_def
      policy_client_storage_def)

end
