(* ===== verification/Interjection.thy ===== *)
theory Interjection
  imports Ledger
begin

text \<open>
  The crate \<open>xai-interjection-core\<close>: the shared event queue (\<open>events.rs\<close>), the buffer of
  mid-turn interjections (\<open>buffer.rs\<close>) and the framing of a steered user message
  (\<open>format.rs\<close>). An \<open>EventQueue\<close> is the list behind its mutex; each method holds the lock for
  its whole body, so a method is one step.
\<close>

section \<open>The event queue\<close>

type_synonym 'e event_queue = "'e list"

definition queue_new :: "'e event_queue" where "queue_new = []"

definition queue_push :: "'e \<Rightarrow> 'e event_queue \<Rightarrow> 'e event_queue" where
  "queue_push event q = q @ [event]"

definition push_capped :: "'e \<Rightarrow> nat \<Rightarrow> 'e event_queue \<Rightarrow> 'e event_queue" where
  "push_capped event cap q =
     (let q = q @ [event] in if cap < length q then drop (length q - cap) q else q)"

definition queue_len :: "'e event_queue \<Rightarrow> nat" where "queue_len q = length q"

definition queue_is_empty :: "'e event_queue \<Rightarrow> bool" where "queue_is_empty q \<longleftrightarrow> q = []"

definition drain_matching :: "('e \<Rightarrow> bool) \<Rightarrow> 'e event_queue \<Rightarrow> 'e list \<times> 'e event_queue" where
  "drain_matching take_it q = List.partition take_it q"

definition drain_all :: "'e event_queue \<Rightarrow> 'e list \<times> 'e event_queue" where
  "drain_all q = (q, [])"

definition restore_front :: "'e list \<Rightarrow> 'e event_queue \<Rightarrow> 'e event_queue" where
  "restore_front events q = (if events = [] then q else (let tail = q; q = events in q @ tail))"

definition queue_clear :: "'e event_queue \<Rightarrow> 'e event_queue" where "queue_clear q = []"

definition snapshot :: "'e event_queue \<Rightarrow> 'e list" where "snapshot q = q"

section \<open>Framing\<close>

definition LARGE_PROMPT_THRESHOLD :: nat where "LARGE_PROMPT_THRESHOLD = 25000"

definition INTERJECTION_NOTE :: string where
  "INTERJECTION_NOTE = ''The user sent a message while you were working:''"

definition INTERRUPT_NOTE :: string where
  "INTERRUPT_NOTE = ''The user interrupted the previous turn:''"

definition UNFINISHED_TASKS_REMINDER :: string where
  "UNFINISHED_TASKS_REMINDER = ''Make sure to complete any unfinished tasks from previous turns.''"

definition user_query :: "string \<Rightarrow> string" where
  "user_query user_message = ''<user_query>'' @ [NL] @ user_message @ [NL] @ ''</user_query>''"

definition frame_user_turn :: "string \<Rightarrow> string \<Rightarrow> string" where
  "frame_user_turn note assembled = note @ [NL] @ assembled @ [NL] @ UNFINISHED_TASKS_REMINDER"

text \<open>The length of a character's encoding, from its first byte (\<open>len_utf8\<close>), and the start
  index and length of every character (\<open>char_indices\<close>).\<close>

definition char_len :: "char \<Rightarrow> nat" where
  "char_len c = (if code c < 0xC0 then 1 else if code c < 0xE0 then 2 else if code c < 0xF0 then 3 else 4)"

function char_indices_from :: "nat \<Rightarrow> string \<Rightarrow> (nat \<times> nat) list" where
  "char_indices_from i [] = []"
| "char_indices_from i (c # cs) =
     (i, char_len c) # char_indices_from (i + char_len c) (drop (char_len c - 1) cs)"
  by pat_completeness auto
termination
  by (relation "measure (\<lambda>(i, s). length s)") auto

definition truncation_end :: "string \<Rightarrow> nat" where
  "truncation_end s =
     (let starts = takeWhile (\<lambda>(i, _). i < LARGE_PROMPT_THRESHOLD) (char_indices_from 0 s)
      in if starts = [] then length s else (let (i, l) = last starts in i + l))"

definition truncate_prompt :: "string \<Rightarrow> string" where
  "truncate_prompt s =
     (if length s \<le> LARGE_PROMPT_THRESHOLD then s
      else take (truncation_end s) s @ ''... [truncated]'')"

definition format_steered_query :: "string \<Rightarrow> string \<Rightarrow> string" where
  "format_steered_query note s = frame_user_turn note (user_query (truncate_prompt s))"

definition format_interjection :: "string \<Rightarrow> string" where
  "format_interjection s = format_steered_query INTERJECTION_NOTE s"

definition format_interrupt :: "string \<Rightarrow> string" where
  "format_interrupt s = format_steered_query INTERRUPT_NOTE s"

section \<open>The interjection buffer\<close>

record 'a pending_interjection =
  pending_text :: string
  pending_attachments :: "'a list"

record 'a formatted_interjection =
  formatted_text :: string
  formatted_attachments :: "'a list"

definition drain_formatted ::
  "'a pending_interjection event_queue \<Rightarrow> (string \<Rightarrow> string)
   \<Rightarrow> 'a formatted_interjection list \<times> 'a pending_interjection event_queue" where
  "drain_formatted buffer sanitize_text =
     (let (drained, buffer) = drain_all buffer
      in (map (\<lambda>entry. \<lparr>formatted_text = format_interjection (sanitize_text (pending_text entry)),
                        formatted_attachments = pending_attachments entry\<rparr>) drained,
          buffer))"

section \<open>Conservation of events\<close>

datatype 'e queue_op =
    PushOp 'e
  | PushCappedOp 'e nat
  | DrainMatchingOp "'e \<Rightarrow> bool"
  | DrainAllOp
  | RestoreFrontOp "'e list"
  | ClearOp

fun queue_step :: "'e event_queue \<Rightarrow> 'e queue_op \<Rightarrow> 'e event_queue" where
  "queue_step q (PushOp e) = queue_push e q"
| "queue_step q (PushCappedOp e cap) = push_capped e cap q"
| "queue_step q (DrainMatchingOp f) = snd (drain_matching f q)"
| "queue_step q DrainAllOp = snd (drain_all q)"
| "queue_step q (RestoreFrontOp es) = restore_front es q"
| "queue_step q ClearOp = queue_clear q"

text \<open>What a step puts into the queue, and what leaves it: drained, discarded or dropped by the
  cap.\<close>

fun queue_in :: "'e event_queue \<Rightarrow> 'e queue_op \<Rightarrow> 'e list" where
  "queue_in q (PushOp e) = [e]"
| "queue_in q (PushCappedOp e cap) = [e]"
| "queue_in q (RestoreFrontOp es) = es"
| "queue_in q _ = []"

fun queue_out :: "'e event_queue \<Rightarrow> 'e queue_op \<Rightarrow> 'e list" where
  "queue_out q (PushCappedOp e cap) = take (length q + 1 - cap) (q @ [e])"
| "queue_out q (DrainMatchingOp f) = fst (drain_matching f q)"
| "queue_out q DrainAllOp = fst (drain_all q)"
| "queue_out q ClearOp = q"
| "queue_out q _ = []"

lemma push_capped_eq: "push_capped e cap q = drop (length q + 1 - cap) (q @ [e])"
  by (simp add: push_capped_def Let_def)

lemma queue_step_balance:
  "mset (queue_step q a) + mset (queue_out q a) = mset q + mset (queue_in q a)"
proof (cases a)
  case (PushCappedOp e cap)
  let ?n = "length q + 1 - cap"
  have "mset (drop ?n (q @ [e])) + mset (take ?n (q @ [e])) = mset (take ?n (q @ [e]) @ drop ?n (q @ [e]))"
    by (simp only: mset_append add.commute)
  then show ?thesis using PushCappedOp by (simp only: append_take_drop_id) (simp add: push_capped_eq)
qed (auto simp: queue_push_def drain_matching_def drain_all_def restore_front_def queue_clear_def)

interpretation queue: item_ledger queue_step "\<lambda>q. q" queue_in queue_out
  by unfold_locales (rule queue_step_balance)

lemma queue_step_length:
  "length (queue_step q (PushCappedOp e cap)) = min cap (length q + 1)"
  by (auto simp: push_capped_eq min_def)

text \<open>Over any sequence of pushes, capped pushes, drains, restores and clears on an empty
  queue, events are conserved: every event put in is, with multiplicity, either still queued or
  has left through a drain, a clear or the cap; and when everything has been taken out again,
  exactly what was put in has left.\<close>

theorem event_queue_conservation:
  "mset (queue.run_in queue_new as) = mset (queue.run_out queue_new as) + mset (queue.run queue_new as)"
  using queue.run_balance [of queue_new as] by (simp add: queue_new_def ac_simps)

text \<open>Draining is cancel-safe: when a reader drains the queue, handles the first \<open>k\<close> events,
  other events are pushed meanwhile, and the rest is restored, the queue holds the unhandled
  events in their order, followed by the later ones. A selective drain splits the queue into the
  matching events and the others, each in order, and a capped push leaves the newest events.\<close>

theorem drain_restore_cancel_safe:
  "restore_front (drop k (fst (drain_all q))) (foldl (\<lambda>q e. queue_push e q) (snd (drain_all q)) later)
     = drop k q @ later
   \<and> drain_matching f q = (filter f q, filter (\<lambda>e. \<not> f e) q)
   \<and> push_capped e cap q = rev (take cap (rev (q @ [e])))"
proof -
  have "foldl (\<lambda>q e. queue_push e q) q' later = q' @ later" for q' :: "'a list"
    by (induction later arbitrary: q') (simp_all add: queue_push_def)
  moreover have "push_capped e cap q = rev (take cap (rev (q @ [e])))"
    by (simp add: push_capped_eq rev_take del: rev_append)
  ultimately show ?thesis
    by (auto simp: restore_front_def drain_all_def drain_matching_def Let_def comp_def)
qed

section \<open>Truncation\<close>

text \<open>A string is well-formed when it is a sequence of characters: each a first byte and the
  continuation bytes its length asks for. Valid UTF-8 is.\<close>

function well_formed :: "string \<Rightarrow> bool" where
  "well_formed [] = True"
| "well_formed (c # cs) \<longleftrightarrow>
     \<not> is_continuation c \<and> char_len c - 1 \<le> length cs
     \<and> list_all is_continuation (take (char_len c - 1) cs) \<and> well_formed (drop (char_len c - 1) cs)"
  by pat_completeness auto
termination
  by (relation "measure length") auto

lemma char_len_bounds: "1 \<le> char_len c" "char_len c \<le> 4" "Suc 0 \<le> char_len c"
  by (simp_all add: char_len_def)

lemma char_indices_lengths: "(j, l) \<in> set (char_indices_from i s) \<Longrightarrow> i \<le> j \<and> 1 \<le> l \<and> l \<le> 4"
  by (induction i s rule: char_indices_from.induct) (auto simp: char_len_bounds)

lemma char_indices_end:
  "well_formed s \<Longrightarrow> (j, l) \<in> set (char_indices_from i s) \<Longrightarrow> is_char_boundary s (j + l - i) \<and> j + l - i \<le> length s"
proof (induction i s rule: char_indices_from.induct)
  case (2 i c cs)
  let ?n = "char_len c" and ?cs = "drop (char_len c - 1) cs"
  have n: "1 \<le> ?n" "?n - 1 \<le> length cs" using 2(2) by (simp_all add: char_len_bounds)
  have wf: "well_formed ?cs" using 2(2) by simp
  show ?case
  proof (cases "(j, l) = (i, ?n)")
    case True
    have "is_char_boundary (c # cs) ?n"
    proof (cases ?cs)
      case Nil
      then have "?n = Suc (length cs)" using n by simp
      then show ?thesis by (simp add: is_char_boundary_def)
    next
      case (Cons d ds)
      then have "cs ! (?n - 1) = d" by (metis drop_eq_Nil leI list.distinct(1) nth_via_drop)
      moreover have "\<not> is_continuation d" using wf Cons by simp
      ultimately show ?thesis using n Cons
        by (auto simp: is_char_boundary_def nth_Cons')
    qed
    then show ?thesis using True n by simp
  next
    case False
    then have mem: "(j, l) \<in> set (char_indices_from (i + ?n) ?cs)" using 2(3) by auto
    let ?k = "j + l - (i + ?n)"
    have IH: "is_char_boundary ?cs ?k" "?k \<le> length ?cs" using 2(1) [OF wf mem] by auto
    have ge: "i + ?n \<le> j" "1 \<le> l" using char_indices_lengths [OF mem] by auto
    then have k: "0 < ?k" and j: "j + l - i = ?n + ?k" by auto
    have "?cs ! ?k = (c # cs) ! (?n + ?k)" using n by (simp add: nth_Cons' add.commute)
    then have "is_char_boundary (c # cs) (?n + ?k)"
      using IH k n by (auto simp: is_char_boundary_def)
    then show ?thesis using IH n by (simp add: j)
  qed
qed simp

lemma truncation_end_spec:
  assumes "well_formed s" and "LARGE_PROMPT_THRESHOLD < length s"
  shows "is_char_boundary s (truncation_end s) \<and> truncation_end s \<le> length s
    \<and> truncation_end s < LARGE_PROMPT_THRESHOLD + 4"
proof -
  let ?st = "takeWhile (\<lambda>(i, _). i < LARGE_PROMPT_THRESHOLD) (char_indices_from 0 s)"
  have "?st \<noteq> []"
    using assms(2) by (cases s) (auto simp: LARGE_PROMPT_THRESHOLD_def)
  moreover obtain i l where il: "last ?st = (i, l)" by fastforce
  ultimately have "(i, l) \<in> set ?st" by (metis last_in_set)
  then have "i < LARGE_PROMPT_THRESHOLD" "(i, l) \<in> set (char_indices_from 0 s)"
    by (auto dest: set_takeWhileD)
  moreover have "truncation_end s = i + l" using \<open>?st \<noteq> []\<close> il by (simp add: truncation_end_def)
  ultimately show ?thesis
    using char_indices_end [OF assms(1), of i l 0] char_indices_lengths [of i l 0 s] by auto
qed

text \<open>Truncating an over-long steered message never cuts a character: the kept part ends at a
  character boundary within the text, at most three bytes past the threshold, so the message body
  never exceeds the threshold by more than the last character and the marker. A text within the
  threshold is framed unchanged.\<close>

theorem truncate_prompt_safe:
  assumes "well_formed s"
  shows "(length s \<le> LARGE_PROMPT_THRESHOLD \<longrightarrow> truncate_prompt s = s)
    \<and> (LARGE_PROMPT_THRESHOLD < length s \<longrightarrow>
        (\<exists>n. is_char_boundary s n \<and> n \<le> length s \<and> n \<le> LARGE_PROMPT_THRESHOLD + 3
           \<and> truncate_prompt s = take n s @ ''... [truncated]''))
    \<and> length (truncate_prompt s) \<le> LARGE_PROMPT_THRESHOLD + 18"
  using truncation_end_spec [OF assms] by (auto simp: truncate_prompt_def)

theorem truncate_prompt_safe_witness:
  "truncate_prompt [CHR 0xC3, CHR 0xA9] = [CHR 0xC3, CHR 0xA9]"
  using truncate_prompt_safe [of "[CHR 0xC3, CHR 0xA9]"]
  by (simp add: char_len_def is_continuation_def LARGE_PROMPT_THRESHOLD_def)

end
