(* ===== verification/Json.thy ===== *)
theory Json
  imports Prelude
begin

text \<open>
  JSON values as \<open>serde_json::Value\<close> has them, an object being an association list with
  distinct keys, and the few encodings that \<open>serde\<close> derives for the records of this
  development: optional fields that are omitted when absent, fields with a default, required
  fields, and the value \<open>null\<close> read as an absent option.
\<close>

datatype json =
    JNull
  | JBool bool
  | JNumber int
  | JString string
  | JArray "json list"
  | JObject "(string \<times> json) list"

fun obj_get :: "json \<Rightarrow> string \<Rightarrow> json option" where
  "obj_get (JObject fields) k = map_of fields k"
| "obj_get _ k = None"

definition as_str :: "json \<Rightarrow> string option" where
  "as_str j = (case j of JString s \<Rightarrow> Some s | _ \<Rightarrow> None)"

definition as_bool :: "json \<Rightarrow> bool option" where
  "as_bool j = (case j of JBool b \<Rightarrow> Some b | _ \<Rightarrow> None)"

definition as_unsigned :: "json \<Rightarrow> u64 option" where
  "as_unsigned j = (case j of
       JNumber n \<Rightarrow> if 0 \<le> n \<and> n < 2 ^ 64 then Some (of_int n) else None
     | _ \<Rightarrow> None)"

fun those :: "'a option list \<Rightarrow> 'a list option" where
  "those [] = Some []"
| "those (None # xs) = None"
| "those (Some x # xs) = map_option ((#) x) (those xs)"

definition as_list :: "(json \<Rightarrow> 'a option) \<Rightarrow> json \<Rightarrow> 'a list option" where
  "as_list f j = (case j of JArray js \<Rightarrow> those (map f js) | _ \<Rightarrow> None)"

text \<open>Reading a field: the outer option is the failure of the whole decoding.\<close>

definition required :: "(json \<Rightarrow> 'a option) \<Rightarrow> json option \<Rightarrow> 'a option" where
  "required f v = (case v of None \<Rightarrow> None | Some j \<Rightarrow> f j)"

definition with_default :: "'a \<Rightarrow> (json \<Rightarrow> 'a option) \<Rightarrow> json option \<Rightarrow> 'a option" where
  "with_default d f v = (case v of None \<Rightarrow> Some d | Some j \<Rightarrow> f j)"

definition optional :: "(json \<Rightarrow> 'a option) \<Rightarrow> json option \<Rightarrow> 'a option option" where
  "optional f v = (case v of
       None \<Rightarrow> Some None
     | Some j \<Rightarrow> if j = JNull then Some None else map_option Some (f j))"

text \<open>Writing a field that is skipped when absent.\<close>

definition skip_none :: "string \<Rightarrow> ('a \<Rightarrow> json) \<Rightarrow> 'a option \<Rightarrow> (string \<times> json) list" where
  "skip_none k f v = (case v of None \<Rightarrow> [] | Some x \<Rightarrow> [(k, f x)])"

lemma as_str_JString [simp]: "as_str (JString s) = Some s"
  by (simp add: as_str_def)

lemma as_unsigned_uint [simp]: "as_unsigned (JNumber (uint w)) = Some w"
proof -
  have "uint w < 2 ^ LENGTH(64)" by (rule unsigned_less)
  then show ?thesis by (simp add: as_unsigned_def)
qed

lemma those_map_Some [simp]: "those (map Some xs) = Some xs"
  by (induction xs) auto

lemma as_list_JArray:
  "(\<And>x. x \<in> set xs \<Longrightarrow> f (g x) = Some x) \<Longrightarrow> as_list f (JArray (map g xs)) = Some xs"
  by (simp add: as_list_def comp_def cong: map_cong)

lemmas field_simps_json = required_def with_default_def optional_def skip_none_def

end
