(* ===== verification/Prompt_Queue.thy ===== *)
theory Prompt_Queue
  imports Json
begin

text \<open>
  The crate \<open>xai-prompt-queue\<close>: the rules that merge queued prompts (\<open>combine.rs\<close>) and the
  wire types of the shared queue with the JSON that \<open>serde\<close> derives for them (\<open>types.rs\<close>).
  Decoding is that of a JSON object; unknown fields are ignored.
\<close>

section \<open>Combining queued prompts\<close>

definition TEXT_SEPARATOR :: string where "TEXT_SEPARATOR = [NL, NL]"

definition COMBINED_DISPLAY_TEXTS_META :: string where
  "COMBINED_DISPLAY_TEXTS_META = ''combinedDisplayTexts''"

record combine_gate =
  gate_id :: string
  is_plain_prompt :: bool
  is_synthetic :: bool
  is_expanded_skill :: bool
  is_bash :: bool
  has_images :: bool
  gate_text :: string

definition can_merge_front :: "combine_gate \<Rightarrow> bool" where
  "can_merge_front g \<longleftrightarrow>
     is_plain_prompt g \<and> \<not> is_synthetic g \<and> \<not> is_expanded_skill g \<and> \<not> is_bash g \<and> gate_text g \<noteq> []"

definition can_merge_follower :: "combine_gate \<Rightarrow> string list \<Rightarrow> bool" where
  "can_merge_follower g skip_ids \<longleftrightarrow>
     can_merge_front g \<and> \<not> has_images g \<and> gate_id g \<notin> set skip_ids"

fun count_followers :: "nat \<Rightarrow> combine_gate list \<Rightarrow> string list \<Rightarrow> nat" where
  "count_followers n [] skip_ids = n"
| "count_followers n (g # gs) skip_ids =
     (if \<not> can_merge_follower g skip_ids then n else count_followers (n + 1) gs skip_ids)"

definition combine_prefix_len :: "combine_gate list \<Rightarrow> string list \<Rightarrow> nat" where
  "combine_prefix_len items skip_ids =
     (case items of
        [] \<Rightarrow> 0
      | front # rest \<Rightarrow>
          if \<not> can_merge_front front then 1 else count_followers 1 rest skip_ids)"

definition join_texts :: "string list \<Rightarrow> string" where
  "join_texts texts = join TEXT_SEPARATOR (filter (\<lambda>t. t \<noteq> []) texts)"

definition is_combined :: "string list \<Rightarrow> bool" where
  "is_combined segs \<longleftrightarrow> 2 \<le> length segs"

definition stamp_combined_display_texts :: "(string \<rightharpoonup> json) \<Rightarrow> string list \<Rightarrow> (string \<rightharpoonup> json)" where
  "stamp_combined_display_texts meta segs =
     (if \<not> is_combined segs then meta
      else meta(COMBINED_DISPLAY_TEXTS_META \<mapsto> JArray (map JString segs)))"

section \<open>Wire types\<close>

record queue_entry_meta =
  qm_id :: string
  qm_version :: u64
  qm_owner :: "string option"
  qm_last_editor :: "string option"
  qm_kind :: string
  qm_text :: string
  qm_combined_texts :: "string list option"

record queue_entry_wire =
  qw_id :: string
  qw_version :: u64
  qw_owner :: "string option"
  qw_last_editor :: "string option"
  qw_kind :: string
  qw_text :: string
  qw_combined_texts :: "string list option"
  qw_position :: u64

record queue_changed =
  qc_session_id :: string
  qc_entries :: "queue_entry_wire list"
  qc_running_prompt_id :: "string option"
  qc_running_text :: "string option"
  qc_running_kind :: "string option"
  qc_running_combined_texts :: "string list option"

definition JStrings :: "string list \<Rightarrow> json" where "JStrings xs = JArray (map JString xs)"

definition entry_to_json :: "queue_entry_wire \<Rightarrow> json" where
  "entry_to_json e = JObject (
       [(''id'', JString (qw_id e)), (''version'', JNumber (uint (qw_version e)))]
     @ skip_none ''owner'' JString (qw_owner e)
     @ skip_none ''lastEditor'' JString (qw_last_editor e)
     @ [(''kind'', JString (qw_kind e)), (''text'', JString (qw_text e))]
     @ skip_none ''combinedTexts'' JStrings (qw_combined_texts e)
     @ [(''position'', JNumber (uint (qw_position e)))])"

definition entry_from_json :: "json \<Rightarrow> queue_entry_wire option" where
  "entry_from_json j =
     (case (required as_str (obj_get j ''id''),
            with_default 0 as_unsigned (obj_get j ''version''),
            optional as_str (obj_get j ''owner''),
            optional as_str (obj_get j ''lastEditor''),
            with_default [] as_str (obj_get j ''kind''),
            with_default [] as_str (obj_get j ''text''),
            optional (as_list as_str) (obj_get j ''combinedTexts''),
            with_default 0 as_unsigned (obj_get j ''position'')) of
        (Some i, Some v, Some ow, Some ed, Some k, Some t, Some ct, Some p) \<Rightarrow>
          Some \<lparr>qw_id = i, qw_version = v, qw_owner = ow, qw_last_editor = ed, qw_kind = k,
                qw_text = t, qw_combined_texts = ct, qw_position = p\<rparr>
      | _ \<Rightarrow> None)"

definition changed_to_json :: "queue_changed \<Rightarrow> json" where
  "changed_to_json q = JObject (
       [(''sessionId'', JString (qc_session_id q)),
        (''entries'', JArray (map entry_to_json (qc_entries q)))]
     @ skip_none ''runningPromptId'' JString (qc_running_prompt_id q)
     @ skip_none ''runningText'' JString (qc_running_text q)
     @ skip_none ''runningKind'' JString (qc_running_kind q)
     @ skip_none ''runningCombinedTexts'' JStrings (qc_running_combined_texts q))"

definition changed_from_json :: "json \<Rightarrow> queue_changed option" where
  "changed_from_json j =
     (case (required as_str (obj_get j ''sessionId''),
            with_default [] (as_list entry_from_json) (obj_get j ''entries''),
            optional as_str (obj_get j ''runningPromptId''),
            optional as_str (obj_get j ''runningText''),
            optional as_str (obj_get j ''runningKind''),
            optional (as_list as_str) (obj_get j ''runningCombinedTexts'')) of
        (Some s, Some es, Some rp, Some rt, Some rk, Some rc) \<Rightarrow>
          Some \<lparr>qc_session_id = s, qc_entries = es, qc_running_prompt_id = rp, qc_running_text = rt,
                qc_running_kind = rk, qc_running_combined_texts = rc\<rparr>
      | _ \<Rightarrow> None)"

section \<open>Properties\<close>

lemma count_followers_eq:
  "count_followers n gs skip = n + length (takeWhile (\<lambda>g. can_merge_follower g skip) gs)"
  by (induction n gs skip rule: count_followers.induct) auto

text \<open>The number of rows taken from the queue is the longest mergeable prefix: it is 0 only
  for an empty queue, never more than the queue, 1 when the front does not merge; every row after
  the front in it may follow (plain, without images, not under edit), and the row just after it
  may not when the front merges.\<close>

theorem combine_prefix_maximal:
  assumes "items \<noteq> []" and "n = combine_prefix_len items skip_ids"
  shows "1 \<le> n \<and> n \<le> length items
    \<and> (2 \<le> n \<longrightarrow> can_merge_front (items ! 0))
    \<and> (\<forall>i. 1 \<le> i \<and> i < n \<longrightarrow> can_merge_follower (items ! i) skip_ids)
    \<and> (can_merge_front (items ! 0) \<and> n < length items \<longrightarrow> \<not> can_merge_follower (items ! n) skip_ids)"
proof -
  obtain front rest where items: "items = front # rest" using assms(1) by (cases items) auto
  let ?P = "\<lambda>g. can_merge_follower g skip_ids"
  show ?thesis
  proof (cases "can_merge_front front")
    case True
    then have n: "n = 1 + length (takeWhile ?P rest)"
      using assms(2) items by (simp add: combine_prefix_len_def count_followers_eq)
    have "?P (items ! i)" if "1 \<le> i" "i < n" for i
    proof -
      have "i - 1 < length (takeWhile ?P rest)" using that n by simp
      then have "?P (takeWhile ?P rest ! (i - 1))" by (metis nth_mem set_takeWhileD)
      then show ?thesis using that n items by (simp add: takeWhile_nth nth_Cons')
    qed
    moreover have "n \<le> length items" using n items length_takeWhile_le [of ?P rest] by simp
    moreover have "\<not> ?P (items ! n)" if "n < length items"
      using that n items nth_length_takeWhile [of ?P rest] by simp
    ultimately show ?thesis using True items n by auto
  qed (use assms(2) items in \<open>auto simp: combine_prefix_len_def\<close>)
qed

theorem combine_prefix_maximal_witness:
  "let g = \<lparr>gate_id = ''a'', is_plain_prompt = True, is_synthetic = False, is_expanded_skill = False,
            is_bash = False, has_images = False, gate_text = ''x''\<rparr>
   in \<not> can_merge_follower ([g, g\<lparr>gate_id := ''b''\<rparr>, g\<lparr>is_bash := True\<rparr>] ! 2) [''c'']"
  using combine_prefix_maximal [OF _ refl, of "[\<lparr>gate_id = ''a'', is_plain_prompt = True, is_synthetic = False, is_expanded_skill = False,
            is_bash = False, has_images = False, gate_text = ''x''\<rparr>,
         \<lparr>gate_id = ''b'', is_plain_prompt = True, is_synthetic = False, is_expanded_skill = False,
            is_bash = False, has_images = False, gate_text = ''x''\<rparr>,
         \<lparr>gate_id = ''a'', is_plain_prompt = True, is_synthetic = False, is_expanded_skill = False,
            is_bash = True, has_images = False, gate_text = ''x''\<rparr>]" "[''c'']"]
  by (simp add: combine_prefix_len_def can_merge_front_def can_merge_follower_def)

lemma JStrings_not_null [simp]: "JStrings xs \<noteq> JNull"
  by (simp add: JStrings_def)

lemma as_list_JStrings [simp]: "as_list as_str (JStrings xs) = Some xs"
  by (simp add: JStrings_def as_list_JArray)

lemma entry_round_trip: "entry_from_json (entry_to_json e) = Some e"
  by (cases "qw_owner e"; cases "qw_last_editor e"; cases "qw_combined_texts e")
    (simp_all add: entry_from_json_def entry_to_json_def field_simps_json)

text \<open>The queue broadcast survives the wire: decoding the JSON of any \<open>QueueChanged\<close> gives
  back the same value, with every row, every absent option and every 64-bit version intact; and a
  payload without a session id is refused.\<close>

theorem queue_changed_round_trip:
  "changed_from_json (changed_to_json q) = Some q
   \<and> \<not> (obj_get j ''sessionId'' = None \<and> changed_from_json j \<noteq> None)"
proof
  have es: "as_list entry_from_json (JArray (map entry_to_json (qc_entries q))) = Some (qc_entries q)"
    by (simp add: as_list_JArray entry_round_trip)
  show "changed_from_json (changed_to_json q) = Some q"
    by (cases "qc_running_prompt_id q"; cases "qc_running_text q"; cases "qc_running_kind q";
        cases "qc_running_combined_texts q")
      (simp_all add: changed_from_json_def changed_to_json_def field_simps_json es)
qed (cases "obj_get j ''sessionId''", simp_all add: changed_from_json_def required_def)

lemma join_texts_separated:
  "t \<noteq> [] \<Longrightarrow> u \<noteq> [] \<Longrightarrow> join_texts [t, u] = t @ [NL, NL] @ u"
  by (simp add: join_texts_def TEXT_SEPARATOR_def)

end
