(* ===== verification/Token_Estimation.thy ===== *)
theory Token_Estimation
  imports Prelude
begin

text \<open>
  The crate \<open>xai-token-estimation\<close>: the bytes-per-token heuristic and the integer arithmetic
  of the context-window gates, on 64-bit words with the saturation of the source. The two
  floating-point percentages are left out.
\<close>

definition BYTES_PER_TOKEN :: u64 where "BYTES_PER_TOKEN = 4"

definition IMAGE_TOKEN_ESTIMATE :: u64 where "IMAGE_TOKEN_ESTIMATE = 765"

definition estimate_tokens :: "string \<Rightarrow> u64" where
  "estimate_tokens s = of_nat (length s) div BYTES_PER_TOKEN"

definition estimate_chars :: "u64 \<Rightarrow> u64" where
  "estimate_chars tokens = saturating_mul tokens BYTES_PER_TOKEN"

definition estimate_image_tokens :: "u64 \<Rightarrow> u64" where
  "estimate_image_tokens image_count = saturating_mul image_count IMAGE_TOKEN_ESTIMATE"

definition checked_div :: "u64 \<Rightarrow> u64 \<Rightarrow> u64 option" where
  "checked_div a b = (if b = 0 then None else Some (a div b))"

definition usage_percentage_truncated_u8 :: "u64 \<Rightarrow> u64 \<Rightarrow> u8" where
  "usage_percentage_truncated_u8 used total_tokens =
     (case checked_div (saturating_mul used 100) total_tokens of
        None \<Rightarrow> 0
      | Some pct \<Rightarrow> ucast (min pct 100))"

definition free_tokens :: "u64 \<Rightarrow> u64 \<Rightarrow> u64" where
  "free_tokens total_tokens used = saturating_sub total_tokens used"

definition exceeds_threshold :: "u64 \<Rightarrow> u64 \<Rightarrow> u8 \<Rightarrow> bool" where
  "exceeds_threshold used context_window threshold_percent \<longleftrightarrow>
     (if context_window = 0 then False
      else saturating_mul context_window (ucast threshold_percent) \<le> saturating_mul used 100)"

definition exceeds_threshold_with_headroom :: "u64 \<Rightarrow> u64 \<Rightarrow> u8 \<Rightarrow> u64 \<Rightarrow> bool" where
  "exceeds_threshold_with_headroom used context_window threshold_percent headroom \<longleftrightarrow>
     (if context_window = 0 then False
      else saturating_sub (saturating_mul context_window (ucast threshold_percent))
             (saturating_mul headroom 100)
           \<le> saturating_mul used 100)"

text \<open>Below \<open>2 ^ 56\<close> tokens nothing saturates.\<close>

lemma unat_u8_ucast: "unat (ucast (p :: u8) :: u64) = unat p"
proof -
  have "unat p < 2 ^ LENGTH(8)" by (rule unsigned_less)
  then have "unat p < 2 ^ 64" by simp
  then show ?thesis by (simp add: unsigned_ucast_eq take_bit_nat_eq_self)
qed

lemma scaled_exact:
  fixes a :: u64 and p :: u8
  assumes "unat a < 2 ^ 56"
  shows "unat (saturating_mul a (ucast p)) = unat a * unat p" and "unat (saturating_mul a 100) = unat a * 100"
proof -
  have "unat p < 2 ^ LENGTH(8)" by (rule unsigned_less)
  then have "unat a * unat p < 2 ^ 56 * 2 ^ LENGTH(8)" using assms by (intro mult_strict_mono) simp_all
  then show "unat (saturating_mul a (ucast p)) = unat a * unat p"
    by (simp add: unat_saturating_mul unat_u8_ucast)
  show "unat (saturating_mul a 100) = unat a * 100"
    using assms by (simp add: unat_saturating_mul)
qed

lemma unat_min_word: "unat (min a (b :: 'a::len word)) = min (unat a) (unat b)"
  by (auto simp: min_def word_le_nat_alt)

lemma usage_percentage_exact:
  assumes "unat used < 2 ^ 56"
  shows "unat (usage_percentage_truncated_u8 used w) =
     (if w = 0 then 0 else min (unat used * 100 div unat w) 100)"
proof -
  let ?m = "min (saturating_mul used 100 div w) 100"
  have m: "unat ?m = min (unat used * 100 div unat w) 100"
    by (simp add: unat_min_word unat_div scaled_exact(2) [OF assms])
  then have "unat (ucast ?m :: u8) = unat ?m"
    by (simp add: unsigned_ucast_eq take_bit_nat_eq_self)
  then show ?thesis using m by (simp add: usage_percentage_truncated_u8_def checked_div_def)
qed

text \<open>For all token counts below \<open>2 ^ 56\<close> the saturating arithmetic of the context-window
  gates is exact: the gate with headroom fires exactly when the window is non-empty and
  \<open>used * 100 \<ge> window * percent - headroom * 100\<close> over the integers, the plain gate is the one
  with headroom 0, and the truncated percentage is \<open>used * 100 div window\<close> capped at 100, or 0
  for an empty window.\<close>

theorem compact_gates_exact:
  assumes "unat used < 2 ^ 56" and "unat window < 2 ^ 56" and "unat headroom < 2 ^ 56"
  shows "(exceeds_threshold_with_headroom used window p headroom \<longleftrightarrow>
           window \<noteq> 0 \<and> int (unat window) * int (unat p) - int (unat headroom) * 100 \<le> int (unat used) * 100)
    \<and> exceeds_threshold used window p = exceeds_threshold_with_headroom used window p 0
    \<and> unat (usage_percentage_truncated_u8 used window) =
        (if window = 0 then 0 else min (unat used * 100 div unat window) 100)"
proof -
  have u: "unat (saturating_mul used 100) = unat used * 100"
    "unat (saturating_mul window (ucast p)) = unat window * unat p"
    "unat (saturating_mul headroom 100) = unat headroom * 100"
    using assms by (simp_all add: scaled_exact)
  have "exceeds_threshold_with_headroom used window p headroom \<longleftrightarrow>
      window \<noteq> 0 \<and> unat window * unat p - unat headroom * 100 \<le> unat used * 100"
    by (simp add: exceeds_threshold_with_headroom_def word_le_nat_alt unat_saturating_sub u)
  moreover have "unat window * unat p - unat headroom * 100 \<le> unat used * 100 \<longleftrightarrow>
      int (unat window * unat p) - int (unat headroom) * 100 \<le> int (unat used) * 100"
    by linarith
  moreover have "exceeds_threshold used window p = exceeds_threshold_with_headroom used window p 0"
    by (simp add: exceeds_threshold_with_headroom_def exceeds_threshold_def saturating_mul_def saturating_sub_def)
  ultimately show ?thesis using usage_percentage_exact [OF assms(1)] by simp
qed

theorem compact_gates_exact_witness:
  "exceeds_threshold_with_headroom 160000 200000 85 10000 \<and> \<not> exceeds_threshold_with_headroom 160000 200000 85 0
   \<and> unat (usage_percentage_truncated_u8 160000 200000) = 80"
  using compact_gates_exact [of 160000 200000 10000 85] compact_gates_exact [of 160000 200000 0 85] by simp

text \<open>The estimate of a character budget covers any text that fits it.\<close>

lemma estimate_tokens_chars:
  assumes "unat (estimate_tokens s) < unat t" and "length s < 2 ^ 64" and "unat t < 2 ^ 62"
  shows "length s < unat (estimate_chars t)"
proof -
  have "unat (estimate_tokens s) = length s div 4"
    using assms(2) by (simp add: estimate_tokens_def BYTES_PER_TOKEN_def unat_div unat_of_nat)
  moreover have "unat (estimate_chars t) = unat t * 4"
    using assms(3) by (simp add: estimate_chars_def BYTES_PER_TOKEN_def unat_saturating_mul)
  ultimately show ?thesis using assms(1) by simp
qed

end
