(* ===== verification/Patch_Parser.thy ===== *)
theory Patch_Parser
  imports Prelude
begin

text \<open>
  \<open>parser.rs\<close> and \<open>errors.rs\<close> of the \<open>apply_patch\<close> tool: the parser of the patch format with its
  \<open>*** Add File\<close>, \<open>*** Delete File\<close> and \<open>*** Update File\<close> sections, every error branch
  included. A loop of the source is a recursive function over the remaining lines; the numbers
  of consumed lines are returned as in the source, and that each step consumes at least one line
  is what makes the loops end. A printer of hunks gives the round trip.
\<close>

section \<open>Data\<close>

datatype parse_error =
    InvalidPatchError string
  | InvalidHunkError string nat

definition BEGIN_PATCH_MARKER :: string where "BEGIN_PATCH_MARKER = ''*** Begin Patch''"
definition END_PATCH_MARKER :: string where "END_PATCH_MARKER = ''*** End Patch''"
definition ADD_FILE_MARKER :: string where "ADD_FILE_MARKER = ''*** Add File: ''"
definition DELETE_FILE_MARKER :: string where "DELETE_FILE_MARKER = ''*** Delete File: ''"
definition UPDATE_FILE_MARKER :: string where "UPDATE_FILE_MARKER = ''*** Update File: ''"
definition MOVE_TO_MARKER :: string where "MOVE_TO_MARKER = ''*** Move to: ''"
definition EOF_MARKER :: string where "EOF_MARKER = ''*** End of File''"
definition CHANGE_CONTEXT_MARKER :: string where "CHANGE_CONTEXT_MARKER = ''@@ ''"
definition EMPTY_CHANGE_CONTEXT_MARKER :: string where "EMPTY_CHANGE_CONTEXT_MARKER = ''@@''"

lemmas marker_defs = BEGIN_PATCH_MARKER_def END_PATCH_MARKER_def ADD_FILE_MARKER_def
  DELETE_FILE_MARKER_def UPDATE_FILE_MARKER_def MOVE_TO_MARKER_def EOF_MARKER_def
  CHANGE_CONTEXT_MARKER_def EMPTY_CHANGE_CONTEXT_MARKER_def

record update_file_chunk =
  change_context :: "string option"
  old_lines :: "string list"
  new_lines :: "string list"
  is_end_of_file :: bool

datatype hunk =
    AddFile (hunk_path: string) (contents: string)
  | DeleteFile (hunk_path: string)
  | UpdateFile (hunk_path: string) (move_path: "string option") (chunks: "update_file_chunk list")

record parsed_patch =
  hunks :: "hunk list"
  patch :: string

datatype parse_mode = Strict | Lenient

section \<open>Chunks\<close>

definition quoted :: "string \<Rightarrow> string" where
  "quoted s = [CHR 0x27] @ s @ [CHR 0x27]"

fun parse_chunk_lines ::
  "nat \<Rightarrow> nat \<Rightarrow> update_file_chunk \<Rightarrow> string list \<Rightarrow> parse_error + (update_file_chunk \<times> nat)" where
  "parse_chunk_lines line_number parsed_lines chunk [] = Inr (chunk, parsed_lines)"
| "parse_chunk_lines line_number parsed_lines chunk (line # rest) =
     (if line = EOF_MARKER then
        (if parsed_lines = 0
         then Inl (InvalidHunkError ''Update hunk does not contain any lines'' (line_number + 1))
         else Inr (chunk\<lparr>is_end_of_file := True\<rparr>, parsed_lines + 1))
      else
        (case line of
           [] \<Rightarrow>
             parse_chunk_lines line_number (parsed_lines + 1)
               (chunk\<lparr>old_lines := old_lines chunk @ [[]], new_lines := new_lines chunk @ [[]]\<rparr>) rest
         | c # cs \<Rightarrow>
             if c = CHR '' '' then
               parse_chunk_lines line_number (parsed_lines + 1)
                 (chunk\<lparr>old_lines := old_lines chunk @ [cs], new_lines := new_lines chunk @ [cs]\<rparr>) rest
             else if c = CHR ''+'' then
               parse_chunk_lines line_number (parsed_lines + 1)
                 (chunk\<lparr>new_lines := new_lines chunk @ [cs]\<rparr>) rest
             else if c = CHR ''-'' then
               parse_chunk_lines line_number (parsed_lines + 1)
                 (chunk\<lparr>old_lines := old_lines chunk @ [cs]\<rparr>) rest
             else if parsed_lines = 0 then
               Inl (InvalidHunkError
                 (''Unexpected line found in update hunk: '' @ quoted line
                  @ ''. Every line should start with '' @ quoted '' '' @ '' (context line), ''
                  @ quoted ''+'' @ '' (added line), or '' @ quoted ''-'' @ '' (removed line)'')
                 (line_number + 1))
             else Inr (chunk, parsed_lines)))"

definition parse_update_file_chunk ::
  "string list \<Rightarrow> nat \<Rightarrow> bool \<Rightarrow> parse_error + (update_file_chunk \<times> nat)" where
  "parse_update_file_chunk ls line_number allow_missing_context =
     (case ls of
        [] \<Rightarrow> Inl (InvalidHunkError ''Update hunk does not contain any lines'' line_number)
      | first # _ \<Rightarrow>
          (case
             (if first = EMPTY_CHANGE_CONTEXT_MARKER then Inr (None, 1)
              else case strip_prefix CHANGE_CONTEXT_MARKER first of
                  Some ctxt \<Rightarrow> Inr (Some ctxt, 1)
                | None \<Rightarrow>
                    if \<not> allow_missing_context then
                      Inl (InvalidHunkError
                        (''Expected update hunk to start with a @@ context marker, got: '' @ quoted first)
                        line_number)
                    else Inr (None, 0)) of
             Inl e \<Rightarrow> Inl e
           | Inr (ctxt, start_index) \<Rightarrow>
               if length ls \<le> start_index then
                 Inl (InvalidHunkError ''Update hunk does not contain any lines'' (line_number + 1))
               else
                 (case parse_chunk_lines line_number 0
                         \<lparr>change_context = ctxt, old_lines = [], new_lines = [], is_end_of_file = False\<rparr>
                         (drop start_index ls) of
                    Inl e \<Rightarrow> Inl e
                  | Inr (chunk, parsed_lines) \<Rightarrow> Inr (chunk, parsed_lines + start_index))))"

lemma parse_chunk_lines_consumes:
  "parse_chunk_lines n p c ls = Inr (c', k) \<Longrightarrow>
     p \<le> k \<and> k \<le> p + length ls \<and> (p = 0 \<and> ls \<noteq> [] \<longrightarrow> 1 \<le> k)"
  by (induction n p c ls rule: parse_chunk_lines.induct) (fastforce split: if_splits list.splits)+

lemma parse_update_file_chunk_consumes:
  assumes "parse_update_file_chunk ls n allow = Inr (c, k)"
  shows "1 \<le> k \<and> k \<le> length ls"
  using assms
  by (auto simp: parse_update_file_chunk_def split: list.splits if_splits option.splits sum.splits
      dest!: parse_chunk_lines_consumes)

section \<open>Hunks\<close>

fun parse_add_lines :: "string \<Rightarrow> nat \<Rightarrow> string list \<Rightarrow> string \<times> nat" where
  "parse_add_lines cont parsed_lines [] = (cont, parsed_lines)"
| "parse_add_lines cont parsed_lines (l # ls) =
     (case strip_prefix ''+'' l of
        Some line_to_add \<Rightarrow> parse_add_lines (cont @ line_to_add @ [NL]) (parsed_lines + 1) ls
      | None \<Rightarrow> (cont, parsed_lines))"

text \<open>The loop over the chunks of an update section. The guard is never false
  (\<open>parse_update_file_chunk_consumes\<close>); it makes the recursion total.\<close>

function parse_chunks ::
  "nat \<Rightarrow> nat \<Rightarrow> update_file_chunk list \<Rightarrow> string list \<Rightarrow> parse_error + (update_file_chunk list \<times> nat)" where
  "parse_chunks line_number parsed_lines cs [] = Inr (cs, parsed_lines)"
| "parse_chunks line_number parsed_lines cs (l # ls) =
     (if trim l = [] then parse_chunks line_number (parsed_lines + 1) cs ls
      else if starts_with l ''***'' then Inr (cs, parsed_lines)
      else
        (case parse_update_file_chunk (l # ls) (line_number + parsed_lines) (cs = []) of
           Inl e \<Rightarrow> Inl e
         | Inr (chunk, chunk_lines) \<Rightarrow>
             parse_chunks line_number (parsed_lines + chunk_lines) (cs @ [chunk]) (drop chunk_lines (l # ls))))"
  by pat_completeness auto
termination
proof (relation "measure (\<lambda>(n, p, cs, ls). length ls)")
  fix n p l ls x chunk k and cs :: "update_file_chunk list"
  assume "parse_update_file_chunk (l # ls) (n + p) (cs = []) = Inr x" and "(chunk, k) = x"
  then have "1 \<le> k" using parse_update_file_chunk_consumes by fastforce
  then show "((n, p + k, cs @ [chunk], drop k (l # ls)), n, p, cs, l # ls)
      \<in> measure (\<lambda>(n, p, cs, ls). length ls)" by simp
qed auto

text \<open>\<open>parse_one_hunk\<close> is only called on a non-empty slice: its first line and the rest are two
  arguments here.\<close>

definition parse_one_hunk :: "string \<Rightarrow> string list \<Rightarrow> nat \<Rightarrow> parse_error + (hunk \<times> nat)" where
  "parse_one_hunk raw_line rest line_number =
     (let first_line = trim raw_line
      in case strip_prefix ADD_FILE_MARKER first_line of
           Some path \<Rightarrow>
             (let (cont, parsed_lines) = parse_add_lines [] 1 rest in Inr (AddFile path cont, parsed_lines))
         | None \<Rightarrow>
       (case strip_prefix DELETE_FILE_MARKER first_line of
           Some path \<Rightarrow> Inr (DeleteFile path, 1)
         | None \<Rightarrow>
       (case strip_prefix UPDATE_FILE_MARKER first_line of
           Some path \<Rightarrow>
             (let mv = (case rest of [] \<Rightarrow> None | x # _ \<Rightarrow> strip_prefix MOVE_TO_MARKER x);
                  (remaining, parsed_lines) = (if mv \<noteq> None then (tl rest, 2) else (rest, 1))
              in case parse_chunks line_number parsed_lines [] remaining of
                   Inl e \<Rightarrow> Inl e
                 | Inr (cs, parsed_lines) \<Rightarrow>
                     if cs = [] then
                       Inl (InvalidHunkError (''Update file hunk for path '' @ quoted path @ '' is empty'') line_number)
                     else Inr (UpdateFile path mv cs, parsed_lines))
         | None \<Rightarrow>
             Inl (InvalidHunkError
               (quoted first_line @ '' is not a valid hunk header. Valid hunk headers: ''
                @ quoted ''*** Add File: {path}'' @ '', '' @ quoted ''*** Delete File: {path}'' @ '', ''
                @ quoted ''*** Update File: {path}'')
               line_number))))"

lemma parse_add_lines_consumes:
  "parse_add_lines cont p ls = (cont', k) \<Longrightarrow> p \<le> k \<and> k \<le> p + length ls"
  by (induction cont p ls rule: parse_add_lines.induct) (fastforce split: option.splits)+

lemma parse_chunks_consumes:
  "parse_chunks n p cs ls = Inr (cs', k) \<Longrightarrow> p \<le> k \<and> k \<le> p + length ls"
proof (induction n p cs ls rule: parse_chunks.induct)
  case (2 n p cs l ls)
  show ?case
  proof (cases "trim l = [] \<or> starts_with l ''***''")
    case True
    then show ?thesis using 2 by (auto split: if_splits)
  next
    case False
    then obtain chunk m where m: "parse_update_file_chunk (l # ls) (n + p) (cs = []) = Inr (chunk, m)"
      using 2(3) by (auto split: sum.splits prod.splits)
    then have "1 \<le> m" "m \<le> length (l # ls)" using parse_update_file_chunk_consumes by blast+
    moreover have "p + m \<le> k \<and> k \<le> p + m + length (drop m (l # ls))"
      using 2(2) False m 2(3) by auto
    ultimately show ?thesis by simp
  qed
qed auto

lemma parse_one_hunk_consumes:
  assumes "parse_one_hunk l ls n = Inr (h, k)"
  shows "1 \<le> k \<and> k \<le> Suc (length ls)"
  using assms
  by (cases ls)
    (auto simp: parse_one_hunk_def Let_def split: option.splits prod.splits sum.splits if_splits
      dest!: parse_add_lines_consumes parse_chunks_consumes)

function parse_hunks :: "hunk list \<Rightarrow> nat \<Rightarrow> string list \<Rightarrow> parse_error + hunk list" where
  "parse_hunks hs line_number [] = Inr hs"
| "parse_hunks hs line_number (l # ls) =
     (case parse_one_hunk l ls line_number of
        Inl e \<Rightarrow> Inl e
      | Inr (h, hunk_lines) \<Rightarrow>
          parse_hunks (hs @ [h]) (line_number + hunk_lines) (drop hunk_lines (l # ls)))"
  by pat_completeness auto
termination
proof (relation "measure (\<lambda>(hs, n, ls). length ls)")
  fix n l ls x h k and hs :: "hunk list"
  assume "parse_one_hunk l ls n = Inr x" and "(h, k) = x"
  then have "1 \<le> k" using parse_one_hunk_consumes by fastforce
  then show "((hs @ [h], n + k, drop k (l # ls)), hs, n, l # ls) \<in> measure (\<lambda>(hs, n, ls). length ls)"
    by simp
qed auto

section \<open>Patches\<close>

definition check_start_and_end_lines_strict ::
  "string option \<Rightarrow> string option \<Rightarrow> parse_error + unit" where
  "check_start_and_end_lines_strict first_line last_line =
     (case (map_option trim first_line, map_option trim last_line) of
        (Some f, Some l) \<Rightarrow>
          if f = BEGIN_PATCH_MARKER \<and> l = END_PATCH_MARKER then Inr ()
          else if f \<noteq> BEGIN_PATCH_MARKER then
            Inl (InvalidPatchError (''The first line of the patch must be '' @ quoted ''*** Begin Patch''))
          else Inl (InvalidPatchError (''The last line of the patch must be '' @ quoted ''*** End Patch''))
      | (Some f, None) \<Rightarrow>
          if f \<noteq> BEGIN_PATCH_MARKER then
            Inl (InvalidPatchError (''The first line of the patch must be '' @ quoted ''*** Begin Patch''))
          else Inl (InvalidPatchError (''The last line of the patch must be '' @ quoted ''*** End Patch''))
      | (None, _) \<Rightarrow>
          Inl (InvalidPatchError (''The last line of the patch must be '' @ quoted ''*** End Patch'')))"

definition check_patch_boundaries_strict :: "string list \<Rightarrow> parse_error + unit" where
  "check_patch_boundaries_strict ls =
     (case ls of
        [] \<Rightarrow> check_start_and_end_lines_strict None None
      | first # _ \<Rightarrow> check_start_and_end_lines_strict (Some first) (Some (last ls)))"

definition check_patch_boundaries_lenient ::
  "string list \<Rightarrow> parse_error \<Rightarrow> parse_error + string list" where
  "check_patch_boundaries_lenient original_lines original_parse_error =
     (case original_lines of
        first # second # _ \<Rightarrow>
          if (first = ''<<EOF'' \<or> first = ''<<'' @ quoted ''EOF'' \<or> first = ''<<\"EOF\"'')
             \<and> ends_with (last original_lines) ''EOF'' \<and> 4 \<le> length original_lines
          then
            (let inner_lines = butlast (tl original_lines)
             in case check_patch_boundaries_strict inner_lines of
                  Inr _ \<Rightarrow> Inr inner_lines
                | Inl e \<Rightarrow> Inl e)
          else Inl original_parse_error
      | _ \<Rightarrow> Inl original_parse_error)"

definition parse_patch_text :: "string \<Rightarrow> parse_mode \<Rightarrow> parse_error + parsed_patch" where
  "parse_patch_text txt mode =
     (let ls = lines (trim txt)
      in case
           (case check_patch_boundaries_strict ls of
              Inr _ \<Rightarrow> Inr ls
            | Inl e \<Rightarrow> (case mode of Strict \<Rightarrow> Inl e | Lenient \<Rightarrow> check_patch_boundaries_lenient ls e)) of
           Inl e \<Rightarrow> Inl e
         | Inr ls \<Rightarrow>
             (case parse_hunks [] 2 (butlast (tl ls)) of
                Inl e \<Rightarrow> Inl e
              | Inr hs \<Rightarrow> Inr \<lparr>hunks = hs, patch = join [NL] ls\<rparr>))"

definition PARSE_IN_STRICT_MODE :: bool where "PARSE_IN_STRICT_MODE = False"

definition parse_patch :: "string \<Rightarrow> parse_error + parsed_patch" where
  "parse_patch txt = parse_patch_text txt (if PARSE_IN_STRICT_MODE then Strict else Lenient)"

section \<open>Round trip\<close>

text \<open>A printer in the format the parser reads: removed lines before added ones, an explicit
  context marker for every chunk.\<close>

definition context_line :: "string option \<Rightarrow> string" where
  "context_line ctxt = (case ctxt of None \<Rightarrow> EMPTY_CHANGE_CONTEXT_MARKER | Some c \<Rightarrow> CHANGE_CONTEXT_MARKER @ c)"

definition print_chunk :: "update_file_chunk \<Rightarrow> string list" where
  "print_chunk ch = context_line (change_context ch)
     # map ((#) (CHR ''-'')) (old_lines ch) @ map ((#) (CHR ''+'')) (new_lines ch)
     @ (if is_end_of_file ch then [EOF_MARKER] else [])"

fun print_hunk :: "hunk \<Rightarrow> string list" where
  "print_hunk (AddFile p c) = (ADD_FILE_MARKER @ p) # map ((#) (CHR ''+'')) (lines c)"
| "print_hunk (DeleteFile p) = [DELETE_FILE_MARKER @ p]"
| "print_hunk (UpdateFile p mv cs) = (UPDATE_FILE_MARKER @ p)
     # (case mv of None \<Rightarrow> [] | Some d \<Rightarrow> [MOVE_TO_MARKER @ d]) @ concat (map print_chunk cs)"

definition print_patch :: "hunk list \<Rightarrow> string" where
  "print_patch hs = join [NL] (BEGIN_PATCH_MARKER # concat (map print_hunk hs) @ [END_PATCH_MARKER])"

text \<open>What can be printed: lines without line breaks, paths that do not end in white space,
  contents made of complete lines, no empty chunk or update.\<close>

definition good_path :: "string \<Rightarrow> bool" where
  "good_path p \<longleftrightarrow> p \<noteq> [] \<and> is_ascii_graphic (last p) \<and> clean_line p"

definition good_chunk :: "update_file_chunk \<Rightarrow> bool" where
  "good_chunk ch \<longleftrightarrow> old_lines ch @ new_lines ch \<noteq> []
     \<and> list_all clean_line (old_lines ch @ new_lines ch)
     \<and> (case change_context ch of None \<Rightarrow> True | Some c \<Rightarrow> clean_line c)"

fun good_hunk :: "hunk \<Rightarrow> bool" where
  "good_hunk (AddFile p c) \<longleftrightarrow> good_path p \<and> list_all clean_line (lines c)
     \<and> c = concat (map (\<lambda>l. l @ [NL]) (lines c))"
| "good_hunk (DeleteFile p) \<longleftrightarrow> good_path p"
| "good_hunk (UpdateFile p mv cs) \<longleftrightarrow> good_path p \<and> cs \<noteq> [] \<and> list_all good_chunk cs
     \<and> (case mv of None \<Rightarrow> True | Some d \<Rightarrow> clean_line d)"

definition stops :: "string list \<Rightarrow> bool" where
  "stops rest \<longleftrightarrow> (case rest of [] \<Rightarrow> True
     | l # _ \<Rightarrow> l \<noteq> EOF_MARKER \<and> l \<noteq> [] \<and> hd l \<noteq> CHR '' '' \<and> hd l \<noteq> CHR ''+'' \<and> hd l \<noteq> CHR ''-'')"

lemma parse_chunk_lines_minus:
  "parse_chunk_lines n p c (map ((#) (CHR ''-'')) xs @ rest)
     = parse_chunk_lines n (p + length xs) (c\<lparr>old_lines := old_lines c @ xs\<rparr>) rest"
  by (induction xs arbitrary: p c) (simp_all add: EOF_MARKER_def)

lemma parse_chunk_lines_plus:
  "parse_chunk_lines n p c (map ((#) (CHR ''+'')) xs @ rest)
     = parse_chunk_lines n (p + length xs) (c\<lparr>new_lines := new_lines c @ xs\<rparr>) rest"
  by (induction xs arbitrary: p c) (simp_all add: EOF_MARKER_def)

lemma parse_chunk_lines_stop:
  "stops rest \<Longrightarrow> 0 < p \<Longrightarrow> parse_chunk_lines n p c rest = Inr (c, p)"
  by (auto simp: stops_def split: list.splits)

lemma parse_print_chunk:
  assumes "good_chunk ch" and "stops rest"
  shows "parse_update_file_chunk (print_chunk ch @ rest) n allow = Inr (ch, length (print_chunk ch))"
proof -
  obtain ctxt old new eof where ch: "ch = \<lparr>change_context = ctxt, old_lines = old, new_lines = new, is_end_of_file = eof\<rparr>"
    by (cases ch)
  have ne: "0 < length old + length new" using assms(1) by (auto simp: good_chunk_def ch)
  let ?c0 = "\<lparr>change_context = ctxt, old_lines = [], new_lines = [], is_end_of_file = False\<rparr>"
  let ?body = "map ((#) (CHR ''-'')) old @ map ((#) (CHR ''+'')) new @ (if eof then [EOF_MARKER] else []) @ rest"
  have body: "parse_chunk_lines n 0 ?c0 ?body = Inr (ch, length old + length new + (if eof then 1 else 0))"
    using ne parse_chunk_lines_stop [OF assms(2)]
    by (auto simp: parse_chunk_lines_minus parse_chunk_lines_plus ch)
  show ?thesis
    using ne body
    by (cases ctxt) (auto simp: ch print_chunk_def context_line_def parse_update_file_chunk_def
        EMPTY_CHANGE_CONTEXT_MARKER_def CHANGE_CONTEXT_MARKER_def)
qed

definition stops_chunks :: "string list \<Rightarrow> bool" where
  "stops_chunks rest \<longleftrightarrow> stops rest \<and> (case rest of [] \<Rightarrow> True | l # _ \<Rightarrow> starts_with l ''***'' \<and> trim l \<noteq> [])"

lemma print_chunk_Cons:
  obtains tl where "print_chunk ch = context_line (change_context ch) # tl"
  by (simp add: print_chunk_def)

lemma context_line_props:
  "stops (context_line c # rest)" "trim (context_line c) \<noteq> []" "\<not> starts_with (context_line c) ''***''"
  "strip_prefix MOVE_TO_MARKER (context_line c) = None"
proof -
  have "context_line c \<noteq> []" "hd (context_line c) = CHR ''@''"
    by (auto simp: context_line_def marker_defs split: option.splits)
  then show "trim (context_line c) \<noteq> []" by (intro trim_nonempty) (simp_all add: is_ascii_graphic_def)
qed (auto simp: stops_def context_line_def marker_defs starts_with_def split: option.splits)

lemma stops_print_chunks:
  assumes "stops rest"
  shows "stops (concat (map print_chunk cs) @ rest)"
  using assms context_line_props(1) by (cases cs) (simp_all add: print_chunk_def)

lemma parse_print_chunks:
  assumes "list_all good_chunk cs" and "stops_chunks rest"
  shows "parse_chunks n p acc (concat (map print_chunk cs) @ rest)
     = Inr (acc @ cs, p + length (concat (map print_chunk cs)))"
  using assms(1)
proof (induction cs arbitrary: p acc)
  case Nil
  then show ?case using assms(2) by (cases rest) (simp_all add: stops_chunks_def)
next
  case (Cons ch cs)
  let ?rest = "concat (map print_chunk cs) @ rest"
  have st: "stops ?rest" using assms(2) stops_print_chunks by (simp add: stops_chunks_def)
  have ch: "parse_update_file_chunk (print_chunk ch @ ?rest) (n + p) (acc = []) = Inr (ch, length (print_chunk ch))"
    using Cons.prems parse_print_chunk [OF _ st] by simp
  obtain t where t: "print_chunk ch = context_line (change_context ch) # t" by (rule print_chunk_Cons)
  have "parse_chunks n p acc (print_chunk ch @ ?rest)
      = parse_chunks n (p + length (print_chunk ch)) (acc @ [ch]) ?rest"
    using ch by (simp add: t context_line_props)
  then show ?case using Cons by (simp add: add.assoc)
qed

lemma header_trim:
  assumes "good_path p" and "m \<noteq> []" and "is_ascii_graphic (hd m)"
  shows "trim (m @ p) = m @ p"
  using assms by (intro trim_graphic) (auto simp: good_path_def)

lemma header_trims:
  assumes "good_path p"
  shows "trim (ADD_FILE_MARKER @ p) = ADD_FILE_MARKER @ p"
    and "trim (DELETE_FILE_MARKER @ p) = DELETE_FILE_MARKER @ p"
    and "trim (UPDATE_FILE_MARKER @ p) = UPDATE_FILE_MARKER @ p"
  by (intro header_trim [OF assms]; simp add: marker_defs is_ascii_graphic_def)+

lemma header_prefixes:
  "strip_prefix ADD_FILE_MARKER (DELETE_FILE_MARKER @ p) = None"
  "strip_prefix ADD_FILE_MARKER (UPDATE_FILE_MARKER @ p) = None"
  "strip_prefix DELETE_FILE_MARKER (UPDATE_FILE_MARKER @ p) = None"
  by (simp_all add: marker_defs)

lemma print_hunk_starts:
  assumes "print_hunk h = l # t" and "good_hunk h"
  shows "starts_with l ''***'' \<and> l \<noteq> EOF_MARKER \<and> strip_prefix ''+'' l = None"
  using assms by (cases h) (auto simp: marker_defs starts_with_def good_path_def)

lemma stops_print_hunks: "list_all good_hunk hs \<Longrightarrow> stops_chunks (concat (map print_hunk hs))"
proof (cases hs)
  case (Cons h hs')
  assume good: "list_all good_hunk hs"
  obtain l t where l: "print_hunk h = l # t" by (cases h) auto
  then obtain r where r: "l = ''***'' @ r" "l \<noteq> EOF_MARKER"
    using print_hunk_starts [OF l] good Cons by (auto simp: starts_with_iff)
  then have "trim l \<noteq> []" by (intro trim_nonempty) (simp_all add: is_ascii_graphic_def)
  then show ?thesis using Cons l r by (simp add: stops_chunks_def stops_def starts_with_def)
qed (simp add: stops_chunks_def stops_def)

lemma parse_add_lines_print:
  assumes "case rest of [] \<Rightarrow> True | l # _ \<Rightarrow> strip_prefix ''+'' l = None"
  shows "parse_add_lines acc p (map ((#) (CHR ''+'')) ls @ rest)
     = (acc @ concat (map (\<lambda>l. l @ [NL]) ls), p + length ls)"
  using assms by (induction ls arbitrary: acc p) (auto split: list.splits)

lemma parse_print_add:
  assumes "good_hunk (AddFile p c)" and "list_all good_hunk hs"
  shows "parse_one_hunk (ADD_FILE_MARKER @ p) (map ((#) (CHR ''+'')) (lines c) @ concat (map print_hunk hs)) n
     = Inr (AddFile p c, Suc (length (lines c)))"
proof -
  let ?rest = "concat (map print_hunk hs)"
  have "case ?rest of [] \<Rightarrow> True | l # _ \<Rightarrow> strip_prefix ''+'' l = None"
  proof (cases hs)
    case (Cons h' hs')
    obtain l' t' where "print_hunk h' = l' # t'" by (cases h') auto
    then show ?thesis using print_hunk_starts [of h' l' t'] assms(2) Cons by simp
  qed simp
  then have "parse_add_lines [] 1 (map ((#) (CHR ''+'')) (lines c) @ ?rest)
      = (concat (map (\<lambda>l. l @ [NL]) (lines c)), Suc (length (lines c)))"
    by (simp add: parse_add_lines_print)
  then show ?thesis using assms(1) by (simp add: parse_one_hunk_def header_trims)
qed

lemma parse_print_update:
  assumes "good_hunk (UpdateFile p mv cs)" and "list_all good_hunk hs"
  shows "parse_one_hunk (UPDATE_FILE_MARKER @ p)
      ((case mv of None \<Rightarrow> [] | Some d \<Rightarrow> [MOVE_TO_MARKER @ d]) @ concat (map print_chunk cs)
        @ concat (map print_hunk hs)) n
     = Inr (UpdateFile p mv cs, length (print_hunk (UpdateFile p mv cs)))"
proof -
  let ?rest = "concat (map print_hunk hs)"
  have cs: "parse_chunks n k [] (concat (map print_chunk cs) @ ?rest)
      = Inr (cs, k + length (concat (map print_chunk cs)))" for k
    using assms parse_print_chunks [OF _ stops_print_hunks] by simp
  obtain ch cs' where "cs = ch # cs'" using assms(1) by (cases cs) auto
  then obtain t' where t': "concat (map print_chunk cs) = context_line (change_context ch) # t'"
    by (simp add: print_chunk_def)
  have p: "good_path p" and ne: "cs \<noteq> []" using assms(1) by simp_all
  show ?thesis
    using cs [of 1] cs [of 2] p ne
    by (cases mv) (simp_all add: parse_one_hunk_def header_trims header_prefixes t' context_line_props(4))
qed

lemma parse_print_hunk:
  assumes "good_hunk h" and "list_all good_hunk hs" and "print_hunk h = l # t"
  shows "parse_one_hunk l (t @ concat (map print_hunk hs)) n = Inr (h, length (print_hunk h))"
proof (cases h)
  case (DeleteFile p)
  then show ?thesis using assms by (auto simp: parse_one_hunk_def header_trims header_prefixes)
qed (use assms parse_print_add parse_print_update in auto)

lemma parse_print_hunks:
  "list_all good_hunk hs \<Longrightarrow> parse_hunks acc n (concat (map print_hunk hs)) = Inr (acc @ hs)"
proof (induction hs arbitrary: acc n)
  case (Cons h hs)
  obtain l t where l: "print_hunk h = l # t" by (cases h) auto
  have "parse_one_hunk l (t @ concat (map print_hunk hs)) n = Inr (h, length (print_hunk h))"
    using Cons.prems l by (intro parse_print_hunk) simp_all
  then show ?case using Cons l by simp
qed simp

lemma clean_line_simps:
  "clean_line (s @ t) \<longleftrightarrow> clean_line s \<and> clean_line t"
  "clean_line (c # s) \<longleftrightarrow> c \<noteq> NL \<and> c \<noteq> CR \<and> clean_line s" "clean_line []"
  by (auto simp: clean_line_def)

lemma clean_markers:
  "clean_line BEGIN_PATCH_MARKER" "clean_line END_PATCH_MARKER" "clean_line ADD_FILE_MARKER"
  "clean_line DELETE_FILE_MARKER" "clean_line UPDATE_FILE_MARKER" "clean_line MOVE_TO_MARKER"
  "clean_line EOF_MARKER" "clean_line CHANGE_CONTEXT_MARKER" "clean_line EMPTY_CHANGE_CONTEXT_MARKER"
  by (simp_all add: marker_defs clean_line_simps)

lemma print_chunk_clean:
  assumes "good_chunk ch" and "l \<in> set (print_chunk ch)"
  shows "clean_line l"
proof -
  have "clean_line (context_line (change_context ch))"
    using assms(1)
    by (simp add: good_chunk_def context_line_def clean_line_simps clean_markers split: option.splits)
  then show ?thesis using assms
    by (auto simp: good_chunk_def print_chunk_def clean_line_simps clean_markers list_all_iff split: if_splits)
qed

lemma print_hunk_clean: "good_hunk h \<Longrightarrow> l \<in> set (print_hunk h) \<Longrightarrow> clean_line l"
proof (cases h)
  case (UpdateFile p mv cs)
  then show "good_hunk h \<Longrightarrow> l \<in> set (print_hunk h) \<Longrightarrow> ?thesis"
    using print_chunk_clean
    by (auto simp: clean_line_simps clean_markers good_path_def list_all_iff split: option.splits)
qed (auto simp: clean_line_simps clean_markers good_path_def list_all_iff)

text \<open>C36: Parsing is a left inverse of printing: for every list of well-formed hunks, the text of
  their patch parses back to exactly these hunks, and the normalised patch text is the printed
  one.\<close>

theorem parse_print_round_trip:
  assumes "list_all good_hunk hs"
  shows "parse_patch (print_patch hs) = Inr \<lparr>hunks = hs, patch = print_patch hs\<rparr>"
proof -
  let ?ls = "BEGIN_PATCH_MARKER # concat (map print_hunk hs) @ [END_PATCH_MARKER]"
  let ?txt = "print_patch hs"
  have clean: "\<forall>l \<in> set ?ls. clean_line l"
    using assms print_hunk_clean by (auto simp: list_all_iff clean_markers)
  have "?txt = BEGIN_PATCH_MARKER @ NL # join [NL] (concat (map print_hunk hs) @ [END_PATCH_MARKER])"
    by (simp add: print_patch_def join_Cons)
  moreover have "\<exists>s. join [NL] (xs @ [END_PATCH_MARKER]) = s @ END_PATCH_MARKER" for xs
    by (induction xs) (auto simp: join_Cons)
  ultimately obtain s where s: "?txt = BEGIN_PATCH_MARKER @ s @ END_PATCH_MARKER" by (metis append_Cons)
  then have "trim ?txt = ?txt"
    by (intro trim_graphic) (simp_all add: marker_defs is_ascii_graphic_def)
  moreover have "lines ?txt = ?ls"
    unfolding print_patch_def using clean by (rule lines_join) (simp_all add: marker_defs)
  moreover have "check_patch_boundaries_strict ?ls = Inr ()"
  proof -
    have "trim BEGIN_PATCH_MARKER = BEGIN_PATCH_MARKER" "trim END_PATCH_MARKER = END_PATCH_MARKER"
      by (intro trim_graphic; simp add: marker_defs is_ascii_graphic_def)+
    then show ?thesis by (simp add: check_patch_boundaries_strict_def check_start_and_end_lines_strict_def)
  qed
  ultimately show ?thesis
    using parse_print_hunks [OF assms] by (simp add: parse_patch_def parse_patch_text_def print_patch_def)
qed

theorem parse_print_round_trip_witness:
  "let hs = [AddFile ''a.txt'' (''hi'' @ [NL]), DeleteFile ''b'',
             UpdateFile ''c'' (Some ''d'')
               [\<lparr>change_context = Some ''fn'', old_lines = [''x''], new_lines = [''y'', []], is_end_of_file = True\<rparr>]]
   in parse_patch (print_patch hs) = Inr \<lparr>hunks = hs, patch = print_patch hs\<rparr>"
  unfolding Let_def
  by (rule parse_print_round_trip) code_simp

lemma check_start_end_Inr:
  "check_start_and_end_lines_strict f l = Inr () \<longleftrightarrow>
     map_option trim f = Some BEGIN_PATCH_MARKER \<and> map_option trim l = Some END_PATCH_MARKER"
  by (auto simp: check_start_and_end_lines_strict_def split: option.splits if_splits)

lemma check_boundaries_Inr:
  "check_patch_boundaries_strict ls = Inr () \<Longrightarrow>
     2 \<le> length ls \<and> trim (hd ls) = BEGIN_PATCH_MARKER \<and> trim (last ls) = END_PATCH_MARKER"
  by (cases ls; cases "tl ls")
    (auto simp: check_patch_boundaries_strict_def check_start_end_Inr BEGIN_PATCH_MARKER_def END_PATCH_MARKER_def)

text \<open>A patch that parses is enclosed by its two markers: the (possibly unwrapped) lines are at
  least two, the first is \<open>*** Begin Patch\<close> and the last \<open>*** End Patch\<close> up to white space, so the
  slice between them is always in range, and the normalised text is these lines joined.\<close>

theorem parsed_patch_enclosed:
  assumes "parse_patch txt = Inr pp"
  shows "\<exists>ls. 2 \<le> length ls \<and> trim (hd ls) = BEGIN_PATCH_MARKER \<and> trim (last ls) = END_PATCH_MARKER
     \<and> parse_hunks [] 2 (butlast (tl ls)) = Inr (hunks pp) \<and> patch pp = join [NL] ls
     \<and> (ls = lines (trim txt) \<or> ls = butlast (tl (lines (trim txt))))"
proof -
  let ?ls = "lines (trim txt)"
  obtain ls where ls: "check_patch_boundaries_strict ls = Inr ()" "ls = ?ls \<or> ls = butlast (tl ?ls)"
    "parse_hunks [] 2 (butlast (tl ls)) = Inr (hunks pp)" "patch pp = join [NL] ls"
    using assms
    by (auto simp: parse_patch_def parse_patch_text_def PARSE_IN_STRICT_MODE_def Let_def
        check_patch_boundaries_lenient_def
        split: sum.splits list.splits if_splits)
  then show ?thesis using check_boundaries_Inr by blast
qed

theorem parsed_patch_enclosed_witness:
  "\<exists>ls. 2 \<le> length ls \<and> patch \<lparr>hunks = [DeleteFile ''b''], patch = print_patch [DeleteFile ''b'']\<rparr> = join [NL] ls"
proof -
  have "parse_patch (print_patch [DeleteFile ''b'']) = Inr \<lparr>hunks = [DeleteFile ''b''], patch = print_patch [DeleteFile ''b'']\<rparr>"
    by code_simp
  from parsed_patch_enclosed [OF this] show ?thesis by blast
qed

end
