(* ===== verification/Patch_Apply.thy ===== *)
theory Patch_Apply
  imports Patch_Parser
begin

text \<open>
  \<open>seek_sequence.rs\<close> and \<open>apply.rs\<close> of the \<open>apply_patch\<close> tool: the four-pass fuzzy search for a
  sequence of lines and the computation and application of replacements. A panic of the source
  (an insertion past the end of the vector) is the result \<open>None\<close>.
\<close>

section \<open>Normalisation of punctuation\<close>

text \<open>The characters that \<open>normalise\<close> maps, by their UTF-8 encodings.\<close>

definition punct_table :: "(string \<times> char) list" where
  "punct_table =
     map (\<lambda>b. ([CHR 0xE2, CHR 0x80, b], CHR ''-''))
       [CHR 0x90, CHR 0x91, CHR 0x92, CHR 0x93, CHR 0x94, CHR 0x95]
     @ [([CHR 0xE2, CHR 0x88, CHR 0x92], CHR ''-'')]
     @ map (\<lambda>b. ([CHR 0xE2, CHR 0x80, b], CHR 0x27)) [CHR 0x98, CHR 0x99, CHR 0x9A, CHR 0x9B]
     @ map (\<lambda>b. ([CHR 0xE2, CHR 0x80, b], CHR 0x22)) [CHR 0x9C, CHR 0x9D, CHR 0x9E, CHR 0x9F]
     @ [([CHR 0xC2, CHR 0xA0], CHR '' '')]
     @ map (\<lambda>b. ([CHR 0xE2, CHR 0x80, b], CHR '' ''))
       [CHR 0x82, CHR 0x83, CHR 0x84, CHR 0x85, CHR 0x86, CHR 0x87, CHR 0x88, CHR 0x89, CHR 0x8A, CHR 0xAF]
     @ [([CHR 0xE2, CHR 0x81, CHR 0x9F], CHR '' ''), ([CHR 0xE3, CHR 0x80, CHR 0x80], CHR '' '')]"

fun lookup_prefix :: "(string \<times> char) list \<Rightarrow> string \<Rightarrow> (char \<times> nat) option" where
  "lookup_prefix [] s = None"
| "lookup_prefix ((enc, c) # tab) s = (if starts_with s enc then Some (c, length enc) else lookup_prefix tab s)"

text \<open>The first argument counts the bytes of a mapped character still to be skipped.\<close>

fun map_punct :: "nat \<Rightarrow> string \<Rightarrow> string" where
  "map_punct k [] = []"
| "map_punct (Suc k) (b # bs) = map_punct k bs"
| "map_punct 0 (b # bs) =
     (case lookup_prefix punct_table (b # bs) of
        Some (c, n) \<Rightarrow> c # map_punct (n - 1) bs
      | None \<Rightarrow> b # map_punct 0 bs)"

definition normalise :: "string \<Rightarrow> string" where
  "normalise s = map_punct 0 (trim s)"

section \<open>Searching\<close>

text \<open>The comparison of one position: all lines of the pattern, in order, after \<open>norm\<close>.\<close>

fun match_from :: "(string \<Rightarrow> string) \<Rightarrow> string list \<Rightarrow> string list \<Rightarrow> nat \<Rightarrow> bool" where
  "match_from norm ls [] i = True"
| "match_from norm ls (p # ps) i = (if norm (ls ! i) \<noteq> norm p then False else match_from norm ls ps (Suc i))"

definition seek_pass :: "(string \<Rightarrow> string) \<Rightarrow> string list \<Rightarrow> string list \<Rightarrow> nat \<Rightarrow> nat option" where
  "seek_pass norm ls pat search_start =
     find (match_from norm ls pat) [search_start ..< Suc (length ls - length pat)]"

definition seek_sequence :: "string list \<Rightarrow> string list \<Rightarrow> nat \<Rightarrow> bool \<Rightarrow> nat option" where
  "seek_sequence ls pat start eof =
     (if pat = [] then Some start
      else if length ls < length pat then None
      else
        (let search_start = (if eof \<and> length pat \<le> length ls then length ls - length pat else start)
         in case seek_pass (\<lambda>s. s) ls pat search_start of
              Some i \<Rightarrow> Some i
            | None \<Rightarrow>
          (case seek_pass trim_end ls pat search_start of
              Some i \<Rightarrow> Some i
            | None \<Rightarrow>
          (case seek_pass trim ls pat search_start of
              Some i \<Rightarrow> Some i
            | None \<Rightarrow> seek_pass normalise ls pat search_start))))"

section \<open>Replacements\<close>

datatype apply_patch_error =
    Parse parse_error
  | ComputeReplacements string
  | Io string string "string option"

type_synonym replacement = "nat \<times> nat \<times> string list"

definition last_is_empty :: "string list \<Rightarrow> bool" where
  "last_is_empty ls \<longleftrightarrow> (if ls = [] then False else last ls = [])"

text \<open>The search for a chunk's old lines, retried without a final empty line: the replacement.\<close>

definition locate_old_lines :: "string list \<Rightarrow> update_file_chunk \<Rightarrow> nat \<Rightarrow> replacement option" where
  "locate_old_lines ls chunk line_index =
     (let found = seek_sequence ls (old_lines chunk) line_index (is_end_of_file chunk)
      in if found = None \<and> last_is_empty (old_lines chunk)
         then
           (let pat = butlast (old_lines chunk);
                new_slice = (if last_is_empty (new_lines chunk)
                             then butlast (new_lines chunk) else new_lines chunk)
            in map_option (\<lambda>start_idx. (start_idx, length pat, new_slice))
                 (seek_sequence ls pat line_index (is_end_of_file chunk)))
         else map_option (\<lambda>start_idx. (start_idx, length (old_lines chunk), new_lines chunk)) found)"

text \<open>One iteration of the loop over the chunks: the replacement of a chunk and the line from which
  the next one is searched.\<close>

definition chunk_replacement ::
  "string list \<Rightarrow> string \<Rightarrow> update_file_chunk \<Rightarrow> nat \<Rightarrow> apply_patch_error + (replacement \<times> nat)" where
  "chunk_replacement ls path chunk line_index =
     (case
        (case change_context chunk of
           None \<Rightarrow> Inr line_index
         | Some ctx_line \<Rightarrow>
             (case seek_sequence ls [ctx_line] line_index False of
                Some idx \<Rightarrow> Inr (idx + 1)
              | None \<Rightarrow> Inl (ComputeReplacements (''Failed to find context '' @ quoted ctx_line @ '' in '' @ path)))) of
        Inl e \<Rightarrow> Inl e
      | Inr line_index \<Rightarrow>
          if old_lines chunk = [] then
            (let insertion_idx = (if last_is_empty ls then length ls - 1 else length ls)
             in Inr ((insertion_idx, 0, new_lines chunk), line_index))
          else
            (case locate_old_lines ls chunk line_index of
               Some (start_idx, old_len, new_slice) \<Rightarrow>
                 Inr ((start_idx, old_len, new_slice), start_idx + old_len)
             | None \<Rightarrow>
                 Inl (ComputeReplacements
                   (''Failed to find expected lines in '' @ path @ '':'' @ [NL] @ join [NL] (old_lines chunk)))))"

fun compute_from ::
  "string list \<Rightarrow> string \<Rightarrow> update_file_chunk list \<Rightarrow> nat \<Rightarrow> replacement list \<Rightarrow> apply_patch_error + replacement list" where
  "compute_from ls path [] line_index reps = Inr reps"
| "compute_from ls path (chunk # cs) line_index reps =
     (case chunk_replacement ls path chunk line_index of
        Inl e \<Rightarrow> Inl e
      | Inr (r, line_index) \<Rightarrow> compute_from ls path cs line_index (reps @ [r]))"

definition compute_replacements ::
  "string list \<Rightarrow> string \<Rightarrow> update_file_chunk list \<Rightarrow> apply_patch_error + replacement list" where
  "compute_replacements ls path cs =
     (case compute_from ls path cs 0 [] of
        Inl e \<Rightarrow> Inl e
      | Inr reps \<Rightarrow> Inr (sort_key fst reps))"

fun remove_lines :: "nat \<Rightarrow> nat \<Rightarrow> string list \<Rightarrow> string list" where
  "remove_lines start 0 ls = ls"
| "remove_lines start (Suc n) ls =
     remove_lines start n (if start < length ls then take start ls @ drop (Suc start) ls else ls)"

text \<open>\<open>Vec::insert\<close> panics when the index is past the end.\<close>

fun insert_lines :: "nat \<Rightarrow> string list \<Rightarrow> string list \<Rightarrow> string list option" where
  "insert_lines i [] ls = Some ls"
| "insert_lines i (x # xs) ls =
     (if i \<le> length ls then insert_lines (Suc i) xs (take i ls @ x # drop i ls) else None)"

fun apply_in_order :: "replacement list \<Rightarrow> string list \<Rightarrow> string list option" where
  "apply_in_order [] ls = Some ls"
| "apply_in_order ((start_idx, old_len, new_segment) # reps) ls =
     Option.bind (insert_lines start_idx new_segment (remove_lines start_idx old_len ls)) (apply_in_order reps)"

definition apply_replacements :: "string list \<Rightarrow> replacement list \<Rightarrow> string list option" where
  "apply_replacements ls reps = apply_in_order (rev reps) ls"

definition content_lines :: "string \<Rightarrow> string list" where
  "content_lines original_content =
     (let ls = split_on NL original_content in if last_is_empty ls then butlast ls else ls)"

text \<open>\<open>None\<close> is a panic.\<close>

definition derive_new_contents ::
  "string \<Rightarrow> string \<Rightarrow> update_file_chunk list \<Rightarrow> (apply_patch_error + string) option" where
  "derive_new_contents original_content path cs =
     (let original_lines = content_lines original_content
      in case compute_replacements original_lines path cs of
           Inl e \<Rightarrow> Some (Inl e)
         | Inr reps \<Rightarrow>
             (case apply_replacements original_lines reps of
                None \<Rightarrow> None
              | Some new_ls \<Rightarrow>
                  (let new_ls = (if \<not> last_is_empty new_ls then new_ls @ [[]] else new_ls)
                   in Some (Inr (join [NL] new_ls)))))"

section \<open>Search passes of decreasing strictness\<close>

lemma match_from_iff:
  "match_from norm ls pat i \<longleftrightarrow> (\<forall>k < length pat. norm (ls ! (i + k)) = norm (pat ! k))"
proof (induction pat arbitrary: i)
  case (Cons p ps)
  have "(\<forall>k < length (p # ps). norm (ls ! (i + k)) = norm ((p # ps) ! k))
      \<longleftrightarrow> norm (ls ! i) = norm p \<and> (\<forall>k < length ps. norm (ls ! (Suc i + k)) = norm (ps ! k))"
    by (auto simp: less_Suc_eq_0_disj)
  then show ?case using Cons [of "Suc i"] by simp
qed simp

lemma seek_pass_Some:
  "seek_pass norm ls pat st = Some i \<longleftrightarrow>
     st \<le> i \<and> i \<le> length ls - length pat \<and> match_from norm ls pat i
     \<and> (\<forall>j. st \<le> j \<and> j < i \<longrightarrow> \<not> match_from norm ls pat j)"
  unfolding seek_pass_def find_upt_Some by (simp add: less_Suc_eq_le)

lemma seek_pass_None:
  "seek_pass norm ls pat st = None \<longleftrightarrow>
     (\<forall>i. st \<le> i \<and> i \<le> length ls - length pat \<longrightarrow> \<not> match_from norm ls pat i)"
  by (auto simp: seek_pass_def find_None_iff)

text \<open>Two normalisers, the second identifying whatever the first does.\<close>

locale coarser =
  fixes fine :: "string \<Rightarrow> string" and coarse :: "string \<Rightarrow> string"
  assumes coarser: "fine s = fine t \<Longrightarrow> coarse s = coarse t"
begin

lemma match_coarser: "match_from fine ls pat i \<Longrightarrow> match_from coarse ls pat i"
  unfolding match_from_iff using coarser by blast

lemma pass_coarser:
  assumes "seek_pass fine ls pat st = Some i"
  shows "\<exists>j \<le> i. seek_pass coarse ls pat st = Some j"
proof -
  have i: "st \<le> i" "i \<le> length ls - length pat" "match_from coarse ls pat i"
    using assms match_coarser [of ls pat i] by (simp_all add: seek_pass_Some)
  then obtain j where j: "seek_pass coarse ls pat st = Some j"
    using seek_pass_None [of coarse ls pat st] by (meson option.exhaust)
  then have "\<not> i < j" using i by (auto simp: seek_pass_Some)
  then show ?thesis using j by auto
qed

end

interpretation exact_rstrip: coarser "\<lambda>s. s" trim_end
  by unfold_locales simp

interpretation rstrip_trim: coarser trim_end trim
  by unfold_locales (metis trim_trim_end)

interpretation trim_normalise: coarser trim normalise
  by unfold_locales (simp add: normalise_def)

lemma match_normalise:
  "match_from (\<lambda>s. s) ls pat i \<Longrightarrow> match_from normalise ls pat i"
  "match_from trim_end ls pat i \<Longrightarrow> match_from normalise ls pat i"
  "match_from trim ls pat i \<Longrightarrow> match_from normalise ls pat i"
  using exact_rstrip.match_coarser rstrip_trim.match_coarser trim_normalise.match_coarser by blast+

lemma seek_sequence_cases:
  assumes "seek_sequence ls pat start eof = Some i" and "pat \<noteq> []"
  defines "st \<equiv> (if eof then length ls - length pat else start)"
  shows "length pat \<le> length ls \<and> (seek_pass (\<lambda>s. s) ls pat st = Some i
     \<or> seek_pass (\<lambda>s. s) ls pat st = None \<and> (seek_pass trim_end ls pat st = Some i
     \<or> seek_pass trim_end ls pat st = None \<and> (seek_pass trim ls pat st = Some i
     \<or> seek_pass trim ls pat st = None \<and> seek_pass normalise ls pat st = Some i)))"
  using assms(1,2) unfolding seek_sequence_def st_def
  by (auto simp: Let_def not_less split: if_splits option.splits)

lemma seek_sequence_range:
  assumes "seek_sequence ls pat start eof = Some i" and "pat \<noteq> []"
  shows "i + length pat \<le> length ls" and "\<not> eof \<Longrightarrow> start \<le> i" and "eof \<Longrightarrow> i = length ls - length pat"
    and "match_from normalise ls pat i"
proof -
  let ?st = "if eof then length ls - length pat else start"
  have c: "length pat \<le> length ls \<and> (seek_pass (\<lambda>s. s) ls pat ?st = Some i
     \<or> seek_pass trim_end ls pat ?st = Some i \<or> seek_pass trim ls pat ?st = Some i
     \<or> seek_pass normalise ls pat ?st = Some i)"
    using seek_sequence_cases [OF assms] by blast
  then have "?st \<le> i" "i \<le> length ls - length pat" "match_from normalise ls pat i"
    using match_normalise by (auto simp: seek_pass_Some)
  then show "i + length pat \<le> length ls" and "\<not> eof \<Longrightarrow> start \<le> i" and "eof \<Longrightarrow> i = length ls - length pat"
    and "match_from normalise ls pat i"
    using c by (auto split: if_splits)
qed

text \<open>A sequence search is sound, strictest-first and leftmost: a result for a non-empty pattern
  lies in the file at or after the search position (exactly at the end of the file when the end is
  asked for), the lines there equal the pattern up to white space and typographic punctuation; if
  the pattern occurs verbatim at or after the search position, the result is its first verbatim
  occurrence; and a search that fails means that the pattern does not occur there even after
  normalisation.\<close>

theorem seek_sequence_correct:
  assumes "pat \<noteq> []" and "st = (if eof then length ls - length pat else start)"
  shows "(\<forall>i. seek_sequence ls pat start eof = Some i \<longrightarrow>
            st \<le> i \<and> i + length pat \<le> length ls
            \<and> (\<forall>k < length pat. normalise (ls ! (i + k)) = normalise (pat ! k)))
    \<and> (\<forall>i. st \<le> i \<and> i + length pat \<le> length ls \<and> take (length pat) (drop i ls) = pat
            \<and> (\<forall>j. st \<le> j \<and> j < i \<longrightarrow> take (length pat) (drop j ls) \<noteq> pat) \<longrightarrow>
            seek_sequence ls pat start eof = Some i)
    \<and> (seek_sequence ls pat start eof = None \<longrightarrow>
            (\<forall>i. st \<le> i \<and> i + length pat \<le> length ls \<longrightarrow>
              (\<exists>k < length pat. normalise (ls ! (i + k)) \<noteq> normalise (pat ! k))))"
proof (intro conjI allI impI, goal_cases)
  case (1 i)
  then show ?case using seek_sequence_range [OF _ assms(1)] assms(2) by (auto split: if_splits)
next
  case (2 i)
  then show ?case using seek_sequence_range [OF _ assms(1)] by simp
next
  case (3 i k)
  then show ?case using seek_sequence_range(4) [OF _ assms(1)] by (simp add: match_from_iff)
next
  case (4 i)
  have ex: "match_from (\<lambda>s. s) ls pat j \<longleftrightarrow> take (length pat) (drop j ls) = pat" if "j + length pat \<le> length ls" for j
    using that by (auto simp: match_from_iff list_eq_iff_nth_eq)
  have "\<not> match_from (\<lambda>s. s) ls pat j" if "st \<le> j" "j < i" for j
    using ex [of j] 4 that by simp
  then have "seek_pass (\<lambda>s. s) ls pat st = Some i"
    using 4 ex [of i] by (auto simp: seek_pass_Some)
  moreover have "length pat \<le> length ls" using 4 by simp
  ultimately show ?case using assms by (auto simp: seek_sequence_def Let_def)
next
  case (5 i)
  then have "length pat \<le> length ls" by simp
  then have "seek_pass normalise ls pat st = None"
    using 5(1) assms by (auto simp: seek_sequence_def Let_def split: option.splits)
  then have "\<not> match_from normalise ls pat i" using 5(2) by (auto simp: seek_pass_None)
  then show ?case by (auto simp: match_from_iff)
qed

theorem seek_sequence_correct_witness:
  "\<exists>i. seek_sequence [''x'', ''  foo  '', ''bar''] [''foo'', ''bar''] 0 False = Some i
     \<and> 0 \<le> i \<and> i + 2 \<le> 3"
proof -
  have r: "seek_sequence [''x'', ''  foo  '', ''bar''] [''foo'', ''bar''] 0 False = Some 1" by code_simp
  then show ?thesis
    using seek_sequence_correct [of "[''foo'', ''bar'']" 0 False "[''x'', ''  foo  '', ''bar'']" 0] by auto
qed

section \<open>Applying replacements\<close>

text \<open>The reference: copy the lines between the segments and put each new segment in place.\<close>

fun splice_segments :: "nat \<Rightarrow> string list \<Rightarrow> replacement list \<Rightarrow> string list" where
  "splice_segments pos ls [] = drop pos ls"
| "splice_segments pos ls ((s, l, new) # reps) = take (s - pos) (drop pos ls) @ new @ splice_segments (s + l) ls reps"

fun nonoverlapping :: "nat \<Rightarrow> nat \<Rightarrow> replacement list \<Rightarrow> bool" where
  "nonoverlapping n pos [] \<longleftrightarrow> True"
| "nonoverlapping n pos ((s, l, new) # reps) \<longleftrightarrow> pos \<le> s \<and> s + l \<le> n \<and> nonoverlapping n (s + l) reps"

lemma remove_lines_eq: "start \<le> length ls \<Longrightarrow> remove_lines start n ls = take start ls @ drop (start + n) ls"
proof (induction n arbitrary: ls)
  case (Suc n)
  show ?case
  proof (cases "start < length ls")
    case True
    then show ?thesis using Suc.IH [of "take start ls @ drop (Suc start) ls"] Suc.prems
      by (simp add: add.commute)
  next
    case False
    then show ?thesis using Suc by simp
  qed
qed simp

lemma insert_lines_eq: "i \<le> length ls \<Longrightarrow> insert_lines i new ls = Some (take i ls @ new @ drop i ls)"
proof (induction new arbitrary: i ls)
  case (Cons x xs)
  then show ?case using Cons.IH [of "Suc i" "take i ls @ x # drop i ls"] by (simp add: min_def)
qed simp

lemma apply_one:
  "s \<le> length ls \<Longrightarrow> insert_lines s new (remove_lines s l ls) = Some (take s ls @ new @ drop (s + l) ls)"
  by (simp add: remove_lines_eq insert_lines_eq)

lemma apply_in_order_append:
  "apply_in_order (xs @ ys) ls = Option.bind (apply_in_order xs ls) (apply_in_order ys)"
  by (induction xs ls rule: apply_in_order.induct) (auto simp: Option.bind_assoc split: Option.bind_splits)

lemma apply_in_order_splice:
  "nonoverlapping (length ls) p reps \<Longrightarrow> p \<le> length ls \<Longrightarrow>
     apply_in_order (rev reps) ls = Some (take p ls @ splice_segments p ls reps)"
proof (induction reps arbitrary: p)
  case (Cons r reps)
  obtain s l new where r: "r = (s, l, new)" by (cases r)
  have le: "p \<le> s" "s + l \<le> length ls" using Cons.prems r by auto
  have "apply_in_order (rev reps) ls = Some (take (s + l) ls @ splice_segments (s + l) ls reps)"
    using Cons r by simp
  then have "apply_in_order (rev (r # reps)) ls = Some (take s ls @ new @ splice_segments (s + l) ls reps)"
    using le by (simp add: apply_in_order_append r apply_one min_def)
  also have "take s ls = take p ls @ take (s - p) (drop p ls)"
    using le by (metis le_add_diff_inverse take_add)
  finally show ?case by (simp add: r)
qed simp

text \<open>Applying a list of non-overlapping, increasing replacements in reverse order, line by line
  as the code does, gives exactly the file in which each replaced segment is exchanged for its new
  lines and everything else is kept, and never panics.\<close>

theorem apply_replacements_splices:
  assumes "nonoverlapping (length ls) 0 reps"
  shows "apply_replacements ls reps = Some (splice_segments 0 ls reps)"
  using apply_in_order_splice [OF assms] by (simp add: apply_replacements_def)

theorem apply_replacements_splices_witness:
  "apply_replacements [''a'', ''b'', ''c''] [(0, 1, [''x'', ''y'']), (2, 1, [])] = Some [''x'', ''y'', ''b'']"
  using apply_replacements_splices [of "[''a'', ''b'', ''c'']" "[(0, 1, [''x'', ''y'']), (2, 1, [])]"] by simp

section \<open>Computing replacements\<close>

text \<open>A replacement that comes from a chunk: its segment is the chunk's old lines (or these less a
  final empty line), up to normalisation, and its new lines are the chunk's.\<close>

definition replaces :: "string list \<Rightarrow> update_file_chunk \<Rightarrow> replacement \<Rightarrow> bool" where
  "replaces ls ch r \<longleftrightarrow> (case r of (s, l, new) \<Rightarrow>
     \<exists>pat. (pat = old_lines ch \<and> new = new_lines ch
            \<or> pat @ [[]] = old_lines ch \<and> (new = new_lines ch \<or> new @ [[]] = new_lines ch))
       \<and> l = length pat \<and> s + l \<le> length ls \<and> match_from normalise ls pat s)"

lemma seek_in_range:
  assumes "seek_sequence ls pat start eof = Some i" and "start \<le> length ls"
  shows "i + length pat \<le> length ls \<and> match_from normalise ls pat i \<and> (eof \<or> start \<le> i)"
  using assms seek_sequence_range [OF assms(1)]
  by (cases "pat = []") (auto simp: seek_sequence_def)

lemma last_is_empty_snoc: "last_is_empty xs \<Longrightarrow> butlast xs @ [[]] = xs"
  by (auto simp: last_is_empty_def split: if_splits) (metis append_butlast_last_id)

lemma locate_old_lines_props:
  assumes "locate_old_lines ls ch li = Some (s, l, new)" and "li \<le> length ls"
  shows "replaces ls ch (s, l, new)" and "is_end_of_file ch \<or> li \<le> s"
proof -
  obtain pat where pat: "seek_sequence ls pat li (is_end_of_file ch) = Some s" "l = length pat"
    "pat = old_lines ch \<and> new = new_lines ch
     \<or> pat @ [[]] = old_lines ch \<and> (new = new_lines ch \<or> new @ [[]] = new_lines ch)"
  proof (cases "seek_sequence ls (old_lines ch) li (is_end_of_file ch) = None \<and> last_is_empty (old_lines ch)")
    case True
    then show ?thesis using assms(1) last_is_empty_snoc [of "new_lines ch"] last_is_empty_snoc [of "old_lines ch"]
      by (intro that [of "butlast (old_lines ch)"]) (auto simp: locate_old_lines_def Let_def split: if_splits)
  next
    case False
    then show ?thesis using assms(1)
      by (intro that [of "old_lines ch"]) (auto simp: locate_old_lines_def Let_def)
  qed
  then show "replaces ls ch (s, l, new)" and "is_end_of_file ch \<or> li \<le> s"
    using seek_in_range [OF pat(1) assms(2)] by (auto simp: replaces_def)
qed

lemma context_line_index:
  assumes "(case change_context chunk of
           None \<Rightarrow> Inr li
         | Some ctx_line \<Rightarrow>
             (case seek_sequence ls [ctx_line] li False of
                Some idx \<Rightarrow> Inr (idx + 1) | None \<Rightarrow> Inl (e ctx_line))) = Inr li'"
    and "li \<le> length ls"
  shows "li \<le> li' \<and> li' \<le> length ls"
  using assms by (auto dest: seek_in_range split: option.splits)

lemma chunk_replacement_props:
  assumes r: "chunk_replacement ls path ch li = Inr ((s, l, new), li')" and li: "li \<le> length ls"
  shows "s \<le> length ls" and "li' \<le> length ls"
    and "old_lines ch \<noteq> [] \<Longrightarrow> replaces ls ch (s, l, new) \<and> li' = s + l"
    and "old_lines ch \<noteq> [] \<Longrightarrow> \<not> is_end_of_file ch \<Longrightarrow> li \<le> s"
proof -
  obtain li1 where ctxt: "(case change_context ch of
           None \<Rightarrow> Inr li
         | Some ctx_line \<Rightarrow>
             (case seek_sequence ls [ctx_line] li False of
                Some idx \<Rightarrow> Inr (idx + 1)
              | None \<Rightarrow> Inl (ComputeReplacements (''Failed to find context '' @ quoted ctx_line @ '' in '' @ path)))) = Inr li1"
    using r unfolding chunk_replacement_def by (auto split: sum.splits)
  have li1: "li \<le> li1" "li1 \<le> length ls" using context_line_index [OF ctxt li] by auto
  have rest: "s \<le> length ls \<and> li' \<le> length ls \<and> (old_lines ch \<noteq> [] \<longrightarrow> replaces ls ch (s, l, new) \<and> li' = s + l
      \<and> (is_end_of_file ch \<or> li1 \<le> s))"
  proof (cases "old_lines ch = []")
    case True
    then show ?thesis using r li1 unfolding chunk_replacement_def ctxt by auto
  next
    case False
    have loc: "locate_old_lines ls ch li1 = Some (s, l, new)" and li': "li' = s + l"
      using r False unfolding chunk_replacement_def ctxt by (auto split: option.splits)
    note props = locate_old_lines_props [OF loc li1(2)]
    then have "s + l \<le> length ls" by (auto simp: replaces_def)
    then show ?thesis using props li' by simp
  qed
  then show "s \<le> length ls" and "li' \<le> length ls"
    and "old_lines ch \<noteq> [] \<Longrightarrow> replaces ls ch (s, l, new) \<and> li' = s + l"
    and "old_lines ch \<noteq> [] \<Longrightarrow> \<not> is_end_of_file ch \<Longrightarrow> li \<le> s"
    using li1 by auto
qed

lemma compute_from_starts:
  assumes "compute_from ls path cs li reps = Inr reps'" and "li \<le> length ls" and "\<forall>r \<in> set reps. fst r \<le> length ls"
  shows "\<forall>r \<in> set reps'. fst r \<le> length ls"
  using assms
proof (induction cs arbitrary: li reps)
  case (Cons ch cs)
  then obtain s l new li' where "chunk_replacement ls path ch li = Inr ((s, l, new), li')"
    "compute_from ls path cs li' (reps @ [(s, l, new)]) = Inr reps'"
    by (auto split: sum.splits)
  then show ?case using Cons.IH [of li' "reps @ [(s, l, new)]"] Cons.prems chunk_replacement_props(1,2) by auto
qed simp

lemma apply_in_order_total:
  "sorted_wrt (\<lambda>r r'. fst r' \<le> fst r) reps \<Longrightarrow> (\<forall>r \<in> set reps. fst r \<le> length ls) \<Longrightarrow>
     apply_in_order reps ls \<noteq> None"
proof (induction reps arbitrary: ls)
  case (Cons r reps)
  obtain s l new where r: "r = (s, l, new)" by (cases r)
  let ?ls = "take s ls @ new @ drop (s + l) ls"
  have "\<forall>r' \<in> set reps. fst r' \<le> length ?ls" using Cons.prems r by (fastforce intro: trans_le_add1)
  then have "apply_in_order reps ?ls \<noteq> None" using Cons by simp
  then show ?case using Cons.prems r by (simp add: apply_one)
qed simp

lemma sorted_wrt_rev_sort_key: "sorted_wrt (\<lambda>r r'. fst r' \<le> fst r) (rev (sort_key fst reps))"
  using sorted_sort_key [of fst reps] by (simp add: sorted_wrt_rev sorted_map)

lemma apply_computed:
  assumes "compute_replacements ls path cs = Inr reps"
  shows "apply_replacements ls reps \<noteq> None"
proof -
  obtain reps0 where r: "compute_from ls path cs 0 [] = Inr reps0" "reps = sort_key fst reps0"
    using assms by (auto simp: compute_replacements_def split: sum.splits)
  then have "\<forall>r \<in> set (rev reps). fst r \<le> length ls"
    using compute_from_starts [of ls path cs 0 "[]" reps0] by simp
  then show ?thesis
    using apply_in_order_total sorted_wrt_rev_sort_key r(2) unfolding apply_replacements_def by blast
qed

lemma derive_new_contents_never_panics: "derive_new_contents original path cs \<noteq> None"
  by (auto simp: derive_new_contents_def Let_def dest: apply_computed split: sum.splits option.splits)

text \<open>Deriving the new contents of a file never panics, whatever the file and the chunks, and
  when it succeeds the result is empty or ends with a line feed.\<close>

theorem derive_new_contents_ends_with_newline:
  "\<exists>r. derive_new_contents original path cs = Some r
     \<and> (case r of Inl _ \<Rightarrow> True | Inr s \<Rightarrow> s = [] \<or> last s = NL)"
proof (cases "compute_replacements (content_lines original) path cs")
  case (Inr reps)
  obtain new where new: "apply_replacements (content_lines original) reps = Some new"
    using apply_computed [OF Inr] by blast
  define out where "out = (if \<not> last_is_empty new then new @ [[]] else new)"
  have "\<exists>xs. out = xs @ [[]]"
    using last_is_empty_snoc [of new] by (metis out_def)
  then obtain xs where xs: "out = xs @ [[]]" by blast
  have "join [NL] (xs @ [[]]) = (if xs = [] then [] else join [NL] xs @ [NL])"
    by (induction xs) (auto simp: join_Cons)
  then have "join [NL] out = [] \<or> last (join [NL] out) = NL" by (simp add: xs)
  then show ?thesis using Inr new by (simp add: derive_new_contents_def Let_def out_def)
qed (simp add: derive_new_contents_def)

lemma compute_from_nonoverlapping:
  assumes "compute_from ls path cs li reps = Inr reps'" and "li \<le> length ls"
    and "list_all (\<lambda>ch. old_lines ch \<noteq> [] \<and> \<not> is_end_of_file ch) cs"
  shows "\<exists>rs. reps' = reps @ rs \<and> nonoverlapping (length ls) li rs \<and> list_all2 (replaces ls) cs rs"
  using assms
proof (induction cs arbitrary: li reps)
  case (Cons ch cs)
  then obtain s l new li' where r: "chunk_replacement ls path ch li = Inr ((s, l, new), li')"
    and rest: "compute_from ls path cs li' (reps @ [(s, l, new)]) = Inr reps'"
    by (auto split: sum.splits)
  have ch: "old_lines ch \<noteq> []" "\<not> is_end_of_file ch" using Cons.prems(3) by simp_all
  note props = chunk_replacement_props [OF r Cons.prems(2)]
  have rep: "replaces ls ch (s, l, new)" "li' = s + l" "li \<le> s" "s + l \<le> length ls"
    using props(3,4) ch by (auto simp: replaces_def)
  obtain rs where rs: "reps' = (reps @ [(s, l, new)]) @ rs" "nonoverlapping (length ls) li' rs"
    "list_all2 (replaces ls) cs rs"
    using Cons.IH [OF rest] props(2) Cons.prems(3) by auto
  then show ?case using rep by (intro exI [of _ "(s, l, new) # rs"]) simp
qed simp

lemma nonoverlapping_sorted: "nonoverlapping n p rs \<Longrightarrow> sorted (map fst rs) \<and> (\<forall>r \<in> set rs. p \<le> fst r)"
proof (induction n p rs rule: nonoverlapping.induct)
  case (2 n pos s l new reps)
  then show ?case by fastforce
qed simp

text \<open>For an update whose chunks all have old lines and are not anchored at the end of the file,
  applying it replaces, for every chunk in order, one segment of the file that equals the chunk's
  old lines up to white space and typographic punctuation by the chunk's new lines, the segments
  do not overlap and follow each other, and every other line is kept.\<close>

theorem update_replaces_matched_segments:
  assumes "list_all (\<lambda>ch. old_lines ch \<noteq> [] \<and> \<not> is_end_of_file ch) cs"
    and "compute_replacements ls path cs = Inr reps"
  shows "nonoverlapping (length ls) 0 reps \<and> list_all2 (replaces ls) cs reps
     \<and> apply_replacements ls reps = Some (splice_segments 0 ls reps)"
proof -
  obtain reps0 where r0: "compute_from ls path cs 0 [] = Inr reps0" "reps = sort_key fst reps0"
    using assms(2) by (auto simp: compute_replacements_def split: sum.splits)
  have ok: "nonoverlapping (length ls) 0 reps0" "list_all2 (replaces ls) cs reps0"
    using compute_from_nonoverlapping [OF r0(1) _ assms(1)] by auto
  then have "reps = reps0" using r0(2) nonoverlapping_sorted by (metis sort_key_id_if_sorted)
  then show ?thesis using ok apply_in_order_splice [of ls 0 reps0] by (simp add: apply_replacements_def)
qed

theorem update_replaces_matched_segments_witness:
  "nonoverlapping 3 0 [(1, 1, [''B''])] \<and>
   apply_replacements [''a'', ''b '', ''c''] [(1, 1, [''B''])] = Some [''a'', ''B'', ''c'']"
proof -
  have "compute_replacements [''a'', ''b '', ''c''] ''f''
      [\<lparr>change_context = None, old_lines = [''b''], new_lines = [''B''], is_end_of_file = False\<rparr>] = Inr [(1, 1, [''B''])]"
    by code_simp
  from update_replaces_matched_segments [OF _ this] show ?thesis by simp
qed

section \<open>Behaviour that differs from what is documented or intended\<close>

text \<open>With the end-of-file flag a search looks at the last possible position only and ignores
  \<open>start\<close>: it never falls back to searching from \<open>start\<close>, although the documentation of
  \<open>seek_sequence\<close> says so.\<close>

lemma seek_eof_has_no_fallback:
  "seek_sequence [''a'', ''b''] [''a''] 0 True = None \<and> seek_sequence [''a'', ''b''] [''a''] 0 False = Some 0"
  by code_simp

text \<open>A file that ends with an empty line loses it when any other line is updated.\<close>

lemma update_drops_final_blank_line:
  "derive_new_contents (''x'' @ [NL, NL]) ''f''
     [\<lparr>change_context = None, old_lines = [''x''], new_lines = [''y''], is_end_of_file = False\<rparr>]
   = Some (Inr (''y'' @ [NL]))"
  by code_simp

text \<open>An addition without old lines is placed before a final empty line of the original file; when
  another chunk replaces a segment that ends with this line, the addition is removed with it.\<close>

lemma pure_addition_lost:
  "derive_new_contents (''a'' @ [NL, NL]) ''f''
     [\<lparr>change_context = None, old_lines = [''a'', []], new_lines = [''b''], is_end_of_file = False\<rparr>,
      \<lparr>change_context = None, old_lines = [], new_lines = [''x''], is_end_of_file = False\<rparr>]
   = Some (Inr (''b'' @ [NL]))"
  by code_simp

end
