(* ===== verification/Patch_Tool.thy ===== *)
theory Patch_Tool
  imports Patch_Apply
begin

text \<open>
  \<open>tool.rs\<close> of the \<open>apply_patch\<close> tool: the computation of all changes in memory, the preflight of
  the memory policy, and the writing phase, on an explicit file-system state. The file system
  (the trait \<open>AsyncFileSystem\<close>, directory creation) and the host's memory policy (the trait
  \<open>MemoryV2Access\<close>) are arguments: functions on the state. \<open>None\<close> is a panic.
\<close>

section \<open>Interfaces\<close>

text \<open>Every operation returns its result and the new state; a failing operation may have changed
  the state.\<close>

record 'fs fs_ops =
  fs_read_file :: "'fs \<Rightarrow> string \<Rightarrow> string + string"
  fs_write_file :: "'fs \<Rightarrow> string \<Rightarrow> string \<Rightarrow> (string + unit) \<times> 'fs"
  fs_delete_file :: "'fs \<Rightarrow> string \<Rightarrow> (string + unit) \<times> 'fs"
  fs_create_dir_all :: "'fs \<Rightarrow> string \<Rightarrow> (string + unit) \<times> 'fs"
  utf8_lossy :: "string \<Rightarrow> string"

datatype memory_v2_write = Outside | Written "string option"

record 'fs memory_access =
  mem_validate_read :: "'fs \<Rightarrow> string \<Rightarrow> string + bool"
  mem_preflight_write :: "'fs \<Rightarrow> string \<Rightarrow> string \<Rightarrow> string + bool"
  mem_write_file :: "'fs \<Rightarrow> string \<Rightarrow> string \<Rightarrow> (string + memory_v2_write) \<times> 'fs"

section \<open>Data\<close>

datatype file_change =
    Add (change_path: string) (change_content: string)
  | Delete (change_path: string) (original_content: string)
  | Update (change_path: string) (original_content: string) (new_content: string)
  | Move (source_path: string) (dest_path: string) (original_content: string) (new_content: string)

record file_written =
  tool_call_id :: string
  absolute_path :: string
  fw_content :: string
  previous_content :: "string option"
  is_new_file :: bool

record file_result =
  fr_path :: string
  action :: string
  old_text :: "string option"
  new_text :: string
  move_to :: "string option"

datatype apply_patch_output =
    Success (files: "file_result list") (tool_output_for_prompt: string)
  | ParseError string
  | ApplicationError string
  | EmptyPatch string

datatype tool_error = ExecutionError string

record 'fs tool_state =
  fs :: 'fs
  notified :: "file_written list"

section \<open>Computing the changes\<close>

definition read_file_as_string :: "'fs fs_ops \<Rightarrow> 'fs \<Rightarrow> string \<Rightarrow> string + string" where
  "read_file_as_string ops st path =
     (case fs_read_file ops st path of Inl e \<Rightarrow> Inl e | Inr bytes \<Rightarrow> Inr (utf8_lossy ops bytes))"

fun parse_error_display :: "parse_error \<Rightarrow> string" where
  "parse_error_display (InvalidPatchError m) = ''invalid patch: '' @ m"
| "parse_error_display (InvalidHunkError m n) = ''invalid hunk at line '' @ dec_of_nat n @ '', '' @ m"

fun apply_error_message :: "apply_patch_error \<Rightarrow> string" where
  "apply_error_message (ComputeReplacements msg) = msg"
| "apply_error_message (Parse e) = parse_error_display e"
| "apply_error_message (Io ctxt m p) = ctxt @ '': '' @ m"

text \<open>One hunk: the change it asks for, computed from the file as it is on disk.\<close>

fun hunk_change :: "'fs fs_ops \<Rightarrow> 'fs \<Rightarrow> string \<Rightarrow> hunk \<Rightarrow> (string + file_change) option" where
  "hunk_change ops st cwd (AddFile path cont) = Some (Inr (Add (path_join cwd path) cont))"
| "hunk_change ops st cwd (DeleteFile path) =
     (let resolved = path_join cwd path
      in case read_file_as_string ops st resolved of
           Inl e \<Rightarrow> Some (Inl (''Failed to read file: '' @ resolved @ '', '' @ e))
         | Inr orig \<Rightarrow> Some (Inr (Delete resolved orig)))"
| "hunk_change ops st cwd (UpdateFile path mv cs) =
     (let resolved = path_join cwd path
      in case read_file_as_string ops st resolved of
           Inl e \<Rightarrow> Some (Inl (''Failed to read file to update: '' @ resolved @ '', '' @ e))
         | Inr orig \<Rightarrow>
             (case derive_new_contents orig resolved cs of
                None \<Rightarrow> None
              | Some (Inl e) \<Rightarrow> Some (Inl (apply_error_message e))
              | Some (Inr new) \<Rightarrow>
                  Some (Inr (case mv of
                      Some dest \<Rightarrow> Move resolved (path_join cwd dest) orig new
                    | None \<Rightarrow> Update resolved orig new))))"

fun compute_all_changes ::
  "'fs fs_ops \<Rightarrow> 'fs \<Rightarrow> string \<Rightarrow> hunk list \<Rightarrow> file_change list \<Rightarrow> (string + file_change list) option" where
  "compute_all_changes ops st cwd [] changes = Some (Inr changes)"
| "compute_all_changes ops st cwd (h # hs) changes =
     (case hunk_change ops st cwd h of
        None \<Rightarrow> None
      | Some (Inl msg) \<Rightarrow> Some (Inl msg)
      | Some (Inr c) \<Rightarrow> compute_all_changes ops st cwd hs (changes @ [c]))"

section \<open>The memory policy\<close>

definition validate_memory_v2_read :: "'fs memory_access option \<Rightarrow> 'fs \<Rightarrow> string \<Rightarrow> string + bool" where
  "validate_memory_v2_read mem st path =
     (case mem of None \<Rightarrow> Inr False | Some access \<Rightarrow> mem_validate_read access st path)"

definition preflight_memory_v2_write ::
  "'fs memory_access option \<Rightarrow> 'fs \<Rightarrow> string \<Rightarrow> string \<Rightarrow> string + bool" where
  "preflight_memory_v2_write mem st path cont =
     (case mem of None \<Rightarrow> Inr False | Some access \<Rightarrow> mem_preflight_write access st path cont)"

definition write_memory_v2_file ::
  "'fs memory_access option \<Rightarrow> 'fs \<Rightarrow> string \<Rightarrow> string \<Rightarrow> (string + memory_v2_write) \<times> 'fs" where
  "write_memory_v2_file mem st path cont =
     (case mem of None \<Rightarrow> (Inr Outside, st) | Some access \<Rightarrow> mem_write_file access st path cont)"

definition reject_memory_v2_destructive_path ::
  "'fs memory_access option \<Rightarrow> 'fs \<Rightarrow> string \<Rightarrow> string + unit" where
  "reject_memory_v2_destructive_path mem st path =
     (case validate_memory_v2_read mem st path of
        Inl e \<Rightarrow> Inl e
      | Inr inside \<Rightarrow>
          if inside then
            Inl (path @ '' is inside a memory directory; apply_patch cannot delete or move memory files. Use the memory workflow instead: edit topic files in place or manage memories with the memory tools.'')
          else Inr ())"

fun preflight_change :: "'fs memory_access option \<Rightarrow> 'fs \<Rightarrow> file_change \<Rightarrow> string + unit" where
  "preflight_change mem st (Add path cont) =
     (case preflight_memory_v2_write mem st path cont of Inl e \<Rightarrow> Inl e | Inr _ \<Rightarrow> Inr ())"
| "preflight_change mem st (Update path orig new) =
     (case preflight_memory_v2_write mem st path new of Inl e \<Rightarrow> Inl e | Inr _ \<Rightarrow> Inr ())"
| "preflight_change mem st (Delete path orig) = reject_memory_v2_destructive_path mem st path"
| "preflight_change mem st (Move src dest orig new) =
     (case reject_memory_v2_destructive_path mem st src of
        Inl e \<Rightarrow> Inl e
      | Inr _ \<Rightarrow> reject_memory_v2_destructive_path mem st dest)"

fun preflight_memory_v2_changes ::
  "'fs memory_access option \<Rightarrow> 'fs \<Rightarrow> file_change list \<Rightarrow> string + unit" where
  "preflight_memory_v2_changes mem st [] = Inr ()"
| "preflight_memory_v2_changes mem st (c # cs) =
     (case preflight_change mem st c of
        Inl e \<Rightarrow> Inl e
      | Inr _ \<Rightarrow> preflight_memory_v2_changes mem st cs)"

definition write_via_memory_v2 ::
  "'fs memory_access option \<Rightarrow> 'fs \<Rightarrow> string \<Rightarrow> string \<Rightarrow> (string + bool) \<times> 'fs" where
  "write_via_memory_v2 mem st path cont =
     (case write_memory_v2_file mem st path cont of
        (Inl e, st') \<Rightarrow> (Inl e, st')
      | (Inr (Written _), st') \<Rightarrow> (Inr True, st')
      | (Inr Outside, st') \<Rightarrow> (Inr False, st'))"

section \<open>Writing\<close>

definition ensure_parent_dirs :: "'fs fs_ops \<Rightarrow> 'fs \<Rightarrow> string \<Rightarrow> (tool_error + unit) \<times> 'fs" where
  "ensure_parent_dirs ops st path =
     (case path_parent path of
        Some parent \<Rightarrow>
          if parent \<noteq> [] then
            (case fs_create_dir_all ops st parent of
               (Inl e, st') \<Rightarrow> (Inl (ExecutionError e), st')
             | (Inr _, st') \<Rightarrow> (Inr (), st'))
          else (Inr (), st)
      | None \<Rightarrow> (Inr (), st))"

definition write_checked :: "'fs fs_ops \<Rightarrow> 'fs \<Rightarrow> string \<Rightarrow> string \<Rightarrow> (tool_error + unit) \<times> 'fs" where
  "write_checked ops st path cont =
     (case fs_write_file ops st path cont of
        (Inl e, st') \<Rightarrow> (Inl (ExecutionError e), st')
      | (Inr _, st') \<Rightarrow> (Inr (), st'))"

definition delete_checked :: "'fs fs_ops \<Rightarrow> 'fs \<Rightarrow> string \<Rightarrow> (tool_error + unit) \<times> 'fs" where
  "delete_checked ops st path =
     (case fs_delete_file ops st path of
        (Inl e, st') \<Rightarrow> (Inl (ExecutionError e), st')
      | (Inr _, st') \<Rightarrow> (Inr (), st'))"

text \<open>How a change can stop the run: an error of the tool, or an application error as its output.\<close>

datatype run_stop = StopError tool_error | StopOutput string

definition notify_written :: "file_written \<Rightarrow> 'fs tool_state \<Rightarrow> 'fs tool_state" where
  "notify_written n s = s\<lparr>notified := notified s @ [n]\<rparr>"

fun apply_change ::
  "'fs fs_ops \<Rightarrow> 'fs memory_access option \<Rightarrow> string \<Rightarrow> file_change \<Rightarrow> 'fs tool_state
   \<Rightarrow> (run_stop + file_result) \<times> 'fs tool_state" where
  "apply_change ops mem call_id (Add path cont) s =
     (case write_via_memory_v2 mem (fs s) path cont of
        (Inl msg, f) \<Rightarrow> (Inl (StopOutput msg), s\<lparr>fs := f\<rparr>)
      | (Inr is_memory_write, f) \<Rightarrow>
          (case (if is_memory_write then (Inr (), f)
                 else (case ensure_parent_dirs ops f path of
                         (Inl e, f') \<Rightarrow> (Inl e, f')
                       | (Inr _, f') \<Rightarrow> write_checked ops f' path cont)) of
             (Inl e, f) \<Rightarrow> (Inl (StopError e), s\<lparr>fs := f\<rparr>)
           | (Inr _, f) \<Rightarrow>
               (Inr \<lparr>fr_path = path, action = ''added'', old_text = None, new_text = cont, move_to = None\<rparr>,
                notify_written \<lparr>tool_call_id = call_id, absolute_path = path, fw_content = cont,
                  previous_content = None, is_new_file = True\<rparr> (s\<lparr>fs := f\<rparr>))))"
| "apply_change ops mem call_id (Delete path orig) s =
     (case delete_checked ops (fs s) path of
        (Inl e, f) \<Rightarrow> (Inl (StopError e), s\<lparr>fs := f\<rparr>)
      | (Inr _, f) \<Rightarrow>
          (Inr \<lparr>fr_path = path, action = ''deleted'', old_text = Some orig, new_text = [], move_to = None\<rparr>,
           notify_written \<lparr>tool_call_id = call_id, absolute_path = path, fw_content = [],
             previous_content = Some orig, is_new_file = False\<rparr> (s\<lparr>fs := f\<rparr>)))"
| "apply_change ops mem call_id (Update path orig new) s =
     (case write_via_memory_v2 mem (fs s) path new of
        (Inl msg, f) \<Rightarrow> (Inl (StopOutput msg), s\<lparr>fs := f\<rparr>)
      | (Inr is_memory_write, f) \<Rightarrow>
          (case (if is_memory_write then (Inr (), f) else write_checked ops f path new) of
             (Inl e, f) \<Rightarrow> (Inl (StopError e), s\<lparr>fs := f\<rparr>)
           | (Inr _, f) \<Rightarrow>
               (Inr \<lparr>fr_path = path, action = ''modified'', old_text = Some orig, new_text = new, move_to = None\<rparr>,
                notify_written \<lparr>tool_call_id = call_id, absolute_path = path, fw_content = new,
                  previous_content = Some orig, is_new_file = False\<rparr> (s\<lparr>fs := f\<rparr>))))"
| "apply_change ops mem call_id (Move src dest orig new) s =
     (case ensure_parent_dirs ops (fs s) dest of
        (Inl e, f) \<Rightarrow> (Inl (StopError e), s\<lparr>fs := f\<rparr>)
      | (Inr _, f) \<Rightarrow>
          (case write_checked ops f dest new of
             (Inl e, f) \<Rightarrow> (Inl (StopError e), s\<lparr>fs := f\<rparr>)
           | (Inr _, f) \<Rightarrow>
               (case delete_checked ops f src of
                  (Inl e, f) \<Rightarrow> (Inl (StopError e), s\<lparr>fs := f\<rparr>)
                | (Inr _, f) \<Rightarrow>
                    (Inr \<lparr>fr_path = src, action = ''moved'', old_text = Some orig, new_text = new, move_to = Some dest\<rparr>,
                     notify_written \<lparr>tool_call_id = call_id, absolute_path = src, fw_content = [],
                       previous_content = Some orig, is_new_file = False\<rparr>
                     (notify_written \<lparr>tool_call_id = call_id, absolute_path = dest, fw_content = new,
                       previous_content = None, is_new_file = True\<rparr> (s\<lparr>fs := f\<rparr>))))))"

fun apply_changes ::
  "'fs fs_ops \<Rightarrow> 'fs memory_access option \<Rightarrow> string \<Rightarrow> file_change list \<Rightarrow> file_result list \<Rightarrow> 'fs tool_state
   \<Rightarrow> (run_stop + file_result list) \<times> 'fs tool_state" where
  "apply_changes ops mem call_id [] results s = (Inr results, s)"
| "apply_changes ops mem call_id (c # cs) results s =
     (case apply_change ops mem call_id c s of
        (Inl stop, s') \<Rightarrow> (Inl stop, s')
      | (Inr r, s') \<Rightarrow> apply_changes ops mem call_id cs (results @ [r]) s')"

definition summary_prefix :: "string \<Rightarrow> string" where
  "summary_prefix a =
     (if a = ''added'' then ''A'' else if a = ''deleted'' then ''D'' else if a = ''moved'' then ''M'' else ''M'')"

definition build_summary :: "file_result list \<Rightarrow> string" where
  "build_summary results =
     ''Success. Updated the following files:'' @ [NL]
     @ concat (map (\<lambda>r. summary_prefix (action r) @ '' '' @ fr_path r @ [NL]) results)"

definition run_apply_patch ::
  "'fs fs_ops \<Rightarrow> 'fs memory_access option \<Rightarrow> string \<Rightarrow> string \<Rightarrow> string \<Rightarrow> 'fs tool_state
   \<Rightarrow> ((tool_error + apply_patch_output) \<times> 'fs tool_state) option" where
  "run_apply_patch ops mem cwd call_id txt s =
     (case parse_patch txt of
        Inl (InvalidPatchError m) \<Rightarrow> Some (Inr (ParseError (''Invalid patch: '' @ m)), s)
      | Inl (InvalidHunkError m n) \<Rightarrow>
          Some (Inr (ParseError (''Invalid patch hunk on line '' @ dec_of_nat n @ '': '' @ m)), s)
      | Inr parsed \<Rightarrow>
          if hunks parsed = [] then Some (Inr (EmptyPatch ''No files were modified.''), s)
          else
            (case compute_all_changes ops (fs s) cwd (hunks parsed) [] of
               None \<Rightarrow> None
             | Some (Inl msg) \<Rightarrow> Some (Inr (ApplicationError msg), s)
             | Some (Inr changes) \<Rightarrow>
                 (case preflight_memory_v2_changes mem (fs s) changes of
                    Inl msg \<Rightarrow> Some (Inr (ApplicationError msg), s)
                  | Inr _ \<Rightarrow>
                      (case apply_changes ops mem call_id changes [] s of
                         (Inl (StopError e), s') \<Rightarrow> Some (Inl e, s')
                       | (Inl (StopOutput msg), s') \<Rightarrow> Some (Inr (ApplicationError msg), s')
                       | (Inr results, s') \<Rightarrow> Some (Inr (Success results (build_summary results)), s')))))"

section \<open>Nothing is written before every change is known to apply\<close>

lemma hunk_change_total: "hunk_change ops st cwd h \<noteq> None"
  by (cases h) (auto simp: Let_def derive_new_contents_never_panics split: sum.splits option.splits)

lemma compute_all_changes_total: "compute_all_changes ops st cwd hs acc \<noteq> None"
  by (induction hs arbitrary: acc) (auto simp: hunk_change_total split: option.splits sum.splits)

definition all_changes_ok ::
  "'fs fs_ops \<Rightarrow> 'fs memory_access option \<Rightarrow> string \<Rightarrow> string \<Rightarrow> 'fs \<Rightarrow> file_change list \<Rightarrow> bool" where
  "all_changes_ok ops mem cwd txt st changes \<longleftrightarrow>
     (\<exists>parsed. parse_patch txt = Inr parsed \<and> hunks parsed \<noteq> []
        \<and> compute_all_changes ops st cwd (hunks parsed) [] = Some (Inr changes)
        \<and> preflight_memory_v2_changes mem st changes = Inr ())"

lemma run_not_ok:
  assumes "\<not> (\<exists>changes. all_changes_ok ops mem cwd txt (fs s) changes)"
  shows "\<exists>out. run_apply_patch ops mem cwd call_id txt s = Some (Inr out, s) \<and> (\<forall>fr t. out \<noteq> Success fr t)"
  using assms
  by (auto simp: run_apply_patch_def all_changes_ok_def compute_all_changes_total
      split: sum.splits parse_error.splits option.splits)

lemma run_ok:
  assumes "all_changes_ok ops mem cwd txt (fs s) changes"
  shows "run_apply_patch ops mem cwd call_id txt s =
     (case apply_changes ops mem call_id changes [] s of
        (Inl (StopError e), s') \<Rightarrow> Some (Inl e, s')
      | (Inl (StopOutput msg), s') \<Rightarrow> Some (Inr (ApplicationError msg), s')
      | (Inr results, s') \<Rightarrow> Some (Inr (Success results (build_summary results)), s'))"
  using assms by (auto simp: run_apply_patch_def all_changes_ok_def)

text \<open>C37: The tool never panics, and it is atomic up to the writing phase: unless the patch parses, is
  not empty, every hunk applies to the files as they are and the memory policy accepts every
  change, the run reports an error, writes and deletes nothing and notifies nobody.\<close>

theorem apply_patch_all_or_nothing:
  "run_apply_patch ops mem cwd call_id txt s \<noteq> None
   \<and> ((\<exists>changes. all_changes_ok ops mem cwd txt (fs s) changes)
      \<or> (\<exists>out. run_apply_patch ops mem cwd call_id txt s = Some (Inr out, s) \<and> (\<nexists>fr t. out = Success fr t)))"
proof (cases "\<exists>changes. all_changes_ok ops mem cwd txt (fs s) changes")
  case True
  then show ?thesis by (auto simp: run_ok split: prod.splits sum.splits run_stop.splits)
next
  case False
  then show ?thesis using run_not_ok [OF False] by fastforce
qed

section \<open>A successful run\<close>

text \<open>The text after an update, in terms of the text before: where every chunk has old lines and none is anchored at the end
  of the file, the lines are those before with one segment per chunk, in order and without overlap, exchanged for the
  chunk's new lines, each segment reading as the chunk's old lines; the text ends with a line break unless it is empty.\<close>

definition edited_as :: "string \<Rightarrow> update_file_chunk list \<Rightarrow> string \<Rightarrow> bool" where
  "edited_as orig cs new \<longleftrightarrow>
     (list_all (\<lambda>ch. old_lines ch \<noteq> [] \<and> \<not> is_end_of_file ch) cs \<longrightarrow>
        (\<exists>reps. nonoverlapping (length (content_lines orig)) 0 reps \<and> list_all2 (replaces (content_lines orig)) cs reps
           \<and> (let ls = splice_segments 0 (content_lines orig) reps in new = join [NL] (if last_is_empty ls then ls else ls @ [[]]))))
     \<and> (new = [] \<or> last new = NL)"

lemma derived_edited_as:
  assumes "derive_new_contents orig path cs = Some (Inr new)"
  shows "edited_as orig cs new"
proof -
  obtain reps ls where r: "compute_replacements (content_lines orig) path cs = Inr reps"
    "apply_replacements (content_lines orig) reps = Some ls" "new = join [NL] (if last_is_empty ls then ls else ls @ [[]])"
    using assms by (auto simp: derive_new_contents_def Let_def split: sum.splits option.splits)
  have "new = [] \<or> last new = NL" using derive_new_contents_ends_with_newline [of orig path cs] assms by auto
  then show ?thesis unfolding edited_as_def Let_def
    using update_replaces_matched_segments [OF _ r(1)] r(2,3) by (intro conjI impI exI [of _ reps]) auto
qed

text \<open>The change a hunk asks for, where \<open>before\<close> gives the bytes of the files before the run: a file that is deleted or
  updated is there, and its old text in the change is the text of those bytes.\<close>

fun change_of_hunk :: "'fs fs_ops \<Rightarrow> (string \<Rightarrow> string option) \<Rightarrow> string \<Rightarrow> hunk \<Rightarrow> file_change \<Rightarrow> bool" where
  "change_of_hunk ops before cwd (AddFile p cont) c \<longleftrightarrow> c = Add (path_join cwd p) cont"
| "change_of_hunk ops before cwd (DeleteFile p) c \<longleftrightarrow>
     (\<exists>bytes. before (path_join cwd p) = Some bytes \<and> c = Delete (path_join cwd p) (utf8_lossy ops bytes))"
| "change_of_hunk ops before cwd (UpdateFile p mv cs) c \<longleftrightarrow>
     (\<exists>bytes new. before (path_join cwd p) = Some bytes
        \<and> derive_new_contents (utf8_lossy ops bytes) (path_join cwd p) cs = Some (Inr new)
        \<and> edited_as (utf8_lossy ops bytes) cs new
        \<and> c = (case mv of Some d \<Rightarrow> Move (path_join cwd p) (path_join cwd d) (utf8_lossy ops bytes) new
                        | None \<Rightarrow> Update (path_join cwd p) (utf8_lossy ops bytes) new))"

fun result_of_change :: "file_change \<Rightarrow> file_result" where
  "result_of_change (Add p cont) =
     \<lparr>fr_path = p, action = ''added'', old_text = None, new_text = cont, move_to = None\<rparr>"
| "result_of_change (Delete p orig) =
     \<lparr>fr_path = p, action = ''deleted'', old_text = Some orig, new_text = [], move_to = None\<rparr>"
| "result_of_change (Update p orig new) =
     \<lparr>fr_path = p, action = ''modified'', old_text = Some orig, new_text = new, move_to = None\<rparr>"
| "result_of_change (Move src dest orig new) =
     \<lparr>fr_path = src, action = ''moved'', old_text = Some orig, new_text = new, move_to = Some dest\<rparr>"

text \<open>What the code relies on of the file system: \<open>view\<close> gives the bytes of the files of a state, which a read that succeeds
  returns; a write and a deletion that succeed change exactly their file, and creating directories changes no file.\<close>

definition fs_laws :: "'fs fs_ops \<Rightarrow> ('fs \<Rightarrow> string \<Rightarrow> string option) \<Rightarrow> bool" where
  "fs_laws ops view \<longleftrightarrow>
     (\<forall>st p bytes. fs_read_file ops st p = Inr bytes \<longrightarrow> view st p = Some bytes)
     \<and> (\<forall>st p cont st'. fs_write_file ops st p cont = (Inr (), st') \<longrightarrow> view st' = (view st)(p \<mapsto> cont))
     \<and> (\<forall>st p st'. fs_delete_file ops st p = (Inr (), st') \<longrightarrow> view st' = (view st)(p := None))
     \<and> (\<forall>st p st'. fs_create_dir_all ops st p = (Inr (), st') \<longrightarrow> view st' = view st)"

lemma read_law:
  assumes "fs_laws ops view" "read_file_as_string ops st p = Inr orig"
  shows "\<exists>bytes. view st p = Some bytes \<and> orig = utf8_lossy ops bytes"
  using assms by (auto simp: fs_laws_def read_file_as_string_def split: sum.splits)

lemma hunk_change_of_hunk:
  assumes "fs_laws ops view" "hunk_change ops st cwd h = Some (Inr c)"
  shows "change_of_hunk ops (view st) cwd h c"
proof (cases h)
  case (DeleteFile p)
  then show ?thesis using assms(2) by (auto simp: Let_def split: sum.splits dest: read_law [OF assms(1)])
next
  case (UpdateFile p mv cs)
  then obtain orig new where o: "read_file_as_string ops st (path_join cwd p) = Inr orig"
    "derive_new_contents orig (path_join cwd p) cs = Some (Inr new)"
    "c = (case mv of Some d \<Rightarrow> Move (path_join cwd p) (path_join cwd d) orig new | None \<Rightarrow> Update (path_join cwd p) orig new)"
    using assms(2) by (auto simp: Let_def split: sum.splits option.splits)
  obtain bytes where "view st (path_join cwd p) = Some bytes" "orig = utf8_lossy ops bytes"
    using read_law [OF assms(1) o(1)] by blast
  then show ?thesis using o(2,3) derived_edited_as [OF o(2)] UpdateFile by auto
qed (use assms in auto)

lemma compute_all_changes_hunks:
  assumes "fs_laws ops view"
  shows "compute_all_changes ops st cwd hs acc = Some (Inr cs) \<Longrightarrow>
     \<exists>cs'. cs = acc @ cs' \<and> list_all2 (change_of_hunk ops (view st) cwd) hs cs'"
proof (induction hs arbitrary: acc)
  case (Cons h hs)
  then obtain c where c: "hunk_change ops st cwd h = Some (Inr c)"
    "compute_all_changes ops st cwd hs (acc @ [c]) = Some (Inr cs)"
    by (auto split: option.splits sum.splits)
  then obtain cs' where "cs = (acc @ [c]) @ cs'" "list_all2 (change_of_hunk ops (view st) cwd) hs cs'"
    using Cons.IH by blast
  then show ?case using hunk_change_of_hunk [OF assms c(1)] by (intro exI [of _ "c # cs'"]) simp
qed simp

fun change_effect :: "file_change \<Rightarrow> (string \<Rightarrow> string option) \<Rightarrow> (string \<Rightarrow> string option)" where
  "change_effect (Add p cont) v = v(p \<mapsto> cont)"
| "change_effect (Delete p orig) v = v(p := None)"
| "change_effect (Update p orig new) v = v(p \<mapsto> new)"
| "change_effect (Move src dest orig new) v = (v(dest \<mapsto> new))(src := None)"

lemma fs_lawsD:
  assumes "fs_laws ops view"
  shows "write_checked ops st p cont = (Inr (), st') \<Longrightarrow> view st' = (view st)(p \<mapsto> cont)"
    and "delete_checked ops st p = (Inr (), st') \<Longrightarrow> view st' = (view st)(p := None)"
    and "ensure_parent_dirs ops st p = (Inr (), st') \<Longrightarrow> view st' = view st"
  using assms
  by (auto simp: fs_laws_def write_checked_def delete_checked_def ensure_parent_dirs_def
      split: prod.splits sum.splits option.splits if_splits)

lemma apply_change_effect:
  assumes "fs_laws ops view" and "apply_change ops None call_id c s = (Inr r, s')"
  shows "view (fs s') = change_effect c (view (fs s)) \<and> r = result_of_change c"
  using assms(2)
  by (cases c)
    (auto simp: write_via_memory_v2_def write_memory_v2_file_def notify_written_def
      split: prod.splits sum.splits dest!: fs_lawsD [OF assms(1)])

lemma apply_changes_effect:
  assumes "fs_laws ops view" and "apply_changes ops None call_id cs acc s = (Inr rs, s')"
  shows "view (fs s') = fold change_effect cs (view (fs s)) \<and> rs = acc @ map result_of_change cs"
  using assms(2)
proof (induction cs arbitrary: acc s)
  case (Cons c cs)
  then obtain r s1 where r: "apply_change ops None call_id c s = (Inr r, s1)"
    "apply_changes ops None call_id cs (acc @ [r]) s1 = (Inr rs, s')"
    by (auto split: prod.splits sum.splits)
  then show ?case using Cons.IH [OF r(2)] apply_change_effect [OF assms(1) r(1)] by simp
qed simp


section \<open>A concrete file system\<close>

text \<open>A map from paths to contents in which reading or deleting a missing file fails.\<close>

definition map_fs :: "(string \<Rightarrow> string option) fs_ops" where
  "map_fs = \<lparr>
     fs_read_file = (\<lambda>st p. case st p of None \<Rightarrow> Inl ''not found'' | Some c \<Rightarrow> Inr c),
     fs_write_file = (\<lambda>st p c. (Inr (), st(p \<mapsto> c))),
     fs_delete_file = (\<lambda>st p. case st p of None \<Rightarrow> (Inl ''not found'', st) | Some _ \<Rightarrow> (Inr (), st(p := None))),
     fs_create_dir_all = (\<lambda>st p. (Inr (), st)),
     utf8_lossy = (\<lambda>s. s)\<rparr>"

definition one_file :: "string \<Rightarrow> (string \<Rightarrow> string option) tool_state" where
  "one_file cont = \<lparr>fs = (\<lambda>p. if p = ''/w/a'' then Some cont else None), notified = []\<rparr>"

definition patch_text :: "string list \<Rightarrow> string" where
  "patch_text ls = join [NL] ([BEGIN_PATCH_MARKER] @ ls @ [END_PATCH_MARKER])"

definition final_contents :: "string \<Rightarrow> string list \<Rightarrow> string \<Rightarrow> string option option" where
  "final_contents cont ls path =
     (case run_apply_patch map_fs None ''/w'' ''c1'' (patch_text ls) (one_file cont) of
        Some (Inr (Success _ _), s') \<Rightarrow> Some (fs s' path)
      | _ \<Rightarrow> None)"

lemma map_fs_laws: "fs_laws map_fs (\<lambda>st. st)"
  by (auto simp: fs_laws_def map_fs_def split: option.splits)


section \<open>Behaviour that loses changes\<close>

text \<open>Two update sections for one file: both are computed from the file on disk and the second
  overwrites the first, whose change is lost.\<close>

lemma second_update_loses_first:
  "final_contents (''x'' @ [NL] @ ''p'' @ [NL])
     [''*** Update File: a'', ''-x'', ''+y'', ''*** Update File: a'', ''-p'', ''+q''] ''/w/a''
   = Some (Some (''x'' @ [NL] @ ''q'' @ [NL]))"
  by code_simp

text \<open>An update that moves a file onto itself writes the new contents and then deletes the file.\<close>

lemma move_onto_itself_deletes:
  "final_contents (''x'' @ [NL]) [''*** Update File: a'', ''*** Move to: a'', ''-x'', ''+y''] ''/w/a'' = Some None"
  by code_simp

end
