(* ===== verification/Shell_Tree.thy ===== *)
theory Shell_Tree
  imports Prelude
begin

text \<open>
  Decomposition of a shell script into its plain commands
  (\<open>permission/bash_command_splitting.rs\<close> of the workspace crate).

  The script is parsed by tree-sitter, a library: the parser is an argument of the definitions, a
  function from the script to a syntax tree. The nodes are as that library presents them, with a kind, a flag for named nodes, the
  name of the field they fill in their parent, a byte range, and children. The code walks the tree with a stack, refuses every kind of node that is not
  on its list, and reads the words of each command node. The theory shows that the walk is
  complete: when the decomposition succeeds, no node of the tree has a kind that is not on the list
  and every command node is among the commands returned, in source order.
\<close>

section \<open>Syntax trees\<close>

datatype ts_node =
  Node (kind: string) (is_named: bool) (node_field: "string option") (start_byte: nat) (end_byte: nat) (node_children: "ts_node list")

record ts_tree =
  root_node :: ts_node
  has_error :: bool

type_synonym shell_parser = "string \<Rightarrow> ts_tree option"

definition named_children :: "ts_node \<Rightarrow> ts_node list" where
  "named_children n = filter is_named (node_children n)"

definition node_child :: "ts_node \<Rightarrow> nat \<Rightarrow> ts_node option" where
  "node_child n i = (if i < length (node_children n) then Some (node_children n ! i) else None)"

definition named_child :: "ts_node \<Rightarrow> nat \<Rightarrow> ts_node option" where
  "named_child n i = (if i < length (named_children n) then Some (named_children n ! i) else None)"

definition child_by_field_name :: "ts_node \<Rightarrow> string \<Rightarrow> ts_node option" where
  "child_by_field_name n f = List.find (\<lambda>c. node_field c = Some f) (node_children n)"

text \<open>\<open>utf8_text\<close>: the bytes of the node, when they are whole characters of the source.\<close>

definition utf8_text :: "ts_node \<Rightarrow> string \<Rightarrow> string option" where
  "utf8_text n src =
     (if start_byte n \<le> end_byte n \<and> end_byte n \<le> length src
         \<and> is_char_boundary src (start_byte n) \<and> is_char_boundary src (end_byte n)
      then Some (take (end_byte n - start_byte n) (drop (start_byte n) src)) else None)"

section \<open>Plain commands\<close>

record plain_command =
  words :: "string list"
  span_start :: nat
  span_end :: nat

text \<open>\<open>script.get(..n)\<close> and \<open>script.get(n..)\<close>\<close>

definition get_to :: "string \<Rightarrow> nat \<Rightarrow> string option" where
  "get_to s n = (if n \<le> length s \<and> is_char_boundary s n then Some (take n s) else None)"

definition get_from :: "string \<Rightarrow> nat \<Rightarrow> string option" where
  "get_from s n = (if n \<le> length s \<and> is_char_boundary s n then Some (drop n s) else None)"

definition spans_whole_script :: "plain_command \<Rightarrow> string \<Rightarrow> bool" where
  "spans_whole_script c script =
     (case (get_to script (span_start c), get_from script (span_end c)) of
        (Some before, Some after) \<Rightarrow> trim before = [] \<and> trim after = []
      | _ \<Rightarrow> False)"

text \<open>The state of the loop over the children of a command: the words so far and the span.\<close>

type_synonym word_scan = "string list \<times> nat option \<times> nat option"

definition push_word :: "word_scan \<Rightarrow> string \<Rightarrow> ts_node \<Rightarrow> word_scan" where
  "push_word sc txt0 n = (case sc of (ws, st, en) \<Rightarrow>
     (ws @ [txt0], (case st of None \<Rightarrow> Some (start_byte n) | Some a \<Rightarrow> Some a), Some (end_byte n)))"

definition is_simple_string :: "ts_node \<Rightarrow> bool" where
  "is_simple_string n \<longleftrightarrow> length (node_children n) = 3
     \<and> map_option kind (node_child n 0) = Some [CHR 0x22]
     \<and> map_option kind (node_child n 1) = Some ''string_content''
     \<and> map_option kind (node_child n 2) = Some [CHR 0x22]"

definition command_child :: "string \<Rightarrow> word_scan \<Rightarrow> ts_node \<Rightarrow> word_scan option" where
  "command_child src sc n =
     (if kind n = ''variable_assignment'' then Some sc
      else if kind n = ''command_name'' then
        (case named_child n 0 of
           None \<Rightarrow> None
         | Some w \<Rightarrow>
             if kind w \<noteq> ''word'' then None
             else map_option (\<lambda>t. push_word sc t w) (utf8_text w src))
      else if kind n = ''word'' \<or> kind n = ''number'' then
        map_option (\<lambda>t. push_word sc t n) (utf8_text n src)
      else if kind n = ''string'' \<and> is_simple_string n then
        (case node_child n 1 of
           None \<Rightarrow> None
         | Some content \<Rightarrow> map_option (\<lambda>t. push_word sc t n) (utf8_text content src))
      else if kind n = ''raw_string'' then
        (case utf8_text n src of
           None \<Rightarrow> None
         | Some raw \<Rightarrow>
             (case Option.bind (strip_prefix [CHR 0x27] raw) (strip_suffix [CHR 0x27]) of
                None \<Rightarrow> None
              | Some s \<Rightarrow> Some (push_word sc s n)))
      else if kind n = ''concatenation'' then
        map_option (\<lambda>t. push_word sc t n) (utf8_text n src)
      else None)"

fun command_children :: "string \<Rightarrow> word_scan \<Rightarrow> ts_node list \<Rightarrow> word_scan option" where
  "command_children src sc [] = Some sc"
| "command_children src sc (n # ns) = (case command_child src sc n of
     None \<Rightarrow> None | Some sc' \<Rightarrow> command_children src sc' ns)"

definition parse_plain_command_from_node :: "ts_node \<Rightarrow> string \<Rightarrow> plain_command option" where
  "parse_plain_command_from_node cmd src =
     (if kind cmd \<noteq> ''command'' then None
      else case command_children src ([], None, None) (named_children cmd) of
        None \<Rightarrow> None
      | Some (ws, st, en) \<Rightarrow>
          Some \<lparr>words = ws,
                span_start = (case st of None \<Rightarrow> start_byte cmd | Some a \<Rightarrow> a),
                span_end = (case en of None \<Rightarrow> end_byte cmd | Some b \<Rightarrow> b)\<rparr>)"

section \<open>The walk over the tree\<close>

definition ALLOWED_KINDS :: "string list" where
  "ALLOWED_KINDS =
     [''program'', ''list'', ''pipeline'', ''command'', ''command_name'', ''word'', ''string'',
      ''string_content'', ''raw_string'', ''number'', ''concatenation'', ''variable_assignment'',
      ''variable_name'', ''redirected_statement'', ''file_redirect'', ''file_descriptor'', ''comment'',
      ''heredoc_redirect'', ''heredoc_start'', ''heredoc_body'', ''heredoc_content'', ''heredoc_end'']"

definition ALLOWED_PUNCT_TOKENS :: "string list" where
  "ALLOWED_PUNCT_TOKENS =
     [''&&'', ''||'', '';'', ''|'', [CHR 0x22], [CHR 0x27], ''='', ''>'', ''>>'', ''<'', ''<<'',
      ''>&'', ''&>'', ''&>>'']"

definition node_allowed :: "ts_node \<Rightarrow> bool" where
  "node_allowed n =
     (if is_named n then kind n \<in> set ALLOWED_KINDS
      else \<not> (list_ex (\<lambda>c. c \<in> set ''&;|'') (kind n) \<and> kind n \<notin> set ALLOWED_PUNCT_TOKENS)
         \<and> (kind n \<in> set ALLOWED_PUNCT_TOKENS \<or> trim (kind n) = []))"

definition is_command_node :: "ts_node \<Rightarrow> bool" where
  "is_command_node n \<longleftrightarrow> is_named n \<and> kind n = ''command''"

text \<open>The loop over the stack, whose top is the head of the list: \<open>None\<close> is the early return.\<close>

fun node_weight :: "ts_node \<Rightarrow> nat" where
  "node_weight (Node k nm f a b cs) = Suc (sum_list (map node_weight cs))"

function walk_nodes :: "ts_node list \<Rightarrow> ts_node list \<Rightarrow> ts_node list option" where
  "walk_nodes [] command_nodes = Some command_nodes"
| "walk_nodes (n # stack) command_nodes =
     (if \<not> node_allowed n then None
      else walk_nodes (rev (node_children n) @ stack)
             (if is_command_node n then command_nodes @ [n] else command_nodes))"
  by pat_completeness auto
termination
proof (relation "measure (\<lambda>(stack, acc). sum_list (map node_weight stack))")
  fix n :: ts_node and stack acc
  have "sum_list (map node_weight (rev (node_children n))) < node_weight n"
    by (cases n) (simp add: rev_map [symmetric])
  then show "((rev (node_children n) @ stack, if is_command_node n then acc @ [n] else acc), n # stack, acc)
      \<in> measure (\<lambda>(stack, acc). sum_list (map node_weight stack))"
    by simp
qed simp

fun parse_commands :: "string \<Rightarrow> ts_node list \<Rightarrow> plain_command list option" where
  "parse_commands src [] = Some []"
| "parse_commands src (n # ns) = (case parse_plain_command_from_node n src of
     None \<Rightarrow> None
   | Some c \<Rightarrow> map_option ((#) c) (parse_commands src ns))"

definition try_parse_word_only_commands_sequence :: "ts_tree \<Rightarrow> string \<Rightarrow> plain_command list option" where
  "try_parse_word_only_commands_sequence tree src =
     (if has_error tree then None
      else case walk_nodes [root_node tree] [] of
        None \<Rightarrow> None
      | Some command_nodes \<Rightarrow> parse_commands src (sort_key start_byte command_nodes))"

definition all_commands_from_script :: "shell_parser \<Rightarrow> string \<Rightarrow> plain_command list option" where
  "all_commands_from_script try_parse_shell script =
     Option.bind (try_parse_shell script) (\<lambda>tree. try_parse_word_only_commands_sequence tree script)"

section \<open>The walk visits every node\<close>

fun all_nodes :: "ts_node \<Rightarrow> ts_node list" where
  "all_nodes (Node k nm f a b cs) = Node k nm f a b cs # concat (map all_nodes cs)"

lemma all_nodes_unfold: "all_nodes n = n # concat (map all_nodes (node_children n))"
  by (cases n) simp

lemma mset_concat_rev_map: "mset (concat (map f (rev xs))) = mset (concat (map f xs))"
  by (induction xs) auto

lemma walk_nodes_Some:
  assumes "walk_nodes stack acc = Some ns"
  shows "list_all node_allowed (concat (map all_nodes stack))
       \<and> mset ns = mset acc + mset (filter is_command_node (concat (map all_nodes stack)))"
  using assms
proof (induction stack acc rule: walk_nodes.induct)
  case (2 n stack acc)
  have n: "node_allowed n" using 2(2) by (auto split: if_splits)
  let ?acc = "if is_command_node n then acc @ [n] else acc"
  have "walk_nodes (rev (node_children n) @ stack) ?acc = Some ns" using 2(2) n by simp
  then have ih: "list_all node_allowed (concat (map all_nodes (rev (node_children n) @ stack)))"
    "mset ns = mset ?acc + mset (filter is_command_node (concat (map all_nodes (rev (node_children n) @ stack))))"
    using 2(1) n by blast+
  have "mset (filter is_command_node (concat (map all_nodes (rev (node_children n))))) =
      mset (filter is_command_node (concat (map all_nodes (node_children n))))"
    by (metis mset_concat_rev_map mset_filter)
  then show ?case using ih n
    by (auto simp: all_nodes_unfold [of n] list_all_iff)
qed simp

lemma walk_nodes_None:
  "walk_nodes stack acc = None \<longleftrightarrow> \<not> list_all node_allowed (concat (map all_nodes stack))"
proof (induction stack acc rule: walk_nodes.induct)
  case (2 n stack acc)
  show ?case
  proof (cases "node_allowed n")
    case True
    then show ?thesis using 2 by (simp add: all_nodes_unfold [of n] list_all_iff)
  qed (simp add: all_nodes_unfold [of n])
qed simp

lemma parse_commands_Some:
  "parse_commands src ns = Some cs \<longleftrightarrow> map (\<lambda>n. parse_plain_command_from_node n src) ns = map Some cs"
  by (induction ns arbitrary: cs) (auto split: option.splits simp: Cons_eq_map_conv)

text \<open>C14: Decomposing a script hides nothing. When the decomposition of a syntax tree succeeds, the
  tree has no error and every node of it is of an allowed kind; and the commands that are returned
  are exactly the command nodes of the tree, each read by the word reader, once each, in the order
  of the source. A command substitution, a subshell, a background job or a control structure
  anywhere in the tree therefore makes the decomposition fail.\<close>

theorem decomposition_complete:
  assumes "try_parse_word_only_commands_sequence tree src = Some cs"
  shows "\<not> has_error tree
    \<and> (\<forall>n \<in> set (all_nodes (root_node tree)). node_allowed n)
    \<and> (\<exists>ns. mset ns = mset (filter is_command_node (all_nodes (root_node tree)))
          \<and> sorted (map start_byte ns)
          \<and> map (\<lambda>n. parse_plain_command_from_node n src) ns = map Some cs)"
proof -
  obtain ns where ns: "\<not> has_error tree" "walk_nodes [root_node tree] [] = Some ns"
    "parse_commands src (sort_key start_byte ns) = Some cs"
    using assms by (auto simp: try_parse_word_only_commands_sequence_def split: if_splits option.splits)
  note w = walk_nodes_Some [OF ns(2)]
  have "mset (sort_key start_byte ns) = mset (filter is_command_node (all_nodes (root_node tree)))"
    using w by simp
  moreover have "sorted (map start_byte (sort_key start_byte ns))" by simp
  moreover have "map (\<lambda>n. parse_plain_command_from_node n src) (sort_key start_byte ns) = map Some cs"
    using ns(3) by (simp add: parse_commands_Some)
  ultimately have "\<exists>ns. mset ns = mset (filter is_command_node (all_nodes (root_node tree)))
      \<and> sorted (map start_byte ns) \<and> map (\<lambda>n. parse_plain_command_from_node n src) ns = map Some cs"
    by blast
  then show ?thesis using w ns(1) by (simp add: list_all_iff)
qed

definition demo_tree :: ts_tree where
  "demo_tree =
     \<lparr>root_node = Node ''program'' True None 0 8
        [Node ''list'' True None 0 8
          [Node ''command'' True None 0 2 [Node ''command_name'' True (Some ''name'') 0 2 [Node ''word'' True None 0 2 []]],
           Node ''&&'' False None 3 5 [],
           Node ''command'' True None 6 8 [Node ''command_name'' True (Some ''name'') 6 8 [Node ''word'' True None 6 8 []]]]],
      has_error = False\<rparr>"

lemma demo_tree_parsed:
  "try_parse_word_only_commands_sequence demo_tree ''cd && ls'' =
     Some [\<lparr>words = [''cd''], span_start = 0, span_end = 2\<rparr>, \<lparr>words = [''ls''], span_start = 6, span_end = 8\<rparr>]"
  by code_simp

theorem decomposition_complete_witness:
  "\<not> has_error demo_tree \<and> node_allowed (Node ''&&'' False None 3 5 [])
   \<and> try_parse_word_only_commands_sequence demo_tree ''cd && ls'' \<noteq> None"
proof -
  have "Node ''&&'' False None 3 5 [] \<in> set (all_nodes (root_node demo_tree))" by (simp add: demo_tree_def)
  then show ?thesis using decomposition_complete [OF demo_tree_parsed] by (simp add: demo_tree_parsed)
qed

end
