(* ===== verification/Shell_Words.thy ===== *)
theory Shell_Words
  imports Shell_Tree
begin

text \<open>
  Peeling a command down to what it runs (\<open>permission/bash_command_splitting.rs\<close> of the workspace
  crate): wrappers such as \<open>timeout 30\<close> or \<open>env -i A=1\<close>, and the prefixes \<open>exec\<close>, \<open>command\<close> and
  \<open>builtin\<close> that the shell sees through.

  The source peels slices of the word list by an index; a slice is here the suffix of the list that
  it denotes. Every peel has a budget, and running out of it, an option whose arity is not known,
  and a packed \<open>env -S\<close> script are reported in flags, on which the callers ask. The theory shows
  that peeling only ever drops words from the front, and that a result without flags is the unique
  normal form of the one-layer peel, so nothing is left that hides another command; and that eight
  layers are always within the budget.
\<close>

section \<open>Words\<close>

text \<open>\<open>w.rsplit(['/', '\']).next()\<close>\<close>

definition base_name :: "string \<Rightarrow> string" where
  "base_name w = rev (takeWhile (\<lambda>c. c \<noteq> CHR ''/'' \<and> c \<noteq> CHR 0x5C) (rev w))"

definition head_name :: "string list \<Rightarrow> string option" where
  "head_name cmd = (case cmd of [] \<Rightarrow> None | w # _ \<Rightarrow> Some (base_name w))"

definition is_setup_command :: "string list \<Rightarrow> bool" where
  "is_setup_command cmd = (case cmd of [] \<Rightarrow> True
     | w # _ \<Rightarrow> w \<in> set [''cd'', ''pushd'', ''popd'', ''export'', ''unset'', ''set'', ''sleep'', ''timeout''])"

definition is_env_assignment :: "string \<Rightarrow> bool" where
  "is_env_assignment tok = (case split_once (CHR ''='') tok of
     None \<Rightarrow> False
   | Some (name, _) \<Rightarrow> name \<noteq> []
       \<and> (is_ascii_alphabetic (hd name) \<or> hd name = CHR ''_'')
       \<and> list_all (\<lambda>b. is_ascii_alphanumeric b \<or> b = CHR ''_'') name)"

text \<open>Reading a quoted spelling. The argument \<open>quote\<close> is the quote that is open.\<close>

fun decode_from :: "char option \<Rightarrow> string \<Rightarrow> string \<Rightarrow> string option" where
  "decode_from quote out [] = (if quote = None then Some out else None)"
| "decode_from quote out (ch # rest) =
     (if quote = None \<and> (ch = CHR 0x27 \<or> ch = CHR 0x22) then decode_from (Some ch) out rest
      else if quote = Some ch then decode_from None out rest
      else if quote = None \<and> ch = CHR 0x5C then
        (case rest of [] \<Rightarrow> None | n # rest' \<Rightarrow> decode_from quote (out @ [n]) rest')
      else if quote = Some (CHR 0x22) \<and> ch = CHR 0x5C then
        (case rest of [] \<Rightarrow> None
         | n # rest' \<Rightarrow>
             if n \<in> set [CHR ''$'', CHR 0x60, CHR 0x22, CHR 0x5C, NL]
             then decode_from quote (out @ [n]) rest'
             else decode_from quote (out @ [CHR 0x5C, n]) rest')
      else decode_from quote (out @ [ch]) rest)"

definition decode_shell_literal_spelling :: "string \<Rightarrow> string option" where
  "decode_shell_literal_spelling raw = decode_from None [] raw"

definition decode_env_option_token :: "string \<Rightarrow> string" where
  "decode_env_option_token raw =
     (if CHR 0x27 \<notin> set raw \<and> CHR 0x22 \<notin> set raw then raw
      else case decode_shell_literal_spelling raw of Some d \<Rightarrow> d | None \<Rightarrow> raw)"

definition is_high_confidence_env_s_payload :: "string \<Rightarrow> bool" where
  "is_high_confidence_env_s_payload s \<longleftrightarrow> s \<noteq> [] \<and> CHR 0x00 \<notin> set s
     \<and> \<not> list_ex (\<lambda>c. c \<in> set [CHR 0x27, CHR 0x22, CHR 0x5C, CHR ''#'', CHR 0x60, CHR ''$'', NL, CR]) s"

definition take_high_confidence_payload :: "string \<Rightarrow> string option" where
  "take_high_confidence_payload raw = (if is_high_confidence_env_s_payload raw then Some raw else None)"

section \<open>The options of env\<close>

datatype env_short =
    SplitStringNext
  | SplitStringGlued string
  | SplitStringDetect
  | NoArg
  | ArgNeedNext char
  | ArgGlued char
  | Uncertain

fun classify_cluster :: "string \<Rightarrow> env_short" where
  "classify_cluster [] = NoArg"
| "classify_cluster (c # cs) =
     (if c \<in> set ''iv0'' then classify_cluster cs
      else if c = CHR ''S'' then SplitStringDetect
      else if c \<in> set ''uCPa'' then (if cs \<noteq> [] then ArgGlued c else ArgNeedNext c)
      else Uncertain)"

definition classify_env_short :: "string \<Rightarrow> env_short" where
  "classify_env_short tok =
     (if \<not> starts_with tok ''-'' \<or> starts_with tok ''--'' \<or> tok = ''-'' then Uncertain
      else (let body = drop 1 tok
            in if body = [] then Uncertain
               else case strip_prefix ''S'' body of
                 Some rest \<Rightarrow> if rest = [] then SplitStringNext else SplitStringGlued rest
               | None \<Rightarrow> classify_cluster body))"

record env_scan_result =
  chdir :: "string option"
  has_split_string :: bool
  options_uncertain :: bool
  split_string_script :: "string option"
  command_start :: nat

text \<open>One turn of the scanning loop: it leaves the loop, or goes on after some words.\<close>

datatype env_turn = Break env_scan_result | Advance nat env_scan_result

definition uncertain :: "env_scan_result \<Rightarrow> env_turn" where
  "uncertain sc = Break (sc\<lparr>options_uncertain := True\<rparr>)"

text \<open>\<open>take_option_operand\<close>: an option with a required operand, the next word.\<close>

definition take_option_operand :: "string list \<Rightarrow> (string \<Rightarrow> env_scan_result) \<Rightarrow> env_scan_result \<Rightarrow> env_turn" where
  "take_option_operand rest f sc = (case rest of v # _ \<Rightarrow> Advance 2 (f v) | [] \<Rightarrow> uncertain sc)"

definition split_next :: "env_scan_result \<Rightarrow> string list \<Rightarrow> env_turn" where
  "split_next sc rest =
     Break (case rest of
        raw # _ \<Rightarrow> sc\<lparr>has_split_string := True, split_string_script := take_high_confidence_payload raw\<rparr>
      | [] \<Rightarrow> sc\<lparr>has_split_string := True\<rparr>)"

definition split_glued :: "env_scan_result \<Rightarrow> string \<Rightarrow> env_turn" where
  "split_glued sc payload =
     Break (sc\<lparr>has_split_string := True, split_string_script := take_high_confidence_payload payload\<rparr>)"

definition env_long_option :: "env_scan_result \<Rightarrow> string \<Rightarrow> string list \<Rightarrow> env_turn" where
  "env_long_option sc tok rest =
     (if tok = ''--chdir'' then take_option_operand rest (\<lambda>d. sc\<lparr>chdir := Some d\<rparr>) sc
      else case strip_prefix ''--chdir='' tok of
        Some d \<Rightarrow> Advance 1 (sc\<lparr>chdir := Some d\<rparr>)
      | None \<Rightarrow>
          if tok \<in> set [''--unset'', ''--path'', ''--argv0''] then take_option_operand rest (\<lambda>_. sc) sc
          else if list_ex (starts_with tok) [''--unset='', ''--path='', ''--argv0=''] then Advance 1 sc
          else if tok \<in> set [''--ignore-environment'', ''--null'', ''--debug'', ''--version'', ''--help'']
            then Advance 1 sc
          else if tok = ''--split-string'' then split_next sc rest
          else (case strip_prefix ''--split-string='' tok of
             Some payload \<Rightarrow>
               split_glued sc (case strip_prefix ''--split-string='' (decode_env_option_token tok) of
                 Some p \<Rightarrow> p | None \<Rightarrow> payload)
           | None \<Rightarrow> uncertain sc))"

definition env_short_option :: "env_scan_result \<Rightarrow> string \<Rightarrow> string list \<Rightarrow> env_turn" where
  "env_short_option sc tok rest =
     (case classify_env_short (decode_env_option_token tok) of
        SplitStringNext \<Rightarrow> split_next sc rest
      | SplitStringGlued payload \<Rightarrow> split_glued sc payload
      | SplitStringDetect \<Rightarrow> Break (sc\<lparr>has_split_string := True\<rparr>)
      | NoArg \<Rightarrow> Advance 1 sc
      | ArgNeedNext k \<Rightarrow>
          take_option_operand rest (\<lambda>v. if k = CHR ''C'' then sc\<lparr>chdir := Some v\<rparr> else sc) sc
      | ArgGlued k \<Rightarrow>
          Advance 1 (if k = CHR ''C''
            then sc\<lparr>chdir := Some (case strip_prefix ''-C'' tok of Some d \<Rightarrow> d | None \<Rightarrow> [])\<rparr> else sc)
      | Uncertain \<Rightarrow> uncertain sc)"

definition env_turn_of :: "env_scan_result \<Rightarrow> string \<Rightarrow> string list \<Rightarrow> env_turn" where
  "env_turn_of sc tok rest =
     (if tok = ''--'' then Break (sc\<lparr>command_start := command_start sc + 1\<rparr>)
      else if tok = ''-'' then Advance 1 sc
      else if \<not> starts_with tok ''-'' then
        (if is_env_assignment tok then Advance 1 sc else Break sc)
      else if starts_with tok ''--'' then env_long_option sc tok rest
      else env_short_option sc tok rest)"

function env_scan_from :: "env_scan_result \<Rightarrow> string list \<Rightarrow> env_scan_result" where
  "env_scan_from sc [] = sc"
| "env_scan_from sc (tok # rest) =
     (case env_turn_of sc tok rest of
        Break sc' \<Rightarrow> sc'
      | Advance n sc' \<Rightarrow> env_scan_from (sc'\<lparr>command_start := command_start sc' + n\<rparr>) (drop (n - 1) rest))"
  by pat_completeness auto
termination
  by (relation "measure (\<lambda>(sc, ws). length ws)") auto

definition env_scan :: "string list \<Rightarrow> env_scan_result" where
  "env_scan cmd =
     env_scan_from \<lparr>chdir = None, has_split_string = False, options_uncertain = False,
       split_string_script = None, command_start = 1\<rparr> (tl cmd)"

definition env_split_string_script :: "string list \<Rightarrow> string option" where
  "env_split_string_script ws =
     (if head_name ws \<noteq> Some ''env'' then None
      else if \<not> has_split_string (env_scan ws) then None
      else split_string_script (env_scan ws))"

section \<open>Wrappers\<close>

text \<open>Skipping the options of a wrapper; the options in \<open>two\<close> take the next word too.\<close>

function skip_options :: "string list \<Rightarrow> string list \<Rightarrow> string list" where
  "skip_options two [] = []"
| "skip_options two (w # ws) =
     (if starts_with w ''-'' then skip_options two (if w \<in> set two then drop 1 ws else ws) else w # ws)"
  by pat_completeness auto
termination
  by (relation "measure (\<lambda>(two, ws). length ws)") auto

definition non_empty_words :: "string list \<Rightarrow> string list option" where
  "non_empty_words ws = (if ws = [] then None else Some ws)"

definition IONICE_VALUE_OPTIONS :: "string list" where
  "IONICE_VALUE_OPTIONS =
     [''-c'', ''-n'', ''-p'', ''-P'', ''-u'', ''--class'', ''--classdata'', ''--pid'', ''--pgid'', ''--uid'']"

definition strip_wrapper_command :: "string list \<Rightarrow> string list option" where
  "strip_wrapper_command cmd =
     (case head_name cmd of
        None \<Rightarrow> None
      | Some head \<Rightarrow>
          if head = ''timeout'' then
            (case skip_options [''-k'', ''-s'', ''--kill-after'', ''--signal''] (tl cmd) of
               [] \<Rightarrow> None | _ # inner \<Rightarrow> non_empty_words inner)
          else if head = ''nice'' then non_empty_words (skip_options [''-n'', ''--adjustment''] (tl cmd))
          else if head = ''ionice'' then non_empty_words (skip_options IONICE_VALUE_OPTIONS (tl cmd))
          else if head = ''chrt'' then
            (case skip_options [] (tl cmd) of [] \<Rightarrow> None | _ # inner \<Rightarrow> non_empty_words inner)
          else if head = ''stdbuf'' then non_empty_words (skip_options [''-i'', ''-o'', ''-e''] (tl cmd))
          else if head = ''env'' then
            (let scan = env_scan cmd
             in if has_split_string scan \<or> options_uncertain scan then None
                else non_empty_words (drop (command_start scan) cmd))
          else None)"

definition is_wrapper_command :: "string list \<Rightarrow> bool" where
  "is_wrapper_command ws = (case head_name ws of None \<Rightarrow> False
     | Some h \<Rightarrow> h \<in> set [''timeout'', ''nice'', ''ionice'', ''chrt'', ''stdbuf'', ''env''])"

definition MAX_WRAPPER_DEPTH :: nat where "MAX_WRAPPER_DEPTH = 8"
definition MAX_INLINE_SHELL_DEPTH :: nat where "MAX_INLINE_SHELL_DEPTH = 8"

record checked_wrapper_peel =
  peel_words :: "string list"
  peel_chdir :: bool
  peel_split_string :: bool
  peel_uncertain :: bool
  peel_exhausted :: bool

fun unwrap_loop :: "nat \<Rightarrow> checked_wrapper_peel \<Rightarrow> checked_wrapper_peel" where
  "unwrap_loop 0 p =
     p\<lparr>peel_exhausted := is_wrapper_command (peel_words p) \<and> strip_wrapper_command (peel_words p) \<noteq> None\<rparr>"
| "unwrap_loop (Suc k) p =
     (let current = peel_words p;
          p1 = (if head_name current = Some ''env''
                then (let scan = env_scan current
                      in p\<lparr>peel_chdir := peel_chdir p \<or> chdir scan \<noteq> None,
                           peel_split_string := peel_split_string p \<or> has_split_string scan,
                           peel_uncertain := peel_uncertain p \<or> options_uncertain scan\<rparr>)
                else p)
      in case strip_wrapper_command current of
           Some inner \<Rightarrow> unwrap_loop k (p1\<lparr>peel_words := inner\<rparr>)
         | None \<Rightarrow> p1\<lparr>peel_exhausted := False\<rparr>)"

definition unwrap_wrappers_checked :: "string list \<Rightarrow> checked_wrapper_peel" where
  "unwrap_wrappers_checked ws =
     unwrap_loop MAX_WRAPPER_DEPTH
       \<lparr>peel_words = ws, peel_chdir = False, peel_split_string = False, peel_uncertain = False,
        peel_exhausted = False\<rparr>"

definition unwrap_wrappers :: "string list \<Rightarrow> string list" where
  "unwrap_wrappers ws = peel_words (unwrap_wrappers_checked ws)"

definition unwrap_command_wrappers :: "string list \<Rightarrow> string list" where
  "unwrap_command_wrappers ws = unwrap_wrappers ws"

section \<open>Transparent prefixes\<close>

datatype transparent_strip = NotPrefix | Peeled "string list" | Ambiguous

definition peeled_rest :: "string list \<Rightarrow> transparent_strip" where
  "peeled_rest ws = (if ws = [] then NotPrefix else Peeled ws)"

text \<open>The loops over the options, on the words after the head.\<close>

definition NUL :: string where "NUL = [CHR 0x00]"

fun strip_exec_args :: "string list \<Rightarrow> transparent_strip" where
  "strip_exec_args [] = peeled_rest []"
| "strip_exec_args (tok # rest) =
     (if tok = ''--'' then peeled_rest rest
      else if tok = ''-'' \<or> \<not> starts_with tok ''-'' then peeled_rest (tok # rest)
      else if tok \<in> set [''-c'', ''-l'', ''-cl'', ''-lc''] then strip_exec_args rest
      else if tok = ''-a'' then
        (case rest of [] \<Rightarrow> Ambiguous
         | v # rest' \<Rightarrow> if v \<noteq> NUL \<and> v \<noteq> [] then strip_exec_args rest' else Ambiguous)
      else case strip_prefix ''-a'' tok of
        Some r \<Rightarrow> if r = NUL then Ambiguous else strip_exec_args rest
      | None \<Rightarrow>
          if starts_with tok ''-'' \<and> \<not> starts_with tok ''--''
             \<and> list_all (\<lambda>c. c = CHR ''c'' \<or> c = CHR ''l'') (drop 1 tok)
          then strip_exec_args rest else Ambiguous)"

fun strip_command_args :: "string list \<Rightarrow> transparent_strip" where
  "strip_command_args [] = peeled_rest []"
| "strip_command_args (tok # rest) =
     (if tok = ''--'' then peeled_rest rest
      else if tok = ''-'' \<or> \<not> starts_with tok ''-'' then peeled_rest (tok # rest)
      else if tok \<in> set [''-v'', ''-V'', ''--help'', ''--version'']
              \<or> (starts_with tok ''-'' \<and> \<not> starts_with tok ''--''
                 \<and> list_ex (\<lambda>c. c = CHR ''v'' \<or> c = CHR ''V'') (drop 1 tok)) then NotPrefix
      else if tok = ''-p'' \<or> (starts_with tok ''-'' \<and> \<not> starts_with tok ''--''
                 \<and> list_all (\<lambda>c. c = CHR ''p'') (drop 1 tok)) then strip_command_args rest
      else Ambiguous)"

definition strip_builtin_args :: "string list \<Rightarrow> transparent_strip" where
  "strip_builtin_args ws = (case ws of
     [] \<Rightarrow> NotPrefix
   | tok # _ \<Rightarrow> if starts_with tok ''-'' \<and> tok \<noteq> ''-'' then Ambiguous else peeled_rest ws)"

definition strip_transparent_prefix :: "string list \<Rightarrow> transparent_strip" where
  "strip_transparent_prefix cmd = (case cmd of
     [] \<Rightarrow> NotPrefix
   | h # ws \<Rightarrow>
       if h = [] \<or> h = NUL then NotPrefix
       else if base_name h = ''exec'' then strip_exec_args ws
       else if base_name h = ''command'' then strip_command_args ws
       else if base_name h = ''builtin'' then strip_builtin_args ws
       else NotPrefix)"

datatype transparent_prefix_peel = Ready "string list" | Peel_Ambiguous

definition MAX_TRANSPARENT_PREFIX_DEPTH :: nat where "MAX_TRANSPARENT_PREFIX_DEPTH = 8"

definition MAX_NORMALIZE_ROUNDS :: nat where
  "MAX_NORMALIZE_ROUNDS = MAX_WRAPPER_DEPTH + MAX_TRANSPARENT_PREFIX_DEPTH"

fun peel_loop :: "nat \<Rightarrow> string list \<Rightarrow> transparent_prefix_peel" where
  "peel_loop 0 current = (case strip_transparent_prefix current of
     NotPrefix \<Rightarrow> Ready current | Peeled _ \<Rightarrow> Peel_Ambiguous | Ambiguous \<Rightarrow> Peel_Ambiguous)"
| "peel_loop (Suc k) current = (case strip_transparent_prefix current of
     NotPrefix \<Rightarrow> Ready current | Peeled inner \<Rightarrow> peel_loop k inner | Ambiguous \<Rightarrow> Peel_Ambiguous)"

definition peel_transparent_prefixes :: "string list \<Rightarrow> transparent_prefix_peel" where
  "peel_transparent_prefixes ws = peel_loop MAX_TRANSPARENT_PREFIX_DEPTH ws"

section \<open>Normalisation\<close>

record normalized_command_peel =
  norm_words :: "string list"
  norm_chdir :: bool
  norm_split_string :: bool
  norm_uncertain :: bool
  norm_exhausted :: bool
  norm_ambiguous :: bool

definition absorb_wrapped :: "normalized_command_peel \<Rightarrow> checked_wrapper_peel \<Rightarrow> normalized_command_peel" where
  "absorb_wrapped s w =
     \<lparr>norm_words = peel_words w,
      norm_chdir = (norm_chdir s \<or> peel_chdir w),
      norm_split_string = (norm_split_string s \<or> peel_split_string w),
      norm_uncertain = (norm_uncertain s \<or> peel_uncertain w),
      norm_exhausted = (norm_exhausted s \<or> peel_exhausted w),
      norm_ambiguous = norm_ambiguous s\<rparr>"

text \<open>The rounds. The pointer comparison of the source, on slices with one common end, is the
  comparison of the lengths.\<close>

fun normalize_loop :: "nat \<Rightarrow> normalized_command_peel \<Rightarrow> normalized_command_peel" where
  "normalize_loop 0 s = s"
| "normalize_loop (Suc k) s =
     (let s1 = absorb_wrapped s (unwrap_wrappers_checked (norm_words s))
      in if norm_split_string s1 \<or> norm_uncertain s1 then s1
         else case peel_transparent_prefixes (norm_words s1) of
           Peel_Ambiguous \<Rightarrow> s1\<lparr>norm_ambiguous := True\<rparr>
         | Ready inner \<Rightarrow>
             (let s2 = s1\<lparr>norm_words := inner\<rparr>
              in if length inner = length (norm_words s) then s2 else normalize_loop k s2))"

definition normalize_command_words :: "string list \<Rightarrow> normalized_command_peel" where
  "normalize_command_words ws =
     (let s = normalize_loop MAX_NORMALIZE_ROUNDS
                \<lparr>norm_words = ws, norm_chdir = False, norm_split_string = False, norm_uncertain = False,
                 norm_exhausted = False, norm_ambiguous = False\<rparr>
      in if \<not> norm_ambiguous s \<and> \<not> norm_split_string s \<and> \<not> norm_uncertain s
            \<and> (is_wrapper_command (norm_words s) \<and> strip_wrapper_command (norm_words s) \<noteq> None
               \<or> strip_transparent_prefix (norm_words s) \<noteq> NotPrefix)
         then s\<lparr>norm_exhausted := True\<rparr> else s)"

section \<open>The primary command of a script\<close>

text \<open>\<open>sh_split_simple\<close>: the loop carries the flags for open quotes, the current word and the words so
  far. An encoding of white space has at least one byte, so what follows it is the stated suffix.\<close>

function sh_split_from :: "bool \<Rightarrow> bool \<Rightarrow> string \<Rightarrow> string list \<Rightarrow> string \<Rightarrow> string list" where
  "sh_split_from sq dq cur out [] = (if cur = [] then out else out @ [cur])"
| "sh_split_from sq dq cur out (c # cs) =
     (if c = CHR 0x27 \<and> \<not> dq then sh_split_from (\<not> sq) dq cur out cs
      else if c = CHR 0x22 \<and> \<not> sq then sh_split_from sq (\<not> dq) cur out cs
      else if c = CHR 0x5C then
        (case cs of [] \<Rightarrow> sh_split_from sq dq cur out [] | n # cs' \<Rightarrow> sh_split_from sq dq (cur @ [n]) out cs')
      else if sq \<or> dq then sh_split_from sq dq (cur @ [c]) out cs
      else case strip_any ws_encodings (c # cs) of
        Some r \<Rightarrow> sh_split_from sq dq [] (if cur = [] then out else out @ [cur])
                    (drop (length (c # cs) - length r - 1) cs)
      | None \<Rightarrow> sh_split_from sq dq (cur @ [c]) out cs)"
  by pat_completeness auto
termination
  by (relation "measure (\<lambda>(sq, dq, cur, out, s). length s)") auto

definition sh_split_simple :: "string \<Rightarrow> string list" where
  "sh_split_simple s = sh_split_from False False [] [] s"

record bash_command_highlights =
  prefix_words :: "string list"
  highlighted_words :: "string list"
  suffix_words :: "string list"

definition primary_peel :: "plain_command \<Rightarrow> (plain_command \<times> nat \<times> string list) option" where
  "primary_peel c =
     (let peeled = unwrap_wrappers (words c)
      in if peeled = [] \<or> is_setup_command peeled then None
         else (let peeled_off = length (words c) - length peeled
               in Some (c, peeled_off, drop peeled_off (words c))))"

fun first_primary :: "plain_command list \<Rightarrow> (plain_command \<times> nat \<times> string list) option" where
  "first_primary [] = None"
| "first_primary (c # cs) = (case primary_peel c of None \<Rightarrow> first_primary cs | Some r \<Rightarrow> Some r)"

definition primary_command_from_script :: "shell_parser \<Rightarrow> string \<Rightarrow> bash_command_highlights option" where
  "primary_command_from_script try_parse_shell script =
     (case all_commands_from_script try_parse_shell script of
        None \<Rightarrow> None
      | Some commands \<Rightarrow>
          (case first_primary commands of
             None \<Rightarrow> None
           | Some (primary, peeled_off, peeled_words) \<Rightarrow>
               Some \<lparr>prefix_words = sh_split_simple (take (span_start primary) script)
                                    @ take peeled_off (words primary),
                     highlighted_words = peeled_words,
                     suffix_words = sh_split_simple (drop (span_end primary) script)\<rparr>))"

section \<open>One layer\<close>

lemma skip_options_suffix: "suffix (skip_options two ws) ws"
proof (induction two ws rule: skip_options.induct)
  case (2 two w ws)
  have "suffix (drop 1 ws) (w # ws)" by (metis suffix_ConsI suffix_drop)
  with 2 show ?case by (auto intro: suffix_order.trans suffix_ConsI)
qed simp

lemma non_empty_words_Some: "non_empty_words ws = Some v \<longleftrightarrow> v = ws \<and> ws \<noteq> []"
  by (auto simp: non_empty_words_def)

definition turn_keeps :: "env_scan_result \<Rightarrow> env_turn \<Rightarrow> bool" where
  "turn_keeps sc t = (case t of Break sc' \<Rightarrow> command_start sc \<le> command_start sc'
     | Advance n sc' \<Rightarrow> command_start sc' = command_start sc)"

lemma env_turn_of_start:
  "env_turn_of sc tok rest = Break sc' \<Longrightarrow> command_start sc \<le> command_start sc'"
  "env_turn_of sc tok rest = Advance n sc' \<Longrightarrow> command_start sc' = command_start sc"
proof -
  have a: "turn_keeps sc (take_option_operand rest f sc)" if "\<And>v. command_start (f v) = command_start sc" for f
    using that by (cases rest) (auto simp: take_option_operand_def uncertain_def turn_keeps_def)
  have b: "turn_keeps sc (split_next sc rest)" "turn_keeps sc (split_glued sc p)" "turn_keeps sc (uncertain sc)"
    "turn_keeps sc (Advance m sc)" "turn_keeps sc (Break sc)" for p m
    by (auto simp: split_next_def split_glued_def uncertain_def turn_keeps_def split: list.split)
  have c: "turn_keeps sc (Advance m (sc\<lparr>chdir := d\<rparr>))" "turn_keeps sc (Break (sc\<lparr>has_split_string := True\<rparr>))"
    "turn_keeps sc (Break (sc\<lparr>command_start := command_start sc + 1\<rparr>))" for m d
    by (simp_all add: turn_keeps_def)
  have long: "env_long_option sc tok rest \<in> {t. turn_keeps sc t}"
    unfolding env_long_option_def
    by (cases "strip_prefix ''--chdir='' tok"; cases "strip_prefix ''--split-string='' tok";
        simp only: option.case; intro if_memI; simp add: a b c)
  have short: "env_short_option sc tok rest \<in> {t. turn_keeps sc t}"
    unfolding env_short_option_def
    by (cases "classify_env_short (decode_env_option_token tok)"; simp only: env_short.case) (simp_all add: a b c)
  have "env_turn_of sc tok rest \<in> {t. turn_keeps sc t}"
    unfolding env_turn_of_def by (intro if_memI long short) (simp_all add: b c del: One_nat_def)
  then have "turn_keeps sc (env_turn_of sc tok rest)" by simp
  then show "env_turn_of sc tok rest = Break sc' \<Longrightarrow> command_start sc \<le> command_start sc'"
    "env_turn_of sc tok rest = Advance n sc' \<Longrightarrow> command_start sc' = command_start sc"
    by (auto simp: turn_keeps_def split: env_turn.splits)
qed

lemma env_scan_from_start: "command_start sc \<le> command_start (env_scan_from sc ws)"
proof (induction sc ws rule: env_scan_from.induct)
  case (2 sc tok rest)
  show ?case
  proof (cases "env_turn_of sc tok rest")
    case (Advance n sc')
    then have "command_start (sc'\<lparr>command_start := command_start sc' + n\<rparr>)
        \<le> command_start (env_scan_from (sc'\<lparr>command_start := command_start sc' + n\<rparr>) (drop (n - 1) rest))"
      by (rule 2)
    then show ?thesis using Advance env_turn_of_start(2) [OF Advance] by simp
  qed (use env_turn_of_start(1) in auto)
qed simp

lemma env_scan_start: "1 \<le> command_start (env_scan cmd)"
  unfolding env_scan_def using env_scan_from_start by (metis env_scan_result.select_convs(5))

lemma head_name_Some: "head_name cmd = Some h \<longleftrightarrow> (\<exists>w ws. cmd = w # ws \<and> h = base_name w)"
  by (auto simp: head_name_def split: list.splits)

lemma suffix_tl_strict: "suffix v ws \<Longrightarrow> strict_suffix v (w # ws)"
  by (auto simp: strict_suffix_def suffix_def)

lemma strip_wrapper_strict:
  assumes "strip_wrapper_command cmd = Some v"
  shows "strict_suffix v cmd \<and> v \<noteq> [] \<and> is_wrapper_command cmd"
proof -
  obtain w ws where cmd: "cmd = w # ws"
    using assms by (cases cmd) (auto simp: strip_wrapper_command_def head_name_def)
  have tail: "skip_options two ws = x # inner \<Longrightarrow> suffix inner ws" for x inner two
    by (metis skip_options_suffix suffix_ConsD)
  have drop: "suffix (drop (command_start (env_scan cmd)) cmd) ws"
    using env_scan_start [of cmd] by (cases "command_start (env_scan cmd)") (auto simp: cmd suffix_drop)
  have "suffix v ws \<and> v \<noteq> [] \<and> is_wrapper_command cmd"
    using assms drop tail skip_options_suffix
    by (auto simp: strip_wrapper_command_def is_wrapper_command_def cmd head_name_def non_empty_words_Some Let_def
        split: if_splits list.splits)
  then show ?thesis by (simp add: cmd suffix_tl_strict)
qed

lemma strip_exec_args_suffix: "strip_exec_args ws = Peeled v \<Longrightarrow> suffix v ws \<and> v \<noteq> []"
proof (induction ws rule: length_induct)
  case (1 ws)
  show ?case
  proof (cases ws)
    case (Cons tok rest)
    have "strip_exec_args (tok # rest) \<in> {peeled_rest rest, peeled_rest (tok # rest), strip_exec_args rest,
        strip_exec_args (tl rest), Ambiguous}"
      unfolding strip_exec_args.simps
      by (cases rest; cases "strip_prefix ''-a'' tok"; simp only: list.case option.case; intro if_memI; simp)
    then consider "peeled_rest rest = Peeled v" | "peeled_rest (tok # rest) = Peeled v"
      | "strip_exec_args rest = Peeled v" | "strip_exec_args (tl rest) = Peeled v"
      using 1(2) Cons by auto
    then show ?thesis
    proof cases
      case 3
      then show ?thesis using 1(1) Cons by (auto intro: suffix_ConsI)
    next
      case 4
      moreover have "length (tl rest) < length ws" using Cons by simp
      ultimately have "suffix v (tl rest) \<and> v \<noteq> []" using 1(1) by blast
      then show ?thesis using Cons suffix_tl [of rest] by (metis suffix_ConsI suffix_order.trans)
    qed (use Cons in \<open>auto simp: peeled_rest_def suffix_ConsI split: if_splits\<close>)
  qed (use 1 in \<open>simp add: peeled_rest_def\<close>)
qed

lemma strip_command_args_suffix: "strip_command_args ws = Peeled v \<Longrightarrow> suffix v ws \<and> v \<noteq> []"
proof (induction ws)
  case (Cons tok rest)
  have "strip_command_args (tok # rest) \<in> {peeled_rest rest, peeled_rest (tok # rest), strip_command_args rest,
      NotPrefix, Ambiguous}"
    unfolding strip_command_args.simps by (intro if_memI; simp)
  then show ?case using Cons by (auto simp: peeled_rest_def suffix_ConsI split: if_splits)
qed (simp add: peeled_rest_def)

lemma strip_transparent_strict:
  assumes "strip_transparent_prefix cmd = Peeled v"
  shows "strict_suffix v cmd \<and> v \<noteq> []"
proof -
  obtain w ws where cmd: "cmd = w # ws"
    using assms by (cases cmd) (auto simp: strip_transparent_prefix_def)
  have "suffix v ws \<and> v \<noteq> []"
  proof -
    have "strip_builtin_args ws \<in> {Ambiguous, NotPrefix, peeled_rest ws}"
      unfolding strip_builtin_args_def by (cases ws) (auto simp: peeled_rest_def)
    moreover have "strip_transparent_prefix cmd \<in>
        {NotPrefix, strip_exec_args ws, strip_command_args ws, strip_builtin_args ws}"
      unfolding cmd strip_transparent_prefix_def list.case by (intro if_memI; simp)
    ultimately consider "strip_exec_args ws = Peeled v" | "strip_command_args ws = Peeled v" | "peeled_rest ws = Peeled v"
      using assms by auto
    then show ?thesis
      by cases (simp_all add: strip_exec_args_suffix strip_command_args_suffix peeled_rest_def split: if_splits)
  qed
  then show ?thesis by (simp add: cmd suffix_tl_strict)
qed

text \<open>No head is both a wrapper and a transparent prefix.\<close>

lemma wrapper_not_transparent:
  assumes "strip_wrapper_command cmd = Some v"
  shows "strip_transparent_prefix cmd = NotPrefix"
proof -
  obtain w ws where cmd: "cmd = w # ws" using strip_wrapper_strict [OF assms] by (cases cmd) auto
  have "base_name w \<in> set [''timeout'', ''nice'', ''ionice'', ''chrt'', ''stdbuf'', ''env'']"
    using strip_wrapper_strict [OF assms] by (simp add: cmd is_wrapper_command_def head_name_def)
  moreover have "x \<noteq> ''exec'' \<and> x \<noteq> ''command'' \<and> x \<noteq> ''builtin''"
    if "x \<in> set [''timeout'', ''nice'', ''ionice'', ''chrt'', ''stdbuf'', ''env'']" for x :: string
    using that by (simp only: list.set insert_iff) (elim disjE; simp)
  ultimately have "base_name w \<noteq> ''exec''" "base_name w \<noteq> ''command''" "base_name w \<noteq> ''builtin''"
    by blast+
  then show ?thesis by (simp add: cmd strip_transparent_prefix_def)
qed

inductive peel_layer :: "string list \<Rightarrow> string list \<Rightarrow> bool" where
  wrapper: "strip_wrapper_command ws = Some v \<Longrightarrow> peel_layer ws v"
| transparent: "strip_transparent_prefix ws = Peeled v \<Longrightarrow> peel_layer ws v"

inductive_cases peel_layerE: "peel_layer ws v"

definition fully_peeled :: "string list \<Rightarrow> bool" where
  "fully_peeled ws \<longleftrightarrow> strip_wrapper_command ws = None \<and> strip_transparent_prefix ws = NotPrefix"

lemma peel_layer_deterministic: "peel_layer ws u \<Longrightarrow> peel_layer ws v \<Longrightarrow> u = v"
  by (auto elim!: peel_layerE dest: wrapper_not_transparent)

lemma peel_layer_strict: "peel_layer ws v \<Longrightarrow> strict_suffix v ws \<and> v \<noteq> []"
  by (auto elim!: peel_layerE dest: strip_wrapper_strict strip_transparent_strict)

lemma fully_peeled_no_layer: "fully_peeled ws \<Longrightarrow> \<not> peel_layer ws v"
  by (auto simp: fully_peeled_def elim: peel_layerE)

lemma peel_layers_suffix: "peel_layer\<^sup>*\<^sup>* ws v \<Longrightarrow> suffix v ws"
  by (induction rule: rtranclp_induct)
    (auto dest!: peel_layer_strict simp: strict_suffix_def intro: suffix_order.trans)

lemma peel_normal_form_unique:
  assumes "peel_layer\<^sup>*\<^sup>* ws u" and "fully_peeled u" and "peel_layer\<^sup>*\<^sup>* ws v" and "fully_peeled v"
  shows "u = v"
  using assms
proof (induction rule: converse_rtranclp_induct)
  case base
  then show ?case by (metis converse_rtranclpE fully_peeled_no_layer)
next
  case (step x y)
  then show ?case by (metis converse_rtranclpE fully_peeled_no_layer peel_layer_deterministic)
qed

section \<open>Peeling reaches the normal form or says that it did not\<close>

lemma unwrap_loop_layers: "peel_layer\<^sup>*\<^sup>* (peel_words p) (peel_words (unwrap_loop k p))"
proof (induction k arbitrary: p)
  case (Suc k)
  show ?case
  proof (cases "strip_wrapper_command (peel_words p)")
    case (Some inner)
    then have "peel_layer (peel_words p) inner" by (rule peel_layer.wrapper)
    moreover have "peel_layer\<^sup>*\<^sup>* inner (peel_words (unwrap_loop k (q\<lparr>peel_words := inner\<rparr>)))" for q
      using Suc [of "q\<lparr>peel_words := inner\<rparr>"] by simp
    ultimately show ?thesis using Some by (auto simp: Let_def intro: converse_rtranclp_into_rtranclp)
  qed (simp add: Let_def)
qed simp

lemma peel_loop_layers:
  "peel_loop k ws = Ready u \<Longrightarrow> peel_layer\<^sup>*\<^sup>* ws u \<and> strip_transparent_prefix u = NotPrefix"
proof (induction k arbitrary: ws)
  case (Suc k)
  then show ?case
    by (cases "strip_transparent_prefix ws")
      (auto intro: converse_rtranclp_into_rtranclp peel_layer.transparent)
qed (auto split: transparent_strip.splits)

lemma normalize_loop_layers: "peel_layer\<^sup>*\<^sup>* (norm_words s) (norm_words (normalize_loop k s))"
proof (induction k arbitrary: s)
  case (Suc k)
  let ?u = "unwrap_wrappers_checked (norm_words s)"
  have 1: "peel_layer\<^sup>*\<^sup>* (norm_words s) (peel_words ?u)"
    unfolding unwrap_wrappers_checked_def using unwrap_loop_layers [of "checked_wrapper_peel.make (norm_words s) False False False False"]
    by (simp add: checked_wrapper_peel.make_def)
  show ?case
  proof (cases "peel_transparent_prefixes (peel_words ?u)")
    case (Ready inner)
    then have "peel_layer\<^sup>*\<^sup>* (peel_words ?u) inner"
      using peel_loop_layers unfolding peel_transparent_prefixes_def by blast
    moreover have "peel_layer\<^sup>*\<^sup>* inner (norm_words (normalize_loop k t))" if "norm_words t = inner" for t
      using Suc [of t] that by simp
    ultimately have 2: "peel_layer\<^sup>*\<^sup>* (norm_words s) inner"
      and 3: "norm_words t = inner \<Longrightarrow> peel_layer\<^sup>*\<^sup>* (norm_words s) (norm_words (normalize_loop k t))" for t
      using 1 by (blast intro: rtranclp_trans)+
    show ?thesis using 1 2 3 Ready by (simp add: Let_def absorb_wrapped_def)
  qed (use 1 in \<open>auto simp: Let_def absorb_wrapped_def\<close>)
qed simp

definition norm_clean :: "normalized_command_peel \<Rightarrow> bool" where
  "norm_clean n \<longleftrightarrow> \<not> norm_exhausted n \<and> \<not> norm_ambiguous n \<and> \<not> norm_split_string n \<and> \<not> norm_uncertain n"

lemma normalize_layers: "peel_layer\<^sup>*\<^sup>* ws (norm_words (normalize_command_words ws))"
  using normalize_loop_layers [of "normalized_command_peel.make ws False False False False False" MAX_NORMALIZE_ROUNDS]
  by (simp add: normalize_command_words_def Let_def normalized_command_peel.make_def)

lemma normalize_clean_peeled:
  "norm_clean (normalize_command_words ws) \<Longrightarrow> fully_peeled (norm_words (normalize_command_words ws))"
  using strip_wrapper_strict
  by (cases "strip_wrapper_command (norm_words (normalize_command_words ws))")
    (auto simp: normalize_command_words_def Let_def norm_clean_def fully_peeled_def split: if_splits)

text \<open>C15: Normalising a command only drops words from its front, one recognised layer after another,
  and when no flag is raised the result is the innermost command: no wrapper and no transparent
  prefix can be peeled from it any more, and it is the only such command that peeling layers from
  the given words can reach.\<close>

theorem normalize_reaches_innermost:
  defines "n ws \<equiv> normalize_command_words ws"
  shows "suffix (norm_words (n ws)) ws \<and> peel_layer\<^sup>*\<^sup>* ws (norm_words (n ws))
    \<and> (norm_clean (n ws) \<longrightarrow> fully_peeled (norm_words (n ws))
        \<and> (\<forall>v. peel_layer\<^sup>*\<^sup>* ws v \<and> fully_peeled v \<longrightarrow> v = norm_words (n ws)))"
  unfolding n_def
  using normalize_layers peel_layers_suffix normalize_clean_peeled peel_normal_form_unique by blast

theorem normalize_reaches_innermost_witness:
  "let n = normalize_command_words [''timeout'', ''-s'', ''KILL'', ''30'', ''command'', ''env'', ''A=1'', ''rm'', ''x'']
   in norm_clean n \<and> norm_words n = [''rm'', ''x''] \<and> fully_peeled (norm_words n)"
proof -
  let ?ws = "[''timeout'', ''-s'', ''KILL'', ''30'', ''command'', ''env'', ''A=1'', ''rm'', ''x'']"
  have "norm_clean (normalize_command_words ?ws)" "norm_words (normalize_command_words ?ws) = [''rm'', ''x'']"
    by code_simp+
  then show ?thesis using normalize_reaches_innermost [of ?ws] by (simp add: Let_def)
qed

section \<open>Eight layers are within the budget\<close>

definition env_flag :: "(env_scan_result \<Rightarrow> bool) \<Rightarrow> string list \<Rightarrow> bool" where
  "env_flag f ws \<longleftrightarrow> head_name ws = Some ''env'' \<and> f (env_scan ws)"

lemma strip_wrapper_Some_no_flag:
  "strip_wrapper_command ws = Some v \<Longrightarrow> \<not> env_flag has_split_string ws \<and> \<not> env_flag options_uncertain ws"
  by (auto simp: strip_wrapper_command_def env_flag_def Let_def)

lemma env_flag_peeled:
  assumes "env_flag has_split_string ws \<or> env_flag options_uncertain ws"
  shows "fully_peeled ws"
proof -
  have "strip_wrapper_command ws = None" using assms strip_wrapper_Some_no_flag by fastforce
  moreover have "strip_transparent_prefix ws = NotPrefix"
    using assms by (auto simp: env_flag_def head_name_Some strip_transparent_prefix_def)
  ultimately show ?thesis by (simp add: fully_peeled_def)
qed

lemma peel_layers_0: "(peel_layer ^^ n) w v \<Longrightarrow> fully_peeled w \<Longrightarrow> n = 0 \<and> w = v"
  by (cases n) (simp, metis relpowp_Suc_D2 fully_peeled_no_layer)

lemma peel_layers_step: "(peel_layer ^^ n) w v \<Longrightarrow> fully_peeled v \<Longrightarrow> peel_layer w u \<Longrightarrow> \<exists>m. n = Suc m \<and> (peel_layer ^^ m) u v"
  by (cases n) (metis relpowp_0_E fully_peeled_no_layer, metis relpowp_Suc_D2 peel_layer_deterministic)

lemma peel_count_unique: "(peel_layer ^^ l) w v \<Longrightarrow> (peel_layer ^^ n) w v \<Longrightarrow> fully_peeled v \<Longrightarrow> l = n"
proof (induction l arbitrary: w n)
  case 0
  then show ?case using peel_layers_0 [of n w v] by simp
next
  case (Suc l)
  obtain u where u: "peel_layer w u" "(peel_layer ^^ l) u v" using Suc.prems(1) by (metis relpowp_Suc_D2)
  then show ?case using peel_layers_step [OF Suc.prems(2,3) u(1)] Suc.IH Suc.prems(3) by blast
qed

lemma unwrap_within_budget:
  assumes "(peel_layer ^^ n) (peel_words p) v" and "fully_peeled v" and "n \<le> k"
    and "\<not> peel_split_string p" and "\<not> peel_uncertain p" and "q = unwrap_loop k p"
  shows "\<exists>m. (peel_layer ^^ m) (peel_words q) v \<and> m \<le> n \<and> (m = n \<longrightarrow> peel_words q = peel_words p)
    \<and> strip_wrapper_command (peel_words q) = None \<and> \<not> peel_exhausted q
    \<and> (peel_split_string q = env_flag has_split_string (peel_words q)
         \<and> peel_uncertain q = env_flag options_uncertain (peel_words q)
       \<or> \<not> peel_split_string q \<and> \<not> peel_uncertain q \<and> (m < n \<or> k = 0))"
  using assms
proof (induction k arbitrary: n p)
  case 0
  then show ?case by (auto simp: fully_peeled_def)
next
  case (Suc k)
  show ?case
  proof (cases "strip_wrapper_command (peel_words p)")
    case None
    then show ?thesis using Suc.prems by (intro exI [of _ n]) (auto simp: Let_def env_flag_def)
  next
    case (Some inner)
    then have "peel_layer (peel_words p) inner" by (rule peel_layer.wrapper)
    then obtain n' where n: "n = Suc n'" "(peel_layer ^^ n') inner v"
      using peel_layers_step Suc.prems(1,2) by blast
    obtain p1 where p1: "q = unwrap_loop k p1" "peel_words p1 = inner" "\<not> peel_split_string p1" "\<not> peel_uncertain p1"
      using Suc.prems(4-6) Some strip_wrapper_Some_no_flag [OF Some] by (auto simp: Let_def env_flag_def)
    have "n' \<le> k" using n Suc.prems(3) by simp
    from Suc.IH [OF n(2) [folded p1(2)] Suc.prems(2) this p1(3,4,1)] show ?thesis
      using n(1) by (auto intro: le_SucI)
  qed
qed

lemma peel_within_budget:
  assumes "(peel_layer ^^ n) w v" and "fully_peeled v" and "n \<le> k"
  shows "\<exists>u m. peel_loop k w = Ready u \<and> (peel_layer ^^ m) u v \<and> m \<le> n \<and> (m = n \<longrightarrow> u = w)
    \<and> strip_transparent_prefix u = NotPrefix"
  using assms
proof (induction k arbitrary: n w)
  case 0
  then show ?case by (auto simp: fully_peeled_def)
next
  case (Suc k)
  show ?case
  proof (cases "strip_transparent_prefix w")
    case (Peeled inner)
    then have "peel_layer w inner" by (rule peel_layer.transparent)
    then obtain n' where n: "n = Suc n'" "(peel_layer ^^ n') inner v"
      using peel_layers_step Suc.prems(1,2) by blast
    then have "n' \<le> k" using Suc.prems(3) by simp
    from Suc.IH [OF n(2) Suc.prems(2) this] obtain u m where
      "peel_loop k inner = Ready u" "(peel_layer ^^ m) u v" "m \<le> n'" "strip_transparent_prefix u = NotPrefix"
      by blast
    then show ?thesis using n(1) Peeled by (intro exI [of _ u] exI [of _ m]) auto
  next
    case Ambiguous
    then have "\<not> fully_peeled w" "\<not> peel_layer w u" for u
      using wrapper_not_transparent [of w] by (auto simp: fully_peeled_def elim!: peel_layerE)
    then show ?thesis using Suc.prems(1,2) by (cases n) (metis relpowp_0_E, metis relpowp_Suc_D2)
  qed (use Suc.prems in auto)
qed

lemma normalize_loop_within_budget:
  assumes "(peel_layer ^^ n) (norm_words s) v" and "fully_peeled v" and "n \<le> 8" and "n < k" and "norm_clean s"
    and "r = normalize_loop k s"
  shows "norm_words r = v \<and> \<not> norm_exhausted r \<and> \<not> norm_ambiguous r
    \<and> norm_split_string r = env_flag has_split_string v \<and> norm_uncertain r = env_flag options_uncertain v"
  using assms
proof (induction k arbitrary: n s)
  case (Suc k)
  define q where "q = unwrap_wrappers_checked (norm_words s)"
  have q: "q = unwrap_loop 8 \<lparr>peel_words = norm_words s, peel_chdir = False, peel_split_string = False,
      peel_uncertain = False, peel_exhausted = False\<rparr>"
    by (simp add: q_def unwrap_wrappers_checked_def MAX_WRAPPER_DEPTH_def)
  obtain m where m: "(peel_layer ^^ m) (peel_words q) v" "m \<le> n" "m = n \<longrightarrow> peel_words q = norm_words s"
    "strip_wrapper_command (peel_words q) = None" "\<not> peel_exhausted q"
    "peel_split_string q = env_flag has_split_string (peel_words q)
         \<and> peel_uncertain q = env_flag options_uncertain (peel_words q)
       \<or> \<not> peel_split_string q \<and> \<not> peel_uncertain q \<and> m < n"
    using unwrap_within_budget [OF _ Suc.prems(2,3) _ _ q] Suc.prems(1) by auto
  show ?case
  proof (cases "peel_split_string q \<or> peel_uncertain q")
    case True
    then have "fully_peeled (peel_words q)" using m(6) env_flag_peeled by blast
    then have "peel_words q = v" using peel_layers_0 m(1) by blast
    then show ?thesis using True m(5,6) Suc.prems(5,6)
      by (simp add: q_def [symmetric] Let_def absorb_wrapped_def norm_clean_def) blast
  next
    case False
    obtain u l where u: "peel_transparent_prefixes (peel_words q) = Ready u" "(peel_layer ^^ l) u v" "l \<le> m"
      "l = m \<longrightarrow> u = peel_words q" "strip_transparent_prefix u = NotPrefix"
      using peel_within_budget [OF m(1) Suc.prems(2), of 8] m(2) Suc.prems(3)
      by (auto simp: peel_transparent_prefixes_def MAX_TRANSPARENT_PREFIX_DEPTH_def)
    define s2 where "s2 = absorb_wrapped s q\<lparr>norm_words := u\<rparr>"
    have s2: "norm_words s2 = u" "norm_clean s2"
      using False m(5) Suc.prems(5) by (simp_all add: s2_def absorb_wrapped_def norm_clean_def)
    have r: "r = (if length u = length (norm_words s) then s2 else normalize_loop k s2)"
      using Suc.prems(5,6) False u(1) by (simp add: q_def [symmetric] Let_def absorb_wrapped_def norm_clean_def s2_def)
    show ?thesis
    proof (cases "l = n")
      case True
      then have e: "u = norm_words s" "peel_words q = norm_words s" "m = n" using u m(2,3) by auto
      then have "fully_peeled u" using m(4) u(5) by (simp add: fully_peeled_def)
      then have "u = v" using peel_layers_0 u(2) by blast
      moreover have "peel_split_string q = env_flag has_split_string v" "peel_uncertain q = env_flag options_uncertain v"
        using m(6) e calculation by auto
      ultimately show ?thesis using s2 e False r by (auto simp: norm_clean_def)
    next
      case l: False
      then have "l < n" using u(3) m(2) by simp
      have "length u \<noteq> length (norm_words s)"
      proof
        assume len: "length u = length (norm_words s)"
        have "peel_layer\<^sup>*\<^sup>* (norm_words s) u"
          using normalize_loop_layers [of s 0] unwrap_loop_layers q peel_loop_layers u(1)
          unfolding peel_transparent_prefixes_def
          by (metis (no_types, lifting) checked_wrapper_peel.select_convs(1) rtranclp_trans)
        then have "suffix u (norm_words s)" by (rule peel_layers_suffix)
        then have "u = norm_words s" using len by (auto simp: suffix_def)
        moreover have "(peel_layer ^^ l) u v" "(peel_layer ^^ n) (norm_words s) v" using u(2) Suc.prems(1) by auto
        ultimately show False using \<open>l < n\<close> peel_count_unique Suc.prems(2) by blast
      qed
      then have "r = normalize_loop k s2" using r by simp
      then show ?thesis using Suc.IH [of l s2] u(2) s2 Suc.prems(2,3,4) \<open>l < n\<close> by simp
    qed
  qed
qed simp

text \<open>C16: A command under at most eight layers, in any mix of wrappers and transparent prefixes, is
  always found: normalisation returns the innermost command, runs out of no budget and reports no
  ambiguity, and it flags a packed \<open>env -S\<close> script or unknown \<open>env\<close> options exactly when the
  innermost command has them.\<close>

theorem normalize_within_budget:
  assumes "(peel_layer ^^ n) ws v" and "n \<le> 8" and "fully_peeled v" and "r = normalize_command_words ws"
  shows "norm_words r = v \<and> \<not> norm_exhausted r \<and> \<not> norm_ambiguous r
    \<and> norm_split_string r = env_flag has_split_string v \<and> norm_uncertain r = env_flag options_uncertain v"
proof -
  let ?s = "\<lparr>norm_words = ws, norm_chdir = False, norm_split_string = False, norm_uncertain = False,
    norm_exhausted = False, norm_ambiguous = False\<rparr>"
  let ?r = "normalize_loop MAX_NORMALIZE_ROUNDS ?s"
  have k: "n < MAX_NORMALIZE_ROUNDS" using assms(2)
    by (simp add: MAX_NORMALIZE_ROUNDS_def MAX_WRAPPER_DEPTH_def MAX_TRANSPARENT_PREFIX_DEPTH_def)
  have "norm_words ?r = v \<and> \<not> norm_exhausted ?r \<and> \<not> norm_ambiguous ?r
    \<and> norm_split_string ?r = env_flag has_split_string v \<and> norm_uncertain ?r = env_flag options_uncertain v"
    by (rule normalize_loop_within_budget [OF _ assms(3,2) k]) (use assms(1) in \<open>simp_all add: norm_clean_def\<close>)
  then show ?thesis using assms(3,4)
    by (auto simp: normalize_command_words_def Let_def fully_peeled_def)
qed

theorem normalize_within_budget_witness:
  "norm_words (normalize_command_words [''/usr/bin/nice'', ''command'', ''env'', ''-S'', ''rm x'']) = [''env'', ''-S'', ''rm x'']
   \<and> norm_split_string (normalize_command_words [''/usr/bin/nice'', ''command'', ''env'', ''-S'', ''rm x''])"
proof -
  let ?v = "[''env'', ''-S'', ''rm x'']"
  have a: "peel_layer [''/usr/bin/nice'', ''command'', ''env'', ''-S'', ''rm x''] (''command'' # ?v)"
    by (rule peel_layer.wrapper) code_simp
  have b: "peel_layer (''command'' # ?v) ?v" by (rule peel_layer.transparent) code_simp
  have "(peel_layer ^^ 2) [''/usr/bin/nice'', ''command'', ''env'', ''-S'', ''rm x''] ?v"
    using a b by (auto simp: numeral_2_eq_2)
  moreover have "fully_peeled ?v" unfolding fully_peeled_def by code_simp
  moreover have "env_flag has_split_string ?v" unfolding env_flag_def by code_simp
  ultimately show ?thesis using normalize_within_budget [of 2 _ ?v] by simp
qed

text \<open>Beyond the budget one shape is not flagged: when the rounds are used up exactly at an \<open>env\<close> with
  a packed script, the script was never scanned, and the final check looks for a peelable head
  only, which \<open>env -S\<close> is not. All flags stay clear although the command runs a packed script.\<close>

definition deep_packed :: "string list" where
  "deep_packed = ''command'' # concat (replicate 15 [''timeout'', ''1'', ''command'']) @ [''env'', ''-S'', ''$X'']"

lemma deep_packed_not_flagged:
  "norm_clean (normalize_command_words deep_packed)"
  "norm_words (normalize_command_words deep_packed) = [''env'', ''-S'', ''$X'']"
  "env_flag has_split_string [''env'', ''-S'', ''$X'']"
  unfolding env_flag_def by code_simp+

end
