(* ===== verification/Shell_Inline.thy ===== *)
theory Shell_Inline
  imports Shell_Words
begin

text \<open>
  Commands that run code handed to them (\<open>permission/policy.rs\<close> of the workspace crate): shells with
  an inline \<open>-c\<close> script, and the interpreters and executors whose head alone makes a rule a grant to
  run anything.

  The scan of a shell's options is a loop over the words after the head. Its only positive answer
  names a word of the command; the theory shows that this word exists, that the head is a known
  shell and that a \<open>-c\<close> flag precedes it, and that a command whose head is a known shell and which
  has a \<open>-c\<close> cluster as its first option is never taken for a command without inline script.
\<close>

section \<open>Inline scripts\<close>

datatype shell_word = Literal_Word string | Untrusted_Word

datatype inline_shell_script = NotInline | Inline_Literal nat | Inline_Untrusted | Inline_Unrecognized

definition is_potential_inline :: "inline_shell_script \<Rightarrow> bool" where
  "is_potential_inline s = (case s of Inline_Literal _ \<Rightarrow> True | Inline_Untrusted \<Rightarrow> True | _ \<Rightarrow> False)"

definition INLINE_SHELLS :: "string list" where
  "INLINE_SHELLS = [''bash'', ''sh'', ''dash'', ''zsh'', ''ksh'']"

definition ambiguous_inline :: "bool \<Rightarrow> inline_shell_script" where
  "ambiguous_inline saw_c = (if saw_c then Inline_Untrusted else Inline_Unrecognized)"

definition finish_literal :: "bool \<Rightarrow> nat \<Rightarrow> inline_shell_script" where
  "finish_literal dynamic_head i = (if dynamic_head then Inline_Untrusted else Inline_Literal i)"

definition no_inline :: "bool \<Rightarrow> inline_shell_script" where
  "no_inline unrecognized = (if unrecognized then Inline_Unrecognized else NotInline)"

text \<open>The loop, at word \<open>i\<close>, with the words from there on.\<close>

fun scan_shell_options :: "bool \<Rightarrow> nat \<Rightarrow> bool \<Rightarrow> bool \<Rightarrow> shell_word list \<Rightarrow> inline_shell_script" where
  "scan_shell_options dyn i saw_c unrec [] =
     (if saw_c then Inline_Untrusted else if unrec then Inline_Unrecognized else NotInline)"
| "scan_shell_options dyn i saw_c unrec (Untrusted_Word # ws) = ambiguous_inline saw_c"
| "scan_shell_options dyn i saw_c unrec (Literal_Word w # ws) =
     (if w = ''--'' \<or> w = ''-'' then
        (if \<not> saw_c then no_inline unrec
         else case ws of Literal_Word _ # _ \<Rightarrow> finish_literal dyn (i + 1) | _ \<Rightarrow> Inline_Untrusted)
      else if \<not> starts_with w ''-'' \<and> \<not> starts_with w ''+'' then
        (if saw_c then finish_literal dyn i else no_inline unrec)
      else if w = ''--init-file'' \<or> w = ''--rcfile'' then
        (case ws of Literal_Word _ # ws' \<Rightarrow> scan_shell_options dyn (i + 2) saw_c unrec ws' | _ \<Rightarrow> ambiguous_inline saw_c)
      else if starts_with w ''--'' then
        (if w = ''--noprofile'' \<or> w = ''--norc'' \<or> w = ''--posix'' then scan_shell_options dyn (i + 1) saw_c unrec ws
         else if saw_c then Inline_Untrusted
         else scan_shell_options dyn (i + 1) saw_c True ws)
      else if w \<in> set [''-o'', ''+o'', ''-O'', ''+O''] then
        (case ws of
           Literal_Word v # ws' \<Rightarrow>
             if \<not> starts_with v ''-'' then scan_shell_options dyn (i + 2) saw_c unrec ws' else ambiguous_inline saw_c
         | _ \<Rightarrow> ambiguous_inline saw_c)
      else if starts_with w ''-O'' \<and> length w > 2 then scan_shell_options dyn (i + 1) saw_c unrec ws
      else if (starts_with w ''+O'' \<or> starts_with w ''+o'') \<and> length w > 2 then scan_shell_options dyn (i + 1) saw_c unrec ws
      else if starts_with w ''-o'' \<and> length w > 2 then ambiguous_inline saw_c
      else if starts_with w ''+'' then scan_shell_options dyn (i + 1) saw_c unrec ws
      else (let flags = drop 1 w
            in if CHR ''o'' \<in> set flags \<or> CHR ''O'' \<in> set flags then ambiguous_inline saw_c
               else scan_shell_options dyn (i + 1) (saw_c \<or> CHR ''c'' \<in> set flags) unrec ws))"

definition shell_dash_c_script :: "shell_word list \<Rightarrow> inline_shell_script" where
  "shell_dash_c_script ws = (case ws of
     [] \<Rightarrow> NotInline
   | Untrusted_Word # rest \<Rightarrow> scan_shell_options True 1 False False rest
   | Literal_Word program # rest \<Rightarrow>
       if base_name program \<notin> set INLINE_SHELLS then NotInline
       else scan_shell_options False 1 False False rest)"

section \<open>Executors\<close>

definition EXEC_VEHICLE_HEADS :: "string list" where
  "EXEC_VEHICLE_HEADS =
     [''sh'', ''bash'', ''zsh'', ''dash'', ''ksh'', ''fish'',
      ''deno'', ''bun'', ''julia'', ''rscript'', ''awk'', ''gawk'', ''mawk'', ''nawk'', ''nodejs'', ''luajit'', ''phpdbg'',
      ''php-cgi'', ''pythonw'',
      ''npx'', ''bunx'', ''pipx'', ''uvx'', ''uv'',
      ''xargs'', ''find'', ''sudo'', ''doas'', ''su'', ''ssh'', ''watch'', ''setsid'', ''flock'', ''chroot'', ''nsenter'',
      ''docker'', ''podman'']"

definition EXEC_VEHICLE_HEAD_FAMILIES :: "string list" where
  "EXEC_VEHICLE_HEAD_FAMILIES = [''python'', ''node'', ''ruby'', ''perl'', ''php'', ''lua'']"

definition normalized_command_head :: "string list \<Rightarrow> string option" where
  "normalized_command_head ws = (case head_name ws of
     None \<Rightarrow> None
   | Some b \<Rightarrow> (let head = to_ascii_lowercase b
               in Some (case strip_suffix ''.exe'' head of Some h \<Rightarrow> h | None \<Rightarrow> head)))"

definition is_version_suffix :: "string \<Rightarrow> bool" where
  "is_version_suffix rest =
     (let core = (case strip_suffix ''t'' rest of Some r \<Rightarrow> r | None \<Rightarrow> rest)
      in list_all (\<lambda>c. is_ascii_digit c \<or> c = CHR ''.'') core)"

definition head_is_exec_vehicle :: "string list \<Rightarrow> bool" where
  "head_is_exec_vehicle ws = (case normalized_command_head ws of
     None \<Rightarrow> False
   | Some head \<Rightarrow> head \<in> set EXEC_VEHICLE_HEADS
       \<or> list_ex (\<lambda>family. case strip_prefix family head of
           None \<Rightarrow> False | Some rest \<Rightarrow> is_version_suffix rest) EXEC_VEHICLE_HEAD_FAMILIES)"

section \<open>What the scan finds\<close>

lemma finish_literal_eq: "finish_literal dyn i = Inline_Literal j \<longleftrightarrow> \<not> dyn \<and> i = j"
  by (simp add: finish_literal_def)

lemma no_literal [simp]: "ambiguous_inline b \<noteq> Inline_Literal j" "no_inline b \<noteq> Inline_Literal j"
  by (simp_all add: ambiguous_inline_def no_inline_def)

definition has_c_flag :: "shell_word \<Rightarrow> bool" where
  "has_c_flag sw = (case sw of Untrusted_Word \<Rightarrow> False
     | Literal_Word w \<Rightarrow> starts_with w ''-'' \<and> CHR ''c'' \<in> set (drop 1 w))"

declare scan_shell_options.simps(3) [simp del]

text \<open>One turn of the loop: the scan stops without a literal, stops at this or the next word after a
  \<open>-c\<close>, or goes on.\<close>

definition scan_turn :: "bool \<Rightarrow> nat \<Rightarrow> bool \<Rightarrow> string \<Rightarrow> shell_word list \<Rightarrow> inline_shell_script set" where
  "scan_turn dyn i saw_c w ws = {r. (\<forall>j. r \<noteq> Inline_Literal j)
     \<or> (saw_c \<and> r = finish_literal dyn i)
     \<or> (saw_c \<and> r = finish_literal dyn (i + 1) \<and> (\<exists>s t. ws = Literal_Word s # t))
     \<or> (\<exists>c u. r = scan_shell_options dyn (i + 1) c u ws \<and> (c \<longrightarrow> saw_c \<or> has_c_flag (Literal_Word w)))
     \<or> (\<exists>s t u. ws = Literal_Word s # t \<and> r = scan_shell_options dyn (i + 2) saw_c u t)}"

lemma scan_turnI:
  "Inline_Untrusted \<in> scan_turn dyn i saw_c w ws" "ambiguous_inline b \<in> scan_turn dyn i saw_c w ws"
  "no_inline b \<in> scan_turn dyn i saw_c w ws"
  "saw_c \<Longrightarrow> finish_literal dyn i \<in> scan_turn dyn i saw_c w ws"
  "saw_c \<Longrightarrow> finish_literal dyn (i + 1) \<in> scan_turn dyn i saw_c w (Literal_Word s # t)"
  "scan_shell_options dyn (i + 1) saw_c u ws \<in> scan_turn dyn i saw_c w ws"
  "c \<longrightarrow> saw_c \<or> has_c_flag (Literal_Word w) \<Longrightarrow> scan_shell_options dyn (i + 1) c u ws \<in> scan_turn dyn i saw_c w ws"
  "scan_shell_options dyn (i + 2) saw_c u t \<in> scan_turn dyn i saw_c w (Literal_Word s # t)"
  by (auto simp: scan_turn_def)

lemma scan_literal_turn:
  "scan_shell_options dyn i saw_c unrec (Literal_Word w # ws) \<in> scan_turn dyn i saw_c w ws"
proof -
  have dash: "starts_with w ''-''" if "\<not> (\<not> starts_with w ''-'' \<and> \<not> starts_with w ''+'')" "\<not> starts_with w ''+''"
    using that by blast
  have flags: "saw_c \<or> CHR ''c'' \<in> set (drop 1 w) \<longrightarrow> saw_c \<or> has_c_flag (Literal_Word w)"
    if "starts_with w ''-''" using that by (simp add: has_c_flag_def)
  consider "ws = []" | t where "ws = Untrusted_Word # t" | s t where "ws = Literal_Word s # t"
    by (metis list.exhaust shell_word.exhaust)
  then show ?thesis
  proof cases
    case 1
    show ?thesis unfolding scan_shell_options.simps(3) unfolding 1 list.case shell_word.case Let_def
      by (intro if_memI2 scan_turnI flags dash; blast)
  next
    case 2
    show ?thesis unfolding scan_shell_options.simps(3) unfolding 2 list.case shell_word.case Let_def
      by (intro if_memI2 scan_turnI flags dash; blast)
  next
    case 3
    show ?thesis unfolding scan_shell_options.simps(3) unfolding 3 list.case shell_word.case Let_def
      by (intro if_memI2 scan_turnI flags dash; blast)
  qed
qed

lemma scan_literal:
  assumes "scan_shell_options dyn i saw_c unrec ws = Inline_Literal j"
  shows "\<not> dyn \<and> i \<le> j \<and> j - i < length ws \<and> (\<exists>s. ws ! (j - i) = Literal_Word s)
    \<and> (saw_c \<or> (\<exists>k < j - i. has_c_flag (ws ! k)))"
  using assms
proof (induction "length ws" arbitrary: i saw_c unrec ws rule: less_induct)
  case less
  show ?case
  proof (cases ws rule: list.exhaust)
    case Nil
    then show ?thesis using less.prems by (simp split: if_splits)
  next
    case (Cons a rest)
    then obtain w where a: "a = Literal_Word w" using less.prems by (cases a) auto
    note ws = Cons [unfolded a]
    from scan_literal_turn [of dyn i saw_c unrec w rest] less.prems consider
        (here) "saw_c" "finish_literal dyn i = Inline_Literal j"
      | (next_word) s t where "saw_c" "finish_literal dyn (i + 1) = Inline_Literal j" "rest = Literal_Word s # t"
      | (one) c u where "scan_shell_options dyn (i + 1) c u rest = Inline_Literal j" "c \<longrightarrow> saw_c \<or> has_c_flag a"
      | (two) s t u where "rest = Literal_Word s # t" "scan_shell_options dyn (i + 2) saw_c u t = Inline_Literal j"
      unfolding ws a by (auto simp: scan_turn_def)
    then show ?thesis
    proof cases
      case one
      note ih = less.hyps [OF _ one(1)]
      have d: "\<not> dyn" "i + 1 \<le> j" "j - (i + 1) < length rest" "\<exists>s. rest ! (j - (i + 1)) = Literal_Word s"
        "c \<or> (\<exists>k < j - (i + 1). has_c_flag (rest ! k))"
        using ih ws by auto
      have j: "j - i = Suc (j - (i + 1))" using d(2) by simp
      have "saw_c \<or> (\<exists>k < j - i. has_c_flag (ws ! k))"
      proof (cases c)
        case True
        then have "saw_c \<or> has_c_flag (ws ! 0)" using one(2) Cons by simp
        moreover have "0 < j - i" using j by simp
        ultimately show ?thesis by blast
      next
        case False
        then obtain k where "k < j - (i + 1)" "has_c_flag (rest ! k)" using d(5) by blast
        then have "Suc k < j - i" "has_c_flag (ws ! Suc k)" using j Cons by auto
        then show ?thesis by blast
      qed
      then show ?thesis using d j Cons by simp
    next
      case two
      note ih = less.hyps [OF _ two(2)]
      have d: "\<not> dyn" "i + 2 \<le> j" "j - (i + 2) < length t" "\<exists>s. t ! (j - (i + 2)) = Literal_Word s"
        "saw_c \<or> (\<exists>k < j - (i + 2). has_c_flag (t ! k))"
        using ih ws two(1) by auto
      have j: "j - i = Suc (Suc (j - (i + 2)))" using d(2) by simp
      have "\<exists>k < j - i. has_c_flag (ws ! k)" if "k < j - (i + 2)" "has_c_flag (t ! k)" for k
        using that j Cons two(1) by (intro exI [of _ "Suc (Suc k)"]) simp
      then show ?thesis using d j Cons two(1) by auto
    qed (use Cons a in \<open>auto simp: finish_literal_eq\<close>)
  qed
qed

lemma dash_c_literal:
  assumes "shell_dash_c_script ws = Inline_Literal j"
  shows "\<exists>program rest s. ws = Literal_Word program # rest \<and> base_name program \<in> set INLINE_SHELLS
    \<and> 0 < j \<and> j < length ws \<and> ws ! j = Literal_Word s \<and> (\<exists>k < j. 0 < k \<and> has_c_flag (ws ! k))"
proof -
  consider program rest where "ws = Literal_Word program # rest" "base_name program \<in> set INLINE_SHELLS"
      "scan_shell_options False 1 False False rest = Inline_Literal j"
    | rest where "scan_shell_options True 1 False False rest = Inline_Literal j"
    using assms unfolding shell_dash_c_script_def
    by (cases ws; cases "hd ws") (auto simp only: list.case shell_word.case list.sel split: if_split_asm)
  then show ?thesis
  proof cases
    case 1
    note d = scan_literal [OF 1(3)]
    then obtain k where k: "k < j - 1" "has_c_flag (rest ! k)" by auto
    then have "Suc k < j \<and> 0 < Suc k \<and> has_c_flag (ws ! Suc k)" using 1(1) by auto
    moreover have "0 < j" "j < length ws" "\<exists>s. ws ! j = Literal_Word s" using d 1(1) by (auto simp: nth_Cons')
    ultimately show ?thesis using 1(1,2) by blast
  next
    case 2
    then show ?thesis using scan_literal by blast
  qed
qed

text \<open>A known shell whose first option is a plain cluster with \<open>c\<close>, such as \<open>bash -lc\<close>, is never
  cleared: the answer names the script or is one of the answers on which the callers ask.\<close>

lemma scan_saw_c: "scan_shell_options dyn i True unrec ws \<noteq> NotInline"
proof (induction "length ws" arbitrary: i unrec ws rule: less_induct)
  case less
  show ?case
  proof (cases ws rule: list.exhaust)
    case (Cons a rest)
    show ?thesis
    proof (cases a)
      case (Literal_Word w)
      have ih: "scan_shell_options dyn k True u t \<in> {r. r \<noteq> NotInline}" if "length t < length ws" for k u t
        using less that by simp
      have b: "finish_literal dyn k \<in> {r. r \<noteq> NotInline}" "ambiguous_inline True \<in> {r. r \<noteq> NotInline}"
        "Inline_Untrusted \<in> {r. r \<noteq> NotInline}" for k
        by (simp_all add: finish_literal_def ambiguous_inline_def)
      have "scan_shell_options dyn i True unrec (Literal_Word w # rest) \<in> {r. r \<noteq> NotInline}"
        unfolding scan_shell_options.simps(3) Let_def
        by (intro if_memI2; cases rest; cases "hd rest") (use ih b Cons in auto)
      then show ?thesis using Cons Literal_Word by simp
    qed (simp add: Cons ambiguous_inline_def)
  qed simp
qed

definition c_cluster :: "string \<Rightarrow> bool" where
  "c_cluster w \<longleftrightarrow> starts_with w ''-'' \<and> \<not> starts_with w ''--'' \<and> CHR ''c'' \<in> set w
     \<and> CHR ''o'' \<notin> set w \<and> CHR ''O'' \<notin> set w"

lemma scan_c_cluster:
  assumes "c_cluster w"
  shows "scan_shell_options dyn i saw_c unrec (Literal_Word w # ws) = scan_shell_options dyn (i + 1) True unrec ws"
proof -
  obtain v where w: "w = CHR ''-'' # v" using assms by (auto simp: c_cluster_def starts_with_iff)
  have c: "CHR ''c'' \<in> set v" "CHR ''o'' \<notin> set v" "CHR ''O'' \<notin> set v" "\<not> starts_with v ''-''"
    using assms by (auto simp: c_cluster_def w starts_with_def)
  obtain x xs where v: "v = x # xs" "x \<noteq> CHR ''-''" "x \<noteq> CHR ''o''" "x \<noteq> CHR ''O''"
    using c by (cases v) (auto simp: starts_with_iff)
  show ?thesis using c v unfolding scan_shell_options.simps(3) w by (simp add: starts_with_def)
qed

text \<open>Inline scripts are recognised. An answer that names a word names an existing literal word after
  the head, the head is one of the known shells, and an option with a \<open>c\<close> flag stands between the
  two. And a known shell whose first option is a cluster with \<open>c\<close> (and no \<open>o\<close>) is never cleared as
  having no inline script; when the next word is not an option, it is the script.\<close>

theorem dash_c_recognised:
  "(shell_dash_c_script ws = Inline_Literal j \<longrightarrow>
      (\<exists>program rest s. ws = Literal_Word program # rest \<and> base_name program \<in> set INLINE_SHELLS
        \<and> 0 < j \<and> j < length ws \<and> ws ! j = Literal_Word s \<and> (\<exists>k < j. 0 < k \<and> has_c_flag (ws ! k))))
   \<and> (base_name p \<in> set INLINE_SHELLS \<and> c_cluster w \<longrightarrow>
        shell_dash_c_script (Literal_Word p # Literal_Word w # rest) \<noteq> NotInline
        \<and> (\<not> starts_with s ''-'' \<and> \<not> starts_with s ''+'' \<longrightarrow>
             shell_dash_c_script (Literal_Word p # Literal_Word w # Literal_Word s # rest) = Inline_Literal 2))"
proof -
  have "shell_dash_c_script (Literal_Word p # Literal_Word w # rest) \<noteq> NotInline"
    if "base_name p \<in> set INLINE_SHELLS" "c_cluster w"
    using that by (simp add: shell_dash_c_script_def scan_c_cluster scan_saw_c)
  moreover have "shell_dash_c_script (Literal_Word p # Literal_Word w # Literal_Word s # rest) = Inline_Literal 2"
    if "base_name p \<in> set INLINE_SHELLS" "c_cluster w" "\<not> starts_with s ''-''" "\<not> starts_with s ''+''"
  proof -
    have "s \<noteq> ''--''" "s \<noteq> ''-''" using that(3) by (auto simp: starts_with_def)
    then have "scan_shell_options False 2 True False (Literal_Word s # rest) = finish_literal False 2"
      using that(3,4) by (simp add: scan_shell_options.simps(3))
    then show ?thesis using that by (simp add: shell_dash_c_script_def scan_c_cluster finish_literal_def numeral_2_eq_2)
  qed
  ultimately show ?thesis using dash_c_literal by blast
qed

theorem dash_c_recognised_witness:
  "shell_dash_c_script [Literal_Word ''/bin/bash'', Literal_Word ''-lc'', Literal_Word ''rm x''] = Inline_Literal 2"
proof -
  have "base_name ''/bin/bash'' \<in> set INLINE_SHELLS" "c_cluster ''-lc''"
    "\<not> starts_with ''rm x'' ''-'' \<and> \<not> starts_with ''rm x'' ''+''"
    unfolding c_cluster_def by code_simp+
  then show ?thesis using dash_c_recognised [of _ _ "''/bin/bash''" "''-lc''" "[]" "''rm x''"] by blast
qed

end
