(* ===== verification/Shell_Access.thy ===== *)
theory Shell_Access
  imports Shell_Inline
begin

text \<open>
  Which files a shell script reads and writes (\<open>permission/shell_access.rs\<close> of the workspace crate).

  The analysis reads the syntax tree, also of scripts that do not decompose into plain commands: the
  invocations with their words, some of which are only known at run time, the targets of
  redirections, and the changes of directory with the part of the script in which they act. The
  operands of known programs are sorted into reads, writes and creations. A node is given with its
  ancestors, innermost first, each with the sibling that follows on the way down, which is what the
  code reads through \<open>parent()\<close> and \<open>next_sibling()\<close>.
\<close>

section \<open>Nodes with their ancestors\<close>

type_synonym ts_frame = "ts_node \<times> ts_node option"
type_synonym ts_cursor = "ts_node \<times> ts_frame list"

definition child_cursors :: "ts_cursor \<Rightarrow> ts_cursor list" where
  "child_cursors c = (let cs = node_children (fst c)
     in map (\<lambda>i. (cs ! i, (fst c, if Suc i < length cs then Some (cs ! Suc i) else None) # snd c)) [0..<length cs])"

text \<open>The nodes in the order in which the loops with a stack take them; the top is the head.\<close>

lemma sum_node_weight: "sum_list (map node_weight (node_children n)) < node_weight n"
  by (cases n) simp

lemma map_fst_child_cursors: "map fst (child_cursors c) = node_children (fst c)"
  by (simp add: child_cursors_def Let_def comp_def map_nth)

function visit :: "ts_cursor list \<Rightarrow> ts_cursor list" where
  "visit [] = []"
| "visit (c # stack) = c # visit (rev (child_cursors c) @ stack)"
  by pat_completeness auto
termination
proof (relation "measure (\<lambda>stack. sum_list (map (node_weight \<circ> fst) stack))")
  fix c :: ts_cursor and stack
  have "map (node_weight \<circ> fst) (child_cursors c) = map node_weight (node_children (fst c))"
    by (metis map_fst_child_cursors map_map)
  then show "(rev (child_cursors c) @ stack, c # stack) \<in> measure (\<lambda>stack. sum_list (map (node_weight \<circ> fst) stack))"
    using sum_node_weight [of "fst c"] by (simp add: rev_map [symmetric])
qed simp

definition visited :: "ts_node \<Rightarrow> ts_cursor list" where
  "visited root = visit [(root, [])]"

section \<open>Where a change of directory acts\<close>

text \<open>The end \<open>usize::MAX\<close> of the whole script, which no node reaches, is \<open>None\<close>.\<close>

record execution_scope =
  scope_start :: nat
  scope_end :: "nat option"

definition node_scope :: "ts_node \<Rightarrow> execution_scope" where
  "node_scope n = \<lparr>scope_start = start_byte n, scope_end = Some (end_byte n)\<rparr>"

definition scope_contains :: "execution_scope \<Rightarrow> execution_scope \<Rightarrow> bool" where
  "scope_contains a b \<longleftrightarrow> scope_start a \<le> scope_start b
     \<and> (case scope_end a of None \<Rightarrow> True
        | Some x \<Rightarrow> (case scope_end b of None \<Rightarrow> False | Some y \<Rightarrow> x \<ge> y))"

fun execution_scope_from :: "ts_node \<Rightarrow> ts_frame list \<Rightarrow> execution_scope" where
  "execution_scope_from current [] = \<lparr>scope_start = 0, scope_end = None\<rparr>"
| "execution_scope_from current ((parent, next_sibling) # frames) =
     (if (case next_sibling of None \<Rightarrow> False | Some s \<Rightarrow> kind s = ''&'')
      then node_scope (if kind current = ''list'' then current else parent)
      else if kind parent \<in> set [''subshell'', ''command_substitution'', ''process_substitution''] then node_scope parent
      else if kind parent = ''pipeline'' then node_scope current
      else execution_scope_from parent frames)"

definition execution_scope_of :: "ts_cursor \<Rightarrow> execution_scope" where
  "execution_scope_of c = execution_scope_from (fst c) (snd c)"

record cwd_poison =
  poison_at :: nat
  poison_scope :: execution_scope

definition shell_program_name :: "string \<Rightarrow> string" where
  "shell_program_name word = base_name word"

definition is_cwd_change_node :: "ts_node \<Rightarrow> string \<Rightarrow> bool" where
  "is_cwd_change_node n src \<longleftrightarrow> kind n = ''command''
     \<and> (case Option.bind (child_by_field_name n ''name'') (\<lambda>name. utf8_text name src) of
          None \<Rightarrow> False
        | Some program \<Rightarrow> shell_program_name program \<in> set [''cd'', ''pushd'', ''popd''])"

definition cwd_poison_positions :: "ts_node \<Rightarrow> string \<Rightarrow> cwd_poison list" where
  "cwd_poison_positions root src =
     filter_map (\<lambda>c. if is_cwd_change_node (fst c) src
        then Some \<lparr>poison_at = start_byte (fst c), poison_scope = execution_scope_of c\<rparr> else None)
       (visited root)"

definition script_has_cwd_change :: "ts_node \<Rightarrow> string \<Rightarrow> bool" where
  "script_has_cwd_change root src \<longleftrightarrow> cwd_poison_positions root src \<noteq> []"

definition cwd_unpinned_before :: "cwd_poison list \<Rightarrow> nat \<Rightarrow> execution_scope \<Rightarrow> bool" where
  "cwd_unpinned_before positions pos sc =
     list_ex (\<lambda>p. poison_at p < pos \<and> (poison_scope p = sc \<or> scope_contains (poison_scope p) sc)) positions"

section \<open>The words of an invocation\<close>

datatype invocation_word = Invocation_Literal string | Invocation_Untrusted

record shell_invocation =
  inv_start :: nat
  inv_scope :: execution_scope
  inv_words :: "invocation_word list"
  wrapper_words :: "string list"

definition literal_words :: "invocation_word list \<Rightarrow> string list" where
  "literal_words ws = filter_map (\<lambda>w. case w of Invocation_Literal s \<Rightarrow> Some s | Invocation_Untrusted \<Rightarrow> None) ws"

definition shell_words :: "invocation_word list \<Rightarrow> shell_word list" where
  "shell_words ws = map (\<lambda>w. case w of Invocation_Literal s \<Rightarrow> Literal_Word s | Invocation_Untrusted \<Rightarrow> Untrusted_Word) ws"

record checked_invocation_peel =
  cp_words :: "invocation_word list"
  cp_chdir :: bool
  cp_split_string :: bool
  cp_uncertain :: bool
  cp_exhausted :: bool
  cp_ambiguous :: bool

definition unwrap_invocation_checked :: "shell_invocation \<Rightarrow> checked_invocation_peel" where
  "unwrap_invocation_checked iv =
     (let norm = normalize_command_words (wrapper_words iv);
          peeled_count = length (wrapper_words iv) - length (norm_words norm)
      in \<lparr>cp_words = drop peeled_count (inv_words iv), cp_chdir = norm_chdir norm,
          cp_split_string = norm_split_string norm, cp_uncertain = norm_uncertain norm,
          cp_exhausted = norm_exhausted norm, cp_ambiguous = norm_ambiguous norm\<rparr>)"

datatype arg_text = Arg_Literal string | Arg_Ambiguous

text \<open>The descendants of a node, itself apart; the test does not depend on their order.\<close>

definition node_has_expansion :: "ts_node \<Rightarrow> bool" where
  "node_has_expansion n =
     list_ex (\<lambda>c. kind c \<in> set [''expansion'', ''simple_expansion'', ''command_substitution'',
        ''arithmetic_expansion'', ''process_substitution'']) (tl (all_nodes n))"

definition is_windows_path_like :: "string \<Rightarrow> bool" where
  "is_windows_path_like raw \<longleftrightarrow> starts_with raw [CHR 0x5C, CHR 0x5C]
     \<or> (case raw of a # b # _ \<Rightarrow> is_ascii_alphabetic a \<and> b = CHR '':'' | _ \<Rightarrow> False)"

fun fold_escapes :: "string \<Rightarrow> string option" where
  "fold_escapes [] = Some []"
| "fold_escapes (ch # rest) =
     (if ch = CHR 0x5C then (case rest of [] \<Rightarrow> None | n # rest' \<Rightarrow> map_option ((#) n) (fold_escapes rest'))
      else map_option ((#) ch) (fold_escapes rest))"

definition decode_unquoted_word :: "string \<Rightarrow> string option" where
  "decode_unquoted_word raw =
     (if CHR 0x5C \<notin> set raw then Some raw
      else if is_windows_path_like raw then Some raw
      else fold_escapes raw)"

fun fold_quoted :: "string \<Rightarrow> string option" where
  "fold_quoted [] = Some []"
| "fold_quoted (ch # rest) =
     (if ch \<noteq> CHR 0x5C then map_option ((#) ch) (fold_quoted rest)
      else case rest of
        [] \<Rightarrow> None
      | n # rest' \<Rightarrow>
          map_option (\<lambda>out. (if n \<in> set [CHR ''$'', CHR 0x60, CHR 0x22, CHR 0x5C, NL] then [n] else [CHR 0x5C, n]) @ out)
            (fold_quoted rest'))"

definition decode_double_quoted_content :: "string \<Rightarrow> string option" where
  "decode_double_quoted_content content = (if CHR 0x5C \<notin> set content then Some content else fold_quoted content)"

definition arg_of :: "string option \<Rightarrow> arg_text" where
  "arg_of x = (case x of Some l \<Rightarrow> Arg_Literal l | None \<Rightarrow> Arg_Ambiguous)"

text \<open>\<open>raw.strip_prefix(q).and_then(|s| s.strip_suffix(q)).unwrap_or(raw)\<close>\<close>

definition strip_quote :: "char \<Rightarrow> string \<Rightarrow> string" where
  "strip_quote q raw = (case Option.bind (strip_prefix [q] raw) (strip_suffix [q]) of Some s \<Rightarrow> s | None \<Rightarrow> raw)"

definition shell_node_arg :: "ts_node \<Rightarrow> string \<Rightarrow> arg_text option" where
  "shell_node_arg n src =
     (if kind n = ''variable_assignment'' then None
      else if kind n = ''word'' \<or> kind n = ''number'' then
        Some (arg_of (Option.bind (utf8_text n src) decode_unquoted_word))
      else if kind n = ''raw_string'' then
        map_option (\<lambda>raw. Arg_Literal (strip_quote (CHR 0x27) raw)) (utf8_text n src)
      else if kind n = ''string'' then
        (if node_has_expansion n then Some Arg_Ambiguous
         else map_option (\<lambda>raw. arg_of (decode_double_quoted_content (strip_quote (CHR 0x22) raw))) (utf8_text n src))
      else if kind n = ''concatenation'' then
        (if node_has_expansion n then Some Arg_Ambiguous
         else Some (arg_of (Option.bind (utf8_text n src) decode_shell_literal_spelling)))
      else Some Arg_Ambiguous)"

definition invocation_operand :: "ts_node \<Rightarrow> string \<Rightarrow> arg_text option" where
  "invocation_operand child src =
     (if kind child = ''command_name'' then Option.bind (named_child child 0) (\<lambda>inner. shell_node_arg inner src)
      else shell_node_arg child src)"

definition invocation_at :: "ts_cursor \<Rightarrow> string \<Rightarrow> shell_invocation" where
  "invocation_at c src =
     (let ws = filter_map (\<lambda>child. map_option (\<lambda>a. case a of
                  Arg_Literal w \<Rightarrow> Invocation_Literal w | Arg_Ambiguous \<Rightarrow> Invocation_Untrusted)
                 (invocation_operand child src)) (named_children (fst c))
      in \<lparr>inv_start = start_byte (fst c), inv_scope = execution_scope_of c, inv_words = ws,
          wrapper_words = map (\<lambda>w. case w of Invocation_Literal s \<Rightarrow> s | Invocation_Untrusted \<Rightarrow> NUL) ws\<rparr>)"

definition shell_command_invocations :: "ts_node \<Rightarrow> string \<Rightarrow> shell_invocation list" where
  "shell_command_invocations root src =
     sort_key inv_start (map (\<lambda>c. invocation_at c src) (filter (\<lambda>c. kind (fst c) = ''command'') (visited root)))"

definition words_are_opaque_shell :: "shell_word list \<Rightarrow> bool" where
  "words_are_opaque_shell ws \<longleftrightarrow> is_potential_inline (shell_dash_c_script ws)
     \<or> (case ws of Literal_Word program # _ \<Rightarrow> shell_program_name program = ''eval'' | _ \<Rightarrow> False)"

definition tree_has_opaque_shell :: "ts_node \<Rightarrow> string \<Rightarrow> bool" where
  "tree_has_opaque_shell root src =
     list_ex (\<lambda>iv. words_are_opaque_shell (shell_words (cp_words (unwrap_invocation_checked iv))))
       (shell_command_invocations root src)"

section \<open>Redirections\<close>

datatype shell_file_mode = Mode_Read | Mode_Write | Mode_Create

record shell_redirect_target =
  redirect_path :: "string option"
  redirect_mode :: shell_file_mode
  redirect_ambiguous :: bool
  redirect_start :: nat
  redirect_scope :: execution_scope

definition shell_arg_is_ambiguous :: "string \<Rightarrow> bool" where
  "shell_arg_is_ambiguous tok \<longleftrightarrow> CHR ''*'' \<in> set tok \<or> CHR ''?'' \<in> set tok \<or> CHR ''['' \<in> set tok"

text \<open>The operator is the first child that has an angle; an inline text ends the search.\<close>

fun redirect_operator :: "ts_node list \<Rightarrow> string option" where
  "redirect_operator [] = None"
| "redirect_operator (c # cs) =
     (if contains_sub (kind c) ''<<'' then None
      else if CHR ''>'' \<in> set (kind c) \<or> CHR ''<'' \<in> set (kind c) then Some (kind c)
      else redirect_operator cs)"

definition shell_redirect_one :: "ts_node \<Rightarrow> string \<Rightarrow> (string option \<times> shell_file_mode \<times> bool) option" where
  "shell_redirect_one n src = (case redirect_operator (node_children n) of
     None \<Rightarrow> None
   | Some redirect \<Rightarrow>
       (let mode = (if CHR ''>'' \<in> set redirect then Mode_Write else Mode_Read);
            duplicates_fd = (redirect = ''>&'' \<or> redirect = ''<&'')
        in case Option.bind (child_by_field_name n ''destination'') (\<lambda>dest. shell_node_arg dest src) of
             None \<Rightarrow> None
           | Some (Arg_Literal s) \<Rightarrow>
               if s = [] \<or> starts_with s ''&'' \<or> duplicates_fd \<and> (s = ''-'' \<or> list_all is_ascii_digit s) then None
               else Some (Some s, mode, shell_arg_is_ambiguous s)
           | Some Arg_Ambiguous \<Rightarrow> Some (None, mode, True)))"

definition shell_redirect_targets :: "ts_node \<Rightarrow> string \<Rightarrow> shell_redirect_target list" where
  "shell_redirect_targets root src =
     filter_map (\<lambda>c. if kind (fst c) = ''file_redirect''
        then map_option (\<lambda>(path, mode, amb). \<lparr>redirect_path = path, redirect_mode = mode, redirect_ambiguous = amb,
               redirect_start = start_byte (fst c), redirect_scope = execution_scope_of c\<rparr>)
             (shell_redirect_one (fst c) src)
        else None) (visited root)"

section \<open>Operands of known programs\<close>

definition shell_file_mode_of :: "string \<Rightarrow> shell_file_mode option" where
  "shell_file_mode_of program =
     (if program \<in> set [''cat'', ''tac'', ''nl'', ''head'', ''tail'', ''grep'', ''egrep'', ''fgrep'', ''rg'', ''sed'',
         ''awk'', ''less'', ''more'', ''bat'', ''strings'', ''xxd'', ''od'', ''hexdump'', ''base64'',
         ''base32'', ''cut'', ''sort'', ''uniq'', ''wc'', ''type'', ''get-content'', ''gc'', ''diff'',
         ''comm'', ''rev'', ''jq'', ''yq'', ''select-string'', ''sls'', ''ag'', ''ack'', ''zcat'',
         ''zless'', ''zmore'', ''zgrep'', ''zegrep'', ''zfgrep'', ''bzcat'', ''bzgrep'', ''xzcat'',
         ''xzgrep'', ''zstdcat'', ''lz4cat''] then Some Mode_Read
      else if program \<in> set [''tee'', ''set-content'', ''out-file'', ''add-content'', ''tee-object'', ''truncate'']
        then Some Mode_Write
      else None)"

definition shell_sed_in_place :: "string list \<Rightarrow> bool" where
  "shell_sed_in_place ws = list_ex (\<lambda>w. w = ''--in-place'' \<or> starts_with w ''--in-place=''
     \<or> starts_with w ''-'' \<and> \<not> starts_with w ''--'' \<and> CHR ''i'' \<in> set w) (drop 1 ws)"

text \<open>\<open>words.get(i + 1)\<close> of \<open>enumerate\<close>: a word is taken with the word after it.\<close>

definition with_next :: "string list \<Rightarrow> (string \<times> string option) list" where
  "with_next ws = zip ws (map Some (drop 1 ws) @ [None])"

definition shell_output_flag_values :: "string list \<Rightarrow> string list" where
  "shell_output_flag_values ws = filter_map (\<lambda>(tok, nxt).
     case strip_prefix ''--output='' tok of
       Some v \<Rightarrow> Some v
     | None \<Rightarrow>
         (case Option.bind (strip_prefix ''-o'' tok) (\<lambda>v. if v = [] then None else Some v) of
            Some v \<Rightarrow> Some v
          | None \<Rightarrow> if tok = ''--output'' \<or> tok = ''-o'' then nxt else None)) (with_next ws)"

definition value_flag_values :: "string list \<Rightarrow> string \<Rightarrow> string list" where
  "value_flag_values ws flag = filter_map (\<lambda>(tok, nxt).
     case strip_prefix (flag @ ''='') tok of
       Some v \<Rightarrow> Some v
     | None \<Rightarrow>
         if tok = flag then nxt
         else if \<not> starts_with flag ''--'' then
           Option.bind (strip_prefix flag tok) (\<lambda>v. if v = [] then None else Some v)
         else None) (with_next ws)"

text \<open>The loop over the operands; the flag says whether a double dash was seen.\<close>

fun candidates_from :: "bool \<Rightarrow> string list \<Rightarrow> string list" where
  "candidates_from end_of_options [] = []"
| "candidates_from end_of_options (tok # rest) =
     (if \<not> end_of_options \<and> tok = ''--'' then candidates_from True rest
      else if end_of_options \<or> tok \<noteq> ''-'' \<and> \<not> starts_with tok ''-'' then tok # candidates_from end_of_options rest
      else candidates_from end_of_options rest)"

definition shell_file_candidates :: "string list \<Rightarrow> string list" where
  "shell_file_candidates ws = candidates_from False (drop 1 ws)"

definition special_file_operands :: "string \<Rightarrow> string list \<Rightarrow> (string \<times> shell_file_mode) list" where
  "special_file_operands program ws =
     (if program = ''dd'' then
        filter_map (\<lambda>tok. case strip_prefix ''if='' tok of
            Some p \<Rightarrow> Some (p, Mode_Read)
          | None \<Rightarrow> map_option (\<lambda>p. (p, Mode_Write)) (strip_prefix ''of='' tok)) (drop 1 ws)
      else if program \<in> set [''sort'', ''go'', ''git''] then
        map (\<lambda>output. (output, Mode_Write)) (shell_output_flag_values ws)
      else if program = ''rustc'' then
        map (\<lambda>output. (output, Mode_Write)) (shell_output_flag_values ws @ value_flag_values ws ''--out-dir'')
      else if program = ''rustfmt'' then
        map (\<lambda>path. (path, Mode_Write)) (shell_file_candidates ws)
      else [])"

definition is_creation_program :: "string \<Rightarrow> bool" where
  "is_creation_program program \<longleftrightarrow> program = ''mkdir'' \<or> program = ''touch''"

definition shell_path_command_operands :: "string \<Rightarrow> string list \<Rightarrow> (string \<times> shell_file_mode) list option" where
  "shell_path_command_operands program ws =
     (let operands = shell_file_candidates ws
      in if program \<in> set [''cp'', ''mv'', ''ln'', ''install''] then
           (if operands = [] then None
            else Some (map (\<lambda>s. (s, Mode_Read)) (butlast operands) @ [(last operands, Mode_Write)]))
         else if program \<in> set [''rm'', ''rmdir''] then Some (map (\<lambda>c. (c, Mode_Write)) operands)
         else if is_creation_program program then Some (map (\<lambda>c. (c, Mode_Create)) operands)
         else if program = ''uniq'' then
           (case operands of
              inp # out # _ \<Rightarrow> Some [(inp, Mode_Read), (out, Mode_Write)]
            | _ \<Rightarrow> None)
         else None)"

definition is_directory_operand :: "string \<Rightarrow> bool" where
  "is_directory_operand tok \<longleftrightarrow> tok = ''.'' \<or> tok = ''..'' \<or> ends_with tok ''/''"

definition shell_reader_can_recurse :: "string \<Rightarrow> string list \<Rightarrow> string list \<Rightarrow> bool" where
  "shell_reader_can_recurse program ws candidates \<longleftrightarrow>
     program \<in> set [''grep'', ''egrep'', ''fgrep'']
       \<and> list_ex (\<lambda>w. w = ''--recursive'' \<or> w = ''--dereference-recursive''
           \<or> starts_with w ''-'' \<and> \<not> starts_with w ''--'' \<and> (CHR ''r'' \<in> set w \<or> CHR ''R'' \<in> set w)) ws
     \<or> program \<in> set [''rg'', ''ag'', ''ack'']
       \<and> (length candidates \<le> 1 \<or> list_ex is_directory_operand (drop 1 candidates))"

section \<open>The paths a script writes\<close>

definition command_words_write_paths :: "string list \<Rightarrow> string list" where
  "command_words_write_paths ws =
     (let inner = unwrap_wrappers ws
      in if inner = [] then []
         else (let program = to_ascii_lowercase (shell_program_name (hd inner));
                   special = map fst (filter (\<lambda>(_, mode). mode = Mode_Write) (special_file_operands program inner))
               in case shell_path_command_operands program inner of
                    Some operands \<Rightarrow> special @ map fst (filter (\<lambda>(_, mode). mode = Mode_Write) operands)
                  | None \<Rightarrow>
                      special @ (if shell_file_mode_of program = Some Mode_Write
                                    \<or> program = ''sed'' \<and> shell_sed_in_place inner
                                 then shell_file_candidates inner else [])))"

definition command_words_creation_paths :: "string list \<Rightarrow> string list" where
  "command_words_creation_paths ws =
     (let inner = unwrap_wrappers ws
      in if inner = [] then []
         else (case shell_path_command_operands (to_ascii_lowercase (shell_program_name (hd inner))) inner of
            None \<Rightarrow> []
          | Some operands \<Rightarrow> map fst (filter (\<lambda>(_, mode). mode = Mode_Create) operands)))"

record write_paths_split =
  redirect_paths :: "string list"
  unextracted_write_redirect :: bool
  word_paths :: "string list"
  creation_paths :: "string list"

definition command_write_paths_split :: "ts_node \<Rightarrow> string \<Rightarrow> write_paths_split" where
  "command_write_paths_split root src =
     (let writes = filter (\<lambda>r. redirect_mode r = Mode_Write) (shell_redirect_targets root src);
          invocations = map (\<lambda>iv. literal_words (inv_words iv)) (shell_command_invocations root src)
      in \<lparr>redirect_paths = filter_map redirect_path writes,
          unextracted_write_redirect = list_ex (\<lambda>r. redirect_path r = None) writes,
          word_paths = concat (map command_words_write_paths invocations),
          creation_paths = concat (map command_words_creation_paths invocations)\<rparr>)"

definition command_write_paths_in_tree :: "ts_node \<Rightarrow> string \<Rightarrow> string list" where
  "command_write_paths_in_tree root src =
     (let split = command_write_paths_split root src in redirect_paths split @ word_paths split)"

definition is_safe_write_sink :: "string \<Rightarrow> bool" where
  "is_safe_write_sink path \<longleftrightarrow> path \<in> set [''/dev/null'', ''/dev/stdout'', ''/dev/stderr'']"

end
