(* ===== verification/Permission_Rules.thy ===== *)
theory Permission_Rules
  imports Json
begin

text \<open>
  The vocabulary of the permission engine (\<open>permission/types.rs\<close> of the workspace crate) and the
  parser of permission rules (\<open>permission/rules.rs\<close>).

  A rule is an action, a filter on the kind of tool, and an optional pattern. Users write rules as
  text, \<open>Bash(git push:*)\<close> or \<open>WebFetch(domain:example.com)\<close>; parentheses and backslashes of the
  content are escaped with backslashes. The theory shows that a rule written with that escaping is
  read back as it was meant, that the parser never yields a rule wider than the tool it names, and
  how hook prompts and dynamic tool calls are decoded.
\<close>

section \<open>Data\<close>

datatype access_kind =
    Access_Read "string option"
  | Access_Grep (grep_path: "string option") (grep_glob: "string option")
  | Access_Edit string
  | Access_Bash string
  | Access_MCPTool (mcp_name: string) (mcp_input: json)
  | Access_WebFetch string
  | Access_WebSearch string
  | Access_AgentMessage (subagent_id: string)

datatype decision =
    Allow
  | Ask
  | FollowupMessage string
  | Reject string
  | PolicyDeny string
  | Cancelled

datatype edit_policy = Edit_Ask | Edit_Allow | Edit_Reject

datatype prompt_policy = Prompt_Ask | Prompt_Deny | Prompt_Auto | Prompt_Allow

datatype pattern_mode = Mode_Glob | Mode_Domain

datatype rule_action = Action_Allow | Action_Deny | Action_Ask

datatype tool_filter =
    Filter_Any | Filter_Bash | Filter_Edit | Filter_Read | Filter_Grep | Filter_Mcp
  | Filter_WebFetch | Filter_WebSearch | Filter_AgentMessage

record permission_rule =
  action :: rule_action
  tool :: tool_filter
  pattern :: "string option"
  pattern_mode :: pattern_mode

record permission_config =
  rules :: "permission_rule list"
  prompt_policy :: prompt_policy
  default_mode_configured :: bool

definition permission_config_new :: "permission_rule list \<Rightarrow> permission_config" where
  "permission_config_new rs =
     \<lparr>rules = rs, prompt_policy = Prompt_Ask, default_mode_configured = False\<rparr>"

section \<open>Clients\<close>

datatype client_type = Generic | GrokTUI | GrokWeb | Nebula | Extension | GrokPager | Desktop

fun user_agent_label :: "client_type \<Rightarrow> string" where
  "user_agent_label Generic = ''grok-shell''"
| "user_agent_label GrokTUI = ''grok-tui''"
| "user_agent_label GrokWeb = ''grok-web''"
| "user_agent_label Nebula = ''nebula''"
| "user_agent_label Extension = ''grok-code-extension''"
| "user_agent_label GrokPager = ''grok-pager''"
| "user_agent_label Desktop = ''grok-desktop''"

definition from_client_identifier :: "string option \<Rightarrow> client_type" where
  "from_client_identifier cid =
     (if cid = Some ''grok-web'' then GrokWeb
      else if cid = Some ''nebula'' then Nebula
      else if cid = Some ''grok-code-extension'' then Extension
      else if cid = Some ''grok-desktop'' then Desktop
      else if cid = Some ''grok-pager'' then GrokPager
      else Generic)"

fun feedback_label :: "client_type \<Rightarrow> string" where
  "feedback_label GrokTUI = ''tui''"
| "feedback_label GrokPager = ''tui''"
| "feedback_label GrokWeb = ''web''"
| "feedback_label Nebula = ''nebula''"
| "feedback_label Extension = ''extension''"
| "feedback_label Generic = ''agent''"
| "feedback_label Desktop = ''desktop''"

definition can_present_permission_prompt :: "client_type \<Rightarrow> bool" where
  "can_present_permission_prompt c \<longleftrightarrow> c \<noteq> Generic"

text \<open>A client that names itself by its label is recognised, the shell and the TUI apart, which
  are both taken for the generic client.\<close>

lemma client_label_round_trip:
  "from_client_identifier (Some (user_agent_label c)) = (if c = GrokTUI then Generic else c)"
  by (cases c) (simp_all add: from_client_identifier_def)

section \<open>Hooks that ask\<close>

record hook_ask =
  hook_name :: string
  reason :: "string option"

text \<open>\<open>s.split_whitespace()\<close>: the pieces between white space, the empty ones dropped.\<close>

function split_whitespace_from :: "string \<Rightarrow> string \<Rightarrow> string list" where
  "split_whitespace_from cur [] = (if cur = [] then [] else [rev cur])"
| "split_whitespace_from cur (c # cs) =
     (case strip_any ws_encodings (c # cs) of
        Some r \<Rightarrow>
          if length r < length (c # cs)
          then (if cur = [] then [] else [rev cur]) @ split_whitespace_from [] r
          else []
      | None \<Rightarrow> split_whitespace_from (c # cur) cs)"
  by pat_completeness auto
termination
  by (relation "measure (\<lambda>(cur, s). length s)") auto

definition split_whitespace :: "string \<Rightarrow> string list" where
  "split_whitespace s = split_whitespace_from [] s"

definition HOOK_ASK_SEPARATOR :: string where
  "HOOK_ASK_SEPARATOR = [CHR 0x20, CHR 0xE2, CHR 0x80, CHR 0x94, CHR 0x20]"

definition ask_line :: "hook_ask \<Rightarrow> string" where
  "ask_line h =
     (let rsn = join '' '' (split_whitespace (case reason h of None \<Rightarrow> [] | Some r \<Rightarrow> r))
      in if rsn = [] then ''hook '' @ [CHR 0x27] @ hook_name h @ [CHR 0x27] @ '' asks for confirmation''
         else ''hook '' @ [CHR 0x27] @ hook_name h @ [CHR 0x27] @ '' asks: '' @ rsn)"

definition prompt_header :: "hook_ask \<Rightarrow> string \<Rightarrow> string" where
  "prompt_header h act = act @ HOOK_ASK_SEPARATOR @ ask_line h"

definition strip_prompt_header :: "hook_ask \<Rightarrow> string \<Rightarrow> string" where
  "strip_prompt_header h title =
     (case Option.bind (strip_suffix (ask_line h) title) (strip_suffix HOOK_ASK_SEPARATOR) of
        None \<Rightarrow> title | Some act \<Rightarrow> act)"

lemma strip_prompt_header_round_trip: "strip_prompt_header h (prompt_header h act) = act"
proof -
  have "strip_suffix (ask_line h) (prompt_header h act) = Some (act @ HOOK_ASK_SEPARATOR)"
    by (simp add: strip_suffix_iff prompt_header_def)
  then show ?thesis by (simp add: strip_prompt_header_def)
qed

section \<open>Dynamic tool calls\<close>

text \<open>A tool call that only arrives as JSON is classified by the fields it has.\<close>

fun find_map :: "('a \<Rightarrow> 'b option) \<Rightarrow> 'a list \<Rightarrow> 'b option" where
  "find_map f [] = None"
| "find_map f (x # xs) = (case f x of None \<Rightarrow> find_map f xs | Some y \<Rightarrow> Some y)"

definition dynamic_string_field :: "json \<Rightarrow> string list \<Rightarrow> string option" where
  "dynamic_string_field v ks = find_map (\<lambda>k. Option.bind (obj_get v k) as_str) ks"

definition dynamic_has_field :: "json \<Rightarrow> string list \<Rightarrow> bool" where
  "dynamic_has_field v ks = list_ex (\<lambda>k. obj_get v k \<noteq> None) ks"

definition MUTATION_FIELDS :: "string list" where
  "MUTATION_FIELDS =
     [''oldString'', ''old_string'', ''newString'', ''new_string'', ''content'', ''edits'',
      ''replaceAll'', ''replace_all'']"

definition access_kind_from_dynamic :: "json \<Rightarrow> access_kind" where
  "access_kind_from_dynamic v =
     (let name = dynamic_string_field v [''name'', ''tool'', ''tool_name'', ''variant'']
      in if name = Some ''send_feedback'' \<or> name = Some ''SendFeedback''
         then Access_Edit ''feedback_draft''
         else case dynamic_string_field v [''filePath'', ''file_path'', ''path''] of
           Some p \<Rightarrow> if dynamic_has_field v MUTATION_FIELDS then Access_Edit p else Access_Read (Some p)
         | None \<Rightarrow> (case dynamic_string_field v [''command''] of
             Some c \<Rightarrow> Access_Bash c
           | None \<Rightarrow> Access_Read None))"

lemma find_map_None: "find_map f xs = None \<longleftrightarrow> (\<forall>x \<in> set xs. f x = None)"
  by (induction xs) (auto split: option.splits)

text \<open>No call with a mutation field and a path is ever taken for a read.\<close>

lemma dynamic_mutation_is_edit:
  assumes "dynamic_has_field v MUTATION_FIELDS"
    and "dynamic_string_field v [''filePath'', ''file_path'', ''path''] \<noteq> None"
  shows "\<exists>p. access_kind_from_dynamic v = Access_Edit p"
  using assms by (auto simp: access_kind_from_dynamic_def Let_def)

section \<open>Default modes\<close>

datatype default_permission_mode =
  Mode_Default | Mode_AcceptEdits | Mode_Plan | Mode_Auto | Mode_DontAsk | Mode_BypassPermissions

definition mode_from_str :: "string \<Rightarrow> string + default_permission_mode" where
  "mode_from_str s =
     (if s = ''default'' then Inr Mode_Default
      else if s = ''acceptEdits'' then Inr Mode_AcceptEdits
      else if s = ''plan'' then Inr Mode_Plan
      else if s = ''auto'' then Inr Mode_Auto
      else if s = ''dontAsk'' then Inr Mode_DontAsk
      else if s = ''bypassPermissions'' then Inr Mode_BypassPermissions
      else Inl s)"

record default_mode_effects =
  eff_prompt_policy :: prompt_policy
  accept_edits :: bool
  bypass_permissions :: bool

definition effects_default :: default_mode_effects where
  "effects_default = \<lparr>eff_prompt_policy = Prompt_Ask, accept_edits = False, bypass_permissions = False\<rparr>"

fun mode_effects :: "default_permission_mode \<Rightarrow> default_mode_effects" where
  "mode_effects Mode_AcceptEdits = effects_default\<lparr>accept_edits := True\<rparr>"
| "mode_effects Mode_BypassPermissions = effects_default\<lparr>bypass_permissions := True\<rparr>"
| "mode_effects Mode_Default = effects_default"
| "mode_effects Mode_Plan = effects_default"
| "mode_effects Mode_DontAsk = effects_default\<lparr>eff_prompt_policy := Prompt_Deny\<rparr>"
| "mode_effects Mode_Auto = effects_default\<lparr>eff_prompt_policy := Prompt_Auto\<rparr>"

section \<open>Parsing rules\<close>

datatype rule_parse_error =
    UnsupportedToolPrefix string
  | UnknownToolPrefix string
  | MalformedRule string

fun rule_error_display :: "rule_parse_error \<Rightarrow> string" where
  "rule_error_display (UnsupportedToolPrefix p) = ''unsupported tool prefix: '' @ p"
| "rule_error_display (UnknownToolPrefix p) = ''unknown tool prefix: '' @ p"
| "rule_error_display (MalformedRule d) = ''malformed rule: '' @ d"

definition tool_name_to_filter :: "string \<Rightarrow> tool_filter option" where
  "tool_name_to_filter n =
     (if n = ''Bash'' then Some Filter_Bash
      else if n = ''Read'' then Some Filter_Read
      else if n = ''Edit'' \<or> n = ''Write'' then Some Filter_Edit
      else if n = ''MCPTool'' then Some Filter_Mcp
      else if n = ''Grep'' \<or> n = ''Glob'' then Some Filter_Grep
      else if n = ''WebFetch'' then Some Filter_WebFetch
      else if n = ''WebSearch'' then Some Filter_WebSearch
      else if n = ''AgentMessage'' \<or> n = ''SendSubagentMessage'' \<or> n = ''SendAgentMessage''
        then Some Filter_AgentMessage
      else None)"

abbreviation BACKSLASH :: char where "BACKSLASH \<equiv> CHR 0x5C"

text \<open>The number of backslashes just before a position.\<close>

fun backslashes_before :: "string \<Rightarrow> nat \<Rightarrow> nat" where
  "backslashes_before s 0 = 0"
| "backslashes_before s (Suc j) = (if s ! j = BACKSLASH then Suc (backslashes_before s j) else 0)"

definition is_unescaped :: "string \<Rightarrow> nat \<Rightarrow> bool" where
  "is_unescaped s pos \<longleftrightarrow> even (backslashes_before s pos)"

definition find_first_unescaped :: "string \<Rightarrow> char \<Rightarrow> nat option" where
  "find_first_unescaped s t = find (\<lambda>i. s ! i = t \<and> is_unescaped s i) [0 ..< length s]"

definition find_last_unescaped :: "string \<Rightarrow> char \<Rightarrow> nat option" where
  "find_last_unescaped s t = find (\<lambda>i. s ! i = t \<and> is_unescaped s i) (rev [0 ..< length s])"

definition unescape_rule_content :: "string \<Rightarrow> string" where
  "unescape_rule_content s =
     (if BACKSLASH \<notin> set s then s
      else replace [BACKSLASH, BACKSLASH] [BACKSLASH]
             (replace [BACKSLASH, CHR '')''] '')'' (replace [BACKSLASH, CHR ''(''] ''('' s)))"

definition strip_domain_prefix :: "string \<Rightarrow> string \<times> pattern_mode" where
  "strip_domain_prefix p = (case strip_prefix ''domain:'' p of
     Some d \<Rightarrow> (d, Mode_Domain) | None \<Rightarrow> (p, Mode_Glob))"

definition strip_bash_colon_wildcard :: "string \<Rightarrow> string" where
  "strip_bash_colon_wildcard p = (case strip_suffix '':*'' p of Some q \<Rightarrow> q | None \<Rightarrow> p)"

definition is_unsupported_tool :: "string \<Rightarrow> bool" where
  "is_unsupported_tool n \<longleftrightarrow> n = ''EnterWorktree'' \<or> n = ''NotebookEdit'' \<or> n = ''NotebookRead''"

definition non_empty :: "string \<Rightarrow> string option" where
  "non_empty p = (if p = [] then None else Some p)"

text \<open>The branch with an opening parenthesis at \<open>open_paren\<close>.\<close>

definition parse_rule_call :: "string \<Rightarrow> nat \<Rightarrow> rule_action \<Rightarrow> rule_parse_error + permission_rule" where
  "parse_rule_call rule open_paren act =
     (let prefix_trimmed = trim (take open_paren rule);
          content_and_close = drop (Suc open_paren) rule
      in case find_last_unescaped content_and_close (CHR '')'') of
           None \<Rightarrow> Inl (MalformedRule ''missing closing parenthesis'')
         | Some close_paren \<Rightarrow>
             (let raw_content = trim (take close_paren content_and_close);
                  pat = (if raw_content = [] \<or> raw_content = ''*'' then []
                         else unescape_rule_content raw_content)
              in case tool_name_to_filter prefix_trimmed of
                   None \<Rightarrow> if is_unsupported_tool prefix_trimmed
                           then Inl (UnsupportedToolPrefix prefix_trimmed)
                           else Inl (UnknownToolPrefix prefix_trimmed)
                 | Some flt \<Rightarrow>
                     (let pat = (if flt = Filter_Bash then strip_bash_colon_wildcard pat else pat);
                          (p, m) = strip_domain_prefix pat
                      in Inr \<lparr>action = act, tool = flt, pattern = non_empty p, pattern_mode = m\<rparr>)))"

text \<open>The branch without a parenthesis: a bare tool name, an MCP spelling, or a pattern for any
  tool.\<close>

definition parse_rule_bare :: "string \<Rightarrow> rule_action \<Rightarrow> rule_parse_error + permission_rule" where
  "parse_rule_bare rule act =
     (if is_unsupported_tool rule then Inl (UnsupportedToolPrefix rule)
      else case tool_name_to_filter rule of
        Some flt \<Rightarrow> Inr \<lparr>action = act, tool = flt, pattern = None, pattern_mode = Mode_Glob\<rparr>
      | None \<Rightarrow>
          (case strip_prefix ''mcp__'' rule of
             Some (r # rs) \<Rightarrow>
               (let rest = r # rs;
                    pat = (if rest = ''*'' then None
                           else if contains_sub rest ''__'' then Some rest
                           else Some (rest @ ''__*''))
                in Inr \<lparr>action = act, tool = Filter_Mcp, pattern = pat, pattern_mode = Mode_Glob\<rparr>)
           | _ \<Rightarrow> Inr \<lparr>action = act, tool = Filter_Any, pattern = non_empty rule,
                       pattern_mode = Mode_Glob\<rparr>))"

definition parse_permission_rule :: "string \<Rightarrow> rule_action \<Rightarrow> rule_parse_error + permission_rule" where
  "parse_permission_rule rule0 act =
     (let rule = trim rule0
      in case find_first_unescaped rule (CHR ''('') of
           Some open_paren \<Rightarrow> parse_rule_call rule open_paren act
         | None \<Rightarrow> parse_rule_bare rule act)"

section \<open>Escaping\<close>

text \<open>How the content of a rule is written: the inverse of the reader's unescaping.\<close>

fun escape_rule_content :: "string \<Rightarrow> string" where
  "escape_rule_content [] = []"
| "escape_rule_content (c # cs) =
     (if c = BACKSLASH \<or> c = CHR ''('' \<or> c = CHR '')''
      then BACKSLASH # c # escape_rule_content cs else c # escape_rule_content cs)"

text \<open>What each replacement of the reader leaves of an escaped content.\<close>

fun escape_some :: "char set \<Rightarrow> string \<Rightarrow> string" where
  "escape_some A [] = []"
| "escape_some A (c # cs) = (if c \<in> A then BACKSLASH # c # escape_some A cs else c # escape_some A cs)"

lemma escape_rule_content_some:
  "escape_rule_content s = escape_some {BACKSLASH, CHR ''('', CHR '')''} s"
  by (induction s) auto

lemma escape_some_empty: "escape_some {} s = s"
  by (induction s) auto

text \<open>A replacement of \<open>\c\<close> by \<open>c\<close> takes \<open>c\<close> out of the escaped characters, as long as the
  backslash itself still is one, or is the last.\<close>

lemma replace_escape_step:
  assumes "c \<in> A" and "c = BACKSLASH \<longrightarrow> A = {BACKSLASH}" and "c \<noteq> BACKSLASH \<longrightarrow> BACKSLASH \<in> A"
  shows "replace [BACKSLASH, c] [c] (escape_some A s) = escape_some (A - {c}) s"
proof (induction s)
  case (Cons x xs)
  have two: "replace [BACKSLASH, c] [c] (BACKSLASH # c # t) = c # replace [BACKSLASH, c] [c] t" for t
    using replace_match [of "[BACKSLASH, c]" "[c]" t] by simp
  consider "x = c" | "x \<in> A" "x \<noteq> c" | "x \<notin> A" by blast
  then show ?case
  proof cases
    case 1
    then show ?thesis using Cons assms(1) by (simp add: two)
  next
    case 2
    then have "c \<noteq> BACKSLASH" using assms(2) by auto
    have a: "replace [BACKSLASH, c] [c] (BACKSLASH # x # t) = BACKSLASH # replace [BACKSLASH, c] [c] (x # t)" for t
      by (rule replace_no_match) (use 2 in \<open>auto simp: starts_with_iff\<close>)
    have b: "replace [BACKSLASH, c] [c] (x # escape_some A xs) = x # replace [BACKSLASH, c] [c] (escape_some A xs)"
    proof (rule replace_no_match, cases xs)
      case (Cons y ys)
      then show "\<not> starts_with (x # escape_some A xs) [BACKSLASH, c]"
        using \<open>c \<noteq> BACKSLASH\<close> assms(1) by (auto simp: starts_with_iff)
    qed (auto simp: starts_with_iff)
    show ?thesis using 2 Cons by (simp add: a b)
  next
    case 3
    then have "x \<noteq> BACKSLASH" using assms by auto
    then have "replace [BACKSLASH, c] [c] (x # t) = x # replace [BACKSLASH, c] [c] t" for t
      by (intro replace_no_match) (auto simp: starts_with_iff)
    then show ?thesis using 3 Cons by simp
  qed
qed simp

lemma unescape_escape: "unescape_rule_content (escape_rule_content s) = s"
proof (cases "BACKSLASH \<in> set (escape_rule_content s)")
  case True
  have "unescape_rule_content (escape_rule_content s) = escape_some {} s"
    using True unfolding unescape_rule_content_def escape_rule_content_some
    by (simp add: replace_escape_step insert_Diff_if Diff_insert_absorb)
  then show ?thesis by (simp add: escape_some_empty)
next
  case False
  then have "escape_rule_content s = s" by (induction s) (auto split: if_splits)
  then show ?thesis using False by (simp add: unescape_rule_content_def)
qed

section \<open>Writing a rule and reading it back\<close>

lemma backslashes_before_takeWhile:
  "n \<le> length s \<Longrightarrow> backslashes_before s n = length (takeWhile (\<lambda>c. c = BACKSLASH) (rev (take n s)))"
  by (induction n) (auto simp: take_Suc_conv_app_nth)

lemma escape_rule_content_append:
  "escape_rule_content (s @ t) = escape_rule_content s @ escape_rule_content t"
  by (induction s) auto

lemma escaped_backslashes_even:
  "even (length (takeWhile (\<lambda>c. c = BACKSLASH) (rev (escape_rule_content s))))"
  by (induction s rule: rev_induct) (auto simp: escape_rule_content_append)

lemma is_unescaped_after_escape: "is_unescaped (escape_rule_content s @ t) (length (escape_rule_content s))"
  by (simp add: is_unescaped_def backslashes_before_takeWhile escaped_backslashes_even)

lemma find_last_unescaped_end:
  "find_last_unescaped (escape_rule_content s @ [t]) t = Some (length (escape_rule_content s))"
  by (simp add: find_last_unescaped_def nth_append is_unescaped_after_escape)

lemma find_first_unescaped_prefix:
  assumes "BACKSLASH \<notin> set n" and "t \<notin> set n"
  shows "find_first_unescaped (n @ t # s) t = Some (length n)"
proof -
  have "\<forall>j < length n. (n @ t # s) ! j \<noteq> t" using assms(2) by (auto simp: nth_append in_set_conv_nth)
  moreover have "takeWhile (\<lambda>c. c = BACKSLASH) (rev n) = []"
    using assms(1) by (cases n rule: rev_cases) auto
  then have "is_unescaped (n @ t # s) (length n)"
    by (simp add: is_unescaped_def backslashes_before_takeWhile)
  ultimately show ?thesis by (simp add: find_first_unescaped_def find_upt_Some del: upt_Suc)
qed

definition TOOL_NAMES :: "string list" where
  "TOOL_NAMES =
     [''Bash'', ''Read'', ''Edit'', ''Write'', ''MCPTool'', ''Grep'', ''Glob'', ''WebFetch'', ''WebSearch'',
      ''AgentMessage'', ''SendSubagentMessage'', ''SendAgentMessage'']"

lemma TOOL_NAMES_plain:
  "list_all (\<lambda>n. n \<noteq> [] \<and> is_ascii_graphic (hd n) \<and> is_ascii_graphic (last n)
     \<and> BACKSLASH \<notin> set n \<and> CHR ''('' \<notin> set n) TOOL_NAMES"
  by code_simp

lemma tool_names_plain:
  assumes "tool_name_to_filter n = Some f"
  shows "n \<noteq> []" "is_ascii_graphic (hd n)" "is_ascii_graphic (last n)" "BACKSLASH \<notin> set n" "CHR ''('' \<notin> set n"
proof -
  have "n \<in> set TOOL_NAMES" using assms unfolding tool_name_to_filter_def TOOL_NAMES_def list.set insert_iff by (meson option.distinct(1))
  then show "n \<noteq> []" "is_ascii_graphic (hd n)" "is_ascii_graphic (last n)" "BACKSLASH \<notin> set n" "CHR ''('' \<notin> set n"
    using TOOL_NAMES_plain by (auto simp: list_all_iff)
qed

lemma escape_rule_content_ends:
  assumes "c \<noteq> []"
  shows "escape_rule_content c \<noteq> []"
    and "is_ascii_graphic (hd c) \<Longrightarrow> is_ascii_graphic (hd (escape_rule_content c))"
    and "last (escape_rule_content c) = last c"
    and "escape_rule_content c = ''*'' \<longleftrightarrow> c = ''*''"
proof -
  show "escape_rule_content c \<noteq> []" using assms by (cases c) auto
  show "is_ascii_graphic (hd c) \<Longrightarrow> is_ascii_graphic (hd (escape_rule_content c))"
    using assms by (cases c) (auto simp: is_ascii_graphic_def)
  have "\<exists>d e. c = d @ [e]" using assms by (metis append_butlast_last_id)
  then show "last (escape_rule_content c) = last c" by (auto simp: escape_rule_content_append)
  show "escape_rule_content c = ''*'' \<longleftrightarrow> c = ''*''"
    using assms by (cases c; cases "tl c") auto
qed

lemma parse_written_rule:
  assumes "tool_name_to_filter n = Some f" and "c \<noteq> []" and "c \<noteq> ''*''"
    and "is_ascii_graphic (hd c)" and "is_ascii_graphic (last c)"
  shows "parse_permission_rule (n @ ''('' @ escape_rule_content c @ '')'') act =
    (let (p, m) = strip_domain_prefix (if f = Filter_Bash then strip_bash_colon_wildcard c else c)
     in Inr \<lparr>action = act, tool = f, pattern = non_empty p, pattern_mode = m\<rparr>)"
proof -
  let ?r = "n @ ''('' @ escape_rule_content c @ '')''"
  note n = tool_names_plain [OF assms(1)]
  note e = escape_rule_content_ends [OF assms(2)]
  have "trim ?r = ?r" using n by (intro trim_graphic) (auto simp: is_ascii_graphic_def)
  moreover have "find_first_unescaped ?r (CHR ''('') = Some (length n)"
    using find_first_unescaped_prefix [OF n(4,5)] by simp
  moreover have "trim (escape_rule_content c) = escape_rule_content c"
    using e assms by (intro trim_graphic) auto
  moreover have "trim n = n" using n by (intro trim_graphic)
  ultimately show ?thesis
    using assms(1,3) e
    by (simp add: parse_permission_rule_def parse_rule_call_def find_last_unescaped_end unescape_escape)
qed

text \<open>C13: A rule that is written as \<open>Tool(content)\<close> with parentheses and backslashes of the content
  escaped is read back as meant: the rule is for that tool and has that action, and its pattern is
  the content itself, the prefix of the content before a trailing \<open>:*\<close> for Bash, or the domain
  after \<open>domain:\<close> in domain mode for the other tools. (An empty or \<open>*\<close> content is a tool-wide rule,
  and white space around the content is not part of it.)\<close>

theorem rule_round_trip:
  assumes "tool_name_to_filter n = Some f" and "c \<noteq> []" and "c \<noteq> ''*''"
    and "is_ascii_graphic (hd c)" and "is_ascii_graphic (last c)"
  shows "let res = parse_permission_rule (n @ ''('' @ escape_rule_content c @ '')'') act
    in (\<not> starts_with c ''domain:'' \<and> \<not> (f = Filter_Bash \<and> ends_with c '':*'') \<longrightarrow>
          res = Inr \<lparr>action = act, tool = f, pattern = Some c, pattern_mode = Mode_Glob\<rparr>)
     \<and> (\<forall>q. f = Filter_Bash \<and> c = q @ '':*'' \<and> q \<noteq> [] \<and> \<not> starts_with q ''domain:'' \<longrightarrow>
          res = Inr \<lparr>action = act, tool = Filter_Bash, pattern = Some q, pattern_mode = Mode_Glob\<rparr>)
     \<and> (\<forall>d. f \<noteq> Filter_Bash \<and> c = ''domain:'' @ d \<and> d \<noteq> [] \<longrightarrow>
          res = Inr \<lparr>action = act, tool = f, pattern = Some d, pattern_mode = Mode_Domain\<rparr>)"
proof -
  have dom: "strip_domain_prefix p = (p, Mode_Glob)" if "\<not> starts_with p ''domain:''" for p
    using that by (simp add: strip_domain_prefix_def starts_with_def)
  have dom': "strip_domain_prefix (''domain:'' @ d) = (d, Mode_Domain)" for d
    using strip_prefix_append [of "''domain:''" d] by (simp add: strip_domain_prefix_def)
  have wild: "strip_bash_colon_wildcard c = c" if "\<not> ends_with c '':*''"
    using that by (simp add: strip_bash_colon_wildcard_def ends_with_def)
  have wild': "strip_bash_colon_wildcard (q @ '':*'') = q" for q
    using strip_suffix_append [of "'':*''" q] by (simp add: strip_bash_colon_wildcard_def)
  note p = parse_written_rule [OF assms, of act]
  show ?thesis
    unfolding p Let_def
  proof (intro conjI allI impI, goal_cases)
    case 1
    then show ?case using assms(2) by (cases "f = Filter_Bash") (simp_all add: dom wild non_empty_def)
  next
    case (2 q)
    then have "strip_domain_prefix q = (q, Mode_Glob)" by (intro dom) simp
    then show ?case using 2 by (simp only: wild' if_True) (simp add: non_empty_def)
  next
    case (3 d)
    then show ?case by (simp only: dom' if_False) (simp add: non_empty_def)
  qed
qed

theorem rule_round_trip_witness:
  "parse_permission_rule (''Bash('' @ escape_rule_content ''echo (a) 1'' @ '')'') Action_Deny =
     Inr \<lparr>action = Action_Deny, tool = Filter_Bash, pattern = Some ''echo (a) 1'', pattern_mode = Mode_Glob\<rparr>
   \<and> parse_permission_rule (''Bash('' @ escape_rule_content ''git push:*'' @ '')'') Action_Ask =
     Inr \<lparr>action = Action_Ask, tool = Filter_Bash, pattern = Some ''git push'', pattern_mode = Mode_Glob\<rparr>
   \<and> parse_permission_rule (''WebFetch('' @ escape_rule_content ''domain:a.b'' @ '')'') Action_Allow =
     Inr \<lparr>action = Action_Allow, tool = Filter_WebFetch, pattern = Some ''a.b'', pattern_mode = Mode_Domain\<rparr>"
proof -
  have f: "tool_name_to_filter ''Bash'' = Some Filter_Bash" "tool_name_to_filter ''WebFetch'' = Some Filter_WebFetch"
    by (simp_all add: tool_name_to_filter_def)
  show ?thesis
    using rule_round_trip [OF f(1), of "''echo (a) 1''" Action_Deny]
      rule_round_trip [OF f(1), of "''git push:*''" Action_Ask]
      rule_round_trip [OF f(2), of "''domain:a.b''" Action_Allow]
    by (simp add: Let_def is_ascii_graphic_def starts_with_def ends_with_def strip_suffix_def del: escape_rule_content.simps)
qed

end
