(* ===== verification/Path_Matching.thy ===== *)
theory Path_Matching
  imports Prelude
begin

text \<open>
  The paths of the permission engine: lexical normalisation (\<open>normalize_lexically\<close> of the paths
  crate), the spellings under which a path is matched against a rule, and the following of symbolic
  links (\<open>permission/policy.rs\<close> of the workspace crate).

  Paths are Unix paths as text; \<open>components\<close> is \<open>Path::components\<close>. The file system is an argument:
  a record of the three calls the code makes. The theory shows that a normalised path has no dot
  component and no \<open>..\<close> above the root, that normalising is idempotent, and that the relative
  spellings of a path exist only when the path lies under the working directory, so a rule for
  \<open>./**\<close> cannot be satisfied from outside it.
\<close>

section \<open>Components\<close>

datatype path_component = RootDir | CurDir | ParentDir | Normal string

definition component_of :: "string \<Rightarrow> path_component" where
  "component_of s = (if s = ''.'' then CurDir else if s = ''..'' then ParentDir else Normal s)"

text \<open>Empty pieces disappear, and so does a dot, except at the start of a relative path.\<close>

definition components :: "string \<Rightarrow> path_component list" where
  "components p =
     (let pieces = split_on (CHR ''/'') p;
          comps = map component_of (filter (\<lambda>s. s \<noteq> [] \<and> s \<noteq> ''.'') pieces)
      in if starts_with p ''/'' then RootDir # comps
         else if hd pieces = ''.'' then CurDir # comps
         else comps)"

fun component_text :: "path_component \<Rightarrow> string" where
  "component_text RootDir = ''/''"
| "component_text CurDir = ''.''"
| "component_text ParentDir = ''..''"
| "component_text (Normal s) = s"

text \<open>Collecting components into a path: they are pushed one by one.\<close>

definition collect_path :: "path_component list \<Rightarrow> string" where
  "collect_path cs = foldl (\<lambda>p c. path_join p (component_text c)) [] cs"

definition is_absolute :: "string \<Rightarrow> bool" where
  "is_absolute p \<longleftrightarrow> starts_with p ''/''"

definition path_file_name :: "string \<Rightarrow> string option" where
  "path_file_name p = (case rev (components p) of Normal s # _ \<Rightarrow> Some s | _ \<Rightarrow> None)"

definition path_strip_prefix :: "string \<Rightarrow> string \<Rightarrow> string option" where
  "path_strip_prefix p base = map_option collect_path (strip_prefix (components base) (components p))"

section \<open>Lexical normalisation\<close>

text \<open>One turn of the loop; the list of components so far is reversed, its head is \<open>last()\<close>.\<close>

fun normalize_push :: "path_component list \<Rightarrow> path_component \<Rightarrow> path_component list" where
  "normalize_push cs CurDir = cs"
| "normalize_push cs ParentDir = (case cs of
     Normal _ # rest \<Rightarrow> rest
   | RootDir # _ \<Rightarrow> cs
   | _ \<Rightarrow> ParentDir # cs)"
| "normalize_push cs c = c # cs"

definition normalize_components :: "path_component list \<Rightarrow> path_component list" where
  "normalize_components cs = rev (foldl normalize_push [] cs)"

definition normalize_lexically :: "string \<Rightarrow> string" where
  "normalize_lexically p =
     (let cs = normalize_components (components p) in if cs = [] then ''.'' else collect_path cs)"

section \<open>The spellings a path is matched under\<close>

definition is_tilde_path :: "string \<Rightarrow> bool" where
  "is_tilde_path p = (case components p of Normal first # _ \<Rightarrow> starts_with first ''~'' | _ \<Rightarrow> False)"

definition absolute_normalized_path :: "string \<Rightarrow> string option \<Rightarrow> string" where
  "absolute_normalized_path path cwd =
     (if is_tilde_path path then path
      else normalize_lexically (case cwd of
        Some d \<Rightarrow> if \<not> is_absolute path then path_join d path else path
      | None \<Rightarrow> path))"

definition path_match_string :: "string \<Rightarrow> string" where
  "path_match_string p = replace [CHR 0x5C] ''/'' p"

definition path_has_parent_dir :: "string \<Rightarrow> bool" where
  "path_has_parent_dir p = list_ex (\<lambda>c. c = ParentDir) (components p)"

definition path_match_forms :: "string \<Rightarrow> string option \<Rightarrow> string list" where
  "path_match_forms path cwd =
     (let ap = absolute_normalized_path path cwd;
          forms = [path_match_string ap]
      in case cwd of
           Some d \<Rightarrow>
             (case path_strip_prefix ap (normalize_lexically d) of
                None \<Rightarrow> forms
              | Some rel \<Rightarrow>
                  (let rel_s = path_match_string rel
                   in if rel_s = [] \<or> rel_s = ''.'' then forms @ [''.'', ''./'']
                      else forms @ [''./'' @ rel_s, rel_s]))
         | None \<Rightarrow>
             if \<not> is_absolute ap \<and> \<not> path_has_parent_dir ap \<and> \<not> is_tilde_path ap then
               (let lex_s = path_match_string ap
                in if lex_s \<noteq> ''.'' \<and> lex_s \<noteq> [] then forms @ [''./'' @ lex_s] else forms)
             else forms)"

definition raw_absolute_tool_path :: "string \<Rightarrow> string option \<Rightarrow> string option" where
  "raw_absolute_tool_path path cwd =
     (if is_tilde_path path then None
      else (let joined = (case cwd of
                  Some d \<Rightarrow> if \<not> is_absolute path then path_join d path else path
                | None \<Rightarrow> path)
            in if is_absolute joined then Some (path_match_string joined) else None))"

section \<open>Symbolic links\<close>

datatype meta_result = Meta_Ok (meta_is_symlink: bool) | Meta_NotFound | Meta_Error

record file_system =
  canonicalize :: "string \<Rightarrow> string option"
  symlink_metadata :: "string \<Rightarrow> meta_result"
  read_link :: "string \<Rightarrow> string option"

definition is_symlink_at :: "file_system \<Rightarrow> string \<Rightarrow> bool" where
  "is_symlink_at fs p \<longleftrightarrow> symlink_metadata fs p = Meta_Ok True"

fun has_symlink_from :: "file_system \<Rightarrow> string \<Rightarrow> path_component list \<Rightarrow> bool" where
  "has_symlink_from fs pre [] = False"
| "has_symlink_from fs pre (c # cs) =
     (let pre' = path_join pre (component_text c)
      in if is_symlink_at fs pre' then True else has_symlink_from fs pre' cs)"

definition path_has_symlink :: "file_system \<Rightarrow> string \<Rightarrow> bool" where
  "path_has_symlink fs absolute = (if \<not> is_absolute absolute then False else has_symlink_from fs [] (components absolute))"

definition MAX_SYMLINK_DEPTH :: nat where "MAX_SYMLINK_DEPTH = 40"

text \<open>The inner function \<open>walk\<close>. Its first argument is the number of further depths allowed, the
  source's \<open>MAX_SYMLINK_DEPTH + 1 - depth\<close>.\<close>

fun walk :: "file_system \<Rightarrow> nat \<Rightarrow> string \<Rightarrow> string option" where
  "walk fs 0 path = None"
| "walk fs (Suc k) path =
     (case canonicalize fs path of
        Some c \<Rightarrow> Some c
      | None \<Rightarrow>
          (case path_parent path of None \<Rightarrow> None | Some parent \<Rightarrow>
          (case path_file_name path of None \<Rightarrow> None | Some file_name \<Rightarrow>
          (case walk fs k parent of None \<Rightarrow> None | Some resolved_parent \<Rightarrow>
             (let candidate = path_join resolved_parent file_name
              in case symlink_metadata fs candidate of
                   Meta_Error \<Rightarrow> None
                 | Meta_NotFound \<Rightarrow> Some candidate
                 | Meta_Ok link \<Rightarrow>
                     if link then
                       (case read_link fs candidate of
                          None \<Rightarrow> None
                        | Some target \<Rightarrow>
                            walk fs k (if is_absolute target then target else path_join resolved_parent target))
                     else Some candidate)))))"

definition resolve_following_symlinks :: "file_system \<Rightarrow> string \<Rightarrow> string option" where
  "resolve_following_symlinks fs path = walk fs (Suc MAX_SYMLINK_DEPTH) path"

definition resolve_symlink_target :: "file_system \<Rightarrow> string \<Rightarrow> string option" where
  "resolve_symlink_target fs absolute =
     (if \<not> is_absolute absolute then None
      else map_option (\<lambda>r. path_match_string (normalize_lexically r)) (resolve_following_symlinks fs absolute))"

datatype symlink_follow = Follow_None | Follow_Target string | Follow_Unresolvable

definition follow_absolute_symlink :: "file_system \<Rightarrow> string \<Rightarrow> string \<Rightarrow> symlink_follow" where
  "follow_absolute_symlink fs raw_absolute lexical_absolute =
     (case resolve_symlink_target fs raw_absolute of
        Some resolved \<Rightarrow> if resolved \<noteq> lexical_absolute then Follow_Target resolved else Follow_None
      | None \<Rightarrow> if path_has_symlink fs raw_absolute then Follow_Unresolvable else Follow_None)"

section \<open>The shape of normalised paths\<close>

definition plain_name :: "string \<Rightarrow> bool" where
  "plain_name s \<longleftrightarrow> s \<noteq> [] \<and> s \<noteq> ''.'' \<and> s \<noteq> ''..'' \<and> CHR ''/'' \<notin> set s"

definition lex_normal :: "path_component list \<Rightarrow> bool" where
  "lex_normal cs \<longleftrightarrow> (\<exists>ups names. (ups = [RootDir] \<or> (\<exists>n. ups = replicate n ParentDir))
     \<and> list_all plain_name names \<and> cs = ups @ map Normal names)"

definition plain_component :: "path_component \<Rightarrow> bool" where
  "plain_component c = (case c of Normal s \<Rightarrow> plain_name s | _ \<Rightarrow> True)"

lemma lex_normalE:
  assumes "lex_normal cs"
  obtains (root) names where "list_all plain_name names" "cs = RootDir # map Normal names"
    | (rel) n names where "list_all plain_name names" "cs = replicate n ParentDir @ map Normal names"
  using assms unfolding lex_normal_def by auto

lemma lex_normal_root: "list_all plain_name names \<Longrightarrow> lex_normal (RootDir # map Normal names)"
  unfolding lex_normal_def by fastforce

lemma lex_normal_rel: "list_all plain_name names \<Longrightarrow> lex_normal (replicate n ParentDir @ map Normal names)"
  unfolding lex_normal_def by blast

text \<open>The reversed list of the loop keeps its shape.\<close>

lemma normalize_push_root:
  assumes "list_all plain_name ns" and "c \<noteq> RootDir" and "plain_component c"
  shows "\<exists>ns'. list_all plain_name ns' \<and> normalize_push (map Normal ns @ [RootDir]) c = map Normal ns' @ [RootDir]"
proof (cases c)
  case ParentDir
  then show ?thesis using assms by (cases ns) auto
next
  case (Normal s)
  then show ?thesis using assms by (intro exI [of _ "s # ns"]) (simp add: plain_component_def)
qed (use assms in auto)

lemma normalize_push_rel:
  assumes "list_all plain_name ns" and "c \<noteq> RootDir" and "plain_component c"
  shows "\<exists>n' ns'. list_all plain_name ns'
    \<and> normalize_push (map Normal ns @ replicate n ParentDir) c = map Normal ns' @ replicate n' ParentDir"
proof (cases c)
  case ParentDir
  show ?thesis
  proof (cases ns)
    case Nil
    have "normalize_push (replicate n ParentDir) ParentDir = replicate (Suc n) ParentDir" by (cases n) simp_all
    then show ?thesis using Nil ParentDir by (intro exI [of _ "Suc n"] exI [of _ "[]"]) simp
  qed (use assms ParentDir in auto)
next
  case (Normal s)
  then show ?thesis using assms by (intro exI [of _ n] exI [of _ "s # ns"]) (simp add: plain_component_def)
qed (use assms in auto)

lemma foldl_push_root:
  assumes "list_all plain_name ns" and "RootDir \<notin> set cs" and "list_all plain_component cs"
  shows "\<exists>ns'. list_all plain_name ns' \<and> foldl normalize_push (map Normal ns @ [RootDir]) cs = map Normal ns' @ [RootDir]"
  using assms
proof (induction cs arbitrary: ns)
  case (Cons c cs)
  then obtain ns' where "list_all plain_name ns'" "normalize_push (map Normal ns @ [RootDir]) c = map Normal ns' @ [RootDir]"
    using normalize_push_root [of ns c] by auto
  then show ?case using Cons by simp
qed auto

lemma foldl_push_rel:
  assumes "list_all plain_name ns" and "RootDir \<notin> set cs" and "list_all plain_component cs"
  shows "\<exists>n' ns'. list_all plain_name ns'
    \<and> foldl normalize_push (map Normal ns @ replicate n ParentDir) cs = map Normal ns' @ replicate n' ParentDir"
  using assms
proof (induction cs arbitrary: ns n)
  case (Cons c cs)
  then obtain n' ns' where "list_all plain_name ns'"
    "normalize_push (map Normal ns @ replicate n ParentDir) c = map Normal ns' @ replicate n' ParentDir"
    using normalize_push_rel [of ns c n] by auto
  then show ?case using Cons by simp
qed auto

lemma components_plain:
  "\<exists>cs. list_all plain_component cs \<and> RootDir \<notin> set cs
     \<and> components p = (if is_absolute p then RootDir # cs else cs)"
proof -
  let ?ps = "split_on (CHR ''/'') p"
  let ?cs = "map component_of (filter (\<lambda>s. s \<noteq> [] \<and> s \<noteq> ''.'') ?ps)"
  have "list_all plain_component ?cs"
    using split_on_pieces [of _ "CHR ''/''" p]
    by (auto simp: list_all_iff component_of_def plain_component_def plain_name_def)
  moreover have "RootDir \<notin> set ?cs" by (auto simp: component_of_def split: if_splits)
  ultimately show ?thesis
    by (cases "is_absolute p"; cases "hd ?ps = ''.''")
      (auto simp: components_def is_absolute_def Let_def plain_component_def intro!: exI [of _ ?cs] exI [of _ "CurDir # ?cs"])
qed

lemma normalize_components_shape:
  "if is_absolute p
   then \<exists>ns. list_all plain_name ns \<and> normalize_components (components p) = RootDir # map Normal ns
   else \<exists>n ns. list_all plain_name ns \<and> normalize_components (components p) = replicate n ParentDir @ map Normal ns"
proof -
  obtain cs where cs: "list_all plain_component cs" "RootDir \<notin> set cs"
    "components p = (if is_absolute p then RootDir # cs else cs)"
    using components_plain by blast
  show ?thesis
  proof (cases "is_absolute p")
    case True
    then obtain ns where "list_all plain_name ns" "foldl normalize_push [] (components p) = map Normal ns @ [RootDir]"
      using foldl_push_root [of "[]" cs] cs by auto
    then show ?thesis using True
      by (auto simp: normalize_components_def rev_map list_all_iff intro!: exI [of _ "rev ns"])
  next
    case False
    then obtain n ns where "list_all plain_name ns" "foldl normalize_push [] (components p) = map Normal ns @ replicate n ParentDir"
      using foldl_push_rel [of "[]" cs 0] cs by auto
    then show ?thesis using False
      by (auto simp: normalize_components_def rev_map list_all_iff intro!: exI [of _ n] exI [of _ "rev ns"])
  qed
qed

section \<open>Normalised paths as text\<close>

lemma path_join_Nil [simp]: "path_join [] s = s"
  by (simp add: path_join_def)

lemma collect_rel:
  assumes "\<forall>s \<in> set ss. s \<noteq> [] \<and> CHR ''/'' \<notin> set s" and "p \<noteq> []" and "\<not> ends_with p ''/''"
  shows "foldl (\<lambda>p s. path_join p s) p ss = join ''/'' (p # ss)"
  using assms
proof (induction ss arbitrary: p)
  case (Cons s ss)
  have s: "s \<noteq> []" "\<not> starts_with s ''/''" "\<not> ends_with s ''/''"
    using Cons.prems(1) by (auto simp: starts_with_iff ends_with_iff)
  then have "path_join p s = p @ ''/'' @ s" using Cons.prems by (simp add: path_join_def)
  moreover have "\<not> ends_with (p @ ''/'' @ s) ''/''"
    using s by (cases s rule: rev_cases) (auto simp: ends_with_iff)
  ultimately have "foldl (\<lambda>p s. path_join p s) p (s # ss) = join ''/'' ((p @ ''/'' @ s) # ss)"
    using Cons.IH [of "p @ ''/'' @ s"] Cons.prems by simp
  then show ?case by (cases ss) simp_all
qed simp

lemma collect_texts:
  assumes "\<forall>s \<in> set ss. s \<noteq> [] \<and> CHR ''/'' \<notin> set s"
  shows "foldl (\<lambda>p s. path_join p s) [] ss = join ''/'' ss"
    and "foldl (\<lambda>p s. path_join p s) ''/'' ss = ''/'' @ join ''/'' ss"
proof -
  have s: "s \<noteq> [] \<and> \<not> starts_with s ''/'' \<and> \<not> ends_with s ''/''" if "s \<in> set ss" for s
    using assms that by (auto simp: starts_with_iff ends_with_iff)
  show "foldl (\<lambda>p s. path_join p s) [] ss = join ''/'' ss"
    using assms s by (cases ss) (simp_all add: collect_rel)
  show "foldl (\<lambda>p s. path_join p s) ''/'' ss = ''/'' @ join ''/'' ss"
  proof (cases ss)
    case (Cons t ts)
    have "\<not> ends_with (''/'' @ t) ''/''"
      using s [of t] Cons by (cases t rule: rev_cases) (auto simp: ends_with_iff)
    moreover have "path_join ''/'' t = ''/'' @ t" using s [of t] Cons by (simp add: path_join_def ends_with_def strip_suffix_def)
    ultimately have "foldl (\<lambda>p s. path_join p s) ''/'' ss = join ''/'' ((''/'' @ t) # ts)"
      using collect_rel [of ts "''/'' @ t"] assms Cons by simp
    then show ?thesis using Cons by (cases ts) simp_all
  qed simp
qed

lemma foldl_map_text:
  "foldl (\<lambda>p c. path_join p (component_text c)) p cs = foldl (\<lambda>p s. path_join p s) p (map component_text cs)"
  by (induction cs arbitrary: p) auto

lemma collect_path_root:
  "list_all plain_name ns \<Longrightarrow> collect_path (RootDir # map Normal ns) = ''/'' @ join ''/'' ns"
  using collect_texts(2) [of ns]
  by (simp add: collect_path_def foldl_map_text list_all_iff plain_name_def comp_def)

lemma collect_path_rel:
  "list_all plain_name ns \<Longrightarrow>
     collect_path (replicate n ParentDir @ map Normal ns) = join ''/'' (replicate n ''..'' @ ns)"
proof -
  assume "list_all plain_name ns"
  then have "\<forall>s \<in> set (replicate n ''..'' @ ns). s \<noteq> [] \<and> CHR ''/'' \<notin> set s"
    by (simp add: list_all_iff plain_name_def ball_Un)
  from collect_texts(1) [OF this] show ?thesis
    unfolding collect_path_def foldl_map_text by (simp add: comp_def del: foldl_append)
qed

lemma components_of_pieces:
  assumes "list_all plain_name ns"
  shows "map component_of (filter (\<lambda>s. s \<noteq> [] \<and> s \<noteq> ''.'') ns) = map Normal ns"
  using assms by (induction ns) (simp_all add: plain_name_def component_of_def)

lemma components_root_text:
  assumes "list_all plain_name ns"
  shows "components (''/'' @ join ''/'' ns) = RootDir # map Normal ns"
proof (cases "ns = []")
  case True
  then show ?thesis by (simp add: components_def starts_with_def)
next
  case False
  then have "split_on (CHR ''/'') (join ''/'' ns) = ns"
    using assms by (intro split_on_join) (auto simp: list_all_iff plain_name_def)
  moreover have "starts_with (''/'' @ join ''/'' ns) ''/''" by (simp only: starts_with_append)
  ultimately show ?thesis using components_of_pieces [OF assms] by (simp add: components_def Let_def)
qed

lemma components_rel_text:
  assumes "list_all plain_name ns" and "replicate n ''..'' @ ns \<noteq> []"
  shows "components (join ''/'' (replicate n ''..'' @ ns)) = replicate n ParentDir @ map Normal ns"
proof -
  let ?ss = "replicate n ''..'' @ ns"
  have ss: "\<forall>s \<in> set ?ss. s \<noteq> [] \<and> s \<noteq> ''.'' \<and> CHR ''/'' \<notin> set s"
    using assms(1) by (simp add: list_all_iff plain_name_def ball_Un)
  then have sp: "split_on (CHR ''/'') (join ''/'' ?ss) = ?ss"
    using assms(2) by (intro split_on_join) auto
  have hd: "hd ?ss \<in> set ?ss" by (rule hd_in_set [OF assms(2)])
  have "hd ?ss \<noteq> []" "hd (hd ?ss) \<noteq> CHR ''/''" using bspec [OF ss hd] by (cases "hd ?ss"; auto)+
  then have "\<not> starts_with (join ''/'' ?ss) ''/''"
    using assms(2) by (cases ?ss; cases "tl ?ss") (auto simp: starts_with_singleton)
  moreover have "hd ?ss \<noteq> ''.''" using ss hd by blast
  moreover have "map component_of (filter (\<lambda>s. s \<noteq> [] \<and> s \<noteq> ''.'') ?ss) = replicate n ParentDir @ map Normal ns"
    using components_of_pieces [OF assms(1)] by (simp add: component_of_def)
  ultimately show ?thesis unfolding components_def Let_def sp by simp
qed

lemma normalize_components_fixed:
  assumes "list_all plain_name ns"
  shows "normalize_components (RootDir # map Normal ns) = RootDir # map Normal ns"
    and "normalize_components (replicate n ParentDir @ map Normal ns) = replicate n ParentDir @ map Normal ns"
proof -
  have names: "foldl normalize_push acc (map Normal ns) = rev (map Normal ns) @ acc" for acc
    by (induction ns arbitrary: acc) auto
  have ups: "foldl normalize_push (replicate m ParentDir) (replicate n ParentDir) = replicate (n + m) ParentDir" for m
  proof (induction n arbitrary: m)
    case (Suc n)
    have "normalize_push (replicate m ParentDir) ParentDir = replicate (Suc m) ParentDir" by (cases m) simp_all
    then show ?case using Suc [of "Suc m"] by simp
  qed simp
  show "normalize_components (RootDir # map Normal ns) = RootDir # map Normal ns"
    by (simp add: normalize_components_def names)
  show "normalize_components (replicate n ParentDir @ map Normal ns) = replicate n ParentDir @ map Normal ns"
    using ups [of 0] by (simp add: normalize_components_def names)
qed

text \<open>The two shapes of a normalised path, with its text and its components.\<close>

lemma normalize_lexically_cases:
  obtains (root) ns where "is_absolute p" "list_all plain_name ns"
      "normalize_components (components p) = RootDir # map Normal ns"
      "normalize_lexically p = ''/'' @ join ''/'' ns" "components (normalize_lexically p) = RootDir # map Normal ns"
    | (rel) n ns where "\<not> is_absolute p" "list_all plain_name ns" "replicate n ''..'' @ ns \<noteq> []"
      "normalize_components (components p) = replicate n ParentDir @ map Normal ns"
      "normalize_lexically p = join ''/'' (replicate n ''..'' @ ns)"
      "components (normalize_lexically p) = replicate n ParentDir @ map Normal ns"
    | (dot) "\<not> is_absolute p" "normalize_components (components p) = []" "normalize_lexically p = ''.''"
proof (cases "is_absolute p")
  case True
  then obtain ns where "list_all plain_name ns" "normalize_components (components p) = RootDir # map Normal ns"
    using normalize_components_shape [of p] by auto
  then show ?thesis
    using root True by (simp add: normalize_lexically_def collect_path_root components_root_text [simplified])
next
  case False
  then obtain n ns where ns: "list_all plain_name ns" "normalize_components (components p) = replicate n ParentDir @ map Normal ns"
    using normalize_components_shape [of p] by auto
  show ?thesis
  proof (cases "replicate n ''..'' @ ns = []")
    case True
    then show ?thesis using dot False ns by (simp add: normalize_lexically_def)
  next
    case nonempty: False
    then have "normalize_lexically p = join ''/'' (replicate n ''..'' @ ns)"
      using ns by (auto simp: normalize_lexically_def collect_path_rel)
    then show ?thesis using rel [OF False ns(1) nonempty ns(2)] components_rel_text [OF ns(1) nonempty] by simp
  qed
qed

text \<open>Lexical normalisation is sound: the result of an absolute path is absolute and has no dot and no
  parent component at all; the result of a relative path has its parent components, if any, in front
  of all names, or is the single dot; and normalising again changes nothing.\<close>

theorem normalize_lexically_normal:
  "(is_absolute p \<longrightarrow> is_absolute (normalize_lexically p)
       \<and> (\<exists>ns. list_all plain_name ns \<and> components (normalize_lexically p) = RootDir # map Normal ns))
   \<and> (\<not> is_absolute p \<longrightarrow> \<not> is_absolute (normalize_lexically p)
       \<and> (normalize_lexically p = ''.''
          \<or> (\<exists>n ns. list_all plain_name ns \<and> components (normalize_lexically p) = replicate n ParentDir @ map Normal ns)))
   \<and> normalize_lexically (normalize_lexically p) = normalize_lexically p"
proof (cases p rule: normalize_lexically_cases)
  case (root ns)
  have "is_absolute (normalize_lexically p)" using root(4) by (simp add: is_absolute_def starts_with_def)
  moreover have "normalize_lexically (normalize_lexically p) = normalize_lexically p"
    using root unfolding normalize_lexically_def [of "normalize_lexically p"] root(5) normalize_components_fixed(1) [OF root(2)]
    by (simp add: collect_path_root)
  ultimately show ?thesis using root by auto
next
  case (rel n ns)
  have "\<not> is_absolute (normalize_lexically p)"
    using components_plain [of "normalize_lexically p"] rel(6) by (cases n; cases ns) auto
  moreover have "normalize_lexically (normalize_lexically p) = normalize_lexically p"
    using rel unfolding normalize_lexically_def [of "normalize_lexically p"] rel(6) normalize_components_fixed(2) [OF rel(2)]
    by (auto simp: collect_path_rel)
  ultimately show ?thesis using rel by auto
next
  case dot
  have "\<not> is_absolute ''.''" "normalize_lexically ''.'' = ''.''" by code_simp+
  then show ?thesis using dot by simp
qed

theorem normalize_lexically_normal_witness:
  "is_absolute ''/a/../../b/./c'' \<and> normalize_lexically ''/a/../../b/./c'' = ''/b/c''
   \<and> is_absolute (normalize_lexically ''/a/../../b/./c'')"
proof -
  have "is_absolute ''/a/../../b/./c''" "normalize_lexically ''/a/../../b/./c'' = ''/b/c''" by code_simp+
  then show ?thesis using normalize_lexically_normal [of "''/a/../../b/./c''"] by blast
qed

section \<open>Relative spellings exist only under the working directory\<close>

lemma path_match_string_map: "path_match_string p = map (\<lambda>c. if c = CHR 0x5C then CHR ''/'' else c) p"
proof (induction p)
  case (Cons c p)
  then show ?case
  proof (cases "c = CHR 0x5C")
    case True
    then show ?thesis using Cons replace_match [of "[CHR 0x5C]" "''/''" p] by (simp add: path_match_string_def)
  next
    case False
    then have "\<not> starts_with (c # p) [CHR 0x5C]" by (simp add: starts_with_singleton)
    then show ?thesis using Cons False replace_no_match [of c p "[CHR 0x5C]" "''/''"] by (simp add: path_match_string_def)
  qed
qed (simp add: path_match_string_def)

lemma join_names_text:
  assumes "list_all plain_name ns"
  shows "path_match_string (join ''/'' ns) = [] \<longleftrightarrow> ns = []" and "path_match_string (join ''/'' ns) \<noteq> ''.''"
proof -
  show "path_match_string (join ''/'' ns) = [] \<longleftrightarrow> ns = []"
    using assms by (cases ns; cases "tl ns") (auto simp: path_match_string_map plain_name_def)
  show "path_match_string (join ''/'' ns) \<noteq> ''.''"
  proof (cases ns)
    case (Cons s ss)
    then have s: "s \<noteq> []" "s \<noteq> ''.''" using assms by (auto simp: plain_name_def)
    show ?thesis
    proof (cases ss)
      case Nil
      then show ?thesis using Cons s by (cases s) (auto simp: path_match_string_map split: if_splits)
    next
      case (Cons t ts)
      then have "length (join ''/'' ns) > 1" using \<open>ns = s # ss\<close> s by (cases s) auto
      then have "length (path_match_string (join ''/'' ns)) \<noteq> 1" by (simp add: path_match_string_map)
      then show ?thesis by force
    qed
  qed (simp add: path_match_string_map)
qed

lemma path_join_absolute: "is_absolute d \<Longrightarrow> is_absolute (path_join d p)"
  by (auto simp: path_join_def is_absolute_def starts_with_iff)

lemma strip_prefix_map_Normal:
  assumes "strip_prefix (RootDir # map Normal base) (RootDir # map Normal ns) = Some r"
  shows "\<exists>rest. ns = base @ rest \<and> r = map Normal rest"
proof -
  have e: "map Normal ns = map Normal base @ r" using assms by (simp add: strip_prefix_iff)
  then have "length base \<le> length ns" by (metis length_append length_map le_add1)
  then have "take (length base) ns = base" "r = map Normal (drop (length base) ns)"
    using e by (metis append_eq_conv_conj inj_map_eq_map injI length_map path_component.inject take_map drop_map)+
  then show ?thesis by (metis append_take_drop_id)
qed

text \<open>Which spellings of a path a rule sees, for an absolute working directory. When the normalised
  path is the working directory followed by plain names, the rule sees the absolute form, the
  relative form and the relative form with \<open>./\<close>, or \<open>.\<close> and \<open>./\<close> for the directory itself. In
  every other case, a path that leaves the directory through \<open>..\<close>, an absolute path elsewhere, or a
  path that starts with a tilde, the only spelling is the path itself, so a relative pattern such as
  \<open>./**\<close> never matches outside the working directory by way of a made-up spelling.\<close>

theorem relative_forms_confined:
  assumes "is_absolute d" and "ap = absolute_normalized_path path (Some d)"
  shows "(\<exists>rest. \<not> is_tilde_path path \<and> list_all plain_name rest
            \<and> components ap = components (normalize_lexically d) @ map Normal rest
            \<and> path_match_forms path (Some d) =
                (let rel = path_match_string (join ''/'' rest)
                 in if rest = [] then [path_match_string ap, ''.'', ''./'']
                    else [path_match_string ap, ''./'' @ rel, rel]))
       \<or> ((\<nexists>rest. components ap = components (normalize_lexically d) @ map Normal rest)
            \<and> path_match_forms path (Some d) = [path_match_string ap])"
proof -
  obtain base where base: "components (normalize_lexically d) = RootDir # map Normal base"
    using assms(1) by (cases d rule: normalize_lexically_cases) auto
  show ?thesis
  proof (cases "strip_prefix (components (normalize_lexically d)) (components ap)")
    case None
    then have "\<nexists>rest. components ap = components (normalize_lexically d) @ map Normal rest"
      using strip_prefix_append [of "components (normalize_lexically d)"] by (metis option.distinct(1))
    then show ?thesis using None assms(2) by (simp add: path_match_forms_def path_strip_prefix_def)
  next
    case (Some r)
    then have ap: "components ap = RootDir # map Normal base @ r" by (simp add: strip_prefix_iff base)
    have tilde: "\<not> is_tilde_path path"
      using ap assms(2) by (auto simp: absolute_normalized_path_def is_tilde_path_def)
    define joined where "joined = (if is_absolute path then path else path_join d path)"
    have "is_absolute joined" by (simp add: joined_def path_join_absolute assms(1))
    moreover have apj: "ap = normalize_lexically joined"
      using tilde assms(2) by (simp add: absolute_normalized_path_def joined_def)
    ultimately obtain ns where ns: "list_all plain_name ns" "components ap = RootDir # map Normal ns"
      by (cases joined rule: normalize_lexically_cases) auto
    then obtain rest where rest: "ns = base @ rest" "r = map Normal rest"
      using strip_prefix_map_Normal Some base by metis
    then have pl: "list_all plain_name rest" using ns(1) by simp
    have col: "collect_path r = join ''/'' rest" using collect_path_rel [OF pl, of 0] rest(2) by simp
    have "path_match_forms path (Some d) =
        (let rel = path_match_string (join ''/'' rest)
         in if rest = [] then [path_match_string ap, ''.'', ''./''] else [path_match_string ap, ''./'' @ rel, rel])"
      using join_names_text [OF pl] Some col assms(2)
      by (simp add: path_match_forms_def path_strip_prefix_def Let_def)
    then show ?thesis using tilde pl ap base rest(2) by (intro disjI1 exI [of _ rest]) simp
  qed
qed

theorem relative_forms_confined_witness:
  "path_match_forms ''../etc/passwd'' (Some ''/home/u'') = [''/home/etc/passwd'']
   \<and> path_match_forms ''a/../b'' (Some ''/home/u'') = [''/home/u/b'', ''./b'', ''b'']"
proof -
  have d: "is_absolute ''/home/u''" by code_simp
  have e: "absolute_normalized_path ''../etc/passwd'' (Some ''/home/u'') = ''/home/etc/passwd''"
    "components ''/home/etc/passwd'' = [RootDir, Normal ''home'', Normal ''etc'', Normal ''passwd'']"
    "components (normalize_lexically ''/home/u'') = [RootDir, Normal ''home'', Normal ''u'']"
    "path_match_string ''/home/etc/passwd'' = ''/home/etc/passwd''"
    by code_simp+
  have "path_match_forms ''../etc/passwd'' (Some ''/home/u'') = [''/home/etc/passwd'']"
    using relative_forms_confined [OF d refl, of "''../etc/passwd''"] unfolding e by auto
  moreover have "path_match_forms ''a/../b'' (Some ''/home/u'') = [''/home/u/b'', ''./b'', ''b'']" by code_simp
  ultimately show ?thesis by blast
qed

end
