(* ===== verification/Ranked.thy ===== *)
theory Ranked
  imports Prelude
begin

text \<open>
  Combining optional verdicts by rank. Both gates of the permission engine fold the verdicts of many
  checks with an operation that keeps the one of higher rank and, at equal rank, the first one, with
  \<open>None\<close> as neutral element. The interface states just that, and its lemmas say what a fold of such
  an operation yields: the highest rank that occurs, and a verdict that one of the checks gave.
\<close>

text \<open>The rank of an optional verdict, with \<open>None\<close> below all.\<close>

definition opt_rank :: "('a \<Rightarrow> nat) \<Rightarrow> 'a option \<Rightarrow> nat" where
  "opt_rank rank v = (case v of None \<Rightarrow> 0 | Some x \<Rightarrow> Suc (rank x))"

lemma opt_rank_simps [simp]: "opt_rank rank None = 0" "opt_rank rank (Some x) = Suc (rank x)"
  by (simp_all add: opt_rank_def)

lemma opt_rank_0 [simp]: "opt_rank rank v = 0 \<longleftrightarrow> v = None"
  by (cases v) simp_all

locale ranked =
  fixes rank :: "'a \<Rightarrow> nat" and combine :: "'a option \<Rightarrow> 'a option \<Rightarrow> 'a option"
  assumes combine_None_left: "combine None v = v"
    and combine_None_right: "combine v None = v"
    and combine_Some: "combine (Some x) (Some y) = Some (if rank y \<le> rank x then x else y)"
begin

lemma combine_rank: "opt_rank rank (combine u v) = max (opt_rank rank u) (opt_rank rank v)"
  by (cases u; cases v) (auto simp: combine_None_left combine_None_right combine_Some)

lemma combine_either: "combine u v = u \<or> combine u v = v"
  by (cases u; cases v) (auto simp: combine_None_left combine_None_right combine_Some)

lemma combine_eq_None: "combine u v = None \<longleftrightarrow> u = None \<and> v = None"
  by (cases u; cases v) (auto simp: combine_None_left combine_None_right combine_Some)

lemma combine_assoc: "combine (combine u v) w = combine u (combine v w)"
  by (cases u; cases v; cases w) (auto simp: combine_None_left combine_None_right combine_Some)

lemma fold_rank:
  "opt_rank rank (foldl (\<lambda>d x. combine d (f x)) d xs) = foldl max (opt_rank rank d) (map (\<lambda>x. opt_rank rank (f x)) xs)"
  by (induction xs arbitrary: d) (simp_all add: combine_rank)

lemma fold_ge_iff:
  "k \<le> opt_rank rank (foldl (\<lambda>d x. combine d (f x)) d xs) \<longleftrightarrow>
     k \<le> opt_rank rank d \<or> (\<exists>x \<in> set xs. k \<le> opt_rank rank (f x))"
  if "0 < k"
  using that by (induction xs arbitrary: d) (auto simp: combine_rank le_max_iff_disj)

lemma fold_given:
  "foldl (\<lambda>d x. combine d (f x)) d xs = Some v \<Longrightarrow> d = Some v \<or> (\<exists>x \<in> set xs. f x = Some v)"
proof (induction xs arbitrary: d)
  case (Cons x xs)
  then show ?case using combine_either [of d "f x"] by fastforce
qed simp

end

end
