(* ===== verification/Permission_Gate.thy ===== *)
theory Permission_Gate
  imports Permission_Policy
begin

text \<open>
  What the shell gates of \<open>Permission_Policy\<close> guarantee.

  The specification speaks of a script without any evaluation order: which commands it exposes (each
  command of the script as written and with its wrappers peeled, and the commands of the scripts that
  are nested in it as inline \<open>-c\<close> scripts or packed \<open>env -S\<close> scripts, down to a depth), and whether
  something in it is hidden from the analysis. The gate that enforces deny and ask rules is shown to
  compute exactly the strictest verdict over what is exposed, with a question whenever something is
  hidden; the check that grants is shown to grant only when nothing is hidden and every command that
  runs is matched by an allow rule.
\<close>

section \<open>What a script exposes and hides\<close>

abbreviation commands_of :: "permission_env \<Rightarrow> string \<Rightarrow> plain_command list option" where
  "commands_of E s \<equiv> all_commands_from_script (try_parse_shell E) s"

definition innermost :: "string list \<Rightarrow> string list" where
  "innermost ws = norm_words (normalize_command_words ws)"

definition inline_answer :: "string list \<Rightarrow> inline_shell_script" where
  "inline_answer ws = shell_dash_c_script (map Literal_Word (innermost ws))"

text \<open>A script nested in a command; the packed ones are followed when \<open>pk\<close> is set.\<close>

inductive nested_in :: "bool \<Rightarrow> string list \<Rightarrow> string \<Rightarrow> bool" for pk where
  inline: "inline_answer ws = Inline_Literal i \<Longrightarrow> nested_in pk ws (innermost ws ! i)"
| packed: "pk \<Longrightarrow> env_split_string_script (innermost ws) = Some t \<Longrightarrow> nested_in pk ws t"

inductive exposes :: "permission_env \<Rightarrow> bool \<Rightarrow> nat \<Rightarrow> string \<Rightarrow> string list \<Rightarrow> bool" for E pk where
  written: "commands_of E s = Some cs \<Longrightarrow> c \<in> set cs \<Longrightarrow> exposes E pk d s (words c)"
| peeled: "commands_of E s = Some cs \<Longrightarrow> c \<in> set cs \<Longrightarrow> exposes E pk d s (innermost (words c))"
| deeper: "commands_of E s = Some cs \<Longrightarrow> c \<in> set cs \<Longrightarrow> nested_in pk (words c) t \<Longrightarrow> exposes E pk d t w \<Longrightarrow>
    exposes E pk (Suc d) s w"

inductive hides :: "permission_env \<Rightarrow> bool \<Rightarrow> nat \<Rightarrow> string \<Rightarrow> bool" for E pk where
  unparsed: "commands_of E s = None \<Longrightarrow> hides E pk d s"
| flagged: "commands_of E s = Some cs \<Longrightarrow> c \<in> set cs \<Longrightarrow> \<not> norm_clean (normalize_command_words (words c)) \<Longrightarrow> hides E pk d s"
| untrusted: "commands_of E s = Some cs \<Longrightarrow> c \<in> set cs \<Longrightarrow>
    inline_answer (words c) = Inline_Untrusted \<or> inline_answer (words c) = Inline_Unrecognized \<Longrightarrow> hides E pk d s"
| too_deep: "commands_of E s = Some cs \<Longrightarrow> c \<in> set cs \<Longrightarrow> nested_in pk (words c) t \<Longrightarrow> hides E pk 0 s"
| deeper: "commands_of E s = Some cs \<Longrightarrow> c \<in> set cs \<Longrightarrow> nested_in pk (words c) t \<Longrightarrow> hides E pk d t \<Longrightarrow>
    hides E pk (Suc d) s"

inductive_simps exposes_0: "exposes E pk 0 s w"
inductive_simps exposes_Suc: "exposes E pk (Suc d) s w"
inductive_simps hides_0: "hides E pk 0 s"
inductive_simps hides_Suc: "hides E pk (Suc d) s"

lemma nested_in_iff:
  "nested_in pk ws t \<longleftrightarrow> (\<exists>i. inline_answer ws = Inline_Literal i \<and> t = innermost ws ! i)
     \<or> (pk \<and> env_split_string_script (innermost ws) = Some t)"
  by (auto simp: nested_in.simps)

lemma innermost_same_length: "length (innermost ws) = length ws \<Longrightarrow> innermost ws = ws"
proof -
  assume len: "length (innermost ws) = length ws"
  obtain zs where zs: "ws = zs @ innermost ws"
    using peel_layers_suffix [OF normalize_layers, of ws] by (auto simp: innermost_def suffix_def)
  then have "length ws = length zs + length (innermost ws)" by (metis length_append)
  then have "zs = []" using len by simp
  then show ?thesis using zs by simp
qed

section \<open>The gate is exact\<close>

abbreviation gate_level :: "gate_decision option \<Rightarrow> nat" where
  "gate_level \<equiv> opt_rank gate_rank"

lemma then_fail_closed_level: "0 < k \<Longrightarrow> k \<le> gate_level (then_fail_closed b) \<longleftrightarrow> b \<and> k \<le> 2"
  by (auto simp: then_fail_closed_def)

definition nested_verdict :: "(string \<Rightarrow> gate_decision option) option \<Rightarrow> string \<Rightarrow> gate_decision option" where
  "nested_verdict inline t = (case inline of Some f \<Rightarrow> f t | None \<Rightarrow> Some AskFailClosed)"

lemma command_words_level:
  assumes "0 < k"
  shows "k \<le> gate_level (evaluate_command_words E P inline ws) \<longleftrightarrow>
       k \<le> 2 \<and> \<not> norm_clean (normalize_command_words ws)
     \<or> k \<le> gate_level (escalate_segment E P ws) \<or> k \<le> gate_level (escalate_segment E P (innermost ws))
     \<or> k \<le> 2 \<and> (inline_answer ws = Inline_Untrusted \<or> inline_answer ws = Inline_Unrecognized)
     \<or> (\<exists>t. nested_in True ws t \<and> k \<le> gate_level (nested_verdict inline t))"
proof -
  let ?n = "normalize_command_words ws"
  define d1 where "d1 = combine_gate_decisions
      (then_fail_closed (norm_exhausted ?n \<or> norm_ambiguous ?n \<or> norm_uncertain ?n)) (then_fail_closed (norm_split_string ?n))"
  have d1: "k \<le> gate_level d1 \<longleftrightarrow> k \<le> 2 \<and> \<not> norm_clean ?n"
    using assms by (auto simp: d1_def gates.combine_rank le_max_iff_disj then_fail_closed_level norm_clean_def)
  define d2 where "d2 = foldl (\<lambda>d w. combine_gate_decisions d (escalate_segment E P w)) d1
      (ws # (if length (innermost ws) \<noteq> length ws then [innermost ws] else []))"
  have d2: "k \<le> gate_level d2 \<longleftrightarrow> k \<le> gate_level d1
      \<or> k \<le> gate_level (escalate_segment E P ws) \<or> k \<le> gate_level (escalate_segment E P (innermost ws))"
    using innermost_same_length [of ws] by (auto simp: d2_def gates.combine_rank le_max_iff_disj)
  define d3 where "d3 = (case inline_answer ws of
      Inline_Literal i \<Rightarrow> combine_gate_decisions d2 (nested_verdict inline (innermost ws ! i))
    | NotInline \<Rightarrow> d2 | _ \<Rightarrow> combine_gate_decisions d2 (Some AskFailClosed))"
  have d3: "k \<le> gate_level d3 \<longleftrightarrow> k \<le> gate_level d2
      \<or> k \<le> 2 \<and> (inline_answer ws = Inline_Untrusted \<or> inline_answer ws = Inline_Unrecognized)
      \<or> (\<exists>i. inline_answer ws = Inline_Literal i \<and> k \<le> gate_level (nested_verdict inline (innermost ws ! i)))"
    by (auto simp: d3_def gates.combine_rank le_max_iff_disj split: inline_shell_script.split)
  have "evaluate_command_words E P inline ws = (case env_split_string_script (innermost ws) of
      None \<Rightarrow> d3 | Some script \<Rightarrow> combine_gate_decisions d3 (nested_verdict inline script))"
    unfolding evaluate_command_words_def Let_def innermost_def [symmetric] inline_answer_def [symmetric]
      nested_verdict_def [symmetric] d1_def [symmetric] d2_def [symmetric] d3_def [symmetric] ..
  then have "k \<le> gate_level (evaluate_command_words E P inline ws) \<longleftrightarrow> k \<le> gate_level d3
      \<or> (\<exists>t. env_split_string_script (innermost ws) = Some t \<and> k \<le> gate_level (nested_verdict inline t))"
    by (simp add: gates.combine_rank le_max_iff_disj split: option.split)
  then show ?thesis unfolding d1 d2 d3 nested_in_iff by blast
qed

lemma gate_segments_level:
  assumes "0 < k"
  shows "k \<le> gate_level (gate_segments E P inline s) \<longleftrightarrow> (case commands_of E s of
      None \<Rightarrow> k \<le> 2
    | Some cs \<Rightarrow> \<exists>c \<in> set cs. k \<le> gate_level (evaluate_command_words E P inline (words c)))"
proof (cases "commands_of E s")
  case None
  then show ?thesis by (auto simp: gate_segments_def)
next
  case (Some cs)
  then show ?thesis
    using assms gates.fold_ge_iff [OF assms, of "\<lambda>c. evaluate_command_words E P inline (words c)" None cs]
    by (simp add: gate_segments_def)
qed

lemma gate_level_exact:
  assumes "0 < k"
  shows "k \<le> gate_level (evaluate_bash_command_segments E P s d) \<longleftrightarrow>
    (\<exists>w. exposes E True d s w \<and> k \<le> gate_level (escalate_segment E P w)) \<or> k \<le> 2 \<and> hides E True d s"
proof (induction d arbitrary: s)
  case 0
  show ?case
    by (cases "commands_of E s")
      (auto simp: gate_segments_level [OF assms] command_words_level [OF assms] nested_verdict_def exposes_0 hides_0)
next
  case (Suc d)
  have n: "k \<le> gate_level (nested_verdict (Some (\<lambda>t. evaluate_bash_command_segments E P t d)) t) \<longleftrightarrow>
      (\<exists>w. exposes E True d t w \<and> k \<le> gate_level (escalate_segment E P w)) \<or> k \<le> 2 \<and> hides E True d t" for t
    using Suc by (simp add: nested_verdict_def)
  show ?case
  proof (cases "commands_of E s")
    case None
    then show ?thesis by (simp add: gate_segments_level [OF assms] exposes_Suc hides_Suc)
  next
    case (Some cs)
    show ?thesis
      unfolding evaluate_bash_command_segments.simps gate_segments_level [OF assms] Some option.case
        command_words_level [OF assms] n exposes_Suc hides_Suc
      by (simp add: Some) blast
  qed
qed

lemma follow_of_bash [simp]: "follow_of E (Access_Bash s) cwd = Follow_None"
  by (simp add: follow_of_def)

lemma evaluate_bash: "evaluate E P (Access_Bash s) = evaluate_lexical_with_cwd E P (Access_Bash s) None"
  by (simp add: evaluate_def evaluate_by_follow)

lemma escalate_level:
  "gate_level (escalate_segment E (compiled_policy_new E cfg) w) =
     (if matched E cfg Action_Deny (Access_Bash (join '' '' w)) None then 4
      else if matched E cfg Action_Ask (Access_Bash (join '' '' w)) None then 3 else 0)"
proof -
  let ?l = "evaluate_lexical_with_cwd E (compiled_policy_new E cfg) (Access_Bash (join '' '' w)) None"
  have "?l \<in> {None, Some Allow, Some Ask} \<union> (Some ` range Reject)" by (rule lexical_kinds)
  then have "gate_level (escalate_segment E (compiled_policy_new E cfg) w) = (if verdict ?l \<le> 2 then 0 else verdict ?l)"
    by (auto simp: escalate_segment_def evaluate_bash)
  then show ?thesis by (simp add: lexical_verdict)
qed

lemma gate_level_cases:
  "gate_level v = 4 \<longleftrightarrow> (\<exists>rsn. v = Some (Gate_Reject rsn))" "gate_level v = 3 \<longleftrightarrow> v = Some AskRuleMatch"
  "gate_level v = 2 \<longleftrightarrow> v = Some AskFailClosed" "gate_level v \<le> 4" "gate_level v \<noteq> 1"
  by (cases v; cases "the v"; simp)+

text \<open>C5: The gate for shell commands is exact. When the policy restricts shell commands at all, its
  verdict on a script is: a rejection if some command the script exposes is matched by a deny rule;
  otherwise a question if one is matched by an ask rule; otherwise a question if something in the
  script is hidden from the analysis (it does not parse into plain commands, a wrapper could not be
  peeled, an inline script is not literal, or the nesting is deeper than the budget of eight); and
  no objection otherwise. The commands exposed are those of every chained segment, as written and
  peeled, and of every nested \<open>-c\<close> and \<open>env -S\<close> script, so no position in a script escapes a rule,
  and the gate never allows.\<close>

theorem gate_exact:
  "let gate = evaluate_bash_command_gate E (compiled_policy_new E cfg) s;
       hit = (\<lambda>act. \<exists>w. exposes E True MAX_INLINE_SHELL_DEPTH s w \<and> matched E cfg act (Access_Bash (join '' '' w)) None)
   in if \<not> has_bash_command_restrictions (compiled_policy_new E cfg) then gate = None
      else if hit Action_Deny then \<exists>rsn. gate = Some (Gate_Reject rsn)
      else if hit Action_Ask then gate = Some AskRuleMatch
      else if hides E True MAX_INLINE_SHELL_DEPTH s then gate = Some AskFailClosed
      else gate = None"
proof (cases "has_bash_command_restrictions (compiled_policy_new E cfg)")
  case True
  define g where "g = evaluate_bash_command_gate E (compiled_policy_new E cfg) s"
  define hit where "hit act = (\<exists>w. exposes E True MAX_INLINE_SHELL_DEPTH s w \<and> matched E cfg act (Access_Bash (join '' '' w)) None)" for act
  have lev: "k \<le> gate_level g \<longleftrightarrow>
      (\<exists>w. exposes E True MAX_INLINE_SHELL_DEPTH s w \<and> k \<le> gate_level (escalate_segment E (compiled_policy_new E cfg) w))
      \<or> k \<le> 2 \<and> hides E True MAX_INLINE_SHELL_DEPTH s" if "0 < k" for k
    using True gate_level_exact [OF that] by (simp add: g_def evaluate_bash_command_gate_def)
  have "4 \<le> gate_level g \<longleftrightarrow> hit Action_Deny" using lev [of 4] by (auto simp: escalate_level hit_def)
  moreover have "3 \<le> gate_level g \<longleftrightarrow> hit Action_Deny \<or> hit Action_Ask" using lev [of 3] by (auto simp: escalate_level hit_def)
  moreover have "2 \<le> gate_level g \<longleftrightarrow> hit Action_Deny \<or> hit Action_Ask \<or> hides E True MAX_INLINE_SHELL_DEPTH s"
    using lev [of 2] by (auto simp: escalate_level hit_def split: if_splits)
  moreover have "gate_level g = 0 \<or> gate_level g = 2 \<or> gate_level g = 3 \<or> gate_level g = 4"
    using gate_level_cases(4,5) [of g] by linarith
  ultimately show ?thesis
    unfolding Let_def g_def [symmetric] hit_def [symmetric]
    using True gate_level_cases(1-3) [of g] by (auto split: if_splits)
qed (simp add: evaluate_bash_command_gate_def)

section \<open>Grants are conjunctive\<close>

inductive runs :: "permission_env \<Rightarrow> nat \<Rightarrow> string \<Rightarrow> string list \<Rightarrow> bool" for E where
  here: "commands_of E s = Some cs \<Longrightarrow> c \<in> set cs \<Longrightarrow> runs E d s (innermost (words c))"
| deeper: "commands_of E s = Some cs \<Longrightarrow> c \<in> set cs \<Longrightarrow> nested_in False (words c) t \<Longrightarrow> runs E d t w \<Longrightarrow> runs E (Suc d) s w"

text \<open>A script, or one nested in it, without any command.\<close>

inductive blank :: "permission_env \<Rightarrow> nat \<Rightarrow> string \<Rightarrow> bool" for E where
  here: "commands_of E s = Some [] \<Longrightarrow> blank E d s"
| deeper: "commands_of E s = Some cs \<Longrightarrow> c \<in> set cs \<Longrightarrow> nested_in False (words c) t \<Longrightarrow> blank E d t \<Longrightarrow> blank E (Suc d) s"

inductive_simps runs_0: "runs E 0 s w"
inductive_simps runs_Suc: "runs E (Suc d) s w"
inductive_simps blank_0: "blank E 0 s"
inductive_simps blank_Suc: "blank E (Suc d) s"

lemma segment_allowed_iff:
  "segment_allowed E P scope inline c \<longleftrightarrow>
     norm_clean (normalize_command_words (words c)) \<and> bash_words_allowed E P (innermost (words c)) scope
   \<and> inline_answer (words c) \<noteq> Inline_Untrusted \<and> inline_answer (words c) \<noteq> Inline_Unrecognized
   \<and> (\<forall>t. nested_in False (words c) t \<longrightarrow> (case inline of Some f \<Rightarrow> f t | None \<Rightarrow> False))"
  unfolding segment_allowed_def Let_def innermost_def [symmetric] inline_answer_def [symmetric] nested_in_iff norm_clean_def
  by (auto split: inline_shell_script.split option.split)

lemma chain_allowed_exact:
  "bash_chain_fully_allowed E P s d scope \<longleftrightarrow>
     \<not> hides E False d s \<and> \<not> blank E d s \<and> (\<forall>w. runs E d s w \<longrightarrow> bash_words_allowed E P w scope)"
proof (induction d arbitrary: s)
  case 0
  show ?case
    by (cases "commands_of E s")
      (auto simp: segments_allowed_def list_all_iff segment_allowed_iff hides_0 blank_0 runs_0)
next
  case (Suc d)
  show ?case
  proof (cases "commands_of E s")
    case None
    then show ?thesis by (simp add: segments_allowed_def hides_Suc)
  next
    case (Some cs)
    show ?thesis
      unfolding bash_chain_fully_allowed.simps segments_allowed_def Some option.case list_all_iff segment_allowed_iff
        Suc hides_Suc blank_Suc runs_Suc
      by (simp add: Some) blast
  qed
qed

text \<open>C6: Granting a shell command is conjunctive, and exactly so. Rules allow a command if and only if no
  deny and no ask rule matches it, nothing in it is hidden, it and every inline script in it has a
  command, and every single command that it runs (the innermost command of every chained segment and
  of every inline script) is matched by an allow rule for shell commands.\<close>

theorem allow_is_conjunctive:
  "evaluate E (compiled_policy_new E cfg) (Access_Bash s) = Some Allow \<longleftrightarrow>
     \<not> matched E cfg Action_Deny (Access_Bash s) None \<and> \<not> matched E cfg Action_Ask (Access_Bash s) None
     \<and> \<not> hides E False MAX_INLINE_SHELL_DEPTH s \<and> \<not> blank E MAX_INLINE_SHELL_DEPTH s
     \<and> (\<forall>w. runs E MAX_INLINE_SHELL_DEPTH s w \<longrightarrow> w \<noteq> []
          \<and> (\<exists>r \<in> set (rules cfg). action r = Action_Allow \<and> (tool r = Filter_Bash \<or> tool r = Filter_Any)
               \<and> bash_allow_pattern_matches E (join '' '' w) r (rule_matcher E r)))"
proof -
  let ?P = "compiled_policy_new E cfg" and ?D = MAX_INLINE_SHELL_DEPTH
  have w: "bash_words_allowed E ?P w Scope_Any \<longleftrightarrow> w \<noteq> []
      \<and> (\<exists>r \<in> set (rules cfg). action r = Action_Allow \<and> (tool r = Filter_Bash \<or> tool r = Filter_Any)
           \<and> bash_allow_pattern_matches E (join '' '' w) r (rule_matcher E r))" for w
    by (simp add: bash_words_allowed_iff)
  have has: "has_bash_allow_rules ?P" if "bash_chain_fully_allowed E ?P s ?D Scope_Any"
  proof -
    have a: "\<not> hides E False ?D s" "\<not> blank E ?D s" "\<forall>w. runs E ?D s w \<longrightarrow> bash_words_allowed E ?P w Scope_Any"
      using that by (simp_all add: chain_allowed_exact)
    obtain cs where "commands_of E s = Some cs" using a(1) hides.unparsed by (cases "commands_of E s") blast+
    moreover from this obtain c where "c \<in> set cs" using a(2) blank.here by (cases cs) auto
    ultimately have "bash_words_allowed E ?P (innermost (words c)) Scope_Any" using a(3) runs.here by blast
    then show ?thesis unfolding w by (auto simp: compiled_policy_new_def list_ex_iff)
  qed
  have "evaluate E ?P (Access_Bash s) = Some Allow \<longleftrightarrow> verdict (evaluate E ?P (Access_Bash s)) = 2"
    using lexical_kinds [of E ?P "Access_Bash s" None] by (auto simp: evaluate_bash)
  also have "\<dots> \<longleftrightarrow> \<not> matched E cfg Action_Deny (Access_Bash s) None \<and> \<not> matched E cfg Action_Ask (Access_Bash s) None
      \<and> bash_chain_fully_allowed E ?P s ?D Scope_Any"
    using has by (auto simp: evaluate_bash lexical_verdict)
  finally show ?thesis by (simp add: chain_allowed_exact w)
qed

definition shell_env :: permission_env where
  "shell_env = demo_env\<lparr>try_parse_shell := (\<lambda>s. if s = ''cd && ls'' then Some demo_tree else None)\<rparr>"

definition shell_rules :: permission_config where
  "shell_rules = permission_config_new
     [\<lparr>action = Action_Allow, tool = Filter_Bash, pattern = Some ''cd'', pattern_mode = Mode_Glob\<rparr>,
      \<lparr>action = Action_Allow, tool = Filter_Bash, pattern = Some ''ls*'', pattern_mode = Mode_Glob\<rparr>]"

lemma shell_rules_allow:
  "evaluate shell_env (compiled_policy_new shell_env shell_rules) (Access_Bash ''cd && ls'') = Some Allow"
  by code_simp

theorem allow_is_conjunctive_witness:
  "evaluate shell_env (compiled_policy_new shell_env shell_rules) (Access_Bash ''cd && ls'') = Some Allow
   \<and> \<not> hides shell_env False MAX_INLINE_SHELL_DEPTH ''cd && ls''"
  using allow_is_conjunctive [of shell_env shell_rules "''cd && ls''"] shell_rules_allow by blast

section \<open>Narrow grants\<close>

text \<open>A narrow grant is a grant, and narrow. When the scoped allow rules alone authorise a shell
  command, the full check of the allow rules grants it too, and every command it runs is matched by
  an allow rule that is not a catch-all and has a head that does not execute code handed to it.\<close>

theorem narrow_grant_is_scoped:
  assumes "narrow_allow_authorizes E (compiled_policy_new E cfg) (Access_Bash s)"
  shows "bash_chain_fully_allowed E (compiled_policy_new E cfg) s MAX_INLINE_SHELL_DEPTH Scope_Any
    \<and> (\<forall>w. runs E MAX_INLINE_SHELL_DEPTH s w \<longrightarrow> \<not> head_is_exec_vehicle w
         \<and> (\<exists>r \<in> set (rules cfg). action r = Action_Allow \<and> \<not> rule_is_catchall E r
              \<and> bash_allow_pattern_matches E (join '' '' w) r (rule_matcher E r)))"
proof -
  have n: "\<not> hides E False MAX_INLINE_SHELL_DEPTH s" "\<not> blank E MAX_INLINE_SHELL_DEPTH s"
    "runs E MAX_INLINE_SHELL_DEPTH s w \<Longrightarrow> bash_words_allowed E (compiled_policy_new E cfg) w Scope_NarrowOnly" for w
    using assms by (simp_all add: narrow_allow_authorizes_def chain_allowed_exact)
  have "bash_words_allowed E (compiled_policy_new E cfg) w Scope_NarrowOnly \<Longrightarrow>
      bash_words_allowed E (compiled_policy_new E cfg) w Scope_Any" for w
    by (auto simp: bash_words_allowed_iff)
  then have "bash_chain_fully_allowed E (compiled_policy_new E cfg) s MAX_INLINE_SHELL_DEPTH Scope_Any"
    using n by (simp add: chain_allowed_exact)
  then show ?thesis using n(3) by (fastforce simp: bash_words_allowed_iff)
qed

theorem narrow_grant_is_scoped_witness:
  "bash_chain_fully_allowed shell_env (compiled_policy_new shell_env shell_rules) ''cd && ls'' MAX_INLINE_SHELL_DEPTH Scope_Any
   \<and> \<not> head_is_exec_vehicle [''ls'']"
proof -
  have "narrow_allow_authorizes shell_env (compiled_policy_new shell_env shell_rules) (Access_Bash ''cd && ls'')"
    by code_simp
  moreover have "commands_of shell_env ''cd && ls'' =
      Some [\<lparr>words = [''cd''], span_start = 0, span_end = 2\<rparr>, \<lparr>words = [''ls''], span_start = 6, span_end = 8\<rparr>]"
    by code_simp
  then have "runs shell_env MAX_INLINE_SHELL_DEPTH ''cd && ls'' (innermost [''ls''])"
    using runs.here [of shell_env "''cd && ls''" _ "\<lparr>words = [''ls''], span_start = 6, span_end = 8\<rparr>"] by simp
  moreover have "innermost [''ls''] = [''ls'']" unfolding innermost_def by code_simp
  ultimately show ?thesis using narrow_grant_is_scoped by metis
qed

end
