(* ===== verification/File_Gate.thy ===== *)
theory File_Gate
  imports Shell_Access Permission_Gate
begin

text \<open>
  The gate for files that a shell script touches (\<open>evaluate_shell_file_access\<close> of
  \<open>permission/shell_access.rs\<close>), and the edit targets that always need a confirmation.

  The rules for reading and editing files are enforced on the operands that \<open>Shell_Access\<close> extracts,
  in the script itself and in the inline scripts nested in it. The loops of the source carry a
  decision and a flag that forces a question; the pair is the state of the folds here.

  The specification lists what a script touches, without an order of evaluation, and what in it is
  not settled: a path or a word that is only known at run time, a relative path after a change of
  directory, flags of the normalisation, an inline script that is not literal or too deep. The gate
  is shown to compute the strictest verdict over the former, with a question for the latter.
\<close>

section \<open>Paths as the shell writes them\<close>

definition is_absolute_shell_path :: "string \<Rightarrow> bool" where
  "is_absolute_shell_path p \<longleftrightarrow> starts_with p ''/'' \<or> starts_with p ''~/''
     \<or> (case p of _ # b # _ \<Rightarrow> b = CHR '':'' | _ \<Rightarrow> False)"

definition trim_path_quotes :: "string \<Rightarrow> string" where
  "trim_path_quotes p = (let q = (\<lambda>c. c = CHR 0x22 \<or> c = CHR 0x27) in rev (dropWhile q (rev (dropWhile q p))))"

definition normalize_shell_path_raw :: "string \<Rightarrow> string" where
  "normalize_shell_path_raw path =
     (let p = map (\<lambda>c. if c = CHR 0x5C then CHR ''/'' else c) (trim_path_quotes path)
      in case strip_prefix ''/c/'' p of Some rest \<Rightarrow> ''C:/'' @ rest | None \<Rightarrow> p)"

text \<open>One turn of the loop over the segments; the list of segments so far is reversed.\<close>

definition segment_push :: "bool \<Rightarrow> string list \<Rightarrow> string \<Rightarrow> string list" where
  "segment_push absolute out seg =
     (if seg = [] \<or> seg = ''.'' then out
      else if seg = ''..'' then
        (case out of
           s # rest \<Rightarrow> if s \<noteq> ''..'' then rest else if \<not> absolute then ''..'' # out else out
         | [] \<Rightarrow> if \<not> absolute then [''..''] else [])
      else seg # out)"

definition lexical_normalize :: "string \<Rightarrow> string" where
  "lexical_normalize path =
     (let prefix_len = (case path of _ # b # _ \<Rightarrow> if b = CHR '':'' then 2 else 0 | _ \<Rightarrow> 0);
          pre = take prefix_len path;
          rest = drop prefix_len path;
          absolute = starts_with rest ''/'';
          body = join ''/'' (rev (foldl (segment_push absolute) [] (split_on (CHR ''/'') rest)))
      in if pre \<noteq> [] \<and> absolute \<and> body \<noteq> [] then pre @ ''/'' @ body
         else if pre \<noteq> [] \<and> absolute then pre @ ''/''
         else if pre \<noteq> [] then pre @ body
         else if absolute \<and> body \<noteq> [] then ''/'' @ body
         else if absolute then ''/''
         else body)"

definition normalize_shell_path :: "string \<Rightarrow> string" where
  "normalize_shell_path path = lexical_normalize (normalize_shell_path_raw path)"

section \<open>The check of one path\<close>

definition shell_access :: "shell_file_mode \<Rightarrow> string \<Rightarrow> access_kind" where
  "shell_access mode path = (case mode of Mode_Read \<Rightarrow> Access_Read (Some path) | _ \<Rightarrow> Access_Edit path)"

definition escalate_path :: "permission_env \<Rightarrow> compiled_policy \<Rightarrow> string option \<Rightarrow> access_kind \<Rightarrow> gate_decision option" where
  "escalate_path E P rule_cwd acc = (case evaluate_lexical_with_cwd E P acc rule_cwd of
     Some (Reject rsn) \<Rightarrow> Some (Gate_Reject rsn)
   | Some Ask \<Rightarrow> Some AskRuleMatch
   | _ \<Rightarrow> None)"

definition evaluate_shell_path ::
  "permission_env \<Rightarrow> compiled_policy \<Rightarrow> string \<Rightarrow> string \<Rightarrow> shell_file_mode \<Rightarrow> bool \<Rightarrow> gate_decision option" where
  "evaluate_shell_path E P tok cwd mode cwd_unpinned =
     (let path = normalize_shell_path tok;
          abs_path = is_absolute_shell_path path;
          rule_cwd = (if abs_path \<or> \<not> cwd_unpinned then Some cwd else None);
          raw = normalize_shell_path_raw tok;
          raw_absolute = (if is_absolute_shell_path raw then Some raw
                          else if cwd_unpinned then None
                          else Some (normalize_shell_path_raw (path_join cwd raw)));
          absolute = (if abs_path then path else normalize_shell_path (path_join cwd path));
          resolved_decision = (case raw_absolute of
             None \<Rightarrow> None
           | Some ra \<Rightarrow> (case follow_absolute_symlink (files E) ra absolute of
                Follow_Target resolved \<Rightarrow> escalate_path E P rule_cwd (shell_access mode resolved)
              | Follow_Unresolvable \<Rightarrow> Some AskFailClosed
              | Follow_None \<Rightarrow> None));
          path_decision = escalate_path E P rule_cwd (shell_access mode path);
          anchored_decision = (if cwd_unpinned \<and> \<not> abs_path then None
             else combine_gate_decisions (escalate_path E P rule_cwd (shell_access mode absolute)) resolved_decision)
      in combine_gate_decisions (combine_gate_decisions path_decision anchored_decision)
           (then_fail_closed (cwd_unpinned \<and> \<not> abs_path)))"

section \<open>The gate\<close>

type_synonym gate_state = "gate_decision option \<times> bool"

definition force_ask :: "bool \<Rightarrow> gate_state \<Rightarrow> gate_state" where
  "force_ask b st = (fst st, snd st \<or> b)"

definition note_decision :: "gate_decision option \<Rightarrow> gate_state \<Rightarrow> gate_state" where
  "note_decision d st = (combine_gate_decisions (fst st) d, snd st)"

definition redirect_step ::
  "permission_env \<Rightarrow> compiled_policy \<Rightarrow> string \<Rightarrow> bool \<Rightarrow> cwd_poison list \<Rightarrow> gate_state \<Rightarrow> shell_redirect_target \<Rightarrow> gate_state" where
  "redirect_step E P cwd cwd_unpinned changes st r =
     (let st1 = force_ask (redirect_ambiguous r) st
      in case redirect_path r of
           None \<Rightarrow> st1
         | Some path \<Rightarrow> note_decision (evaluate_shell_path E P path cwd (redirect_mode r)
             (cwd_unpinned \<or> cwd_unpinned_before changes (redirect_start r) (redirect_scope r))) st1)"

definition operand_step ::
  "permission_env \<Rightarrow> compiled_policy \<Rightarrow> string \<Rightarrow> bool \<Rightarrow> gate_state \<Rightarrow> string \<times> shell_file_mode \<Rightarrow> gate_state" where
  "operand_step E P cwd unpinned st operand =
     note_decision (evaluate_shell_path E P (fst operand) cwd (snd operand) unpinned)
       (force_ask (shell_arg_is_ambiguous (fst operand)) st)"

definition inline_step ::
  "(string \<Rightarrow> bool \<Rightarrow> gate_decision option) option \<Rightarrow> bool \<Rightarrow> shell_word list \<Rightarrow> bool \<Rightarrow> gate_state \<Rightarrow> gate_state" where
  "inline_step inline parse_failed sws unpinned st =
     (let script = shell_dash_c_script sws;
          st1 = force_ask (parse_failed \<and> script \<noteq> NotInline) st
      in case script of
           Inline_Literal i \<Rightarrow>
             (case inline of
                None \<Rightarrow> force_ask True st1
              | Some f \<Rightarrow> (case sws ! i of
                  Literal_Word inner \<Rightarrow> note_decision (f inner unpinned) st1
                | Untrusted_Word \<Rightarrow> st1))
         | NotInline \<Rightarrow> st1
         | _ \<Rightarrow> force_ask True st1)"

text \<open>The operands of a program, after its name is known. A reader or writer has its candidates
  checked in each of its modes.\<close>

definition program_step ::
  "permission_env \<Rightarrow> compiled_policy \<Rightarrow> string \<Rightarrow> bool \<Rightarrow> bool \<Rightarrow> string \<Rightarrow> string list \<Rightarrow> gate_state \<Rightarrow> gate_state" where
  "program_step E P cwd unpinned unreadable program ws st =
     (let candidates = shell_file_candidates ws;
          path_operands = shell_path_command_operands program ws;
          is_known = (program = ''dd'' \<or> shell_file_mode_of program \<noteq> None \<or> path_operands \<noteq> None);
          st1 = force_ask (is_known \<and> (unpinned \<or> unreadable)) st;
          st2 = foldl (operand_step E P cwd unpinned) st1 (special_file_operands program ws)
      in if program = ''dd'' then st2
         else case path_operands of
           Some operands \<Rightarrow> foldl (operand_step E P cwd unpinned) st2 operands
         | None \<Rightarrow>
             (case (if shell_file_mode_of program \<noteq> None \<and> program = ''sed'' \<and> shell_sed_in_place ws
                    then Some [Mode_Read, Mode_Write]
                    else case shell_file_mode_of program of
                      Some Mode_Read \<Rightarrow> Some [Mode_Read]
                    | Some Mode_Write \<Rightarrow> Some [Mode_Write]
                    | _ \<Rightarrow> None) of
                None \<Rightarrow> st2
              | Some modes \<Rightarrow>
                  force_ask (shell_reader_can_recurse program ws candidates)
                    (foldl (\<lambda>st tok. foldl (\<lambda>st mode. note_decision (evaluate_shell_path E P tok cwd mode unpinned) st)
                         (force_ask (shell_arg_is_ambiguous tok) st) modes) st2 candidates)))"

definition invocation_step ::
  "permission_env \<Rightarrow> compiled_policy \<Rightarrow> (string \<Rightarrow> bool \<Rightarrow> gate_decision option) option \<Rightarrow> string \<Rightarrow> bool \<Rightarrow> bool
     \<Rightarrow> cwd_poison list \<Rightarrow> gate_state \<Rightarrow> shell_invocation \<Rightarrow> gate_state" where
  "invocation_step E P inline cwd cwd_unpinned parse_failed changes st iv =
     (let peeled = unwrap_invocation_checked iv;
          ws = cp_words peeled;
          unpinned = (cwd_unpinned \<or> cwd_unpinned_before changes (inv_start iv) (inv_scope iv) \<or> cp_chdir peeled);
          st1 = force_ask (cp_exhausted peeled \<or> cp_split_string peeled \<or> cp_uncertain peeled \<or> cp_ambiguous peeled) st;
          st2 = inline_step inline parse_failed (shell_words ws) unpinned st1
      in case ws of
           Invocation_Literal program_word # _ \<Rightarrow>
             (let program = to_ascii_lowercase (shell_program_name program_word)
              in if program \<in> set [''cd'', ''pushd'', ''popd''] then st2
                 else program_step E P cwd unpinned (Invocation_Untrusted \<in> set ws \<or> parse_failed)
                        program (literal_words ws) st2)
         | _ \<Rightarrow> st2)"

definition file_access_script ::
  "permission_env \<Rightarrow> compiled_policy \<Rightarrow> (string \<Rightarrow> bool \<Rightarrow> gate_decision option) option \<Rightarrow> string \<Rightarrow> string \<Rightarrow> bool \<Rightarrow> bool
     \<Rightarrow> gate_decision option" where
  "file_access_script E P inline cmd cwd cwd_unpinned entered_inline =
     (case try_parse_shell E cmd of
        None \<Rightarrow> then_fail_closed entered_inline
      | Some tree \<Rightarrow>
          (let root = root_node tree;
               parse_failed = has_error tree;
               changes = cwd_poison_positions root cmd;
               st0 = (None, entered_inline \<and> parse_failed);
               st1 = foldl (redirect_step E P cwd cwd_unpinned changes) st0 (shell_redirect_targets root cmd);
               st2 = foldl (invocation_step E P inline cwd cwd_unpinned parse_failed changes) st1
                       (shell_command_invocations root cmd)
           in combine_gate_decisions (fst st2) (then_fail_closed (snd st2))))"

fun evaluate_shell_file_access_inner ::
  "permission_env \<Rightarrow> compiled_policy \<Rightarrow> string \<Rightarrow> string \<Rightarrow> nat \<Rightarrow> bool \<Rightarrow> bool \<Rightarrow> gate_decision option" where
  "evaluate_shell_file_access_inner E P cmd cwd 0 unpinned entered = file_access_script E P None cmd cwd unpinned entered"
| "evaluate_shell_file_access_inner E P cmd cwd (Suc d) unpinned entered =
     file_access_script E P (Some (\<lambda>s u. evaluate_shell_file_access_inner E P s cwd d u True)) cmd cwd unpinned entered"

definition evaluate_shell_file_access_gate ::
  "permission_env \<Rightarrow> compiled_policy \<Rightarrow> string \<Rightarrow> string \<Rightarrow> gate_decision option" where
  "evaluate_shell_file_access_gate E P cmd cwd =
     (if \<not> has_file_restrictions P then None
      else evaluate_shell_file_access_inner E P cmd cwd MAX_INLINE_SHELL_DEPTH False False)"

definition evaluate_shell_file_access ::
  "permission_env \<Rightarrow> compiled_policy \<Rightarrow> string \<Rightarrow> string \<Rightarrow> decision option" where
  "evaluate_shell_file_access E P cmd cwd = map_option into_decision (evaluate_shell_file_access_gate E P cmd cwd)"

section \<open>What a script touches, and what is not settled\<close>

definition program_modes :: "string \<Rightarrow> string list \<Rightarrow> shell_file_mode set" where
  "program_modes program ws =
     (if program = ''sed'' \<and> shell_sed_in_place ws then {Mode_Read, Mode_Write}
      else case shell_file_mode_of program of Some m \<Rightarrow> {m} | None \<Rightarrow> {})"

definition program_operands :: "string \<Rightarrow> string list \<Rightarrow> (string \<times> shell_file_mode) set" where
  "program_operands program ws = set (special_file_operands program ws) \<union>
     (if program = ''dd'' then {}
      else case shell_path_command_operands program ws of
        Some operands \<Rightarrow> set operands
      | None \<Rightarrow> set (shell_file_candidates ws) \<times> program_modes program ws)"

definition program_unsettled :: "string \<Rightarrow> string list \<Rightarrow> bool \<Rightarrow> bool" where
  "program_unsettled program ws uncertain_place \<longleftrightarrow>
     (program = ''dd'' \<or> shell_file_mode_of program \<noteq> None \<or> shell_path_command_operands program ws \<noteq> None) \<and> uncertain_place
     \<or> (\<exists>(p, m) \<in> program_operands program ws. shell_arg_is_ambiguous p)
     \<or> shell_path_command_operands program ws = None \<and> program_modes program ws \<noteq> {}
       \<and> shell_reader_can_recurse program ws (shell_file_candidates ws)"

definition invocation_program :: "shell_invocation \<Rightarrow> string option" where
  "invocation_program iv = (case cp_words (unwrap_invocation_checked iv) of
     Invocation_Literal w # _ \<Rightarrow>
       (let program = to_ascii_lowercase (shell_program_name w)
        in if program \<in> set [''cd'', ''pushd'', ''popd''] then None else Some program)
   | _ \<Rightarrow> None)"

abbreviation invocation_args :: "shell_invocation \<Rightarrow> string list" where
  "invocation_args iv \<equiv> literal_words (cp_words (unwrap_invocation_checked iv))"

abbreviation invocation_inline :: "shell_invocation \<Rightarrow> inline_shell_script" where
  "invocation_inline iv \<equiv> shell_dash_c_script (shell_words (cp_words (unwrap_invocation_checked iv)))"

definition invocation_nested :: "shell_invocation \<Rightarrow> string option" where
  "invocation_nested iv = (case invocation_inline iv of
     Inline_Literal i \<Rightarrow> (case shell_words (cp_words (unwrap_invocation_checked iv)) ! i of
        Literal_Word inner \<Rightarrow> Some inner | Untrusted_Word \<Rightarrow> None)
   | _ \<Rightarrow> None)"

definition invocation_unpinned :: "ts_tree \<Rightarrow> string \<Rightarrow> bool \<Rightarrow> shell_invocation \<Rightarrow> bool" where
  "invocation_unpinned tree s u iv \<longleftrightarrow> u
     \<or> cwd_unpinned_before (cwd_poison_positions (root_node tree) s) (inv_start iv) (inv_scope iv)
     \<or> cp_chdir (unwrap_invocation_checked iv)"

definition invocation_unsettled :: "ts_tree \<Rightarrow> string \<Rightarrow> bool \<Rightarrow> shell_invocation \<Rightarrow> bool" where
  "invocation_unsettled tree s u iv \<longleftrightarrow>
     \<not> norm_clean (normalize_command_words (wrapper_words iv))
     \<or> invocation_inline iv \<in> {Inline_Untrusted, Inline_Unrecognized}
     \<or> has_error tree \<and> invocation_inline iv \<noteq> NotInline
     \<or> (\<exists>program. invocation_program iv = Some program
          \<and> program_unsettled program (invocation_args iv) (invocation_unpinned tree s u iv
               \<or> Invocation_Untrusted \<in> set (cp_words (unwrap_invocation_checked iv)) \<or> has_error tree))"

abbreviation invocations_of :: "ts_tree \<Rightarrow> string \<Rightarrow> shell_invocation set" where
  "invocations_of tree s \<equiv> set (shell_command_invocations (root_node tree) s)"

abbreviation redirects_of :: "ts_tree \<Rightarrow> string \<Rightarrow> shell_redirect_target set" where
  "redirects_of tree s \<equiv> set (shell_redirect_targets (root_node tree) s)"

text \<open>A script touches a path in a mode; the last flag says that the directory of a relative path is
  not known there.\<close>

inductive touches :: "permission_env \<Rightarrow> nat \<Rightarrow> string \<Rightarrow> bool \<Rightarrow> string \<Rightarrow> shell_file_mode \<Rightarrow> bool \<Rightarrow> bool" for E where
  redirect: "try_parse_shell E s = Some tree \<Longrightarrow> r \<in> redirects_of tree s \<Longrightarrow> redirect_path r = Some p \<Longrightarrow>
    touches E d s u p (redirect_mode r)
      (u \<or> cwd_unpinned_before (cwd_poison_positions (root_node tree) s) (redirect_start r) (redirect_scope r))"
| operand: "try_parse_shell E s = Some tree \<Longrightarrow> iv \<in> invocations_of tree s \<Longrightarrow> invocation_program iv = Some program \<Longrightarrow>
    (p, m) \<in> program_operands program (invocation_args iv) \<Longrightarrow> touches E d s u p m (invocation_unpinned tree s u iv)"
| deeper: "try_parse_shell E s = Some tree \<Longrightarrow> iv \<in> invocations_of tree s \<Longrightarrow> invocation_nested iv = Some t \<Longrightarrow>
    touches E d t (invocation_unpinned tree s u iv) p m v \<Longrightarrow> touches E (Suc d) s u p m v"

inductive unsettled :: "permission_env \<Rightarrow> nat \<Rightarrow> string \<Rightarrow> bool \<Rightarrow> bool \<Rightarrow> bool" for E where
  unparsed: "try_parse_shell E s = None \<Longrightarrow> unsettled E d s u True"
| malformed: "try_parse_shell E s = Some tree \<Longrightarrow> has_error tree \<Longrightarrow> unsettled E d s u True"
| redirect: "try_parse_shell E s = Some tree \<Longrightarrow> r \<in> redirects_of tree s \<Longrightarrow> redirect_ambiguous r \<Longrightarrow> unsettled E d s u n"
| invocation: "try_parse_shell E s = Some tree \<Longrightarrow> iv \<in> invocations_of tree s \<Longrightarrow> invocation_unsettled tree s u iv \<Longrightarrow>
    unsettled E d s u n"
| too_deep: "try_parse_shell E s = Some tree \<Longrightarrow> iv \<in> invocations_of tree s \<Longrightarrow> invocation_inline iv = Inline_Literal i \<Longrightarrow>
    unsettled E 0 s u n"
| deeper: "try_parse_shell E s = Some tree \<Longrightarrow> iv \<in> invocations_of tree s \<Longrightarrow> invocation_nested iv = Some t \<Longrightarrow>
    unsettled E d t (invocation_unpinned tree s u iv) True \<Longrightarrow> unsettled E (Suc d) s u n"

inductive_simps touches_0: "touches E 0 s u p m v"
inductive_simps touches_Suc: "touches E (Suc d) s u p m v"
inductive_simps unsettled_0: "unsettled E 0 s u n"
inductive_simps unsettled_Suc: "unsettled E (Suc d) s u n"

section \<open>Folds that only add verdicts\<close>

text \<open>A step on the state adds some verdicts and possibly the demand for a question.\<close>

definition adds :: "(gate_state \<Rightarrow> gate_state) \<Rightarrow> gate_decision option set \<Rightarrow> bool \<Rightarrow> bool" where
  "adds F D b \<longleftrightarrow> (\<forall>st. (\<forall>k > 0. k \<le> gate_level (fst (F st)) \<longleftrightarrow> k \<le> gate_level (fst st) \<or> (\<exists>d \<in> D. k \<le> gate_level d))
     \<and> (snd (F st) \<longleftrightarrow> snd st \<or> b))"

lemma adds_level: "adds F D b \<Longrightarrow> 0 < k \<Longrightarrow>
    k \<le> gate_level (fst (F st)) \<longleftrightarrow> k \<le> gate_level (fst st) \<or> (\<exists>d \<in> D. k \<le> gate_level d)"
  unfolding adds_def by blast

lemma adds_flag: "adds F D b \<Longrightarrow> snd (F st) \<longleftrightarrow> snd st \<or> b"
  unfolding adds_def by blast

lemma adds_id [intro, simp]: "adds (\<lambda>st. st) {} False"
  by (simp add: adds_def)

lemma adds_force [intro, simp]: "adds (force_ask b) {} b"
  by (simp add: adds_def force_ask_def)

lemma adds_note [intro, simp]: "adds (note_decision d) {d} False"
  by (simp add: adds_def note_decision_def gates.combine_rank le_max_iff_disj)

lemma adds_comp:
  assumes "adds F D b" and "adds G D' b'" and "D'' = D \<union> D'" and "b'' = (b \<or> b')"
  shows "adds (\<lambda>st. G (F st)) D'' b''"
  unfolding adds_def [of "\<lambda>st. G (F st)"]
  by (simp add: adds_level [OF assms(1)] adds_level [OF assms(2)] adds_flag [OF assms(1)] adds_flag [OF assms(2)]
      assms(3,4) bex_Un disj_assoc)

lemma adds_foldl:
  assumes "\<And>x. x \<in> set xs \<Longrightarrow> adds (\<lambda>st. G st x) (D x) (b x)"
  shows "adds (\<lambda>st. foldl G st xs) (\<Union>x \<in> set xs. D x) (\<exists>x \<in> set xs. b x)"
  using assms
proof (induction xs)
  case (Cons x xs)
  have "adds (\<lambda>st. foldl G (G st x) xs) (\<Union>x \<in> set (x # xs). D x) (\<exists>x \<in> set (x # xs). b x)"
    by (rule adds_comp [of "\<lambda>st. G st x" "D x" "b x" "\<lambda>st. foldl G st xs" "\<Union>x \<in> set xs. D x" "\<exists>x \<in> set xs. b x"])
      (use Cons in auto)
  then show ?case by simp
qed simp

lemma adds_cong: "adds F D b \<Longrightarrow> D = D' \<Longrightarrow> b = b' \<Longrightarrow> adds F D' b'"
  by simp

lemma adds_redirect:
  "adds (\<lambda>st. redirect_step E P cwd u changes st r)
     {evaluate_shell_path E P p cwd (redirect_mode r)
        (u \<or> cwd_unpinned_before changes (redirect_start r) (redirect_scope r)) | p. redirect_path r = Some p}
     (redirect_ambiguous r)"
proof (cases "redirect_path r")
  case None
  then show ?thesis by (simp add: redirect_step_def)
next
  case (Some p)
  then show ?thesis by (auto simp: redirect_step_def intro!: adds_comp [OF adds_force adds_note])
qed

abbreviation operand_verdict ::
  "permission_env \<Rightarrow> compiled_policy \<Rightarrow> string \<Rightarrow> bool \<Rightarrow> string \<times> shell_file_mode \<Rightarrow> gate_decision option" where
  "operand_verdict E P cwd u x \<equiv> evaluate_shell_path E P (fst x) cwd (snd x) u"

lemma adds_operands:
  "adds (\<lambda>st. foldl (operand_step E P cwd u) st xs) (operand_verdict E P cwd u ` set xs)
     (\<exists>x \<in> set xs. shell_arg_is_ambiguous (fst x))"
proof -
  have "adds (\<lambda>st. operand_step E P cwd u st x) {operand_verdict E P cwd u x} (shell_arg_is_ambiguous (fst x))" for x
    unfolding operand_step_def by (rule adds_comp [OF adds_force adds_note]) simp_all
  from adds_foldl [OF this] show ?thesis by (rule adds_cong) auto
qed

lemma adds_candidates:
  "adds (\<lambda>st. foldl (\<lambda>st tok. foldl (\<lambda>st mode. note_decision (evaluate_shell_path E P tok cwd mode u) st)
         (force_ask (shell_arg_is_ambiguous tok) st) modes) st toks)
     (operand_verdict E P cwd u ` (set toks \<times> set modes)) (\<exists>tok \<in> set toks. shell_arg_is_ambiguous tok)"
proof -
  have "adds (\<lambda>st. foldl (\<lambda>st mode. note_decision (evaluate_shell_path E P tok cwd mode u) st)
         (force_ask (shell_arg_is_ambiguous tok) st) modes)
      ((\<lambda>mode. evaluate_shell_path E P tok cwd mode u) ` set modes) (shell_arg_is_ambiguous tok)" for tok
    by (rule adds_comp [OF adds_force adds_foldl]) (rule adds_note, auto)
  from adds_foldl [OF this] show ?thesis by (rule adds_cong) (force, auto)
qed

lemma shell_file_mode_not_create: "shell_file_mode_of program \<noteq> Some Mode_Create"
  by (simp add: shell_file_mode_of_def)

lemma program_modes_list:
  assumes "program_modes program ws \<noteq> {}"
  obtains ms where "set ms = program_modes program ws"
    "(if shell_file_mode_of program \<noteq> None \<and> program = ''sed'' \<and> shell_sed_in_place ws then Some [Mode_Read, Mode_Write]
      else case shell_file_mode_of program of Some Mode_Read \<Rightarrow> Some [Mode_Read] | Some Mode_Write \<Rightarrow> Some [Mode_Write]
        | _ \<Rightarrow> None) = Some ms"
proof (cases "program = ''sed'' \<and> shell_sed_in_place ws")
  case True
  then show ?thesis using that [of "[Mode_Read, Mode_Write]"] by (simp add: program_modes_def shell_file_mode_of_def)
next
  case False
  then obtain m where m: "shell_file_mode_of program = Some m" "program_modes program ws = {m}"
    using assms by (auto simp: program_modes_def split: option.splits)
  then show ?thesis using that [of "[m]"] False shell_file_mode_not_create [of program] by (cases m) auto
qed

lemma adds_program:
  "adds (program_step E P cwd u unreadable program ws)
     (operand_verdict E P cwd u ` program_operands program ws) (program_unsettled program ws (u \<or> unreadable))"
proof -
  let ?known = "program = ''dd'' \<or> shell_file_mode_of program \<noteq> None \<or> shell_path_command_operands program ws \<noteq> None"
  let ?S = "special_file_operands program ws"
  have pre: "adds (\<lambda>st. foldl (operand_step E P cwd u) (force_ask (?known \<and> (u \<or> unreadable)) st) ?S)
      (operand_verdict E P cwd u ` set ?S) (?known \<and> (u \<or> unreadable) \<or> (\<exists>x \<in> set ?S. shell_arg_is_ambiguous (fst x)))"
    by (rule adds_comp [OF adds_force adds_operands]) simp_all
  let ?pre = "\<lambda>st. foldl (operand_step E P cwd u) (force_ask (?known \<and> (u \<or> unreadable)) st) ?S"
  let ?F = "program_step E P cwd u unreadable program ws"
  consider (dd) "program = ''dd''"
    | (paths) operands where "program \<noteq> ''dd''" "shell_path_command_operands program ws = Some operands"
    | (none) "program \<noteq> ''dd''" "shell_path_command_operands program ws = None" "program_modes program ws = {}"
    | (modes) "program \<noteq> ''dd''" "shell_path_command_operands program ws = None" "program_modes program ws \<noteq> {}"
    by blast
  then show ?thesis
  proof cases
    case dd
    then have "shell_path_command_operands program ws = None" "program_modes program ws = {}"
      by (simp_all add: shell_path_command_operands_def is_creation_program_def program_modes_def shell_file_mode_of_def)
    moreover have "?F = ?pre" by (rule ext) (simp add: program_step_def Let_def dd)
    ultimately show ?thesis using pre
      by (simp add: program_operands_def program_unsettled_def case_prod_beta dd)
  next
    case paths
    then have "?F = (\<lambda>st. foldl (operand_step E P cwd u) (?pre st) operands)"
      by (intro ext) (simp add: program_step_def Let_def)
    then show ?thesis using adds_comp [OF pre adds_operands [of E P cwd u operands] refl refl] paths
      by (simp add: program_operands_def program_unsettled_def image_Un bex_Un disj_ac case_prod_beta)
  next
    case none
    then have "shell_file_mode_of program = None" by (auto simp: program_modes_def split: if_splits option.splits)
    moreover from this have "?F = ?pre" using none by (intro ext) (simp add: program_step_def Let_def)
    ultimately show ?thesis using pre none
      by (simp add: program_operands_def program_unsettled_def case_prod_beta)
  next
    case modes
    obtain ms where ms: "set ms = program_modes program ws"
      "(if shell_file_mode_of program \<noteq> None \<and> program = ''sed'' \<and> shell_sed_in_place ws then Some [Mode_Read, Mode_Write]
        else case shell_file_mode_of program of Some Mode_Read \<Rightarrow> Some [Mode_Read] | Some Mode_Write \<Rightarrow> Some [Mode_Write]
          | _ \<Rightarrow> None) = Some ms"
      by (rule program_modes_list [OF modes(3)])
    let ?loop = "\<lambda>st. foldl (\<lambda>st tok. foldl (\<lambda>st mode. note_decision (evaluate_shell_path E P tok cwd mode u) st)
         (force_ask (shell_arg_is_ambiguous tok) st) ms) (?pre st) (shell_file_candidates ws)"
    have "?F = (\<lambda>st. force_ask (shell_reader_can_recurse program ws (shell_file_candidates ws)) (?loop st))"
      by (rule ext) (simp only: program_step_def Let_def modes(1,2) ms(2) if_False option.case)
    then have A: "adds ?F
        ((operand_verdict E P cwd u ` set ?S \<union> operand_verdict E P cwd u ` (set (shell_file_candidates ws) \<times> set ms)) \<union> {})
        (((?known \<and> (u \<or> unreadable) \<or> (\<exists>x \<in> set ?S. shell_arg_is_ambiguous (fst x)))
          \<or> (\<exists>tok \<in> set (shell_file_candidates ws). shell_arg_is_ambiguous tok))
        \<or> shell_reader_can_recurse program ws (shell_file_candidates ws))"
      using adds_comp [OF adds_comp [OF pre adds_candidates refl refl] adds_force refl refl] by (simp only:)
    have ops: "program_operands program ws = set ?S \<union> set (shell_file_candidates ws) \<times> program_modes program ws"
      using modes by (simp add: program_operands_def)
    obtain m where "m \<in> program_modes program ws" using modes(3) by blast
    then have "(\<exists>(p, m) \<in> program_operands program ws. shell_arg_is_ambiguous p) \<longleftrightarrow>
        (\<exists>x \<in> set ?S. shell_arg_is_ambiguous (fst x)) \<or> (\<exists>tok \<in> set (shell_file_candidates ws). shell_arg_is_ambiguous tok)"
      unfolding ops by force
    then show ?thesis using modes
      by (intro adds_cong [OF A]) (simp_all add: ops ms(1) image_Un program_unsettled_def disj_ac)
  qed
qed

section \<open>The gate is exact\<close>

type_synonym nested_gate = "(string \<Rightarrow> bool \<Rightarrow> gate_decision option) option"

lemma adds_inline:
  fixes iv :: shell_invocation
  defines "sws \<equiv> shell_words (cp_words (unwrap_invocation_checked iv))"
  shows "adds (inline_step inline pf sws u) {f t u | f t. inline = Some f \<and> invocation_nested iv = Some t}
    (pf \<and> invocation_inline iv \<noteq> NotInline \<or> invocation_inline iv \<in> {Inline_Untrusted, Inline_Unrecognized}
     \<or> inline = None \<and> (\<exists>i. invocation_inline iv = Inline_Literal i))"
proof -
  let ?force = "force_ask (pf \<and> shell_dash_c_script sws \<noteq> NotInline)"
  have forced: "adds (\<lambda>st. force_ask True (?force st)) {} True"
    by (rule adds_comp [OF adds_force adds_force]) simp_all
  show ?thesis
  proof (cases "shell_dash_c_script sws")
    case (Inline_Literal i)
    then show ?thesis
    proof (cases inline)
      case None
      then show ?thesis using forced Inline_Literal
        by (simp add: inline_step_def [abs_def] sws_def Let_def)
    next
      case (Some f)
      show ?thesis
      proof (cases "sws ! i")
        case (Literal_Word inner)
        then have "inline_step inline pf sws u = (\<lambda>st. note_decision (f inner u) (?force st))"
          using Some Inline_Literal by (intro ext) (simp add: inline_step_def Let_def)
        moreover have "adds (\<lambda>st. note_decision (f inner u) (?force st)) {f inner u} pf"
          by (rule adds_comp [OF adds_force adds_note]) (simp_all add: Inline_Literal)
        ultimately show ?thesis using Some Inline_Literal Literal_Word
          by (auto simp: sws_def invocation_nested_def intro: adds_cong)
      next
        case Untrusted_Word
        then have "inline_step inline pf sws u = ?force"
          using Some Inline_Literal by (intro ext) (simp add: inline_step_def Let_def)
        then show ?thesis using Some Inline_Literal Untrusted_Word
          by (auto simp: sws_def invocation_nested_def intro: adds_cong [OF adds_force])
      qed
    qed
  next
    case NotInline
    then have "inline_step inline pf sws u = force_ask False"
      by (intro ext) (simp add: inline_step_def Let_def)
    then show ?thesis using NotInline
      by (auto simp: sws_def invocation_nested_def intro: adds_cong [OF adds_force])
  next
    case Inline_Untrusted
    then have "inline_step inline pf sws u = (\<lambda>st. force_ask True (?force st))"
      by (intro ext) (simp add: inline_step_def Let_def)
    then show ?thesis using forced Inline_Untrusted by (simp add: sws_def invocation_nested_def)
  next
    case Inline_Unrecognized
    then have "inline_step inline pf sws u = (\<lambda>st. force_ask True (?force st))"
      by (intro ext) (simp add: inline_step_def Let_def)
    then show ?thesis using forced Inline_Unrecognized by (simp add: sws_def invocation_nested_def)
  qed
qed

text \<open>The verdicts that an invocation adds.\<close>

definition invocation_verdicts ::
  "permission_env \<Rightarrow> compiled_policy \<Rightarrow> nested_gate \<Rightarrow> string \<Rightarrow> bool \<Rightarrow> shell_invocation \<Rightarrow> gate_decision option set" where
  "invocation_verdicts E P inline cwd u iv =
     {f t u | f t. inline = Some f \<and> invocation_nested iv = Some t}
     \<union> {evaluate_shell_path E P p cwd m u | p m program. invocation_program iv = Some program
          \<and> (p, m) \<in> program_operands program (invocation_args iv)}"

lemma adds_invocation:
  assumes "changes = cwd_poison_positions (root_node tree) s" and "v = invocation_unpinned tree s u iv"
  shows "adds (\<lambda>st. invocation_step E P inline cwd u (has_error tree) changes st iv) (invocation_verdicts E P inline cwd v iv)
     (invocation_unsettled tree s u iv \<or> inline = None \<and> (\<exists>i. invocation_inline iv = Inline_Literal i))"
proof -
  let ?c = "unwrap_invocation_checked iv"
  let ?flags = "cp_exhausted ?c \<or> cp_split_string ?c \<or> cp_uncertain ?c \<or> cp_ambiguous ?c"
  have flags: "?flags \<longleftrightarrow> \<not> norm_clean (normalize_command_words (wrapper_words iv))"
    by (auto simp: unwrap_invocation_checked_def Let_def norm_clean_def)
  let ?two = "\<lambda>st. inline_step inline (has_error tree) (shell_words (cp_words ?c)) v (force_ask ?flags st)"
  note two = adds_comp [OF adds_force [of ?flags] adds_inline [of inline "has_error tree" iv v] refl refl]
  show ?thesis
  proof (cases "invocation_program iv")
    case None
    then have "(\<lambda>st. invocation_step E P inline cwd u (has_error tree) changes st iv) = ?two"
      unfolding invocation_step_def invocation_program_def Let_def assms invocation_unpinned_def
      by (intro ext) (auto split: list.splits invocation_word.splits if_splits)
    then show ?thesis using two None flags
      by (auto simp: invocation_verdicts_def invocation_unsettled_def intro: adds_cong)
  next
    case (Some program)
    let ?unreadable = "Invocation_Untrusted \<in> set (cp_words ?c) \<or> has_error tree"
    from Some have "(\<lambda>st. invocation_step E P inline cwd u (has_error tree) changes st iv)
        = (\<lambda>st. program_step E P cwd v ?unreadable program (invocation_args iv) (?two st))"
      unfolding invocation_step_def invocation_program_def Let_def assms invocation_unpinned_def
      by (intro ext) (auto split: list.splits invocation_word.splits if_splits)
    moreover note adds_comp [OF two adds_program [of E P cwd v ?unreadable program "invocation_args iv"] refl refl]
    ultimately have A: "adds (\<lambda>st. invocation_step E P inline cwd u (has_error tree) changes st iv)
        ({} \<union> {f t v | f t. inline = Some f \<and> invocation_nested iv = Some t}
         \<union> operand_verdict E P cwd v ` program_operands program (invocation_args iv))
        (?flags \<or> (has_error tree \<and> invocation_inline iv \<noteq> NotInline \<or> invocation_inline iv \<in> {Inline_Untrusted, Inline_Unrecognized}
          \<or> inline = None \<and> (\<exists>i. invocation_inline iv = Inline_Literal i))
         \<or> program_unsettled program (invocation_args iv) (v \<or> ?unreadable))"
      by (simp only: disj_assoc)
    show ?thesis
    proof (rule adds_cong [OF A])
      show "{} \<union> {f t v | f t. inline = Some f \<and> invocation_nested iv = Some t}
         \<union> operand_verdict E P cwd v ` program_operands program (invocation_args iv) = invocation_verdicts E P inline cwd v iv"
        using Some by (force simp: invocation_verdicts_def)
    qed (unfold flags invocation_unsettled_def Some assms(2), auto)
  qed
qed

lemma file_access_level:
  assumes "0 < k" and t: "try_parse_shell E s = Some tree"
  shows "k \<le> gate_level (file_access_script E P inline s cwd u n) \<longleftrightarrow>
       (\<exists>r p. r \<in> redirects_of tree s \<and> redirect_path r = Some p \<and> k \<le> gate_level (evaluate_shell_path E P p cwd (redirect_mode r)
          (u \<or> cwd_unpinned_before (cwd_poison_positions (root_node tree) s) (redirect_start r) (redirect_scope r))))
     \<or> (\<exists>iv d. iv \<in> invocations_of tree s \<and> d \<in> invocation_verdicts E P inline cwd (invocation_unpinned tree s u iv) iv \<and> k \<le> gate_level d)
     \<or> k \<le> 2 \<and> (n \<and> has_error tree \<or> (\<exists>r \<in> redirects_of tree s. redirect_ambiguous r)
          \<or> (\<exists>iv \<in> invocations_of tree s. invocation_unsettled tree s u iv
               \<or> inline = None \<and> (\<exists>i. invocation_inline iv = Inline_Literal i)))"
proof -
  let ?ch = "cwd_poison_positions (root_node tree) s"
  let ?st1 = "foldl (redirect_step E P cwd u ?ch) (None, n \<and> has_error tree) (shell_redirect_targets (root_node tree) s)"
  let ?st2 = "foldl (invocation_step E P inline cwd u (has_error tree) ?ch) ?st1 (shell_command_invocations (root_node tree) s)"
  note R = adds_foldl [of "shell_redirect_targets (root_node tree) s", OF adds_redirect [of E P cwd u ?ch]]
  note I = adds_foldl [of "shell_command_invocations (root_node tree) s", OF adds_invocation [OF refl refl, of E P inline cwd u tree s]]
  have "file_access_script E P inline s cwd u n = combine_gate_decisions (fst ?st2) (then_fail_closed (snd ?st2))"
    by (simp add: file_access_script_def t Let_def)
  then have "k \<le> gate_level (file_access_script E P inline s cwd u n) \<longleftrightarrow> k \<le> gate_level (fst ?st2) \<or> k \<le> 2 \<and> snd ?st2"
    using assms(1) by (auto simp: gates.combine_rank le_max_iff_disj then_fail_closed_level)
  then show ?thesis
    unfolding adds_level [OF I assms(1)] adds_flag [OF I] adds_level [OF R assms(1)] adds_flag [OF R]
    using assms(1) by auto
qed

abbreviation touched_here :: "ts_tree \<Rightarrow> string \<Rightarrow> bool \<Rightarrow> (string \<Rightarrow> shell_file_mode \<Rightarrow> bool \<Rightarrow> bool) \<Rightarrow> bool" where
  "touched_here tree s u Q \<equiv>
     (\<exists>r p. r \<in> redirects_of tree s \<and> redirect_path r = Some p \<and> Q p (redirect_mode r)
        (u \<or> cwd_unpinned_before (cwd_poison_positions (root_node tree) s) (redirect_start r) (redirect_scope r)))
     \<or> (\<exists>iv program p m. iv \<in> invocations_of tree s \<and> invocation_program iv = Some program
          \<and> (p, m) \<in> program_operands program (invocation_args iv) \<and> Q p m (invocation_unpinned tree s u iv))"

lemma touches_0_iff:
  assumes "try_parse_shell E s = Some tree"
  shows "(\<exists>p m v. touches E 0 s u p m v \<and> Q p m v) \<longleftrightarrow> touched_here tree s u Q"
  unfolding touches_0 by (simp only: assms option.inject) blast

lemma touches_Suc_iff:
  assumes "try_parse_shell E s = Some tree"
  shows "(\<exists>p m v. touches E (Suc d) s u p m v \<and> Q p m v) \<longleftrightarrow> touched_here tree s u Q
    \<or> (\<exists>iv t. iv \<in> invocations_of tree s \<and> invocation_nested iv = Some t
         \<and> (\<exists>p m v. touches E d t (invocation_unpinned tree s u iv) p m v \<and> Q p m v))"
  unfolding touches_Suc by (simp only: assms option.inject) blast

lemma unsettled_0_iff:
  assumes "try_parse_shell E s = Some tree"
  shows "unsettled E 0 s u n \<longleftrightarrow> n \<and> has_error tree \<or> (\<exists>r \<in> redirects_of tree s. redirect_ambiguous r)
    \<or> (\<exists>iv \<in> invocations_of tree s. invocation_unsettled tree s u iv \<or> (\<exists>i. invocation_inline iv = Inline_Literal i))"
  unfolding unsettled_0 by (auto simp: assms)

lemma unsettled_Suc_iff:
  assumes "try_parse_shell E s = Some tree"
  shows "unsettled E (Suc d) s u n \<longleftrightarrow> n \<and> has_error tree \<or> (\<exists>r \<in> redirects_of tree s. redirect_ambiguous r)
    \<or> (\<exists>iv \<in> invocations_of tree s. invocation_unsettled tree s u iv)
    \<or> (\<exists>iv t. iv \<in> invocations_of tree s \<and> invocation_nested iv = Some t \<and> unsettled E d t (invocation_unpinned tree s u iv) True)"
  unfolding unsettled_Suc by (auto simp: assms)

lemma verdicts_iff:
  "(\<exists>iv d. iv \<in> I \<and> d \<in> invocation_verdicts E P inline cwd (v iv) iv \<and> k \<le> gate_level d) \<longleftrightarrow>
     (\<exists>iv program p m. iv \<in> I \<and> invocation_program iv = Some program \<and> (p, m) \<in> program_operands program (invocation_args iv)
        \<and> k \<le> gate_level (evaluate_shell_path E P p cwd m (v iv)))
     \<or> (\<exists>iv t f. iv \<in> I \<and> inline = Some f \<and> invocation_nested iv = Some t \<and> k \<le> gate_level (f t (v iv)))"
  unfolding invocation_verdicts_def by blast

lemma file_gate_level:
  assumes "0 < k"
  shows "k \<le> gate_level (evaluate_shell_file_access_inner E P s cwd d u n) \<longleftrightarrow>
      (\<exists>p m v. touches E d s u p m v \<and> k \<le> gate_level (evaluate_shell_path E P p cwd m v)) \<or> k \<le> 2 \<and> unsettled E d s u n"
proof (induction d arbitrary: s u n)
  case 0
  show ?case
  proof (cases "try_parse_shell E s")
    case None
    then show ?thesis using assms
      by (auto simp: file_access_script_def touches_0 unsettled_0 then_fail_closed_level)
  next
    case (Some tree)
    show ?thesis
      unfolding evaluate_shell_file_access_inner.simps file_access_level [OF assms Some] verdicts_iff
        touches_0_iff [OF Some] unsettled_0_iff [OF Some] by simp
  qed
next
  case (Suc d)
  show ?case
  proof (cases "try_parse_shell E s")
    case None
    then show ?thesis using assms
      by (auto simp: file_access_script_def touches_Suc unsettled_Suc then_fail_closed_level)
  next
    case (Some tree)
    show ?thesis
      unfolding evaluate_shell_file_access_inner.simps file_access_level [OF assms Some] verdicts_iff
        touches_Suc_iff [OF Some] unsettled_Suc_iff [OF Some]
      by (simp add: Suc) blast
  qed
qed

text \<open>The spellings of a path that the rules are matched with: its text, and, when its directory is
  known, the absolute path and the target of symbolic links.\<close>

definition shell_absolute :: "string \<Rightarrow> string \<Rightarrow> string" where
  "shell_absolute tok cwd = (let path = normalize_shell_path tok
     in if is_absolute_shell_path path then path else normalize_shell_path (path_join cwd path))"

definition anchored :: "string \<Rightarrow> bool \<Rightarrow> bool" where
  "anchored tok v \<longleftrightarrow> is_absolute_shell_path (normalize_shell_path tok) \<or> \<not> v"

definition shell_follow :: "permission_env \<Rightarrow> string \<Rightarrow> string \<Rightarrow> bool \<Rightarrow> symlink_follow" where
  "shell_follow E tok cwd v =
     (let raw = normalize_shell_path_raw tok
      in if \<not> anchored tok v then Follow_None
         else if is_absolute_shell_path raw then follow_absolute_symlink (files E) raw (shell_absolute tok cwd)
         else if v then Follow_None
         else follow_absolute_symlink (files E) (normalize_shell_path_raw (path_join cwd raw)) (shell_absolute tok cwd))"

definition path_spellings :: "permission_env \<Rightarrow> string \<Rightarrow> string \<Rightarrow> bool \<Rightarrow> string set" where
  "path_spellings E tok cwd v = {normalize_shell_path tok} \<union> (if anchored tok v then {shell_absolute tok cwd} else {})
     \<union> {target. shell_follow E tok cwd v = Follow_Target target}"

definition path_unknown :: "permission_env \<Rightarrow> string \<Rightarrow> string \<Rightarrow> bool \<Rightarrow> bool" where
  "path_unknown E tok cwd v \<longleftrightarrow> \<not> anchored tok v \<or> shell_follow E tok cwd v = Follow_Unresolvable"

definition path_hit ::
  "permission_env \<Rightarrow> permission_config \<Rightarrow> rule_action \<Rightarrow> string \<Rightarrow> string \<Rightarrow> shell_file_mode \<Rightarrow> bool \<Rightarrow> bool" where
  "path_hit E cfg act tok cwd m v \<longleftrightarrow> (\<exists>p \<in> path_spellings E tok cwd v.
     matched E cfg act (shell_access m p) (if anchored tok v then Some cwd else None))"

lemma escalate_path_level:
  "gate_level (escalate_path E (compiled_policy_new E cfg) c (shell_access m p)) =
     (if matched E cfg Action_Deny (shell_access m p) c then 4
      else if matched E cfg Action_Ask (shell_access m p) c then 3 else 0)"
proof -
  let ?l = "evaluate_lexical_with_cwd E (compiled_policy_new E cfg) (shell_access m p) c"
  have "?l \<in> {None, Some Allow, Some Ask} \<union> (Some ` range Reject)" by (rule lexical_kinds)
  then have "gate_level (escalate_path E (compiled_policy_new E cfg) c (shell_access m p))
      = (if verdict ?l \<le> 2 then 0 else verdict ?l)"
    by (auto simp: escalate_path_def)
  then show ?thesis by (simp add: lexical_verdict)
qed

lemma shell_path_level:
  assumes "0 < k"
  shows "k \<le> gate_level (evaluate_shell_path E P tok cwd m v) \<longleftrightarrow>
      (\<exists>p \<in> path_spellings E tok cwd v.
         k \<le> gate_level (escalate_path E P (if anchored tok v then Some cwd else None) (shell_access m p)))
      \<or> k \<le> 2 \<and> path_unknown E tok cwd v"
proof -
  let ?esc = "\<lambda>p. escalate_path E P (if anchored tok v then Some cwd else None) (shell_access m p)"
  have eq: "evaluate_shell_path E P tok cwd m v =
      combine_gate_decisions (combine_gate_decisions (?esc (normalize_shell_path tok))
        (if anchored tok v then combine_gate_decisions (?esc (shell_absolute tok cwd))
           (case shell_follow E tok cwd v of Follow_Target t \<Rightarrow> ?esc t | Follow_Unresolvable \<Rightarrow> Some AskFailClosed | Follow_None \<Rightarrow> None)
         else None)) (then_fail_closed (\<not> anchored tok v))"
    unfolding evaluate_shell_path_def Let_def shell_follow_def anchored_def shell_absolute_def
    by (simp split del: if_split cong: if_cong) (simp split: if_split)
  have "\<not> anchored tok v \<Longrightarrow> shell_follow E tok cwd v = Follow_None" by (simp add: shell_follow_def)
  then show ?thesis
    unfolding eq path_spellings_def path_unknown_def using assms
    by (cases "shell_follow E tok cwd v"; cases "anchored tok v")
      (auto simp: gates.combine_rank le_max_iff_disj then_fail_closed_level)
qed

lemma shell_path_verdicts:
  defines "l E cfg p cwd m v \<equiv> gate_level (evaluate_shell_path E (compiled_policy_new E cfg) p cwd m v)"
  shows "4 \<le> l E cfg p cwd m v \<longleftrightarrow> path_hit E cfg Action_Deny p cwd m v"
    and "3 \<le> l E cfg p cwd m v \<longleftrightarrow> path_hit E cfg Action_Deny p cwd m v \<or> path_hit E cfg Action_Ask p cwd m v"
    and "2 \<le> l E cfg p cwd m v \<longleftrightarrow> path_hit E cfg Action_Deny p cwd m v \<or> path_hit E cfg Action_Ask p cwd m v
      \<or> path_unknown E p cwd v"
proof -
  define c where "c = (if anchored p v then Some cwd else None)"
  have "4 \<le> l E cfg p cwd m v \<longleftrightarrow> (\<exists>q \<in> path_spellings E p cwd v. matched E cfg Action_Deny (shell_access m q) c)"
    unfolding l_def c_def [symmetric] by (auto simp: shell_path_level escalate_path_level c_def [symmetric])
  moreover have "3 \<le> l E cfg p cwd m v \<longleftrightarrow> (\<exists>q \<in> path_spellings E p cwd v.
      matched E cfg Action_Deny (shell_access m q) c \<or> matched E cfg Action_Ask (shell_access m q) c)"
    unfolding l_def c_def [symmetric] by (auto simp: shell_path_level escalate_path_level c_def [symmetric])
  moreover have "2 \<le> l E cfg p cwd m v \<longleftrightarrow> (\<exists>q \<in> path_spellings E p cwd v.
      matched E cfg Action_Deny (shell_access m q) c \<or> matched E cfg Action_Ask (shell_access m q) c) \<or> path_unknown E p cwd v"
    unfolding l_def c_def [symmetric] by (auto simp: shell_path_level escalate_path_level c_def [symmetric] split: if_splits)
  ultimately show "4 \<le> l E cfg p cwd m v \<longleftrightarrow> path_hit E cfg Action_Deny p cwd m v"
    "3 \<le> l E cfg p cwd m v \<longleftrightarrow> path_hit E cfg Action_Deny p cwd m v \<or> path_hit E cfg Action_Ask p cwd m v"
    "2 \<le> l E cfg p cwd m v \<longleftrightarrow> path_hit E cfg Action_Deny p cwd m v \<or> path_hit E cfg Action_Ask p cwd m v
      \<or> path_unknown E p cwd v"
    unfolding path_hit_def c_def [symmetric] by blast+
qed

text \<open>C10: The gate for files is exact. When the policy restricts files at all, its verdict on a script
  in a working directory is: a rejection if a file that the script touches, by a redirection or as an
  operand of a known program, in the script or in an inline script nested in it, is matched by a deny
  rule under its text, its absolute path or the target of its links; otherwise a question if one is
  matched by an ask rule; otherwise a question if something is not settled (a word or path only known
  at run time, a relative path whose directory is not known, links that do not resolve, a wrapper
  that could not be peeled, an inline script that is not literal or deeper than the budget of eight);
  and no objection otherwise. No order of the commands and no position hides a file from a rule.\<close>

theorem file_gate_exact:
  "let gate = evaluate_shell_file_access_gate E (compiled_policy_new E cfg) s cwd;
       hit = (\<lambda>act. \<exists>p m v. touches E MAX_INLINE_SHELL_DEPTH s False p m v \<and> path_hit E cfg act p cwd m v);
       open_question = (unsettled E MAX_INLINE_SHELL_DEPTH s False False
          \<or> (\<exists>p m v. touches E MAX_INLINE_SHELL_DEPTH s False p m v \<and> path_unknown E p cwd v))
   in if \<not> has_file_restrictions (compiled_policy_new E cfg) then gate = None
      else if hit Action_Deny then \<exists>rsn. gate = Some (Gate_Reject rsn)
      else if hit Action_Ask then gate = Some AskRuleMatch
      else if open_question then gate = Some AskFailClosed
      else gate = None"
proof (cases "has_file_restrictions (compiled_policy_new E cfg)")
  case True
  define g where "g = evaluate_shell_file_access_gate E (compiled_policy_new E cfg) s cwd"
  define touched where "touched p m v = touches E MAX_INLINE_SHELL_DEPTH s False p m v" for p m v
  define hit where "hit act = (\<exists>p m v. touched p m v \<and> path_hit E cfg act p cwd m v)" for act
  define opn where "opn = (unsettled E MAX_INLINE_SHELL_DEPTH s False False \<or> (\<exists>p m v. touched p m v \<and> path_unknown E p cwd v))"
  have lev: "k \<le> gate_level g \<longleftrightarrow> (\<exists>p m v. touched p m v \<and> k \<le> gate_level (evaluate_shell_path E (compiled_policy_new E cfg) p cwd m v))
      \<or> k \<le> 2 \<and> unsettled E MAX_INLINE_SHELL_DEPTH s False False" if "0 < k" for k
    using True file_gate_level [OF that] by (simp add: g_def touched_def evaluate_shell_file_access_gate_def)
  have "4 \<le> gate_level g \<longleftrightarrow> hit Action_Deny"
    using lev [of 4] by (simp add: shell_path_verdicts hit_def)
  moreover have "3 \<le> gate_level g \<longleftrightarrow> hit Action_Deny \<or> hit Action_Ask"
    using lev [of 3] by (auto simp: shell_path_verdicts hit_def)
  moreover have "2 \<le> gate_level g \<longleftrightarrow> hit Action_Deny \<or> hit Action_Ask \<or> opn"
    using lev [of 2] by (auto simp: shell_path_verdicts hit_def opn_def)
  moreover have "gate_level g = 0 \<or> gate_level g = 2 \<or> gate_level g = 3 \<or> gate_level g = 4"
    using gate_level_cases(4,5) [of g] by linarith
  ultimately show ?thesis
    unfolding Let_def g_def [symmetric] touched_def [symmetric] hit_def [symmetric] opn_def [symmetric]
    using True gate_level_cases(1-3) [of g] by (auto split: if_splits)
qed (simp add: evaluate_shell_file_access_gate_def)

text \<open>A change of directory is recognised by the text of the command name. Under quotes, as in
  \<open>'cd' s;cat k\<close>, it is not: the operand of \<open>cat\<close> is then taken to be in the directory in which the
  script starts, and a rule that denies \<open>/w/s/k\<close> is not applied. Without quotes the gate asks.\<close>

definition cd_tree :: "ts_node \<Rightarrow> nat \<Rightarrow> ts_tree" where
  "cd_tree name n = \<lparr>root_node = Node ''program'' True None 0 (n + 8)
     [Node ''command'' True None 0 (n + 2) [Node ''command_name'' True (Some ''name'') 0 n [name], Node ''word'' True (Some ''argument'') (n + 1) (n + 2) []],
      Node '';'' False None (n + 2) (n + 3) [],
      Node ''command'' True None (n + 3) (n + 8)
        [Node ''command_name'' True (Some ''name'') (n + 3) (n + 6) [Node ''word'' True None (n + 3) (n + 6) []],
         Node ''word'' True (Some ''argument'') (n + 7) (n + 8) []]],
     has_error = False\<rparr>"

definition cd_env :: permission_env where
  "cd_env = demo_env\<lparr>try_parse_shell := (\<lambda>s.
     if s = ''cd s;cat k'' then Some (cd_tree (Node ''word'' True None 0 2 []) 2)
     else if s = [CHR 0x27] @ ''cd'' @ [CHR 0x27] @ '' s;cat k'' then Some (cd_tree (Node ''raw_string'' True None 0 4 []) 4)
     else None)\<rparr>"

definition cd_rules :: permission_config where
  "cd_rules = permission_config_new
     [\<lparr>action = Action_Deny, tool = Filter_Read, pattern = Some ''/w/s/k'', pattern_mode = Mode_Glob\<rparr>]"

lemma quoted_cd_not_seen:
  "evaluate_shell_file_access cd_env (compiled_policy_new cd_env cd_rules) ''cd s;cat k'' ''/w'' = Some Ask"
  "evaluate_shell_file_access cd_env (compiled_policy_new cd_env cd_rules)
     ([CHR 0x27] @ ''cd'' @ [CHR 0x27] @ '' s;cat k'') ''/w'' = None"
  "evaluate_lexical_with_cwd cd_env (compiled_policy_new cd_env cd_rules) (Access_Read (Some ''/w/s/k'')) (Some ''/w'')
     \<noteq> None"
  by code_simp+

end
