(* ===== verification/Exec_Risk.thy ===== *)
theory Exec_Risk
  imports Shell_Inline Path_Matching "HOL-Library.Char_ord" "HOL-Library.List_Lexorder"
begin

text \<open>
  Commands that look like queries and run other programs (\<open>permission/exec_risk.rs\<close> and
  \<open>git_content_filters.rs\<close> of the workspace crate).

  A \<open>git\<close> or \<open>sort\<close> command is scanned for options that start a program or choose the configuration
  that is read, and a script that runs \<open>git\<close> is scanned for the directories in which it does, whose
  local configuration may name programs too. The library \<open>git2\<close> and the file system are arguments:
  a \<open>git_lib\<close> says what discovery, the readability test and the configuration answer.

  The theory shows that the test for read-only queries accepts exactly the words of a small grammar,
  that the normal form it is applied to is the innermost command, that the directories of the scan
  are those in which a run of the commands one after the other runs \<open>git\<close>, and that the scan of a
  configuration answers no only when every entry was read and is harmless.
\<close>

section \<open>Normalisation of a command\<close>

datatype normalized_argv = Argv_Ready "string list" | FailClosed

fun exec_risk_rounds :: "nat \<Rightarrow> string list \<Rightarrow> normalized_argv" where
  "exec_risk_rounds 0 current = FailClosed"
| "exec_risk_rounds (Suc k) current =
     (let checked = unwrap_wrappers_checked current
      in if peel_exhausted checked \<or> peel_split_string checked \<or> peel_chdir checked then FailClosed
         else case peel_transparent_prefixes (peel_words checked) of
           Peel_Ambiguous \<Rightarrow> FailClosed
         | Ready after_trans \<Rightarrow>
             if length after_trans = length current then Argv_Ready after_trans
             else if length after_trans = length (peel_words checked) then Argv_Ready after_trans
             else exec_risk_rounds k after_trans)"

definition normalize_for_exec_risk :: "string list \<Rightarrow> normalized_argv" where
  "normalize_for_exec_risk ws = exec_risk_rounds MAX_NORMALIZE_ROUNDS ws"

section \<open>Names and options\<close>

definition is_accepted_long_option_prefix :: "string \<Rightarrow> string \<Rightarrow> nat \<Rightarrow> bool" where
  "is_accepted_long_option_prefix flag full min_len \<longleftrightarrow>
     starts_with flag ''--'' \<and> min_len \<le> length flag \<and> starts_with full flag
     \<and> list_all (\<lambda>b. is_ascii_alphanumeric b \<or> b = CHR ''-'') flag"

definition normalized_token_basename :: "string \<Rightarrow> string" where
  "normalized_token_basename tok =
     (let name = to_ascii_lowercase (base_name tok)
      in case strip_suffix ''.exe'' name of Some stem \<Rightarrow> stem | None \<Rightarrow> name)"

definition normalized_program_name :: "string list \<Rightarrow> string option" where
  "normalized_program_name ws = (case ws of
     [] \<Rightarrow> None
   | raw # _ \<Rightarrow> if base_name raw = [] then None
       else (let name = to_ascii_lowercase (base_name raw)
             in Some (case strip_suffix ''.exe'' name of Some stem \<Rightarrow> stem | None \<Rightarrow> name)))"

definition is_git_program :: "string list \<Rightarrow> bool" where
  "is_git_program ws \<longleftrightarrow> normalized_program_name ws = Some ''git''"

definition is_sort_program :: "string list \<Rightarrow> bool" where
  "is_sort_program ws \<longleftrightarrow> normalized_program_name ws = Some ''sort''"

text \<open>\<open>w.split_once('=').map(|(f, _)| f).unwrap_or(w)\<close>\<close>

definition before_equals :: "string \<Rightarrow> string" where
  "before_equals w = (case split_once (CHR ''='') w of Some (f, _) \<Rightarrow> f | None \<Rightarrow> w)"

definition sort_has_compress_program_flag :: "string list \<Rightarrow> bool" where
  "sort_has_compress_program_flag ws =
     list_ex (\<lambda>w. w = ''--compress-program'' \<or> starts_with w ''--compress-program=''
       \<or> is_accepted_long_option_prefix (before_equals w) ''--compress-program'' 4)
     (takeWhile (\<lambda>w. w \<noteq> ''--'') (drop 1 ws))"

definition is_git_config_env_flag :: "string \<Rightarrow> bool" where
  "is_git_config_env_flag tok \<longleftrightarrow> tok = ''--config-env'' \<or> starts_with tok ''--config-env=''
     \<or> is_accepted_long_option_prefix (before_equals tok) ''--config-env'' 4"

definition is_git_repo_retarget_flag :: "string \<Rightarrow> bool" where
  "is_git_repo_retarget_flag tok \<longleftrightarrow>
     tok = ''--git-dir'' \<or> starts_with tok ''--git-dir='' \<or> tok = ''--work-tree'' \<or> starts_with tok ''--work-tree=''
     \<or> is_accepted_long_option_prefix (before_equals tok) ''--git-dir'' 4
     \<or> is_accepted_long_option_prefix (before_equals tok) ''--work-tree'' 4"

definition is_attached_git_config_c :: "string \<Rightarrow> bool" where
  "is_attached_git_config_c tok \<longleftrightarrow> starts_with tok ''-c'' \<and> 2 < length tok \<and> \<not> starts_with tok ''--''"

definition attached_git_c_path :: "string \<Rightarrow> string option" where
  "attached_git_c_path tok = (case strip_prefix ''-C'' tok of
     Some rest \<Rightarrow> if rest \<noteq> [] \<and> \<not> starts_with tok ''--'' then Some rest else None
   | None \<Rightarrow> None)"

definition git_global_option_takes_value :: "string \<Rightarrow> bool" where
  "git_global_option_takes_value tok \<longleftrightarrow>
     tok \<in> set [''-C'', ''-c'', ''--git-dir'', ''--work-tree'', ''--namespace'', ''--super-prefix'',
               ''--exec-path'', ''--list-cmds'', ''--attr-source'', ''--config-env'']
     \<or> is_accepted_long_option_prefix tok ''--config-env'' 4
     \<or> is_accepted_long_option_prefix tok ''--git-dir'' 4
     \<or> is_accepted_long_option_prefix tok ''--work-tree'' 4
     \<or> is_accepted_long_option_prefix tok ''--namespace'' 7
     \<or> is_accepted_long_option_prefix tok ''--super-prefix'' 8
     \<or> is_accepted_long_option_prefix tok ''--exec-path'' 7
     \<or> is_accepted_long_option_prefix tok ''--list-cmds'' 7
     \<or> is_accepted_long_option_prefix tok ''--attr-source'' 8"

text \<open>The word after a global option is its value: it exists and does not look like an option.\<close>

definition value_follows :: "string \<Rightarrow> string list \<Rightarrow> bool" where
  "value_follows tok rest \<longleftrightarrow> CHR ''='' \<notin> set tok \<and> git_global_option_takes_value tok
     \<and> (case rest of [] \<Rightarrow> False | n # _ \<Rightarrow> \<not> starts_with n ''-'' \<or> n = ''-'')"

text \<open>The loop over the global options, on the words after \<open>git\<close>.\<close>

fun git_global_risk :: "string list \<Rightarrow> bool" where
  "git_global_risk [] = False"
| "git_global_risk (tok # rest) =
     (if tok = ''--'' then False
      else if \<not> starts_with tok ''-'' \<or> tok = ''-'' then False
      else if tok = ''-c'' \<or> is_attached_git_config_c tok \<or> is_git_config_env_flag tok
              \<or> is_git_repo_retarget_flag tok then True
      else if attached_git_c_path tok \<noteq> None then git_global_risk rest
      else if value_follows tok rest then git_global_risk (drop 1 rest)
      else git_global_risk rest)"

definition git_has_exec_risk_global :: "string list \<Rightarrow> bool" where
  "git_has_exec_risk_global ws = git_global_risk (drop 1 ws)"

definition segment_has_exec_risk_flag :: "string list \<Rightarrow> bool" where
  "segment_has_exec_risk_flag ws =
     (if is_sort_program ws then sort_has_compress_program_flag ws
      else if is_git_program ws then git_has_exec_risk_global ws
      else False)"

record segment_exec_facts =
  exec_risk :: bool
  has_git :: bool

definition segment_exec_facts_of :: "string list \<Rightarrow> segment_exec_facts" where
  "segment_exec_facts_of ws = (case normalize_for_exec_risk ws of
     FailClosed \<Rightarrow> \<lparr>exec_risk = True, has_git = False\<rparr>
   | Argv_Ready inner \<Rightarrow> \<lparr>exec_risk = segment_has_exec_risk_flag inner, has_git = is_git_program inner\<rparr>)"

section \<open>Read-only queries of git\<close>

definition SAFE_GIT_SUBCOMMANDS :: "string list" where
  "SAFE_GIT_SUBCOMMANDS =
     [''status'', ''branch'', ''log'', ''diff'', ''ls-files'', ''show'', ''rev-parse'', ''blame'', ''grep'',
      ''describe'', ''merge-base'', ''check-ignore'', ''check-attr'', ''cat-file'', ''ls-tree'', ''show-ref'',
      ''for-each-ref'', ''rev-list'', ''name-rev'', ''count-objects'', ''shortlog'']"

definition GIT_QUERY_UNSAFE_OPTIONS :: "string list" where
  "GIT_QUERY_UNSAFE_OPTIONS =
     [''--filters'', ''--textconv'', ''--output'', ''--ext-diff'', ''--open-files-in-pager'']"

definition git_query_option_is_unsafe :: "string \<Rightarrow> bool" where
  "git_query_option_is_unsafe word =
     (let flag = hd (split_on (CHR ''='') word)
      in 2 < length flag \<and> list_ex (\<lambda>full. starts_with full flag) GIT_QUERY_UNSAFE_OPTIONS)"

text \<open>The index of the subcommand; the loop starts at a given index with the words from there on.\<close>

fun verb_index_from :: "nat \<Rightarrow> string list \<Rightarrow> nat option" where
  "verb_index_from i [] = None"
| "verb_index_from i (tok # rest) =
     (if tok = ''-'' \<or> tok = ''--'' then None
      else if \<not> starts_with tok ''-'' then Some i
      else if tok = ''-C'' then verb_index_from (i + 2) (drop 1 rest)
      else if attached_git_c_path tok \<noteq> None \<or> tok = ''--no-pager'' \<or> tok = ''-P'' then verb_index_from (i + 1) rest
      else None)"

definition git_safe_query_verb_index :: "string list \<Rightarrow> nat option" where
  "git_safe_query_verb_index ws = verb_index_from 1 (drop 1 ws)"

definition git_words_have_unsafe_query_option :: "string list \<Rightarrow> bool" where
  "git_words_have_unsafe_query_option ws =
     (if ws = [] \<or> hd ws \<noteq> ''git'' then False
      else if list_ex git_query_option_is_unsafe (drop 1 ws) then True
      else (case git_safe_query_verb_index ws of None \<Rightarrow> False | Some i \<Rightarrow> ws ! i = ''grep'')
           \<and> list_ex (\<lambda>w. starts_with w ''-O'') (drop 1 ws))"

definition git_words_are_read_only_query :: "string list \<Rightarrow> bool" where
  "git_words_are_read_only_query ws =
     (if ws = [] \<or> hd ws \<noteq> ''git'' then False
      else if git_has_exec_risk_global ws then False
      else case git_safe_query_verb_index ws of
        None \<Rightarrow> False
      | Some i \<Rightarrow> if ws ! i \<notin> set SAFE_GIT_SUBCOMMANDS then False
                  else \<not> git_words_have_unsafe_query_option ws)"

section \<open>The local configuration\<close>

text \<open>What \<open>git2\<close> and the file system answer. \<open>discover\<close> finds the repository of a directory;
  opening a file fails, finds nothing, or gives a file that is regular or not; the entries of the
  configuration are read one by one, and each may fail.\<close>

datatype config_level = Level_Local | Level_Worktree | Level_Other

record config_entry =
  entry_level :: config_level
  entry_name :: "string option"
  entry_has_value :: bool
  entry_value :: "string option"

record git_repo =
  repo_path :: string
  repo_commondir :: string
  repo_entries :: "config_entry option list option"

datatype discover_result = Repo_Found git_repo | Repo_NotFound | Repo_Error

datatype open_result = Opened (opened_is_file: "bool option") | Open_NotFound | Open_Error

record git_lib =
  lib_discover :: "string \<Rightarrow> discover_result"
  lib_open :: "string \<Rightarrow> open_result"
  lib_parse_bool_ok :: "string \<Rightarrow> bool"

definition filter_command_driver :: "string \<Rightarrow> string option" where
  "filter_command_driver name =
     (case get_to name 7 of
        None \<Rightarrow> None
      | Some head \<Rightarrow>
          if \<not> eq_ignore_ascii_case head ''filter.'' then None
          else case get_from name 7 of
            None \<Rightarrow> None
          | Some rest \<Rightarrow>
              (case rsplit_once (CHR ''.'') rest of
                 None \<Rightarrow> None
               | Some (driver, prop) \<Rightarrow>
                   if driver \<noteq> [] \<and> (eq_ignore_ascii_case prop ''clean'' \<or> eq_ignore_ascii_case prop ''smudge''
                                     \<or> eq_ignore_ascii_case prop ''process'')
                   then Some driver else None))"

definition local_includeif_unsupported :: "string \<Rightarrow> bool" where
  "local_includeif_unsupported name = (case get_to name 10 of
     None \<Rightarrow> False
   | Some head \<Rightarrow>
       if \<not> eq_ignore_ascii_case head ''includeif.'' then False
       else (let condition = hd (split_on (CHR '':'') (case get_from name 10 of Some r \<Rightarrow> r | None \<Rightarrow> []))
             in to_ascii_lowercase condition \<notin> set [''gitdir'', ''gitdir/i'', ''onbranch'']))"

definition path_unreadable :: "git_lib \<Rightarrow> string \<Rightarrow> bool" where
  "path_unreadable G p = (case lib_open G p of
     Opened meta \<Rightarrow> (case meta of Some is_file \<Rightarrow> \<not> is_file | None \<Rightarrow> True)
   | Open_NotFound \<Rightarrow> False
   | Open_Error \<Rightarrow> True)"

text \<open>The loop over the entries: \<open>None\<close> is an early return.\<close>

fun read_entries :: "config_entry option list \<Rightarrow> (string \<times> string) list \<Rightarrow> (string \<times> string) list option" where
  "read_entries [] out = Some out"
| "read_entries (None # es) out = None"
| "read_entries (Some e # es) out =
     (if entry_level e = Level_Other then read_entries es out
      else case entry_name e of
        None \<Rightarrow> None
      | Some name \<Rightarrow>
          if local_includeif_unsupported name then None
          else if entry_has_value e then
            (case entry_value e of
               None \<Rightarrow> if filter_command_driver name \<noteq> None then None else read_entries es out
             | Some v \<Rightarrow> read_entries es (out @ [(name, v)]))
          else if filter_command_driver name \<noteq> None then None
          else read_entries es (out @ [(name, ''true'')]))"

definition read_local_git_config_entries :: "git_lib \<Rightarrow> string \<Rightarrow> (string \<times> string) list option" where
  "read_local_git_config_entries G cwd = (case lib_discover G cwd of
     Repo_NotFound \<Rightarrow> Some []
   | Repo_Error \<Rightarrow> None
   | Repo_Found repo \<Rightarrow>
       if path_unreadable G (path_join (repo_commondir repo) ''config'')
          \<or> path_unreadable G (path_join (repo_path repo) ''config'')
          \<or> path_unreadable G (path_join (repo_path repo) ''config.worktree'') then None
       else case repo_entries repo of None \<Rightarrow> None | Some es \<Rightarrow> read_entries es [])"

definition local_git_config_entry_is_exec :: "git_lib \<Rightarrow> string \<Rightarrow> string \<Rightarrow> bool" where
  "local_git_config_entry_is_exec G raw_name raw_value =
     (let name = to_ascii_lowercase raw_name; v = trim raw_value
      in if v = [] then False
         else if name = ''core.fsmonitor'' then \<not> lib_parse_bool_ok G v
         else if name = ''diff.external'' then True
         else if (case strip_prefix ''diff.'' name of None \<Rightarrow> False
                  | Some rest \<Rightarrow> ends_with rest ''.command'' \<or> ends_with rest ''.textconv'' \<or> ends_with rest ''.external'')
           then True
         else if filter_command_driver name \<noteq> None then True
         else if (case strip_prefix ''alias.'' name of None \<Rightarrow> False
                  | Some alias \<Rightarrow> alias \<in> set SAFE_GIT_SUBCOMMANDS \<and> starts_with v ''!'') then True
         else False)"

definition local_repo_config_has_exec_risk :: "git_lib \<Rightarrow> string \<Rightarrow> bool" where
  "local_repo_config_has_exec_risk G cwd = (case read_local_git_config_entries G cwd of
     None \<Rightarrow> True
   | Some es \<Rightarrow> list_ex (\<lambda>(name, v). local_git_config_entry_is_exec G name v) es)"

text \<open>The pins that disable the content filters of a repository. The drivers are a sorted set.\<close>

definition filter_driver_name_is_pinnable :: "string \<Rightarrow> bool" where
  "filter_driver_name_is_pinnable driver = (case driver of
     [] \<Rightarrow> False
   | c # cs \<Rightarrow> is_ascii_alphanumeric c
       \<and> list_all (\<lambda>c. is_ascii_alphanumeric c \<or> c = CHR ''_'' \<or> c = CHR ''-'') cs)"

fun collect_drivers :: "(string \<times> string) list \<Rightarrow> string list \<Rightarrow> string list option" where
  "collect_drivers [] acc = Some acc"
| "collect_drivers ((name, v) # es) acc =
     (if trim v = [] then collect_drivers es acc
      else case filter_command_driver name of
        None \<Rightarrow> collect_drivers es acc
      | Some driver \<Rightarrow> if \<not> filter_driver_name_is_pinnable driver then None
                       else collect_drivers es (insort_insert driver acc))"

definition local_content_filter_drivers :: "git_lib \<Rightarrow> string \<Rightarrow> string list option" where
  "local_content_filter_drivers G cwd = (case read_local_git_config_entries G cwd of
     None \<Rightarrow> None | Some es \<Rightarrow> collect_drivers es [])"

definition driver_pins :: "string \<Rightarrow> string list" where
  "driver_pins driver = [''filter.'' @ driver @ ''.clean='', ''filter.'' @ driver @ ''.smudge='',
     ''filter.'' @ driver @ ''.process='', ''filter.'' @ driver @ ''.required=false'']"

definition content_filter_config_pins :: "git_lib \<Rightarrow> string \<Rightarrow> string list option" where
  "content_filter_config_pins G cwd =
     map_option (\<lambda>drivers. concat (map driver_pins drivers)) (local_content_filter_drivers G cwd)"

section \<open>Directories in which git runs\<close>

definition is_static_path_operand :: "string \<Rightarrow> bool" where
  "is_static_path_operand p \<longleftrightarrow> p \<noteq> [] \<and> p \<noteq> ''-'' \<and> \<not> starts_with p ''-''
     \<and> CHR ''$'' \<notin> set p \<and> CHR 0x60 \<notin> set p \<and> \<not> contains_sub p ''$(''"

definition join_cwd :: "string \<Rightarrow> string \<Rightarrow> string" where
  "join_cwd base operand = (if is_absolute operand then operand else path_join base operand)"

text \<open>The loop over the arguments of \<open>cd\<close>: the inner option is the target so far, the outer one is
  \<open>None\<close> on the early return.\<close>

fun chdir_target :: "string option \<Rightarrow> string list \<Rightarrow> string option option" where
  "chdir_target target [] = Some target"
| "chdir_target target (tok # rest) =
     (if tok = ''--'' then Some (case rest of [] \<Rightarrow> None | w # _ \<Rightarrow> Some w)
      else if starts_with tok ''-'' then None
      else if target \<noteq> None then None
      else chdir_target (Some tok) rest)"

definition apply_literal_chdir :: "string \<Rightarrow> string list \<Rightarrow> string option" where
  "apply_literal_chdir cwd ws = (case chdir_target None (drop 1 ws) of
     Some (Some target) \<Rightarrow> if is_static_path_operand target then Some (join_cwd cwd target) else None
   | _ \<Rightarrow> None)"

text \<open>The loop over the global options of \<open>git\<close>, on the words after it.\<close>

fun git_cwd_from :: "string \<Rightarrow> string list \<Rightarrow> string option" where
  "git_cwd_from cwd [] = Some cwd"
| "git_cwd_from cwd (tok # rest) =
     (if tok = ''--'' \<or> \<not> starts_with tok ''-'' \<or> tok = ''-'' then Some cwd
      else if is_git_repo_retarget_flag tok then None
      else if tok = ''-C'' then
        (case rest of
           [] \<Rightarrow> None
         | p # rest' \<Rightarrow> if \<not> is_static_path_operand p then None else git_cwd_from (join_cwd cwd p) rest')
      else case attached_git_c_path tok of
        Some p \<Rightarrow> if \<not> is_static_path_operand p then None else git_cwd_from (join_cwd cwd p) rest
      | None \<Rightarrow> if value_follows tok rest then git_cwd_from cwd (drop 1 rest) else git_cwd_from cwd rest)"

definition git_effective_cwd :: "string list \<Rightarrow> string \<Rightarrow> string option" where
  "git_effective_cwd ws start_cwd = git_cwd_from start_cwd (drop 1 ws)"

datatype ambient_scan_plan = Plan_FailClosed | CheckDirs "string list"

fun scan_segments :: "string \<Rightarrow> string list \<Rightarrow> string list list \<Rightarrow> ambient_scan_plan" where
  "scan_segments cwd git_cwds [] = (if git_cwds = [] then Plan_FailClosed else CheckDirs git_cwds)"
| "scan_segments cwd git_cwds (raw # segs) =
     (case normalize_for_exec_risk raw of
        FailClosed \<Rightarrow> Plan_FailClosed
      | Argv_Ready ws \<Rightarrow>
          (let name = normalized_program_name ws
           in if name = Some ''cd'' \<or> name = Some ''pushd'' then
                (case apply_literal_chdir cwd ws of
                   Some nxt \<Rightarrow> scan_segments nxt git_cwds segs
                 | None \<Rightarrow> Plan_FailClosed)
              else if name = Some ''popd'' then Plan_FailClosed
              else if name = Some ''git'' then
                (case git_effective_cwd ws cwd of
                   Some effective \<Rightarrow> scan_segments cwd (git_cwds @ [effective]) segs
                 | None \<Rightarrow> Plan_FailClosed)
              else scan_segments cwd git_cwds segs))"

definition ambient_scan_plan_from_segments :: "string list list \<Rightarrow> string \<Rightarrow> ambient_scan_plan" where
  "ambient_scan_plan_from_segments raw_segments session_cwd = scan_segments session_cwd [] raw_segments"

definition ambient_exec_risk_from_plan :: "git_lib \<Rightarrow> ambient_scan_plan \<Rightarrow> bool" where
  "ambient_exec_risk_from_plan G plan = (case plan of
     Plan_FailClosed \<Rightarrow> True
   | CheckDirs dirs \<Rightarrow> list_ex (local_repo_config_has_exec_risk G) dirs)"

section \<open>Scripts that do not parse\<close>

text \<open>\<open>cmd.split(...)\<close> at white space and the shell's separators. An encoding has at least one byte.\<close>

definition token_separators :: "string list" where
  "token_separators = ws_encodings @ map (\<lambda>c. [c]) [CHR ''|'', CHR ''&'', CHR '';'', CHR ''('', CHR '')'', CHR 0x60, NL, CHR ''<'', CHR ''>'']"

function split_tokens :: "string \<Rightarrow> string \<Rightarrow> string list" where
  "split_tokens cur [] = [rev cur]"
| "split_tokens cur (c # cs) =
     (case strip_any token_separators (c # cs) of
        Some r \<Rightarrow> if length r < length (c # cs) then rev cur # split_tokens [] r else []
      | None \<Rightarrow> split_tokens (c # cur) cs)"
  by pat_completeness auto
termination
  by (relation "measure (\<lambda>(cur, s). length s)") auto

definition trim_quotes :: "string \<Rightarrow> string" where
  "trim_quotes tok =
     (let q = (\<lambda>c. c \<in> set [CHR 0x27, CHR 0x22, CHR 0x60])
      in rev (dropWhile q (rev (dropWhile q tok))))"

definition script_may_invoke_git :: "string \<Rightarrow> bool" where
  "script_may_invoke_git cmd =
     list_ex (\<lambda>tok. trim_quotes tok \<noteq> [] \<and> normalized_token_basename (trim_quotes tok) = ''git'')
       (split_tokens [] cmd)"

section \<open>The normal form is the innermost command\<close>

lemma unwrap_loop_done:
  "\<not> peel_exhausted (unwrap_loop k p) \<Longrightarrow> strip_wrapper_command (peel_words (unwrap_loop k p)) = None"
proof (induction k arbitrary: p)
  case 0
  then show ?case
    using strip_wrapper_strict by (cases "strip_wrapper_command (peel_words p)") auto
next
  case (Suc k)
  then show ?case by (cases "strip_wrapper_command (peel_words p)") (simp_all add: Let_def)
qed

lemma unwrap_checked_layers: "peel_layer\<^sup>*\<^sup>* ws (peel_words (unwrap_wrappers_checked ws))"
  unfolding unwrap_wrappers_checked_def
  using unwrap_loop_layers [of "checked_wrapper_peel.make ws False False False False"]
  by (simp add: checked_wrapper_peel.make_def)

lemma layers_same_length: "peel_layer\<^sup>*\<^sup>* ws v \<Longrightarrow> length v = length ws \<Longrightarrow> v = ws"
  using peel_layers_suffix suffix_length_le by (fastforce simp: suffix_def)

lemma exec_risk_rounds_innermost:
  "exec_risk_rounds k ws = Argv_Ready v \<Longrightarrow> peel_layer\<^sup>*\<^sup>* ws v \<and> fully_peeled v"
proof (induction k arbitrary: ws)
  case (Suc k)
  let ?u = "unwrap_wrappers_checked ws"
  have u: "peel_layer\<^sup>*\<^sup>* ws (peel_words ?u)" by (rule unwrap_checked_layers)
  obtain t where ex: "\<not> peel_exhausted ?u" and t: "peel_transparent_prefixes (peel_words ?u) = Ready t"
    using Suc.prems by (auto simp: Let_def split: if_splits transparent_prefix_peel.splits)
  have ut: "peel_layer\<^sup>*\<^sup>* (peel_words ?u) t" and np: "strip_transparent_prefix t = NotPrefix"
    using t peel_loop_layers unfolding peel_transparent_prefixes_def by blast+
  have wt: "peel_layer\<^sup>*\<^sup>* ws t" using u ut by (rule rtranclp_trans)
  have nw: "strip_wrapper_command (peel_words ?u) = None"
    using ex unwrap_loop_done unfolding unwrap_wrappers_checked_def by blast
  have same: "t = peel_words ?u" if "length t = length ws \<or> length t = length (peel_words ?u)"
  proof -
    have "length t \<le> length (peel_words ?u)" "length (peel_words ?u) \<le> length ws"
      using peel_layers_suffix ut u suffix_length_le by blast+
    then show ?thesis using that layers_same_length [OF ut] by linarith
  qed
  show ?case
  proof (cases "length t = length ws \<or> length t = length (peel_words ?u)")
    case True
    then have "v = t" using Suc.prems t by (auto simp: Let_def split: if_splits)
    then show ?thesis using wt np nw same [OF True] by (simp add: fully_peeled_def)
  next
    case False
    then have "exec_risk_rounds k t = Argv_Ready v" using Suc.prems t by (auto simp: Let_def split: if_splits)
    then have tv: "peel_layer\<^sup>*\<^sup>* t v" and v: "fully_peeled v" using Suc.IH by simp_all
    from wt tv have "peel_layer\<^sup>*\<^sup>* ws v" by (rule rtranclp_trans)
    then show ?thesis using v ..
  qed
qed simp

lemma exec_ready_innermost:
  "normalize_for_exec_risk ws = Argv_Ready v \<Longrightarrow> peel_layer\<^sup>*\<^sup>* ws v \<and> fully_peeled v"
  unfolding normalize_for_exec_risk_def by (rule exec_risk_rounds_innermost)

section \<open>The grammar of read-only queries\<close>

text \<open>The global options that a query may have, with the directories they change to.\<close>

inductive global_options :: "string list \<Rightarrow> string list \<Rightarrow> bool" where
  none: "global_options [] []"
| pager: "global_options gs ds \<Longrightarrow> w \<in> {''--no-pager'', ''-P''} \<Longrightarrow> global_options (w # gs) ds"
| dir: "global_options gs ds \<Longrightarrow> global_options (''-C'' # d # gs) (d # ds)"
| glued_dir: "global_options gs ds \<Longrightarrow> d \<noteq> [] \<Longrightarrow> global_options ((''-C'' @ d) # gs) (d # ds)"

text \<open>An option, possibly shortened and possibly with a value, that runs a driver or writes a file.\<close>

definition runs_driver :: "string \<Rightarrow> bool" where
  "runs_driver w \<longleftrightarrow> (\<exists>full \<in> set GIT_QUERY_UNSAFE_OPTIONS. \<exists>flag. prefix flag full \<and> 2 < length flag
     \<and> (w = flag \<or> (\<exists>v. w = flag @ ''='' @ v)))"

definition read_only_query :: "string list \<Rightarrow> string list \<Rightarrow> string \<Rightarrow> string list \<Rightarrow> bool" where
  "read_only_query ws gs verb args \<longleftrightarrow> ws = ''git'' # gs @ verb # args \<and> verb \<in> set SAFE_GIT_SUBCOMMANDS
     \<and> (\<forall>w \<in> set (tl ws). \<not> runs_driver w)
     \<and> (verb = ''grep'' \<longrightarrow> (\<forall>w \<in> set (tl ws). \<not> prefix ''-O'' w))"

lemma starts_with_prefix: "starts_with s p \<longleftrightarrow> prefix p s"
  by (auto simp: starts_with_iff prefix_def)

lemma split_on_hd: "hd (split_on c s) = takeWhile (\<lambda>x. x \<noteq> c) s"
  by (induction s) (auto simp: split_on_not_Nil neq_Nil_conv split: list.splits)

lemma unsafe_options_no_equals: "full \<in> set GIT_QUERY_UNSAFE_OPTIONS \<Longrightarrow> CHR ''='' \<notin> set full"
  by (auto simp: GIT_QUERY_UNSAFE_OPTIONS_def)

lemma query_option_unsafe_iff: "git_query_option_is_unsafe w \<longleftrightarrow> runs_driver w"
proof -
  let ?t = "takeWhile (\<lambda>x. x \<noteq> CHR ''='') w"
  have *: "takeWhile (\<lambda>x. x \<noteq> CHR ''='') w = flag \<longleftrightarrow> w = flag \<or> (\<exists>v. w = flag @ ''='' @ v)"
    if "CHR ''='' \<notin> set flag" for flag
  proof
    assume t: "takeWhile (\<lambda>x. x \<noteq> CHR ''='') w = flag"
    show "w = flag \<or> (\<exists>v. w = flag @ ''='' @ v)"
    proof (cases "dropWhile (\<lambda>x. x \<noteq> CHR ''='') w")
      case Nil
      then show ?thesis using t takeWhile_dropWhile_id [of "\<lambda>x. x \<noteq> CHR ''=''" w]
        by (metis append.right_neutral)
    next
      case (Cons c v)
      then have "c = CHR ''=''" using hd_dropWhile [of "\<lambda>x. x \<noteq> CHR ''=''" w] by force
      then have "w = flag @ ''='' @ v" using t Cons takeWhile_dropWhile_id [of "\<lambda>x. x \<noteq> CHR ''=''" w] by simp
      then show ?thesis by blast
    qed
  next
    assume "w = flag \<or> (\<exists>v. w = flag @ ''='' @ v)"
    then show "takeWhile (\<lambda>x. x \<noteq> CHR ''='') w = flag"
      using that by (auto simp: takeWhile_append)
  qed
  have "git_query_option_is_unsafe w \<longleftrightarrow> (\<exists>full \<in> set GIT_QUERY_UNSAFE_OPTIONS.
      prefix (takeWhile (\<lambda>x. x \<noteq> CHR ''='') w) full \<and> 2 < length (takeWhile (\<lambda>x. x \<noteq> CHR ''='') w))"
    by (auto simp: git_query_option_is_unsafe_def Let_def split_on_hd list_ex_iff starts_with_prefix)
  also have "\<dots> \<longleftrightarrow> runs_driver w"
    unfolding runs_driver_def
  proof (intro bex_cong refl)
    fix full assume "full \<in> set GIT_QUERY_UNSAFE_OPTIONS"
    then have ne: "CHR ''='' \<notin> set flag" if "prefix flag full" for flag
      using that unsafe_options_no_equals set_mono_prefix by blast
    show "(prefix ?t full \<and> 2 < length ?t)
        = (\<exists>flag. prefix flag full \<and> 2 < length flag \<and> (w = flag \<or> (\<exists>v. w = flag @ ''='' @ v)))" (is "?l = ?r")
    proof
      assume ?l
      then show ?r using * [of ?t] ne by auto
    next
      assume ?r
      then obtain flag where f: "prefix flag full" "2 < length flag" "w = flag \<or> (\<exists>v. w = flag @ ''='' @ v)" by blast
      then have "?t = flag" using * [of flag] ne by blast
      then show ?l using f by simp
    qed
  qed
  finally show ?thesis .
qed

lemma attached_path_Some: "attached_git_c_path tok = Some d \<longleftrightarrow> tok = ''-C'' @ d \<and> d \<noteq> []"
  by (auto simp: attached_git_c_path_def str_simps split: option.splits)

lemma verb_index_global_options:
  "verb_index_from i ws = Some j \<Longrightarrow> \<exists>gs ds verb args. ws = gs @ verb # args \<and> global_options gs ds
     \<and> j = i + length gs"
proof (induction i ws rule: verb_index_from.induct)
  case (2 i tok rest)
  note IH1 = 2(1) and IH2 = 2(2)
  consider "\<not> starts_with tok ''-''" "j = i"
    | "tok = ''-C''" "verb_index_from (i + 2) (drop 1 rest) = Some j"
    | d where "attached_git_c_path tok = Some d" "verb_index_from (i + 1) rest = Some j" "tok \<noteq> ''-C''"
    | "tok \<in> {''--no-pager'', ''-P''}" "verb_index_from (i + 1) rest = Some j"
    using 2(3) by (auto split: if_splits)
  then show ?case
  proof cases
    case 1
    have "tok # rest = [] @ tok # rest \<and> global_options [] [] \<and> j = i + length ([] :: string list)"
      using 1 global_options.none by simp
    then show ?thesis by blast
  next
    case 2
    obtain gs ds verb args where "drop 1 rest = gs @ verb # args" "global_options gs ds" "j = i + 2 + length gs"
      using IH1 2 by (auto simp: starts_with_def)
    then have "tok # rest = (''-C'' # hd rest # gs) @ verb # args \<and> global_options (''-C'' # hd rest # gs) (hd rest # ds)
        \<and> j = i + length (''-C'' # hd rest # gs)"
      using 2 global_options.dir by (cases rest) simp_all
    then show ?thesis by blast
  next
    case 3
    obtain gs ds verb args where *: "rest = gs @ verb # args" "global_options gs ds" "j = i + 1 + length gs"
      using IH2 3 by (auto simp: starts_with_def attached_path_Some)
    moreover have "global_options (tok # gs) (d # ds)"
      using 3(1) *(2) global_options.glued_dir by (simp add: attached_path_Some)
    ultimately have "tok # rest = (tok # gs) @ verb # args \<and> global_options (tok # gs) (d # ds) \<and> j = i + length (tok # gs)"
      by simp
    then show ?thesis by blast
  next
    case 4
    obtain gs ds verb args where *: "rest = gs @ verb # args" "global_options gs ds" "j = i + 1 + length gs"
      using IH2 4 by (auto simp: starts_with_def)
    moreover have "global_options (tok # gs) ds" using 4(1) *(2) global_options.pager by blast
    ultimately have "tok # rest = (tok # gs) @ verb # args \<and> global_options (tok # gs) ds \<and> j = i + length (tok # gs)"
      by simp
    then show ?thesis by blast
  qed
qed simp

lemma static_not_dash: "is_static_path_operand d \<Longrightarrow> \<not> starts_with d ''-'' \<and> d \<noteq> []"
  by (simp add: is_static_path_operand_def)

lemmas flag_defs = is_attached_git_config_c_def is_git_config_env_flag_def is_git_repo_retarget_flag_def
  is_accepted_long_option_prefix_def before_equals_def starts_with_def attached_git_c_path_def
  git_global_option_takes_value_def value_follows_def

lemma glued_dir_flags:
  "d \<noteq> [] \<Longrightarrow> \<not> is_attached_git_config_c (''-C'' @ d)"
  "\<not> is_git_config_env_flag (''-C'' @ d)" "\<not> is_git_repo_retarget_flag (''-C'' @ d)"
  "d \<noteq> [] \<Longrightarrow> attached_git_c_path (''-C'' @ d) = Some d" "starts_with (''-C'' @ d) ''-''"
  by (auto simp: flag_defs split_once_Some append_eq_Cons_conv Cons_eq_append_conv split: option.splits)

lemma dir_flags:
  "\<not> is_attached_git_config_c ''-C''" "\<not> is_git_config_env_flag ''-C''" "\<not> is_git_repo_retarget_flag ''-C''"
  "attached_git_c_path ''-C'' = None" "starts_with ''-C'' ''-''"
  "value_follows ''-C'' rest = (case rest of [] \<Rightarrow> False | n # _ \<Rightarrow> \<not> starts_with n ''-'' \<or> n = ''-'')"
  by (simp_all add: flag_defs split_once_def)

lemma pager_flags:
  assumes "w \<in> {''--no-pager'', ''-P''}"
  shows "\<not> is_attached_git_config_c w" "\<not> is_git_config_env_flag w" "\<not> is_git_repo_retarget_flag w"
    "attached_git_c_path w = None" "starts_with w ''-''" "\<not> value_follows w rest"
  using assms by (auto simp: flag_defs split_once_def)

lemma global_options_scans:
  assumes "global_options gs ds" and "list_all is_static_path_operand ds" and "\<not> starts_with verb ''-''"
  shows "verb_index_from i (gs @ verb # args) = Some (i + length gs)
    \<and> \<not> git_global_risk (gs @ verb # args)
    \<and> git_cwd_from cwd (gs @ verb # args) = Some (foldl join_cwd cwd ds)"
  using assms
proof (induction arbitrary: i cwd rule: global_options.induct)
  case none
  have "verb \<noteq> ''--''" "verb \<noteq> ''-''" using none by (auto simp: starts_with_def)
  then show ?case using none by simp
next
  case (pager gs ds w)
  have "w \<noteq> ''--''" "w \<noteq> ''-''" "w \<noteq> ''-c''" "w \<noteq> ''-C''" using pager.hyps by auto
  then show ?case using pager pager_flags [OF pager.hyps(2)] by simp
next
  case (dir gs ds d)
  then have "\<not> starts_with d ''-''" "list_all is_static_path_operand ds" "is_static_path_operand d"
    using static_not_dash by simp_all
  then show ?case using dir by (simp add: dir_flags)
next
  case (glued_dir gs ds d)
  have "''-C'' @ d \<noteq> ''--''" "''-C'' @ d \<noteq> ''-''" "''-C'' @ d \<noteq> ''-c''" "''-C'' @ d \<noteq> ''-C''"
    using glued_dir.hyps by auto
  then show ?case using glued_dir glued_dir_flags [of d] by simp
qed

lemma safe_verb_plain: "verb \<in> set SAFE_GIT_SUBCOMMANDS \<Longrightarrow> \<not> starts_with verb ''-''"
  by (auto simp: SAFE_GIT_SUBCOMMANDS_def starts_with_def)

lemma unsafe_query_option_iff:
  assumes "git_safe_query_verb_index (''git'' # gs @ verb # args) = Some (Suc (length gs))"
  shows "git_words_have_unsafe_query_option (''git'' # gs @ verb # args)
    \<longleftrightarrow> (\<exists>w \<in> set (gs @ verb # args). runs_driver w)
       \<or> verb = ''grep'' \<and> (\<exists>w \<in> set (gs @ verb # args). prefix ''-O'' w)"
  using assms
  by (simp add: git_words_have_unsafe_query_option_def query_option_unsafe_iff starts_with_prefix
      list_ex_iff nth_append)

lemma read_only_query_sound:
  assumes "git_words_are_read_only_query ws"
  shows "\<exists>gs ds verb args. global_options gs ds \<and> read_only_query ws gs verb args"
proof -
  obtain rest i where ws: "ws = ''git'' # rest" and i: "verb_index_from 1 rest = Some i"
    and safe: "ws ! i \<in> set SAFE_GIT_SUBCOMMANDS" and ok: "\<not> git_words_have_unsafe_query_option ws"
    using assms by (cases ws)
      (auto simp: git_words_are_read_only_query_def git_safe_query_verb_index_def split: if_splits option.splits)
  from verb_index_global_options [OF i] obtain gs ds verb args
    where g: "rest = gs @ verb # args" "global_options gs ds" "i = Suc (length gs)" by auto
  then have "ws ! i = verb" by (simp add: ws nth_append)
  moreover have "git_safe_query_verb_index (''git'' # gs @ verb # args) = Some (Suc (length gs))"
    using i g by (simp add: git_safe_query_verb_index_def)
  note unsafe_query_option_iff [OF this]
  ultimately have "read_only_query ws gs verb args"
    using ws g(1) safe ok by (auto simp: read_only_query_def)
  then show ?thesis using g(2) by blast
qed

lemma read_only_query_complete:
  assumes "global_options gs ds" and "list_all is_static_path_operand ds" and "read_only_query ws gs verb args"
  shows "git_words_are_read_only_query ws \<and> git_effective_cwd ws cwd = Some (foldl join_cwd cwd ds)"
proof -
  have v: "verb \<in> set SAFE_GIT_SUBCOMMANDS" and ws: "ws = ''git'' # gs @ verb # args"
    using assms(3) by (simp_all add: read_only_query_def)
  note scan = global_options_scans [OF assms(1,2) safe_verb_plain [OF v]]
  have i: "git_safe_query_verb_index (''git'' # gs @ verb # args) = Some (Suc (length gs))"
    using scan [of 1 args cwd] by (simp add: git_safe_query_verb_index_def)
  have "\<not> git_words_have_unsafe_query_option ws"
    using unsafe_query_option_iff [OF i] assms(3) by (auto simp: read_only_query_def)
  then show ?thesis using scan [of 1 args cwd] v i
    by (simp add: git_words_are_read_only_query_def ws git_has_exec_risk_global_def git_effective_cwd_def nth_append)
qed

text \<open>The test that lets a \<open>git\<close> command run without a question accepts only the words of a small
  grammar: \<open>git\<close>, then options that change the directory or the pager, a verb of the table of
  queries, and arguments none of which is an option, or the beginning of one, that runs a driver or
  writes a file, nor \<open>-O\<close> of \<open>git grep\<close>. Conversely every such command whose directories are literal
  paths is accepted, and the directory that is scanned for it is the one the options lead to.\<close>

theorem read_only_query_grammar:
  "(git_words_are_read_only_query ws \<longrightarrow> (\<exists>gs ds verb args. global_options gs ds \<and> read_only_query ws gs verb args))
   \<and> (global_options gs ds \<and> list_all is_static_path_operand ds \<and> read_only_query ws gs verb args
       \<longrightarrow> git_words_are_read_only_query ws \<and> git_effective_cwd ws cwd = Some (foldl join_cwd cwd ds))"
  using read_only_query_sound read_only_query_complete by blast

theorem read_only_query_grammar_witness:
  "let ws = [''git'', ''-C'', ''sub'', ''--no-pager'', ''-Cdir'', ''log'', ''-p'']
   in git_words_are_read_only_query ws \<and> git_effective_cwd ws ''/repo'' = Some ''/repo/sub/dir''
      \<and> \<not> git_words_are_read_only_query [''git'', ''log'', ''--textc''] "
proof -
  let ?gs = "[''-C'', ''sub'', ''--no-pager'', ''-C'' @ ''dir'']"
  let ?ws = "''git'' # ?gs @ ''log'' # [''-p'']"
  have g: "global_options ?gs [''sub'', ''dir'']"
    by (intro global_options.dir global_options.pager global_options.glued_dir global_options.none) simp_all
  have "list_all (\<lambda>w. \<not> git_query_option_is_unsafe w) (tl ?ws)" by code_simp
  then have r: "read_only_query ?ws ?gs ''log'' [''-p'']"
    by (simp add: read_only_query_def query_option_unsafe_iff SAFE_GIT_SUBCOMMANDS_def)
  have s: "list_all is_static_path_operand [''sub'', ''dir'']" by code_simp
  have "foldl join_cwd ''/repo'' [''sub'', ''dir''] = ''/repo/sub/dir''" by code_simp
  moreover have "\<not> git_words_are_read_only_query [''git'', ''log'', ''--textc'']" by code_simp
  ultimately show ?thesis
    using read_only_query_grammar [of ?ws ?gs "[''sub'', ''dir'']" "''log''" "[''-p'']" "''/repo''"] g r s
    by (simp add: Let_def)
qed

section \<open>Every directory in which git runs is scanned\<close>

text \<open>The working directory of a run of the commands one after the other.\<close>

definition cwd_step :: "string \<Rightarrow> string list \<Rightarrow> string option" where
  "cwd_step cwd raw = (case normalize_for_exec_risk raw of
     FailClosed \<Rightarrow> None
   | Argv_Ready ws \<Rightarrow>
       if normalized_program_name ws \<in> {Some ''cd'', Some ''pushd''} then apply_literal_chdir cwd ws
       else if normalized_program_name ws = Some ''popd'' then None
       else Some cwd)"

primrec cwd_after :: "string \<Rightarrow> string list list \<Rightarrow> string option" where
  "cwd_after cwd [] = Some cwd"
| "cwd_after cwd (raw # segs) = Option.bind (cwd_step cwd raw) (\<lambda>c. cwd_after c segs)"

lemma scan_segments_Cons:
  assumes "scan_segments cwd acc (raw # segs) = CheckDirs dirs"
  obtains ws c acc' where "normalize_for_exec_risk raw = Argv_Ready ws" and "cwd_step cwd raw = Some c"
    and "scan_segments c acc' segs = CheckDirs dirs" and "set acc \<subseteq> set acc'"
    and "is_git_program ws \<Longrightarrow> \<exists>d \<in> set acc'. git_effective_cwd ws cwd = Some d"
proof (cases "normalize_for_exec_risk raw")
  case (Argv_Ready ws)
  let ?n = "normalized_program_name ws"
  note r = assms [simplified Argv_Ready scan_segments.simps normalized_argv.case Let_def]
  consider (cd) "?n = Some ''cd'' \<or> ?n = Some ''pushd''" | (git) "?n = Some ''git''"
    | (other) "?n \<notin> {Some ''cd'', Some ''pushd'', Some ''popd'', Some ''git''}"
    using r by (auto split: if_splits)
  then show ?thesis
  proof cases
    case cd
    then obtain c where "apply_literal_chdir cwd ws = Some c" "scan_segments c acc segs = CheckDirs dirs"
      using r by (auto split: option.splits)
    then show ?thesis using that [of ws c acc] Argv_Ready cd by (auto simp: cwd_step_def is_git_program_def)
  next
    case git
    then obtain d where "git_effective_cwd ws cwd = Some d" "scan_segments cwd (acc @ [d]) segs = CheckDirs dirs"
      using r by (auto split: option.splits)
    then show ?thesis using that [of ws cwd "acc @ [d]"] Argv_Ready git by (auto simp: cwd_step_def is_git_program_def)
  next
    case other
    then have "scan_segments cwd acc segs = CheckDirs dirs" using r by simp
    then show ?thesis using that [of ws cwd acc] Argv_Ready other by (auto simp: cwd_step_def is_git_program_def)
  qed
qed (use assms in simp)

lemma scan_segments_acc: "scan_segments cwd acc segs = CheckDirs dirs \<Longrightarrow> set acc \<subseteq> set dirs"
proof (induction segs arbitrary: cwd acc)
  case (Cons raw segs)
  from Cons.prems show ?case by (rule scan_segments_Cons) (use Cons.IH in blast)
qed (simp split: if_splits)

lemma scan_segments_covers:
  assumes "scan_segments cwd acc segs = CheckDirs dirs" and "i < length segs"
  shows "\<exists>c ws. cwd_after cwd (take i segs) = Some c \<and> normalize_for_exec_risk (segs ! i) = Argv_Ready ws
    \<and> (is_git_program ws \<longrightarrow> (\<exists>d \<in> set dirs. git_effective_cwd ws c = Some d))"
  using assms
proof (induction segs arbitrary: cwd acc i)
  case (Cons raw segs)
  from Cons.prems(1) show ?case
  proof (rule scan_segments_Cons)
    fix ws c acc'
    assume h: "normalize_for_exec_risk raw = Argv_Ready ws" "cwd_step cwd raw = Some c"
      "scan_segments c acc' segs = CheckDirs dirs"
      "is_git_program ws \<Longrightarrow> \<exists>d \<in> set acc'. git_effective_cwd ws cwd = Some d"
    show ?case
    proof (cases i)
      case 0
      then show ?thesis using h scan_segments_acc [OF h(3)] by auto
    next
      case (Suc j)
      then show ?thesis using Cons.IH [OF h(3), of j] Cons.prems(2) h(2) by simp
    qed
  qed
qed simp

text \<open>An entry of the configuration that can start a program.\<close>

definition entry_of :: "config_entry \<Rightarrow> string \<Rightarrow> string \<Rightarrow> bool" where
  "entry_of e name v \<longleftrightarrow> entry_level e \<noteq> Level_Other \<and> entry_name e = Some name
     \<and> (if entry_has_value e then entry_value e = Some v else v = ''true'')"

lemma read_entries_complete:
  "read_entries es out = Some res \<Longrightarrow> set out \<subseteq> set res \<and> None \<notin> set es
     \<and> (\<forall>e name v. Some e \<in> set es \<and> entry_of e name v \<longrightarrow> (name, v) \<in> set res)"
proof (induction es out rule: read_entries.induct)
  case (3 e es out)
  show ?case
  proof (cases "entry_level e = Level_Other")
    case True
    moreover from this have "\<not> entry_of e name v" for name v by (simp add: entry_of_def)
    ultimately show ?thesis using 3 by auto
  next
    case False
    then obtain name where n: "entry_name e = Some name" "\<not> local_includeif_unsupported name"
      using 3(5) by (auto split: option.splits if_splits)
    show ?thesis
    proof (cases "entry_has_value e")
      case True
      show ?thesis
      proof (cases "entry_value e")
        case None
        then have "read_entries es out = Some res" using 3(5) n True False by (auto split: if_splits)
        moreover have "filter_command_driver name = None" using None 3(5) n True False by (auto split: if_splits)
        moreover have "\<not> entry_of e nm v" for nm v using True None by (simp add: entry_of_def)
        ultimately show ?thesis using 3(2) [OF False n(1,2) True None] by auto
      next
        case (Some v)
        then have "read_entries es (out @ [(name, v)]) = Some res" using 3(5) n True False by simp
        moreover have "entry_of e nm u \<Longrightarrow> nm = name \<and> u = v" for nm u
          using True Some n by (simp add: entry_of_def)
        ultimately show ?thesis using 3(3) [OF False n(1,2) True Some] by auto
      qed
    next
      case nov: False
      then have "filter_command_driver name = None" and r: "read_entries es (out @ [(name, ''true'')]) = Some res"
        using 3(5) n False by (auto split: if_splits)
      moreover have "entry_of e nm u \<Longrightarrow> nm = name \<and> u = ''true''" for nm u
        using nov n by (simp add: entry_of_def)
      ultimately show ?thesis using 3(4) [OF False n(1,2) nov] by auto
    qed
  qed
qed simp_all

text \<open>What it means that the configuration of a directory is harmless: there is no repository, or its
  files are readable, all its entries were read, and none that is local starts a program.\<close>

definition config_harmless :: "git_lib \<Rightarrow> string \<Rightarrow> bool" where
  "config_harmless G d \<longleftrightarrow> lib_discover G d = Repo_NotFound \<or>
     (\<exists>repo es. lib_discover G d = Repo_Found repo \<and> repo_entries repo = Some es \<and> None \<notin> set es
        \<and> \<not> path_unreadable G (path_join (repo_commondir repo) ''config'')
        \<and> (\<forall>e name v. Some e \<in> set es \<and> entry_of e name v \<longrightarrow> \<not> local_git_config_entry_is_exec G name v))"

lemma no_config_risk_harmless: "\<not> local_repo_config_has_exec_risk G d \<Longrightarrow> config_harmless G d"
proof (cases "lib_discover G d")
  case (Repo_Found repo)
  assume "\<not> local_repo_config_has_exec_risk G d"
  then obtain es out where "repo_entries repo = Some es" "read_entries es [] = Some out"
    "\<not> path_unreadable G (path_join (repo_commondir repo) ''config'')"
    "\<forall>e \<in> set out. \<not> local_git_config_entry_is_exec G (fst e) (snd e)"
    by (auto simp: case_prod_beta local_repo_config_has_exec_risk_def read_local_git_config_entries_def Repo_Found list_ex_iff
        split: option.splits if_splits)
  then show ?thesis using Repo_Found read_entries_complete [of es "[]" out] by (fastforce simp: config_harmless_def)
qed (auto simp: config_harmless_def local_repo_config_has_exec_risk_def read_local_git_config_entries_def)

text \<open>When the scan of a script that runs \<open>git\<close> answers that nothing ambient can start a program,
  then every command of the script was reduced to its innermost command, the working directory of
  each is known, and for every \<open>git\<close> among them the configuration of the directory in which it runs,
  when the commands run one after the other and changes of directory succeed, was read completely
  and has no local entry that starts a program.\<close>

theorem ambient_scan_covers_git:
  assumes "\<not> ambient_exec_risk_from_plan G (ambient_scan_plan_from_segments segs cwd)" and "i < length segs"
  shows "\<exists>c ws. cwd_after cwd (take i segs) = Some c \<and> normalize_for_exec_risk (segs ! i) = Argv_Ready ws
    \<and> peel_layer\<^sup>*\<^sup>* (segs ! i) ws \<and> fully_peeled ws
    \<and> (is_git_program ws \<longrightarrow> (\<exists>d. git_effective_cwd ws c = Some d \<and> config_harmless G d))"
proof -
  obtain dirs where "scan_segments cwd [] segs = CheckDirs dirs"
    and d: "\<forall>d \<in> set dirs. \<not> local_repo_config_has_exec_risk G d"
    using assms(1) by (auto simp: ambient_scan_plan_from_segments_def ambient_exec_risk_from_plan_def list_ex_iff
        split: ambient_scan_plan.splits)
  from scan_segments_covers [OF this(1) assms(2)] obtain c ws
    where "cwd_after cwd (take i segs) = Some c" and n: "normalize_for_exec_risk (segs ! i) = Argv_Ready ws"
      and "is_git_program ws \<longrightarrow> (\<exists>d \<in> set dirs. git_effective_cwd ws c = Some d)" by blast
  then show ?thesis using exec_ready_innermost [OF n] d no_config_risk_harmless by blast
qed

definition demo_git :: git_lib where
  "demo_git = \<lparr>
     lib_discover = (\<lambda>d. if starts_with d ''/repo'' then Repo_Found
        \<lparr>repo_path = ''/repo/.git/'', repo_commondir = ''/repo/.git/'', repo_entries = Some
           [Some \<lparr>entry_level = Level_Other, entry_name = Some ''diff.external'', entry_has_value = True, entry_value = Some ''x''\<rparr>,
            Some \<lparr>entry_level = Level_Local, entry_name = Some ''core.bare'', entry_has_value = True, entry_value = Some ''false''\<rparr>]\<rparr>
      else if starts_with d ''/evil'' then Repo_Found
        \<lparr>repo_path = ''/evil/.git/'', repo_commondir = ''/evil/.git/'', repo_entries = Some
           [Some \<lparr>entry_level = Level_Local, entry_name = Some ''alias.log'', entry_has_value = True, entry_value = Some ''!sh''\<rparr>]\<rparr>
      else Repo_NotFound),
     lib_open = (\<lambda>p. if ends_with p ''config'' then Opened (Some True) else Open_NotFound),
     lib_parse_bool_ok = (\<lambda>v. v \<in> set [''true'', ''false''])\<rparr>"

theorem ambient_scan_covers_git_witness:
  "\<exists>c ws. cwd_after ''/'' [[''cd'', ''repo'']] = Some c
     \<and> peel_layer\<^sup>*\<^sup>* [''command'', ''git'', ''-C'', ''sub'', ''log''] ws \<and> fully_peeled ws
     \<and> git_effective_cwd [''git'', ''-C'', ''sub'', ''log''] c = Some ''/repo/sub'' \<and> config_harmless demo_git ''/repo/sub''"
proof -
  let ?segs = "[[''cd'', ''repo''], [''command'', ''git'', ''-C'', ''sub'', ''log'']]"
  have 1: "\<not> ambient_exec_risk_from_plan demo_git (ambient_scan_plan_from_segments ?segs ''/'')" by code_simp
  have 2: "normalize_for_exec_risk (?segs ! 1) = Argv_Ready [''git'', ''-C'', ''sub'', ''log'']" by code_simp
  have 3: "cwd_after ''/'' (take 1 ?segs) = Some ''/repo''" by code_simp
  have 4: "git_effective_cwd [''git'', ''-C'', ''sub'', ''log''] ''/repo'' = Some ''/repo/sub''" by code_simp
  have 5: "is_git_program [''git'', ''-C'', ''sub'', ''log'']" by code_simp
  show ?thesis using ambient_scan_covers_git [OF 1, of 1] 2 3 4 5 by auto
qed

text \<open>The assumption on the changes of directory matters: the scan sees the words of the commands and
  not the operators between them. In \<open>cd /repo | git log\<close>, run in \<open>/evil\<close>, the change of directory
  happens in a subshell and \<open>git\<close> reads the configuration of \<open>/evil\<close>, which is never scanned.\<close>

lemma ambient_scan_ignores_operators:
  "ambient_scan_plan_from_segments [[''cd'', ''/repo''], [''git'', ''log'']] ''/evil'' = CheckDirs [''/repo'']"
  "\<not> ambient_exec_risk_from_plan demo_git (CheckDirs [''/repo''])"
  "local_repo_config_has_exec_risk demo_git ''/evil''"
  by code_simp+

text \<open>Nor are options of \<open>env\<close> of unknown arity refused: the words after them stay unread.\<close>

lemma uncertain_env_is_ready:
  "segment_exec_facts_of [''env'', ''--ignore-signal'', ''git'', ''-c'', ''core.pager=sh'', ''log'']
     = \<lparr>exec_risk = False, has_git = False\<rparr>"
  "segment_exec_facts_of [''env'', ''git'', ''-c'', ''core.pager=sh'', ''log'']
     = \<lparr>exec_risk = True, has_git = True\<rparr>"
  by code_simp+

end
