(* ===== verification/Grant_State.thy ===== *)
theory Grant_State
  imports Permission_Rules "HOL-Library.Char_ord" "HOL-Library.List_Lexorder"
begin

text \<open>
  The remembered answers of the user (\<open>permission/state.rs\<close> of the workspace crate) and the findings of
  the shell analysis (\<open>permission/auto_mode/security_findings.rs\<close>).

  A hash set of the source is the list of its elements in the order of its iteration; inserting
  keeps the elements distinct. Reading and writing of the store is over an explicit disk, a map from
  paths to what a read gives; the decoding of a file is done when it is read, so a file holds the
  state it decodes to.

  The theory shows that merging is a join, and what the store holds after any interleaving of sessions
  that share it: writing keeps what other sessions wrote, and a reset removes everything but what another
  open session writes again.
\<close>

section \<open>The state\<close>

record permission_state =
  edit_policy_of :: edit_policy
  allow_bash_execute :: bool
  allowed_bash_commands :: "string list"
  disallowed_bash_commands :: "string list"
  allowed_bash_globs :: "string list"
  allowed_web_fetch_domains :: "string list"
  allowed_mcp_tools :: "string list"
  allowed_mcp_servers :: "string list"
  disallowed_mcp_tools :: "string list"
  disallowed_web_fetch_domains :: "string list"
  validated_mcp_server_grants_version :: int

definition VALIDATED_MCP_SERVER_GRANTS_VERSION :: int where "VALIDATED_MCP_SERVER_GRANTS_VERSION = 1"

text \<open>\<open>deserialize_mcp_server_grants_version\<close>: the argument is \<open>as_integer()\<close> of the value.\<close>

definition mcp_server_grants_version :: "int option \<Rightarrow> int" where
  "mcp_server_grants_version v = (case v of Some version \<Rightarrow> if version \<ge> 0 then version else 0 | None \<Rightarrow> 0)"

definition permission_state_default :: permission_state where
  "permission_state_default =
     \<lparr>edit_policy_of = Edit_Ask, allow_bash_execute = False, allowed_bash_commands = [],
      disallowed_bash_commands = [], allowed_bash_globs = [], allowed_web_fetch_domains = [],
      allowed_mcp_tools = [], allowed_mcp_servers = [], disallowed_mcp_tools = [],
      disallowed_web_fetch_domains = [],
      validated_mcp_server_grants_version = VALIDATED_MCP_SERVER_GRANTS_VERSION\<rparr>"

definition extend :: "string list \<Rightarrow> string list \<Rightarrow> string list" where
  "extend xs ys = fold List.insert ys xs"

definition merge_grants_from :: "permission_state \<Rightarrow> permission_state \<Rightarrow> permission_state" where
  "merge_grants_from s other = s
     \<lparr>allow_bash_execute := allow_bash_execute s \<or> allow_bash_execute other,
      allowed_bash_commands := extend (allowed_bash_commands s) (allowed_bash_commands other),
      disallowed_bash_commands := extend (disallowed_bash_commands s) (disallowed_bash_commands other),
      allowed_bash_globs := extend (allowed_bash_globs s) (allowed_bash_globs other),
      allowed_web_fetch_domains := extend (allowed_web_fetch_domains s) (allowed_web_fetch_domains other),
      allowed_mcp_tools := extend (allowed_mcp_tools s) (allowed_mcp_tools other),
      allowed_mcp_servers := extend (allowed_mcp_servers s) (allowed_mcp_servers other),
      disallowed_mcp_tools := extend (disallowed_mcp_tools s) (disallowed_mcp_tools other),
      disallowed_web_fetch_domains := extend (disallowed_web_fetch_domains s) (disallowed_web_fetch_domains other)\<rparr>"

section \<open>The store\<close>

definition sanitize_client_id :: "string \<Rightarrow> string" where
  "sanitize_client_id s = map (\<lambda>c. if is_ascii_alphanumeric c \<or> c = CHR ''-'' \<or> c = CHR ''_'' then c else CHR ''_'') s"

definition state_file_path :: "string \<Rightarrow> string option \<Rightarrow> string" where
  "state_file_path dir client = (case client of
     Some cid \<Rightarrow> path_join dir (''permission_'' @ sanitize_client_id cid @ ''.toml'')
   | None \<Rightarrow> path_join dir ''permission.toml'')"

text \<open>What reading a path gives: a file, with the state it decodes to (\<open>toml::from_str\<close>, the default when
  it does not decode), no file, or an error.\<close>

datatype disk_entry = File permission_state | No_File | Read_Error

type_synonym disk = "string \<Rightarrow> disk_entry"

text \<open>A load may write back, when it drops server grants of an older version; a failed write is logged
  and changes nothing, so the result of the write is an argument \<open>w\<close>.\<close>

type_synonym writer = "string \<Rightarrow> permission_state \<Rightarrow> disk \<Rightarrow> disk"

definition drop_legacy_servers :: "permission_state \<Rightarrow> permission_state" where
  "drop_legacy_servers s = s\<lparr>allowed_mcp_servers := [],
     validated_mcp_server_grants_version := VALIDATED_MCP_SERVER_GRANTS_VERSION\<rparr>"

definition try_load_state :: "writer \<Rightarrow> string \<Rightarrow> disk \<Rightarrow> permission_state option \<times> disk" where
  "try_load_state w path D = (case D path of
     File s \<Rightarrow>
       if validated_mcp_server_grants_version s < VALIDATED_MCP_SERVER_GRANTS_VERSION
       then (Some (drop_legacy_servers s), w path (drop_legacy_servers s) D)
       else (Some s, D)
   | _ \<Rightarrow> (None, D))"

definition load_state_from_dir :: "writer \<Rightarrow> string \<Rightarrow> string option \<Rightarrow> disk \<Rightarrow> permission_state \<times> disk" where
  "load_state_from_dir w dir client D =
     (let fallback = (\<lambda>D. case try_load_state w (state_file_path dir None) D of
            (s, D') \<Rightarrow> (case s of Some s \<Rightarrow> s | None \<Rightarrow> permission_state_default, D'))
      in case client of
           None \<Rightarrow> fallback D
         | Some cid \<Rightarrow> (case try_load_state w (state_file_path dir (Some cid)) D of
             (Some s, D') \<Rightarrow> (s, D')
           | (None, D') \<Rightarrow> fallback D'))"

text \<open>\<open>tokio::fs::try_exists\<close> fails closed: only a path that is known to be absent counts as absent.\<close>

definition state_dir_has_store :: "string \<Rightarrow> string option \<Rightarrow> disk \<Rightarrow> bool" where
  "state_dir_has_store dir client D \<longleftrightarrow>
     (case client of None \<Rightarrow> False | Some cid \<Rightarrow> D (state_file_path dir (Some cid)) \<noteq> No_File)
     \<or> D (state_file_path dir None) \<noteq> No_File"

definition load_state_with_fallback ::
  "writer \<Rightarrow> string \<Rightarrow> string option \<Rightarrow> string option \<Rightarrow> disk \<Rightarrow> permission_state \<times> disk" where
  "load_state_with_fallback w dir legacy_dir client D =
     (case legacy_dir of
        Some legacy \<Rightarrow> if \<not> state_dir_has_store dir client D then load_state_from_dir w legacy client D
                       else load_state_from_dir w dir client D
      | None \<Rightarrow> load_state_from_dir w dir client D)"

definition persist_state_to_dir :: "writer \<Rightarrow> string \<Rightarrow> permission_state \<Rightarrow> string option \<Rightarrow> disk \<Rightarrow> disk" where
  "persist_state_to_dir w dir s client D = w (state_file_path dir client) s D"

definition persist_state_merging_to_dir :: "writer \<Rightarrow> string \<Rightarrow> permission_state \<Rightarrow> string option \<Rightarrow> disk \<Rightarrow> disk" where
  "persist_state_merging_to_dir w dir s client D =
     (case try_load_state w (state_file_path dir client) D of
        (Some on_disk, D') \<Rightarrow> persist_state_to_dir w dir (merge_grants_from s on_disk) client D'
      | (None, D') \<Rightarrow> persist_state_to_dir w dir s client D')"

definition persist_state :: "writer \<Rightarrow> string \<Rightarrow> permission_state \<Rightarrow> string option \<Rightarrow> disk \<Rightarrow> disk" where
  "persist_state w dir s client D = persist_state_merging_to_dir w dir s client D"

definition replace_state_on_disk :: "writer \<Rightarrow> string \<Rightarrow> permission_state \<Rightarrow> string option \<Rightarrow> disk \<Rightarrow> disk" where
  "replace_state_on_disk w dir s client D = persist_state_to_dir w dir s client D"

section \<open>Findings\<close>

datatype security_finding =
    FailClosedPolicy | UnparseableShell | OpaqueShell | ExecOrAmbientGit | EnvInjection | UnvettedEnv
  | FileWrite | DangerousCommand | SpecialExecSurface

definition ALL_FINDINGS :: "security_finding list" where
  "ALL_FINDINGS = [FailClosedPolicy, UnparseableShell, OpaqueShell, ExecOrAmbientGit, EnvInjection, UnvettedEnv,
     FileWrite, DangerousCommand, SpecialExecSurface]"

fun finding_token :: "security_finding \<Rightarrow> string" where
  "finding_token FailClosedPolicy = ''fail_closed_policy''"
| "finding_token UnparseableShell = ''unparseable_shell''"
| "finding_token OpaqueShell = ''opaque_shell''"
| "finding_token ExecOrAmbientGit = ''exec_or_ambient_git''"
| "finding_token EnvInjection = ''env_injection''"
| "finding_token UnvettedEnv = ''unvetted_env''"
| "finding_token FileWrite = ''file_write''"
| "finding_token DangerousCommand = ''dangerous_command''"
| "finding_token SpecialExecSurface = ''special_exec_surface''"

definition is_grant_floor :: "security_finding \<Rightarrow> bool" where
  "is_grant_floor f \<longleftrightarrow> f \<in> set [FileWrite, UnvettedEnv, EnvInjection, OpaqueShell, ExecOrAmbientGit, SpecialExecSurface]"

type_synonym assessment = "security_finding set"

definition constrains_broad_grant :: "assessment \<Rightarrow> bool" where
  "constrains_broad_grant A \<longleftrightarrow> (\<exists>f \<in> A. is_grant_floor f)"

definition is_file_write_only :: "assessment \<Rightarrow> bool" where
  "is_file_write_only A \<longleftrightarrow> card A = 1 \<and> FileWrite \<in> A"

text \<open>The ordered set is rendered in the order of the variants.\<close>

definition finding_tokens :: "assessment \<Rightarrow> string list" where
  "finding_tokens A = map finding_token (filter (\<lambda>f. f \<in> A) ALL_FINDINGS)"

section \<open>Merging loses nothing\<close>

text \<open>The remembered answers of a state, as a set of facts.\<close>

datatype answer =
    May_Run_All | May_Run string | Never_Run string | May_Glob string | May_Fetch string
  | May_Call string | May_Call_Server string | Never_Call string | Never_Fetch string

definition answers :: "permission_state \<Rightarrow> answer set" where
  "answers s = (if allow_bash_execute s then {May_Run_All} else {})
     \<union> May_Run ` set (allowed_bash_commands s) \<union> Never_Run ` set (disallowed_bash_commands s)
     \<union> May_Glob ` set (allowed_bash_globs s) \<union> May_Fetch ` set (allowed_web_fetch_domains s)
     \<union> May_Call ` set (allowed_mcp_tools s) \<union> May_Call_Server ` set (allowed_mcp_servers s)
     \<union> Never_Call ` set (disallowed_mcp_tools s) \<union> Never_Fetch ` set (disallowed_web_fetch_domains s)"

lemma set_extend [simp]: "set (extend xs ys) = set xs \<union> set ys"
  by (induction ys arbitrary: xs) (auto simp: extend_def)

lemma distinct_extend: "distinct xs \<Longrightarrow> distinct (extend xs ys)"
  by (induction ys arbitrary: xs) (auto simp: extend_def)

lemma answers_merge [simp]: "answers (merge_grants_from s t) = answers s \<union> answers t"
  by (auto simp: answers_def merge_grants_from_def)

lemma merge_keeps_scalars [simp]:
  "edit_policy_of (merge_grants_from s t) = edit_policy_of s"
  "validated_mcp_server_grants_version (merge_grants_from s t) = validated_mcp_server_grants_version s"
  by (simp_all add: merge_grants_from_def)

lemma answers_default [simp]: "answers permission_state_default = {}"
  by (simp add: answers_def permission_state_default_def)

section \<open>Sessions that share a store\<close>

text \<open>A writer that succeeds: the file holds the state, nothing else changes.\<close>

definition write_file :: writer where
  "write_file path s D = D(path := File s)"

text \<open>Adding an answer of the user to a state: \<open>insert\<close> into the set of its kind.\<close>

fun remember_answer :: "answer \<Rightarrow> permission_state \<Rightarrow> permission_state" where
  "remember_answer May_Run_All s = s\<lparr>allow_bash_execute := True\<rparr>"
| "remember_answer (May_Run c) s = s\<lparr>allowed_bash_commands := List.insert c (allowed_bash_commands s)\<rparr>"
| "remember_answer (Never_Run c) s = s\<lparr>disallowed_bash_commands := List.insert c (disallowed_bash_commands s)\<rparr>"
| "remember_answer (May_Glob g) s = s\<lparr>allowed_bash_globs := List.insert g (allowed_bash_globs s)\<rparr>"
| "remember_answer (May_Fetch d) s = s\<lparr>allowed_web_fetch_domains := List.insert d (allowed_web_fetch_domains s)\<rparr>"
| "remember_answer (May_Call t) s = s\<lparr>allowed_mcp_tools := List.insert t (allowed_mcp_tools s)\<rparr>"
| "remember_answer (May_Call_Server n) s = s\<lparr>allowed_mcp_servers := List.insert n (allowed_mcp_servers s)\<rparr>"
| "remember_answer (Never_Call t) s = s\<lparr>disallowed_mcp_tools := List.insert t (disallowed_mcp_tools s)\<rparr>"
| "remember_answer (Never_Fetch d) s = s\<lparr>disallowed_web_fetch_domains := List.insert d (disallowed_web_fetch_domains s)\<rparr>"

text \<open>Sessions of one client in one project. Each holds the state it has loaded; all write the same file.
  A session is opened and loads the store (a blanket permission for edits of an old state is withdrawn
  and the state written back), adds the answers that one prompt gave it and writes, reads the store again
  when the file has changed, or resets: it forgets its own state and replaces the file.\<close>

datatype session_event = Starts nat | Answers nat "answer list" | Rereads nat | Resets nat

datatype sessions = Sessions (held: "nat \<Rightarrow> permission_state") (store: disk)

fun sessions_step :: "string \<Rightarrow> string option \<Rightarrow> string option \<Rightarrow> sessions \<Rightarrow> session_event \<Rightarrow> sessions" where
  "sessions_step dir legacy client S (Starts i) =
     (let (loaded, D) = load_state_with_fallback write_file dir legacy client (store S);
          migrated = loaded\<lparr>edit_policy_of := Edit_Ask\<rparr>
      in if edit_policy_of loaded = Edit_Allow
         then Sessions ((held S)(i := migrated)) (persist_state write_file dir migrated client D)
         else Sessions ((held S)(i := loaded)) D)"
| "sessions_step dir legacy client S (Answers i as) =
     (let s = fold remember_answer as (held S i)
      in Sessions ((held S)(i := s)) (persist_state write_file dir s client (store S)))"
| "sessions_step dir legacy client S (Rereads i) =
     (let (fresh, D) = load_state_with_fallback write_file dir legacy client (store S)
      in Sessions ((held S)(i := merge_grants_from (held S i) fresh)) D)"
| "sessions_step dir legacy client S (Resets i) =
     Sessions ((held S)(i := permission_state_default))
       (replace_state_on_disk write_file dir permission_state_default client (store S))"

definition sessions_run :: "string \<Rightarrow> string option \<Rightarrow> string option \<Rightarrow> sessions \<Rightarrow> session_event list \<Rightarrow> sessions" where
  "sessions_run dir legacy client S evs = foldl (sessions_step dir legacy client) S evs"

text \<open>What a session that is opened now finds.\<close>

definition new_session_finds :: "string \<Rightarrow> string option \<Rightarrow> string option \<Rightarrow> sessions \<Rightarrow> answer set" where
  "new_session_finds dir legacy client S = answers (fst (load_state_with_fallback write_file dir legacy client (store S)))"

text \<open>The answers given in a run, and the sessions that write in it before they are opened anew: they
  write what they held at its beginning, too.\<close>

definition given :: "session_event list \<Rightarrow> answer set" where
  "given evs = {a. \<exists>i as. Answers i as \<in> set evs \<and> a \<in> set as}"

definition writes_old :: "session_event list \<Rightarrow> nat \<Rightarrow> bool" where
  "writes_old evs j \<longleftrightarrow> (\<exists>us as vs. evs = us @ Answers j as # vs \<and> Starts j \<notin> set us)"

definition up_to_date :: "permission_state \<Rightarrow> bool" where
  "up_to_date s \<longleftrightarrow> validated_mcp_server_grants_version s \<ge> VALIDATED_MCP_SERVER_GRANTS_VERSION"

definition file_answers :: "disk_entry \<Rightarrow> answer set" where
  "file_answers e = (case e of File s \<Rightarrow> answers s | _ \<Rightarrow> {})"

definition current_entry :: "disk_entry \<Rightarrow> bool" where
  "current_entry e = (case e of File s \<Rightarrow> up_to_date s | _ \<Rightarrow> True)"

lemma default_current [simp]: "up_to_date permission_state_default"
  by (simp add: up_to_date_def permission_state_default_def)

lemma merge_current [simp]: "up_to_date (merge_grants_from s t) = up_to_date s"
  by (simp add: up_to_date_def)

lemma answers_remember: "answers (remember_answer a s) = insert a (answers s)"
  by (cases a) (auto simp: answers_def)

lemma current_remember: "up_to_date (remember_answer a s) = up_to_date s"
  by (cases a) (auto simp: up_to_date_def)

lemma remember_all [simp]:
  "answers (fold remember_answer as s) = set as \<union> answers s"
  "up_to_date (fold remember_answer as s) = up_to_date s"
  by (induction as arbitrary: s) (auto simp: answers_remember current_remember)

lemma edit_policy_no_answer [simp]:
  "answers (s\<lparr>edit_policy_of := e\<rparr>) = answers s" "up_to_date (s\<lparr>edit_policy_of := e\<rparr>) = up_to_date s"
  by (simp_all add: answers_def up_to_date_def)

lemma persist_answers:
  assumes "current_entry (D (state_file_path dir client))" and "up_to_date s"
  shows "\<exists>f. persist_state write_file dir s client D (state_file_path dir client) = File f \<and> up_to_date f
    \<and> answers f = file_answers (D (state_file_path dir client)) \<union> answers s"
  using assms
  by (cases "D (state_file_path dir client)")
    (auto simp: persist_state_def persist_state_merging_to_dir_def persist_state_to_dir_def try_load_state_def
      write_file_def up_to_date_def current_entry_def file_answers_def)

lemma load_own_file:
  assumes "D (state_file_path dir client) = File f" and "up_to_date f"
  shows "load_state_with_fallback write_file dir legacy client D = (f, D)"
proof -
  have "try_load_state write_file (state_file_path dir client) D = (Some f, D)"
    using assms by (simp add: try_load_state_def up_to_date_def)
  then have "load_state_from_dir write_file dir client D = (f, D)"
    by (cases client) (simp_all add: load_state_from_dir_def)
  moreover have "state_dir_has_store dir client D"
    using assms(1) by (cases client) (simp_all add: state_dir_has_store_def)
  ultimately show ?thesis by (simp add: load_state_with_fallback_def split: option.split)
qed

lemma given_simps [simp]:
  "given [] = {}" "given (evs @ [Starts i]) = given evs" "given (evs @ [Rereads i]) = given evs"
  "given (evs @ [Answers i as]) = given evs \<union> set as" "given (Answers i as # evs) = set as \<union> given evs"
  by (auto simp: given_def)

lemma writes_old_snoc:
  "writes_old (evs @ [e]) j \<longleftrightarrow> writes_old evs j \<or> (\<exists>as. e = Answers j as) \<and> Starts j \<notin> set evs"
proof
  assume "writes_old (evs @ [e]) j"
  then obtain us as vs where split: "evs @ [e] = us @ Answers j as # vs" and us: "Starts j \<notin> set us"
    by (auto simp: writes_old_def)
  then show "writes_old evs j \<or> (\<exists>as. e = Answers j as) \<and> Starts j \<notin> set evs"
    by (cases vs rule: rev_cases) (auto simp: writes_old_def)
next
  assume "writes_old evs j \<or> (\<exists>as. e = Answers j as) \<and> Starts j \<notin> set evs"
  then show "writes_old (evs @ [e]) j" by (force simp: writes_old_def)
qed

lemma writes_old_Nil [simp]: "\<not> writes_old [] j"
  by (simp add: writes_old_def)

lemma writes_old_Cons:
  "writes_old (Answers i as # evs) j \<longleftrightarrow> j = i \<or> writes_old evs j"
proof (cases "j = i")
  case True
  have "Answers i as # evs = [] @ Answers i as # evs" by simp
  then show ?thesis using True unfolding writes_old_def by fastforce
next
  case False
  show ?thesis
  proof
    assume "writes_old (Answers i as # evs) j"
    then obtain us bs vs where "Answers i as # evs = us @ Answers j bs # vs" "Starts j \<notin> set us"
      by (auto simp: writes_old_def)
    then show "j = i \<or> writes_old evs j" using False by (cases us) (auto simp: writes_old_def)
  next
    assume "j = i \<or> writes_old evs j"
    then obtain us bs vs where "evs = us @ Answers j bs # vs" "Starts j \<notin> set us"
      using False by (auto simp: writes_old_def)
    then have "Answers i as # evs = (Answers i as # us) @ Answers j bs # vs" "Starts j \<notin> set (Answers i as # us)" by auto
    then show "writes_old (Answers i as # evs) j" unfolding writes_old_def by blast
  qed
qed

text \<open>The invariant of a run without reset that starts with the answers \<open>F\<close> in the file and \<open>H j\<close> held by the
  session \<open>j\<close>.\<close>

definition shares ::
  "string \<Rightarrow> string option \<Rightarrow> answer set \<Rightarrow> (nat \<Rightarrow> answer set) \<Rightarrow> session_event list \<Rightarrow> sessions \<Rightarrow> bool" where
  "shares dir client F H evs S \<longleftrightarrow>
     (\<exists>f. store S (state_file_path dir client) = File f \<and> up_to_date f
        \<and> answers f = F \<union> given evs \<union> (\<Union>j \<in> {j. writes_old evs j}. H j)
        \<and> (\<forall>j. up_to_date (held S j)
             \<and> answers (held S j) \<subseteq> answers f \<union> (if Starts j \<in> set evs then {} else H j)
             \<and> (Starts j \<notin> set evs \<longrightarrow> H j \<subseteq> answers (held S j))))"

lemma shares_step:
  assumes S: "shares dir client F H evs S" and e: "\<forall>i. e \<noteq> Resets i"
  shows "shares dir client F H (evs @ [e]) (sessions_step dir legacy client S e)"
proof -
  let ?p = "state_file_path dir client" and ?T = "sessions_step dir legacy client S e"
  obtain f where f: "store S ?p = File f" "up_to_date f"
      "answers f = F \<union> given evs \<union> (\<Union>j \<in> {j. writes_old evs j}. H j)"
    and all: "\<forall>j. up_to_date (held S j)
       \<and> answers (held S j) \<subseteq> answers f \<union> (if Starts j \<in> set evs then {} else H j)
       \<and> (Starts j \<notin> set evs \<longrightarrow> H j \<subseteq> answers (held S j))"
    using S unfolding shares_def by (elim exE conjE)
  have held: "up_to_date (held S j)" "answers (held S j) \<subseteq> answers f \<union> (if Starts j \<in> set evs then {} else H j)"
      "Starts j \<notin> set evs \<Longrightarrow> H j \<subseteq> answers (held S j)" for j
    using all by simp_all
  note load = load_own_file [of "store S" dir client f legacy, OF f(1,2)]
  have old: "(\<Union>j \<in> {j. writes_old (evs @ [e]) j}. H j)
      = (\<Union>j \<in> {j. writes_old evs j}. H j) \<union> (\<Union>j \<in> {j. (\<exists>as. e = Answers j as) \<and> Starts j \<notin> set evs}. H j)"
    by (auto simp: writes_old_snoc)
  have pers: "\<exists>g. persist_state write_file dir s client (store S) ?p = File g \<and> up_to_date g \<and> answers g = answers f \<union> answers s"
    if "up_to_date s" for s
    using persist_answers [of "store S" dir client s] that f by (simp add: current_entry_def file_answers_def)
  have shares: "shares dir client F H (evs @ [e]) ?T"
    if g: "store ?T ?p = File g" "up_to_date g" "answers g = F \<union> given (evs @ [e]) \<union> (\<Union>j \<in> {j. writes_old (evs @ [e]) j}. H j)"
      and T: "\<And>j. up_to_date (held ?T j)" "answers f \<subseteq> answers g"
      "\<And>j. answers (held ?T j) \<subseteq> answers g \<union> (if e = Starts j then {} else answers (held S j))"
      "\<And>j. e = Starts j \<or> answers (held S j) \<subseteq> answers (held ?T j)" for g
  proof -
    have "answers (held ?T j) \<subseteq> answers g \<union> (if Starts j \<in> set (evs @ [e]) then {} else H j)" for j
      using T(2) T(3) [of j] held(2) [of j] by (cases "e = Starts j"; cases "Starts j \<in> set evs") auto
    moreover have "Starts j \<notin> set (evs @ [e]) \<longrightarrow> H j \<subseteq> answers (held ?T j)" for j
      using T(4) [of j] held(3) [of j] by (cases "Starts j \<in> set evs") auto
    ultimately show ?thesis unfolding shares_def using g T(1) by (intro exI [of _ g] conjI allI)
  qed
  show ?thesis
  proof (cases e)
    case (Starts i)
    let ?m = "f\<lparr>edit_policy_of := Edit_Ask\<rparr>"
    obtain g where g: "persist_state write_file dir ?m client (store S) ?p = File g" "up_to_date g" "answers g = answers f"
      using pers [of ?m] f(2) by auto
    have "answers f = F \<union> given (evs @ [e]) \<union> (\<Union>j \<in> {j. writes_old (evs @ [e]) j}. H j)"
      using f(3) old by (simp add: Starts)
    then show ?thesis
      by (intro shares [of "if edit_policy_of f = Edit_Allow then g else f"]) (use f(1,2) g held(1) in \<open>auto simp: Starts load Let_def\<close>)
  next
    case (Answers i as)
    obtain g where g: "persist_state write_file dir (fold remember_answer as (held S i)) client (store S) ?p = File g"
        "up_to_date g" "answers g = answers f \<union> (set as \<union> answers (held S i))"
      using pers [of "fold remember_answer as (held S i)"] held(1) [of i] by auto
    have "answers g = F \<union> given (evs @ [e]) \<union> (\<Union>j \<in> {j. writes_old (evs @ [e]) j}. H j)"
      using g(3) f(3) held(2) [of i] held(3) [of i] unfolding old by (auto simp: Answers split: if_splits)
    then show ?thesis
      by (intro shares [of g]) (use g held(1) in \<open>auto simp: Answers Let_def\<close>)
  next
    case (Rereads i)
    have "answers f = F \<union> given (evs @ [e]) \<union> (\<Union>j \<in> {j. writes_old (evs @ [e]) j}. H j)"
      using f(3) old by (simp add: Rereads)
    then show ?thesis
      by (intro shares [of f]) (use f(1,2) held(1) in \<open>auto simp: Rereads load\<close>)
  qed (use e in simp)
qed

lemma shares_run:
  assumes "shares dir client F H [] S" and "\<forall>i. Resets i \<notin> set evs"
  shows "shares dir client F H evs (sessions_run dir legacy client S evs)"
  using assms(2)
proof (induction evs rule: rev_induct)
  case (snoc e evs)
  then show ?case using shares_step [of dir client F H evs _ e legacy] by (auto simp: sessions_run_def)
qed (use assms(1) in \<open>simp add: sessions_run_def\<close>)

lemma shares_found:
  assumes "shares dir client F H evs S"
  shows "new_session_finds dir legacy client S = F \<union> given evs \<union> (\<Union>j \<in> {j. writes_old evs j}. H j)"
  using assms load_own_file [of "store S" dir client _ legacy] by (auto simp: shares_def new_session_finds_def)

lemma shares_Nil:
  assumes "store S (state_file_path dir client) = File f" and "up_to_date f" and "\<forall>j. up_to_date (held S j)"
    and "\<forall>j. answers (held S j) = H j"
  shows "shares dir client (answers f) H [] S"
  using assms by (auto simp: shares_def)


definition two_sessions :: sessions where
  "two_sessions = Sessions ((\<lambda>_. permission_state_default)(1 := permission_state_default\<lparr>allowed_bash_commands := [''ls'']\<rparr>))
     ((\<lambda>_. No_File)(''/s/permission_tui.toml'' := File (permission_state_default\<lparr>allowed_bash_commands := [''ls'']\<rparr>)))"


text \<open>The reset of one session does not reach the others: one that is still open and held an answer from before
  the reset writes it back with its next answer, and every session opened later has it again.\<close>

lemma reset_undone_by_open_session:
  "May_Run ''ls'' \<in> new_session_finds ''/s'' None (Some ''tui'')
     (sessions_run ''/s'' None (Some ''tui'') two_sessions [Resets 0, Answers 1 [Never_Run ''rm'']])"
  by code_simp

end
