(* ===== verification/Bash_Evaluation.thy ===== *)
theory Bash_Evaluation
  imports Exec_Risk Shell_Access Permission_Policy Grant_State
begin

text \<open>
  The analysis of one shell request against the remembered answers (\<open>evaluate_bash\<close> and its helpers in
  \<open>permission/manager/mod.rs\<close>, the environment risk of \<open>permission/auto_mode/mod.rs\<close>, and
  \<open>permission/manager/bash_grants.rs\<close>).

  Every segment of a script is peeled and compared with the remembered denials, the remembered
  grants and the built-in lists of harmless commands; findings about the whole script are collected
  beside. The loop of the source carries its mutable variables in a record here, and its early
  return is a value of its own.
\<close>

section \<open>Risk of environment variables\<close>

definition SAFE_ENV_KEYS :: "string list" where
  "SAFE_ENV_KEYS = [''CARGO_TERM_COLOR'', ''CARGO_TERM_PROGRESS_WHEN'', ''RUST_LOG'', ''RUST_LOG_STYLE'',
     ''RUST_BACKTRACE'', ''RUST_TEST_THREADS'', ''RUST_MIN_STACK'', ''NO_COLOR'', ''CLICOLOR'', ''CLICOLOR_FORCE'',
     ''FORCE_COLOR'', ''COLORTERM'']"

datatype env_risk = Env_Safe | Env_Unvetted | Env_Injection

definition INJECTION_ENV_KEYS :: "string list" where
  "INJECTION_ENV_KEYS = [''LD_PRELOAD'', ''LD_AUDIT'', ''BASH_ENV'', ''ENV'', ''IFS'', ''PATH'', ''GIT_EXTERNAL_DIFF'',
     ''GIT_PROXY_COMMAND'', ''PROMPT_COMMAND'']"

definition INJECTION_ENV_KEY_PREFIXES :: "string list" where
  "INJECTION_ENV_KEY_PREFIXES = [''DYLD_'', ''GIT_CONFIG'']"

definition is_safe_env_key :: "string \<Rightarrow> bool" where
  "is_safe_env_key key \<longleftrightarrow> key \<in> set SAFE_ENV_KEYS"

definition env_key_risk :: "string \<Rightarrow> env_risk" where
  "env_key_risk key =
     (if is_safe_env_key key then Env_Safe
      else if key \<in> set INJECTION_ENV_KEYS \<or> list_ex (starts_with key) INJECTION_ENV_KEY_PREFIXES then Env_Injection
      else Env_Unvetted)"

text \<open>The derived order and its maximum.\<close>

fun env_rank :: "env_risk \<Rightarrow> nat" where
  "env_rank Env_Safe = 0"
| "env_rank Env_Unvetted = 1"
| "env_rank Env_Injection = 2"

definition env_max :: "env_risk \<Rightarrow> env_risk \<Rightarrow> env_risk" where
  "env_max a b = (if env_rank a \<le> env_rank b then b else a)"

text \<open>The arguments of one \<open>env\<close>: \<open>None\<close> is the early return with the highest risk.\<close>

fun env_args_risk :: "bool \<Rightarrow> env_risk \<Rightarrow> string list \<Rightarrow> env_risk option" where
  "env_args_risk options_done risk [] = Some risk"
| "env_args_risk options_done risk (arg # rest) =
     (if arg = ''--'' then env_args_risk True risk rest
      else if \<not> options_done \<and> starts_with arg ''-'' then None
      else case split_once (CHR ''='') arg of
        Some (key, _) \<Rightarrow> env_args_risk options_done (env_max risk (env_key_risk key)) rest
      | None \<Rightarrow> Some risk)"

fun command_env_loop :: "nat \<Rightarrow> env_risk \<Rightarrow> string list \<Rightarrow> env_risk" where
  "command_env_loop 0 risk current = risk"
| "command_env_loop (Suc k) risk current =
     (case (if head_name current = Some ''env'' then env_args_risk False risk (drop 1 current) else Some risk) of
        None \<Rightarrow> Env_Injection
      | Some risk' \<Rightarrow> (case strip_wrapper_command current of
          Some inner \<Rightarrow> command_env_loop k risk' inner
        | None \<Rightarrow> risk'))"

definition command_env_risk :: "string list \<Rightarrow> env_risk" where
  "command_env_risk ws = command_env_loop 8 Env_Safe ws"

definition assignment_key :: "ts_node \<Rightarrow> string \<Rightarrow> string" where
  "assignment_key n src =
     (case filter_map (\<lambda>c. if kind c = ''variable_name'' then utf8_text c src else None) (node_children n) of
        t # _ \<Rightarrow> t
      | [] \<Rightarrow> (case utf8_text n src of Some t \<Rightarrow> hd (split_on (CHR ''='') t) | None \<Rightarrow> []))"

definition script_env_risk :: "ts_node \<Rightarrow> string \<Rightarrow> plain_command list \<Rightarrow> env_risk" where
  "script_env_risk root src cmds =
     (let risk = foldl (\<lambda>r c. if kind (fst c) = ''variable_assignment''
                    then env_max r (env_key_risk (assignment_key (fst c) src)) else r) Env_Safe (visited root)
      in foldl (\<lambda>r c. env_max r (command_env_risk (words c))) risk cmds)"

definition env_risk_finding :: "env_risk \<Rightarrow> security_finding option" where
  "env_risk_finding r = (case r of Env_Injection \<Rightarrow> Some EnvInjection | Env_Unvetted \<Rightarrow> Some UnvettedEnv | Env_Safe \<Rightarrow> None)"

section \<open>Harmless and dangerous commands\<close>

definition KUBECTL_UNSAFE_FLAGS :: "string list" where
  "KUBECTL_UNSAFE_FLAGS = [''--kubeconfig'', ''--context'', ''--cluster'', ''--server'', ''-s'', ''--token'', ''--user'',
     ''--as'', ''--as-group'', ''--as-uid'', ''--as-user-extra'', ''--username'', ''--password'', ''--client-certificate'',
     ''--client-key'', ''--certificate-authority'']"

definition RG_UNSAFE_FLAGS :: "string list" where
  "RG_UNSAFE_FLAGS = [''--pre'', ''--hostname-bin'']"

definition rg_has_unsafe_flag :: "string list \<Rightarrow> bool" where
  "rg_has_unsafe_flag ws \<longleftrightarrow> normalized_command_head ws = Some ''rg''
     \<and> list_ex (\<lambda>w. before_equals w \<in> set RG_UNSAFE_FLAGS) (drop 1 ws)"

definition kubectl_has_unsafe_flag :: "string list \<Rightarrow> bool" where
  "kubectl_has_unsafe_flag ws \<longleftrightarrow> normalized_command_head ws = Some ''kubectl''
     \<and> list_ex (\<lambda>w. before_equals w \<in> set KUBECTL_UNSAFE_FLAGS) (drop 1 ws)"

text \<open>The loop over the arguments of \<open>ps\<close>; the flag is \<open>skip_next\<close>.\<close>

fun ps_scan :: "bool \<Rightarrow> string list \<Rightarrow> bool" where
  "ps_scan skip_next [] = False"
| "ps_scan skip_next (s # rest) =
     (if skip_next then ps_scan False rest
      else if starts_with s ''--format='' \<or> starts_with s ''--sort='' then ps_scan False rest
      else if s \<in> set [''-o'', ''-O'', ''--format'', ''--sort'', ''-p'', ''-q'', ''-t'', ''-u'', ''-U'', ''-g'', ''-G'',
                 ''-C'', ''-s'', ''--pid'', ''--ppid'', ''--sid'', ''--tty'', ''--user'', ''--group'', ''--cols'',
                 ''--columns'', ''--width'', ''o'', ''O''] then ps_scan True rest
      else if starts_with s ''-o'' \<or> starts_with s ''-O'' then ps_scan False rest
      else (let dashless = \<not> starts_with s ''-'';
                bsd = starts_with s ''-'' \<and> \<not> starts_with s ''--'' \<and> (CHR ''a'' \<in> set s \<or> CHR ''x'' \<in> set s)
            in if CHR ''E'' \<in> set s \<or> CHR ''e'' \<in> set s \<and> (dashless \<or> bsd) then True
               else if starts_with s ''-'' \<and> \<not> starts_with s ''--'' \<and> (ends_with s ''o'' \<or> ends_with s ''O'')
                 then ps_scan True rest
               else ps_scan False rest))"

definition ps_dumps_environment :: "string list \<Rightarrow> bool" where
  "ps_dumps_environment ws \<longleftrightarrow> normalized_command_head ws = Some ''ps'' \<and> ps_scan False (drop 1 ws)"

text \<open>The manager's own \<open>matches_command_prefix\<close>.\<close>

definition command_prefix :: "string \<Rightarrow> string \<Rightarrow> bool" where
  "command_prefix cmd pat \<longleftrightarrow> cmd = pat
     \<or> starts_with cmd pat \<and> length pat < length cmd \<and> cmd ! length pat = CHR '' ''"

definition is_safe_git_query_prefix :: "string \<Rightarrow> bool" where
  "is_safe_git_query_prefix cmd = (case strip_prefix ''git '' cmd of
     None \<Rightarrow> False | Some rest \<Rightarrow> list_ex (command_prefix rest) SAFE_GIT_SUBCOMMANDS)"

definition is_safe_command_words_str :: "string \<Rightarrow> bool" where
  "is_safe_command_words_str cmd \<longleftrightarrow> is_safe_git_query_prefix cmd \<or> list_ex (command_prefix cmd)
     [''ls'', ''cat'', ''pwd'', ''date'', ''whoami'', ''hostname'', ''uptime'', ''grep'', ''rg'', ''kubectl get'',
      ''kubectl logs'', ''kubectl describe'', ''ps'', ''bin/explorer ls'', ''head'', ''tail'', ''wc'', ''sort'', ''uniq'',
      ''tr'', ''cut'', ''echo'', ''printf'']"

definition is_safe_command_words :: "string list \<Rightarrow> bool" where
  "is_safe_command_words ws =
     (if ws = [] then False
      else if rg_has_unsafe_flag ws then False
      else if kubectl_has_unsafe_flag ws then False
      else if ps_dumps_environment ws then False
      else if hd ws = ''git'' then git_words_are_read_only_query ws
      else is_safe_command_words_str (join '' '' ws))"

definition ALWAYS_SAFE_COMMANDS :: "string list" where
  "ALWAYS_SAFE_COMMANDS = [''ls'', ''cat'', ''pwd'', ''date'', ''whoami'', ''hostname'', ''uptime'', ''ps'', ''grep'', ''rg'',
     ''kubectl get'', ''kubectl logs'', ''kubectl describe'', ''bin/explorer ls'']"

definition is_always_safe_command_words :: "string list \<Rightarrow> bool" where
  "is_always_safe_command_words ws =
     (if ws = [] then False
      else if rg_has_unsafe_flag ws then False
      else if kubectl_has_unsafe_flag ws then False
      else if ps_dumps_environment ws then False
      else if hd ws = ''git'' then git_words_are_read_only_query ws
      else list_ex (command_prefix (join '' '' ws)) ALWAYS_SAFE_COMMANDS)"

definition is_safe_creation_command :: "string list \<Rightarrow> bool" where
  "is_safe_creation_command ws \<longleftrightarrow> ws \<noteq> [] \<and> is_creation_program (hd ws)"

definition is_dangerous_command_words :: "string list \<Rightarrow> bool" where
  "is_dangerous_command_words ws = (case normalized_command_head ws of
     None \<Rightarrow> False
   | Some head \<Rightarrow>
       (let joined = (if length ws = 1 then head else head @ '' '' @ join '' '' (drop 1 ws))
        in list_ex (command_prefix joined)
             [''rm'', ''chmod'', ''chown'', ''chgrp'', ''chattr'', ''pkill'', ''kill'', ''killall'', ''git push'']))"

section \<open>Scopes of grants\<close>

definition always_allow_scope_pinned :: "string list \<Rightarrow> bool" where
  "always_allow_scope_pinned ws \<longleftrightarrow> is_dangerous_command_words ws \<or> head_is_exec_vehicle ws
     \<or> normalized_command_head ws = Some ''sed''"

definition gh_always_allow_scope :: "string list \<Rightarrow> nat option" where
  "gh_always_allow_scope ws =
     (if normalized_command_head ws \<noteq> Some ''gh'' then None
      else Some (case ws of
        _ # grp # verb # _ \<Rightarrow> if \<not> starts_with grp ''-'' \<and> \<not> starts_with verb ''-'' then 3 else length ws
      | _ \<Rightarrow> length ws))"

definition base_scope :: "string list \<Rightarrow> nat" where
  "base_scope ws =
     (if is_safe_command_words ws \<and> is_safe_command_words_str (hd ws) then 1
      else if is_safe_command_words ws \<and> length ws \<ge> 2 \<and> is_safe_command_words_str (join '' '' (take 2 ws)) then 2
      else min (length ws) 2 + length (takeWhile (\<lambda>w. starts_with w ''-'') (drop (min (length ws) 2) ws)))"

definition default_always_allow_scope :: "string list \<Rightarrow> nat" where
  "default_always_allow_scope ws =
     (if ws = [] then 0
      else if always_allow_scope_pinned ws then length ws
      else case gh_always_allow_scope ws of Some n \<Rightarrow> n | None \<Rightarrow> base_scope ws)"

definition default_always_deny_scope :: "string list \<Rightarrow> nat" where
  "default_always_deny_scope ws = (if ws = [] then 0 else base_scope ws)"

definition minimum_always_allow_scope :: "string list \<Rightarrow> nat" where
  "minimum_always_allow_scope ws =
     (if always_allow_scope_pinned ws then length ws
      else case gh_always_allow_scope ws of Some n \<Rightarrow> n | None \<Rightarrow> 1)"

definition matches_whitelist_prefix :: "string \<Rightarrow> string \<Rightarrow> bool" where
  "matches_whitelist_prefix segment_str allowed = command_prefix segment_str allowed"

definition matches_bash_glob :: "permission_env \<Rightarrow> string \<Rightarrow> string \<Rightarrow> bool" where
  "matches_bash_glob E segment_str pat = bash_pattern_matches_command E pat segment_str"

section \<open>Translating a prompt into grants\<close>

abbreviation commands_in :: "permission_env \<Rightarrow> string \<Rightarrow> plain_command list option" where
  "commands_in E s \<equiv> all_commands_from_script (try_parse_shell E) s"

definition words_join_unambiguously :: "permission_env \<Rightarrow> string list \<Rightarrow> bool" where
  "words_join_unambiguously E ws =
     (let joined = join '' '' ws
      in case commands_in E joined of
           Some [only] \<Rightarrow> spans_whole_script only joined \<and> words only = ws
         | _ \<Rightarrow> False)"

definition always_allow_scope_persists :: "permission_env \<Rightarrow> bash_command_highlights \<Rightarrow> nat \<Rightarrow> bool" where
  "always_allow_scope_persists E h n =
     (let ws = highlighted_words h
      in if n = 0 \<or> n > length ws \<or> n < minimum_always_allow_scope ws then False
         else words_join_unambiguously E (take n ws)
              \<or> n = length ws \<and> prefix_words h = [] \<and> suffix_words h = [])"

definition whole_script_grant :: "permission_env \<Rightarrow> string \<Rightarrow> plain_command list \<Rightarrow> permission_state \<Rightarrow> bool" where
  "whole_script_grant E cmd segments s =
     (if cmd \<in> set (allowed_bash_commands s) then True
      else case segments of
        [only] \<Rightarrow> spans_whole_script only cmd \<and> words_join_unambiguously E (words only)
                  \<and> join '' '' (words only) \<in> set (allowed_bash_commands s)
      | _ \<Rightarrow> False)"

definition MAX_SEGMENT_GRANTS :: nat where "MAX_SEGMENT_GRANTS = 5"

definition segment_grant :: "permission_env \<Rightarrow> plain_command \<Rightarrow> string option" where
  "segment_grant E parsed =
     (let ws = unwrap_wrappers (words parsed)
      in if ws \<noteq> [] \<and> \<not> is_setup_command ws \<and> \<not> is_dangerous_command_words ws \<and> \<not> head_is_exec_vehicle ws
            \<and> words_join_unambiguously E ws
         then Some (join '' '' ws) else None)"

definition bash_grant_segments :: "permission_env \<Rightarrow> string \<Rightarrow> string list" where
  "bash_grant_segments E cmd = (case commands_in E cmd of
     None \<Rightarrow> []
   | Some segments \<Rightarrow>
       (let grants = filter_map (segment_grant E) segments
        in if length grants > MAX_SEGMENT_GRANTS then [] else grants))"

definition persist_bash_always_allow :: "permission_env \<Rightarrow> permission_state \<Rightarrow> string \<Rightarrow> string \<Rightarrow> permission_state" where
  "persist_bash_always_allow E s cmd pre =
     (case primary_command_from_script (try_parse_shell E) cmd of
        None \<Rightarrow> s
      | Some h \<Rightarrow>
          (let ws = highlighted_words h
           in if list_ex (\<lambda>n. words_join_unambiguously E (take n ws) \<and> join '' '' (take n ws) = pre)
                   [minimum_always_allow_scope ws..<Suc (length ws)]
              then s\<lparr>allowed_bash_commands := List.insert pre (allowed_bash_commands s)\<rparr>
              else if prefix_words h = [] \<and> suffix_words h = [] \<and> join '' '' ws = pre
              then s\<lparr>allowed_bash_commands := List.insert cmd (allowed_bash_commands s)\<rparr>
              else s))"

definition bash_glob_covers_script :: "permission_env \<Rightarrow> string \<Rightarrow> string \<Rightarrow> bool" where
  "bash_glob_covers_script E cmd pat =
     (if bash_glob_is_catchall E pat then False
      else case commands_in E cmd of
        None \<Rightarrow> bash_pattern_matches_command E pat cmd
      | Some segments \<Rightarrow> list_ex (\<lambda>seg. let ws = unwrap_wrappers (words seg)
           in ws \<noteq> [] \<and> \<not> is_setup_command ws \<and> bash_pattern_matches_command E pat (join '' '' ws)) segments)"

section \<open>The evaluation\<close>

datatype segment_evaluation =
    AutoAllow (via_session_grant: bool)
  | Seg_Reject string
  | NeedsPrompts "string list"
  | Unparseable

record bash_evaluation =
  eval_segments :: segment_evaluation
  exact_grant :: bool
  all_segments_granted :: bool
  findings :: assessment
  redirect_write :: bool
  ambient_segments :: "string list list option"
  eval_creation_paths :: "string list"
  has_cwd_change :: bool

definition unparseable_exec_risk :: "string \<Rightarrow> bool" where
  "unparseable_exec_risk cmd = script_may_invoke_git cmd"

definition rejection_of :: "string \<Rightarrow> string" where
  "rejection_of d = ''User previously rejected `'' @ d @ ''` in this project''"

definition raw_deny_rejection :: "string \<Rightarrow> permission_state \<Rightarrow> segment_evaluation option" where
  "raw_deny_rejection cmd s =
     map_option (\<lambda>d. Seg_Reject (rejection_of d)) (List.find (matches_whitelist_prefix cmd) (disallowed_bash_commands s))"

text \<open>The mutable variables of the loop over the segments.\<close>

record segment_scan =
  needs_prompt :: "string list"
  scan_via_grant :: bool
  scan_all_granted :: bool
  scan_exec_risk :: bool
  scan_has_git :: bool
  scan_findings :: assessment

datatype segment_turn = Turn_Reject string segment_scan | Turn_Next segment_scan

definition segment_matched_grant :: "permission_env \<Rightarrow> permission_state \<Rightarrow> string list \<Rightarrow> bool" where
  "segment_matched_grant E s ws =
     (let joined = join '' '' ws
      in (if always_allow_scope_pinned ws then joined \<in> set (allowed_bash_commands s)
          else list_ex (matches_whitelist_prefix joined) (allowed_bash_commands s))
         \<or> list_ex (matches_bash_glob E joined) (allowed_bash_globs s))"

definition special_exec_surface :: "string list \<Rightarrow> bool" where
  "special_exec_surface ws \<longleftrightarrow> kubectl_has_unsafe_flag ws \<or> rg_has_unsafe_flag ws \<or> ps_dumps_environment ws
     \<or> git_words_have_unsafe_query_option ws"

definition matched_safe :: "bool \<Rightarrow> string list \<Rightarrow> bool" where
  "matched_safe honor ws \<longleftrightarrow> honor \<and> (is_safe_command_words ws \<or> is_always_safe_command_words ws \<or> is_safe_creation_command ws)"

definition scan_segment :: "permission_env \<Rightarrow> permission_state \<Rightarrow> bool \<Rightarrow> segment_scan \<Rightarrow> string list \<Rightarrow> segment_turn" where
  "scan_segment E s honor sc raw_words =
     (let ws = unwrap_wrappers raw_words;
          facts = segment_exec_facts_of raw_words;
          found = scan_findings sc \<union> (if words_are_opaque_shell (map Literal_Word ws) then {OpaqueShell} else {})
                    \<union> (if exec_risk facts then {ExecOrAmbientGit} else {});
          sc1 = sc\<lparr>scan_findings := found, scan_exec_risk := scan_exec_risk sc \<or> exec_risk facts,
                   scan_has_git := scan_has_git sc \<or> has_git facts\<rparr>;
          joined = join '' '' ws;
          granted = segment_matched_grant E s ws;
          sc2 = sc1\<lparr>scan_all_granted := scan_all_granted sc1 \<and> granted\<rparr>
      in if is_setup_command ws then Turn_Next sc1
         else case List.find (matches_whitelist_prefix joined) (disallowed_bash_commands s) of
           Some d \<Rightarrow> Turn_Reject (rejection_of d) sc1
         | None \<Rightarrow>
             if is_dangerous_command_words ws then
               Turn_Next (sc2\<lparr>scan_findings := insert DangerousCommand found, needs_prompt := needs_prompt sc @ [joined]\<rparr>)
             else if special_exec_surface ws \<and> joined \<notin> set (allowed_bash_commands s) then
               Turn_Next (sc2\<lparr>scan_findings := insert SpecialExecSurface found, needs_prompt := needs_prompt sc @ [joined]\<rparr>)
             else if granted \<or> matched_safe honor ws then
               Turn_Next (sc2\<lparr>scan_via_grant := scan_via_grant sc \<or> granted\<rparr>)
             else Turn_Next (sc2\<lparr>needs_prompt := needs_prompt sc @ [joined]\<rparr>))"

fun scan_bash_segments :: "permission_env \<Rightarrow> permission_state \<Rightarrow> bool \<Rightarrow> segment_scan \<Rightarrow> string list list \<Rightarrow> segment_turn" where
  "scan_bash_segments E s honor sc [] = Turn_Next sc"
| "scan_bash_segments E s honor sc (raw # rest) = (case scan_segment E s honor sc raw of
     Turn_Reject rsn sc' \<Rightarrow> Turn_Reject rsn sc'
   | Turn_Next sc' \<Rightarrow> scan_bash_segments E s honor sc' rest)"

definition unparsed_evaluation :: "string \<Rightarrow> permission_state \<Rightarrow> assessment \<Rightarrow> bash_evaluation" where
  "unparsed_evaluation cmd s found =
     \<lparr>eval_segments = (case raw_deny_rejection cmd s of Some r \<Rightarrow> r | None \<Rightarrow> Unparseable),
      exact_grant = (cmd \<in> set (allowed_bash_commands s)), all_segments_granted = False,
      findings = found \<union> {UnparseableShell} \<union> (if unparseable_exec_risk cmd then {ExecOrAmbientGit} else {}),
      redirect_write = True, ambient_segments = None, eval_creation_paths = [], has_cwd_change = False\<rparr>"

text \<open>The findings about effects of the whole script: files it writes, variables it sets.\<close>

definition writes_by_redirect :: "write_paths_split \<Rightarrow> bool" where
  "writes_by_redirect writes \<longleftrightarrow> unextracted_write_redirect writes
     \<or> list_ex (\<lambda>p. \<not> is_safe_write_sink p) (redirect_paths writes)"

definition effect_findings :: "ts_tree \<Rightarrow> string \<Rightarrow> plain_command list option \<Rightarrow> assessment" where
  "effect_findings tree cmd segs =
     (let writes = command_write_paths_split (root_node tree) cmd
      in (if writes_by_redirect writes \<or> list_ex (\<lambda>p. \<not> is_safe_write_sink p) (word_paths writes) then {FileWrite} else {})
         \<union> (case env_risk_finding (script_env_risk (root_node tree) cmd (case segs of Some cs \<Rightarrow> cs | None \<Rightarrow> [])) of
              Some f \<Rightarrow> {f} | None \<Rightarrow> {}))"

definition evaluate_bash :: "permission_env \<Rightarrow> string \<Rightarrow> permission_state \<Rightarrow> bool \<Rightarrow> bash_evaluation" where
  "evaluate_bash E cmd s honor_safe_lists =
     (case try_parse_shell E cmd of
        None \<Rightarrow> unparsed_evaluation cmd s {}
      | Some tree \<Rightarrow>
          (let writes = command_write_paths_split (root_node tree) cmd;
               cwd_change = script_has_cwd_change (root_node tree) cmd;
               redirect = writes_by_redirect writes;
               segs = try_parse_word_only_commands_sequence tree cmd;
               found = effect_findings tree cmd segs
           in case segs of
                None \<Rightarrow> unparsed_evaluation cmd s
                  (found \<union> (if tree_has_opaque_shell (root_node tree) cmd then {OpaqueShell} else {}))
              | Some segments \<Rightarrow>
                  (let exact = whole_script_grant E cmd segments s;
                       raw = map words segments
                   in case scan_bash_segments E s honor_safe_lists
                             \<lparr>needs_prompt = [], scan_via_grant = False, scan_all_granted = True, scan_exec_risk = False,
                              scan_has_git = False, scan_findings = found\<rparr> raw of
                        Turn_Reject rsn sc \<Rightarrow>
                          \<lparr>eval_segments = Seg_Reject rsn, exact_grant = exact, all_segments_granted = scan_all_granted sc,
                           findings = scan_findings sc, redirect_write = redirect, ambient_segments = None,
                           eval_creation_paths = [], has_cwd_change = False\<rparr>
                      | Turn_Next sc \<Rightarrow>
                          \<lparr>eval_segments = (if needs_prompt sc = [] then AutoAllow (scan_via_grant sc)
                                           else NeedsPrompts (needs_prompt sc)),
                           exact_grant = exact, all_segments_granted = scan_all_granted sc, findings = scan_findings sc,
                           redirect_write = redirect,
                           ambient_segments = (if scan_has_git sc \<and> \<not> scan_exec_risk sc then Some raw else None),
                           eval_creation_paths = creation_paths writes, has_cwd_change = cwd_change\<rparr>)))"

end
