(* ===== verification/Session_Grants.thy ===== *)
theory Session_Grants
  imports Bash_Evaluation
begin

text \<open>
  Deciding from remembered answers (the pre-decisions of \<open>permission/manager/mod.rs\<close>), with the
  qualified names of MCP tools (\<open>xai-grok-mcp\<close>, \<open>xai-tool-protocol\<close>) and the static list of web
  domains (\<open>web_fetch/domain.rs\<close>) they consult.

  The theory shows what a decision from remembered answers rests on: a remembered denial wins over
  every grant; a shell script is only allowed when nothing in it is beyond what a grant can vouch
  for, and then each of its segments is granted or on a list of harmless commands, or the whole
  script was granted as it stands, or the user granted everything and no policy pins that off; a
  dangerous command is never covered by a prefix.
\<close>

section \<open>Outside answers\<close>

text \<open>What the manager consults outside of this code: the shell parser, globs, file system and address
  parser of the policy, the path of an address, the \<open>git\<close> library, the home directory of the program
  and the expansion of a leading tilde.\<close>

record manager_env =
  base_env :: permission_env
  url_path :: "string \<Rightarrow> string"
  git :: git_lib
  user_grok_home :: "string option"
  tilde_expand :: "string \<Rightarrow> string"

section \<open>Names of MCP tools\<close>

definition is_id_char :: "char \<Rightarrow> bool" where
  "is_id_char c \<longleftrightarrow> is_ascii_alphanumeric c \<or> c = CHR ''_'' \<or> c = CHR ''-''"

definition is_valid_segment :: "string \<Rightarrow> bool" where
  "is_valid_segment s \<longleftrightarrow> s \<noteq> [] \<and> list_all is_id_char s"

text \<open>\<open>s.splitn(3, ':')\<close> gives at least one part; a third part, with whatever it holds, is refused.\<close>

definition is_well_formed_tool_id :: "string \<Rightarrow> bool" where
  "is_well_formed_tool_id s = (case split_on (CHR '':'') s of
     [first] \<Rightarrow> is_valid_segment first
   | [first, second] \<Rightarrow> is_valid_segment first \<and> is_valid_segment second
   | _ \<Rightarrow> False)"

definition tool_id_valid :: "string \<Rightarrow> bool" where
  "tool_id_valid s \<longleftrightarrow> s \<noteq> [] \<and> is_well_formed_tool_id s"

definition delimiter_positions :: "string \<Rightarrow> nat list" where
  "delimiter_positions name = filter (\<lambda>i. take 2 (drop i name) = ''__'') [0..<length name - 1]"

definition parse_mcp_qualified_name :: "string \<Rightarrow> (string \<times> string) option" where
  "parse_mcp_qualified_name name = (case delimiter_positions name of
     [boundary] \<Rightarrow>
       (let server = take boundary name; tl_tool = drop (boundary + 2) name
        in if server = [] \<or> tl_tool = [] then None
           else if tool_id_valid name then Some (server, tl_tool) else None)
   | _ \<Rightarrow> None)"

definition mcp_server_prefix_allowed :: "string \<Rightarrow> string list \<Rightarrow> bool" where
  "mcp_server_prefix_allowed name servers \<longleftrightarrow> servers \<noteq> []
     \<and> (case parse_mcp_qualified_name name of None \<Rightarrow> False | Some (server, _) \<Rightarrow> server \<in> set servers)"

definition mcp_pre_decision :: "string \<Rightarrow> permission_state \<Rightarrow> bool \<Rightarrow> bool \<Rightarrow> decision option" where
  "mcp_pre_decision name s policy_forced_prompt remember =
     (if name \<in> set (disallowed_mcp_tools s) then Some (Reject (rejection_of name))
      else if policy_forced_prompt \<and> \<not> remember then None
      else if name \<in> set (allowed_mcp_tools s) then Some Allow
      else if mcp_server_prefix_allowed name (allowed_mcp_servers s) then Some Allow
      else None)"

section \<open>Web domains\<close>

definition web_fetch_deny_key :: "permission_env \<Rightarrow> string \<Rightarrow> string" where
  "web_fetch_deny_key E host = to_lowercase E (trim_end_matches (CHR ''.'') (trim host))"

definition web_fetch_deny_key_from_url :: "permission_env \<Rightarrow> string \<Rightarrow> string option" where
  "web_fetch_deny_key_from_url E url = (case url_host E url of
     None \<Rightarrow> None
   | Some host \<Rightarrow> (let key = web_fetch_deny_key E host in if key \<noteq> [] then Some key else None))"

definition domain_denied_by :: "string \<Rightarrow> string \<Rightarrow> bool" where
  "domain_denied_by domain denied \<longleftrightarrow> denied \<noteq> []
     \<and> (domain = denied
        \<or> length domain > length denied + 1 \<and> ends_with domain denied
          \<and> domain ! (length domain - length denied - 1) = CHR ''.'')"

definition denied_web_fetch_domain :: "permission_env \<Rightarrow> string \<Rightarrow> string list \<Rightarrow> string option" where
  "denied_web_fetch_domain E host disallowed =
     (if disallowed = [] then None else List.find (domain_denied_by (web_fetch_deny_key E host)) disallowed)"

definition web_fetch_deny_pre_decision :: "permission_env \<Rightarrow> string \<Rightarrow> permission_state \<Rightarrow> decision option" where
  "web_fetch_deny_pre_decision E url s = (case url_host E url of
     None \<Rightarrow> None
   | Some host \<Rightarrow> map_option (\<lambda>denied. Reject (rejection_of denied))
       (denied_web_fetch_domain E host (disallowed_web_fetch_domains s)))"

datatype host_entry = AnyPath | PathPrefixes "string list"

type_synonym domain_matcher = "string \<rightharpoonup> host_entry"

definition domain_matcher_add :: "permission_env \<Rightarrow> domain_matcher \<Rightarrow> string \<Rightarrow> domain_matcher" where
  "domain_matcher_add E entries raw =
     (let normalized = normalize_domain E raw
      in if normalized = [] then entries
         else case find_byte (\<lambda>c. c = CHR ''/'') normalized of
           None \<Rightarrow> entries(normalized \<mapsto> AnyPath)
         | Some i \<Rightarrow>
             (let host = take i normalized; raw_path = drop i normalized
              in if entries host = Some AnyPath then entries
                 else (let pre = trim_end_matches (CHR ''/'') raw_path
                       in if pre = [] \<or> pre = ''/'' then entries(host \<mapsto> AnyPath)
                          else (let p = (if starts_with pre ''/'' then pre else ''/'' @ pre)
                                in case entries host of
                                     Some (PathPrefixes v) \<Rightarrow>
                                       if p \<in> set v then entries else entries(host \<mapsto> PathPrefixes (v @ [p]))
                                   | Some AnyPath \<Rightarrow> entries
                                   | None \<Rightarrow> entries(host \<mapsto> PathPrefixes [p])))))"

definition domain_matcher_new :: "permission_env \<Rightarrow> string list \<Rightarrow> domain_matcher" where
  "domain_matcher_new E raw_entries = foldl (domain_matcher_add E) Map.empty raw_entries"

text \<open>\<open>check(...).is_none()\<close>: the address is permitted.\<close>

definition domain_permitted :: "manager_env \<Rightarrow> domain_matcher \<Rightarrow> string \<Rightarrow> bool" where
  "domain_permitted M entries url = (case url_host (base_env M) url of
     None \<Rightarrow> False
   | Some raw_host \<Rightarrow>
       (case entries (normalize_domain (base_env M) raw_host) of
          Some AnyPath \<Rightarrow> True
        | Some (PathPrefixes pres) \<Rightarrow>
            (let p = to_lowercase (base_env M) (url_path M url)
             in list_ex (\<lambda>pre. p = pre \<or> starts_with p pre \<and> length pre < length p \<and> p ! length pre = CHR ''/'') pres)
        | None \<Rightarrow> False))"

section \<open>Shell scripts\<close>

definition persisted_bash_auto_allows :: "permission_state \<Rightarrow> string \<Rightarrow> string option \<Rightarrow> bool" where
  "persisted_bash_auto_allows s cmd yolo_pin \<longleftrightarrow>
     allow_bash_execute s \<and> yolo_pin = None \<or> cmd \<in> set (allowed_bash_commands s)"

definition bash_request_floor_requires_prompt :: "bash_evaluation option \<Rightarrow> bool" where
  "bash_request_floor_requires_prompt ev = (case ev of
     None \<Rightarrow> False | Some e \<Rightarrow> \<not> exact_grant e \<and> constrains_broad_grant (findings e))"

definition narrow_allow_clears_write_floor ::
  "permission_env \<Rightarrow> bash_evaluation option \<Rightarrow> compiled_policy option \<Rightarrow> access_kind \<Rightarrow> bool" where
  "narrow_allow_clears_write_floor E ev policy acc \<longleftrightarrow>
     (case ev of None \<Rightarrow> False | Some e \<Rightarrow> is_file_write_only (findings e) \<and> \<not> redirect_write e)
     \<and> (case policy of None \<Rightarrow> False | Some p \<Rightarrow> narrow_allow_authorizes E p acc)"

definition bash_assessment_is_clear :: "bash_evaluation option \<Rightarrow> bool" where
  "bash_assessment_is_clear ev = (case ev of None \<Rightarrow> True | Some e \<Rightarrow> findings e = {})"

definition classifier_assessment :: "bash_evaluation option \<Rightarrow> bool \<Rightarrow> assessment" where
  "classifier_assessment ev fail_closed_policy =
     (case ev of None \<Rightarrow> {} | Some e \<Rightarrow> findings e) \<union> (if fail_closed_policy then {FailClosedPolicy} else {})"

definition sandbox_may_auto_allow_bash :: "bash_evaluation option \<Rightarrow> bool \<Rightarrow> bool" where
  "sandbox_may_auto_allow_bash ev sandbox_active \<longleftrightarrow> sandbox_active \<and> \<not> bash_request_floor_requires_prompt ev"

record bash_grant_opts =
  honor_safe_lists :: bool
  allow_blanket :: bool
  conservative_blanket :: bool

definition PRE_CLASSIFIER :: bash_grant_opts where
  "PRE_CLASSIFIER = \<lparr>honor_safe_lists = True, allow_blanket = True, conservative_blanket = True\<rparr>"

definition ASK_FLOOR_REMEMBER :: bash_grant_opts where
  "ASK_FLOOR_REMEMBER = \<lparr>honor_safe_lists = False, allow_blanket = False, conservative_blanket = False\<rparr>"

definition post_classify :: "bool \<Rightarrow> bash_grant_opts" where
  "post_classify auto_forced_prompt =
     \<lparr>honor_safe_lists = True, allow_blanket = \<not> auto_forced_prompt, conservative_blanket = False\<rparr>"

datatype decision_reason =
    R_YOLO | R_POLICY_ALLOW | R_POLICY_DENY | R_POLICY_ASK | R_BASH_COMMAND_GATE_ASK | R_SHELL_FILE_GATE_ASK
  | R_AUTO_FAST_PATH | R_AUTO_CLASSIFIER_ALLOW | R_AUTO_CLASSIFIER_DENY | R_AUTO_CLASSIFIER_TIMEOUT
  | R_AUTO_CLASSIFIER_UNAVAILABLE | R_AUTO_DENIAL_LIMIT | R_SANDBOX_AUTO | R_PERSISTED_GRANT | R_SESSION_GRANT
  | R_STATIC_ALLOWLIST | R_SAFE_COMMAND | R_SESSION_DENY | R_PROMPT_DENY | R_PROMPT_ALLOW | R_NEEDS_USER
  | R_BASH_REQUEST_FLOOR | R_OPAQUE_SHELL | R_HOOK_ASK | R_REQUESTER_GONE

definition then_grant :: "bool \<Rightarrow> (decision \<times> decision_reason) option" where
  "then_grant b = (if b then Some (Allow, R_SESSION_GRANT) else None)"

definition bash_grant_pre_decision ::
  "string \<Rightarrow> bash_evaluation \<Rightarrow> permission_state \<Rightarrow> string option \<Rightarrow> bash_grant_opts \<Rightarrow> (decision \<times> decision_reason) option" where
  "bash_grant_pre_decision cmd ev s yolo_pin opts = (case eval_segments ev of
     Seg_Reject rsn \<Rightarrow> Some (Reject rsn, R_SESSION_DENY)
   | segs \<Rightarrow>
       if bash_request_floor_requires_prompt (Some ev) then None
       else case segs of
         AutoAllow via \<Rightarrow>
           if \<not> honor_safe_lists opts \<and> \<not> all_segments_granted ev then None
           else Some (Allow, if via then R_SESSION_GRANT else R_SAFE_COMMAND)
       | NeedsPrompts _ \<Rightarrow>
           if \<not> allow_blanket opts then None
           else if conservative_blanket opts \<and> DangerousCommand \<in> findings ev then then_grant (exact_grant ev)
           else then_grant (persisted_bash_auto_allows s cmd yolo_pin)
       | _ \<Rightarrow>
           if \<not> allow_blanket opts then None
           else then_grant (if conservative_blanket opts then exact_grant ev else persisted_bash_auto_allows s cmd yolo_pin))"

section \<open>All kinds of access\<close>

definition with_session_reason :: "decision_reason \<Rightarrow> decision \<Rightarrow> decision \<times> decision_reason" where
  "with_session_reason granted d = (d, case d of Reject _ \<Rightarrow> R_SESSION_DENY | _ \<Rightarrow> granted)"

definition session_grant_pre_decision ::
  "manager_env \<Rightarrow> access_kind \<Rightarrow> bash_evaluation option \<Rightarrow> permission_state \<Rightarrow> bool \<Rightarrow> domain_matcher \<Rightarrow> bool \<Rightarrow> string option
     \<Rightarrow> (decision \<times> decision_reason) option" where
  "session_grant_pre_decision M acc ev s allow_edits matcher honor_static yolo_pin = (case acc of
     Access_MCPTool name _ \<Rightarrow> map_option (with_session_reason R_SESSION_GRANT) (mcp_pre_decision name s False False)
   | Access_WebFetch url \<Rightarrow>
       (case web_fetch_deny_pre_decision (base_env M) url s of
          Some reject \<Rightarrow> Some (reject, R_SESSION_DENY)
        | None \<Rightarrow>
            if honor_static \<and> domain_permitted M matcher url then Some (Allow, R_STATIC_ALLOWLIST)
            else case url_host (base_env M) url of
              None \<Rightarrow> None
            | Some host \<Rightarrow> then_grant (normalize_domain (base_env M) host \<in> set (allowed_web_fetch_domains s)))
   | Access_Edit _ \<Rightarrow> then_grant allow_edits
   | Access_Bash cmd \<Rightarrow> (case ev of
       None \<Rightarrow> None | Some e \<Rightarrow> bash_grant_pre_decision cmd e s yolo_pin PRE_CLASSIFIER)
   | _ \<Rightarrow> None)"

definition always_allow_row_is_effective :: "permission_env \<Rightarrow> string \<Rightarrow> bool" where
  "always_allow_row_is_effective E cmd = (case primary_command_from_script (try_parse_shell E) cmd of
     None \<Rightarrow> False
   | Some h \<Rightarrow>
       (let scope = default_always_allow_scope (highlighted_words h)
        in if \<not> always_allow_scope_persists E h scope then False
           else (let scratch = persist_bash_always_allow E permission_state_default cmd (join '' '' (take scope (highlighted_words h)));
                     ev = evaluate_bash E cmd scratch True
                 in case bash_grant_pre_decision cmd ev scratch None PRE_CLASSIFIER of
                      Some (Allow, _) \<Rightarrow> True | _ \<Rightarrow> False)))"

section \<open>What the scan of the segments finds\<close>

text \<open>A segment that a remembered denial names, and one that needs no question.\<close>

definition segment_denied :: "permission_state \<Rightarrow> string list \<Rightarrow> bool" where
  "segment_denied s raw \<longleftrightarrow> \<not> is_setup_command (unwrap_wrappers raw)
     \<and> (\<exists>d \<in> set (disallowed_bash_commands s). command_prefix (join '' '' (unwrap_wrappers raw)) d)"

definition segment_vetted :: "permission_env \<Rightarrow> permission_state \<Rightarrow> bool \<Rightarrow> string list \<Rightarrow> bool" where
  "segment_vetted E s honor raw \<longleftrightarrow>
     (let ws = unwrap_wrappers raw
      in is_setup_command ws
         \<or> \<not> is_dangerous_command_words ws
           \<and> (special_exec_surface ws \<longrightarrow> join '' '' ws \<in> set (allowed_bash_commands s))
           \<and> (segment_matched_grant E s ws \<or> matched_safe honor ws))"

lemma find_prefix_None: "List.find P xs = None \<longleftrightarrow> \<not> (\<exists>x \<in> set xs. P x)"
  by (auto simp: find_None_iff)

lemma scan_segment_reject:
  "(\<exists>rsn sc'. scan_segment E s honor sc raw = Turn_Reject rsn sc') \<longleftrightarrow> segment_denied s raw"
proof (cases "List.find (matches_whitelist_prefix (join '' '' (unwrap_wrappers raw))) (disallowed_bash_commands s)")
  case None
  then have "\<not> segment_denied s raw"
    unfolding find_prefix_None by (auto simp: segment_denied_def matches_whitelist_prefix_def)
  with None show ?thesis by (auto simp: scan_segment_def Let_def)
next
  case (Some d)
  then have "\<exists>d \<in> set (disallowed_bash_commands s). command_prefix (join '' '' (unwrap_wrappers raw)) d"
    using find_prefix_None [of "matches_whitelist_prefix (join '' '' (unwrap_wrappers raw))" "disallowed_bash_commands s"]
    by (auto simp: matches_whitelist_prefix_def)
  with Some show ?thesis by (simp add: scan_segment_def Let_def segment_denied_def)
qed

lemma scan_segment_next:
  assumes "scan_segment E s honor sc raw = Turn_Next sc'"
  shows "needs_prompt sc' = [] \<longleftrightarrow> needs_prompt sc = [] \<and> segment_vetted E s honor raw"
    and "scan_findings sc \<subseteq> scan_findings sc'"
    and "\<not> is_setup_command (unwrap_wrappers raw) \<Longrightarrow> is_dangerous_command_words (unwrap_wrappers raw)
      \<Longrightarrow> DangerousCommand \<in> scan_findings sc'"
  using assms
  by (auto simp: scan_segment_def Let_def segment_vetted_def split: if_splits option.splits)

lemma scan_bash_reject:
  "(\<exists>rsn sc'. scan_bash_segments E s honor sc raws = Turn_Reject rsn sc') \<longleftrightarrow> (\<exists>raw \<in> set raws. segment_denied s raw)"
proof (induction raws arbitrary: sc)
  case (Cons raw raws)
  show ?case
  proof (cases "scan_segment E s honor sc raw")
    case (Turn_Reject rsn sc')
    then show ?thesis using scan_segment_reject [of E s honor sc raw] by auto
  next
    case (Turn_Next sc')
    then have "\<not> segment_denied s raw" using scan_segment_reject [of E s honor sc raw] by auto
    then show ?thesis using Turn_Next Cons.IH [of sc'] by simp
  qed
qed simp

lemma scan_bash_next:
  "scan_bash_segments E s honor sc raws = Turn_Next sc' \<Longrightarrow>
     (needs_prompt sc' = [] \<longleftrightarrow> needs_prompt sc = [] \<and> (\<forall>raw \<in> set raws. segment_vetted E s honor raw))
     \<and> scan_findings sc \<subseteq> scan_findings sc'"
proof (induction raws arbitrary: sc)
  case (Cons raw raws)
  then obtain sc1 where sc1: "scan_segment E s honor sc raw = Turn_Next sc1"
    "scan_bash_segments E s honor sc1 raws = Turn_Next sc'"
    by (auto split: segment_turn.splits)
  show ?case using Cons.IH [OF sc1(2)] scan_segment_next(1,2) [OF sc1(1)] by auto
qed simp

section \<open>Decisions from remembered answers\<close>

text \<open>A script that a remembered denial names: by one of its segments, or by its text when it cannot be
  split into segments.\<close>

definition script_denied :: "permission_env \<Rightarrow> permission_state \<Rightarrow> string \<Rightarrow> bool" where
  "script_denied E s cmd \<longleftrightarrow> (case commands_in E cmd of
     None \<Rightarrow> \<exists>d \<in> set (disallowed_bash_commands s). command_prefix cmd d
   | Some cs \<Rightarrow> \<exists>c \<in> set cs. segment_denied s (words c))"

definition script_vetted :: "permission_env \<Rightarrow> permission_state \<Rightarrow> bool \<Rightarrow> string \<Rightarrow> bool" where
  "script_vetted E s honor cmd \<longleftrightarrow> (case commands_in E cmd of
     None \<Rightarrow> False
   | Some cs \<Rightarrow> \<forall>c \<in> set cs. segment_vetted E s honor (words c))"

lemma evaluate_bash_unparsed:
  assumes "commands_in E cmd = None"
  shows "\<exists>found. evaluate_bash E cmd s honor = unparsed_evaluation cmd s found"
  using assms by (auto simp: evaluate_bash_def all_commands_from_script_def Let_def split: option.splits)

lemma evaluate_bash_parsed:
  assumes "commands_in E cmd = Some cs"
  obtains sc0 where "needs_prompt sc0 = []"
    and "exact_grant (evaluate_bash E cmd s honor) = whole_script_grant E cmd cs s"
    and "case scan_bash_segments E s honor sc0 (map words cs) of
      Turn_Reject rsn sc \<Rightarrow> eval_segments (evaluate_bash E cmd s honor) = Seg_Reject rsn
    | Turn_Next sc \<Rightarrow> eval_segments (evaluate_bash E cmd s honor)
          = (if needs_prompt sc = [] then AutoAllow (scan_via_grant sc) else NeedsPrompts (needs_prompt sc))
        \<and> findings (evaluate_bash E cmd s honor) = scan_findings sc"
proof -
  obtain tree where t: "try_parse_shell E cmd = Some tree" "try_parse_word_only_commands_sequence tree cmd = Some cs"
    using assms by (auto simp: all_commands_from_script_def split: Option.bind_splits)
  show ?thesis
    by (rule that [of "\<lparr>needs_prompt = [], scan_via_grant = False, scan_all_granted = True, scan_exec_risk = False,
          scan_has_git = False, scan_findings = effect_findings tree cmd (Some cs)\<rparr>"])
      (simp_all add: evaluate_bash_def t Let_def split: segment_turn.splits)
qed

lemma evaluate_bash_rejects:
  "(\<exists>rsn. eval_segments (evaluate_bash E cmd s honor) = Seg_Reject rsn) \<longleftrightarrow> script_denied E s cmd"
proof (cases "commands_in E cmd")
  case None
  then obtain found where ev: "evaluate_bash E cmd s honor = unparsed_evaluation cmd s found"
    using evaluate_bash_unparsed by blast
  show ?thesis
    using find_prefix_None [of "matches_whitelist_prefix cmd" "disallowed_bash_commands s"]
    by (cases "List.find (matches_whitelist_prefix cmd) (disallowed_bash_commands s)")
      (auto simp: ev None unparsed_evaluation_def raw_deny_rejection_def script_denied_def matches_whitelist_prefix_def)
next
  case (Some cs)
  obtain sc0 where ev: "case scan_bash_segments E s honor sc0 (map words cs) of
      Turn_Reject rsn sc \<Rightarrow> eval_segments (evaluate_bash E cmd s honor) = Seg_Reject rsn
    | Turn_Next sc \<Rightarrow> eval_segments (evaluate_bash E cmd s honor)
          = (if needs_prompt sc = [] then AutoAllow (scan_via_grant sc) else NeedsPrompts (needs_prompt sc))
        \<and> findings (evaluate_bash E cmd s honor) = scan_findings sc"
    by (rule evaluate_bash_parsed [OF Some, of s honor])
  have d: "script_denied E s cmd \<longleftrightarrow> (\<exists>rsn sc. scan_bash_segments E s honor sc0 (map words cs) = Turn_Reject rsn sc)"
    unfolding scan_bash_reject by (simp add: script_denied_def Some)
  show ?thesis using ev unfolding d by (cases "scan_bash_segments E s honor sc0 (map words cs)") auto
qed

lemma evaluate_bash_auto_allow:
  "eval_segments (evaluate_bash E cmd s honor) = AutoAllow via \<Longrightarrow> script_vetted E s honor cmd"
proof (cases "commands_in E cmd")
  case None
  assume a: "eval_segments (evaluate_bash E cmd s honor) = AutoAllow via"
  obtain found where ev: "evaluate_bash E cmd s honor = unparsed_evaluation cmd s found"
    using evaluate_bash_unparsed [OF None] by blast
  show ?thesis using a by (auto simp: ev unparsed_evaluation_def raw_deny_rejection_def split: option.splits)
next
  case (Some cs)
  assume a: "eval_segments (evaluate_bash E cmd s honor) = AutoAllow via"
  obtain sc0 where n: "needs_prompt sc0 = []" and ev: "case scan_bash_segments E s honor sc0 (map words cs) of
      Turn_Reject rsn sc \<Rightarrow> eval_segments (evaluate_bash E cmd s honor) = Seg_Reject rsn
    | Turn_Next sc \<Rightarrow> eval_segments (evaluate_bash E cmd s honor)
          = (if needs_prompt sc = [] then AutoAllow (scan_via_grant sc) else NeedsPrompts (needs_prompt sc))
        \<and> findings (evaluate_bash E cmd s honor) = scan_findings sc"
    by (rule evaluate_bash_parsed [OF Some, of s honor])
  then obtain sc where sc: "scan_bash_segments E s honor sc0 (map words cs) = Turn_Next sc" "needs_prompt sc = []"
    using a by (cases "scan_bash_segments E s honor sc0 (map words cs)") (auto split: if_splits)
  show ?thesis using scan_bash_next [OF sc(1)] sc(2) n by (simp add: script_vetted_def Some)
qed

text \<open>C18: What a decision from remembered answers about a shell script rests on. A remembered denial
  wins over everything: if it names a segment of the script, or the text of a script that does not
  split into segments, the script is rejected, and only then. And the script is only allowed when no
  denial names it, when no finding that a broad grant cannot vouch for is made or the script was
  granted as a whole, and when every segment is granted or harmless and none is dangerous, or the
  script was granted as a whole, or the user granted everything and no policy pins that off; under
  the careful options a dangerous segment leaves only the grant of the whole script.\<close>

theorem remembered_answers_sound:
  fixes E cmd s honor
  defines "ev \<equiv> evaluate_bash E cmd s honor"
  shows "((\<exists>rsn. bash_grant_pre_decision cmd ev s pin opts = Some (Reject rsn, R_SESSION_DENY)) \<longleftrightarrow> script_denied E s cmd)
    \<and> (bash_grant_pre_decision cmd ev s pin opts = Some (Allow, r) \<longrightarrow>
        \<not> script_denied E s cmd
        \<and> (exact_grant ev \<or> \<not> (\<exists>f \<in> findings ev. is_grant_floor f))
        \<and> (script_vetted E s honor cmd \<or> exact_grant ev \<or> cmd \<in> set (allowed_bash_commands s)
            \<or> allow_blanket opts \<and> allow_bash_execute s \<and> pin = None
              \<and> (conservative_blanket opts \<longrightarrow> DangerousCommand \<notin> findings ev)))"
proof (cases "eval_segments ev")
  case (Seg_Reject rsn)
  then have "script_denied E s cmd" using evaluate_bash_rejects unfolding ev_def by blast
  then show ?thesis using Seg_Reject by (simp add: bash_grant_pre_decision_def)
next
  case (AutoAllow via)
  then have "script_vetted E s honor cmd" "\<not> script_denied E s cmd"
    using evaluate_bash_auto_allow evaluate_bash_rejects [of E cmd s honor] unfolding ev_def by auto
  then show ?thesis using AutoAllow
    by (auto simp: bash_grant_pre_decision_def bash_request_floor_requires_prompt_def constrains_broad_grant_def split: if_splits)
next
  case (NeedsPrompts xs)
  then have "\<not> script_denied E s cmd" using evaluate_bash_rejects [of E cmd s honor] unfolding ev_def by auto
  then show ?thesis using NeedsPrompts
    by (auto simp: bash_grant_pre_decision_def bash_request_floor_requires_prompt_def constrains_broad_grant_def
        then_grant_def persisted_bash_auto_allows_def split: if_splits)
next
  case Unparseable
  then have "\<not> script_denied E s cmd" using evaluate_bash_rejects [of E cmd s honor] unfolding ev_def by auto
  then show ?thesis using Unparseable
    by (auto simp: bash_grant_pre_decision_def bash_request_floor_requires_prompt_def constrains_broad_grant_def
        then_grant_def persisted_bash_auto_allows_def split: if_splits)
qed

definition grant_env :: permission_env where
  "grant_env = demo_env\<lparr>try_parse_shell := (\<lambda>s. if s = ''cd && ls'' then Some demo_tree else None)\<rparr>"

theorem remembered_answers_sound_witness:
  "script_vetted grant_env permission_state_default True ''cd && ls''
   \<and> script_denied grant_env (permission_state_default\<lparr>disallowed_bash_commands := [''ls'']\<rparr>) ''cd && ls''"
proof -
  let ?s = permission_state_default and ?t = "permission_state_default\<lparr>disallowed_bash_commands := [''ls'']\<rparr>"
  have allow: "bash_grant_pre_decision ''cd && ls'' (evaluate_bash grant_env ''cd && ls'' ?s True) ?s (Some ''pin'') PRE_CLASSIFIER
      = Some (Allow, R_SAFE_COMMAND)" by code_simp
  have "\<not> exact_grant (evaluate_bash grant_env ''cd && ls'' ?s True)" by code_simp
  then have "script_vetted grant_env ?s True ''cd && ls''"
    using allow remembered_answers_sound [of "''cd && ls''" grant_env ?s True "Some ''pin''" PRE_CLASSIFIER R_SAFE_COMMAND]
    by (simp add: permission_state_default_def)
  moreover have "bash_grant_pre_decision ''cd && ls'' (evaluate_bash grant_env ''cd && ls'' ?t True) ?t None PRE_CLASSIFIER
      = Some (Reject (rejection_of ''ls''), R_SESSION_DENY)" by code_simp
  then have "script_denied grant_env ?t ''cd && ls''"
    using remembered_answers_sound [of "''cd && ls''" grant_env ?t True None PRE_CLASSIFIER R_SAFE_COMMAND] by blast
  ultimately show ?thesis by blast
qed

section \<open>What a prompt may persist\<close>

lemma base_scope_bounds: "ws \<noteq> [] \<Longrightarrow> 1 \<le> base_scope ws \<and> base_scope ws \<le> length ws"
proof -
  assume ws: "ws \<noteq> []"
  have "length (takeWhile (\<lambda>w. starts_with w ''-'') (drop (min (length ws) 2) ws)) \<le> length ws - min (length ws) 2"
    by (metis length_drop length_takeWhile_le)
  moreover have "1 \<le> length ws" using ws by (cases ws) simp_all
  ultimately show ?thesis unfolding base_scope_def by auto
qed

lemma gh_scope_bounds: "gh_always_allow_scope ws = Some n \<Longrightarrow> ws \<noteq> [] \<Longrightarrow> 1 \<le> n \<and> n \<le> length ws"
  by (auto simp: gh_always_allow_scope_def Suc_le_eq split: list.splits if_splits)

lemma scopes_ordered:
  "ws \<noteq> [] \<Longrightarrow> 1 \<le> minimum_always_allow_scope ws \<and> minimum_always_allow_scope ws \<le> default_always_allow_scope ws
     \<and> default_always_allow_scope ws \<le> length ws \<and> 1 \<le> default_always_deny_scope ws \<and> default_always_deny_scope ws \<le> length ws"
  using base_scope_bounds [of ws] gh_scope_bounds [of ws]
  by (auto simp: minimum_always_allow_scope_def default_always_allow_scope_def default_always_deny_scope_def Suc_le_eq
      split: option.splits)

text \<open>A key that a prompt about a script may store: the script itself, when nothing stands around its
  command, or a prefix of the command that reads back as itself and is not below the minimum.\<close>

definition offered_key :: "permission_env \<Rightarrow> string \<Rightarrow> string \<Rightarrow> bool" where
  "offered_key E cmd key \<longleftrightarrow> (\<exists>h. primary_command_from_script (try_parse_shell E) cmd = Some h \<and>
     (key = cmd \<and> prefix_words h = [] \<and> suffix_words h = []
      \<or> (\<exists>n. minimum_always_allow_scope (highlighted_words h) \<le> n \<and> n \<le> length (highlighted_words h)
           \<and> key = join '' '' (take n (highlighted_words h)) \<and> words_join_unambiguously E (take n (highlighted_words h)))))"

lemma persist_only_offered:
  assumes "key \<in> set (allowed_bash_commands (persist_bash_always_allow E s cmd label))"
  shows "key \<in> set (allowed_bash_commands s) \<or> offered_key E cmd key \<and> (key = label \<or> key = cmd)"
proof (cases "primary_command_from_script (try_parse_shell E) cmd")
  case (Some h)
  then show ?thesis using assms
    by (auto simp: persist_bash_always_allow_def Let_def offered_key_def list_ex_iff split: if_splits)
qed (use assms in \<open>simp add: persist_bash_always_allow_def\<close>)

lemma persist_offered_scope:
  assumes h: "primary_command_from_script (try_parse_shell E) cmd = Some h" and "always_allow_scope_persists E h n"
  shows "\<exists>key \<in> {join '' '' (take n (highlighted_words h)), cmd}.
    key \<in> set (allowed_bash_commands (persist_bash_always_allow E s cmd (join '' '' (take n (highlighted_words h)))))"
proof -
  let ?ws = "highlighted_words h"
  have n: "minimum_always_allow_scope ?ws \<le> n" "n \<le> length ?ws"
    and p: "words_join_unambiguously E (take n ?ws) \<or> n = length ?ws \<and> prefix_words h = [] \<and> suffix_words h = []"
    using assms(2) by (auto simp: always_allow_scope_persists_def Let_def split: if_splits)
  show ?thesis
  proof (cases "words_join_unambiguously E (take n ?ws)")
    case True
    then have "list_ex (\<lambda>k. words_join_unambiguously E (take k ?ws) \<and> join '' '' (take k ?ws) = join '' '' (take n ?ws))
        [minimum_always_allow_scope ?ws..<Suc (length ?ws)]"
      using n by (auto simp: list_ex_iff intro!: bexI [of _ n])
    then show ?thesis by (simp add: persist_bash_always_allow_def h Let_def)
  next
    case False
    then show ?thesis using p by (auto simp: persist_bash_always_allow_def h Let_def)
  qed
qed

definition ls_tree :: ts_tree where
  "ls_tree = \<lparr>root_node = Node ''program'' True None 0 2
     [Node ''command'' True None 0 2 [Node ''command_name'' True (Some ''name'') 0 2 [Node ''word'' True None 0 2 []]]],
     has_error = False\<rparr>"

text \<open>C19: A prompt persists what it showed and nothing wider. Whatever label comes back for a script,
  the only keys that can be added are the script itself, when its command stands alone in it, and
  prefixes of its command that read back as the same words and are not shorter than the minimum; for
  a dangerous command, an interpreter or \<open>sed\<close> the minimum is the whole command. The minimum is at
  least one word, the default scope is between the minimum and the whole command, and accepting a
  scope that the prompt offers does store a key.\<close>

theorem prompt_persists_what_it_shows:
  "(key \<in> set (allowed_bash_commands (persist_bash_always_allow E s cmd label)) \<longrightarrow>
      key \<in> set (allowed_bash_commands s) \<or> offered_key E cmd key \<and> (key = label \<or> key = cmd))
   \<and> (always_allow_scope_pinned ws \<longrightarrow> minimum_always_allow_scope ws = length ws)
   \<and> (ws \<noteq> [] \<longrightarrow> 1 \<le> minimum_always_allow_scope ws \<and> minimum_always_allow_scope ws \<le> default_always_allow_scope ws
        \<and> default_always_allow_scope ws \<le> length ws)
   \<and> (primary_command_from_script (try_parse_shell E) cmd = Some h \<and> always_allow_scope_persists E h n \<longrightarrow>
        (\<exists>key \<in> {join '' '' (take n (highlighted_words h)), cmd}.
           key \<in> set (allowed_bash_commands (persist_bash_always_allow E s cmd (join '' '' (take n (highlighted_words h)))))))"
  using persist_only_offered [of key E s cmd label] scopes_ordered [of ws] persist_offered_scope [of E cmd h n s]
  by (auto simp: minimum_always_allow_scope_def)

definition prompt_env :: permission_env where
  "prompt_env = demo_env\<lparr>try_parse_shell := (\<lambda>s. if s = ''ls'' then Some ls_tree else None)\<rparr>"

theorem prompt_persists_what_it_shows_witness:
  "offered_key prompt_env ''ls'' ''ls'' \<and> minimum_always_allow_scope [''rm'', ''x''] = 2"
proof -
  let ?s = permission_state_default
  have "''ls'' \<in> set (allowed_bash_commands (persist_bash_always_allow prompt_env ?s ''ls'' ''ls''))"
    and "''ls'' \<notin> set (allowed_bash_commands ?s)" by code_simp+
  moreover have "always_allow_scope_pinned [''rm'', ''x'']" by code_simp
  ultimately show ?thesis
    using prompt_persists_what_it_shows [of "''ls''" prompt_env ?s "''ls''" "''ls''" "[''rm'', ''x'']"] by simp
qed

end
