(* ===== verification/Protected_Edits.thy ===== *)
theory Protected_Edits
  imports Session_Grants
begin

text \<open>
  Edit targets that always need a confirmation (\<open>edit_target_protection\<close> and its helpers in
  \<open>permission/shell_access.rs\<close>) and the resolution of a path that a model wrote
  (\<open>resolve_model_path\<close> in \<open>xai-grok-tools/src/types/resources.rs\<close>).

  The code walks a list of tests and returns at the first one that fires, once on the path as written
  and once on the path after following symbolic links. The theory gives the protected area as a set
  of places, described without that order, and shows that the walk answers exactly for the paths of
  which one of the two forms lies in it.
\<close>

section \<open>Paths written by a model\<close>

definition is_quote :: "char \<Rightarrow> bool" where
  "is_quote c \<longleftrightarrow> c = CHR 0x22 \<or> c = CHR 0x27"

definition trim_quote_marks :: "string \<Rightarrow> string" where
  "trim_quote_marks s = rev (dropWhile is_quote (rev (dropWhile is_quote s)))"

definition strip_escape :: "string \<Rightarrow> string option" where
  "strip_escape s = (case strip_suffix [CHR 0x5C, CHR ''n''] s of
     Some r \<Rightarrow> Some r
   | None \<Rightarrow> (case strip_suffix [CHR 0x5C, CHR ''r''] s of
       Some r \<Rightarrow> Some r
     | None \<Rightarrow> strip_suffix [CHR 0x5C, CHR ''t''] s))"

lemma strip_escape_shorter: "strip_escape s = Some r \<Longrightarrow> length r < length s"
  by (auto simp: strip_escape_def strip_suffix_iff split: option.splits)

lemma trim_end_length: "length (trim_end s) \<le> length s"
proof -
  obtain p where "rev s = p @ strip_many (map rev ws_encodings) (rev s)" using strip_many_suffix by blast
  then have "length s = length p + length (trim_end s)" by (metis length_append length_rev trim_end_def)
  then show ?thesis by simp
qed

function strip_escapes :: "string \<Rightarrow> string" where
  "strip_escapes s = (case strip_escape s of None \<Rightarrow> s | Some r \<Rightarrow> strip_escapes (trim_end r))"
  by auto
termination
  by (relation "measure length") (auto dest: strip_escape_shorter intro: le_less_trans [OF trim_end_length])

declare strip_escapes.simps [simp del]

definition sanitize_model_path_arg :: "string \<Rightarrow> string" where
  "sanitize_model_path_arg input =
     (let trimmed = trim input;
          quote_wrapped = length trimmed \<ge> 2 \<and> is_quote (hd trimmed) \<and> is_quote (last trimmed);
          unquoted = trim (trim_quote_marks trimmed)
      in if \<not> quote_wrapped then unquoted else strip_escapes unquoted)"

definition path_starts_with :: "string \<Rightarrow> string \<Rightarrow> bool" where
  "path_starts_with p base \<longleftrightarrow> strip_prefix (components base) (components p) \<noteq> None"

definition path_eq :: "string \<Rightarrow> string \<Rightarrow> bool" where
  "path_eq p q \<longleftrightarrow> components p = components q"

definition resolve_model_path :: "manager_env \<Rightarrow> string \<Rightarrow> string option \<Rightarrow> string \<Rightarrow> string" where
  "resolve_model_path M cwd display_cwd input0 =
     (let input = sanitize_model_path_arg input0;
          expanded = tilde_expand M input;
          relative =
            (if \<not> is_absolute expanded \<and> expanded \<noteq> [] then
               (let as_absolute = ''/'' @ expanded;
                    effective_base = (case display_cwd of Some d \<Rightarrow> d | None \<Rightarrow> cwd)
                in if path_starts_with as_absolute effective_base
                   then path_strip_prefix as_absolute effective_base else None)
             else None)
      in case display_cwd of
           Some display \<Rightarrow>
             if is_absolute expanded then
               (case path_strip_prefix expanded display of
                  Some suf \<Rightarrow> path_join cwd suf
                | None \<Rightarrow> expanded)
             else (case relative of Some suf \<Rightarrow> path_join cwd suf | None \<Rightarrow> path_join cwd expanded)
         | None \<Rightarrow> (case relative of Some suf \<Rightarrow> path_join cwd suf | None \<Rightarrow> path_join cwd expanded))"

section \<open>Protected targets\<close>

datatype protection_reason =
    HookRoot | GitHooks | Ssh | StartupFile | Etc | GrokConfig | GrokSandbox | ClaudeSettings | CursorHooks | Sensitive

fun protected_edit_kind :: "protection_reason \<Rightarrow> string" where
  "protected_edit_kind HookRoot = ''hook_root''"
| "protected_edit_kind GitHooks = ''git_hooks''"
| "protected_edit_kind Ssh = ''ssh''"
| "protected_edit_kind StartupFile = ''startup_file''"
| "protected_edit_kind Etc = ''etc''"
| "protected_edit_kind GrokConfig = ''grok_config''"
| "protected_edit_kind GrokSandbox = ''grok_sandbox''"
| "protected_edit_kind ClaudeSettings = ''claude_settings''"
| "protected_edit_kind CursorHooks = ''cursor_hooks''"
| "protected_edit_kind Sensitive = ''sensitive''"

definition normal_names :: "string \<Rightarrow> string list" where
  "normal_names p = concat (map (\<lambda>c. case c of Normal s \<Rightarrow> [to_ascii_lowercase s] | _ \<Rightarrow> []) (components p))"

definition STARTUP_FILES :: "string list" where
  "STARTUP_FILES = [''.bashrc'', ''.bash_profile'', ''.bash_login'', ''.bash_logout'', ''.profile'', ''.zshrc'',
     ''.zshenv'', ''.zprofile'', ''.zlogin'', ''.zlogout'', ''.kshrc'', ''.cshrc'', ''.tcshrc'', ''.login'',
     ''.logout'', ''.inputrc'', ''.xprofile'']"

definition USER_CONFIG_FILENAME :: string where "USER_CONFIG_FILENAME = ''config.toml''"
definition MANAGED_CONFIG_FILENAME :: string where "MANAGED_CONFIG_FILENAME = ''managed_config.toml''"
definition REQUIREMENTS_FILENAME :: string where "REQUIREMENTS_FILENAME = ''requirements.toml''"
definition SANDBOX_CONFIG_FILENAME :: string where "SANDBOX_CONFIG_FILENAME = ''sandbox.toml''"

text \<open>\<open>windows(2).any(|pair| pair == [a, b])\<close>.\<close>

definition has_pair :: "string \<Rightarrow> string \<Rightarrow> string list \<Rightarrow> bool" where
  "has_pair a b xs \<longleftrightarrow> (a, b) \<in> set (zip xs (drop 1 xs))"

definition grok_home_matches :: "manager_env \<Rightarrow> (string \<Rightarrow> bool) \<Rightarrow> bool" where
  "grok_home_matches M pred = (case user_grok_home M of
     None \<Rightarrow> False
   | Some home \<Rightarrow>
       (let lexical = normalize_lexically home
        in pred lexical \<or> (case resolve_following_symlinks (files (base_env M)) lexical of
             None \<Rightarrow> False | Some resolved \<Rightarrow> pred resolved)))"

definition path_is_under_user_grok_hook_root :: "string \<Rightarrow> string \<Rightarrow> bool" where
  "path_is_under_user_grok_hook_root path grok_home \<longleftrightarrow>
     path_starts_with path (path_join grok_home ''hooks'') \<or> path_eq path (path_join grok_home ''hooks-paths'')"

definition protected_grok_hook_root :: "manager_env \<Rightarrow> string \<Rightarrow> string list \<Rightarrow> bool" where
  "protected_grok_hook_root M path names \<longleftrightarrow> has_pair ''.grok'' ''hooks'' names
     \<or> ends_with names [''.grok'', ''hooks-paths'']
     \<or> grok_home_matches M (path_is_under_user_grok_hook_root path)"

definition protected_git_hooks_path :: "string list \<Rightarrow> bool" where
  "protected_git_hooks_path names \<longleftrightarrow> has_pair ''.git'' ''hooks'' names
     \<or> list_ex (\<lambda>g. names ! g = ''.git'' \<and> g + 1 < length names \<and> names ! (g + 1) = ''modules''
           \<and> ''hooks'' \<in> set (drop 1 (drop (g + 2) names))) [0..<length names]"

definition protected_grok_config_file :: "manager_env \<Rightarrow> string \<Rightarrow> string list \<Rightarrow> protection_reason option" where
  "protected_grok_config_file M path names =
     (if names = [] then None
      else (let file = last names;
                rsn = (if file \<in> set [USER_CONFIG_FILENAME, MANAGED_CONFIG_FILENAME, REQUIREMENTS_FILENAME] then Some GrokConfig
                       else if file = SANDBOX_CONFIG_FILENAME then Some GrokSandbox else None);
                in_dot_grok = (length names \<ge> 2 \<and> names ! (length names - 2) = ''.grok'');
                in_grok_home = grok_home_matches M (\<lambda>home. case path_parent path of None \<Rightarrow> False | Some d \<Rightarrow> path_eq d home)
            in case rsn of None \<Rightarrow> None | Some r \<Rightarrow> if in_dot_grok \<or> in_grok_home then Some r else None))"

definition protected_edit_reason :: "manager_env \<Rightarrow> string \<Rightarrow> protection_reason option" where
  "protected_edit_reason M path =
     (let names = normal_names path; file = (if names = [] then [] else last names)
      in if protected_grok_hook_root M path names then Some HookRoot
         else if ends_with names [''.claude'', ''settings.json''] \<or> ends_with names [''.claude'', ''settings.local.json'']
         then Some ClaudeSettings
         else if ends_with names [''.cursor'', ''hooks.json''] then Some CursorHooks
         else if protected_git_hooks_path names then Some GitHooks
         else if ''.ssh'' \<in> set names then Some Ssh
         else if file \<in> set STARTUP_FILES then Some StartupFile
         else case protected_grok_config_file M path names of
           Some r \<Rightarrow> Some r
         | None \<Rightarrow> if path_eq path ''/etc'' \<or> path_starts_with path ''/etc'' then Some Etc else None)"

definition resolved_path_is_within_root :: "manager_env \<Rightarrow> string \<Rightarrow> string \<Rightarrow> bool" where
  "resolved_path_is_within_root M resolved_path root =
     (case resolve_following_symlinks (files (base_env M)) root of
        Some resolved_root \<Rightarrow> path_starts_with resolved_path resolved_root
      | None \<Rightarrow> True)"

definition edit_target_protection :: "manager_env \<Rightarrow> string \<Rightarrow> protection_reason option" where
  "edit_target_protection M path =
     (if \<not> is_absolute path then Some Sensitive
      else case protected_edit_reason M (normalize_lexically path) of
        Some r \<Rightarrow> Some r
      | None \<Rightarrow>
          (case resolve_following_symlinks (files (base_env M)) path of
             None \<Rightarrow> Some Sensitive
           | Some resolved \<Rightarrow>
               (case protected_edit_reason M resolved of
                  Some r \<Rightarrow> Some r
                | None \<Rightarrow> if resolved_path_is_within_root M resolved ''/etc'' then Some Sensitive else None)))"

section \<open>The protected area\<close>

abbreviation config_files :: "string set" where
  "config_files \<equiv> {USER_CONFIG_FILENAME, MANAGED_CONFIG_FILENAME, REQUIREMENTS_FILENAME, SANDBOX_CONFIG_FILENAME}"

text \<open>A path by the names it passes through, in any case: inside a hook directory of the program, of
  \<open>git\<close> or of one of its submodules, inside \<open>.ssh\<close>, one of the named settings files, a shell startup
  file, a configuration file of the program; or under its home directory or \<open>/etc\<close>.\<close>

definition protected_names :: "string list \<Rightarrow> bool" where
  "protected_names ns \<longleftrightarrow>
     (\<exists>a b. ns = a @ [''.grok'', ''hooks''] @ b) \<or> (\<exists>a b. ns = a @ [''.git'', ''hooks''] @ b)
     \<or> (\<exists>a m b. ns = a @ [''.git'', ''modules'', m] @ b \<and> ''hooks'' \<in> set b)
     \<or> ''.ssh'' \<in> set ns
     \<or> (\<exists>a f. ns = a @ [f] \<and> f \<in> set STARTUP_FILES)
     \<or> (\<exists>a f. ns = a @ [''.grok'', f] \<and> f \<in> config_files)
     \<or> (\<exists>a. ns = a @ [''.grok'', ''hooks-paths''])
     \<or> (\<exists>a. ns = a @ [''.claude'', ''settings.json'']) \<or> (\<exists>a. ns = a @ [''.claude'', ''settings.local.json''])
     \<or> (\<exists>a. ns = a @ [''.cursor'', ''hooks.json''])"

definition protected_place :: "manager_env \<Rightarrow> string \<Rightarrow> bool" where
  "protected_place M p \<longleftrightarrow> protected_names (normal_names p)
     \<or> grok_home_matches M (path_is_under_user_grok_hook_root p)
     \<or> normal_names p \<noteq> [] \<and> last (normal_names p) \<in> config_files
       \<and> grok_home_matches M (\<lambda>home. \<exists>d. path_parent p = Some d \<and> path_eq d home)
     \<or> (\<exists>cs. components p = RootDir # Normal ''etc'' # cs)"

lemma has_pair_iff: "has_pair a b xs \<longleftrightarrow> (\<exists>us vs. xs = us @ [a, b] @ vs)"
proof
  assume "has_pair a b xs"
  then obtain i where i: "Suc i < length xs" "xs ! i = a" "xs ! Suc i = b"
    by (auto simp: has_pair_def in_set_zip less_diff_conv)
  then have "drop i xs = [a, b] @ drop (Suc (Suc i)) xs" by (auto simp: Cons_nth_drop_Suc)
  then show "\<exists>us vs. xs = us @ [a, b] @ vs" by (metis append_take_drop_id)
next
  assume "\<exists>us vs. xs = us @ [a, b] @ vs"
  then obtain us vs where "xs = us @ [a, b] @ vs" by blast
  then show "has_pair a b xs"
    by (auto simp: has_pair_def in_set_zip nth_append intro!: exI [of _ "length us"])
qed

lemma modules_iff:
  "list_ex (\<lambda>g. ns ! g = ''.git'' \<and> g + 1 < length ns \<and> ns ! (g + 1) = ''modules''
      \<and> ''hooks'' \<in> set (drop 1 (drop (g + 2) ns))) [0..<length ns]
   \<longleftrightarrow> (\<exists>a m b. ns = a @ [''.git'', ''modules'', m] @ b \<and> ''hooks'' \<in> set b)" (is "?L \<longleftrightarrow> ?R")
proof
  assume ?L
  then obtain g where g: "g + 1 < length ns" "ns ! g = ''.git''" "ns ! (g + 1) = ''modules''" "''hooks'' \<in> set (drop (g + 3) ns)"
    by (auto simp: list_ex_iff numeral_3_eq_3)
  then have l: "g + 2 < length ns" by (cases "g + 3 \<le> length ns") auto
  have "drop g ns = ns ! g # ns ! Suc g # ns ! Suc (Suc g) # drop (Suc (Suc (Suc g))) ns"
    using l by (simp add: Cons_nth_drop_Suc)
  then have "drop g ns = [''.git'', ''modules'', ns ! Suc (Suc g)] @ drop (g + 3) ns"
    using g(2,3) by (simp add: numeral_3_eq_3)
  then have "ns = take g ns @ [''.git'', ''modules'', ns ! Suc (Suc g)] @ drop (g + 3) ns"
    by (metis append_take_drop_id)
  then show ?R using g(4) by blast
next
  assume ?R
  then obtain a m b where "ns = a @ [''.git'', ''modules'', m] @ b" "''hooks'' \<in> set b" by blast
  then show ?L by (auto simp: list_ex_iff nth_append intro!: bexI [of _ "length a"])
qed

lemma under_etc: "path_eq p ''/etc'' \<or> path_starts_with p ''/etc'' \<longleftrightarrow> (\<exists>cs. components p = RootDir # Normal ''etc'' # cs)"
proof -
  have "components ''/etc'' = [RootDir, Normal ''etc'']" by code_simp
  then show ?thesis by (auto simp: path_eq_def path_starts_with_def strip_prefix_iff)
qed

lemma ends_pair: "ends_with ns [d, f] \<longleftrightarrow> (\<exists>a. ns = a @ [d, f])"
  by (simp add: ends_with_iff)

lemma grok_config_iff:
  "protected_grok_config_file M p ns \<noteq> None \<longleftrightarrow>
     (\<exists>a f. ns = a @ [''.grok'', f] \<and> f \<in> config_files)
     \<or> ns \<noteq> [] \<and> last ns \<in> config_files \<and> grok_home_matches M (\<lambda>home. \<exists>d. path_parent p = Some d \<and> path_eq d home)"
proof (cases ns rule: rev_cases)
  case (snoc us f)
  have home: "(\<lambda>home. case path_parent p of None \<Rightarrow> False | Some d \<Rightarrow> path_eq d home)
      = (\<lambda>home. \<exists>d. path_parent p = Some d \<and> path_eq d home)"
    by (auto split: option.splits)
  have grok: "length ns \<ge> 2 \<and> ns ! (length ns - 2) = ''.grok'' \<longleftrightarrow> (\<exists>a. us = a @ [''.grok''])"
    by (cases us rule: rev_cases) (auto simp: snoc nth_append)
  show ?thesis unfolding protected_grok_config_file_def Let_def home grok by (auto simp: snoc)
qed (simp add: protected_grok_config_file_def)

lemma protected_edit_iff: "protected_edit_reason M p \<noteq> None \<longleftrightarrow> protected_place M p"
proof -
  let ?ns = "normal_names p"
  have "protected_edit_reason M p \<noteq> None \<longleftrightarrow>
      protected_grok_hook_root M p ?ns \<or> ends_with ?ns [''.claude'', ''settings.json'']
      \<or> ends_with ?ns [''.claude'', ''settings.local.json''] \<or> ends_with ?ns [''.cursor'', ''hooks.json'']
      \<or> protected_git_hooks_path ?ns \<or> ''.ssh'' \<in> set ?ns
      \<or> (if ?ns = [] then [] else last ?ns) \<in> set STARTUP_FILES
      \<or> protected_grok_config_file M p ?ns \<noteq> None \<or> (path_eq p ''/etc'' \<or> path_starts_with p ''/etc'')"
    unfolding protected_edit_reason_def Let_def by (simp split: option.split)
  also have "(if ?ns = [] then [] else last ?ns) \<in> set STARTUP_FILES \<longleftrightarrow> (\<exists>a f. ?ns = a @ [f] \<and> f \<in> set STARTUP_FILES)"
    by (cases ?ns rule: rev_cases) (auto simp: STARTUP_FILES_def)
  finally show ?thesis
    unfolding protected_place_def protected_names_def protected_grok_hook_root_def protected_git_hooks_path_def
      has_pair_iff modules_iff grok_config_iff ends_pair under_etc
    by (simp only: disj_ac)
qed

text \<open>C20: The protected area has no hole. An edit needs no special confirmation exactly when its target is
  absolute, the target as written, with its dots resolved, is outside the protected area, following
  the symbolic links of the target succeeds, the place it leads to is outside the protected area too
  and not inside what \<open>/etc\<close> leads to. A relative target and one whose links cannot be followed are
  always confirmed.\<close>

theorem edit_protection_exact:
  "edit_target_protection M p = None \<longleftrightarrow>
     is_absolute p \<and> \<not> protected_place M (normalize_lexically p)
     \<and> (\<exists>r root. resolve_following_symlinks (files (base_env M)) p = Some r \<and> \<not> protected_place M r
          \<and> resolve_following_symlinks (files (base_env M)) ''/etc'' = Some root
          \<and> \<not> (\<exists>cs. components r = components root @ cs))"
  unfolding protected_edit_iff [symmetric]
  by (auto simp: edit_target_protection_def resolved_path_is_within_root_def path_starts_with_def strip_prefix_iff
      split: option.splits)

end
