(* ===== verification/Truncation.thy ===== *)
theory Truncation
  imports Interjection Token_Estimation
begin

text \<open>
  Truncation of text (\<open>xai-grok-tools/src/util/truncate.rs\<close>). A string is its bytes; \<open>str_chars\<close> are
  the encodings of its characters, in order.

  The theory shows that every cut falls between characters and keeps what it promises to keep: a cut
  by bytes is the longest prefix of whole characters within the limit, with its marker still within
  it; wrapping a line only inserts line feeds and no piece exceeds the width; a cut in the middle
  uses its budget of characters exactly, down to a budget of three, where it stops cutting.
\<close>

section \<open>Characters\<close>

function str_chars :: "string \<Rightarrow> string list" where
  "str_chars [] = []"
| "str_chars (c # cs) = (c # take (char_len c - 1) cs) # str_chars (drop (char_len c - 1) cs)"
  by pat_completeness auto
termination
  by (relation "measure length") auto

text \<open>\<open>s.char_indices().nth(n)\<close>, the index of a character.\<close>

definition nth_char_index :: "string \<Rightarrow> nat \<Rightarrow> nat option" where
  "nth_char_index s n =
     (if n < length (str_chars s) then Some (length (concat (take n (str_chars s)))) else None)"

section \<open>Cuts by characters\<close>

definition truncate_line :: "string \<Rightarrow> nat \<Rightarrow> string" where
  "truncate_line line max_chars =
     (if length line \<le> max_chars then line
      else (let char_count = length (str_chars line)
            in if char_count \<le> max_chars then line
               else (let end_byte = (case nth_char_index line max_chars of Some i \<Rightarrow> i | None \<Rightarrow> length line)
                     in take end_byte line @ '' [... truncated ('' @ dec_of_nat char_count @ '' chars total)]'')))"

text \<open>The loop of the wrapping; the first argument is the number of characters on the current line.\<close>

fun wrap_from :: "nat \<Rightarrow> nat \<Rightarrow> string list \<Rightarrow> string" where
  "wrap_from k w [] = []"
| "wrap_from k w (ch # chs) =
     (if k \<ge> w then [NL] @ ch @ wrap_from 1 w chs else ch @ wrap_from (k + 1) w chs)"

text \<open>The capacity is computed with a division by the width, which stops the program for a width of zero.\<close>

definition soft_wrap_line :: "string \<Rightarrow> nat \<Rightarrow> string option" where
  "soft_wrap_line line wrap_width =
     (if length line \<le> wrap_width \<or> length (str_chars line) \<le> wrap_width then Some line
      else if wrap_width = 0 then None
      else Some (wrap_from 0 wrap_width (str_chars line)))"

definition soft_wrap_lines :: "string \<Rightarrow> nat \<Rightarrow> string option" where
  "soft_wrap_lines txt0 wrap_width =
     map_option (\<lambda>ls. join [NL] ls @ (if ends_with txt0 [NL] \<and> txt0 \<noteq> [] then [NL] else []))
       (those (map (\<lambda>l. soft_wrap_line l wrap_width) (lines txt0)))"

definition FRONT_BACK_TRUNCATION_MARKER :: string where
  "FRONT_BACK_TRUNCATION_MARKER = [NL, NL] @ ''... (output truncated) ...'' @ [NL, NL]"

definition index_or :: "nat \<Rightarrow> nat option \<Rightarrow> nat" where
  "index_or d i = (case i of Some j \<Rightarrow> j | None \<Rightarrow> d)"

definition truncate_front_and_back :: "string \<Rightarrow> nat \<Rightarrow> string \<times> bool" where
  "truncate_front_and_back s max_chars =
     (if length s \<le> max_chars then (s, False)
      else (let half = max_chars div 2;
                front_end = index_or (length s) (nth_char_index s half);
                total_chars = length (str_chars s);
                back_start = (if total_chars \<le> half then 0 else index_or 0 (nth_char_index s (total_chars - half)))
            in (take front_end s @ FRONT_BACK_TRUNCATION_MARKER @ drop back_start s, True)))"

definition truncate_middle :: "string \<Rightarrow> nat \<Rightarrow> string" where
  "truncate_middle s max_chars =
     (let char_count = length (str_chars s)
      in if char_count \<le> max_chars then s
         else (let remaining = max_chars - 3;
                   front_count = remaining div 2;
                   back_count = remaining - front_count;
                   front_end = index_or (length s) (nth_char_index s front_count);
                   back_start = (if char_count \<le> back_count then 0 else index_or 0 (nth_char_index s (char_count - back_count)))
               in take front_end s @ ''...'' @ drop back_start s))"

section \<open>Cuts by bytes\<close>

text \<open>\<open>while !s.is_char_boundary(end) { end -= 1; }\<close>; index 0 is a boundary.\<close>

fun walk_back :: "string \<Rightarrow> nat \<Rightarrow> nat" where
  "walk_back s 0 = 0"
| "walk_back s (Suc n) = (if is_char_boundary s (Suc n) then Suc n else walk_back s n)"

definition truncate_str :: "string \<Rightarrow> nat \<Rightarrow> string" where
  "truncate_str s max_bytes = (if length s \<le> max_bytes then s else take (walk_back s max_bytes) s)"

text \<open>The marker is one ellipsis character.\<close>

definition TRUNCATION_MARKER :: string where
  "TRUNCATION_MARKER = [CHR 0xE2, CHR 0x80, CHR 0xA6]"

definition truncate_str_with_marker :: "string \<Rightarrow> nat \<Rightarrow> string" where
  "truncate_str_with_marker s max_bytes =
     (if length s \<le> max_bytes then s
      else if length TRUNCATION_MARKER > max_bytes then truncate_str s max_bytes
      else take (walk_back s (max_bytes - length TRUNCATION_MARKER)) s @ TRUNCATION_MARKER)"

definition floor_char_boundary :: "string \<Rightarrow> nat \<Rightarrow> nat" where
  "floor_char_boundary s index = (if index \<ge> length s then length s else walk_back s index)"

function walk_forward :: "string \<Rightarrow> nat \<Rightarrow> nat" where
  "walk_forward s i = (if i < length s \<and> \<not> is_char_boundary s i then walk_forward s (i + 1) else i)"
  by auto
termination
  by (relation "measure (\<lambda>(s, i). length s - i)") auto

declare walk_forward.simps [simp del]

definition ceil_char_boundary :: "string \<Rightarrow> nat \<Rightarrow> nat" where
  "ceil_char_boundary s index = (if index \<ge> length s then length s else walk_forward s index)"

record partial_output =
  output_text :: string
  total_bytes :: nat

definition output_whole :: "string \<Rightarrow> partial_output" where
  "output_whole txt0 = \<lparr>output_text = txt0, total_bytes = length txt0\<rparr>"

definition output_part_of :: "string \<Rightarrow> nat \<Rightarrow> partial_output" where
  "output_part_of txt0 n = \<lparr>output_text = txt0, total_bytes = max n (length txt0)\<rparr>"

definition truncation_footer :: "nat \<Rightarrow> string option \<Rightarrow> string" where
  "truncation_footer n hint = ''[Output truncated - '' @ dec_of_nat n @
     (case hint of Some h \<Rightarrow> '' bytes total. '' @ h @ '']'' | None \<Rightarrow> '' bytes total]'')"

definition truncate_with_preview :: "partial_output \<Rightarrow> nat \<Rightarrow> nat \<Rightarrow> string option \<Rightarrow> string \<times> bool" where
  "truncate_with_preview out max_bytes preview_bytes footer_hint =
     (let txt0 = output_text out; whole = total_bytes out \<le> length txt0;
          footer = truncation_footer (total_bytes out) footer_hint
      in if whole \<and> length txt0 \<le> max_bytes then (txt0, False)
         else if length txt0 \<le> max_bytes then (txt0 @ [NL, NL] @ footer, True)
         else (truncate_str txt0 (min preview_bytes (length txt0)) @ [NL, NL] @ footer, True))"

text \<open>The search for a boundary at or before the budget always succeeds, at index 0 at the latest.\<close>

definition truncate_lines_to_char_budget :: "string \<Rightarrow> nat \<Rightarrow> string \<times> bool" where
  "truncate_lines_to_char_budget content budget =
     (let trimmed = trim content
      in if length trimmed \<le> budget then (trimmed, False)
         else (let safe_end = walk_back trimmed (min budget (length trimmed));
                   truncated = take safe_end trimmed
               in case rev (filter (\<lambda>i. truncated ! i = NL) [0..<length truncated]) of
                    idx # _ \<Rightarrow> (trim (take idx trimmed), True)
                  | [] \<Rightarrow> (''... [First line would be too large to fit within character budget] ...'', True)))"

section \<open>Wrapping keeps the text\<close>

lemma concat_str_chars [simp]: "concat (str_chars s) = s"
  by (induction s rule: str_chars.induct) auto

text \<open>The pieces a wrapped line consists of, as lists of characters.\<close>

fun wrap_pieces :: "nat \<Rightarrow> nat \<Rightarrow> string list \<Rightarrow> string list list" where
  "wrap_pieces k w [] = [[]]"
| "wrap_pieces k w (ch # chs) =
     (if k \<ge> w then [] # (case wrap_pieces 1 w chs of p # ps \<Rightarrow> (ch # p) # ps | [] \<Rightarrow> [])
      else (case wrap_pieces (k + 1) w chs of p # ps \<Rightarrow> (ch # p) # ps | [] \<Rightarrow> []))"

lemma wrap_pieces_not_Nil [simp]: "wrap_pieces k w chs \<noteq> []"
  by (induction k w chs rule: wrap_pieces.induct) (auto split: list.splits)

lemma wrap_pieces_shape:
  "wrap_from k w chs = join [NL] (map concat (wrap_pieces k w chs)) \<and> concat (wrap_pieces k w chs) = chs
   \<and> (0 < w \<longrightarrow> k \<le> w \<longrightarrow> length (hd (wrap_pieces k w chs)) \<le> w - k \<and> (\<forall>p \<in> set (tl (wrap_pieces k w chs)). length p \<le> w))"
proof (induction k w chs rule: wrap_pieces.induct)
  case (2 k w ch chs)
  obtain p ps where p: "wrap_pieces 1 w chs = p # ps" by (meson neq_Nil_conv wrap_pieces_not_Nil)
  obtain q qs where q: "wrap_pieces (k + 1) w chs = q # qs" by (meson neq_Nil_conv wrap_pieces_not_Nil)
  show ?case using 2 p q by (cases ps; cases qs) (auto simp: join_Cons)
qed simp

lemma soft_wrap_pieces:
  assumes "soft_wrap_line l w = Some r"
  shows "\<exists>ps. r = join [NL] (map concat ps) \<and> concat ps = str_chars l \<and> list_all (\<lambda>p. length p \<le> w) ps"
proof (cases "length (str_chars l) \<le> w")
  case True
  then have "r = l" using assms by (auto simp: soft_wrap_line_def split: if_splits)
  then show ?thesis using True by (intro exI [of _ "[str_chars l]"]) simp
next
  case False
  have "length l \<ge> length (str_chars l)"
    by (induction l rule: str_chars.induct) auto
  then have r: "r = wrap_from 0 w (str_chars l)" and w: "0 < w"
    using assms False by (auto simp: soft_wrap_line_def split: if_splits)
  let ?ps = "wrap_pieces 0 w (str_chars l)"
  have "list_all (\<lambda>p. length p \<le> w) ?ps"
    using wrap_pieces_shape [of 0 w "str_chars l"] w by (cases ?ps) (auto simp: list_all_iff)
  then show ?thesis using r wrap_pieces_shape [of 0 w "str_chars l"] by blast
qed

text \<open>Wrapping a line loses nothing and meets the width. It fails exactly for a width of zero and a
  non-empty line; otherwise the result is the characters of the line, in order and all of them, cut
  into pieces of at most the width that are joined by line feeds.\<close>

theorem soft_wrap_keeps_text:
  "(soft_wrap_line l w = None \<longleftrightarrow> w = 0 \<and> l \<noteq> [])
   \<and> (case soft_wrap_line l w of
        None \<Rightarrow> True
      | Some r \<Rightarrow> \<exists>ps. r = join [NL] (map concat ps) \<and> concat ps = str_chars l \<and> list_all (\<lambda>p. length p \<le> w) ps)"
proof -
  have "str_chars l = [] \<longleftrightarrow> l = []" by (cases l) auto
  then have "soft_wrap_line l w = None \<longleftrightarrow> w = 0 \<and> l \<noteq> []" by (auto simp: soft_wrap_line_def)
  then show ?thesis using soft_wrap_pieces [of l w] by (simp split: option.split)
qed

section \<open>Cuts\<close>

lemma boundary_0 [simp]: "is_char_boundary s 0"
  by (simp add: is_char_boundary_def)

lemma walk_back_spec: "is_char_boundary s (walk_back s n) \<and> walk_back s n \<le> n
    \<and> (\<forall>j \<le> n. is_char_boundary s j \<longrightarrow> j \<le> walk_back s n)"
  by (induction n) (auto simp: le_Suc_eq)

lemma walk_back_Max:
  assumes "n \<le> length s"
  shows "walk_back s n = Max {j. j \<le> min n (length s) \<and> is_char_boundary s j}"
  using walk_back_spec [of s n] assms
  by (intro Max_eqI [symmetric]) (auto intro: finite_subset [of _ "{..n}"])

lemma truncate_str_Max:
  "truncate_str s n = take (Max {j. j \<le> min n (length s) \<and> is_char_boundary s j}) s"
proof (cases "length s \<le> n")
  case True
  then have "Max {j. j \<le> min n (length s) \<and> is_char_boundary s j} = length s"
    by (intro Max_eqI) (auto simp: is_char_boundary_def intro: finite_subset [of _ "{..length s}"])
  then show ?thesis using True by (simp add: truncate_str_def)
qed (simp add: truncate_str_def walk_back_Max)

lemma take_chars: "take (length (concat (take n (str_chars s)))) s = concat (take n (str_chars s))"
proof -
  have "concat (take n (str_chars s)) @ concat (drop n (str_chars s)) = s"
    by (simp flip: concat_append)
  then show ?thesis by (metis append_eq_conv_conj)
qed

lemma drop_chars: "drop (length (concat (take n (str_chars s)))) s = concat (drop n (str_chars s))"
proof -
  have "concat (take n (str_chars s)) @ concat (drop n (str_chars s)) = s"
    by (simp flip: concat_append)
  then show ?thesis by (metis append_eq_conv_conj)
qed

lemma nth_char_index_Some: "n < length (str_chars s) \<Longrightarrow> nth_char_index s n = Some (length (concat (take n (str_chars s))))"
  by (simp add: nth_char_index_def)

lemma truncate_line_shape:
  "truncate_line s n = (if length (str_chars s) \<le> n then s
     else concat (take n (str_chars s)) @ '' [... truncated ('' @ dec_of_nat (length (str_chars s)) @ '' chars total)]'')"
proof -
  have "length (str_chars s) \<le> length s" by (induction s rule: str_chars.induct) auto
  then show ?thesis by (simp add: truncate_line_def nth_char_index_Some take_chars)
qed

lemma truncate_middle_shape:
  assumes "n < length (str_chars s)"
  shows "truncate_middle s n =
    (if n \<le> 3 then ''...'' @ s
     else concat (take ((n - 3) div 2) (str_chars s)) @ ''...''
       @ concat (drop (length (str_chars s) - ((n - 3) - (n - 3) div 2)) (str_chars s)))"
proof (cases "n \<le> 3")
  case True
  moreover have "str_chars s \<noteq> []" using assms by auto
  ultimately show ?thesis using assms by (simp add: truncate_middle_def nth_char_index_def index_or_def)
next
  case False
  let ?cs = "str_chars s" and ?f = "(n - 3) div 2"
  have f: "nth_char_index s ?f = Some (length (concat (take ?f ?cs)))"
    using assms by (intro nth_char_index_Some) linarith
  have "length ?cs - ((n - 3) - ?f) < length ?cs" using assms False by (auto simp: less_diff_conv)
  then have b: "nth_char_index s (length ?cs - ((n - 3) - ?f)) = Some (length (concat (take (length ?cs - ((n - 3) - ?f)) ?cs)))"
    by (rule nth_char_index_Some)
  show ?thesis
    using assms False unfolding truncate_middle_def Let_def f b index_or_def by (auto simp: take_chars drop_chars)
qed

text \<open>Where a text is cut. A cut by bytes keeps the longest prefix of whole characters within the
  limit, and with its marker it is still within the limit. A line is cut after as many characters as
  the limit says. A cut in the middle keeps the first and the last characters and, with its marker,
  uses the budget exactly, if the budget is above three; below that it returns the marker and the
  whole text.\<close>

theorem cuts_between_characters:
  "truncate_str s n = take (Max {j. j \<le> min n (length s) \<and> is_char_boundary s j}) s
   \<and> length (truncate_str s n) \<le> n \<and> length (truncate_str_with_marker s n) \<le> n
   \<and> truncate_line s n = (if length (str_chars s) \<le> n then s
       else concat (take n (str_chars s)) @ '' [... truncated ('' @ dec_of_nat (length (str_chars s)) @ '' chars total)]'')
   \<and> truncate_middle s n = (if length (str_chars s) \<le> n then s
       else if n \<le> 3 then ''...'' @ s
       else concat (take ((n - 3) div 2) (str_chars s)) @ ''...''
         @ concat (drop (length (str_chars s) - ((n - 3) - (n - 3) div 2)) (str_chars s)))"
proof -
  have le: "length (truncate_str s n) \<le> n"
    using walk_back_spec [of s n] by (simp add: truncate_str_def)
  moreover have "length (truncate_str_with_marker s n) \<le> n"
    using le walk_back_spec [of s "n - 3"]
    by (auto simp: truncate_str_with_marker_def TRUNCATION_MARKER_def numeral_3_eq_3)
  moreover have "length (str_chars s) \<le> n \<Longrightarrow> truncate_middle s n = s" by (simp add: truncate_middle_def)
  ultimately show ?thesis
    unfolding truncate_str_Max [symmetric] truncate_line_shape
    using truncate_middle_shape [of n s] by (auto simp: not_le)
qed

text \<open>The cut of the front and the back compares the number of bytes with a limit in characters, so a
  text of six two-byte characters is cut at a limit of ten into five and five of them; and a limit of
  one keeps the whole text behind the marker.\<close>

lemma front_and_back_overlap:
  "truncate_front_and_back (concat (replicate 6 [CHR 0xC3, CHR 0xA9])) 10
     = (concat (replicate 5 [CHR 0xC3, CHR 0xA9]) @ FRONT_BACK_TRUNCATION_MARKER @ concat (replicate 5 [CHR 0xC3, CHR 0xA9]), True)"
  "truncate_front_and_back ''abc'' 1 = (FRONT_BACK_TRUNCATION_MARKER @ ''abc'', True)"
  by code_simp+

end
