(* ===== verification/Permission_Manager.thy ===== *)
theory Permission_Manager
  imports File_Gate Protected_Edits Auto_Classifier
begin

text \<open>
  The permission manager (\<open>permission/manager/mod.rs\<close>, \<open>permission/gate_preflight.rs\<close>, the outcomes of
  \<open>permission/prompter.rs\<close>): one actor that answers permission requests in the order they arrive.

  A request is decided by a chain of stages, each of which settles it or passes it on: the policy, the
  always-approve mode, remembered answers, allow rules in automatic mode, the classifier, the sandbox,
  the policy again, remembered answers again, the prompt policy, and at last the user. What happens
  outside while a request is handled (the requester going away, the store changed by another session,
  the classifier's reply, the user's answer) is a record that the handler takes as an argument.

  The theory shows that no mode overrides a deny rule, that a question a hook or a rule asks for is
  put to the user or refused, that only an answer of the user or a reset changes what is remembered,
  and, for every sequence of commands, that the modes exclude each other, that a pinned always-approve
  mode stays off and that the counters stay within their limits.
\<close>

section \<open>The gates, evaluated once\<close>

record gate_preflight =
  direct :: "decision option"
  bash_command_gate :: "gate_decision option"
  shell_file_gate :: "gate_decision option"
  native_symlink_fail_closed :: bool
  defers_gate_ask :: bool

definition preflight_evaluate ::
  "permission_env \<Rightarrow> compiled_policy option \<Rightarrow> access_kind \<Rightarrow> string \<Rightarrow> bool \<Rightarrow> gate_preflight" where
  "preflight_evaluate E policy acc cwd auto_mode =
     (let (direct0, symlink) = (case policy of
            Some P \<Rightarrow> evaluate_with_cwd_details E P acc (Some cwd) | None \<Rightarrow> (None, False));
          (bash, file) = (case (policy, acc) of
            (Some P, Access_Bash cmd) \<Rightarrow> (evaluate_bash_command_gate E P cmd, evaluate_shell_file_access_gate E P cmd cwd)
          | _ \<Rightarrow> (None, None));
          rule_match_ask = (direct0 = Some Ask \<or> bash = Some AskRuleMatch \<or> file = Some AskRuleMatch);
          fail_closed_ask = (bash = Some AskFailClosed \<or> file = Some AskFailClosed)
      in \<lparr>direct = direct0, bash_command_gate = bash, shell_file_gate = file, native_symlink_fail_closed = symlink,
          defers_gate_ask = (auto_mode \<and> fail_closed_ask \<and> \<not> rule_match_ask)\<rparr>)"

definition policy_decision :: "gate_preflight \<Rightarrow> decision option" where
  "policy_decision pf = combine_decisions
     (combine_decisions (direct pf) (map_option into_decision (bash_command_gate pf)))
     (map_option into_decision (shell_file_gate pf))"

definition policy_forced_prompt :: "gate_preflight \<Rightarrow> bool" where
  "policy_forced_prompt pf \<longleftrightarrow> policy_decision pf = Some Ask"

definition gate_asks :: "gate_decision option \<Rightarrow> bool" where
  "gate_asks g = (case g of None \<Rightarrow> False | Some d \<Rightarrow> gate_is_ask d)"

definition shell_file_forced_prompt :: "gate_preflight \<Rightarrow> bool" where
  "shell_file_forced_prompt pf = gate_asks (shell_file_gate pf)"

definition shell_forced_prompt :: "gate_preflight \<Rightarrow> bool" where
  "shell_forced_prompt pf \<longleftrightarrow>
     gate_asks (bash_command_gate pf) \<or> shell_file_forced_prompt pf \<or> native_symlink_fail_closed pf"

definition admits_auto_classifier :: "gate_preflight \<Rightarrow> bool" where
  "admits_auto_classifier pf \<longleftrightarrow> \<not> policy_forced_prompt pf \<or> defers_gate_ask pf"

definition prompt_trigger :: "gate_preflight \<Rightarrow> decision_reason option \<Rightarrow> decision_reason option" where
  "prompt_trigger pf auto_prompt_reason =
     (if direct pf = Some Ask then Some R_POLICY_ASK
      else if defers_gate_ask pf then auto_prompt_reason
      else if gate_asks (bash_command_gate pf) then Some R_BASH_COMMAND_GATE_ASK
      else if shell_file_forced_prompt pf then Some R_SHELL_FILE_GATE_ASK
      else auto_prompt_reason)"

section \<open>Answers of the user\<close>

datatype prompt_outcome =
    AllowOnce | AllowAlways | AllowEditsForSession | AllowAlwaysBashCommand string | AllowAlwaysBashGlob string
  | AllowAlwaysDomain string | AllowAlwaysMcpTool string | AllowAlwaysMcpServer string
  | RejectOnce | RejectAlwaysBashCommand string | RejectAlwaysMcpTool string | RejectAlwaysDomain string
  | Prompt_Cancelled | Prompt_Followup string | Prompt_Error string

datatype prompt_outcome_kind =
    Out_AllowOnce | Out_AllowAlways | Out_AllowEditsForSession | Out_AllowAlwaysBash | Out_AllowAlwaysBashGlob
  | Out_AllowAlwaysDomain | Out_AllowAlwaysMcpTool | Out_AllowAlwaysMcpServer | Out_RejectOnce | Out_RejectAlwaysBash
  | Out_RejectAlwaysMcpTool | Out_RejectAlwaysDomain | Out_Cancelled | Out_Followup | Out_Error

fun outcome_wire_str :: "prompt_outcome_kind \<Rightarrow> string" where
  "outcome_wire_str Out_AllowOnce = ''allow_once''"
| "outcome_wire_str Out_AllowAlways = ''allow_always''"
| "outcome_wire_str Out_AllowEditsForSession = ''allow_edits_for_session''"
| "outcome_wire_str Out_AllowAlwaysBash = ''allow_always_bash''"
| "outcome_wire_str Out_AllowAlwaysBashGlob = ''allow_always_bash_glob''"
| "outcome_wire_str Out_AllowAlwaysDomain = ''allow_always_domain''"
| "outcome_wire_str Out_AllowAlwaysMcpTool = ''allow_always_mcp_tool''"
| "outcome_wire_str Out_AllowAlwaysMcpServer = ''allow_always_mcp_server''"
| "outcome_wire_str Out_RejectOnce = ''reject_once''"
| "outcome_wire_str Out_RejectAlwaysBash = ''reject_always_bash''"
| "outcome_wire_str Out_RejectAlwaysMcpTool = ''reject_always_mcp_tool''"
| "outcome_wire_str Out_RejectAlwaysDomain = ''reject_always_domain''"
| "outcome_wire_str Out_Cancelled = ''cancelled''"
| "outcome_wire_str Out_Followup = ''followup''"
| "outcome_wire_str Out_Error = ''error''"

fun outcome_kind :: "prompt_outcome \<Rightarrow> prompt_outcome_kind" where
  "outcome_kind AllowOnce = Out_AllowOnce"
| "outcome_kind AllowAlways = Out_AllowAlways"
| "outcome_kind AllowEditsForSession = Out_AllowEditsForSession"
| "outcome_kind (AllowAlwaysBashCommand _) = Out_AllowAlwaysBash"
| "outcome_kind (AllowAlwaysBashGlob _) = Out_AllowAlwaysBashGlob"
| "outcome_kind (AllowAlwaysDomain _) = Out_AllowAlwaysDomain"
| "outcome_kind (AllowAlwaysMcpTool _) = Out_AllowAlwaysMcpTool"
| "outcome_kind (AllowAlwaysMcpServer _) = Out_AllowAlwaysMcpServer"
| "outcome_kind RejectOnce = Out_RejectOnce"
| "outcome_kind (RejectAlwaysBashCommand _) = Out_RejectAlwaysBash"
| "outcome_kind (RejectAlwaysMcpTool _) = Out_RejectAlwaysMcpTool"
| "outcome_kind (RejectAlwaysDomain _) = Out_RejectAlwaysDomain"
| "outcome_kind Prompt_Cancelled = Out_Cancelled"
| "outcome_kind (Prompt_Followup _) = Out_Followup"
| "outcome_kind (Prompt_Error _) = Out_Error"

definition SEND_SUBAGENT_MESSAGE_TOOL_NAME :: string where
  "SEND_SUBAGENT_MESSAGE_TOOL_NAME = ''send_subagent_message''"

fun tool_name_for_access :: "access_kind \<Rightarrow> string" where
  "tool_name_for_access (Access_Read _) = ''read_file''"
| "tool_name_for_access (Access_Grep _ _) = ''grep''"
| "tool_name_for_access (Access_Edit _) = ''search_replace''"
| "tool_name_for_access (Access_Bash _) = ''run_terminal_command''"
| "tool_name_for_access (Access_MCPTool name _) = ''mcp:'' @ name"
| "tool_name_for_access (Access_WebFetch _) = ''web_fetch''"
| "tool_name_for_access (Access_WebSearch _) = ''web_search''"
| "tool_name_for_access (Access_AgentMessage _) = SEND_SUBAGENT_MESSAGE_TOOL_NAME"

section \<open>State of the actor\<close>

text \<open>A classifier is a function of the occasion, since asking a model twice may give two answers.\<close>

type_synonym classifier =
  "nat \<Rightarrow> string \<Rightarrow> access_kind \<Rightarrow> string option \<Rightarrow> classifier_context \<Rightarrow> classifier_outcome"

record actor_env =
  mgr_env :: manager_env
  clf_env :: classifier_env

definition default_auto_mode_classifier :: "actor_env \<Rightarrow> classifier" where
  "default_auto_mode_classifier A = (\<lambda>_. llm_classify (clf_env A) production_default)"

record manager_config =
  cfg_cwd :: string
  cfg_store_dir :: string
  cfg_legacy_dir :: "string option"
  cfg_writer :: writer
  cfg_client_id :: "string option"
  cfg_client_type :: client_type
  cfg_prompt_policy :: prompt_policy
  cfg_policy :: "compiled_policy option"
  cfg_yolo_pin :: "string option"
  cfg_remember_tool_approvals :: bool
  cfg_static_domains :: domain_matcher
  cfg_allowlist_is_default :: bool

record manager =
  mgr_state :: permission_state
  mgr_disk :: disk
  yolo_mode :: bool
  auto_mode :: bool
  auto_classifier :: "classifier option"
  auto_consecutive_denials :: nat
  auto_total_denials :: nat
  classifier_turns :: "classifier_turn list"
  recorded_permission_decisions :: "classifier_turn list"
  mgr_instructions :: "string option"
  pin_refusal_logged :: bool
  allow_edits_for_session :: bool

definition AUTO_DENY_CONSECUTIVE_LIMIT :: nat where "AUTO_DENY_CONSECUTIVE_LIMIT = 3"
definition AUTO_DENY_TOTAL_LIMIT :: nat where "AUTO_DENY_TOTAL_LIMIT = 20"
definition MAX_RECORDED_PERMISSION_DECISIONS :: nat where "MAX_RECORDED_PERMISSION_DECISIONS = 12"

definition AUTO_DENY_GUIDANCE :: string where
  "AUTO_DENY_GUIDANCE = ''Take a safer approach that stays within what the user asked for; do not retry this exact action or attempt to work around the denial. If no safer alternative exists, ask the user how to proceed.''"

definition clamp_yolo :: "bool \<Rightarrow> string option \<Rightarrow> bool" where
  "clamp_yolo requested yolo_pin \<longleftrightarrow> requested \<and> yolo_pin = None"

definition persist :: "manager_config \<Rightarrow> permission_state \<Rightarrow> disk \<Rightarrow> disk" where
  "persist C s D = persist_state (cfg_writer C) (cfg_store_dir C) s (cfg_client_id C) D"

text \<open>The start of the actor. An old state may still hold a blanket permission for edits, which is withdrawn.\<close>

definition spawn_permission_manager_with_pin :: "actor_env \<Rightarrow> manager_config \<Rightarrow> bool \<Rightarrow> disk \<Rightarrow> manager" where
  "spawn_permission_manager_with_pin A C initial_yolo0 D =
     (let initial_yolo = clamp_yolo initial_yolo0 (cfg_yolo_pin C);
          (loaded, D1) = load_state_with_fallback (cfg_writer C) (cfg_store_dir C) (cfg_legacy_dir C) (cfg_client_id C) D;
          s = (if edit_policy_of loaded = Edit_Allow then loaded\<lparr>edit_policy_of := Edit_Ask\<rparr> else loaded)
      in \<lparr>mgr_state = s, mgr_disk = (if edit_policy_of loaded = Edit_Allow then persist C s D1 else D1),
          yolo_mode = initial_yolo, auto_mode = (\<not> initial_yolo \<and> cfg_prompt_policy C = Prompt_Auto),
          auto_classifier = Some (default_auto_mode_classifier A),
          auto_consecutive_denials = 0, auto_total_denials = 0, classifier_turns = [], recorded_permission_decisions = [],
          mgr_instructions = None, pin_refusal_logged = False, allow_edits_for_session = False\<rparr>)"

section \<open>A request and what happens around it\<close>

record permission_request =
  access :: access_kind
  path_context :: "(string \<times> string option) option"
  request_hook :: "hook_ask option"

text \<open>The world while a request is handled: whether the requester has gone, at each point at which the
  actor looks; the store as another session left it, when it changed; whether the scan of the git
  configuration died; the occasion of the classification and the time it took; the sandbox; the
  answer of the user, which is \<open>Prompt_Cancelled\<close> when the requester goes while the prompt is open.\<close>

record world =
  gone_at_dequeue :: bool
  reloaded :: "permission_state option"
  scan_died :: bool
  gone_after_scan :: bool
  occasion :: nat
  gone_in_classify :: bool
  classify_ms :: nat
  sandbox_active :: bool
  gone_before_prompt :: bool
  prompt_answer :: prompt_outcome
  gone_after_prompt :: bool

datatype classification_source = Source_Classifier classifier_source | Source_NotWired

fun classification_kind :: "classification_source \<Rightarrow> classifier_source_kind" where
  "classification_kind (Source_Classifier s) = source_kind s"
| "classification_kind Source_NotWired = Kind_NotWired"

record classification_outcome =
  cls_verdict :: classifier_verdict
  cls_source :: classification_source
  cls_latency_ms :: "nat option"

datatype request_classification =
    NotClassified
  | Class_FastPath
  | Classified assessment "classification_outcome option"

fun cls_classifier_source :: "request_classification \<Rightarrow> classifier_source_kind option" where
  "cls_classifier_source NotClassified = None"
| "cls_classifier_source Class_FastPath = Some Kind_FastPath"
| "cls_classifier_source (Classified _ out) = map_option (\<lambda>o0. classification_kind (cls_source o0)) out"

fun cls_classifier_verdict :: "request_classification \<Rightarrow> classifier_verdict option" where
  "cls_classifier_verdict (Classified _ out) = map_option cls_verdict out"
| "cls_classifier_verdict _ = None"

fun cls_classifier_latency_ms :: "request_classification \<Rightarrow> nat option" where
  "cls_classifier_latency_ms (Classified _ (Some o0)) = cls_latency_ms o0"
| "cls_classifier_latency_ms _ = None"

fun cls_security_findings_tokens :: "request_classification \<Rightarrow> string list option" where
  "cls_security_findings_tokens (Classified found _) = Some (finding_tokens found)"
| "cls_security_findings_tokens _ = None"

datatype permission_mode = Mode_AlwaysApprove | Mode_Auto | Mode_Ask

fun permission_mode_artifact_str :: "permission_mode \<Rightarrow> string" where
  "permission_mode_artifact_str Mode_AlwaysApprove = ''always-approve''"
| "permission_mode_artifact_str Mode_Auto = ''auto''"
| "permission_mode_artifact_str Mode_Ask = ''ask''"

definition permission_mode_of :: "manager \<Rightarrow> permission_mode" where
  "permission_mode_of m = (if yolo_mode m then Mode_AlwaysApprove else if auto_mode m then Mode_Auto else Mode_Ask)"

fun access_detail_of :: "actor_env \<Rightarrow> access_kind \<Rightarrow> string option" where
  "access_detail_of A (Access_Read _) = None"
| "access_detail_of A (Access_Grep path _) = path"
| "access_detail_of A (Access_Edit path) = Some path"
| "access_detail_of A (Access_Bash cmd) = Some cmd"
| "access_detail_of A (Access_MCPTool name input) = Some (mcp_access_detail (clf_env A) name input)"
| "access_detail_of A (Access_WebFetch url) = Some url"
| "access_detail_of A (Access_WebSearch query) = Some query"
| "access_detail_of A (Access_AgentMessage i) = Some i"

record permission_event =
  ev_tool_name :: string
  ev_access_kind :: string
  ev_access_detail :: "string option"
  ev_yolo_mode :: bool
  ev_auto_approved :: bool
  ev_user_prompted :: bool
  ev_decision :: string
  ev_prompt_outcome :: "string option"
  ev_reject_reason :: "string option"
  ev_permission_mode :: string
  ev_decision_reason :: decision_reason
  ev_classifier_source :: "string option"
  ev_classifier_latency_ms :: "nat option"
  ev_denials :: "(nat \<times> nat) option"
  ev_security_findings :: "string list option"
  ev_classifier_verdict :: "string option"

fun decision_str :: "decision \<Rightarrow> string \<times> string option" where
  "decision_str Allow = (''allow'', None)"
| "decision_str Ask = (''ask'', None)"
| "decision_str (Reject rsn) = (''reject'', Some rsn)"
| "decision_str (PolicyDeny rsn) = (''reject'', Some rsn)"
| "decision_str (FollowupMessage _) = (''followup'', None)"
| "decision_str Cancelled = (''cancelled'', None)"

definition emit_event ::
  "actor_env \<Rightarrow> manager \<Rightarrow> access_kind \<Rightarrow> request_classification \<Rightarrow> nat \<times> nat
     \<Rightarrow> decision \<Rightarrow> bool \<Rightarrow> bool \<Rightarrow> string option \<Rightarrow> decision_reason \<Rightarrow> permission_event" where
  "emit_event A m acc cls denials d auto_approved user_prompted outcome rsn =
     \<lparr>ev_tool_name = tool_name_for_access acc, ev_access_kind = access_kind_str acc,
      ev_access_detail = access_detail_of A acc, ev_yolo_mode = yolo_mode m,
      ev_auto_approved = auto_approved, ev_user_prompted = user_prompted, ev_decision = fst (decision_str d),
      ev_prompt_outcome = outcome, ev_reject_reason = snd (decision_str d),
      ev_permission_mode = permission_mode_artifact_str (permission_mode_of m), ev_decision_reason = rsn,
      ev_classifier_source = map_option source_wire_str (cls_classifier_source cls),
      ev_classifier_latency_ms = cls_classifier_latency_ms cls,
      ev_denials = (if auto_mode m then Some denials else None),
      ev_security_findings = cls_security_findings_tokens cls,
      ev_classifier_verdict = map_option verdict_wire_str (cls_classifier_verdict cls)\<rparr>"

section \<open>The facts of a request\<close>

record request_facts =
  f_access :: access_kind
  f_state :: permission_state
  f_evaluation :: "bash_evaluation option"
  f_protected :: "protection_reason option"
  f_preflight :: gate_preflight
  f_hook :: bool

definition request_cwd :: "manager_config \<Rightarrow> permission_request \<Rightarrow> string" where
  "request_cwd C rq = (case path_context rq of Some (real_cwd, _) \<Rightarrow> real_cwd | None \<Rightarrow> cfg_cwd C)"

definition reads_store :: "access_kind \<Rightarrow> bool" where
  "reads_store acc = (case acc of Access_Bash _ \<Rightarrow> True | Access_MCPTool _ _ \<Rightarrow> True | Access_WebFetch _ \<Rightarrow> True | _ \<Rightarrow> False)"

definition refreshed_state :: "world \<Rightarrow> access_kind \<Rightarrow> permission_state \<Rightarrow> permission_state" where
  "refreshed_state w acc s = (case reloaded w of
     Some fresh \<Rightarrow> if reads_store acc then merge_grants_from s fresh else s | None \<Rightarrow> s)"

text \<open>The evaluation of a shell command; the flag says whether the directories in which it runs \<open>git\<close> were
  scanned. A scan that dies counts as risk.\<close>

definition evaluate_request_bash ::
  "manager_env \<Rightarrow> world \<Rightarrow> permission_state \<Rightarrow> string \<Rightarrow> access_kind \<Rightarrow> bash_evaluation option \<times> bool" where
  "evaluate_request_bash M w s cwd acc = (case acc of
     Access_Bash cmd \<Rightarrow>
       (let ev = evaluate_bash (base_env M) cmd s True
        in case ambient_segments ev of
             None \<Rightarrow> (Some ev, False)
           | Some raw \<Rightarrow>
               (let plan = ambient_scan_plan_from_segments raw cwd;
                    risk = (case plan of
                        Plan_FailClosed \<Rightarrow> True
                      | CheckDirs _ \<Rightarrow> scan_died w \<or> ambient_exec_risk_from_plan (git M) plan);
                    ev' = ev\<lparr>ambient_segments := None\<rparr>
                in (Some (if risk then ev'\<lparr>findings := insert ExecOrAmbientGit (findings ev')\<rparr> else ev'), True)))
   | _ \<Rightarrow> (None, False))"

definition resolve_for_request :: "manager_env \<Rightarrow> manager_config \<Rightarrow> permission_request \<Rightarrow> string \<Rightarrow> string" where
  "resolve_for_request M C rq path = (case path_context rq of
     Some (real_cwd, display_cwd) \<Rightarrow> resolve_model_path M real_cwd display_cwd path
   | None \<Rightarrow> resolve_model_path M (cfg_cwd C) None path)"

definition protected_edit_of ::
  "manager_env \<Rightarrow> manager_config \<Rightarrow> permission_request \<Rightarrow> bash_evaluation option \<Rightarrow> protection_reason option" where
  "protected_edit_of M C rq ev = (case access rq of
     Access_Edit path \<Rightarrow> edit_target_protection M (resolve_for_request M C rq path)
   | Access_Bash _ \<Rightarrow> (case ev of
       None \<Rightarrow> None
     | Some e \<Rightarrow>
         if has_cwd_change e \<and> list_ex (\<lambda>p. \<not> is_absolute p) (eval_creation_paths e) then Some Sensitive
         else find_map (\<lambda>path. edit_target_protection M (resolve_for_request M C rq path)) (eval_creation_paths e))
   | _ \<Rightarrow> None)"

text \<open>\<open>None\<close> when the requester has gone.\<close>

definition request_facts_of :: "actor_env \<Rightarrow> manager_config \<Rightarrow> world \<Rightarrow> manager \<Rightarrow> permission_request \<Rightarrow> permission_state \<times> request_facts option" where
  "request_facts_of A C w m rq =
     (let M = mgr_env A; acc = access rq; cwd = request_cwd C rq; s = refreshed_state w acc (mgr_state m);
          (ev, scanned) = evaluate_request_bash M w s cwd acc
      in (s, if scanned \<and> gone_after_scan w then None
             else Some \<lparr>f_access = acc, f_state = s, f_evaluation = ev, f_protected = protected_edit_of M C rq ev,
                        f_preflight = preflight_evaluate (base_env M) (cfg_policy C) acc cwd (auto_mode m),
                        f_hook = (request_hook rq \<noteq> None)\<rparr>))"

section \<open>The stages of a decision\<close>

type_synonym settled = "decision \<times> decision_reason \<times> bool"

definition pre_classifier_forced_prompt :: "request_facts \<Rightarrow> bool" where
  "pre_classifier_forced_prompt f \<longleftrightarrow>
     policy_forced_prompt (f_preflight f) \<or> shell_forced_prompt (f_preflight f) \<or> f_hook f"

definition narrow_allowed :: "manager_env \<Rightarrow> manager_config \<Rightarrow> access_kind \<Rightarrow> bool" where
  "narrow_allowed M C acc = (case cfg_policy C of None \<Rightarrow> False | Some P \<Rightarrow> narrow_allow_authorizes (base_env M) P acc)"

definition remembered_stage :: "manager_env \<Rightarrow> manager_config \<Rightarrow> manager \<Rightarrow> request_facts \<Rightarrow> settled option" where
  "remembered_stage M C m f =
     (if \<not> pre_classifier_forced_prompt f \<and> f_protected f = None
      then map_option (\<lambda>(d, rsn). (d, rsn, True))
        (session_grant_pre_decision M (f_access f) (f_evaluation f) (f_state f) (allow_edits_for_session m)
           (cfg_static_domains C) (\<not> (auto_mode m \<and> cfg_allowlist_is_default C)) (cfg_yolo_pin C))
      else None)"

definition auto_policy_allows :: "manager_env \<Rightarrow> manager_config \<Rightarrow> manager \<Rightarrow> request_facts \<Rightarrow> bool" where
  "auto_policy_allows M C m f \<longleftrightarrow> auto_mode m \<and> \<not> pre_classifier_forced_prompt f \<and> f_protected f = None
     \<and> policy_decision (f_preflight f) = Some Allow
     \<and> (bash_assessment_is_clear (f_evaluation f)
        \<or> \<not> bash_request_floor_requires_prompt (f_evaluation f) \<and> narrow_allowed M C (f_access f))"

definition early_stage :: "manager_env \<Rightarrow> manager_config \<Rightarrow> manager \<Rightarrow> request_facts \<Rightarrow> settled option" where
  "early_stage M C m f =
     (case policy_decision (f_preflight f) of
        Some (Reject rsn) \<Rightarrow> Some (PolicyDeny rsn, R_POLICY_DENY, False)
      | _ \<Rightarrow>
          if yolo_mode m \<and> \<not> shell_forced_prompt (f_preflight f) \<and> \<not> f_hook f then Some (Allow, R_YOLO, True)
          else case remembered_stage M C m f of
            Some r \<Rightarrow> Some r
          | None \<Rightarrow> if auto_policy_allows M C m f then Some (Allow, R_POLICY_ALLOW, True) else None)"

text \<open>The automatic mode. It settles the request, or the requester goes, or it passes the request on,
  possibly with a prompt forced, and with the counters of denials.\<close>

datatype auto_result =
    Auto_Settled decision decision_reason bool request_classification "nat \<times> nat"
  | Auto_Gone request_classification
  | Auto_Pass bool "decision_reason option" request_classification "nat \<times> nat"

definition auto_deny_text :: "string option \<Rightarrow> string" where
  "auto_deny_text rsn = (case rsn of
     Some r \<Rightarrow> ''Auto mode blocked this action ('' @ trim_end_matches (CHR ''.'') r @ ''). '' @ AUTO_DENY_GUIDANCE
   | None \<Rightarrow> ''Auto mode blocked this action. '' @ AUTO_DENY_GUIDANCE)"

definition verdict_stage ::
  "manager_config \<Rightarrow> bool \<Rightarrow> request_classification \<Rightarrow> nat \<times> nat \<Rightarrow> classifier_verdict \<Rightarrow> classifier_outcome option \<Rightarrow> auto_result" where
  "verdict_stage C hook cls denials v out = (case v of
     Verdict_Allow \<Rightarrow>
       if hook then Auto_Pass False None cls (0, snd denials)
       else Auto_Settled Allow R_AUTO_CLASSIFIER_ALLOW True cls (0, snd denials)
   | Verdict_Block \<Rightarrow>
       if can_present_permission_prompt (cfg_client_type C) then Auto_Pass True (Some R_AUTO_CLASSIFIER_DENY) cls denials
       else if fst denials < AUTO_DENY_CONSECUTIVE_LIMIT \<and> snd denials < AUTO_DENY_TOTAL_LIMIT
       then Auto_Settled (PolicyDeny (auto_deny_text (Option.bind out outcome_reason))) R_AUTO_CLASSIFIER_DENY False cls
              (fst denials + 1, snd denials + 1)
       else Auto_Pass True (Some R_AUTO_DENIAL_LIMIT) cls denials
   | Verdict_Unavailable \<Rightarrow>
       Auto_Pass True (Some (if (case out of Some o0 \<Rightarrow> outcome_is_timeout o0 | None \<Rightarrow> False)
         then R_AUTO_CLASSIFIER_TIMEOUT else R_AUTO_CLASSIFIER_UNAVAILABLE)) cls denials)"

definition classify_stage ::
  "actor_env \<Rightarrow> manager_config \<Rightarrow> world \<Rightarrow> manager \<Rightarrow> request_facts \<Rightarrow> nat \<times> nat \<Rightarrow> auto_result" where
  "classify_stage A C w m f denials =
     (let acc = f_access f;
          found = classifier_assessment (f_evaluation f) (defers_gate_ask (f_preflight f));
          completed = (\<lambda>out. verdict_stage C (f_hook f)
            (Classified found (Some \<lparr>cls_verdict = outcome_verdict out, cls_source = Source_Classifier (outcome_source out),
               cls_latency_ms = Some (classify_ms w)\<rparr>)) denials (outcome_verdict out) (Some out))
      in case auto_classifier m of
           Some clf \<Rightarrow>
             if gone_in_classify w then Auto_Gone (Classified found None)
             else completed (clf (occasion w) (tool_name_for_access acc) acc (access_detail_of A acc)
               \<lparr>turns = classifier_turns m @ recorded_permission_decisions m,
                project_instructions = mgr_instructions m, security_findings = found\<rparr>)
         | None \<Rightarrow>
             (case acc of
                Access_AgentMessage _ \<Rightarrow> completed (outcome_heuristic Verdict_Block)
              | _ \<Rightarrow> verdict_stage C (f_hook f)
                  (Classified found (Some \<lparr>cls_verdict = Verdict_Unavailable, cls_source = Source_NotWired, cls_latency_ms = None\<rparr>))
                  denials Verdict_Unavailable None))"

definition auto_stage :: "actor_env \<Rightarrow> manager_config \<Rightarrow> world \<Rightarrow> manager \<Rightarrow> request_facts \<Rightarrow> auto_result" where
  "auto_stage A C w m f =
     (let denials = (auto_consecutive_denials m, auto_total_denials m); acc = f_access f;
          needs_user = (f_protected f \<noteq> None \<or> access_requires_user_interaction (tool_name_for_access acc) acc)
      in if \<not> (auto_mode m \<and> admits_auto_classifier (f_preflight f)) then Auto_Pass False None NotClassified denials
         else case auto_mode_fast_path acc (tool_name_for_access acc) needs_user of
           Fast_Allow \<Rightarrow>
             if f_hook f then Auto_Pass False None NotClassified denials
             else Auto_Settled Allow R_AUTO_FAST_PATH True Class_FastPath denials
         | Fast_PromptUser \<Rightarrow> Auto_Pass True (Some R_NEEDS_USER) NotClassified denials
         | Fast_Classify \<Rightarrow> classify_stage A C w m f denials)"

definition sandbox_stage :: "world \<Rightarrow> request_facts \<Rightarrow> bool \<Rightarrow> settled option" where
  "sandbox_stage w f auto_forced_prompt =
     (if (case f_access f of Access_Bash _ \<Rightarrow> True | _ \<Rightarrow> False)
         \<and> sandbox_may_auto_allow_bash (f_evaluation f) (sandbox_active w)
         \<and> \<not> policy_forced_prompt (f_preflight f) \<and> \<not> auto_forced_prompt \<and> \<not> f_hook f \<and> f_protected f = None
      then Some (Allow, R_SANDBOX_AUTO, True) else None)"

definition policy_allow_deferred :: "manager_env \<Rightarrow> manager_config \<Rightarrow> request_facts \<Rightarrow> bool \<Rightarrow> bool" where
  "policy_allow_deferred M C f auto_forced_prompt \<longleftrightarrow> f_protected f \<noteq> None \<or> auto_forced_prompt \<or> f_hook f
     \<or> bash_request_floor_requires_prompt (f_evaluation f)
       \<and> \<not> narrow_allow_clears_write_floor (base_env M) (f_evaluation f) (cfg_policy C) (f_access f)"

definition policy_stage :: "manager_env \<Rightarrow> manager_config \<Rightarrow> request_facts \<Rightarrow> bool \<Rightarrow> settled option" where
  "policy_stage M C f auto_forced_prompt = (case policy_decision (f_preflight f) of
     Some Ask \<Rightarrow> None
   | Some d \<Rightarrow> if d = Allow \<and> policy_allow_deferred M C f auto_forced_prompt then None else Some (d, R_POLICY_ALLOW, True)
   | None \<Rightarrow> None)"

definition bash_pre_decision ::
  "manager_config \<Rightarrow> request_facts \<Rightarrow> bool \<Rightarrow> string \<Rightarrow> bash_evaluation \<Rightarrow> (decision \<times> decision_reason) option" where
  "bash_pre_decision C f auto_forced_prompt cmd ev =
     (if f_protected f \<noteq> None \<or> bash_request_floor_requires_prompt (Some ev) then None
      else if policy_forced_prompt (f_preflight f) then
        (if cfg_remember_tool_approvals C \<and> \<not> auto_forced_prompt \<and> \<not> shell_file_forced_prompt (f_preflight f)
         then bash_grant_pre_decision cmd ev (f_state f) (cfg_yolo_pin C) ASK_FLOOR_REMEMBER else None)
      else bash_grant_pre_decision cmd ev (f_state f) (cfg_yolo_pin C) (post_classify auto_forced_prompt))"

definition web_fetch_pre_decision :: "manager_env \<Rightarrow> manager_config \<Rightarrow> request_facts \<Rightarrow> string \<Rightarrow> (decision \<times> decision_reason) option" where
  "web_fetch_pre_decision M C f url = (case web_fetch_deny_pre_decision (base_env M) url (f_state f) of
     Some reject \<Rightarrow> Some (reject, R_SESSION_DENY)
   | None \<Rightarrow>
       if domain_permitted M (cfg_static_domains C) url then Some (Allow, R_STATIC_ALLOWLIST)
       else case url_host (base_env M) url of
         None \<Rightarrow> None
       | Some host \<Rightarrow> if normalize_domain (base_env M) host \<in> set (allowed_web_fetch_domains (f_state f))
           then Some (Allow, R_PERSISTED_GRANT) else None)"

definition pre_decision :: "manager_env \<Rightarrow> manager_config \<Rightarrow> manager \<Rightarrow> request_facts \<Rightarrow> bool \<Rightarrow> (decision \<times> decision_reason) option" where
  "pre_decision M C m f auto_forced_prompt = (case f_access f of
     Access_Read _ \<Rightarrow> if policy_forced_prompt (f_preflight f) then None else Some (Allow, R_SAFE_COMMAND)
   | Access_Grep _ _ \<Rightarrow> if policy_forced_prompt (f_preflight f) then None else Some (Allow, R_SAFE_COMMAND)
   | Access_WebSearch _ \<Rightarrow> Some (Allow, R_SAFE_COMMAND)
   | Access_MCPTool name _ \<Rightarrow> map_option (with_session_reason R_PERSISTED_GRANT)
       (mcp_pre_decision name (f_state f) (policy_forced_prompt (f_preflight f)) (cfg_remember_tool_approvals C))
   | Access_Edit _ \<Rightarrow>
       if allow_edits_for_session m \<and> f_protected f = None then Some (Allow, R_PERSISTED_GRANT)
       else if edit_policy_of (f_state f) = Edit_Reject then Some (Reject ''edits prohibited'', R_SESSION_DENY)
       else None
   | Access_Bash cmd \<Rightarrow> (case f_evaluation f of None \<Rightarrow> None | Some ev \<Rightarrow> bash_pre_decision C f auto_forced_prompt cmd ev)
   | Access_AgentMessage _ \<Rightarrow> None
   | Access_WebFetch url \<Rightarrow> web_fetch_pre_decision M C f url)"

definition auto_prompt_blocks_allow :: "access_kind \<Rightarrow> bool" where
  "auto_prompt_blocks_allow acc = (case acc of Access_Bash _ \<Rightarrow> False | _ \<Rightarrow> True)"

definition webfetch_static_fallback :: "request_facts \<Rightarrow> decision_reason option \<Rightarrow> (decision \<times> decision_reason) option \<Rightarrow> bool" where
  "webfetch_static_fallback f auto_prompt_reason pre \<longleftrightarrow>
     (auto_prompt_reason = Some R_AUTO_CLASSIFIER_TIMEOUT \<or> auto_prompt_reason = Some R_AUTO_CLASSIFIER_UNAVAILABLE)
     \<and> (case f_access f of Access_WebFetch _ \<Rightarrow> True | _ \<Rightarrow> False)
     \<and> (pre = Some (Allow, R_STATIC_ALLOWLIST) \<or> pre = Some (Allow, R_PERSISTED_GRANT))"

definition is_allow :: "(decision \<times> decision_reason) option \<Rightarrow> bool" where
  "is_allow pre = (case pre of Some (Allow, _) \<Rightarrow> True | _ \<Rightarrow> False)"

definition kept_pre_decision ::
  "manager_env \<Rightarrow> manager_config \<Rightarrow> manager \<Rightarrow> request_facts \<Rightarrow> bool \<Rightarrow> decision_reason option \<Rightarrow> (decision \<times> decision_reason) option" where
  "kept_pre_decision M C m f auto_forced_prompt auto_prompt_reason =
     (let pre = pre_decision M C m f auto_forced_prompt;
          pre1 = (if auto_forced_prompt \<and> auto_prompt_blocks_allow (f_access f) \<and> is_allow pre
                     \<and> \<not> webfetch_static_fallback f auto_prompt_reason pre then None else pre)
      in if f_hook f \<and> is_allow pre1 then None else pre1)"

definition prompt_policy_stage :: "manager_config \<Rightarrow> request_facts \<Rightarrow> settled option" where
  "prompt_policy_stage C f =
     (if cfg_prompt_policy C = Prompt_Deny
      then Some (PolicyDeny ''denied by prompt policy (tool not pre-approved)'', R_PROMPT_DENY, False)
      else if cfg_prompt_policy C = Prompt_Allow \<and> \<not> f_hook f then Some (Allow, R_PROMPT_ALLOW, True)
      else None)"

definition orelse :: "'a option \<Rightarrow> 'a option \<Rightarrow> 'a option" where
  "orelse a b = (case a of Some x \<Rightarrow> Some x | None \<Rightarrow> b)"

definition late_stage ::
  "manager_env \<Rightarrow> manager_config \<Rightarrow> world \<Rightarrow> manager \<Rightarrow> request_facts \<Rightarrow> bool \<Rightarrow> decision_reason option \<Rightarrow> settled option" where
  "late_stage M C w m f auto_forced_prompt auto_prompt_reason =
     orelse (sandbox_stage w f auto_forced_prompt)
     (orelse (policy_stage M C f auto_forced_prompt)
     (orelse (map_option (\<lambda>(d, rsn). (d, rsn, True)) (kept_pre_decision M C m f auto_forced_prompt auto_prompt_reason))
       (prompt_policy_stage C f)))"

definition final_trigger :: "request_facts \<Rightarrow> decision_reason option \<Rightarrow> decision_reason" where
  "final_trigger f auto_prompt_reason = (case prompt_trigger (f_preflight f) auto_prompt_reason of
     Some rsn \<Rightarrow> rsn
   | None \<Rightarrow>
       if f_hook f then R_HOOK_ASK
       else if (case f_evaluation f of None \<Rightarrow> False | Some e \<Rightarrow> \<not> exact_grant e \<and> OpaqueShell \<in> findings e) then R_OPAQUE_SHELL
       else if bash_request_floor_requires_prompt (f_evaluation f) then R_BASH_REQUEST_FLOOR
       else R_NEEDS_USER)"

section \<open>The answer of the user\<close>

text \<open>The effect of an answer: the decision, the kind that is reported, the state, whether the state is
  persisted, and whether edits are allowed for the rest of the session.\<close>

record prompt_effect =
  eff_decision :: decision
  eff_kind :: prompt_outcome_kind
  eff_state :: permission_state
  eff_persists :: bool
  eff_allow_edits :: bool

definition plain_effect :: "permission_state \<Rightarrow> decision \<Rightarrow> prompt_outcome_kind \<Rightarrow> prompt_effect" where
  "plain_effect s d k = \<lparr>eff_decision = d, eff_kind = k, eff_state = s, eff_persists = False, eff_allow_edits = False\<rparr>"

definition stored_effect :: "permission_state \<Rightarrow> decision \<Rightarrow> prompt_outcome_kind \<Rightarrow> prompt_effect" where
  "stored_effect s d k = \<lparr>eff_decision = d, eff_kind = k, eff_state = s, eff_persists = True, eff_allow_edits = False\<rparr>"

definition rejected :: decision where "rejected = Reject ''User rejected the execution''"

definition rejected_always :: "string \<Rightarrow> decision" where
  "rejected_always key = Reject (''User rejected the execution and excluded `'' @ key @ ''` from future runs in this project'')"

definition prompt_failed :: "string \<Rightarrow> decision" where
  "prompt_failed e = Reject (''Failed to request permission from user: '' @ e)"

fun bash_effect :: "permission_env \<Rightarrow> permission_state \<Rightarrow> string \<Rightarrow> prompt_outcome \<Rightarrow> prompt_effect" where
  "bash_effect E s cmd AllowOnce = plain_effect s Allow Out_AllowOnce"
| "bash_effect E s cmd AllowAlways = stored_effect
     (s\<lparr>allowed_bash_commands := Grant_State.extend (List.insert cmd (allowed_bash_commands s)) (bash_grant_segments E cmd)\<rparr>) Allow Out_AllowAlways"
| "bash_effect E s cmd (AllowAlwaysBashCommand label) = stored_effect (persist_bash_always_allow E s cmd label) Allow Out_AllowAlwaysBash"
| "bash_effect E s cmd (AllowAlwaysBashGlob pat) =
     (if bash_glob_covers_script E cmd pat
      then stored_effect (s\<lparr>allowed_bash_globs := List.insert pat (allowed_bash_globs s)\<rparr>) Allow Out_AllowAlwaysBashGlob
      else plain_effect s Allow Out_AllowAlwaysBashGlob)"
| "bash_effect E s cmd (AllowAlwaysDomain _) = plain_effect s Allow Out_AllowOnce"
| "bash_effect E s cmd (AllowAlwaysMcpTool _) = plain_effect s Allow Out_AllowOnce"
| "bash_effect E s cmd (AllowAlwaysMcpServer _) = plain_effect s Allow Out_AllowOnce"
| "bash_effect E s cmd AllowEditsForSession = plain_effect s Allow Out_AllowOnce"
| "bash_effect E s cmd RejectOnce = plain_effect s rejected Out_RejectOnce"
| "bash_effect E s cmd (RejectAlwaysBashCommand label) = stored_effect
     (s\<lparr>disallowed_bash_commands := List.insert label (disallowed_bash_commands s)\<rparr>) (rejected_always label) Out_RejectAlwaysBash"
| "bash_effect E s cmd (RejectAlwaysMcpTool _) = plain_effect s rejected Out_RejectOnce"
| "bash_effect E s cmd (RejectAlwaysDomain _) = plain_effect s rejected Out_RejectOnce"
| "bash_effect E s cmd Prompt_Cancelled = plain_effect s Cancelled Out_Cancelled"
| "bash_effect E s cmd (Prompt_Followup msg) = plain_effect s (FollowupMessage msg) Out_Followup"
| "bash_effect E s cmd (Prompt_Error e) = plain_effect s (prompt_failed e) Out_Error"

text \<open>A message to a subagent is only ever answered for once.\<close>

fun once_only :: "prompt_outcome \<Rightarrow> prompt_outcome" where
  "once_only Prompt_Cancelled = Prompt_Cancelled"
| "once_only (Prompt_Followup msg) = Prompt_Followup msg"
| "once_only (Prompt_Error e) = Prompt_Error e"
| "once_only RejectOnce = RejectOnce"
| "once_only (RejectAlwaysBashCommand _) = RejectOnce"
| "once_only (RejectAlwaysMcpTool _) = RejectOnce"
| "once_only (RejectAlwaysDomain _) = RejectOnce"
| "once_only _ = AllowOnce"

definition allow_mcp_tool :: "permission_state \<Rightarrow> string \<Rightarrow> permission_state" where
  "allow_mcp_tool s name = s\<lparr>allowed_mcp_tools := List.insert name (allowed_mcp_tools s)\<rparr>"

fun other_effect :: "permission_env \<Rightarrow> permission_state \<Rightarrow> access_kind \<Rightarrow> prompt_outcome \<Rightarrow> prompt_effect" where
  "other_effect E s acc AllowOnce = plain_effect s Allow Out_AllowOnce"
| "other_effect E s acc AllowEditsForSession = (plain_effect s Allow Out_AllowEditsForSession)\<lparr>eff_allow_edits := True\<rparr>"
| "other_effect E s acc AllowAlways = stored_effect
     (case acc of Access_MCPTool name _ \<Rightarrow> allow_mcp_tool s name | _ \<Rightarrow> s) Allow Out_AllowAlways"
| "other_effect E s acc (AllowAlwaysBashCommand _) = plain_effect s Allow Out_AllowAlwaysBash"
| "other_effect E s acc (AllowAlwaysBashGlob _) = plain_effect s Allow Out_AllowAlwaysBash"
| "other_effect E s acc (AllowAlwaysDomain _) = (case acc of
     Access_WebFetch url \<Rightarrow> (case url_host E url of
       Some host \<Rightarrow> stored_effect (s\<lparr>allowed_web_fetch_domains := List.insert (normalize_domain E host) (allowed_web_fetch_domains s)\<rparr>)
         Allow Out_AllowAlwaysDomain
     | None \<Rightarrow> plain_effect s Allow Out_AllowAlwaysDomain)
   | _ \<Rightarrow> plain_effect s Allow Out_AllowAlwaysDomain)"
| "other_effect E s acc (AllowAlwaysMcpTool _) = (case acc of
     Access_MCPTool name _ \<Rightarrow> stored_effect (allow_mcp_tool s name) Allow Out_AllowAlwaysMcpTool
   | _ \<Rightarrow> plain_effect s Allow Out_AllowAlwaysMcpTool)"
| "other_effect E s acc (AllowAlwaysMcpServer server) = (case acc of
     Access_MCPTool name _ \<Rightarrow> stored_effect
       (if map_option fst (parse_mcp_qualified_name name) = Some server
        then s\<lparr>allowed_mcp_servers := List.insert server (allowed_mcp_servers s)\<rparr>
        else allow_mcp_tool s name) Allow Out_AllowAlwaysMcpServer
   | _ \<Rightarrow> plain_effect s Allow Out_AllowAlwaysMcpServer)"
| "other_effect E s acc (RejectAlwaysBashCommand _) = plain_effect s rejected Out_RejectAlwaysBash"
| "other_effect E s acc (RejectAlwaysMcpTool _) = (case acc of
     Access_MCPTool name _ \<Rightarrow> stored_effect (s\<lparr>disallowed_mcp_tools := List.insert name (disallowed_mcp_tools s)\<rparr>)
       (rejected_always name) Out_RejectAlwaysMcpTool
   | _ \<Rightarrow> plain_effect s rejected Out_RejectOnce)"
| "other_effect E s acc (RejectAlwaysDomain _) =
     (case (case acc of Access_WebFetch url \<Rightarrow> web_fetch_deny_key_from_url E url | _ \<Rightarrow> None) of
        Some domain \<Rightarrow> stored_effect (s\<lparr>disallowed_web_fetch_domains := List.insert domain (disallowed_web_fetch_domains s)\<rparr>)
          (rejected_always domain) Out_RejectAlwaysDomain
      | None \<Rightarrow> plain_effect s rejected Out_RejectOnce)"
| "other_effect E s acc RejectOnce = plain_effect s rejected Out_RejectOnce"
| "other_effect E s acc Prompt_Cancelled = plain_effect s Cancelled Out_Cancelled"
| "other_effect E s acc (Prompt_Error e) = plain_effect s (prompt_failed e) Out_Error"
| "other_effect E s acc (Prompt_Followup msg) = plain_effect s (FollowupMessage msg) Out_Followup"

definition prompt_effect_of :: "permission_env \<Rightarrow> permission_state \<Rightarrow> access_kind \<Rightarrow> prompt_outcome \<Rightarrow> prompt_effect" where
  "prompt_effect_of E s acc out = (case acc of
     Access_Bash cmd \<Rightarrow> bash_effect E s cmd out
   | Access_AgentMessage _ \<Rightarrow> other_effect E s acc (once_only out)
   | _ \<Rightarrow> other_effect E s acc out)"

definition prompted_decision_approved :: "decision \<Rightarrow> string \<Rightarrow> bool option" where
  "prompted_decision_approved d outcome_str = (case d of
     Allow \<Rightarrow> Some True | Reject _ \<Rightarrow> if outcome_str \<noteq> ''error'' then Some False else None | _ \<Rightarrow> None)"

section \<open>The handler\<close>

text \<open>What a request ends in: nothing is sent when the requester has gone before a decision; one event is
  emitted in either case.\<close>

datatype reply = Unanswered permission_event | Answered decision permission_event

definition gone_reply :: "actor_env \<Rightarrow> manager \<Rightarrow> access_kind \<Rightarrow> request_classification \<Rightarrow> reply" where
  "gone_reply A m acc cls = Unanswered (emit_event A m acc cls (auto_consecutive_denials m, auto_total_denials m)
     Cancelled False False None R_REQUESTER_GONE)"

definition settled_reply :: "actor_env \<Rightarrow> manager \<Rightarrow> access_kind \<Rightarrow> request_classification \<Rightarrow> nat \<times> nat \<Rightarrow> settled \<Rightarrow> reply" where
  "settled_reply A m acc cls denials = (\<lambda>(d, rsn, auto_approved).
     Answered d (emit_event A m acc cls denials d auto_approved False None rsn))"

definition with_denials :: "nat \<times> nat \<Rightarrow> manager \<Rightarrow> manager" where
  "with_denials denials m = m\<lparr>auto_consecutive_denials := fst denials, auto_total_denials := snd denials\<rparr>"

definition record_decision :: "actor_env \<Rightarrow> access_kind \<Rightarrow> bool option \<Rightarrow> classifier_turn list \<Rightarrow> classifier_turn list" where
  "record_decision A acc approved0 recorded = (case approved0 of
     None \<Rightarrow> recorded
   | Some ok \<Rightarrow>
       (let all = recorded @ [PermissionDecision (tool_name_for_access acc)
              (permission_decision_args (clf_env A) acc (access_detail_of A acc)) ok]
        in drop (length all - MAX_RECORDED_PERMISSION_DECISIONS) all))"

definition prompt_stage ::
  "actor_env \<Rightarrow> manager_config \<Rightarrow> world \<Rightarrow> manager \<Rightarrow> request_facts \<Rightarrow> request_classification \<Rightarrow> decision_reason option \<Rightarrow> reply \<times> manager" where
  "prompt_stage A C w m f cls auto_prompt_reason =
     (let acc = f_access f; denials = (auto_consecutive_denials m, auto_total_denials m) in
      if gone_before_prompt w then (gone_reply A m acc cls, m)
      else (let eff = prompt_effect_of (base_env (mgr_env A)) (mgr_state m) acc (prompt_answer w);
                d = eff_decision eff; outcome_str = outcome_wire_str (eff_kind eff);
                requester_gone = (d = Cancelled \<and> gone_after_prompt w);
                trigger = (if requester_gone then R_REQUESTER_GONE else final_trigger f auto_prompt_reason);
                m1 = m\<lparr>mgr_state := eff_state eff,
                       mgr_disk := (if eff_persists eff then persist C (eff_state eff) (mgr_disk m) else mgr_disk m),
                       allow_edits_for_session := allow_edits_for_session m \<or> eff_allow_edits eff,
                       recorded_permission_decisions := record_decision A acc (prompted_decision_approved d outcome_str)
                         (recorded_permission_decisions m)\<rparr>
            in (Answered d (emit_event A m acc cls denials d False True (Some outcome_str) trigger),
                if outcome_str \<noteq> ''error'' \<and> \<not> requester_gone then with_denials (0, 0) m1 else m1)))"

definition decide_stage :: "actor_env \<Rightarrow> manager_config \<Rightarrow> world \<Rightarrow> manager \<Rightarrow> request_facts \<Rightarrow> reply \<times> manager" where
  "decide_stage A C w m f =
     (let acc = f_access f; denials = (auto_consecutive_denials m, auto_total_denials m) in
      case early_stage (mgr_env A) C m f of
        Some r \<Rightarrow> (settled_reply A m acc NotClassified denials r, m)
      | None \<Rightarrow>
          (case auto_stage A C w m f of
             Auto_Gone cls \<Rightarrow> (gone_reply A m acc cls, m)
           | Auto_Settled d rsn auto_approved cls denials' \<Rightarrow>
               (settled_reply A m acc cls denials' (d, rsn, auto_approved), with_denials denials' m)
           | Auto_Pass forced rsn cls denials' \<Rightarrow>
               (let m1 = with_denials denials' m in
                case late_stage (mgr_env A) C w m1 f forced rsn of
                  Some r \<Rightarrow> (settled_reply A m1 acc cls denials' r, m1)
                | None \<Rightarrow> prompt_stage A C w m1 f cls rsn)))"

definition handle_request :: "actor_env \<Rightarrow> manager_config \<Rightarrow> world \<Rightarrow> manager \<Rightarrow> permission_request \<Rightarrow> reply \<times> manager" where
  "handle_request A C w m rq =
     (if gone_at_dequeue w then (gone_reply A m (access rq) NotClassified, m)
      else case request_facts_of A C w m rq of
        (s, None) \<Rightarrow> (gone_reply A m (access rq) NotClassified, m\<lparr>mgr_state := s\<rparr>)
      | (s, Some f) \<Rightarrow> decide_stage A C w (m\<lparr>mgr_state := s\<rparr>) f)"

section \<open>The loop\<close>

datatype permission_command =
    Cmd_Request permission_request
  | SetYoloMode bool
  | SetAutoMode bool
  | SetClassifier "classifier option"
  | SetClassifierTranscript "classifier_turn list"
  | SetProjectInstructions "string option"
  | ResetState
  | Shutdown

definition set_yolo :: "manager_config \<Rightarrow> bool \<Rightarrow> manager \<Rightarrow> manager" where
  "set_yolo C enabled m =
     (let clamped = clamp_yolo enabled (cfg_yolo_pin C);
          m1 = (if enabled \<and> \<not> clamped \<and> \<not> pin_refusal_logged m then m\<lparr>pin_refusal_logged := True\<rparr> else m);
          m2 = m1\<lparr>yolo_mode := clamped\<rparr>
      in if clamped then m2\<lparr>auto_mode := False\<rparr> else m2)"

definition set_auto :: "actor_env \<Rightarrow> bool \<Rightarrow> manager \<Rightarrow> manager" where
  "set_auto A enabled m =
     (let m1 = m\<lparr>auto_mode := enabled\<rparr>
      in if enabled then m1\<lparr>yolo_mode := False,
           auto_classifier := (case auto_classifier m of Some c \<Rightarrow> Some c | None \<Rightarrow> Some (default_auto_mode_classifier A))\<rparr>
         else m1)"

definition reset_state :: "manager_config \<Rightarrow> manager \<Rightarrow> manager" where
  "reset_state C m = m\<lparr>mgr_state := permission_state_default,
     mgr_disk := replace_state_on_disk (cfg_writer C) (cfg_store_dir C) permission_state_default (cfg_client_id C) (mgr_disk m),
     allow_edits_for_session := False\<rparr>"

text \<open>One turn of the loop. \<open>None\<close> is the end of the actor.\<close>

fun actor_step :: "actor_env \<Rightarrow> manager_config \<Rightarrow> world \<Rightarrow> manager \<Rightarrow> permission_command \<Rightarrow> (reply option \<times> manager) option" where
  "actor_step A C w m (Cmd_Request rq) = (case handle_request A C w m rq of (r, m') \<Rightarrow> Some (Some r, m'))"
| "actor_step A C w m (SetYoloMode enabled) = Some (None, set_yolo C enabled m)"
| "actor_step A C w m (SetAutoMode enabled) = Some (None, set_auto A enabled m)"
| "actor_step A C w m (SetClassifier clf) = Some (None, m\<lparr>auto_classifier := clf\<rparr>)"
| "actor_step A C w m (SetClassifierTranscript ts) = Some (None, m\<lparr>classifier_turns := ts\<rparr>)"
| "actor_step A C w m (SetProjectInstructions ins) = Some (None, m\<lparr>mgr_instructions := ins\<rparr>)"
| "actor_step A C w m ResetState = Some (None, reset_state C m)"
| "actor_step A C w m Shutdown = None"

fun actor_run :: "actor_env \<Rightarrow> manager_config \<Rightarrow> manager \<Rightarrow> (world \<times> permission_command) list \<Rightarrow> reply list \<times> manager" where
  "actor_run A C m [] = ([], m)"
| "actor_run A C m ((w, c) # cs) = (case actor_step A C w m c of
     None \<Rightarrow> ([], m)
   | Some (r, m') \<Rightarrow> (case actor_run A C m' cs of (rs, m'') \<Rightarrow> ((case r of Some x \<Rightarrow> [x] | None \<Rightarrow> []) @ rs, m'')))"

end
