(* ===== verification/Manager_Decisions.thy ===== *)
theory Manager_Decisions
  imports Permission_Manager
begin

text \<open>
  What the permission manager guarantees of one request, whatever its modes, its grants, its hooks and
  the world around it: a deny rule is final, a question that a hook asks for reaches the user, an edit that
  names a protected file and a \<open>mkdir\<close> or \<open>touch\<close> of one are never permitted by a remembered answer or a
  model's word, an ask rule is answered without a prompt only in the listed cases, and only an answer of
  the user changes what is remembered.
\<close>

section \<open>The stages, one by one\<close>

lemma handle_request_facts:
  assumes "\<not> gone_at_dequeue w" "request_facts_of A C w m rq = (s, Some f)"
  shows "handle_request A C w m rq = decide_stage A C w (m\<lparr>mgr_state := s\<rparr>) f"
  using assms by (simp add: handle_request_def)

lemma facts_fields:
  assumes "request_facts_of A C w m rq = (s, Some f)"
  shows "s = refreshed_state w (access rq) (mgr_state m)" "f_access f = access rq" "f_state f = s"
    "f_hook f \<longleftrightarrow> request_hook rq \<noteq> None"
    "f_preflight f = preflight_evaluate (base_env (mgr_env A)) (cfg_policy C) (access rq) (request_cwd C rq) (auto_mode m)"
    "f_protected f = protected_edit_of (mgr_env A) C rq (f_evaluation f)"
    "f_evaluation f = fst (evaluate_request_bash (mgr_env A) w s (request_cwd C rq) (access rq))"
  using assms by (auto simp: request_facts_of_def Let_def split: prod.splits if_splits)

lemma answered_has_facts:
  assumes "handle_request A C w m rq = (Answered d ev, m')"
  obtains f where "request_facts_of A C w m rq = (refreshed_state w (access rq) (mgr_state m), Some f)"
    "decide_stage A C w (m\<lparr>mgr_state := refreshed_state w (access rq) (mgr_state m)\<rparr>) f = (Answered d ev, m')"
proof -
  obtain s f where f: "request_facts_of A C w m rq = (s, Some f)"
    and d: "decide_stage A C w (m\<lparr>mgr_state := s\<rparr>) f = (Answered d ev, m')"
    using assms by (auto simp: handle_request_def gone_reply_def split: if_splits prod.splits option.splits)
  show thesis using that f d facts_fields(1) [OF f] by simp
qed

lemma emit_event_fields [simp]:
  "ev_user_prompted (emit_event A m acc cls denials d auto_approved user_prompted out rsn) = user_prompted"
  "ev_decision_reason (emit_event A m acc cls denials d auto_approved user_prompted out rsn) = rsn"
  "ev_auto_approved (emit_event A m acc cls denials d auto_approved user_prompted out rsn) = auto_approved"
  "ev_prompt_outcome (emit_event A m acc cls denials d auto_approved user_prompted out rsn) = out"
  by (simp_all add: emit_event_def)

text \<open>An answer that was not put to the user comes from one of three stages.\<close>

lemma unprompted_cases:
  assumes "decide_stage A C w m f = (Answered d ev, m')" "\<not> ev_user_prompted ev"
  obtains (early) rsn b where "early_stage (mgr_env A) C m f = Some (d, rsn, b)" "m' = m" "ev_decision_reason ev = rsn"
  | (auto) rsn b cls denials where "early_stage (mgr_env A) C m f = None"
      "auto_stage A C w m f = Auto_Settled d rsn b cls denials" "m' = with_denials denials m" "ev_decision_reason ev = rsn"
  | (late) forced rsn cls denials rsn' b where "early_stage (mgr_env A) C m f = None"
      "auto_stage A C w m f = Auto_Pass forced rsn cls denials" "m' = with_denials denials m"
      "late_stage (mgr_env A) C w m' f forced rsn = Some (d, rsn', b)" "ev_decision_reason ev = rsn'"
proof (cases "early_stage (mgr_env A) C m f")
  case (Some r)
  obtain d0 rsn b where r: "r = (d0, rsn, b)" by (cases r)
  have "early_stage (mgr_env A) C m f = Some (d, rsn, b) \<and> m' = m \<and> ev_decision_reason ev = rsn"
    using assms(1) Some by (auto simp: decide_stage_def settled_reply_def Let_def r)
  then show ?thesis using early [of rsn b] by simp
next
  case None
  show ?thesis
  proof (cases "auto_stage A C w m f")
    case (Auto_Settled d0 rsn b cls denials)
    have "auto_stage A C w m f = Auto_Settled d rsn b cls denials \<and> m' = with_denials denials m \<and> ev_decision_reason ev = rsn"
      using assms(1) None Auto_Settled by (auto simp: decide_stage_def settled_reply_def Let_def)
    then show ?thesis using None auto [of rsn b cls denials] by simp
  next
    case (Auto_Gone cls)
    then show ?thesis using assms(1) None by (simp add: decide_stage_def gone_reply_def Let_def)
  next
    case (Auto_Pass forced rsn cls denials)
    show ?thesis
    proof (cases "late_stage (mgr_env A) C w (with_denials denials m) f forced rsn")
      case N: None
      have "decide_stage A C w m f = prompt_stage A C w (with_denials denials m) f cls rsn"
        by (simp add: decide_stage_def None Auto_Pass N Let_def)
      then have False using assms by (auto simp: prompt_stage_def gone_reply_def Let_def split: if_splits)
      then show ?thesis ..
    next
      case S: (Some r)
      obtain d0 rsn' b where r: "r = (d0, rsn', b)" by (cases r)
      have "d0 = d \<and> m' = with_denials denials m \<and> ev_decision_reason ev = rsn'"
        using assms(1) by (auto simp: decide_stage_def settled_reply_def Let_def None Auto_Pass S r)
      then show ?thesis using None Auto_Pass S r late [of forced rsn cls denials rsn' b] by simp
    qed
  qed
qed

lemma prompted_case:
  assumes "decide_stage A C w m f = (Answered d ev, m')" "ev_user_prompted ev"
  shows "d = eff_decision (prompt_effect_of (base_env (mgr_env A)) (mgr_state m) (f_access f) (prompt_answer w))"
  using assms by (auto simp: decide_stage_def settled_reply_def prompt_stage_def gone_reply_def with_denials_def Let_def
      split: option.splits auto_result.splits if_splits)

text \<open>The answers that permit.\<close>

definition affirmative :: "prompt_outcome \<Rightarrow> bool" where
  "affirmative out = (case out of
     RejectOnce \<Rightarrow> False | RejectAlwaysBashCommand _ \<Rightarrow> False | RejectAlwaysMcpTool _ \<Rightarrow> False | RejectAlwaysDomain _ \<Rightarrow> False
   | Prompt_Cancelled \<Rightarrow> False | Prompt_Followup _ \<Rightarrow> False | Prompt_Error _ \<Rightarrow> False | _ \<Rightarrow> True)"

lemmas effect_simps = plain_effect_def stored_effect_def rejected_def rejected_always_def prompt_failed_def

lemma bash_effect_allows: "eff_decision (bash_effect E s cmd out) = Allow \<longleftrightarrow> affirmative out"
  by (cases out) (auto simp: effect_simps affirmative_def)

lemma other_effect_allows: "eff_decision (other_effect E s acc out) = Allow \<longleftrightarrow> affirmative out"
  by (cases out) (auto simp: effect_simps affirmative_def split: access_kind.split option.split)

lemma affirmative_once [simp]: "affirmative (once_only out) = affirmative out"
  by (cases out) (auto simp: affirmative_def)

lemma effect_allows: "eff_decision (prompt_effect_of E s acc out) = Allow \<longleftrightarrow> affirmative out"
  by (cases acc) (simp_all add: prompt_effect_of_def bash_effect_allows other_effect_allows)

lemma prompted_allow:
  assumes "decide_stage A C w m f = (Answered Allow ev, m')" "ev_user_prompted ev"
  shows "affirmative (prompt_answer w)"
  using prompted_case [OF assms] effect_allows by metis

section \<open>Requests that must be asked\<close>

lemma early_hook:
  assumes "f_hook f"
  shows "early_stage M C m f \<noteq> Some (Allow, rsn, b)"
  using assms by (auto simp: early_stage_def remembered_stage_def auto_policy_allows_def pre_classifier_forced_prompt_def
      split: option.splits decision.splits)

lemma auto_hook:
  assumes "f_hook f"
  shows "auto_stage A C w m f \<noteq> Auto_Settled Allow rsn b cls denials"
  using assms by (auto simp: auto_stage_def classify_stage_def verdict_stage_def Let_def
      split: auto_fast_path.splits option.splits classifier_verdict.splits access_kind.splits if_splits)

lemma late_hook:
  assumes "f_hook f"
  shows "late_stage M C w m f forced rsn \<noteq> Some (Allow, rsn', b)"
  using assms by (auto simp: late_stage_def orelse_def sandbox_stage_def policy_stage_def policy_allow_deferred_def
      kept_pre_decision_def is_allow_def prompt_policy_stage_def Let_def
      split: option.splits decision.splits if_splits prod.splits)

text \<open>C3: A question that a hook asks for is put to the user. When the hook before a tool call wants
  confirmation, a request is permitted only by an affirmative answer to a prompt: no mode, allow rule,
  remembered answer, classifier, sandbox or prompt policy permits it in the user's place.\<close>

theorem hook_ask_reaches_user:
  assumes "request_hook rq \<noteq> None"
    and "handle_request A C w m rq = (Answered Allow ev, m')"
  shows "ev_user_prompted ev \<and> affirmative (prompt_answer w)"
proof -
  let ?m = "m\<lparr>mgr_state := refreshed_state w (access rq) (mgr_state m)\<rparr>"
  obtain f where f: "request_facts_of A C w m rq = (refreshed_state w (access rq) (mgr_state m), Some f)"
    and d: "decide_stage A C w ?m f = (Answered Allow ev, m')"
    using answered_has_facts [OF assms(2)] by blast
  have h: "f_hook f" using facts_fields(4) [OF f] assms(1) by simp
  have p: "ev_user_prompted ev"
  proof (rule ccontr)
    assume "\<not> ev_user_prompted ev"
    from d this show False by (cases rule: unprompted_cases) (simp_all add: h early_hook auto_hook late_hook)
  qed
  then show ?thesis using prompted_allow [OF d] by simp
qed

section \<open>Protected files\<close>

lemma early_protected:
  assumes "f_protected f \<noteq> None" "early_stage M C m f = Some (Allow, rsn, b)"
  shows "yolo_mode m \<and> \<not> shell_forced_prompt (f_preflight f) \<and> \<not> f_hook f"
  using assms by (auto simp: early_stage_def remembered_stage_def auto_policy_allows_def
      split: option.splits decision.splits if_splits)

lemma auto_protected:
  assumes "f_protected f \<noteq> None"
  shows "auto_stage A C w m f \<noteq> Auto_Settled Allow rsn b cls denials"
  using assms by (auto simp: auto_stage_def auto_mode_fast_path_def Let_def)

lemma late_protected:
  assumes "f_protected f \<noteq> None" "\<exists>x. f_access f = Access_Edit x \<or> f_access f = Access_Bash x"
    and "late_stage M C w m f forced rsn = Some (Allow, rsn', b)"
  shows "cfg_prompt_policy C = Prompt_Allow \<and> \<not> f_hook f"
  using assms by (auto simp: late_stage_def orelse_def sandbox_stage_def policy_stage_def policy_allow_deferred_def
      kept_pre_decision_def is_allow_def prompt_policy_stage_def pre_decision_def bash_pre_decision_def Let_def
      split: option.splits decision.splits if_splits prod.splits)

lemma protected_allow:
  assumes "decide_stage A C w m f = (Answered Allow ev, m')" "f_protected f \<noteq> None"
    and "\<exists>x. f_access f = Access_Edit x \<or> f_access f = Access_Bash x"
  shows "if ev_user_prompted ev then affirmative (prompt_answer w)
    else \<not> f_hook f \<and> (yolo_mode m \<and> \<not> shell_forced_prompt (f_preflight f) \<or> cfg_prompt_policy C = Prompt_Allow)"
proof (cases "ev_user_prompted ev")
  case True
  then show ?thesis using prompted_allow [OF assms(1)] by simp
next
  case False
  from assms(1) False show ?thesis
  proof (cases rule: unprompted_cases)
    case (early rsn b)
    show ?thesis using early_protected [OF assms(2) early(1)] False by simp
  next
    case (auto rsn b cls denials)
    then show ?thesis using auto_protected [OF assms(2)] by blast
  next
    case (late forced rsn cls denials rsn' b)
    show ?thesis using late_protected [OF assms(2,3) late(4)] False by simp
  qed
qed

text \<open>A target in the protected area, as it is written or where its symbolic links lead.\<close>

definition in_protected_place :: "manager_env \<Rightarrow> string \<Rightarrow> bool" where
  "in_protected_place M p \<longleftrightarrow> protected_place M (normalize_lexically p)
     \<or> (\<exists>r. resolve_following_symlinks (files (base_env M)) p = Some r \<and> protected_place M r)"

text \<open>The paths that a script creates by name: the operands of its \<open>mkdir\<close> and \<open>touch\<close> commands.\<close>

definition creates :: "ts_tree \<Rightarrow> string \<Rightarrow> string \<Rightarrow> bool" where
  "creates tree cmd path \<longleftrightarrow> (\<exists>iv \<in> set (shell_command_invocations (root_node tree) cmd).
     let ws = unwrap_wrappers (literal_words (inv_words iv))
     in ws \<noteq> [] \<and> to_ascii_lowercase (shell_program_name (hd ws)) \<in> {''mkdir'', ''touch''} \<and> path \<in> set (shell_file_candidates ws))"

text \<open>A request that names a protected target: an edit of one file by its path, or a script that is a plain
  sequence of commands, none of them excluded by an earlier answer, of which one creates it.\<close>

definition names_protected :: "manager_env \<Rightarrow> manager_config \<Rightarrow> permission_request \<Rightarrow> permission_state \<Rightarrow> bool" where
  "names_protected M C rq s = (case access rq of
     Access_Edit path \<Rightarrow> in_protected_place M (resolve_for_request M C rq path)
   | Access_Bash cmd \<Rightarrow> (\<exists>tree cs path. try_parse_shell (base_env M) cmd = Some tree
       \<and> try_parse_word_only_commands_sequence tree cmd = Some cs \<and> (\<forall>c \<in> set cs. \<not> segment_denied s (words c))
       \<and> creates tree cmd path \<and> in_protected_place M (resolve_for_request M C rq path))
   | _ \<Rightarrow> False)"

lemma target_detected: "in_protected_place M p \<Longrightarrow> edit_target_protection M p \<noteq> None"
  unfolding in_protected_place_def protected_edit_iff [symmetric]
  by (auto simp: edit_target_protection_def split: option.splits)

lemma creation_operand:
  "path \<in> set (command_words_creation_paths words0) \<longleftrightarrow>
     (let ws = unwrap_wrappers words0
      in ws \<noteq> [] \<and> to_ascii_lowercase (shell_program_name (hd ws)) \<in> {''mkdir'', ''touch''} \<and> path \<in> set (shell_file_candidates ws))"
proof -
  let ?ws = "unwrap_wrappers words0"
  let ?prog = "to_ascii_lowercase (shell_program_name (hd ?ws))" and ?ops = "shell_file_candidates ?ws"
  have created: "set (map fst (filter (\<lambda>(_, mode). mode = Mode_Create) (map (\<lambda>c. (c, Mode_Create)) ?ops))) = set ?ops"
    by (induction ?ops) auto
  consider (create) "is_creation_program ?prog" | (other) "\<not> is_creation_program ?prog" by blast
  then show ?thesis
  proof cases
    case create
    then have "shell_path_command_operands ?prog ?ws = Some (map (\<lambda>c. (c, Mode_Create)) ?ops)"
      by (auto simp: shell_path_command_operands_def is_creation_program_def)
    then show ?thesis using create created
      by (auto simp: command_words_creation_paths_def is_creation_program_def Let_def)
  next
    case other
    then have "(path, Mode_Create) \<notin> set ops" if "shell_path_command_operands ?prog ?ws = Some ops" for ops
      using that by (auto simp: shell_path_command_operands_def Let_def split: if_splits list.splits)
    then show ?thesis using other
      by (cases "shell_path_command_operands ?prog ?ws") (auto simp: command_words_creation_paths_def is_creation_program_def Let_def)
  qed
qed

lemma creates_iff: "creates tree cmd path \<longleftrightarrow> path \<in> set (creation_paths (command_write_paths_split (root_node tree) cmd))"
  unfolding creates_def creation_operand [symmetric, unfolded Let_def] Let_def
  by (auto simp: command_write_paths_split_def Let_def)

text \<open>The evaluation of a shell request is the one of its text, with what the scan of the directories adds.\<close>

lemma request_evaluation:
  obtains e where "fst (evaluate_request_bash M w s cwd (Access_Bash cmd)) = Some e"
    "eval_segments e = eval_segments (evaluate_bash (base_env M) cmd s True)"
    "exact_grant e = exact_grant (evaluate_bash (base_env M) cmd s True)"
    "all_segments_granted e = all_segments_granted (evaluate_bash (base_env M) cmd s True)"
    "findings (evaluate_bash (base_env M) cmd s True) \<subseteq> findings e"
    "eval_creation_paths e = eval_creation_paths (evaluate_bash (base_env M) cmd s True)"
  by (rule that [of "the (fst (evaluate_request_bash M w s cwd (Access_Bash cmd)))"])
    (auto simp: evaluate_request_bash_def Let_def split: option.splits)

lemma creation_paths_evaluated:
  assumes "try_parse_shell E cmd = Some tree" "try_parse_word_only_commands_sequence tree cmd = Some cs"
    and "\<forall>c \<in> set cs. \<not> segment_denied s (words c)"
  shows "eval_creation_paths (evaluate_bash E cmd s True) = creation_paths (command_write_paths_split (root_node tree) cmd)"
proof -
  have "\<nexists>rsn sc'. scan_bash_segments E s True sc (map words cs) = Turn_Reject rsn sc'" for sc
    unfolding scan_bash_reject using assms(3) by auto
  then show ?thesis
    by (auto simp: evaluate_bash_def assms(1,2) Let_def split: segment_turn.split)
qed

lemma protected_detected:
  assumes "request_facts_of A C w m rq = (s, Some f)" "names_protected (mgr_env A) C rq s"
  shows "f_protected f \<noteq> None" "\<exists>x. f_access f = Access_Edit x \<or> f_access f = Access_Bash x"
proof -
  note fields = facts_fields [OF assms(1)]
  show "\<exists>x. f_access f = Access_Edit x \<or> f_access f = Access_Bash x"
    using assms(2) fields(2) by (auto simp: names_protected_def split: access_kind.splits)
  show "f_protected f \<noteq> None"
  proof (cases "access rq")
    case (Access_Edit path)
    then show ?thesis using assms(2) target_detected fields(6) by (simp add: names_protected_def protected_edit_of_def)
  next
    case (Access_Bash cmd)
    obtain tree cs path where t: "try_parse_shell (base_env (mgr_env A)) cmd = Some tree"
        "try_parse_word_only_commands_sequence tree cmd = Some cs" "\<forall>c \<in> set cs. \<not> segment_denied s (words c)"
        "creates tree cmd path" "in_protected_place (mgr_env A) (resolve_for_request (mgr_env A) C rq path)"
      using assms(2) unfolding names_protected_def Access_Bash by auto
    obtain e where e: "f_evaluation f = Some e" "path \<in> set (eval_creation_paths e)"
      using request_evaluation [of "mgr_env A" w s "request_cwd C rq" cmd] fields(7) Access_Bash
        creation_paths_evaluated [OF t(1-3)] t(4) creates_iff by metis
    have "find_map (\<lambda>path. edit_target_protection (mgr_env A) (resolve_for_request (mgr_env A) C rq path)) (eval_creation_paths e) \<noteq> None"
      using e(2) target_detected [OF t(5)] unfolding find_map_None by auto
    then show ?thesis using e(1) Access_Bash fields(6) by (auto simp: protected_edit_of_def)
  qed (use assms(2) in \<open>simp_all add: names_protected_def\<close>)
qed


section \<open>Rules\<close>

lemma preflight_direct:
  "direct (preflight_evaluate E policy acc cwd mode) =
     (case policy of Some P \<Rightarrow> evaluate_with_cwd E P acc (Some cwd) | None \<Rightarrow> None)"
  by (auto simp: preflight_evaluate_def evaluate_with_cwd_def Let_def split: prod.split option.split)

lemma preflight_gates:
  "bash_command_gate (preflight_evaluate E (Some P) (Access_Bash cmd) cwd mode) = evaluate_bash_command_gate E P cmd"
  "shell_file_gate (preflight_evaluate E (Some P) (Access_Bash cmd) cwd mode) = evaluate_shell_file_access_gate E P cmd cwd"
  by (simp_all add: preflight_evaluate_def Let_def split: prod.split)

definition shell_denies :: "permission_env \<Rightarrow> compiled_policy \<Rightarrow> access_kind \<Rightarrow> string \<Rightarrow> bool" where
  "shell_denies E P acc cwd = (case acc of
     Access_Bash cmd \<Rightarrow> (\<exists>rsn. evaluate_bash_command_gate E P cmd = Some (Gate_Reject rsn))
       \<or> (\<exists>rsn. evaluate_shell_file_access_gate E P cmd cwd = Some (Gate_Reject rsn))
   | _ \<Rightarrow> False)"

lemma direct_rank:
  "verdict (evaluate_with_cwd E (compiled_policy_new E cfg) acc cwd) \<ge>
     (if matched E cfg Action_Deny acc cwd then 4 else if matched E cfg Action_Ask acc cwd then 3 else 0)"
  by (simp add: evaluate_verdict lexical_verdict Let_def split: symlink_follow.split)

text \<open>The verdicts that rules and gates give.\<close>

definition rule_verdicts :: "decision option set" where
  "rule_verdicts = {None, Some Allow, Some Ask} \<union> (Some ` range Reject)"

lemma into_decision_verdict: "map_option into_decision g \<in> rule_verdicts"
proof (cases g)
  case (Some x)
  then show ?thesis by (cases x) (auto simp: rule_verdicts_def)
qed (simp add: rule_verdicts_def)

lemma rule_verdicts_closed:
  "d \<in> rule_verdicts \<Longrightarrow> escalation d \<in> rule_verdicts"
  "d \<in> rule_verdicts \<Longrightarrow> d' \<in> rule_verdicts \<Longrightarrow> combine_decisions d d' \<in> rule_verdicts"
  using decisions.combine_either [of d d'] by (auto simp: rule_verdicts_def escalation_def)

lemma evaluate_kinds: "evaluate_with_cwd E P acc cwd \<in> rule_verdicts"
proof -
  have l: "evaluate_lexical_with_cwd E P a cwd \<in> rule_verdicts" for a
    using lexical_kinds by (simp add: rule_verdicts_def)
  have "Some Ask \<in> rule_verdicts" by (simp add: rule_verdicts_def)
  then show ?thesis
    by (simp add: evaluate_by_follow l rule_verdicts_closed split: symlink_follow.split)
qed

lemma policy_decision_kinds: "policy_decision (preflight_evaluate E policy acc cwd mode) \<in> rule_verdicts"
proof -
  have "None \<in> rule_verdicts" by (simp add: rule_verdicts_def)
  then have "direct (preflight_evaluate E policy acc cwd mode) \<in> rule_verdicts"
    using evaluate_kinds by (simp add: preflight_direct split: option.split)
  then show ?thesis unfolding policy_decision_def by (intro rule_verdicts_closed into_decision_verdict)
qed

lemma policy_rank:
  "verdict (policy_decision pf) = max (max (verdict (direct pf)) (verdict (map_option into_decision (bash_command_gate pf))))
     (verdict (map_option into_decision (shell_file_gate pf)))"
  by (simp add: policy_decision_def decisions.combine_rank)

lemma verdict_Reject: "d \<in> rule_verdicts \<Longrightarrow> 4 \<le> verdict d \<Longrightarrow> \<exists>rsn. d = Some (Reject rsn)"
  by (auto simp: rule_verdicts_def)

lemma denied_request:
  assumes "4 \<le> verdict (policy_decision (preflight_evaluate (base_env (mgr_env A)) (cfg_policy C) (access rq) (request_cwd C rq) (auto_mode m)))"
    and "\<not> gone_at_dequeue w" "\<not> gone_after_scan w"
  shows "\<exists>rsn ev. handle_request A C w m rq =
      (Answered (PolicyDeny rsn) ev, m\<lparr>mgr_state := refreshed_state w (access rq) (mgr_state m)\<rparr>)
    \<and> ev_decision_reason ev = R_POLICY_DENY \<and> \<not> ev_user_prompted ev \<and> \<not> ev_auto_approved ev"
proof -
  obtain rsn where r: "policy_decision (preflight_evaluate (base_env (mgr_env A)) (cfg_policy C) (access rq) (request_cwd C rq) (auto_mode m))
      = Some (Reject rsn)"
    using verdict_Reject [OF policy_decision_kinds assms(1)] by blast
  obtain f where f: "request_facts_of A C w m rq = (refreshed_state w (access rq) (mgr_state m), Some f)"
    using assms(3) by (cases "evaluate_request_bash (mgr_env A) w (refreshed_state w (access rq) (mgr_state m))
      (request_cwd C rq) (access rq)") (simp add: request_facts_of_def Let_def)
  have "policy_decision (f_preflight f) = Some (Reject rsn)" using facts_fields(5) [OF f] r by simp
  then show ?thesis
    by (simp add: handle_request_facts [OF assms(2) f] decide_stage_def early_stage_def settled_reply_def Let_def)
qed

text \<open>C2: A deny rule is final. When a deny rule matches the access of a request, or the shell gates find that
  a command of a script or a file it touches is denied, the request is denied by policy without a
  prompt, in every mode, with every hook and every remembered answer, and nothing is remembered of it.\<close>

theorem deny_rule_is_final:
  assumes "cfg_policy C = Some (compiled_policy_new E cfg)" "E = base_env (mgr_env A)"
    and "matched E cfg Action_Deny (access rq) (Some (request_cwd C rq))
       \<or> shell_denies E (compiled_policy_new E cfg) (access rq) (request_cwd C rq)"
    and "\<not> gone_at_dequeue w" "\<not> gone_after_scan w"
  shows "\<exists>rsn ev. handle_request A C w m rq =
      (Answered (PolicyDeny rsn) ev, m\<lparr>mgr_state := refreshed_state w (access rq) (mgr_state m)\<rparr>)
    \<and> ev_decision_reason ev = R_POLICY_DENY \<and> \<not> ev_user_prompted ev \<and> \<not> ev_auto_approved ev"
proof -
  let ?P = "compiled_policy_new E cfg"
  let ?pf = "preflight_evaluate E (Some ?P) (access rq) (request_cwd C rq) (auto_mode m)"
  have "4 \<le> verdict (policy_decision ?pf)"
  proof (cases "matched E cfg Action_Deny (access rq) (Some (request_cwd C rq))")
    case True
    then have "4 \<le> verdict (direct ?pf)"
      using direct_rank [of E cfg "access rq" "Some (request_cwd C rq)"] by (simp add: preflight_direct)
    then show ?thesis by (simp add: policy_rank)
  next
    case False
    then have "shell_denies E ?P (access rq) (request_cwd C rq)" using assms(3) by simp
    then show ?thesis by (cases "access rq") (auto simp: shell_denies_def policy_rank preflight_gates le_max_iff_disj)
  qed
  then show ?thesis using assms(1,2) by (intro denied_request assms(4,5)) simp
qed

text \<open>A command that an answer of the user names: by its text or, unless only its whole text may be granted, a prefix
  of it, or by a pattern.\<close>

definition named_by_answer :: "permission_env \<Rightarrow> permission_state \<Rightarrow> string list \<Rightarrow> bool" where
  "named_by_answer E s ws \<longleftrightarrow> (let text = join '' '' ws
     in text \<in> set (allowed_bash_commands s)
        \<or> \<not> always_allow_scope_pinned ws \<and> (\<exists>g \<in> set (allowed_bash_commands s). command_prefix text g)
        \<or> (\<exists>pat \<in> set (allowed_bash_globs s). matches_bash_glob E text pat))"

text \<open>A script whose every command, but for those that only set up, was approved by name: none is dangerous
  or excluded, one with flags that run something else was approved by its whole text, and the script as a
  whole was approved or has no finding that an approval by name cannot vouch for.\<close>

definition script_approved_by_name :: "permission_env \<Rightarrow> permission_state \<Rightarrow> string \<Rightarrow> bool" where
  "script_approved_by_name E s cmd \<longleftrightarrow> \<not> script_denied E s cmd
     \<and> (exact_grant (evaluate_bash E cmd s True) \<or> (\<forall>f \<in> findings (evaluate_bash E cmd s True). \<not> is_grant_floor f))
     \<and> (\<exists>cs. commands_in E cmd = Some cs \<and> (\<forall>c \<in> set cs.
          let ws = unwrap_wrappers (words c)
          in is_setup_command ws
             \<or> named_by_answer E s ws \<and> \<not> is_dangerous_command_words ws
               \<and> (special_exec_surface ws \<longrightarrow> join '' '' ws \<in> set (allowed_bash_commands s))))"

text \<open>The cases in which a request that an ask rule matches is permitted with no prompt, other than the
  always-approve mode and a prompt policy that permits everything.\<close>

definition ask_rule_exception :: "actor_env \<Rightarrow> manager_config \<Rightarrow> manager \<Rightarrow> permission_state \<Rightarrow> access_kind \<Rightarrow> bool" where
  "ask_rule_exception A C m s acc = (case acc of
     Access_Bash cmd \<Rightarrow> cfg_remember_tool_approvals C \<and> script_approved_by_name (base_env (mgr_env A)) s cmd
   | Access_MCPTool name _ \<Rightarrow> cfg_remember_tool_approvals C
       \<and> (name \<in> set (allowed_mcp_tools s) \<or> mcp_server_prefix_allowed name (allowed_mcp_servers s))
   | Access_Edit _ \<Rightarrow> allow_edits_for_session m
   | Access_WebSearch _ \<Rightarrow> True
   | Access_WebFetch url \<Rightarrow> domain_permitted (mgr_env A) (cfg_static_domains C) url
       \<or> (\<exists>host. url_host (base_env (mgr_env A)) url = Some host
            \<and> normalize_domain (base_env (mgr_env A)) host \<in> set (allowed_web_fetch_domains s))
   | _ \<Rightarrow> False)"

abbreviation answer_reasons :: "decision_reason set" where
  "answer_reasons \<equiv> {R_SESSION_GRANT, R_PERSISTED_GRANT, R_STATIC_ALLOWLIST, R_SAFE_COMMAND}"

lemma named_by_answer_iff: "named_by_answer E s ws \<longleftrightarrow> segment_matched_grant E s ws"
  by (auto simp: named_by_answer_def segment_matched_grant_def matches_whitelist_prefix_def list_ex_iff Let_def command_prefix_def)

lemma scan_all_granted:
  "scan_bash_segments E s honor sc raws = Turn_Next sc' \<Longrightarrow> scan_all_granted sc' \<longleftrightarrow>
     scan_all_granted sc \<and> (\<forall>raw \<in> set raws. is_setup_command (unwrap_wrappers raw) \<or> segment_matched_grant E s (unwrap_wrappers raw))"
proof (induction raws arbitrary: sc)
  case (Cons raw raws)
  then obtain sc1 where sc1: "scan_segment E s honor sc raw = Turn_Next sc1" "scan_bash_segments E s honor sc1 raws = Turn_Next sc'"
    by (auto split: segment_turn.splits)
  have "scan_all_granted sc1 \<longleftrightarrow> scan_all_granted sc
      \<and> (is_setup_command (unwrap_wrappers raw) \<or> segment_matched_grant E s (unwrap_wrappers raw))"
    using sc1(1) by (auto simp: scan_segment_def Let_def split: if_splits option.splits)
  then show ?case using Cons.IH [OF sc1(2)] by auto
qed simp

lemma all_granted_by_name:
  assumes "eval_segments (evaluate_bash E cmd s True) = AutoAllow via" "all_segments_granted (evaluate_bash E cmd s True)"
  obtains cs where "commands_in E cmd = Some cs"
    "\<forall>c \<in> set cs. is_setup_command (unwrap_wrappers (words c)) \<or> segment_matched_grant E s (unwrap_wrappers (words c))"
proof -
  obtain cs where cs: "commands_in E cmd = Some cs"
    using evaluate_bash_auto_allow [OF assms(1)] by (auto simp: script_vetted_def split: option.splits)
  then obtain tree where t: "try_parse_shell E cmd = Some tree" "try_parse_word_only_commands_sequence tree cmd = Some cs"
    by (auto simp: all_commands_from_script_def split: Option.bind_splits)
  let ?sc = "\<lparr>needs_prompt = [], scan_via_grant = False, scan_all_granted = True, scan_exec_risk = False,
      scan_has_git = False, scan_findings = effect_findings tree cmd (Some cs)\<rparr>"
  obtain sc' where "scan_bash_segments E s True ?sc (map words cs) = Turn_Next sc'" "scan_all_granted sc'"
    using assms by (cases "scan_bash_segments E s True ?sc (map words cs)") (auto simp: evaluate_bash_def t Let_def)
  then show thesis using scan_all_granted [of E s True ?sc "map words cs" sc'] cs that by auto
qed

lemma ask_floor_grant:
  assumes "bash_grant_pre_decision cmd e s pin ASK_FLOOR_REMEMBER = Some (Allow, r)"
    and "fst (evaluate_request_bash M w s cwd (Access_Bash cmd)) = Some e"
  shows "r \<in> answer_reasons" "script_approved_by_name (base_env M) s cmd"
proof -
  let ?ev = "evaluate_bash (base_env M) cmd s True"
  obtain via where e: "eval_segments e = AutoAllow via" "all_segments_granted e"
      "exact_grant e \<or> \<not> (\<exists>f \<in> findings e. is_grant_floor f)" and r: "r = R_SESSION_GRANT \<or> r = R_SAFE_COMMAND"
    using assms(1) by (auto simp: bash_grant_pre_decision_def ASK_FLOOR_REMEMBER_def then_grant_def
        bash_request_floor_requires_prompt_def constrains_broad_grant_def split: segment_evaluation.splits if_splits)
  show "r \<in> answer_reasons" using r by auto
  obtain e' where "fst (evaluate_request_bash M w s cwd (Access_Bash cmd)) = Some e'"
      "eval_segments e' = eval_segments ?ev" "exact_grant e' = exact_grant ?ev"
      "all_segments_granted e' = all_segments_granted ?ev" "findings ?ev \<subseteq> findings e'"
    by (rule request_evaluation [of M w s cwd cmd])
  then have ev: "eval_segments ?ev = AutoAllow via" "all_segments_granted ?ev" "exact_grant ?ev \<or> (\<forall>f \<in> findings ?ev. \<not> is_grant_floor f)"
    using assms(2) e by auto
  obtain cs where cs: "commands_in (base_env M) cmd = Some cs"
    "\<forall>c \<in> set cs. is_setup_command (unwrap_wrappers (words c)) \<or> segment_matched_grant (base_env M) s (unwrap_wrappers (words c))"
    by (rule all_granted_by_name [OF ev(1,2)])
  moreover have "\<forall>c \<in> set cs. segment_vetted (base_env M) s True (words c)"
    using evaluate_bash_auto_allow [OF ev(1)] cs(1) by (simp add: script_vetted_def)
  moreover have "\<not> script_denied (base_env M) s cmd" using evaluate_bash_rejects [of "base_env M" cmd s True] ev(1) by auto
  ultimately show "script_approved_by_name (base_env M) s cmd"
    using ev(3) by (auto simp: script_approved_by_name_def named_by_answer_iff segment_vetted_def Let_def)
qed

lemma direct_ask_table:
  assumes "direct (preflight_evaluate E policy acc cwd mode) = Some Ask"
    and "\<forall>rsn. policy_decision (preflight_evaluate E policy acc cwd mode) \<noteq> Some (Reject rsn)"
  shows "policy_forced_prompt (preflight_evaluate E policy acc cwd mode)"
    and "\<not> admits_auto_classifier (preflight_evaluate E policy acc cwd mode)"
proof -
  let ?pf = "preflight_evaluate E policy acc cwd mode"
  have "3 \<le> verdict (policy_decision ?pf)" using assms(1) by (simp add: policy_rank)
  then show p: "policy_forced_prompt ?pf"
    using policy_decision_kinds [of E policy acc cwd mode] assms(2) by (auto simp: policy_forced_prompt_def rule_verdicts_def)
  have "\<not> defers_gate_ask ?pf"
    using assms(1) by (auto simp: preflight_evaluate_def Let_def split: prod.splits)
  then show "\<not> admits_auto_classifier ?pf" using p by (simp add: admits_auto_classifier_def)
qed

lemma early_forced:
  assumes "policy_forced_prompt (f_preflight f)" "early_stage M C m f = Some (Allow, rsn, b)"
  shows "yolo_mode m \<and> rsn = R_YOLO"
  using assms by (auto simp: early_stage_def remembered_stage_def auto_policy_allows_def pre_classifier_forced_prompt_def
      split: option.splits decision.splits if_splits)

lemma mcp_allow: "mcp_pre_decision name s True remember = Some Allow \<Longrightarrow> remember \<and>
    (name \<in> set (allowed_mcp_tools s) \<or> mcp_server_prefix_allowed name (allowed_mcp_servers s))"
  by (auto simp: mcp_pre_decision_def split: if_splits)

lemma forced_pre_decision:
  assumes "policy_forced_prompt (f_preflight f)" "pre_decision (mgr_env A) C m f forced = Some (Allow, rsn)"
    and "f_evaluation f = fst (evaluate_request_bash (mgr_env A) w (f_state f) cwd (f_access f))"
  shows "rsn \<in> answer_reasons \<and> ask_rule_exception A C m (f_state f) (f_access f)"
proof (cases "f_access f")
  case (Access_MCPTool name input)
  then show ?thesis using assms mcp_allow [of name "f_state f" "cfg_remember_tool_approvals C"]
    by (auto simp: pre_decision_def ask_rule_exception_def with_session_reason_def)
next
  case (Access_WebFetch url)
  then show ?thesis using assms
    by (auto simp: pre_decision_def ask_rule_exception_def web_fetch_pre_decision_def web_fetch_deny_pre_decision_def
        split: option.splits if_splits)
next
  case (Access_Bash cmd)
  then obtain e where e: "f_evaluation f = Some e" "bash_pre_decision C f forced cmd e = Some (Allow, rsn)"
    using assms(2) by (auto simp: pre_decision_def split: option.splits)
  then have "cfg_remember_tool_approvals C"
    and g: "bash_grant_pre_decision cmd e (f_state f) (cfg_yolo_pin C) ASK_FLOOR_REMEMBER = Some (Allow, rsn)"
    using assms(1) by (auto simp: bash_pre_decision_def split: if_splits)
  then show ?thesis using ask_floor_grant [OF g, of "mgr_env A" w cwd] assms(3) e(1) Access_Bash
    by (simp add: ask_rule_exception_def)
qed (use assms in \<open>auto simp: pre_decision_def ask_rule_exception_def split: if_splits\<close>)

lemma late_forced:
  assumes "policy_forced_prompt (f_preflight f)" "late_stage (mgr_env A) C w m f forced rsn = Some (Allow, rsn', b)"
    and "f_evaluation f = fst (evaluate_request_bash (mgr_env A) w (f_state f) cwd (f_access f))"
  shows "cfg_prompt_policy C = Prompt_Allow \<and> rsn' = R_PROMPT_ALLOW
    \<or> rsn' \<in> answer_reasons \<and> ask_rule_exception A C m (f_state f) (f_access f)"
proof -
  have "policy_stage (mgr_env A) C f forced = None" "sandbox_stage w f forced = None"
    using assms(1) by (simp_all add: policy_stage_def policy_forced_prompt_def sandbox_stage_def)
  then consider "kept_pre_decision (mgr_env A) C m f forced rsn = Some (Allow, rsn')"
    | "cfg_prompt_policy C = Prompt_Allow" "rsn' = R_PROMPT_ALLOW"
    using assms(2) by (auto simp: late_stage_def orelse_def prompt_policy_stage_def split: option.splits if_splits)
  then show ?thesis
  proof cases
    case 1
    then have "pre_decision (mgr_env A) C m f forced = Some (Allow, rsn')"
      by (auto simp: kept_pre_decision_def Let_def split: if_splits)
    then show ?thesis using forced_pre_decision [OF assms(1) _ assms(3)] by blast
  qed simp
qed

text \<open>C8: An ask rule is answered without the user in listed cases only. When an ask rule matches the access of a
  request, the request is permitted by an affirmative answer to a prompt, in the always-approve mode,
  under a prompt policy that permits everything, or in one of these cases: the configuration lets
  approvals stand and every command of a script, but for those that only set up (\<open>cd\<close>, \<open>export\<close>, \<open>sleep\<close>
  and the like), or the MCP tool or its server, was approved by name;
  edits were permitted for the session; a web search; an address on an allow list. The reported reason is
  the one of its case, so it is never the classifier, the sandbox or an allow rule that answers.\<close>

theorem ask_rule_reaches_user:
  assumes "cfg_policy C = Some (compiled_policy_new E cfg)" "E = base_env (mgr_env A)"
    and "matched E cfg Action_Ask (access rq) (Some (request_cwd C rq))"
    and "handle_request A C w m rq = (Answered Allow ev, m')"
  shows "if ev_user_prompted ev then affirmative (prompt_answer w)
    else yolo_mode m \<and> ev_decision_reason ev = R_YOLO
      \<or> cfg_prompt_policy C = Prompt_Allow \<and> ev_decision_reason ev = R_PROMPT_ALLOW
      \<or> ev_decision_reason ev \<in> {R_SESSION_GRANT, R_PERSISTED_GRANT, R_STATIC_ALLOWLIST, R_SAFE_COMMAND}
        \<and> ask_rule_exception A C m (refreshed_state w (access rq) (mgr_state m)) (access rq)"
proof (cases "ev_user_prompted ev")
  case True
  then show ?thesis using answered_has_facts [OF assms(4)] prompted_allow by metis
next
  case False
  let ?s = "refreshed_state w (access rq) (mgr_state m)"
  obtain f where f: "request_facts_of A C w m rq = (?s, Some f)"
    and d: "decide_stage A C w (m\<lparr>mgr_state := ?s\<rparr>) f = (Answered Allow ev, m')"
    using answered_has_facts [OF assms(4)] by blast
  note fields = facts_fields [OF f]
  have nr: "policy_decision (f_preflight f) \<noteq> Some (Reject rsn)" for rsn
    using d by (auto simp: decide_stage_def early_stage_def settled_reply_def Let_def)
  have dir: "direct (f_preflight f) = Some Ask"
  proof -
    have "3 \<le> verdict (direct (f_preflight f))" "direct (f_preflight f) \<in> rule_verdicts"
      using direct_rank [of E cfg "access rq" "Some (request_cwd C rq)"] assms(1-3) evaluate_kinds
      by (auto simp: fields(5) preflight_direct split: if_splits)
    moreover have "verdict (policy_decision (f_preflight f)) < 4"
      using nr policy_decision_kinds [of "base_env (mgr_env A)" "cfg_policy C" "access rq" "request_cwd C rq" "auto_mode m"]
      by (auto simp: fields(5) rule_verdicts_def)
    ultimately show ?thesis by (auto simp: policy_rank rule_verdicts_def)
  qed
  have forced: "policy_forced_prompt (f_preflight f)" "\<not> admits_auto_classifier (f_preflight f)"
    using direct_ask_table dir nr by (metis fields(5))+
  from d False show ?thesis
  proof (cases rule: unprompted_cases)
    case (early rsn b)
    then show ?thesis using early_forced [OF forced(1) early(1)] early(3) False by simp
  next
    case (auto rsn b cls denials)
    then show ?thesis using forced(2) by (simp add: auto_stage_def Let_def)
  next
    case (late forced0 rsn cls denials rsn' b)
    then have "ask_rule_exception A C m' (f_state f) (f_access f) = ask_rule_exception A C m (f_state f) (f_access f)"
      by (simp add: ask_rule_exception_def with_denials_def split: access_kind.split)
    then show ?thesis using late_forced [OF forced(1) late(4), of "request_cwd C rq"] late(5) fields(2,3,7) False by auto
  qed
qed

section \<open>What is remembered\<close>

definition lasting :: "prompt_outcome \<Rightarrow> bool" where
  "lasting out = (case out of
     AllowOnce \<Rightarrow> False | RejectOnce \<Rightarrow> False | Prompt_Cancelled \<Rightarrow> False | Prompt_Followup _ \<Rightarrow> False | Prompt_Error _ \<Rightarrow> False
   | _ \<Rightarrow> True)"

lemma passing_effect:
  assumes "\<not> lasting out"
  shows "eff_state (prompt_effect_of E s acc out) = s" "\<not> eff_persists (prompt_effect_of E s acc out)"
    "\<not> eff_allow_edits (prompt_effect_of E s acc out)"
  using assms by (cases out; simp add: lasting_def prompt_effect_of_def effect_simps split: access_kind.split)+

lemma message_effect:
  "eff_state (prompt_effect_of E s (Access_AgentMessage i) out) = s"
  "\<not> eff_persists (prompt_effect_of E s (Access_AgentMessage i) out)"
  "\<not> eff_allow_edits (prompt_effect_of E s (Access_AgentMessage i) out)"
  by (cases out; simp add: prompt_effect_of_def effect_simps)+

definition memory :: "manager \<Rightarrow> permission_state \<times> disk \<times> bool" where
  "memory m = (mgr_state m, mgr_disk m, allow_edits_for_session m)"

lemma memory_simps [simp]: "memory (with_denials x m) = memory m"
  by (simp add: memory_def with_denials_def)

lemma prompt_stage_memory:
  assumes "\<not> gone_before_prompt w"
  shows "memory (snd (prompt_stage A C w m f cls rsn)) =
    (let eff = prompt_effect_of (base_env (mgr_env A)) (mgr_state m) (f_access f) (prompt_answer w)
     in (eff_state eff, if eff_persists eff then persist C (eff_state eff) (mgr_disk m) else mgr_disk m,
         allow_edits_for_session m \<or> eff_allow_edits eff))"
  using assms by (simp add: prompt_stage_def memory_def with_denials_def Let_def)

lemma prompt_memory:
  assumes "prompt_stage A C w m f cls rsn = (r, m')" "memory m' \<noteq> memory m"
  shows "(\<exists>d ev. r = Answered d ev \<and> ev_user_prompted ev) \<and> lasting (prompt_answer w) \<and> (\<forall>i. f_access f \<noteq> Access_AgentMessage i)"
proof -
  have g: "\<not> gone_before_prompt w" using assms by (auto simp: prompt_stage_def Let_def)
  then have "\<exists>d ev. r = Answered d ev \<and> ev_user_prompted ev" using assms(1) by (auto simp: prompt_stage_def Let_def)
  moreover have "lasting (prompt_answer w)"
    using assms(2) passing_effect [of "prompt_answer w"] prompt_stage_memory [OF g, of A C m f cls rsn]
    unfolding assms(1) memory_def by (simp add: Let_def) metis
  moreover have "f_access f \<noteq> Access_AgentMessage i" for i
    using assms(2) prompt_stage_memory [OF g, of A C m f cls rsn] unfolding assms(1) memory_def
    by (auto simp: message_effect Let_def)
  ultimately show ?thesis by blast
qed

lemma decide_memory:
  assumes "decide_stage A C w m f = (r, m')" "memory m' \<noteq> memory m"
  shows "(\<exists>d ev. r = Answered d ev \<and> ev_user_prompted ev) \<and> lasting (prompt_answer w) \<and> (\<forall>i. f_access f \<noteq> Access_AgentMessage i)"
proof -
  obtain forced rsn cls denials where "prompt_stage A C w (with_denials denials m) f cls rsn = (r, m')"
    using assms by (auto simp: decide_stage_def Let_def split: option.splits auto_result.splits)
  then show ?thesis using prompt_memory assms(2) by (metis memory_simps)
qed

text \<open>C9: Only a lasting answer of the user is remembered. Whatever the outcome of a request, the grants, the
  store and the permission for edits after it are those before it (with the store read again), or the
  request was put to the user, was not a message to a subagent, and was answered for always.\<close>

theorem only_answers_are_remembered:
  "case handle_request A C w m rq of (r, m') \<Rightarrow>
     memory m' = memory m
   \<or> memory m' = memory (m\<lparr>mgr_state := refreshed_state w (access rq) (mgr_state m)\<rparr>)
   \<or> (\<exists>d ev. r = Answered d ev \<and> ev_user_prompted ev) \<and> lasting (prompt_answer w)
       \<and> (\<nexists>i. access rq = Access_AgentMessage i)"
proof (cases "gone_at_dequeue w")
  case True
  then show ?thesis by (simp add: handle_request_def)
next
  case False
  obtain s fo where f: "request_facts_of A C w m rq = (s, fo)" by (cases "request_facts_of A C w m rq")
  have s: "s = refreshed_state w (access rq) (mgr_state m)"
    using f by (auto simp: request_facts_of_def Let_def split: prod.splits)
  show ?thesis
  proof (cases fo)
    case None
    then show ?thesis using f False s by (simp add: handle_request_def)
  next
    case (Some g)
    obtain r m' where d: "decide_stage A C w (m\<lparr>mgr_state := s\<rparr>) g = (r, m')"
      by (cases "decide_stage A C w (m\<lparr>mgr_state := s\<rparr>) g")
    have "handle_request A C w m rq = (r, m')" using handle_request_facts [OF False] f Some d by simp
    then show ?thesis using decide_memory [OF d] facts_fields(2) f Some s by auto
  qed
qed

section \<open>Concrete requests\<close>

definition demo_actor :: actor_env where
  "demo_actor = \<lparr>mgr_env = \<lparr>base_env = demo_env, url_path = (\<lambda>u. u), git = demo_git, user_grok_home = None, tilde_expand = (\<lambda>p. p)\<rparr>,
     clf_env = demo_classifier_env\<rparr>"

definition demo_config :: manager_config where
  "demo_config = \<lparr>cfg_cwd = ''/w'', cfg_store_dir = ''/s'', cfg_legacy_dir = None, cfg_writer = write_file, cfg_client_id = None,
     cfg_client_type = GrokTUI, cfg_prompt_policy = Prompt_Ask,
     cfg_policy = Some (compiled_policy_new demo_env (permission_config_new
       [\<lparr>action = Action_Deny, tool = Filter_Read, pattern = Some ''/etc/*'', pattern_mode = Mode_Glob\<rparr>,
        \<lparr>action = Action_Ask, tool = Filter_Read, pattern = None, pattern_mode = Mode_Glob\<rparr>,
        \<lparr>action = Action_Ask, tool = Filter_WebSearch, pattern = None, pattern_mode = Mode_Glob\<rparr>])),
     cfg_yolo_pin = None, cfg_remember_tool_approvals = False, cfg_static_domains = Map.empty, cfg_allowlist_is_default = True\<rparr>"

definition demo_world :: world where
  "demo_world = \<lparr>gone_at_dequeue = False, reloaded = None, scan_died = False, gone_after_scan = False, occasion = 0,
     gone_in_classify = False, classify_ms = 0, sandbox_active = False, gone_before_prompt = False,
     prompt_answer = AllowOnce, gone_after_prompt = False\<rparr>"

definition demo_manager :: "bool \<Rightarrow> manager" where
  "demo_manager always_approve = spawn_permission_manager_with_pin demo_actor demo_config always_approve (\<lambda>_. No_File)"

definition plain_request :: "access_kind \<Rightarrow> permission_request" where
  "plain_request acc = \<lparr>access = acc, path_context = None, request_hook = None\<rparr>"

text \<open>Whether a request is permitted, and whether it was put to the user.\<close>

definition allowed_by :: "reply \<times> manager \<Rightarrow> bool \<Rightarrow> bool" where
  "allowed_by r prompted = (case fst r of Answered d ev \<Rightarrow> d = Allow \<and> ev_user_prompted ev = prompted | Unanswered _ \<Rightarrow> False)"

lemma allowed_byE:
  assumes "allowed_by r prompted"
  obtains ev m' where "r = (Answered Allow ev, m')" "ev_user_prompted ev = prompted"
  using assms by (cases r; cases "fst r") (auto simp: allowed_by_def)

lemma hook_file_named:
  "names_protected (mgr_env demo_actor) demo_config (plain_request (Access_Edit ''/w/.git/hooks/pre-commit'')) s"
proof -
  have "protected_edit_reason (mgr_env demo_actor) (normalize_lexically
      (resolve_for_request (mgr_env demo_actor) demo_config (plain_request (Access_Edit ''/w/.git/hooks/pre-commit'')) ''/w/.git/hooks/pre-commit''))
    = Some GitHooks" by code_simp
  then show ?thesis unfolding names_protected_def in_protected_place_def protected_edit_iff [symmetric]
    by (simp add: plain_request_def)
qed

text \<open>A patch is requested under the name of its tool, whatever files it changes. So an allow rule for edits permits it
  with no prompt, also where it writes a protected file, and the same rule does not permit an edit that names the file.\<close>

definition editing_config :: manager_config where
  "editing_config = demo_config\<lparr>cfg_policy := Some (compiled_policy_new demo_env (permission_config_new
     [\<lparr>action = Action_Allow, tool = Filter_Edit, pattern = None, pattern_mode = Mode_Glob\<rparr>]))\<rparr>"

lemma patch_permitted_unasked:
  "allowed_by (handle_request demo_actor editing_config demo_world (demo_manager False) (plain_request (Access_Edit ''apply_patch''))) False"
  "allowed_by (handle_request demo_actor editing_config demo_world (demo_manager False) (plain_request (Access_Edit ''/etc/hosts''))) True"
  by code_simp+

theorem hook_ask_reaches_user_witness:
  "\<exists>ev m'. handle_request demo_actor demo_config demo_world (demo_manager True)
       \<lparr>access = Access_WebSearch ''q'', path_context = None, request_hook = Some \<lparr>hook_name = ''h'', reason = None\<rparr>\<rparr> =
         (Answered Allow ev, m')
     \<and> ev_user_prompted ev"
proof -
  let ?rq = "\<lparr>access = Access_WebSearch ''q'', path_context = None, request_hook = Some \<lparr>hook_name = ''h'', reason = None\<rparr>\<rparr>"
  have "allowed_by (handle_request demo_actor demo_config demo_world (demo_manager True) ?rq) True" by code_simp
  then obtain ev m' where r: "handle_request demo_actor demo_config demo_world (demo_manager True) ?rq = (Answered Allow ev, m')"
    by (rule allowed_byE)
  moreover have "ev_user_prompted ev \<and> affirmative (prompt_answer demo_world)"
    by (rule hook_ask_reaches_user [OF _ r]) simp
  ultimately show ?thesis by blast
qed


theorem deny_rule_is_final_witness:
  "\<exists>rsn ev m'. handle_request demo_actor demo_config demo_world (demo_manager True) (plain_request (Access_Read (Some ''/etc/passwd'')))
     = (Answered (PolicyDeny rsn) ev, m')"
proof -
  let ?cfg = "permission_config_new
       [\<lparr>action = Action_Deny, tool = Filter_Read, pattern = Some ''/etc/*'', pattern_mode = Mode_Glob\<rparr>,
        \<lparr>action = Action_Ask, tool = Filter_Read, pattern = None, pattern_mode = Mode_Glob\<rparr>,
        \<lparr>action = Action_Ask, tool = Filter_WebSearch, pattern = None, pattern_mode = Mode_Glob\<rparr>]"
  let ?rq = "plain_request (Access_Read (Some ''/etc/passwd''))"
  have "matched demo_env ?cfg Action_Deny (access ?rq) (Some (request_cwd demo_config ?rq))" by code_simp
  then show ?thesis
    using deny_rule_is_final [of demo_config demo_env ?cfg demo_actor ?rq demo_world "demo_manager True"]
    by (auto simp: demo_config_def demo_actor_def demo_world_def)
qed

text \<open>An ask rule on web searches is one of the exceptions: the search runs with no prompt.\<close>

theorem ask_rule_reaches_user_witness:
  "\<exists>ev m'. handle_request demo_actor demo_config demo_world (demo_manager False) (plain_request (Access_WebSearch ''q''))
       = (Answered Allow ev, m')
     \<and> \<not> ev_user_prompted ev
     \<and> ask_rule_exception demo_actor demo_config (demo_manager False) permission_state_default (Access_WebSearch ''q'')"
proof -
  let ?cfg = "permission_config_new
       [\<lparr>action = Action_Deny, tool = Filter_Read, pattern = Some ''/etc/*'', pattern_mode = Mode_Glob\<rparr>,
        \<lparr>action = Action_Ask, tool = Filter_Read, pattern = None, pattern_mode = Mode_Glob\<rparr>,
        \<lparr>action = Action_Ask, tool = Filter_WebSearch, pattern = None, pattern_mode = Mode_Glob\<rparr>]"
  let ?rq = "plain_request (Access_WebSearch ''q'')"
  have "allowed_by (handle_request demo_actor demo_config demo_world (demo_manager False) ?rq) False" by code_simp
  then obtain ev m' where r: "handle_request demo_actor demo_config demo_world (demo_manager False) ?rq = (Answered Allow ev, m')"
    and p: "\<not> ev_user_prompted ev" by (rule allowed_byE) simp
  have "matched demo_env ?cfg Action_Ask (access ?rq) (Some (request_cwd demo_config ?rq))" by code_simp
  moreover have "mgr_state (demo_manager False) = permission_state_default" "\<not> yolo_mode (demo_manager False)"
    "refreshed_state demo_world (access ?rq) permission_state_default = permission_state_default" by code_simp+
  ultimately show ?thesis using ask_rule_reaches_user [of demo_config demo_env ?cfg demo_actor ?rq demo_world "demo_manager False" ev m'] r p
    by (auto simp: demo_config_def demo_actor_def plain_request_def)
qed

text \<open>A script that consists of commands that only set up needs no approval at all under an ask rule, when approvals
  may stand: nothing was granted here.\<close>

lemma setup_needs_no_approval:
  "bash_grant_pre_decision ''cd'' (evaluate_bash (demo_env\<lparr>try_parse_shell := (\<lambda>_. Some ls_tree)\<rparr>) ''cd'' permission_state_default True)
     permission_state_default None ASK_FLOOR_REMEMBER = Some (Allow, R_SAFE_COMMAND)"
  by code_simp

text \<open>In automatic mode a shell command that the gates cannot take apart goes to the classifier before the
  remembered answers are looked at. So the classifier may approve a command that the user has excluded
  for the project; without any rule for the shell the same command is refused.\<close>

definition trusting :: classifier where
  "trusting = (\<lambda>_ _ _ _ _. outcome_heuristic Verdict_Allow)"

definition excluding_manager :: manager where
  "excluding_manager = (demo_manager False)\<lparr>auto_mode := True, auto_classifier := Some trusting,
     mgr_state := permission_state_default\<lparr>disallowed_bash_commands := [''rm'']\<rparr>\<rparr>"

definition curl_config :: manager_config where
  "curl_config = demo_config\<lparr>cfg_policy := Some (compiled_policy_new demo_env (permission_config_new
     [\<lparr>action = Action_Deny, tool = Filter_Bash, pattern = Some ''curl *'', pattern_mode = Mode_Glob\<rparr>]))\<rparr>"

lemma excluded_command_approved:
  "allowed_by (handle_request demo_actor curl_config demo_world excluding_manager (plain_request (Access_Bash ''rm x''))) False"
  "case fst (handle_request demo_actor (demo_config\<lparr>cfg_policy := None\<rparr>) demo_world excluding_manager
      (plain_request (Access_Bash ''rm x''))) of Answered (Reject _) ev \<Rightarrow> ev_decision_reason ev = R_SESSION_DENY | _ \<Rightarrow> False"
  by code_simp+

end
