(* ===== verification/Permission_Handle.thy ===== *)
theory Permission_Handle
  imports Manager_Decisions
begin

text \<open>
  The permission manager over time: runs of its loop, and the handle (\<open>PermissionHandle\<close> of
  \<open>permission/manager/mod.rs\<close>) through which sessions change its modes and ask it.

  A handle keeps two flags beside the mailbox of the actor, so that the mode can be read without a
  message. A call stores the flags and then sends; the actor stores them again when it takes the
  message. The steps of calls, from any number of clones of the handle, and of the actor interleave
  freely, one store or one message at a time.
\<close>

section \<open>The state of the actor over a run\<close>

definition manager_ok :: "manager_config \<Rightarrow> manager \<Rightarrow> bool" where
  "manager_ok C m \<longleftrightarrow> (yolo_mode m \<longrightarrow> cfg_yolo_pin C = None) \<and> \<not> (yolo_mode m \<and> auto_mode m)
     \<and> auto_consecutive_denials m \<le> AUTO_DENY_CONSECUTIVE_LIMIT \<and> auto_total_denials m \<le> AUTO_DENY_TOTAL_LIMIT
     \<and> auto_consecutive_denials m \<le> auto_total_denials m
     \<and> length (recorded_permission_decisions m) \<le> MAX_RECORDED_PERMISSION_DECISIONS
     \<and> edit_policy_of (mgr_state m) \<noteq> Edit_Allow"

lemma manager_okI:
  assumes "manager_ok C m" "yolo_mode m' = yolo_mode m" "auto_mode m' = auto_mode m"
    "edit_policy_of (mgr_state m') = edit_policy_of (mgr_state m)"
    "auto_consecutive_denials m' \<le> AUTO_DENY_CONSECUTIVE_LIMIT" "auto_total_denials m' \<le> AUTO_DENY_TOTAL_LIMIT"
    "auto_consecutive_denials m' \<le> auto_total_denials m'"
    "length (recorded_permission_decisions m') \<le> MAX_RECORDED_PERMISSION_DECISIONS"
  shows "manager_ok C m'"
  using assms by (simp add: manager_ok_def)

lemma spawn_ok: "manager_ok C (spawn_permission_manager_with_pin A C y D)"
  by (auto simp: manager_ok_def spawn_permission_manager_with_pin_def clamp_yolo_def Let_def split: prod.split)

definition denials_ok :: "nat \<times> nat \<Rightarrow> bool" where
  "denials_ok d \<longleftrightarrow> fst d \<le> AUTO_DENY_CONSECUTIVE_LIMIT \<and> snd d \<le> AUTO_DENY_TOTAL_LIMIT \<and> fst d \<le> snd d"

fun denials_after :: "auto_result \<Rightarrow> (nat \<times> nat) option" where
  "denials_after (Auto_Settled _ _ _ _ d) = Some d"
| "denials_after (Auto_Gone _) = None"
| "denials_after (Auto_Pass _ _ _ d) = Some d"

lemma verdict_denials:
  "denials_ok d \<Longrightarrow> denials_after (verdict_stage C hook cls d v out) = Some d' \<Longrightarrow> denials_ok d'"
  by (auto simp: verdict_stage_def denials_ok_def split: classifier_verdict.splits if_splits)

lemma classify_denials:
  "denials_ok d \<Longrightarrow> denials_after (classify_stage A C w m f d) = Some d' \<Longrightarrow> denials_ok d'"
  by (auto simp: classify_stage_def Let_def split: option.splits if_splits access_kind.splits elim: verdict_denials)

lemma auto_denials:
  assumes "denials_ok (auto_consecutive_denials m, auto_total_denials m)" "denials_after (auto_stage A C w m f) = Some d'"
  shows "denials_ok d'"
  using assms classify_denials [OF assms(1)]
  by (auto simp: auto_stage_def Let_def split: auto_fast_path.splits if_splits)

lemma manager_ok_denials: "manager_ok C m \<Longrightarrow> denials_ok (auto_consecutive_denials m, auto_total_denials m)"
  by (simp add: manager_ok_def denials_ok_def)

lemma with_denials_ok: "manager_ok C m \<Longrightarrow> denials_ok d \<Longrightarrow> manager_ok C (with_denials d m)"
  by (rule manager_okI) (auto simp: with_denials_def denials_ok_def manager_ok_def)

lemma record_decision_bound:
  "length r \<le> MAX_RECORDED_PERMISSION_DECISIONS \<Longrightarrow> length (record_decision A acc d r) \<le> MAX_RECORDED_PERMISSION_DECISIONS"
  by (cases d) (simp_all add: record_decision_def MAX_RECORDED_PERMISSION_DECISIONS_def Let_def)

lemma bash_effect_policy: "edit_policy_of (eff_state (bash_effect E s cmd out)) = edit_policy_of s"
  by (cases out) (simp_all add: effect_simps persist_bash_always_allow_def Let_def split: option.split)

lemma other_effect_policy: "edit_policy_of (eff_state (other_effect E s acc out)) = edit_policy_of s"
  by (cases out) (simp_all add: effect_simps allow_mcp_tool_def split: access_kind.split option.split)

lemma effect_policy: "edit_policy_of (eff_state (prompt_effect_of E s acc out)) = edit_policy_of s"
  by (simp add: prompt_effect_of_def bash_effect_policy other_effect_policy split: access_kind.split)

text \<open>What a prompt adds to the state is a list of answers, so an actor that stores an answer is a session of
  \<open>Grant_State\<close> that answers.\<close>

lemma remember_runs:
  "fold remember_answer (map May_Run cs) s = s\<lparr>allowed_bash_commands := Grant_State.extend (allowed_bash_commands s) cs\<rparr>"
  by (induction cs arbitrary: s) (simp_all add: Grant_State.extend_def)

lemma remember_none: "\<exists>as. s = fold remember_answer as s"
  by (rule exI [of _ "[]"]) simp

lemma remember_one: "s' = remember_answer a s \<Longrightarrow> \<exists>as. s' = fold remember_answer as s"
  by (rule exI [of _ "[a]"]) simp

lemma bash_effect_answers: "\<exists>as. eff_state (bash_effect E s cmd out) = fold remember_answer as s"
proof (cases out)
  case AllowAlways
  have "eff_state (bash_effect E s cmd out) = fold remember_answer (map May_Run (cmd # bash_grant_segments E cmd)) s"
    unfolding remember_runs by (simp add: AllowAlways effect_simps Grant_State.extend_def)
  then show ?thesis by blast
next
  case (AllowAlwaysBashCommand label)
  then show ?thesis
    using remember_one [of _ "May_Run label" s] remember_one [of _ "May_Run cmd" s]
    by (auto simp: effect_simps persist_bash_always_allow_def remember_none Let_def split: option.split)
next
  case (AllowAlwaysBashGlob pat)
  then show ?thesis using remember_one [of _ "May_Glob pat" s] by (simp add: effect_simps remember_none)
next
  case (RejectAlwaysBashCommand label)
  then show ?thesis using remember_one [of _ "Never_Run label" s] by (simp add: effect_simps)
qed (simp_all add: effect_simps remember_none)

lemma other_effect_answers: "\<exists>as. eff_state (other_effect E s acc out) = fold remember_answer as s"
proof (cases acc)
  case (Access_MCPTool name input)
  then show ?thesis
    using remember_one [of _ "May_Call name" s] remember_one [of _ "Never_Call name" s]
      remember_one [of _ "May_Call_Server server" s for server]
    by (cases out) (auto simp: effect_simps allow_mcp_tool_def remember_none)
next
  case (Access_WebFetch url)
  then show ?thesis
    using remember_one [of _ "May_Fetch d" s for d] remember_one [of _ "Never_Fetch d" s for d]
    by (cases out) (auto simp: effect_simps remember_none split: option.split)
qed (cases out; simp add: effect_simps remember_none)+

lemma prompt_adds_answers: "\<exists>as. eff_state (prompt_effect_of E s acc out) = fold remember_answer as s"
  by (simp add: prompt_effect_of_def bash_effect_answers other_effect_answers split: access_kind.split)

lemma prompt_ok: "manager_ok C m \<Longrightarrow> manager_ok C (snd (prompt_stage A C w m f cls rsn))"
  by (rule manager_okI, assumption)
    (auto simp: prompt_stage_def with_denials_def effect_policy record_decision_bound manager_ok_def Let_def)

lemma decide_ok:
  assumes "manager_ok C m"
  shows "manager_ok C (snd (decide_stage A C w m f))"
proof -
  have "manager_ok C (with_denials d m)" if "denials_after (auto_stage A C w m f) = Some d" for d
    using with_denials_ok [OF assms] auto_denials [OF manager_ok_denials [OF assms] that] by blast
  then show ?thesis using assms prompt_ok
    by (auto simp: decide_stage_def Let_def split: option.split auto_result.split)
qed

lemma refreshed_policy: "edit_policy_of (refreshed_state w acc s) = edit_policy_of s"
  by (simp add: refreshed_state_def split: option.split)

lemma handle_ok:
  assumes "manager_ok C m"
  shows "manager_ok C (snd (handle_request A C w m rq))"
proof -
  have "manager_ok C (m\<lparr>mgr_state := refreshed_state w (access rq) (mgr_state m)\<rparr>)"
    using assms by (simp add: manager_ok_def refreshed_policy)
  then show ?thesis using assms decide_ok
    by (auto simp: handle_request_def request_facts_of_def Let_def split: prod.split option.split)
qed

lemma mode_ok:
  assumes "manager_ok C m"
  shows "manager_ok C (set_yolo C enabled m)" "manager_ok C (set_auto A enabled m)" "manager_ok C (reset_state C m)"
    "manager_ok C (m\<lparr>auto_classifier := clf\<rparr>)" "manager_ok C (m\<lparr>classifier_turns := ts\<rparr>)"
    "manager_ok C (m\<lparr>mgr_instructions := ins\<rparr>)"
  using assms
  by (simp_all add: manager_ok_def set_yolo_def set_auto_def reset_state_def clamp_yolo_def permission_state_default_def Let_def)
    auto

lemma actor_step_ok:
  assumes "manager_ok C m" "actor_step A C w m c = Some (r, m')"
  shows "manager_ok C m'"
proof (cases c)
  case (Cmd_Request rq)
  then show ?thesis using assms handle_ok [of C m A w rq] by (simp split: prod.splits)
qed (use assms mode_ok [OF assms(1)] in auto)

lemma actor_run_ok: "manager_ok C m \<Longrightarrow> manager_ok C (snd (actor_run A C m cs))"
  by (induction A C m cs rule: actor_run.induct) (auto split: option.split prod.split dest: actor_step_ok)

text \<open>C21: The state of the manager stays well-formed. From the start on, through any sequence of requests,
  changes of mode and resets, in any world, the always-approve mode and the automatic mode exclude each
  other, a pinned always-approve mode is off, at most three denials in a row and twenty in all are
  counted and no more in a row than in all, at most twelve decisions are kept for the classifier, and the withdrawn
  blanket permission for edits does not come back.\<close>

theorem manager_stays_well_formed:
  "manager_ok C (snd (actor_run A C (spawn_permission_manager_with_pin A C initial_yolo D) cs))"
  by (rule actor_run_ok) (rule spawn_ok)

section \<open>The handle\<close>

text \<open>The calls of the handle that change the manager, each a sequence of stores and one message.\<close>

datatype handle_call =
    set_yolo_mode bool
  | set_auto_mode bool
  | set_classifier "classifier option"
  | set_classifier_with_side_query classifier bool
  | set_llm_side_query_wired bool
  | set_classifier_transcript "classifier_turn list"
  | set_project_instructions "string option"
  | call_reset_state
  | call_request permission_request

datatype handle_op = Store_Yolo bool | Store_Auto bool | Store_Side_Query bool | Send permission_command

definition mode_stores_yolo :: "manager_config \<Rightarrow> bool \<Rightarrow> handle_op list" where
  "mode_stores_yolo C enabled =
     (let clamped = clamp_yolo enabled (cfg_yolo_pin C) in Store_Yolo clamped # (if clamped then [Store_Auto False] else []))"

definition mode_stores_auto :: "bool \<Rightarrow> handle_op list" where
  "mode_stores_auto enabled = Store_Auto enabled # (if enabled then [Store_Yolo False] else [])"

fun call_ops :: "manager_config \<Rightarrow> handle_call \<Rightarrow> handle_op list" where
  "call_ops C (set_yolo_mode enabled) = mode_stores_yolo C enabled @ [Send (SetYoloMode enabled)]"
| "call_ops C (set_auto_mode enabled) = mode_stores_auto enabled @ [Send (SetAutoMode enabled)]"
| "call_ops C (set_classifier clf) = [Store_Side_Query False, Send (SetClassifier clf)]"
| "call_ops C (set_classifier_with_side_query clf has) = [Store_Side_Query has, Send (SetClassifier (Some clf))]"
| "call_ops C (set_llm_side_query_wired wired) = [Store_Side_Query wired]"
| "call_ops C (set_classifier_transcript ts) = [Send (SetClassifierTranscript ts)]"
| "call_ops C (set_project_instructions ins) = [Send (SetProjectInstructions ins)]"
| "call_ops C call_reset_state = [Send ResetState]"
| "call_ops C (call_request rq) = [Send (Cmd_Request rq)]"

text \<open>The stores of the actor when it takes a command.\<close>

fun actor_stores :: "manager_config \<Rightarrow> permission_command \<Rightarrow> handle_op list" where
  "actor_stores C (SetYoloMode enabled) = mode_stores_yolo C enabled"
| "actor_stores C (SetAutoMode enabled) = mode_stores_auto enabled"
| "actor_stores C _ = []"

record shared =
  yolo_state :: bool
  auto_state :: bool
  side_query_wired :: bool
  mailbox :: "permission_command list"
  running :: bool

fun run_op :: "handle_op \<Rightarrow> shared \<Rightarrow> shared" where
  "run_op (Store_Yolo b) s = s\<lparr>yolo_state := b\<rparr>"
| "run_op (Store_Auto b) s = s\<lparr>auto_state := b\<rparr>"
| "run_op (Store_Side_Query b) s = s\<lparr>side_query_wired := b\<rparr>"
| "run_op (Send c) s = (if running s then s\<lparr>mailbox := mailbox s @ [c]\<rparr> else s)"

text \<open>A handle that is not connected to an actor permits everything; a request through one that is takes the
  answer of the actor, and is refused when the actor is gone or goes before it answers.\<close>

datatype permission_handle = AllowAll | Handle_Actor

datatype request_result = Send_Failed | Answer_Dropped | Resolved decision permission_event

fun request_resolution :: "permission_handle \<Rightarrow> request_result \<Rightarrow> decision \<times> permission_event option" where
  "request_resolution AllowAll _ = (Allow, None)"
| "request_resolution Handle_Actor Send_Failed = (Reject ''permission manager unavailable'', None)"
| "request_resolution Handle_Actor Answer_Dropped = (Reject ''failed to receive permission decision'', None)"
| "request_resolution Handle_Actor (Resolved d ev) = (d, Some ev)"

fun is_yolo_mode :: "permission_handle \<Rightarrow> shared \<Rightarrow> bool" where
  "is_yolo_mode AllowAll s = True"
| "is_yolo_mode Handle_Actor s = yolo_state s"

fun is_auto_mode :: "permission_handle \<Rightarrow> shared \<Rightarrow> bool" where
  "is_auto_mode AllowAll s = False"
| "is_auto_mode Handle_Actor s = auto_state s"

fun has_llm_side_query :: "permission_handle \<Rightarrow> shared \<Rightarrow> bool" where
  "has_llm_side_query AllowAll s = False"
| "has_llm_side_query Handle_Actor s = side_query_wired s"

section \<open>Handles and the actor, interleaved\<close>

text \<open>A system: what is shared, the actor's own state, the stores it has still to make for the command it
  has taken, and for every call that has begun the rest of its steps.\<close>

record system =
  shr :: shared
  actor :: manager
  actor_todo :: "handle_op list"
  calls :: "handle_op list list"

definition spawn_system :: "actor_env \<Rightarrow> manager_config \<Rightarrow> bool \<Rightarrow> disk \<Rightarrow> system" where
  "spawn_system A C initial_yolo D =
     (let m = spawn_permission_manager_with_pin A C initial_yolo D
      in \<lparr>shr = \<lparr>yolo_state = yolo_mode m, auto_state = auto_mode m, side_query_wired = False, mailbox = [], running = True\<rparr>,
          actor = m, actor_todo = [], calls = []\<rparr>)"

inductive system_step :: "actor_env \<Rightarrow> manager_config \<Rightarrow> system \<Rightarrow> system \<Rightarrow> bool" for A C where
  Begin: "system_step A C s (s\<lparr>calls := call_ops C c # calls s\<rparr>)"
| Call: "calls s = before @ (x # rest) # after \<Longrightarrow>
     system_step A C s (s\<lparr>shr := run_op x (shr s), calls := before @ rest # after\<rparr>)"
| Take: "actor_todo s = [] \<Longrightarrow> running (shr s) \<Longrightarrow> mailbox (shr s) = c # cs \<Longrightarrow> actor_step A C w (actor s) c = Some (r, m') \<Longrightarrow>
     system_step A C s (s\<lparr>shr := (shr s)\<lparr>mailbox := cs\<rparr>, actor := m', actor_todo := actor_stores C c\<rparr>)"
| Stop: "actor_todo s = [] \<Longrightarrow> running (shr s) \<Longrightarrow> mailbox (shr s) = c # cs \<Longrightarrow> actor_step A C w (actor s) c = None \<Longrightarrow>
     system_step A C s (s\<lparr>shr := (shr s)\<lparr>mailbox := cs, running := False\<rparr>\<rparr>)"
| Store: "actor_todo s = x # xs \<Longrightarrow> system_step A C s (s\<lparr>shr := run_op x (shr s), actor_todo := xs\<rparr>)"

inductive reachable :: "actor_env \<Rightarrow> manager_config \<Rightarrow> bool \<Rightarrow> disk \<Rightarrow> system \<Rightarrow> bool" for A C y D where
  Spawned: "reachable A C y D (spawn_system A C y D)"
| Steps: "reachable A C y D s \<Longrightarrow> system_step A C s s' \<Longrightarrow> reachable A C y D s'"

text \<open>Whether a command, or a step, writes the flag of the always-approve mode, or of the automatic mode.\<close>

definition writes_yolo :: "handle_op list \<Rightarrow> bool" where "writes_yolo xs \<longleftrightarrow> (\<exists>b. Store_Yolo b \<in> set xs)"
definition writes_auto :: "handle_op list \<Rightarrow> bool" where "writes_auto xs \<longleftrightarrow> (\<exists>b. Store_Auto b \<in> set xs)"

lemma writes_simps [simp]:
  "\<not> writes_yolo []" "\<not> writes_auto []"
  "writes_yolo (x # xs) \<longleftrightarrow> (\<exists>b. x = Store_Yolo b) \<or> writes_yolo xs"
  "writes_auto (x # xs) \<longleftrightarrow> (\<exists>b. x = Store_Auto b) \<or> writes_auto xs"
  by (auto simp: writes_yolo_def writes_auto_def)

text \<open>A call that stores a flag still has to send a command for which the actor stores it too.\<close>

fun call_ok :: "manager_config \<Rightarrow> handle_op list \<Rightarrow> bool" where
  "call_ok C [] = True"
| "call_ok C (Store_Yolo b # xs) = (call_ok C xs \<and> (b \<longrightarrow> cfg_yolo_pin C = None)
     \<and> (\<exists>c. Send c \<in> set xs \<and> writes_yolo (actor_stores C c)))"
| "call_ok C (Store_Auto b # xs) = (call_ok C xs \<and> (\<exists>c. Send c \<in> set xs \<and> writes_auto (actor_stores C c)))"
| "call_ok C (_ # xs) = call_ok C xs"

definition pending :: "system \<Rightarrow> permission_command set" where
  "pending s = set (mailbox (shr s)) \<union> {c. \<exists>xs \<in> set (calls s). Send c \<in> set xs}"

definition flags_ok :: "manager_config \<Rightarrow> system \<Rightarrow> bool" where
  "flags_ok C s \<longleftrightarrow> manager_ok C (actor s) \<and> list_all (call_ok C) (calls s)
     \<and> (\<forall>b. Store_Yolo b \<in> set (actor_todo s) \<longrightarrow> b = yolo_mode (actor s))
     \<and> (\<forall>b. Store_Auto b \<in> set (actor_todo s) \<longrightarrow> b = auto_mode (actor s))
     \<and> (yolo_state (shr s) \<longrightarrow> cfg_yolo_pin C = None)
     \<and> (running (shr s) \<longrightarrow> \<not> writes_yolo (actor_todo s) \<longrightarrow> (\<forall>c \<in> pending s. \<not> writes_yolo (actor_stores C c))
          \<longrightarrow> yolo_state (shr s) = yolo_mode (actor s))
     \<and> (running (shr s) \<longrightarrow> \<not> writes_auto (actor_todo s) \<longrightarrow> (\<forall>c \<in> pending s. \<not> writes_auto (actor_stores C c))
          \<longrightarrow> auto_state (shr s) = auto_mode (actor s))"

lemma call_ops_ok: "call_ok C (call_ops C c)"
  by (cases c) (auto simp: mode_stores_yolo_def mode_stores_auto_def clamp_yolo_def Let_def)

lemma handle_keeps_modes:
  "yolo_mode (snd (handle_request A C w m rq)) = yolo_mode m" "auto_mode (snd (handle_request A C w m rq)) = auto_mode m"
  by (simp_all add: handle_request_def decide_stage_def prompt_stage_def with_denials_def Let_def
      split: prod.split option.split auto_result.split)

lemma actor_stores_modes:
  assumes "actor_step A C w m c = Some (r, m')"
  shows "Store_Yolo b \<in> set (actor_stores C c) \<Longrightarrow> b = yolo_mode m'"
    and "Store_Auto b \<in> set (actor_stores C c) \<Longrightarrow> b = auto_mode m'"
    and "\<not> writes_yolo (actor_stores C c) \<Longrightarrow> yolo_mode m' = yolo_mode m"
    and "\<not> writes_auto (actor_stores C c) \<Longrightarrow> auto_mode m' = auto_mode m"
proof -
  have "(Store_Yolo b \<in> set (actor_stores C c) \<longrightarrow> b = yolo_mode m') \<and> (Store_Auto b \<in> set (actor_stores C c) \<longrightarrow> b = auto_mode m')
      \<and> (writes_yolo (actor_stores C c) \<or> yolo_mode m' = yolo_mode m) \<and> (writes_auto (actor_stores C c) \<or> auto_mode m' = auto_mode m)"
  proof (cases c)
    case (Cmd_Request rq)
    then show ?thesis using assms handle_keeps_modes [of A C w m rq] by (simp split: prod.splits)
  qed (use assms in \<open>auto simp: mode_stores_yolo_def mode_stores_auto_def set_yolo_def set_auto_def reset_state_def Let_def
      split: if_splits\<close>)
  then show "Store_Yolo b \<in> set (actor_stores C c) \<Longrightarrow> b = yolo_mode m'"
    "Store_Auto b \<in> set (actor_stores C c) \<Longrightarrow> b = auto_mode m'"
    "\<not> writes_yolo (actor_stores C c) \<Longrightarrow> yolo_mode m' = yolo_mode m"
    "\<not> writes_auto (actor_stores C c) \<Longrightarrow> auto_mode m' = auto_mode m" by auto
qed

lemma flags_ok_spawn: "flags_ok C (spawn_system A C y D)"
proof -
  have ok: "manager_ok C (spawn_permission_manager_with_pin A C y D)" by (rule spawn_ok)
  show ?thesis using ok by (auto simp: flags_ok_def spawn_system_def manager_ok_def Let_def)
qed

lemma flags_ok_begin: "flags_ok C s \<Longrightarrow> flags_ok C (s\<lparr>calls := call_ops C c # calls s\<rparr>)"
  using call_ops_ok [of C c] by (auto simp: flags_ok_def pending_def)

lemma flags_ok_call:
  assumes "flags_ok C s" "calls s = before @ (x # rest) # after"
  shows "flags_ok C (s\<lparr>shr := run_op x (shr s), calls := before @ rest # after\<rparr>)"
proof (cases x)
  case (Send c)
  then have "pending (s\<lparr>shr := run_op x (shr s), calls := before @ rest # after\<rparr>) = pending s" if "running (shr s)"
    using assms(2) that by (auto simp: pending_def)
  then show ?thesis using assms Send by (auto simp: flags_ok_def)
qed (use assms in \<open>auto simp: flags_ok_def pending_def\<close>)

lemma flags_ok_store:
  assumes "flags_ok C s" "actor_todo s = x # xs"
  shows "flags_ok C (s\<lparr>shr := run_op x (shr s), actor_todo := xs\<rparr>)"
  using assms by (cases x) (auto simp: flags_ok_def pending_def manager_ok_def)

lemma flags_ok_take:
  assumes "flags_ok C s" "mailbox (shr s) = c # cs" "actor_step A C w (actor s) c = Some (r, m')" "actor_todo s = []"
  shows "flags_ok C (s\<lparr>shr := (shr s)\<lparr>mailbox := cs\<rparr>, actor := m', actor_todo := actor_stores C c\<rparr>)"
  using assms actor_step_ok [of C "actor s" A w c r m'] actor_stores_modes [OF assms(3)]
  by (auto simp: flags_ok_def pending_def)


lemma flags_ok_step: "system_step A C s s' \<Longrightarrow> flags_ok C s \<Longrightarrow> flags_ok C s'"
proof (induction rule: system_step.induct)
  case (Stop s c cs w)
  then show ?case by (auto simp: flags_ok_def pending_def)
qed (simp_all add: flags_ok_begin flags_ok_call flags_ok_store flags_ok_take)

lemma flags_ok_reachable: "reachable A C y D s \<Longrightarrow> flags_ok C s"
  by (induction rule: reachable.induct) (blast intro: flags_ok_spawn flags_ok_step)+

definition quiet :: "system \<Rightarrow> bool" where
  "quiet s \<longleftrightarrow> running (shr s) \<and> mailbox (shr s) = [] \<and> actor_todo s = [] \<and> list_all (\<lambda>xs. xs = []) (calls s)"

text \<open>C22: The flags of the handle follow the actor. However the calls of any number of handles and the
  steps of the actor interleave, store by store: a pinned always-approve flag is never set; and whenever
  every call has returned and every command has been taken, the flags that handles read are the modes of
  the actor, which exclude each other.\<close>

theorem handle_flags_follow_actor:
  assumes "reachable A C initial_yolo D s"
  shows "(is_yolo_mode Handle_Actor (shr s) \<longrightarrow> cfg_yolo_pin C = None)
    \<and> (quiet s \<longrightarrow> is_yolo_mode Handle_Actor (shr s) = yolo_mode (actor s)
        \<and> is_auto_mode Handle_Actor (shr s) = auto_mode (actor s)
        \<and> \<not> (is_yolo_mode Handle_Actor (shr s) \<and> is_auto_mode Handle_Actor (shr s)))"
proof -
  have "flags_ok C s" by (rule flags_ok_reachable [OF assms])
  moreover have "pending s = {}" if "quiet s" using that by (auto simp: quiet_def pending_def list_all_iff)
  ultimately show ?thesis by (auto simp: flags_ok_def quiet_def manager_ok_def)
qed

section \<open>Schedules\<close>

text \<open>A schedule picks the steps of a system one by one.\<close>

datatype move = Move_Begin handle_call | Move_Call nat | Move_Take world | Move_Store

fun system_move :: "actor_env \<Rightarrow> manager_config \<Rightarrow> move \<Rightarrow> system \<Rightarrow> system option" where
  "system_move A C (Move_Begin c) s = Some (s\<lparr>calls := call_ops C c # calls s\<rparr>)"
| "system_move A C (Move_Call i) s =
     (if i < length (calls s) then
        (case calls s ! i of
           [] \<Rightarrow> None
         | x # rest \<Rightarrow> Some (s\<lparr>shr := run_op x (shr s), calls := take i (calls s) @ rest # drop (Suc i) (calls s)\<rparr>))
      else None)"
| "system_move A C (Move_Take w) s =
     (if actor_todo s = [] \<and> running (shr s) then
        (case mailbox (shr s) of
           [] \<Rightarrow> None
         | c # cs \<Rightarrow> (case actor_step A C w (actor s) c of
             Some (r, m') \<Rightarrow> Some (s\<lparr>shr := (shr s)\<lparr>mailbox := cs\<rparr>, actor := m', actor_todo := actor_stores C c\<rparr>)
           | None \<Rightarrow> Some (s\<lparr>shr := (shr s)\<lparr>mailbox := cs, running := False\<rparr>\<rparr>)))
      else None)"
| "system_move A C Move_Store s = (case actor_todo s of
     [] \<Rightarrow> None | x # xs \<Rightarrow> Some (s\<lparr>shr := run_op x (shr s), actor_todo := xs\<rparr>))"

fun system_run :: "actor_env \<Rightarrow> manager_config \<Rightarrow> move list \<Rightarrow> system \<Rightarrow> system option" where
  "system_run A C [] s = Some s"
| "system_run A C (mv # mvs) s = Option.bind (system_move A C mv s) (system_run A C mvs)"

lemma system_move_step: "system_move A C mv s = Some s' \<Longrightarrow> system_step A C s s'"
proof (cases mv)
  case (Move_Call i)
  assume "system_move A C mv s = Some s'"
  then obtain x rest where i: "i < length (calls s)" "calls s ! i = x # rest"
    "s' = s\<lparr>shr := run_op x (shr s), calls := take i (calls s) @ rest # drop (Suc i) (calls s)\<rparr>"
    using Move_Call by (auto split: if_splits list.splits)
  then have "calls s = take i (calls s) @ (x # rest) # drop (Suc i) (calls s)" by (metis id_take_nth_drop)
  then show ?thesis using i(3) system_step.Call by blast
qed (auto split: if_splits list.splits option.splits prod.splits intro: system_step.intros)

lemma system_run_reachable:
  "reachable A C y D s \<Longrightarrow> system_run A C mvs s = Some s' \<Longrightarrow> reachable A C y D s'"
proof (induction mvs arbitrary: s)
  case (Cons mv mvs)
  then obtain t where "system_move A C mv s = Some t" "system_run A C mvs t = Some s'" by (auto simp: bind_eq_Some_conv)
  then show ?case using Cons.IH Cons.prems(1) reachable.Steps system_move_step by metis
qed simp

theorem handle_flags_follow_actor_witness:
  "\<exists>s. system_run demo_actor demo_config
       [Move_Begin (set_auto_mode True), Move_Begin (set_yolo_mode True), Move_Call 1, Move_Call 0, Move_Call 0,
        Move_Call 1, Move_Call 1, Move_Call 0, Move_Take demo_world, Move_Store, Move_Store, Move_Take demo_world,
        Move_Store, Move_Store] (spawn_system demo_actor demo_config False (\<lambda>_. No_File)) = Some s
     \<and> is_yolo_mode Handle_Actor (shr s) = yolo_mode (actor s)"
proof -
  let ?mvs = "[Move_Begin (set_auto_mode True), Move_Begin (set_yolo_mode True), Move_Call 1, Move_Call 0, Move_Call 0,
        Move_Call 1, Move_Call 1, Move_Call 0, Move_Take demo_world, Move_Store, Move_Store, Move_Take demo_world,
        Move_Store, Move_Store]"
  let ?s0 = "spawn_system demo_actor demo_config False (\<lambda>_. No_File)"
  have "case system_run demo_actor demo_config ?mvs ?s0 of Some s \<Rightarrow> quiet s | None \<Rightarrow> False" by code_simp
  then obtain s where s: "system_run demo_actor demo_config ?mvs ?s0 = Some s" "quiet s" by (auto split: option.splits)
  have "reachable demo_actor demo_config False (\<lambda>_. No_File) s"
    by (rule system_run_reachable [OF reachable.Spawned s(1)])
  from handle_flags_follow_actor [OF this] s show ?thesis by blast
qed

text \<open>Until then a flag may be stale: two calls turn the always-approve mode on and off again, both return,
  and the actor, taking the first command late, sets the flag again.\<close>

lemma stale_flag:
  "case system_run demo_actor demo_config
       [Move_Begin (set_yolo_mode True), Move_Call 0, Move_Call 0, Move_Call 0, Move_Begin (set_yolo_mode False), Move_Call 0,
        Move_Call 0, Move_Take demo_world, Move_Store] (spawn_system demo_actor demo_config False (\<lambda>_. No_File)) of
     Some s \<Rightarrow> list_all (\<lambda>xs. xs = []) (calls s) \<and> is_yolo_mode Handle_Actor (shr s) | None \<Rightarrow> False"
  by code_simp

end
