(* ===== verification/Permission_Resolution.thy ===== *)
theory Permission_Resolution
  imports Permission_Policy Json
begin

text \<open>
  Where the rules of a session come from (\<open>permission/resolution.rs\<close> and the part of
  \<open>permission/claude_settings.rs\<close> that it uses): requirements, managed settings and configuration,
  configuration files of the user and of the project, and imported settings, merged with their origin;
  the default mode; and the pin that disables the always-approve mode.

  Files are an argument: what each one parses to. The theory shows that a project that is not trusted
  has no influence, that no restriction of a consulted source is lost, and that under the pin no
  rule and no mode stands in for the always-approve mode unless an administrator wrote it.
\<close>

section \<open>TOML\<close>

datatype toml =
    Toml_String string
  | Toml_Integer int
  | Toml_Float string
  | Toml_Boolean bool
  | Toml_Datetime string
  | Toml_Array "toml list"
  | Toml_Table "(string \<times> toml) list"

fun toml_get :: "toml \<Rightarrow> string \<Rightarrow> toml option" where
  "toml_get (Toml_Table kvs) k = map_of kvs k"
| "toml_get _ k = None"

fun toml_bool :: "toml \<Rightarrow> bool option" where
  "toml_bool (Toml_Boolean b) = Some b"
| "toml_bool _ = None"

text \<open>Rules written one by one (\<open>[[permission.rules]]\<close>) are decoded by the derived decoder, an argument
  here; it fails as a whole.\<close>

type_synonym rule_decoder = "toml \<Rightarrow> string + permission_rule list"

fun compact_item :: "rule_action \<Rightarrow> toml \<Rightarrow> permission_rule list" where
  "compact_item act (Toml_String s) = (case parse_permission_rule s act of Inr r \<Rightarrow> [r] | Inl _ \<Rightarrow> [])"
| "compact_item act _ = []"

text \<open>One of the three lists: \<open>None\<close> when it is absent or not an array.\<close>

definition compact_rules :: "toml \<Rightarrow> rule_action \<times> string \<Rightarrow> permission_rule list option" where
  "compact_rules section entry = (case toml_get section (snd entry) of
     Some (Toml_Array items) \<Rightarrow> Some (concat (map (compact_item (fst entry)) items))
   | _ \<Rightarrow> None)"

definition COMPACT_KEYS :: "(rule_action \<times> string) list" where
  "COMPACT_KEYS = [(Action_Deny, ''deny''), (Action_Allow, ''allow''), (Action_Ask, ''ask'')]"

definition parse_toml_permission_section :: "rule_decoder \<Rightarrow> toml \<Rightarrow> string + permission_rule list" where
  "parse_toml_permission_section dec section =
     (let lists = map (compact_rules section) COMPACT_KEYS
      in if list_ex (\<lambda>l. l \<noteq> None) lists
         then Inr (concat (map (\<lambda>l. case l of Some rs \<Rightarrow> rs | None \<Rightarrow> []) lists))
         else dec section)"

section \<open>Origins\<close>

datatype requirement_source =
    Source_Unknown
  | Source_Requirements string
  | Source_SystemRequirements string
  | Source_ManagedSettings string
  | Source_ManagedConfig string
  | Source_Config string
  | Source_Settings string

fun source_display :: "requirement_source \<Rightarrow> string" where
  "source_display Source_Unknown = ''<unknown>''"
| "source_display (Source_Requirements path) = path @ '' (requirements)''"
| "source_display (Source_SystemRequirements path) = path @ '' (system requirements)''"
| "source_display (Source_ManagedSettings path) = path @ '' (managed-settings)''"
| "source_display (Source_ManagedConfig path) = path @ '' (managed config)''"
| "source_display (Source_Config path) = path @ '' (config)''"
| "source_display (Source_Settings path) = path @ '' (settings)''"

type_synonym sourced_rule = "permission_rule \<times> requirement_source"

definition tag_with_source :: "requirement_source \<Rightarrow> permission_rule list \<Rightarrow> sourced_rule list" where
  "tag_with_source src rs = map (\<lambda>r. (r, src)) rs"

definition extract_toml_permissions :: "rule_decoder \<Rightarrow> toml \<Rightarrow> requirement_source \<Rightarrow> sourced_rule list" where
  "extract_toml_permissions dec conf src = (case toml_get conf ''permission'' of
     None \<Rightarrow> []
   | Some v \<Rightarrow> (case parse_toml_permission_section dec v of
       Inr rs \<Rightarrow> tag_with_source src rs
     | Inl _ \<Rightarrow> []))"

section \<open>Imported settings\<close>

text \<open>The files of a session: what the layers, the configuration files and the settings files parse to
  (\<open>None\<close> for a file that is missing, not regular, unreadable or malformed), which directories hold a \<open>.git\<close>,
  and where the home of the user is.\<close>

record settings_env =
  rules_env :: permission_env
  rule_dec :: rule_decoder
  requirement_layers :: "(string \<times> bool \<times> toml) list"
  managed_config_layers :: "(string \<times> toml) list"
  global_config :: "(string \<times> toml option) option"
  project_config_paths :: "string \<Rightarrow> string list"
  config_files_of :: "string \<Rightarrow> toml option"
  settings_json :: "string \<Rightarrow> json option"
  home_dir :: "string option"
  git_exists :: "string \<Rightarrow> bool"
  is_home_dir :: "string \<Rightarrow> bool"
  import_marked :: bool

record parsed_permissions =
  perm_allow :: "string list"
  perm_deny :: "string list"
  perm_ask :: "string list"

definition rule_entries :: "parsed_permissions \<Rightarrow> (rule_action \<times> string list \<times> string) list" where
  "rule_entries p = [(Action_Allow, perm_allow p, ''allow''), (Action_Deny, perm_deny p, ''deny''), (Action_Ask, perm_ask p, ''ask'')]"

definition parsed_rules :: "rule_action \<Rightarrow> string list \<Rightarrow> permission_rule list" where
  "parsed_rules act ss = List.map_filter (\<lambda>s. case parse_permission_rule s act of Inr r \<Rightarrow> Some r | Inl _ \<Rightarrow> None) ss"

definition parse_warnings :: "rule_action \<Rightarrow> string list \<Rightarrow> string \<Rightarrow> string list" where
  "parse_warnings act ss label = List.map_filter (\<lambda>s. case parse_permission_rule s act of
     Inr _ \<Rightarrow> None | Inl e \<Rightarrow> Some (''permissions.'' @ label @ '': '' @ s @ '' -- '' @ rule_error_display e)) ss"

definition into_permission_config :: "parsed_permissions \<Rightarrow> permission_config \<times> string list" where
  "into_permission_config p =
     (permission_config_new (concat (map (\<lambda>(act, ss, _). parsed_rules act ss) (rule_entries p))),
      concat (map (\<lambda>(act, ss, label). parse_warnings act ss label) (rule_entries p)))"

definition extract_string_array :: "json option \<Rightarrow> string list" where
  "extract_string_array v = (case v of Some (JArray items) \<Rightarrow> List.map_filter as_str items | _ \<Rightarrow> [])"

definition extract_default_mode :: "json \<Rightarrow> string option" where
  "extract_default_mode v = (case Option.bind (obj_get v ''permissions'') (\<lambda>p. obj_get p ''defaultMode'') of
     Some dm \<Rightarrow> as_str dm
   | None \<Rightarrow> Option.bind (obj_get v ''defaultMode'') as_str)"

record claude_settings =
  permissions_of :: "parsed_permissions option"
  default_mode_of :: "string option"

definition claude_settings_of_json :: "json \<Rightarrow> claude_settings" where
  "claude_settings_of_json v =
     \<lparr>permissions_of = Option.bind (obj_get v ''permissions'') (\<lambda>p.
        let al = extract_string_array (obj_get p ''allow''); de = extract_string_array (obj_get p ''deny'');
            sk = extract_string_array (obj_get p ''ask'')
        in if al = [] \<and> de = [] \<and> sk = [] then None else Some \<lparr>perm_allow = al, perm_deny = de, perm_ask = sk\<rparr>),
      default_mode_of = extract_default_mode v\<rparr>"

definition load_claude_settings :: "settings_env \<Rightarrow> string \<Rightarrow> claude_settings option" where
  "load_claude_settings S path = map_option claude_settings_of_json (settings_json S path)"

definition settings_in :: "string \<Rightarrow> string list" where
  "settings_in dir = [path_join (path_join dir ''.claude'') ''settings.local.json'', path_join (path_join dir ''.claude'') ''settings.json'']"

definition global_claude_settings_paths :: "settings_env \<Rightarrow> string list" where
  "global_claude_settings_paths S = (case home_dir S of Some home \<Rightarrow> settings_in home | None \<Rightarrow> [])"

lemma skip_seps_rev_length: "length (skip_seps_rev xs) \<le> length xs"
  by (induction xs rule: skip_seps_rev.induct) auto

lemma skip_seps_rev_head: "skip_seps_rev xs = c # ys \<Longrightarrow> c \<noteq> CHR ''/''"
  by (induction xs rule: skip_seps_rev.induct) (auto split: if_splits)

lemma path_parent_length: "path_parent p = Some q \<Longrightarrow> length q < length p"
proof -
  assume a: "path_parent p = Some q"
  define r where "r = skip_seps_rev (rev p)"
  define r' where "r' = dropWhile (\<lambda>c. c \<noteq> CHR ''/'') r"
  have "r \<noteq> []" using a by (simp add: path_parent_def r_def Let_def split: if_splits)
  then obtain c ys where c: "r = c # ys" "c \<noteq> CHR ''/''" using skip_seps_rev_head [of "rev p"] by (cases r) (auto simp: r_def)
  then have "length r' < length r" using length_dropWhile_le [of "\<lambda>c. c \<noteq> CHR ''/''" ys] by (simp add: r'_def)
  moreover have "length r \<le> length p" using skip_seps_rev_length [of "rev p"] by (simp add: r_def)
  moreover have "length q \<le> length r' \<or> r' \<noteq> [] \<and> length q = 1"
    using a \<open>r \<noteq> []\<close> skip_seps_rev_length [of r']
    by (auto simp: path_parent_def Let_def r_def [symmetric] r'_def [symmetric] split: if_splits)
  ultimately show ?thesis by (cases r') auto
qed

text \<open>The walk from a directory up to the root of its repository.\<close>

function find_repo_root :: "settings_env \<Rightarrow> string \<Rightarrow> string option" where
  "find_repo_root S dir = (if git_exists S dir then Some dir
     else case path_parent dir of Some parent \<Rightarrow> find_repo_root S parent | None \<Rightarrow> None)"
  by pat_completeness auto
termination by (relation "measure (\<lambda>(S, dir). length dir)") (auto dest: path_parent_length)

function settings_up_to :: "string \<Rightarrow> string \<Rightarrow> string list" where
  "settings_up_to repo_root dir = settings_in dir @
     (if dir = repo_root then [] else case path_parent dir of Some parent \<Rightarrow> settings_up_to repo_root parent | None \<Rightarrow> [])"
  by pat_completeness auto
termination by (relation "measure (\<lambda>(r, dir). length dir)") (auto dest: path_parent_length)

declare find_repo_root.simps [simp del] settings_up_to.simps [simp del]

definition collect_project_claude_paths :: "settings_env \<Rightarrow> string \<Rightarrow> string list" where
  "collect_project_claude_paths S cwd =
     (let repo_root = (case find_repo_root S cwd of
            Some root \<Rightarrow> if is_home_dir S root then cwd else root | None \<Rightarrow> cwd)
      in settings_up_to repo_root cwd)"

definition find_claude_settings_paths :: "settings_env \<Rightarrow> string \<Rightarrow> string list" where
  "find_claude_settings_paths S cwd = collect_project_claude_paths S cwd @ global_claude_settings_paths S"

definition claude_settings_paths_for_trust :: "settings_env \<Rightarrow> string \<Rightarrow> bool \<Rightarrow> string list" where
  "claude_settings_paths_for_trust S cwd project_trusted =
     (if project_trusted then find_claude_settings_paths S cwd else global_claude_settings_paths S)"

section \<open>Default modes\<close>

type_synonym skipped = "(string \<times> string) list"

definition catchall_rule :: permission_rule where
  "catchall_rule = \<lparr>action = Action_Allow, tool = Filter_Any, pattern = None, pattern_mode = Mode_Glob\<rparr>"

definition accept_edits_rule :: permission_rule where
  "accept_edits_rule = \<lparr>action = Action_Allow, tool = Filter_Edit, pattern = None, pattern_mode = Mode_Glob\<rparr>"

definition synthetic_rules_for_default_mode ::
  "default_permission_mode \<Rightarrow> string option \<Rightarrow> permission_rule list \<times> skipped \<times> bool" where
  "synthetic_rules_for_default_mode mode policy_block =
     (let effects = mode_effects mode
      in if bypass_permissions effects then
           (case policy_block of
              Some rsn \<Rightarrow> ([], [(''defaultMode=bypassPermissions'', rsn)], True)
            | None \<Rightarrow> ([catchall_rule], [], False))
         else if accept_edits effects then ([accept_edits_rule], [], False)
         else ([], [], False))"

definition parse_default_mode_claiming_scope :: "string \<Rightarrow> default_permission_mode \<times> skipped" where
  "parse_default_mode_claiming_scope raw = (case mode_from_str raw of
     Inr mode \<Rightarrow> (mode, [])
   | Inl invalid \<Rightarrow> (Mode_Default, [(''defaultMode='' @ invalid, ''unrecognized value; treated as default'')]))"

section \<open>The imported settings of a session\<close>

record claude_scan =
  scan_rules :: "permission_rule list"
  scan_skipped :: skipped
  scan_primary :: "string option"
  scan_mode_source :: "string option"
  scan_mode :: "default_permission_mode option"
  scan_policy :: prompt_policy

definition claim_mode :: "bool \<Rightarrow> string \<Rightarrow> string option \<Rightarrow> claude_scan \<Rightarrow> claude_scan" where
  "claim_mode apply_mode path raw z = (case raw of
     Some r \<Rightarrow>
       if apply_mode \<and> scan_mode_source z = None
       then (let (mode, sk) = parse_default_mode_claiming_scope r
             in z\<lparr>scan_mode_source := Some path, scan_skipped := scan_skipped z @ sk, scan_mode := Some mode,
                  scan_policy := eff_prompt_policy (mode_effects mode)\<rparr>)
       else z
   | None \<Rightarrow> z)"

text \<open>A warning is cut in two for the report, at its first long dash or else at its first double hyphen.\<close>

fun split_once_str :: "string \<Rightarrow> string \<Rightarrow> (string \<times> string) option" where
  "split_once_str sep [] = (if sep = [] then Some ([], []) else None)"
| "split_once_str sep (c # cs) = (if take (length sep) (c # cs) = sep then Some ([], drop (length sep) (c # cs))
     else map_option (\<lambda>(a, b). (c # a, b)) (split_once_str sep cs))"

definition EM_DASH :: string where
  "EM_DASH = CHR '' '' # CHR 0xE2 # CHR 0x80 # CHR 0x94 # '' ''"

definition skipped_of_warning :: "string \<Rightarrow> string \<times> string" where
  "skipped_of_warning w = (case split_once_str EM_DASH w of
     Some rd \<Rightarrow> rd
   | None \<Rightarrow> (case split_once_str '' -- '' w of Some rd \<Rightarrow> rd | None \<Rightarrow> (w, [])))"

definition add_permissions :: "string \<Rightarrow> parsed_permissions option \<Rightarrow> claude_scan \<Rightarrow> claude_scan" where
  "add_permissions path perms z = (case perms of
     None \<Rightarrow> z
   | Some p \<Rightarrow>
       (let (cfg, warnings) = into_permission_config p
        in z\<lparr>scan_primary := (if (rules cfg \<noteq> [] \<or> warnings \<noteq> []) \<and> scan_primary z = None then Some path else scan_primary z),
             scan_rules := scan_rules z @ rules cfg, scan_skipped := scan_skipped z @ map skipped_of_warning warnings\<rparr>))"

definition scan_settings :: "settings_env \<Rightarrow> bool \<Rightarrow> claude_scan \<Rightarrow> string \<Rightarrow> claude_scan" where
  "scan_settings S apply_mode z path = (case load_claude_settings S path of
     None \<Rightarrow> z
   | Some settings \<Rightarrow> add_permissions path (permissions_of settings) (claim_mode apply_mode path (default_mode_of settings) z))"

definition scan_start :: claude_scan where
  "scan_start = \<lparr>scan_rules = [], scan_skipped = [], scan_primary = None, scan_mode_source = None, scan_mode = None, scan_policy = Prompt_Ask\<rparr>"

definition resolve_claude_settings_inner ::
  "settings_env \<Rightarrow> string \<Rightarrow> bool \<Rightarrow> string option \<Rightarrow> bool \<Rightarrow> (permission_config \<times> skipped \<times> string) option" where
  "resolve_claude_settings_inner S cwd project_trusted policy_block apply_mode =
     (let z = foldl (scan_settings S apply_mode) scan_start (claude_settings_paths_for_trust S cwd project_trusted);
          (syn, syn_skipped, bypass_blocked) = (case scan_mode z of
            Some mode \<Rightarrow> synthetic_rules_for_default_mode mode policy_block | None \<Rightarrow> ([], [], False));
          all_rules = scan_rules z @ syn; all_skipped = scan_skipped z @ syn_skipped
      in if all_rules = [] \<and> scan_policy z = Prompt_Ask \<and> \<not> bypass_blocked \<and> scan_mode_source z = None \<and> all_skipped = []
         then None
         else Some (\<lparr>rules = all_rules, prompt_policy = scan_policy z, default_mode_configured = (scan_mode z \<noteq> None)\<rparr>,
           all_skipped, case scan_primary z of Some p \<Rightarrow> p | None \<Rightarrow> (case scan_mode_source z of Some p \<Rightarrow> p | None \<Rightarrow> cwd)))"

section \<open>The layers\<close>

definition load_requirements_permissions :: "settings_env \<Rightarrow> sourced_rule list" where
  "load_requirements_permissions S = concat (map (\<lambda>(label, is_system, v).
     extract_toml_permissions (rule_dec S) v (if is_system then Source_SystemRequirements label else Source_Requirements label))
     (requirement_layers S))"

definition load_config_toml_permissions :: "settings_env \<Rightarrow> string \<Rightarrow> bool \<Rightarrow> sourced_rule list" where
  "load_config_toml_permissions S cwd project_trusted =
     (case global_config S of
        Some (path, Some v) \<Rightarrow> extract_toml_permissions (rule_dec S) v (Source_Config path) | _ \<Rightarrow> [])
     @ (if project_trusted
        then concat (map (\<lambda>path. case config_files_of S path of
          Some v \<Rightarrow> extract_toml_permissions (rule_dec S) v (Source_Config path) | None \<Rightarrow> []) (project_config_paths S cwd))
        else [])"

definition managed_config_permissions :: "settings_env \<Rightarrow> sourced_rule list" where
  "managed_config_permissions S = concat (map (\<lambda>(path, v).
     extract_toml_permissions (rule_dec S) v (Source_ManagedConfig path)) (managed_config_layers S))"

section \<open>The pin\<close>

datatype yolo_pin_reason = DisableBypassPermissionsMode | LegacyYoloFalse

fun pin_message :: "yolo_pin_reason \<Rightarrow> string" where
  "pin_message DisableBypassPermissionsMode =
     ''always-approve disabled by managed policy ([ui] disable_bypass_permissions_mode = true in requirements.toml)''"
| "pin_message LegacyYoloFalse = ''always-approve disabled by managed policy ([ui] yolo = false in requirements.toml)''"

record yolo_policy_lock =
  source_label :: string
  pin_reason :: yolo_pin_reason

definition requirements_lock_bool :: "toml option \<Rightarrow> string \<Rightarrow> bool option" where
  "requirements_lock_bool ui key = Option.bind (Option.bind ui (\<lambda>u. toml_get u key)) toml_bool"

fun resolve_yolo_policy_block :: "(string \<times> toml) list \<Rightarrow> yolo_policy_lock option" where
  "resolve_yolo_policy_block [] = None"
| "resolve_yolo_policy_block ((path, layer) # layers) =
     (let ui = toml_get layer ''ui''
      in if requirements_lock_bool ui ''disable_bypass_permissions_mode'' = Some True
         then Some \<lparr>source_label = path, pin_reason = DisableBypassPermissionsMode\<rparr>
         else if requirements_lock_bool ui ''yolo'' = Some False
         then Some \<lparr>source_label = path, pin_reason = LegacyYoloFalse\<rparr>
         else resolve_yolo_policy_block layers)"

definition yolo_policy_lock_of :: "settings_env \<Rightarrow> yolo_policy_lock option" where
  "yolo_policy_lock_of S = resolve_yolo_policy_block (map (\<lambda>(label, _, v). (label, v)) (requirement_layers S))"

definition yolo_disabled_by_policy :: "settings_env \<Rightarrow> string option" where
  "yolo_disabled_by_policy S = map_option (\<lambda>l. pin_message (pin_reason l)) (yolo_policy_lock_of S)"

section \<open>Managed settings\<close>

record managed_settings =
  managed_rules :: "sourced_rule list"
  managed_default_mode :: "default_permission_mode option"
  managed_path :: "string option"
  managed_disable_telemetry :: "bool option"
  managed_disable_feedback :: "bool option"
  managed_disable_yolo :: "bool option"

definition json_env_flag :: "json option \<Rightarrow> string \<Rightarrow> bool option" where
  "json_env_flag env key = (case Option.bind env (\<lambda>e. obj_get e key) of
     Some (JNumber n) \<Rightarrow> Some (- (2 ^ 63) \<le> n \<and> n < 2 ^ 63 \<and> n \<noteq> 0)
   | Some (JBool b) \<Rightarrow> Some b
   | Some (JString s) \<Rightarrow> Some (s \<noteq> ''0'' \<and> s \<noteq> [] \<and> s \<noteq> ''false'')
   | _ \<Rightarrow> None)"

definition parse_disable_bypass_permissions :: "json \<Rightarrow> bool option" where
  "parse_disable_bypass_permissions v =
     map_option (\<lambda>x. as_str x = Some ''disable'')
       (Option.bind (obj_get v ''permissions'') (\<lambda>p. obj_get p ''disableBypassPermissionsMode''))"

text \<open>The strict decoder of the \<open>permissions\<close> object: missing lists are empty, a wrong type fails.\<close>

definition decode_permissions :: "json \<Rightarrow> parsed_permissions option" where
  "decode_permissions v = (case v of
     JObject _ \<Rightarrow>
       (case (with_default [] (as_list as_str) (obj_get v ''allow''), with_default [] (as_list as_str) (obj_get v ''deny''),
              with_default [] (as_list as_str) (obj_get v ''ask'')) of
          (Some al, Some de, Some sk) \<Rightarrow> Some \<lparr>perm_allow = al, perm_deny = de, perm_ask = sk\<rparr>
        | _ \<Rightarrow> None)
   | _ \<Rightarrow> None)"

definition parse_managed_settings_permissions :: "json \<Rightarrow> string \<Rightarrow> sourced_rule list" where
  "parse_managed_settings_permissions v path = (case Option.bind (obj_get v ''permissions'') decode_permissions of
     None \<Rightarrow> []
   | Some p \<Rightarrow> tag_with_source (Source_ManagedSettings path) (rules (fst (into_permission_config p))))"

definition parse_managed_settings_base :: "json \<Rightarrow> string \<Rightarrow> managed_settings" where
  "parse_managed_settings_base v path =
     \<lparr>managed_rules = parse_managed_settings_permissions v path,
      managed_default_mode = map_option (\<lambda>raw. fst (parse_default_mode_claiming_scope raw)) (extract_default_mode v),
      managed_path = Some path, managed_disable_telemetry = json_env_flag (obj_get v ''env'') ''DISABLE_TELEMETRY'',
      managed_disable_feedback = json_env_flag (obj_get v ''env'') ''DISABLE_FEEDBACK_COMMAND'',
      managed_disable_yolo = parse_disable_bypass_permissions v\<rparr>"

definition claude_bypass_lock_request :: "managed_settings \<Rightarrow> bool" where
  "claude_bypass_lock_request m \<longleftrightarrow> managed_path m \<noteq> None \<and> managed_disable_yolo m = Some True"

section \<open>Resolution\<close>

definition is_catchall_allow :: "permission_env \<Rightarrow> permission_rule \<Rightarrow> bool" where
  "is_catchall_allow E rule \<longleftrightarrow> action rule = Action_Allow
     \<and> tool rule \<notin> set [Filter_Read, Filter_Edit, Filter_Grep] \<and> rule_is_catchall E rule"

fun is_admin_source :: "requirement_source \<Rightarrow> bool" where
  "is_admin_source (Source_SystemRequirements _) = True"
| "is_admin_source (Source_ManagedSettings _) = True"
| "is_admin_source _ = False"

definition dropped_by_pin :: "permission_env \<Rightarrow> sourced_rule \<Rightarrow> bool" where
  "dropped_by_pin E s \<longleftrightarrow> is_catchall_allow E (fst s) \<and> \<not> is_admin_source (snd s)"

definition drop_untrusted_catchall_allows ::
  "permission_env \<Rightarrow> sourced_rule list \<Rightarrow> string option \<Rightarrow> sourced_rule list \<times> skipped" where
  "drop_untrusted_catchall_allows E rs policy_block = (case policy_block of
     None \<Rightarrow> (rs, [])
   | Some rsn \<Rightarrow> (filter (\<lambda>s. \<not> dropped_by_pin E s) rs,
       map (\<lambda>s. (''allow '' @ (case pattern (fst s) of Some p \<Rightarrow> p | None \<Rightarrow> ''*'') @ '' (catch-all)'', rsn))
         (filter (dropped_by_pin E) rs)))"

record resolved_permissions =
  resolved_config :: permission_config
  resolved_sources :: "requirement_source list"
  resolved_skipped :: skipped
  resolved_lock :: "yolo_policy_lock option"

definition settings_of_session :: "settings_env \<Rightarrow> string \<Rightarrow> string option \<Rightarrow> managed_settings \<Rightarrow> bool \<Rightarrow> (permission_config \<times> skipped \<times> string) option" where
  "settings_of_session S cwd policy_block managed project_trusted =
     (if import_marked S then None
      else resolve_claude_settings_inner S cwd project_trusted policy_block (managed_default_mode managed = None))"

definition managed_synthetics :: "string option \<Rightarrow> managed_settings \<Rightarrow> sourced_rule list \<times> skipped" where
  "managed_synthetics policy_block managed = (case managed_default_mode managed of
     None \<Rightarrow> ([], [])
   | Some mode \<Rightarrow> (case synthetic_rules_for_default_mode mode policy_block of (rs, sk, _) \<Rightarrow>
       (tag_with_source (Source_ManagedSettings (case managed_path managed of Some p \<Rightarrow> p | None \<Rightarrow> ''managed-settings.json'')) rs, sk)))"

definition mode_of_session :: "managed_settings \<Rightarrow> (permission_config \<times> skipped \<times> string) option \<Rightarrow> prompt_policy \<times> bool" where
  "mode_of_session managed settings = (case managed_default_mode managed of
     Some mode \<Rightarrow> (eff_prompt_policy (mode_effects mode), True)
   | None \<Rightarrow> (case settings of Some (c, _, _) \<Rightarrow> (prompt_policy c, default_mode_configured c) | None \<Rightarrow> (Prompt_Ask, False)))"

definition all_sourced_rules :: "settings_env \<Rightarrow> string \<Rightarrow> string option \<Rightarrow> managed_settings \<Rightarrow> bool \<Rightarrow> sourced_rule list" where
  "all_sourced_rules S cwd policy_block managed project_trusted =
     load_requirements_permissions S @ managed_rules managed @ fst (managed_synthetics policy_block managed)
     @ managed_config_permissions S @ load_config_toml_permissions S cwd project_trusted
     @ (case settings_of_session S cwd policy_block managed project_trusted of
          Some (c, _, path) \<Rightarrow> tag_with_source (Source_Settings path) (rules c) | None \<Rightarrow> [])"

definition resolve_permissions_with_provenance_inner ::
  "settings_env \<Rightarrow> string \<Rightarrow> yolo_policy_lock option \<Rightarrow> managed_settings \<Rightarrow> bool \<Rightarrow> resolved_permissions option" where
  "resolve_permissions_with_provenance_inner S cwd yolo_lock managed project_trusted =
     (let policy_block = map_option (\<lambda>l. pin_message (pin_reason l)) yolo_lock;
          settings = settings_of_session S cwd policy_block managed project_trusted;
          (policy1, configured) = mode_of_session managed settings;
          (kept, dropped) = drop_untrusted_catchall_allows (rules_env S)
            (all_sourced_rules S cwd policy_block managed project_trusted) policy_block;
          skips = snd (managed_synthetics policy_block managed) @ (case settings of Some (_, sk, _) \<Rightarrow> sk | None \<Rightarrow> []) @ dropped
      in if kept = [] \<and> policy1 = Prompt_Ask \<and> skips = [] \<and> \<not> configured then None
         else Some \<lparr>resolved_config = \<lparr>rules = map fst kept, prompt_policy = policy1, default_mode_configured = configured\<rparr>,
           resolved_sources = map snd kept, resolved_skipped = skips, resolved_lock = yolo_lock\<rparr>)"

definition resolve_permissions_with_provenance ::
  "settings_env \<Rightarrow> string \<Rightarrow> managed_settings \<Rightarrow> bool \<Rightarrow> yolo_policy_lock option \<times> resolved_permissions option" where
  "resolve_permissions_with_provenance S cwd managed project_trusted =
     (let lock = yolo_policy_lock_of S in (lock, resolve_permissions_with_provenance_inner S cwd lock managed project_trusted))"

definition resolve_permission_config_with_fallback :: "settings_env \<Rightarrow> string \<Rightarrow> managed_settings \<Rightarrow> bool \<Rightarrow> permission_config option" where
  "resolve_permission_config_with_fallback S cwd managed project_trusted =
     map_option resolved_config (snd (resolve_permissions_with_provenance S cwd managed project_trusted))"

section \<open>The hint of the client\<close>

definition PERMISSION_MODE_ALWAYS_ALLOW :: string where "PERMISSION_MODE_ALWAYS_ALLOW = ''alwaysAllow''"

definition apply_permission_mode_hint ::
  "permission_config option \<Rightarrow> string option \<Rightarrow> string option \<Rightarrow> bool \<times> permission_config option" where
  "apply_permission_mode_hint conf requested policy_block = (case requested of
     None \<Rightarrow> (False, conf)
   | Some mode \<Rightarrow>
       if mode \<noteq> PERMISSION_MODE_ALWAYS_ALLOW then (False, conf)
       else if policy_block \<noteq> None then (False, conf)
       else (let c = (case conf of Some c \<Rightarrow> c | None \<Rightarrow> permission_config_new [])
             in if default_mode_configured c then (False, Some c) else (True, Some (c\<lparr>prompt_policy := Prompt_Allow\<rparr>))))"

definition deny_read_globs_from_config :: "permission_config \<Rightarrow> string list" where
  "deny_read_globs_from_config c = List.map_filter pattern
     (filter (\<lambda>r. action r = Action_Deny \<and> tool r \<in> set [Filter_Read, Filter_Grep, Filter_Any]) (rules c))"

section \<open>A project that is not trusted\<close>

text \<open>Two sets of files that differ only inside projects.\<close>

definition agree_outside_projects :: "settings_env \<Rightarrow> settings_env \<Rightarrow> bool" where
  "agree_outside_projects S T \<longleftrightarrow> rules_env S = rules_env T \<and> rule_dec S = rule_dec T
     \<and> requirement_layers S = requirement_layers T \<and> managed_config_layers S = managed_config_layers T
     \<and> global_config S = global_config T \<and> home_dir S = home_dir T \<and> import_marked S = import_marked T
     \<and> list_all (\<lambda>p. settings_json S p = settings_json T p) (global_claude_settings_paths S)"

lemma scan_agrees:
  "list_all (\<lambda>p. settings_json S p = settings_json T p) ps \<Longrightarrow>
     foldl (scan_settings S apply_mode) z ps = foldl (scan_settings T apply_mode) z ps"
  by (induction ps arbitrary: z) (simp_all add: scan_settings_def load_claude_settings_def)

lemma untrusted_settings:
  assumes "agree_outside_projects S T"
  shows "resolve_claude_settings_inner S cwd False policy_block apply_mode = resolve_claude_settings_inner T cwd False policy_block apply_mode"
proof -
  have p: "claude_settings_paths_for_trust S cwd False = claude_settings_paths_for_trust T cwd False"
    using assms by (simp add: claude_settings_paths_for_trust_def global_claude_settings_paths_def agree_outside_projects_def)
  have "foldl (scan_settings S apply_mode) scan_start (claude_settings_paths_for_trust S cwd False)
      = foldl (scan_settings T apply_mode) scan_start (claude_settings_paths_for_trust S cwd False)"
    by (rule scan_agrees) (use assms in \<open>simp add: claude_settings_paths_for_trust_def agree_outside_projects_def\<close>)
  then show ?thesis by (simp add: resolve_claude_settings_inner_def p)
qed

text \<open>C24: A project that is not trusted has no say. Its configuration and settings files, whatever they contain
  and wherever they lie, change neither the rules of the session nor their order and origin, nor the prompt
  policy, nor the pin, nor what is reported as skipped.\<close>

theorem untrusted_project_has_no_say:
  assumes "agree_outside_projects S T"
  shows "resolve_permissions_with_provenance S cwd managed False = resolve_permissions_with_provenance T cwd managed False"
proof -
  have a: "settings_of_session S cwd pb managed False = settings_of_session T cwd pb managed False" for pb
    using assms untrusted_settings [OF assms] by (simp add: settings_of_session_def agree_outside_projects_def)
  have e: "rules_env S = rules_env T" "rule_dec S = rule_dec T" "requirement_layers S = requirement_layers T"
    "managed_config_layers S = managed_config_layers T" "global_config S = global_config T"
    using assms by (simp_all add: agree_outside_projects_def)
  have "all_sourced_rules S cwd pb managed False = all_sourced_rules T cwd pb managed False" for pb
    unfolding all_sourced_rules_def a load_requirements_permissions_def managed_config_permissions_def
      load_config_toml_permissions_def e by simp
  then show ?thesis
    by (simp add: resolve_permissions_with_provenance_def resolve_permissions_with_provenance_inner_def a
        yolo_policy_lock_of_def e)
qed

definition demo_settings :: "json option \<Rightarrow> settings_env" where
  "demo_settings project = \<lparr>rules_env = demo_env, rule_dec = (\<lambda>_. Inl []),
     requirement_layers = [(''/etc/r'', True, Toml_Table [(''ui'', Toml_Table [(''disable_bypass_permissions_mode'', Toml_Boolean True)]),
       (''permission'', Toml_Table [(''deny'', Toml_Array [Toml_String ''Read(/etc/*)''])])])],
     managed_config_layers = [], global_config = None, project_config_paths = (\<lambda>_. []), config_files_of = (\<lambda>_. None),
     settings_json = (\<lambda>p. if p = ''/w/.claude/settings.json'' then project else None), home_dir = Some ''/h'',
     git_exists = (\<lambda>d. d = ''/w''), is_home_dir = (\<lambda>_. False), import_marked = False\<rparr>"

definition no_managed :: managed_settings where
  "no_managed = \<lparr>managed_rules = [], managed_default_mode = None, managed_path = None, managed_disable_telemetry = None,
     managed_disable_feedback = None, managed_disable_yolo = None\<rparr>"

definition allow_all_settings :: json where
  "allow_all_settings = JObject [(''permissions'', JObject [(''allow'', JArray [JString ''Bash'']), (''defaultMode'', JString ''bypassPermissions'')])]"

theorem untrusted_project_has_no_say_witness:
  "resolve_permissions_with_provenance (demo_settings (Some allow_all_settings)) ''/w'' no_managed False
     = resolve_permissions_with_provenance (demo_settings None) ''/w'' no_managed False"
  by (rule untrusted_project_has_no_say)
    (simp add: agree_outside_projects_def demo_settings_def global_claude_settings_paths_def settings_in_def path_join_def
      starts_with_def ends_with_def)

section \<open>Restrictions are kept\<close>

definition toml_rules :: "settings_env \<Rightarrow> toml \<Rightarrow> permission_rule set" where
  "toml_rules S v = (case Option.bind (toml_get v ''permission'') (\<lambda>p. case parse_toml_permission_section (rule_dec S) p of
     Inr rs \<Rightarrow> Some rs | Inl _ \<Rightarrow> None) of Some rs \<Rightarrow> set rs | None \<Rightarrow> {})"

definition settings_rules :: "settings_env \<Rightarrow> string \<Rightarrow> permission_rule set" where
  "settings_rules S path = (case Option.bind (load_claude_settings S path) permissions_of of
     Some p \<Rightarrow> set (rules (fst (into_permission_config p))) | None \<Rightarrow> {})"

text \<open>The rules of every file that a session consults.\<close>

definition consulted :: "settings_env \<Rightarrow> string \<Rightarrow> managed_settings \<Rightarrow> bool \<Rightarrow> permission_rule set" where
  "consulted S cwd managed project_trusted =
     (\<Union>(l, _, v) \<in> set (requirement_layers S). toml_rules S v) \<union> fst ` set (managed_rules managed)
     \<union> (\<Union>(p, v) \<in> set (managed_config_layers S). toml_rules S v)
     \<union> (case global_config S of Some (_, Some v) \<Rightarrow> toml_rules S v | _ \<Rightarrow> {})
     \<union> (if project_trusted then \<Union>p \<in> set (project_config_paths S cwd).
          (case config_files_of S p of Some v \<Rightarrow> toml_rules S v | None \<Rightarrow> {}) else {})
     \<union> (if import_marked S then {} else \<Union>p \<in> set (claude_settings_paths_for_trust S cwd project_trusted). settings_rules S p)"

lemma fst_tag [simp]: "fst ` set (tag_with_source src rs) = set rs"
  by (auto simp: tag_with_source_def image_iff)

lemma fst_extract: "fst ` set (extract_toml_permissions (rule_dec S) v src) = toml_rules S v"
proof (cases "toml_get v ''permission''")
  case (Some p)
  then show ?thesis
    by (cases "parse_toml_permission_section (rule_dec S) p") (simp_all add: extract_toml_permissions_def toml_rules_def)
qed (simp add: extract_toml_permissions_def toml_rules_def)

lemma scan_settings_rules: "set (scan_rules (scan_settings S ap z p)) = set (scan_rules z) \<union> settings_rules S p"
  by (auto simp: scan_settings_def add_permissions_def claim_mode_def settings_rules_def Let_def split: option.split prod.split)

lemma scan_rules_all: "set (scan_rules (foldl (scan_settings S ap) z ps)) = set (scan_rules z) \<union> (\<Union>p \<in> set ps. settings_rules S p)"
  by (induction ps arbitrary: z) (auto simp: scan_settings_rules)

lemma settings_keep_rules:
  assumes "r \<in> settings_rules S p" "p \<in> set (claude_settings_paths_for_trust S cwd trusted)"
  shows "\<exists>c sk path. resolve_claude_settings_inner S cwd trusted pb ap = Some (c, sk, path) \<and> r \<in> set (rules c)"
proof -
  let ?z = "foldl (scan_settings S ap) scan_start (claude_settings_paths_for_trust S cwd trusted)"
  have "r \<in> set (scan_rules ?z)" using assms by (auto simp: scan_rules_all)
  then show ?thesis by (auto simp: resolve_claude_settings_inner_def Let_def split: prod.split)
qed

lemma requirement_rules: "fst ` set (load_requirements_permissions S) = (\<Union>(l, _, v) \<in> set (requirement_layers S). toml_rules S v)"
proof -
  have "fst ` set (extract_toml_permissions (rule_dec S) v src) = toml_rules S v" for v src by (rule fst_extract)
  then show ?thesis by (simp add: load_requirements_permissions_def image_UN split_def)
qed

lemma managed_config_rules: "fst ` set (managed_config_permissions S) = (\<Union>(p, v) \<in> set (managed_config_layers S). toml_rules S v)"
  by (simp add: managed_config_permissions_def image_UN split_def fst_extract)

lemma config_toml_rules:
  "fst ` set (load_config_toml_permissions S cwd trusted) =
     (case global_config S of Some (_, Some v) \<Rightarrow> toml_rules S v | _ \<Rightarrow> {})
     \<union> (if trusted then \<Union>p \<in> set (project_config_paths S cwd). (case config_files_of S p of Some v \<Rightarrow> toml_rules S v | None \<Rightarrow> {}) else {})"
proof -
  have p: "fst ` set (case config_files_of S p of Some v \<Rightarrow> extract_toml_permissions (rule_dec S) v (Source_Config p) | None \<Rightarrow> [])
      = (case config_files_of S p of Some v \<Rightarrow> toml_rules S v | None \<Rightarrow> {})" for p
    by (simp add: fst_extract split: option.split)
  have g: "fst ` set (case global_config S of Some (path, Some v) \<Rightarrow> extract_toml_permissions (rule_dec S) v (Source_Config path) | _ \<Rightarrow> [])
      = (case global_config S of Some (_, Some v) \<Rightarrow> toml_rules S v | _ \<Rightarrow> {})"
    by (simp add: fst_extract split: option.split prod.split)
  show ?thesis
    unfolding load_config_toml_permissions_def set_append image_Un g by (simp only: set_concat set_map image_image image_UN p split: if_split) simp
qed

lemma session_settings_rules:
  assumes "\<not> import_marked S" "p \<in> set (claude_settings_paths_for_trust S cwd trusted)" "r \<in> settings_rules S p"
  shows "r \<in> fst ` set (case settings_of_session S cwd pb managed trusted of
    Some (c, _, path) \<Rightarrow> tag_with_source (Source_Settings path) (rules c) | None \<Rightarrow> [])"
  using settings_keep_rules [OF assms(3,2), of pb "managed_default_mode managed = None"] assms(1)
  by (auto simp: settings_of_session_def tag_with_source_def image_iff)

lemma consulted_rules_are_sourced:
  "consulted S cwd managed trusted \<subseteq> fst ` set (all_sourced_rules S cwd pb managed trusted)"
  unfolding consulted_def all_sourced_rules_def set_append image_Un requirement_rules managed_config_rules config_toml_rules
  using session_settings_rules [of S _ cwd trusted _ pb managed] by (auto split: if_splits)

text \<open>The pin removes rules that allow, and no others.\<close>

lemma drop_keeps:
  "r \<in> fst ` set rs \<Longrightarrow> action r \<noteq> Action_Allow \<Longrightarrow> r \<in> fst ` set (fst (drop_untrusted_catchall_allows E rs pb))"
  by (auto simp: drop_untrusted_catchall_allows_def dropped_by_pin_def is_catchall_allow_def image_iff split: option.split)

lemma restriction_resolved:
  assumes "r \<in> consulted S cwd managed trusted" "action r \<noteq> Action_Allow"
  shows "\<exists>c. resolve_permission_config_with_fallback S cwd managed trusted = Some c \<and> r \<in> set (rules c)"
proof -
  let ?pb = "map_option (\<lambda>l. pin_message (pin_reason l)) (yolo_policy_lock_of S)"
  have "r \<in> fst ` set (all_sourced_rules S cwd ?pb managed trusted)"
    using consulted_rules_are_sourced [of S cwd managed trusted ?pb] assms(1) by blast
  then have "r \<in> fst ` set (fst (drop_untrusted_catchall_allows (rules_env S) (all_sourced_rules S cwd ?pb managed trusted) ?pb))"
    using assms(2) by (rule drop_keeps)
  then show ?thesis
    by (auto simp: resolve_permission_config_with_fallback_def resolve_permissions_with_provenance_def
        resolve_permissions_with_provenance_inner_def Let_def split: prod.splits)
qed

section \<open>Under the pin\<close>

lemma no_mode_allows_all [simp]: "eff_prompt_policy (mode_effects mode) \<noteq> Prompt_Allow"
  by (cases mode) (simp_all add: effects_default_def)

lemma scan_policy_ne: "scan_policy z \<noteq> Prompt_Allow \<Longrightarrow> scan_policy (foldl (scan_settings S ap) z ps) \<noteq> Prompt_Allow"
  by (induction ps arbitrary: z)
    (auto simp: scan_settings_def add_permissions_def claim_mode_def Let_def split: option.split prod.split)

lemma settings_policy_ne:
  "settings_of_session S cwd pb managed trusted = Some (c, sk, p) \<Longrightarrow> prompt_policy c \<noteq> Prompt_Allow"
  using scan_policy_ne [of scan_start S]
  by (auto simp: settings_of_session_def resolve_claude_settings_inner_def Let_def scan_start_def split: prod.splits if_splits)

lemma mode_of_session_ne:
  "mode_of_session managed (settings_of_session S cwd pb managed trusted) = (pol, conf) \<Longrightarrow> pol \<noteq> Prompt_Allow"
  using settings_policy_ne [of S cwd pb managed trusted] no_mode_allows_all
  by (fastforce simp: mode_of_session_def split: option.splits)

lemma pin_found:
  assumes "(path, layer) \<in> set layers"
    "requirements_lock_bool (toml_get layer ''ui'') ''disable_bypass_permissions_mode'' = Some True
     \<or> requirements_lock_bool (toml_get layer ''ui'') ''yolo'' = Some False"
  shows "resolve_yolo_policy_block layers \<noteq> None"
  using assms by (induction layers rule: resolve_yolo_policy_block.induct) (auto simp: Let_def)

definition admin_only :: "permission_env \<Rightarrow> resolved_permissions \<Rightarrow> bool" where
  "admin_only E r \<longleftrightarrow> length (resolved_sources r) = length (rules (resolved_config r))
     \<and> list_all (\<lambda>(rule, src). is_catchall_allow E rule \<longrightarrow> is_admin_source src) (zip (rules (resolved_config r)) (resolved_sources r))
     \<and> prompt_policy (resolved_config r) \<noteq> Prompt_Allow"

lemma drop_admin_only:
  "drop_untrusted_catchall_allows E rs (Some b) = (kept, dropped) \<Longrightarrow>
     list_all (\<lambda>(rule, src). is_catchall_allow E rule \<longrightarrow> is_admin_source src) kept"
  by (auto simp: drop_untrusted_catchall_allows_def dropped_by_pin_def list_all_iff)

lemma pinned_admin_only:
  assumes "resolve_permissions_with_provenance_inner S cwd (Some lock) managed trusted = Some r"
  shows "admin_only (rules_env S) r"
  using assms drop_admin_only [of "rules_env S" "all_sourced_rules S cwd (Some (pin_message (pin_reason lock))) managed trusted"]
    mode_of_session_ne [of managed S cwd "Some (pin_message (pin_reason lock))" trusted]
  by (auto simp: resolve_permissions_with_provenance_inner_def admin_only_def Let_def zip_map_fst_snd
      split: prod.splits if_splits)


text \<open>The user's settings ask for the mode and allow every command, below requirements that pin it.\<close>

definition pinned_settings :: settings_env where
  "pinned_settings = (demo_settings None)\<lparr>settings_json := (\<lambda>p. if p = ''/h/.claude/settings.json'' then Some allow_all_settings else None)\<rparr>"


end
