(* ===== verification/Plan_Mode.thy ===== *)
theory Plan_Mode
  imports Protected_Edits
begin

text \<open>
  From a tool call to the access that is authorised (\<open>From<&ToolInput> for AccessKind\<close> in
  \<open>permission/types.rs\<close>), and the plan mode of a session (\<open>session/plan_mode.rs\<close> and its gate in
  \<open>session/acp_session_impl/tool_calls.rs\<close>): a state machine that keeps track of whether the session
  plans and of what the model has still to be told about it.

  The theory shows that a model that was told to plan is told when planning ends, over every run of the
  state machine in which the mode is not entered again while that message is outstanding, and also
  across a restart; and that the exception is real.
\<close>

section \<open>Tool calls and their access\<close>

text \<open>The variants of a tool input with the fields that matter here; the others go to one arm.\<close>

datatype tool_input =
    In_ReadFile string
  | In_SearchReplace string
  | In_Bash string
  | In_Grep "string option" "string option"
  | In_ListDir string
  | In_TodoWrite | In_Skill | In_TaskOutput | In_WaitTasks | In_KillTask
  | In_MCPTool string json
  | In_UseTool string json
  | In_Task string
  | In_WebSearch string
  | In_WebFetch string
  | In_Write string
  | In_ApplyPatch string
  | In_HashlineEdit string
  | In_CodexReadFile string | In_CodexListDir string | In_CodexGrepFiles "string option"
  | In_SendSubagentMessage string
  | In_SendFeedback
  | In_Monitor string
  | In_Dynamic json
  | In_Other string

fun access_of_input :: "tool_input \<Rightarrow> access_kind" where
  "access_of_input (In_ReadFile path) = Access_Read (Some path)"
| "access_of_input (In_ListDir target_directory) = Access_Read (Some target_directory)"
| "access_of_input (In_Grep path glob) = Access_Grep path glob"
| "access_of_input In_TodoWrite = Access_Read None"
| "access_of_input In_TaskOutput = Access_Read None"
| "access_of_input In_WaitTasks = Access_Read None"
| "access_of_input In_KillTask = Access_Read None"
| "access_of_input In_Skill = Access_Read None"
| "access_of_input (In_Task subagent_type) = Access_Edit (''task:'' @ subagent_type)"
| "access_of_input (In_SendSubagentMessage i) = Access_AgentMessage i"
| "access_of_input In_SendFeedback = Access_Edit ''feedback_draft''"
| "access_of_input (In_WebSearch query) = Access_WebSearch query"
| "access_of_input (In_SearchReplace file_path) = Access_Edit file_path"
| "access_of_input (In_ApplyPatch patch) = Access_Edit ''apply_patch''"
| "access_of_input (In_HashlineEdit file_path) = Access_Edit file_path"
| "access_of_input (In_Write file_path) = Access_Edit file_path"
| "access_of_input (In_Bash command) = Access_Bash command"
| "access_of_input (In_Monitor command) = Access_Bash command"
| "access_of_input (In_MCPTool name input) = Access_MCPTool name input"
| "access_of_input (In_UseTool name input) = Access_MCPTool name input"
| "access_of_input (In_WebFetch url) = Access_WebFetch url"
| "access_of_input (In_Dynamic v) = access_kind_from_dynamic v"
| "access_of_input (In_CodexReadFile _) = Access_Read None"
| "access_of_input (In_CodexListDir _) = Access_Read None"
| "access_of_input (In_CodexGrepFiles _) = Access_Read None"
| "access_of_input (In_Other _) = Access_Read None"

definition SEND_FEEDBACK_TOOL_NAME :: string where "SEND_FEEDBACK_TOOL_NAME = ''send_feedback''"

definition access_kind_for_resolved_tool :: "string \<Rightarrow> tool_input \<Rightarrow> access_kind" where
  "access_kind_for_resolved_tool tool_name input =
     (if tool_name = SEND_FEEDBACK_TOOL_NAME then
        (case input of
           In_SendFeedback \<Rightarrow> Access_Edit ''feedback_draft''
         | In_Dynamic _ \<Rightarrow> Access_Edit ''feedback_draft''
         | other \<Rightarrow> access_of_input other)
      else access_of_input input)"

section \<open>The tracker\<close>

datatype plan_mode_state = Plan_Inactive | Plan_Pending | Plan_Active | Plan_ExitPending

record pending_activation =
  act_text :: string
  prior_was_previously_active :: bool

record plan_mode_tracker =
  plan_state :: plan_mode_state
  was_previously_active :: bool
  reminder_count :: "32 word"
  pending_exit_reminder :: bool
  awaiting_plan_approval :: bool
  pending_activation_of :: "pending_activation option"
  plan_file_path :: string

record plan_mode_snapshot =
  snap_state :: plan_mode_state
  snap_was_previously_active :: bool
  snap_reminder_count :: "32 word"
  snap_pending_exit_reminder :: bool
  snap_awaiting_plan_approval :: bool

definition tracker_new :: "string \<Rightarrow> plan_mode_tracker" where
  "tracker_new session_dir = \<lparr>plan_state = Plan_Inactive, was_previously_active = False, reminder_count = 0,
     pending_exit_reminder = False, awaiting_plan_approval = False, pending_activation_of = None,
     plan_file_path = path_join session_dir ''plan.md''\<rparr>"

definition collapse_snapshot :: "plan_mode_snapshot \<Rightarrow> plan_mode_snapshot" where
  "collapse_snapshot s = (case snap_state s of
     Plan_Pending \<Rightarrow> s\<lparr>snap_state := Plan_Inactive\<rparr>
   | Plan_ExitPending \<Rightarrow> s\<lparr>snap_state := Plan_Inactive, snap_pending_exit_reminder := True\<rparr>
   | _ \<Rightarrow> s)"

definition from_snapshot :: "string \<Rightarrow> plan_mode_snapshot \<Rightarrow> plan_mode_tracker" where
  "from_snapshot session_dir snap0 =
     (let s = collapse_snapshot snap0
      in \<lparr>plan_state = snap_state s, was_previously_active = snap_was_previously_active s,
          reminder_count = snap_reminder_count s, pending_exit_reminder = snap_pending_exit_reminder s,
          awaiting_plan_approval = snap_awaiting_plan_approval s, pending_activation_of = None,
          plan_file_path = path_join session_dir ''plan.md''\<rparr>)"

definition set_awaiting_plan_approval :: "bool \<Rightarrow> plan_mode_tracker \<Rightarrow> plan_mode_tracker" where
  "set_awaiting_plan_approval awaiting t = t\<lparr>awaiting_plan_approval := awaiting\<rparr>"

definition snapshot :: "plan_mode_tracker \<Rightarrow> plan_mode_snapshot" where
  "snapshot t = \<lparr>snap_state = plan_state t, snap_was_previously_active = was_previously_active t,
     snap_reminder_count = reminder_count t, snap_pending_exit_reminder = pending_exit_reminder t,
     snap_awaiting_plan_approval = awaiting_plan_approval t\<rparr>"

definition is_active :: "plan_mode_tracker \<Rightarrow> bool" where
  "is_active t \<longleftrightarrow> plan_state t = Plan_Active"

definition is_plan_file_write :: "string \<Rightarrow> string \<Rightarrow> bool" where
  "is_plan_file_write target_path plan_file = path_eq target_path plan_file"

definition should_auto_approve_edit :: "plan_mode_tracker \<Rightarrow> string \<Rightarrow> bool" where
  "should_auto_approve_edit t edit_path \<longleftrightarrow> is_active t \<and> is_plan_file_write edit_path (plan_file_path t)"

definition should_use_full_reminder :: "plan_mode_tracker \<Rightarrow> bool" where
  "should_use_full_reminder t \<longleftrightarrow> even (unat (reminder_count t))"

definition is_reentry :: "plan_mode_tracker \<Rightarrow> bool" where
  "is_reentry t \<longleftrightarrow> was_previously_active t \<and> plan_state t = Plan_Pending"

definition enter_pending :: "plan_mode_tracker \<Rightarrow> bool \<times> plan_mode_tracker" where
  "enter_pending t = (case plan_state t of
     Plan_Inactive \<Rightarrow> (True, t\<lparr>plan_state := Plan_Pending, pending_exit_reminder := False\<rparr>)
   | Plan_ExitPending \<Rightarrow> (True, t\<lparr>plan_state := Plan_Active, pending_exit_reminder := False\<rparr>)
   | _ \<Rightarrow> (False, t))"

definition activate :: "plan_mode_tracker \<Rightarrow> bool \<times> plan_mode_tracker" where
  "activate t = (if plan_state t \<noteq> Plan_Pending then (False, t)
     else (True, t\<lparr>plan_state := Plan_Active, was_previously_active := True, reminder_count := 0\<rparr>))"

definition activate_mid_turn :: "string \<Rightarrow> plan_mode_tracker \<Rightarrow> bool \<times> plan_mode_tracker" where
  "activate_mid_turn rendered_reminder t = (if plan_state t \<noteq> Plan_Pending then (False, t)
     else (True, t\<lparr>plan_state := Plan_Active, was_previously_active := True, reminder_count := 0,
       pending_activation_of := Some \<lparr>act_text = rendered_reminder, prior_was_previously_active = was_previously_active t\<rparr>\<rparr>))"

definition take_pending_activation :: "plan_mode_tracker \<Rightarrow> string option \<times> plan_mode_tracker" where
  "take_pending_activation t = (map_option act_text (pending_activation_of t), t\<lparr>pending_activation_of := None\<rparr>)"

definition activate_from_tool :: "plan_mode_tracker \<Rightarrow> bool \<times> plan_mode_tracker" where
  "activate_from_tool t = (if plan_state t \<noteq> Plan_Inactive then (False, t)
     else (True, t\<lparr>plan_state := Plan_Active, was_previously_active := True, reminder_count := 0,
       pending_exit_reminder := False\<rparr>))"

definition deactivate_approved :: "plan_mode_tracker \<Rightarrow> bool \<times> plan_mode_tracker" where
  "deactivate_approved t = (if plan_state t \<noteq> Plan_Active then (False, t)
     else (True, t\<lparr>plan_state := Plan_Inactive, reminder_count := 0, awaiting_plan_approval := False,
       pending_activation_of := None\<rparr>))"

definition user_exit :: "bool \<Rightarrow> plan_mode_tracker \<Rightarrow> plan_mode_tracker" where
  "user_exit turn_in_flight t =
     (let t1 = t\<lparr>awaiting_plan_approval := False, pending_activation_of := None\<rparr>
      in case pending_activation_of t of
           Some p \<Rightarrow>
             if plan_state t = Plan_Active
             then t1\<lparr>plan_state := Plan_Inactive, was_previously_active := prior_was_previously_active p\<rparr>
             else (if plan_state t = Plan_Pending then t1\<lparr>plan_state := Plan_Inactive\<rparr> else t1)
         | None \<Rightarrow>
             (case plan_state t of
                Plan_Pending \<Rightarrow> t1\<lparr>plan_state := Plan_Inactive\<rparr>
              | Plan_Active \<Rightarrow>
                  if turn_in_flight then t1\<lparr>plan_state := Plan_ExitPending\<rparr>
                  else t1\<lparr>plan_state := Plan_Inactive, pending_exit_reminder := True\<rparr>
              | _ \<Rightarrow> t1))"

definition complete_deferred_exit :: "plan_mode_tracker \<Rightarrow> plan_mode_tracker" where
  "complete_deferred_exit t = (if plan_state t \<noteq> Plan_ExitPending then t
     else t\<lparr>plan_state := Plan_Inactive, pending_exit_reminder := True\<rparr>)"

definition queue_exit_reminder :: "plan_mode_tracker \<Rightarrow> plan_mode_tracker" where
  "queue_exit_reminder t = t\<lparr>pending_exit_reminder := True\<rparr>"

definition record_reminder_injected :: "plan_mode_tracker \<Rightarrow> plan_mode_tracker" where
  "record_reminder_injected t = t\<lparr>reminder_count := reminder_count t + 1\<rparr>"

definition clear_pending_exit_reminder :: "plan_mode_tracker \<Rightarrow> plan_mode_tracker" where
  "clear_pending_exit_reminder t = t\<lparr>pending_exit_reminder := False\<rparr>"

definition reset_after_compaction :: "plan_mode_tracker \<Rightarrow> plan_mode_tracker" where
  "reset_after_compaction t = (if plan_state t = Plan_Active
     then t\<lparr>reminder_count := 0, pending_activation_of := None\<rparr> else t)"

section \<open>Prompt modes\<close>

datatype prompt_mode = Prompt_Agent | Prompt_AskOnly | Prompt_Plan

definition from_meta_str :: "string \<Rightarrow> prompt_mode" where
  "from_meta_str s = (if s = ''ask'' then Prompt_AskOnly else if s = ''plan'' then Prompt_Plan else Prompt_Agent)"

definition is_read_only :: "prompt_mode \<Rightarrow> bool" where
  "is_read_only m \<longleftrightarrow> m = Prompt_AskOnly \<or> m = Prompt_Plan"

definition session_prompt_mode :: "plan_mode_tracker \<Rightarrow> prompt_mode" where
  "session_prompt_mode t = (if is_active t then Prompt_Plan else Prompt_Agent)"

definition MARKDOWN_SUFFIXES :: "string list" where
  "MARKDOWN_SUFFIXES = [''.md'', ''.markdown'', ''.mdown'', ''.mkd'', ''.mkdn'', ''.mdx'']"

definition is_markdown_file_path :: "string \<Rightarrow> bool" where
  "is_markdown_file_path path = (case path_file_name path of
     None \<Rightarrow> False
   | Some name \<Rightarrow> list_ex (\<lambda>suffix. length suffix \<le> length name
       \<and> eq_ignore_ascii_case (drop (length name - length suffix) name) suffix) MARKDOWN_SUFFIXES)"

section \<open>The gate\<close>

datatype plan_edit_gate = Gate_Allow | RejectNonPlanFile

definition plan_mode_edit_gate :: "plan_mode_tracker \<Rightarrow> tool_input \<Rightarrow> access_kind \<Rightarrow> plan_edit_gate" where
  "plan_mode_edit_gate t input acc =
     (if \<not> is_active t then Gate_Allow
      else if (case input of In_Task _ \<Rightarrow> True | _ \<Rightarrow> False) then Gate_Allow
      else case acc of
        Access_Edit path \<Rightarrow> if should_auto_approve_edit t path then Gate_Allow else RejectNonPlanFile
      | _ \<Rightarrow> Gate_Allow)"

text \<open>Whether a call runs without asking the manager: an edit of the plan file, unless a hook asks.\<close>

definition plan_file_auto_approve :: "plan_mode_tracker \<Rightarrow> hook_ask option \<Rightarrow> access_kind \<Rightarrow> bool" where
  "plan_file_auto_approve t hook acc = (case acc of
     Access_Edit path \<Rightarrow> hook = None \<and> should_auto_approve_edit t path | _ \<Rightarrow> False)"

datatype plan_approval_outcome = Plan_Approved | Plan_Cancelled | Plan_Abandoned

definition approval_from_response :: "string \<Rightarrow> plan_approval_outcome" where
  "approval_from_response outcome =
     (if outcome = ''approved'' then Plan_Approved else if outcome = ''abandoned'' then Plan_Abandoned else Plan_Cancelled)"

section \<open>What the model has been told\<close>

text \<open>The calls of the session, in the order in which it makes them. A reminder of the plan mode is injected
  only while the mode is active and no activation is buffered; the activation and the exit
  reminder only when there is one; an approved exit either says so itself or queues the reminder.\<close>

datatype plan_event =
    Toggle_On | First_Prompt | Toggle_On_Mid_Turn string | Deliver_Activation | Tool_Enter
  | Approved_Exit bool | Toggle_Off bool | Turn_Done | Inject_Reminder | Inject_Exit_Reminder | Compact
  | Awaiting bool | Restart string

definition event_enabled :: "plan_mode_tracker \<Rightarrow> plan_event \<Rightarrow> bool" where
  "event_enabled t e = (case e of
     Deliver_Activation \<Rightarrow> pending_activation_of t \<noteq> None
   | Inject_Reminder \<Rightarrow> is_active t \<and> pending_activation_of t = None
   | Inject_Exit_Reminder \<Rightarrow> pending_exit_reminder t
   | Approved_Exit _ \<Rightarrow> is_active t \<and> pending_activation_of t = None
   | _ \<Rightarrow> True)"

fun plan_step :: "plan_mode_tracker \<Rightarrow> plan_event \<Rightarrow> plan_mode_tracker" where
  "plan_step t Toggle_On = snd (enter_pending t)"
| "plan_step t First_Prompt = snd (activate t)"
| "plan_step t (Toggle_On_Mid_Turn r) = snd (activate_mid_turn r t)"
| "plan_step t Deliver_Activation = record_reminder_injected (snd (take_pending_activation t))"
| "plan_step t Tool_Enter = snd (activate_from_tool t)"
| "plan_step t (Approved_Exit queue) =
     (let t1 = snd (deactivate_approved t) in if queue then queue_exit_reminder t1 else t1)"
| "plan_step t (Toggle_Off in_flight) = user_exit in_flight t"
| "plan_step t Turn_Done = complete_deferred_exit t"
| "plan_step t Inject_Reminder = record_reminder_injected t"
| "plan_step t Inject_Exit_Reminder = clear_pending_exit_reminder t"
| "plan_step t Compact = reset_after_compaction t"
| "plan_step t (Awaiting b) = set_awaiting_plan_approval b t"
| "plan_step t (Restart dir) = from_snapshot dir (snapshot t)"

text \<open>Whether the last thing the model heard of the plan mode is that it is on.\<close>

definition told_after :: "plan_mode_tracker \<Rightarrow> bool \<Rightarrow> plan_event \<Rightarrow> bool" where
  "told_after t told e = (case e of
     First_Prompt \<Rightarrow> told \<or> fst (activate t)
   | Deliver_Activation \<Rightarrow> True
   | Tool_Enter \<Rightarrow> told \<or> fst (activate_from_tool t)
   | Inject_Reminder \<Rightarrow> True
   | Approved_Exit queue \<Rightarrow> told \<and> queue
   | Inject_Exit_Reminder \<Rightarrow> False
   | _ \<Rightarrow> told)"

fun plan_run :: "plan_mode_tracker \<times> bool \<Rightarrow> plan_event list \<Rightarrow> (plan_mode_tracker \<times> bool) option" where
  "plan_run s [] = Some s"
| "plan_run (t, told) (e # es) = (if event_enabled t e then plan_run (plan_step t e, told_after t told e) es else None)"

text \<open>Runs in which the mode is not toggled on again before the model has heard that it ended.\<close>

fun patient :: "plan_mode_tracker \<times> bool \<Rightarrow> plan_event list \<Rightarrow> bool" where
  "patient s [] = True"
| "patient (t, told) (e # es) \<longleftrightarrow>
     (e = Toggle_On \<and> plan_state t = Plan_Inactive \<longrightarrow> \<not> pending_exit_reminder t)
     \<and> patient (plan_step t e, told_after t told e) es"

definition announced :: "plan_mode_tracker \<times> bool \<Rightarrow> bool" where
  "announced s \<longleftrightarrow> (case s of (t, told) \<Rightarrow>
     (plan_state t = Plan_Inactive \<and> told \<longrightarrow> pending_exit_reminder t)
     \<and> (plan_state t = Plan_Pending \<longrightarrow> \<not> told)
     \<and> (pending_activation_of t \<noteq> None \<longrightarrow> plan_state t = Plan_Active \<and> \<not> told))"

lemmas tracker_defs = enter_pending_def activate_def activate_mid_turn_def take_pending_activation_def activate_from_tool_def
  deactivate_approved_def user_exit_def complete_deferred_exit_def queue_exit_reminder_def record_reminder_injected_def
  clear_pending_exit_reminder_def reset_after_compaction_def set_awaiting_plan_approval_def from_snapshot_def snapshot_def
  collapse_snapshot_def is_active_def

lemma announced_step:
  assumes "announced (t, told)" "event_enabled t e"
    and "e = Toggle_On \<Longrightarrow> plan_state t = Plan_Inactive \<Longrightarrow> \<not> pending_exit_reminder t"
  shows "announced (plan_step t e, told_after t told e)"
  using assms by (cases e; cases "plan_state t"; cases "pending_activation_of t")
    (simp_all add: announced_def told_after_def event_enabled_def tracker_defs Let_def)

lemma announced_run:
  "announced s \<Longrightarrow> patient s es \<Longrightarrow> plan_run s es = Some s' \<Longrightarrow> announced s'"
proof (induction s es rule: plan_run.induct)
  case (2 t told e es)
  then show ?case using announced_step [of t told e] by (auto split: if_splits)
qed simp

text \<open>C26: The end of planning is announced. Over every run of the session's calls, restarts included, in
  which the plan mode is not toggled on again while the message of its end is outstanding: when the mode is off
  and the last thing the model heard is that it is on, the message of its end is queued; and a buffered
  activation exists only while the mode is on and the model does not know of it yet, so withdrawing it
  needs no message.\<close>

theorem plan_exit_is_announced:
  assumes "patient (tracker_new dir, False) es" "plan_run (tracker_new dir, False) es = Some (t, told)"
  shows "(plan_state t = Plan_Inactive \<longrightarrow> told \<longrightarrow> pending_exit_reminder t)
    \<and> (pending_activation_of t \<noteq> None \<longrightarrow> plan_state t = Plan_Active \<and> \<not> told)"
proof -
  have "announced (tracker_new dir, False)" by (simp add: announced_def tracker_new_def)
  then have "announced (t, told)" using announced_run assms by blast
  then show ?thesis by (simp add: announced_def)
qed

theorem plan_exit_is_announced_witness:
  "\<exists>t. plan_run (tracker_new ''/s'', False) [Toggle_On, First_Prompt, Toggle_Off True, Restart ''/s''] = Some (t, True)
     \<and> pending_exit_reminder t"
proof -
  let ?es = "[Toggle_On, First_Prompt, Toggle_Off True, Restart ''/s'']"
  have p: "patient (tracker_new ''/s'', False) ?es" by code_simp
  have "case plan_run (tracker_new ''/s'', False) ?es of Some (t, told) \<Rightarrow> told \<and> plan_state t = Plan_Inactive | None \<Rightarrow> False"
    by code_simp
  then obtain t where t: "plan_run (tracker_new ''/s'', False) ?es = Some (t, True)" "plan_state t = Plan_Inactive"
    by (auto split: option.splits)
  then show ?thesis using plan_exit_is_announced [OF p t(1)] by blast
qed

text \<open>Toggling on clears the message, so toggling on and off again before a prompt loses it: the mode is off
  and the model is never told.\<close>

lemma exit_reminder_lost:
  "case plan_run (tracker_new ''/s'', False) [Toggle_On, First_Prompt, Toggle_Off False, Toggle_On, Toggle_Off False] of
     Some (t, told) \<Rightarrow> told \<and> plan_state t = Plan_Inactive \<and> \<not> pending_exit_reminder t | None \<Rightarrow> False"
  by code_simp

section \<open>Edits while planning\<close>

lemma plan_gate_iff:
  assumes "is_active t" "\<nexists>ty. input = In_Task ty"
  shows "plan_mode_edit_gate t input acc = Gate_Allow \<longleftrightarrow> (\<forall>path. acc = Access_Edit path \<longrightarrow> path_eq path (plan_file_path t))"
  using assms by (cases input; cases acc)
    (simp_all add: plan_mode_edit_gate_def should_auto_approve_edit_def is_plan_file_write_def)

text \<open>The placeholder of a patch is a relative path, so no patch passes the gate while planning.\<close>

lemma patch_blocked_while_planning:
  assumes "is_active t" "is_absolute (plan_file_path t)"
  shows "plan_mode_edit_gate t (In_ApplyPatch p) (access_of_input (In_ApplyPatch p)) = RejectNonPlanFile"
proof -
  have "hd (components (plan_file_path t)) = RootDir" using assms(2) by (simp add: is_absolute_def components_def Let_def)
  moreover have "hd (components ''apply_patch'') \<noteq> RootDir" by code_simp
  ultimately have "\<not> path_eq ''apply_patch'' (plan_file_path t)" by (auto simp: path_eq_def)
  then show ?thesis using assms(1) by (simp add: plan_mode_edit_gate_def should_auto_approve_edit_def is_plan_file_write_def)
qed

end
