(* ===== verification/Session_Setup.thy ===== *)
theory Session_Setup
  imports Permission_Handle Permission_Resolution Plan_Mode
begin

text \<open>
  How a session comes by its permissions: the mode in which it is launched
  (\<open>util/config/permissions.rs\<close> of the shell), and the set-up of its permission manager
  (\<open>session/acp_session_impl/spawn.rs\<close>), which joins the resolution of the configuration files with the rules of the command line and
  the hint of the client and starts the manager on the result.

  The theory composes the components: a deny rule of any file that the session consults is
  enforced on every request in every state of the manager, and under the pin no protected file is written without
  an affirmative answer of the user. It also shows what the composition does not give: the files of a patch
  are not seen by the rules.
\<close>

section \<open>The mode of the launch\<close>

text \<open>The modes are those that the manager reports.\<close>

definition parse_permission_mode_canonical :: "string \<Rightarrow> permission_mode" where
  "parse_permission_mode_canonical mode_str =
     (if mode_str = ''always-approve'' then permission_mode.Mode_AlwaysApprove else if mode_str = ''auto'' then permission_mode.Mode_Auto else permission_mode.Mode_Ask)"

fun permission_mode_canonical_str :: "permission_mode \<Rightarrow> string" where
  "permission_mode_canonical_str permission_mode.Mode_AlwaysApprove = ''always-approve''"
| "permission_mode_canonical_str permission_mode.Mode_Auto = ''auto''"
| "permission_mode_canonical_str permission_mode.Mode_Ask = ''ask''"

fun toml_str :: "toml \<Rightarrow> string option" where
  "toml_str (Toml_String s) = Some s"
| "toml_str _ = None"

definition UI_PERMISSION_MODE_KEYS :: "string list" where
  "UI_PERMISSION_MODE_KEYS = [''permission_mode'', ''approval_mode'', ''yolo'']"

definition permission_mode_from_ui_if_set :: "toml \<Rightarrow> permission_mode option" where
  "permission_mode_from_ui_if_set ui =
     (if \<not> list_ex (\<lambda>k. toml_get ui k \<noteq> None) UI_PERMISSION_MODE_KEYS then None
      else case Option.bind (toml_get ui ''permission_mode'') toml_str of
        Some mode_str \<Rightarrow> Some (parse_permission_mode_canonical mode_str)
      | None \<Rightarrow> (case Option.bind (toml_get ui ''approval_mode'') toml_str of
          Some mode_str \<Rightarrow> Some (if mode_str = ''always-approve'' then permission_mode.Mode_AlwaysApprove else permission_mode.Mode_Ask)
        | None \<Rightarrow> Some (if Option.bind (toml_get ui ''yolo'') toml_bool = Some True then permission_mode.Mode_AlwaysApprove else permission_mode.Mode_Ask)))"

definition DEFAULT_INTERACTIVE_PERMISSION_MODE :: permission_mode where
  "DEFAULT_INTERACTIVE_PERMISSION_MODE = permission_mode.Mode_Ask"

text \<open>The argument is the value of \<open>GROK_DEFAULT_PERMISSION_MODE\<close>.\<close>

definition default_interactive_permission_mode :: "string option \<Rightarrow> permission_mode" where
  "default_interactive_permission_mode var =
     (if var = Some ''auto'' then permission_mode.Mode_Auto else if var = Some ''ask'' \<or> var = Some ''default'' then permission_mode.Mode_Ask
      else DEFAULT_INTERACTIVE_PERMISSION_MODE)"

definition selected_permission_mode :: "toml option \<Rightarrow> string option \<Rightarrow> permission_mode option" where
  "selected_permission_mode effective_ui remote = (case Option.bind effective_ui permission_mode_from_ui_if_set of
     Some mode \<Rightarrow> Some mode | None \<Rightarrow> map_option parse_permission_mode_canonical remote)"

definition resolve_permission_mode :: "toml option \<Rightarrow> string option \<Rightarrow> permission_mode" where
  "resolve_permission_mode effective_ui remote =
     (case selected_permission_mode effective_ui remote of Some mode \<Rightarrow> mode | None \<Rightarrow> permission_mode.Mode_Ask)"

definition clamped_display_permission_mode :: "permission_mode \<Rightarrow> string" where
  "clamped_display_permission_mode mode =
     (if mode = permission_mode.Mode_AlwaysApprove \<or> mode = permission_mode.Mode_Auto then ''ask'' else permission_mode_canonical_str mode)"

definition resolved_display_permission_mode :: "toml option \<Rightarrow> string option \<Rightarrow> string" where
  "resolved_display_permission_mode effective_ui remote =
     (if Option.bind (Option.bind effective_ui (\<lambda>ui. toml_get ui ''permission_mode'')) toml_str = Some ''default'' then ''default''
      else clamped_display_permission_mode (resolve_permission_mode effective_ui remote))"

text \<open>The merged configuration of the launch is an argument, \<open>None\<close> when it cannot be loaded.\<close>

definition load_selected_permission_mode :: "toml option \<Rightarrow> string option \<Rightarrow> permission_mode option" where
  "load_selected_permission_mode layers remote = (case layers of
     None \<Rightarrow> Some permission_mode.Mode_Ask
   | Some merged \<Rightarrow> selected_permission_mode (toml_get merged ''ui'') remote)"

definition load_permission_mode :: "toml option \<Rightarrow> string option \<Rightarrow> permission_mode" where
  "load_permission_mode layers remote = (case load_selected_permission_mode layers remote of Some mode \<Rightarrow> mode | None \<Rightarrow> permission_mode.Mode_Ask)"

definition require_plan_approval :: "toml option \<Rightarrow> bool" where
  "require_plan_approval layers = (case layers of
     None \<Rightarrow> False
   | Some merged \<Rightarrow> Option.bind (Option.bind (toml_get merged ''ui'') (\<lambda>ui. toml_get ui ''require_plan_approval'')) toml_bool = Some True)"

record effective_yolo =
  yolo :: bool
  blocked_warning :: "string option"
  policy_block :: "string option"

definition resolve_effective_yolo :: "bool \<Rightarrow> string option \<Rightarrow> bool \<Rightarrow> bool" where
  "resolve_effective_yolo cli_always_approve cli_permission_mode config_is_always_approve = (case cli_permission_mode of
     Some mode \<Rightarrow> mode = ''bypassPermissions'' \<or> mode = ''always-approve''
   | None \<Rightarrow> if cli_always_approve then True else config_is_always_approve)"

definition resolve_launch_yolo :: "bool \<Rightarrow> string option \<Rightarrow> effective_yolo" where
  "resolve_launch_yolo requested block =
     \<lparr>yolo = (requested \<and> block = None), blocked_warning = (if requested then block else None), policy_block = block\<rparr>"

definition effective_yolo_for_launch ::
  "toml option \<Rightarrow> string option \<Rightarrow> bool \<Rightarrow> string option \<Rightarrow> string option \<Rightarrow> effective_yolo" where
  "effective_yolo_for_launch layers block cli_always_approve cli_permission_mode remote =
     resolve_launch_yolo (resolve_effective_yolo cli_always_approve cli_permission_mode
       (load_permission_mode layers remote = permission_mode.Mode_AlwaysApprove)) block"

definition effective_auto_for_launch ::
  "toml option \<Rightarrow> string option \<Rightarrow> bool \<Rightarrow> bool \<Rightarrow> string option \<Rightarrow> string option \<Rightarrow> permission_mode \<Rightarrow> bool" where
  "effective_auto_for_launch layers block gate cli_always_approve cli_permission_mode remote unset_default =
     (if \<not> gate then False
      else if cli_always_approve \<and> cli_permission_mode = None then False
      else if yolo (effective_yolo_for_launch layers block cli_always_approve cli_permission_mode remote) then False
      else if cli_always_approve \<and> cli_permission_mode = Some ''auto'' then False
      else case cli_permission_mode of
        Some mode \<Rightarrow> mode = ''auto''
      | None \<Rightarrow> (case load_selected_permission_mode layers remote of Some m \<Rightarrow> m | None \<Rightarrow> unset_default) = permission_mode.Mode_Auto)"

definition auto_mode_session_active :: "bool \<Rightarrow> bool \<Rightarrow> bool \<Rightarrow> bool" where
  "auto_mode_session_active gate_enabled requested_auto session_yolo \<longleftrightarrow> gate_enabled \<and> requested_auto \<and> \<not> session_yolo"

section \<open>The permissions of a session\<close>

definition drop_cli_catchall_allows ::
  "permission_env \<Rightarrow> permission_rule list \<Rightarrow> string option \<Rightarrow> permission_rule list \<times> permission_rule list" where
  "drop_cli_catchall_allows E rs block =
     (if block = None then (rs, []) else (filter (\<lambda>r. \<not> is_catchall_allow E r) rs, filter (is_catchall_allow E) rs))"

text \<open>What a session is started with: its directory and whether the project there is trusted, the rules of the command
  line, the hint of the client, and the modes that were asked for.\<close>

record session_start =
  start_cwd :: string
  start_trusted :: bool
  cli_permission_rules :: "permission_rule list"
  hinted_mode :: "string option"
  session_yolo_mode :: bool
  session_auto_mode :: bool
  auto_gate :: bool

definition merge_cli_rules :: "permission_rule list \<Rightarrow> permission_config option \<Rightarrow> permission_config option" where
  "merge_cli_rules cli conf = (if cli = [] then conf
     else case conf of
       Some c \<Rightarrow> Some (c\<lparr>rules := cli @ rules c\<rparr>)
     | None \<Rightarrow> Some (permission_config_new cli))"

definition session_permission_config :: "settings_env \<Rightarrow> managed_settings \<Rightarrow> session_start \<Rightarrow> permission_config option" where
  "session_permission_config S managed X =
     (let lock = yolo_policy_lock_of S; pin = map_option (\<lambda>l. pin_message (pin_reason l)) lock;
          conf = map_option resolved_config (resolve_permissions_with_provenance_inner S (start_cwd X) lock managed (start_trusted X));
          (cli, dropped) = drop_cli_catchall_allows (rules_env S) (cli_permission_rules X) pin
      in snd (apply_permission_mode_hint (merge_cli_rules cli conf) (hinted_mode X) pin))"

text \<open>The arguments of the manager that the set-up computes; the others are those of the configuration given.\<close>

definition session_manager_config :: "actor_env \<Rightarrow> settings_env \<Rightarrow> managed_settings \<Rightarrow> session_start \<Rightarrow> manager_config \<Rightarrow> manager_config" where
  "session_manager_config A S managed X C =
     (let conf = session_permission_config S managed X
      in C\<lparr>cfg_cwd := start_cwd X, cfg_yolo_pin := yolo_disabled_by_policy S,
           cfg_prompt_policy := (case conf of Some c \<Rightarrow> prompt_policy c | None \<Rightarrow> Prompt_Ask),
           cfg_policy := map_option (compiled_policy_new (base_env (mgr_env A))) conf\<rparr>)"

text \<open>The messages that the set-up sends before the session has its handle; the transcript is an argument.\<close>

definition start_messages :: "session_start \<Rightarrow> classifier_turn list \<Rightarrow> permission_command list" where
  "start_messages X ts = (if auto_mode_session_active (auto_gate X) (session_auto_mode X) (session_yolo_mode X)
     then [SetAutoMode True, SetClassifierTranscript ts] else [])"

definition session_run ::
  "actor_env \<Rightarrow> settings_env \<Rightarrow> managed_settings \<Rightarrow> session_start \<Rightarrow> manager_config \<Rightarrow> disk \<Rightarrow> classifier_turn list \<Rightarrow> world
     \<Rightarrow> (world \<times> permission_command) list \<Rightarrow> reply list \<times> manager" where
  "session_run A S managed X C0 D ts w0 cs =
     (let C = session_manager_config A S managed X C0
      in actor_run A C (spawn_permission_manager_with_pin A C (session_yolo_mode X) D) (map (Pair w0) (start_messages X ts) @ cs))"

section \<open>The launch, as a table\<close>

lemma mode_string_round_trip: "parse_permission_mode_canonical (permission_mode_canonical_str mode) = mode"
  by (cases mode) (simp_all add: parse_permission_mode_canonical_def)

lemma always_approve_is_spelled:
  "permission_mode_from_ui_if_set ui = Some permission_mode.Mode_AlwaysApprove \<Longrightarrow>
     toml_get ui ''permission_mode'' = Some (Toml_String ''always-approve'')
     \<or> toml_get ui ''approval_mode'' = Some (Toml_String ''always-approve'') \<or> toml_get ui ''yolo'' = Some (Toml_Boolean True)"
  by (auto simp: permission_mode_from_ui_if_set_def parse_permission_mode_canonical_def bind_eq_Some_conv
      split: option.splits if_splits elim!: toml_str.elims toml_bool.elims)

text \<open>The mode that the configuration and the remote settings choose, and the default when neither does.\<close>

definition chosen_mode :: "toml option \<Rightarrow> string option \<Rightarrow> permission_mode \<Rightarrow> permission_mode" where
  "chosen_mode layers remote unset_default =
     (case load_selected_permission_mode layers remote of Some m \<Rightarrow> m | None \<Rightarrow> unset_default)"

text \<open>The mode of a launch is what the table says. It is always-approve exactly when no pin forbids it and
  the command line names one of the two bypassing modes, or names no mode and either gives the flag or leaves it to
  a configuration that chose it; it is automatic exactly when the feature is enabled, the flag is absent,
  and the command line names that mode or leaves it to a configuration or default that chose it. The two exclude
  each other, and a configuration that cannot be loaded chooses neither.\<close>

theorem launch_modes:
  "(yolo (effective_yolo_for_launch layers block cli mode remote) \<longleftrightarrow>
     block = None \<and> (case mode of Some m \<Rightarrow> m \<in> {''bypassPermissions'', ''always-approve''}
       | None \<Rightarrow> cli \<or> chosen_mode layers remote permission_mode.Mode_Ask = permission_mode.Mode_AlwaysApprove))
   \<and> (effective_auto_for_launch layers block gate cli mode remote unset \<longleftrightarrow>
     gate \<and> \<not> cli \<and> (case mode of Some m \<Rightarrow> m = ''auto'' | None \<Rightarrow> chosen_mode layers remote unset = permission_mode.Mode_Auto))
   \<and> \<not> (yolo (effective_yolo_for_launch layers block cli mode remote) \<and> effective_auto_for_launch layers block gate cli mode remote unset)
   \<and> chosen_mode None remote unset = permission_mode.Mode_Ask"
  by (auto simp: effective_yolo_for_launch_def effective_auto_for_launch_def resolve_launch_yolo_def resolve_effective_yolo_def
      chosen_mode_def load_permission_mode_def load_selected_permission_mode_def split: option.splits)

section \<open>Rules reach the manager\<close>

lemma hint_keeps_rules:
  assumes "conf = Some c" "r \<in> set (rules c)"
  shows "\<exists>c'. snd (apply_permission_mode_hint conf hint pin) = Some c' \<and> r \<in> set (rules c')"
  using assms by (simp add: apply_permission_mode_hint_def Let_def split: option.split)

lemma merge_keeps_rules:
  assumes "conf = Some c" "r \<in> set (rules c)"
  shows "\<exists>c'. merge_cli_rules cli conf = Some c' \<and> r \<in> set (rules c')"
  using assms by (simp add: merge_cli_rules_def)

lemma merge_adds_rules: "r \<in> set cli \<Longrightarrow> \<exists>c. merge_cli_rules cli conf = Some c \<and> r \<in> set (rules c)"
  by (auto simp: merge_cli_rules_def permission_config_new_def split: option.split)

lemma drop_cli_keeps: "r \<in> set rs \<Longrightarrow> action r \<noteq> Action_Allow \<Longrightarrow> r \<in> set (fst (drop_cli_catchall_allows E rs block))"
  by (simp add: drop_cli_catchall_allows_def is_catchall_allow_def)

lemma restriction_in_session:
  assumes "r \<in> consulted S (start_cwd X) managed (start_trusted X) \<or> r \<in> set (cli_permission_rules X)" "action r \<noteq> Action_Allow"
  shows "\<exists>c. session_permission_config S managed X = Some c \<and> r \<in> set (rules c)"
proof -
  let ?lock = "yolo_policy_lock_of S"
  let ?pin = "map_option (\<lambda>l. pin_message (pin_reason l)) ?lock"
  let ?conf = "map_option resolved_config (resolve_permissions_with_provenance_inner S (start_cwd X) ?lock managed (start_trusted X))"
  let ?cli = "fst (drop_cli_catchall_allows (rules_env S) (cli_permission_rules X) ?pin)"
  have "\<exists>c. merge_cli_rules ?cli ?conf = Some c \<and> r \<in> set (rules c)"
  proof (cases "r \<in> set (cli_permission_rules X)")
    case True
    then show ?thesis using merge_adds_rules drop_cli_keeps [OF _ assms(2)] by blast
  next
    case False
    then obtain c where "?conf = Some c" "r \<in> set (rules c)"
      using restriction_resolved [of r S "start_cwd X" managed "start_trusted X"] assms
      by (auto simp: resolve_permission_config_with_fallback_def resolve_permissions_with_provenance_def Let_def)
    then show ?thesis by (rule merge_keeps_rules)
  qed
  then show ?thesis
    by (auto simp: session_permission_config_def Let_def split: prod.split intro: hint_keeps_rules)
qed

text \<open>C1: A deny rule of any consulted file is enforced. When a rule that denies stands in a requirements layer, the
  managed settings or configuration, the user's configuration, a file of a trusted project, an imported settings file or the command line,
  then, whatever the other files, the modes and the hint of the client say, and in every state that the manager of the session
  can be in, a request that the rule matches is denied by policy without a prompt.\<close>

theorem configured_deny_is_enforced:
  assumes "r \<in> consulted S (start_cwd X) managed (start_trusted X) \<or> r \<in> set (cli_permission_rules X)" "action r = Action_Deny"
    and "C = session_manager_config A S managed X C0"
    and "rule_matches (base_env (mgr_env A)) (access rq) (Some (request_cwd C rq)) r"
    and "\<not> gone_at_dequeue w" "\<not> gone_after_scan w"
  shows "\<exists>rsn ev m'. handle_request A C w m rq = (Answered (PolicyDeny rsn) ev, m')
    \<and> ev_decision_reason ev = R_POLICY_DENY \<and> \<not> ev_user_prompted ev"
proof -
  obtain c where c: "session_permission_config S managed X = Some c" "r \<in> set (rules c)"
    using restriction_in_session [OF assms(1)] assms(2) by auto
  let ?E = "base_env (mgr_env A)"
  have "matched ?E c Action_Deny (access rq) (Some (request_cwd C rq))" using c(2) assms(2,4) by (auto simp: matched_def)
  then have "4 \<le> verdict (direct (preflight_evaluate ?E (Some (compiled_policy_new ?E c)) (access rq) (request_cwd C rq) (auto_mode m)))"
    using direct_rank [of ?E c "access rq" "Some (request_cwd C rq)"] by (simp add: preflight_direct)
  moreover have "cfg_policy C = Some (compiled_policy_new ?E c)" by (simp add: assms(3) session_manager_config_def c(1) Let_def)
  ultimately have "4 \<le> verdict (policy_decision (preflight_evaluate ?E (cfg_policy C) (access rq) (request_cwd C rq) (auto_mode m)))"
    by (simp add: policy_rank)
  then show ?thesis using denied_request [OF _ assms(5,6)] by blast
qed

section \<open>A pinned session\<close>

lemma pinned_resolution:
  assumes "yolo_policy_lock_of S = Some l"
  shows "pred_option (\<lambda>c. prompt_policy c \<noteq> Prompt_Allow) (session_permission_config S managed X)"
proof -
  let ?r = "resolve_permissions_with_provenance_inner S (start_cwd X) (Some l) managed (start_trusted X)"
  have "prompt_policy (resolved_config r) \<noteq> Prompt_Allow" if "?r = Some r" for r
    using pinned_admin_only [OF that] by (simp add: admin_only_def)
  then show ?thesis
    by (auto simp: session_permission_config_def assms Let_def apply_permission_mode_hint_def merge_cli_rules_def
        permission_config_new_def pred_option_def split: option.splits if_splits prod.splits)
qed

lemma manager_ok_run:
  "manager_ok C (snd (actor_run A C (spawn_permission_manager_with_pin A C (session_yolo_mode X) D) (map (Pair w0) (start_messages X ts) @ cs)))"
  by (rule actor_run_ok) (rule spawn_ok)

lemma pinned_session:
  assumes "yolo_policy_lock_of S = Some l" "C = session_manager_config A S managed X C0"
  shows "cfg_prompt_policy C \<noteq> Prompt_Allow" "\<not> yolo_mode (snd (session_run A S managed X C0 D ts w0 cs))"
proof -
  show "cfg_prompt_policy C \<noteq> Prompt_Allow"
    using pinned_resolution [OF assms(1), of managed X] by (auto simp: assms(2) session_manager_config_def Let_def split: option.split)
  have "cfg_yolo_pin C \<noteq> None" by (simp add: assms session_manager_config_def yolo_disabled_by_policy_def Let_def)
  then show "\<not> yolo_mode (snd (session_run A S managed X C0 D ts w0 cs))"
    using manager_ok_run [of C A X D w0 ts cs] by (auto simp: session_run_def Let_def assms(2) manager_ok_def)
qed


section \<open>Concrete sessions\<close>

text \<open>A session that asks for everything, under requirements that pin the always-approve mode.\<close>

definition eager_start :: session_start where
  "eager_start = \<lparr>start_cwd = ''/w'', start_trusted = True, cli_permission_rules = [catchall_rule], hinted_mode = Some ''alwaysAllow'',
     session_yolo_mode = True, session_auto_mode = False, auto_gate = True\<rparr>"

definition pinned_config :: manager_config where
  "pinned_config = session_manager_config demo_actor pinned_settings no_managed eager_start demo_config"

definition pinned_manager :: manager where
  "pinned_manager = snd (session_run demo_actor pinned_settings no_managed eager_start demo_config (\<lambda>_. No_File) [] demo_world
     [(demo_world, SetYoloMode True)])"

definition etc_rule :: permission_rule where
  "etc_rule = \<lparr>action = Action_Deny, tool = Filter_Read, pattern = Some ''/etc/*'', pattern_mode = Mode_Glob\<rparr>"

lemma etc_rule_consulted: "etc_rule \<in> consulted pinned_settings ''/w'' no_managed True"
proof -
  have "\<exists>(l, s, v) \<in> set (requirement_layers pinned_settings). etc_rule \<in> toml_rules pinned_settings v" by code_simp
  then show ?thesis by (force simp: consulted_def)
qed

theorem configured_deny_is_enforced_witness:
  "\<exists>rsn ev m'. handle_request demo_actor pinned_config demo_world pinned_manager (plain_request (Access_Read (Some ''/etc/passwd'')))
     = (Answered (PolicyDeny rsn) ev, m')"
proof -
  let ?rq = "plain_request (Access_Read (Some ''/etc/passwd''))"
  have "rule_matches (base_env (mgr_env demo_actor)) (access ?rq) (Some (request_cwd pinned_config ?rq)) etc_rule" by code_simp
  then show ?thesis
    using configured_deny_is_enforced [OF _ _ pinned_config_def, of etc_rule ?rq demo_world pinned_manager] etc_rule_consulted
    by (auto simp: eager_start_def etc_rule_def demo_world_def)
qed


section \<open>The files of a patch are not seen by the rules\<close>

text \<open>A rule denies edits below \<open>/etc\<close>. A write there is denied even in the always-approve mode; a patch that
  writes the same file is one access to a file called \<open>apply_patch\<close>, and is permitted. In the same way the rule does not see
  the files that the reading tools of the second family name.\<close>

definition etc_guarded :: manager_config where
  "etc_guarded = demo_config\<lparr>cfg_policy := Some (compiled_policy_new demo_env (permission_config_new
     [\<lparr>action = Action_Deny, tool = Filter_Edit, pattern = Some ''/etc/*'', pattern_mode = Mode_Glob\<rparr>, etc_rule]))\<rparr>"

definition etc_patch :: string where
  "etc_patch = ''*** Begin Patch'' @ [CHR 0x0A] @ ''*** Add File: /etc/hosts'' @ [CHR 0x0A] @ ''+x'' @ [CHR 0x0A] @ ''*** End Patch''"

definition permitted_in :: "manager_config \<Rightarrow> tool_input \<Rightarrow> bool" where
  "permitted_in C input = allowed_by (handle_request demo_actor C demo_world (demo_manager True) (plain_request (access_of_input input))) False"

lemma patch_escapes_edit_rule: "\<not> permitted_in etc_guarded (In_Write ''/etc/hosts'') \<and> permitted_in etc_guarded (In_ApplyPatch etc_patch)"
  by code_simp

lemma reading_tool_escapes_read_rule:
  "\<not> permitted_in etc_guarded (In_ReadFile ''/etc/shadow'') \<and> permitted_in etc_guarded (In_CodexReadFile ''/etc/shadow'')"
  by code_simp

end
