(* ===== verification/Url_Matching.thy ===== *)
theory Url_Matching
  imports Prelude
begin

text \<open>
  Matching of the addresses of MCP servers against the entries of a managed policy
  (\<open>permission/managed_policy/url_match.rs\<close>). An allow entry is a positive grant: scheme, host, port and path are matched
  separately and whatever cannot be read grants nothing. A deny entry names a host on every scheme and port, and whatever
  cannot be read is denied.

  The address parser, the host parser and the glob library are fields of an environment; the addresses of the
  standard library, their text forms included, are modelled here. The theory shows that canonical paths have no
  dot segments and no doubled separators and that the host of a pattern is already in its canonical form; that a deny
  entry for a host covers every address of that host is shown in \<open>Managed_Policy\<close>.
\<close>

section \<open>Addresses of the standard library\<close>

type_synonym ipv4 = "nat list"
type_synonym ipv6 = "nat list"

datatype ip_addr = IpAddr_V4 ipv4 | IpAddr_V6 ipv6

definition hex_val :: "char \<Rightarrow> nat option" where
  "hex_val c = (if is_ascii_digit c then Some (code c - 0x30)
     else if 0x61 \<le> code c \<and> code c \<le> 0x66 then Some (code c - 0x61 + 10)
     else if 0x41 \<le> code c \<and> code c \<le> 0x46 then Some (code c - 0x41 + 10)
     else None)"

definition to_digit :: "nat \<Rightarrow> char \<Rightarrow> nat option" where
  "to_digit radix c = (case hex_val c of Some d \<Rightarrow> if d < radix then Some d else None | None \<Rightarrow> None)"

text \<open>The parser of addresses. A number is a maximal run of digits of bounded length, and of bounded value where the length
  does not bound it already.\<close>

definition read_number :: "nat \<Rightarrow> nat \<Rightarrow> bool \<Rightarrow> nat option \<Rightarrow> string \<Rightarrow> (nat \<times> string) option" where
  "read_number radix max_digits allow_zero_prefix bound s =
     (let ds = takeWhile (\<lambda>c. to_digit radix c \<noteq> None) s;
          v = foldl (\<lambda>acc c. radix * acc + (case to_digit radix c of Some d \<Rightarrow> d | None \<Rightarrow> 0)) 0 ds
      in if ds = [] \<or> length ds > max_digits \<or> (\<not> allow_zero_prefix \<and> hd ds = CHR ''0'' \<and> length ds > 1)
           \<or> (case bound of Some b \<Rightarrow> v > b | None \<Rightarrow> False)
         then None else Some (v, drop (length ds) s))"

definition read_separator :: "char \<Rightarrow> nat \<Rightarrow> (string \<Rightarrow> 'a option) \<Rightarrow> string \<Rightarrow> 'a option" where
  "read_separator sep index inner s =
     (if index = 0 then inner s else case s of c # cs \<Rightarrow> if c = sep then inner cs else None | [] \<Rightarrow> None)"

fun read_octets :: "nat \<Rightarrow> nat \<Rightarrow> string \<Rightarrow> (nat list \<times> string) option" where
  "read_octets 0 i s = Some ([], s)"
| "read_octets (Suc n) i s = (case read_separator (CHR ''.'') i (read_number 10 3 False (Some 255)) s of
     None \<Rightarrow> None
   | Some (v, r) \<Rightarrow> map_option (\<lambda>(vs, q). (v # vs, q)) (read_octets n (i + 1) r))"

text \<open>The groups of an IPv6 address, at most the given number, of which the last two may be written as an IPv4
  address.\<close>

fun read_groups :: "nat \<Rightarrow> nat \<Rightarrow> string \<Rightarrow> nat list \<times> bool \<times> string" where
  "read_groups 0 i s = ([], False, s)"
| "read_groups (Suc k) i s =
     (case (if 0 < k then read_separator (CHR '':'') i (read_octets 4 0) s else None) of
        Some ([a, b, c, d], r) \<Rightarrow> ([256 * a + b, 256 * c + d], True, r)
      | _ \<Rightarrow>
         (case read_separator (CHR '':'') i (read_number 16 4 True None) s of
            None \<Rightarrow> ([], False, s)
          | Some (g, r) \<Rightarrow> (case read_groups k (i + 1) r of (gs, v4, q) \<Rightarrow> (g # gs, v4, q))))"

definition parse_ipv6 :: "string \<Rightarrow> ipv6 option" where
  "parse_ipv6 s = (case read_groups 8 0 s of (hd_groups, v4, r) \<Rightarrow>
     if length hd_groups = 8 then (if r = [] then Some hd_groups else None)
     else if v4 then None
     else case strip_prefix ''::'' r of
       None \<Rightarrow> None
     | Some r2 \<Rightarrow> (case read_groups (7 - length hd_groups) 0 r2 of (tl_groups, _, q) \<Rightarrow>
         if q = [] then Some (hd_groups @ replicate (8 - length hd_groups - length tl_groups) 0 @ tl_groups) else None))"

definition ipv4_display :: "ipv4 \<Rightarrow> string" where
  "ipv4_display a = join ''.'' (map dec_of_nat a)"

definition to_ipv4_mapped :: "ipv6 \<Rightarrow> ipv4 option" where
  "to_ipv4_mapped a = (case a of
     [g0, g1, g2, g3, g4, g5, ab, cd] \<Rightarrow>
       if [g0, g1, g2, g3, g4] = [0, 0, 0, 0, 0] \<and> g5 = 0xFFFF then Some [ab div 256, ab mod 256, cd div 256, cd mod 256] else None
   | _ \<Rightarrow> None)"

text \<open>The first of the longest runs of zero groups, as its start and length.\<close>

fun zero_run :: "nat \<Rightarrow> nat \<times> nat \<Rightarrow> nat \<times> nat \<Rightarrow> nat list \<Rightarrow> nat \<times> nat" where
  "zero_run i current longest [] = longest"
| "zero_run i current longest (g # gs) =
     (if g = 0
      then (let c = (if snd current = 0 then i else fst current, snd current + 1)
            in zero_run (i + 1) c (if snd c > snd longest then c else longest) gs)
      else zero_run (i + 1) (0, 0) longest gs)"

definition ipv6_display :: "ipv6 \<Rightarrow> string" where
  "ipv6_display a = (case to_ipv4_mapped a of
     Some v4 \<Rightarrow> ''::ffff:'' @ ipv4_display v4
   | None \<Rightarrow> (case zero_run 0 (0, 0) (0, 0) a of (start, len) \<Rightarrow>
       if len > 1 then join '':'' (map hex_of_nat (take start a)) @ ''::'' @ join '':'' (map hex_of_nat (drop (start + len) a))
       else join '':'' (map hex_of_nat a)))"

fun to_canonical :: "ip_addr \<Rightarrow> ip_addr" where
  "to_canonical (IpAddr_V4 a) = IpAddr_V4 a"
| "to_canonical (IpAddr_V6 a) = (case to_ipv4_mapped a of Some v4 \<Rightarrow> IpAddr_V4 v4 | None \<Rightarrow> IpAddr_V6 a)"

section \<open>The environment\<close>

datatype url_host_kind = Host_Domain string | Host_Ipv4 ipv4 | Host_Ipv6 ipv6

record parsed_url =
  p_scheme :: string
  p_host :: "url_host_kind option"
  p_port :: "nat option"
  p_path :: string

text \<open>A compiled glob takes the option \<open>case_sensitive\<close> first; no other option is used here.\<close>

type_synonym url_glob = "bool \<Rightarrow> string \<Rightarrow> bool"

record url_env =
  url_parse :: "string \<Rightarrow> parsed_url option"
  host_parse :: "string \<Rightarrow> url_host_kind option"
  url_glob_new :: "string \<Rightarrow> url_glob option"

definition GLOB_CHARS :: string where "GLOB_CHARS = ''*?[''"

definition has_glob_char :: "string \<Rightarrow> bool" where
  "has_glob_char s \<longleftrightarrow> list_ex (\<lambda>c. c \<in> set GLOB_CHARS) s"

definition is_ascii_str :: "string \<Rightarrow> bool" where
  "is_ascii_str s \<longleftrightarrow> list_all (\<lambda>c. code c < 128) s"

definition trim_dots :: "string \<Rightarrow> string" where
  "trim_dots s = rev (dropWhile (\<lambda>c. c = CHR ''.'') (rev s))"

definition parse_u16 :: "string \<Rightarrow> nat option" where
  "parse_u16 s = parse_unsigned 65535 s"

section \<open>Taking patterns apart\<close>

text \<open>The index of a substring, as \<open>str::find\<close>.\<close>

fun find_sub :: "string \<Rightarrow> string \<Rightarrow> nat option" where
  "find_sub p [] = (if p = [] then Some 0 else None)"
| "find_sub p (c # cs) = (if starts_with (c # cs) p then Some 0 else map_option Suc (find_sub p cs))"

definition split_scheme :: "string \<Rightarrow> string option \<times> string" where
  "split_scheme s = (case find_sub ''://'' s of
     Some i \<Rightarrow> (Some (take i s), drop (i + 3) s)
   | None \<Rightarrow> (None, s))"

definition split_authority_path :: "string \<Rightarrow> string \<times> string" where
  "split_authority_path s = (takeWhile (\<lambda>c. c \<noteq> CHR ''/'') s, dropWhile (\<lambda>c. c \<noteq> CHR ''/'') s)"

definition drop_userinfo :: "string \<Rightarrow> string" where
  "drop_userinfo authority = last (split_on (CHR ''@'') authority)"

definition is_bracketed_ipv6 :: "string \<Rightarrow> bool" where
  "is_bracketed_ipv6 authority = (case Option.bind (strip_prefix ''['' authority) (split_once (CHR '']'')) of
     Some (addr, _) \<Rightarrow> parse_ipv6 addr \<noteq> None
   | None \<Rightarrow> False)"

record allow_pattern_parts =
  ap_scheme :: "string option"
  ap_authority :: string
  bracketed_ipv6 :: bool
  ap_host :: string
  ap_port :: "string option"
  ap_path :: string

definition split_allow_pattern :: "string \<Rightarrow> allow_pattern_parts" where
  "split_allow_pattern pat =
     (let (scheme, rest) = split_scheme pat; (authority0, path) = split_authority_path rest;
          authority = drop_userinfo authority0; bracketed = is_bracketed_ipv6 authority;
          (host, port) = (if bracketed then (authority, None)
            else case rsplit_once (CHR '':'') authority of Some (h, p) \<Rightarrow> (h, Some p) | None \<Rightarrow> (authority, None))
      in \<lparr>ap_scheme = scheme, ap_authority = authority, bracketed_ipv6 = bracketed, ap_host = host, ap_port = port, ap_path = path\<rparr>)"

text \<open>The content of a leading bracket, up to the closing one or the end.\<close>

definition bracket_content :: "string \<Rightarrow> string option" where
  "bracket_content authority = (case strip_prefix ''['' authority of
     None \<Rightarrow> None
   | Some rest \<Rightarrow>
       (let content = takeWhile (\<lambda>c. c \<noteq> CHR '']'') rest in if parse_ipv6 content \<noteq> None then Some content else None))"

definition host_of_authority :: "string \<Rightarrow> string" where
  "host_of_authority authority = (case bracket_content authority of
     Some content \<Rightarrow> content
   | None \<Rightarrow>
       (case rsplit_once (CHR '':'') authority of
          Some (before_port, port) \<Rightarrow>
            if port \<noteq> [] \<and> list_all is_ascii_digit port \<and> parse_u16 port \<noteq> None \<and> parse_ipv6 before_port \<noteq> None then before_port
            else if parse_ipv6 authority \<noteq> None then authority else hd (split_on (CHR '':'') authority)
        | None \<Rightarrow> if parse_ipv6 authority \<noteq> None then authority else hd (split_on (CHR '':'') authority)))"

definition split_host_path :: "string \<Rightarrow> string option \<times> string" where
  "split_host_path s =
     (let after_scheme = (case find_sub ''://'' s of Some i \<Rightarrow> drop (i + 3) s | None \<Rightarrow> s);
          (authority, path) = split_authority_path after_scheme;
          host = to_ascii_lowercase (trim_dots (host_of_authority (drop_userinfo authority)))
      in (if host = [] then None else Some host, path))"

section \<open>Canonical hosts and paths\<close>

definition canonicalize_label :: "url_env \<Rightarrow> string \<Rightarrow> string" where
  "canonicalize_label U label =
     (if has_glob_char label \<or> (is_ascii_str label \<and> CHR ''%'' \<notin> set label) then to_ascii_lowercase label
      else case host_parse U label of Some (Host_Domain canonical) \<Rightarrow> canonical | _ \<Rightarrow> to_ascii_lowercase label)"

definition canonicalize_pattern_host :: "url_env \<Rightarrow> string \<Rightarrow> string" where
  "canonicalize_pattern_host U host0 =
     (let host = trim_dots host0
      in if is_ascii_str host \<and> CHR ''%'' \<notin> set host then to_ascii_lowercase host
         else join ''.'' (map (canonicalize_label U) (split_on (CHR ''.'') host)))"

definition is_unreserved :: "nat \<Rightarrow> bool" where
  "is_unreserved b \<longleftrightarrow> b < 128 \<and> is_ascii_alphanumeric (char_of b) \<or> b \<in> {0x2D, 0x2E, 0x5F, 0x7E}"

definition ascii_upper :: "char \<Rightarrow> char" where
  "ascii_upper c = (if is_ascii_lower c then char_of (code c - 32) else c)"

definition decoded_escape :: "char \<Rightarrow> char \<Rightarrow> string option" where
  "decoded_escape h l = (case (hex_val h, hex_val l) of
     (Some hi, Some lo) \<Rightarrow> Some (if is_unreserved (16 * hi + lo) then [char_of (16 * hi + lo)] else [CHR ''%'', ascii_upper h, ascii_upper l])
   | _ \<Rightarrow> None)"

fun decode_unreserved_escapes :: "string \<Rightarrow> string" where
  "decode_unreserved_escapes (c # h # l # cs) =
     (case (if c = CHR ''%'' then decoded_escape h l else None) of
        Some out \<Rightarrow> out @ decode_unreserved_escapes cs
      | None \<Rightarrow> c # decode_unreserved_escapes (h # l # cs))"
| "decode_unreserved_escapes cs = cs"

fun push_segments :: "string list \<Rightarrow> string list \<Rightarrow> string list" where
  "push_segments out [] = out"
| "push_segments out (seg # segs) =
     (if seg = ''.'' then push_segments out segs
      else if seg = ''..'' then push_segments (if length out > 1 then butlast out else out) segs
      else push_segments (out @ [seg]) segs)"

definition resolve_pattern_dot_segments :: "string \<Rightarrow> string" where
  "resolve_pattern_dot_segments path =
     (if \<not> contains_sub path ''/.'' then path
      else (let ends_dir = (last (split_on (CHR ''/'') path) \<in> set [''.'', ''..'']);
                joined0 = join ''/'' (push_segments [] (split_on (CHR ''/'') path));
                joined = (if joined0 = [] then ''/'' else joined0)
            in if ends_dir \<and> \<not> ends_with joined ''/'' then joined @ ''/'' else joined))"

definition needs_encoding :: "char \<Rightarrow> bool" where
  "needs_encoding c \<longleftrightarrow> code c \<ge> 128 \<or> code c < 0x20
     \<or> code c \<in> {0x20, 0x22, 0x23, 0x3C, 0x3E, 0x60, 0x7B, 0x7D, 0x7F}"

definition upper_hex_digit :: "nat \<Rightarrow> char" where
  "upper_hex_digit n = ascii_upper (hex_digit n)"

definition percent_encode :: "char \<Rightarrow> string" where
  "percent_encode c = (if needs_encoding c then [CHR ''%'', upper_hex_digit (code c div 16), upper_hex_digit (code c mod 16)] else [c])"

definition canonicalize_pattern_path :: "string \<Rightarrow> string" where
  "canonicalize_pattern_path path0 =
     (let path = resolve_pattern_dot_segments (decode_unreserved_escapes path0)
      in if \<not> list_ex needs_encoding path then path else concat (map percent_encode path))"

fun collapse_from :: "bool \<Rightarrow> string \<Rightarrow> string" where
  "collapse_from after_slash [] = []"
| "collapse_from after_slash (c # cs) =
     (if c = CHR ''/'' \<and> after_slash then collapse_from True cs else c # collapse_from (c = CHR ''/'') cs)"

definition collapse_empty_segments :: "string \<Rightarrow> string" where
  "collapse_empty_segments path = collapse_from False path"

definition parse_ip_host :: "url_env \<Rightarrow> string \<Rightarrow> ip_addr option" where
  "parse_ip_host U host = map_option to_canonical
     (case parse_ipv6 host of
        Some v6 \<Rightarrow> Some (IpAddr_V6 v6)
      | None \<Rightarrow> (case host_parse U host of
          Some (Host_Ipv4 a) \<Rightarrow> Some (IpAddr_V4 a)
        | Some (Host_Ipv6 a) \<Rightarrow> Some (IpAddr_V6 a)
        | _ \<Rightarrow> None))"

section \<open>Addresses at run time\<close>

record runtime_url =
  r_scheme :: string
  r_host :: url_host_kind
  r_port :: "nat option"
  r_path :: string

definition runtime_url_parse :: "url_env \<Rightarrow> string \<Rightarrow> runtime_url option" where
  "runtime_url_parse U url = Option.bind (url_parse U url) (\<lambda>p. map_option (\<lambda>host.
     \<lparr>r_scheme = p_scheme p, r_host = host, r_port = p_port p, r_path = decode_unreserved_escapes (p_path p)\<rparr>) (p_host p))"

definition host_text :: "runtime_url \<Rightarrow> string" where
  "host_text r = (case r_host r of
     Host_Domain d \<Rightarrow> to_ascii_lowercase (trim_dots d)
   | Host_Ipv4 a \<Rightarrow> ipv4_display a
   | Host_Ipv6 a \<Rightarrow> ipv6_display a)"

definition runtime_authority :: "runtime_url \<Rightarrow> string" where
  "runtime_authority r =
     (let host = (case r_host r of Host_Ipv6 a \<Rightarrow> ''['' @ ipv6_display a @ '']'' | _ \<Rightarrow> host_text r)
      in case r_port r of Some port \<Rightarrow> host @ '':'' @ dec_of_nat port | None \<Rightarrow> host)"

definition argv_matches :: "string list \<Rightarrow> string \<Rightarrow> string list \<Rightarrow> bool" where
  "argv_matches argv command args = (case argv of [] \<Rightarrow> False | first # rest \<Rightarrow> first = command \<and> rest = args)"

section \<open>Allow entries\<close>

definition SUPPORTED_REMOTE_SCHEMES :: "string list" where
  "SUPPORTED_REMOTE_SCHEMES = [''http'', ''https'']"

datatype allow_scheme = AllowScheme_Any | AllowScheme_Literal string | AllowScheme_Never

definition allow_scheme_new :: "string \<Rightarrow> allow_scheme" where
  "allow_scheme_new scheme = (if scheme = ''*'' then AllowScheme_Any
     else if scheme = [] \<or> has_glob_char scheme then AllowScheme_Never else AllowScheme_Literal scheme)"

fun allow_scheme_matches :: "allow_scheme \<Rightarrow> string \<Rightarrow> bool" where
  "allow_scheme_matches AllowScheme_Any runtime_scheme = list_ex (\<lambda>s. eq_ignore_ascii_case s runtime_scheme) SUPPORTED_REMOTE_SCHEMES"
| "allow_scheme_matches (AllowScheme_Literal scheme) runtime_scheme = eq_ignore_ascii_case scheme runtime_scheme"
| "allow_scheme_matches AllowScheme_Never runtime_scheme = False"

definition scheme_default_port :: "string \<Rightarrow> nat option" where
  "scheme_default_port scheme = (if scheme = ''http'' \<or> scheme = ''ws'' then Some 80
     else if scheme = ''https'' \<or> scheme = ''wss'' then Some 443 else None)"

definition strip_pattern_default_port :: "string \<Rightarrow> string \<Rightarrow> string" where
  "strip_pattern_default_port authority scheme = (case scheme_default_port scheme of
     None \<Rightarrow> authority
   | Some dflt \<Rightarrow> (case rsplit_once (CHR '':'') authority of
       Some (host, port) \<Rightarrow> if ends_with host '']'' \<and> parse_u16 port = Some dflt then host else authority
     | None \<Rightarrow> authority))"

definition parse_bracketed :: "string \<Rightarrow> (ipv6 \<times> string) option" where
  "parse_bracketed authority = Option.bind (Option.bind (strip_prefix ''['' authority) (split_once (CHR '']'')))
     (\<lambda>(addr, rest). map_option (\<lambda>a. (a, rest)) (parse_ipv6 addr))"

definition ports_equal :: "string \<Rightarrow> string \<Rightarrow> bool" where
  "ports_equal a b = (case (Option.bind (strip_prefix '':'' a) parse_u16, Option.bind (strip_prefix '':'' b) parse_u16) of
     (Some pa, Some pb) \<Rightarrow> pa = pb | _ \<Rightarrow> a = b)"

definition ipv6_authorities_equal :: "string \<Rightarrow> string \<Rightarrow> bool" where
  "ipv6_authorities_equal a b = (case (parse_bracketed a, parse_bracketed b) of
     (Some (addr_a, port_a), Some (addr_b, port_b)) \<Rightarrow> addr_a = addr_b \<and> ports_equal port_a port_b
   | _ \<Rightarrow> eq_ignore_ascii_case a b)"

datatype allow_authority = BracketedIpv6 string | HostPort "url_glob option" "string option"

datatype allow_path = AllowPath_Any | AllowPath_Glob url_glob | AllowPath_Never

definition allow_path_new :: "url_env \<Rightarrow> string \<Rightarrow> allow_path" where
  "allow_path_new U canonical = (if canonical = [] \<or> canonical = ''/'' then AllowPath_Any
     else case url_glob_new U canonical of Some g \<Rightarrow> AllowPath_Glob g | None \<Rightarrow> AllowPath_Never)"

fun allow_path_matches :: "allow_path \<Rightarrow> string \<Rightarrow> bool" where
  "allow_path_matches AllowPath_Any url_path = True"
| "allow_path_matches (AllowPath_Glob g) url_path = g True url_path"
| "allow_path_matches AllowPath_Never url_path = False"

record compiled_allow =
  ca_scheme :: allow_scheme
  ca_authority :: allow_authority
  ca_path :: allow_path

type_synonym allow_url_matcher = "compiled_allow option"

definition allow_url_matcher_new :: "url_env \<Rightarrow> string \<Rightarrow> allow_url_matcher" where
  "allow_url_matcher_new U pat =
     (let parts = split_allow_pattern pat
      in case ap_scheme parts of
           None \<Rightarrow> None
         | Some scheme \<Rightarrow> Some \<lparr>ca_scheme = allow_scheme_new scheme,
             ca_authority = (if bracketed_ipv6 parts then BracketedIpv6 (ap_authority parts)
               else HostPort (url_glob_new U (canonicalize_pattern_host U (ap_host parts))) (ap_port parts)),
             ca_path = allow_path_new U (canonicalize_pattern_path (ap_path parts))\<rparr>)"

definition port_granted :: "string option \<Rightarrow> runtime_url \<Rightarrow> bool" where
  "port_granted port r = (case (port, r_port r) of
     (None, None) \<Rightarrow> True
   | (None, Some _) \<Rightarrow> False
   | (Some p, Some actual) \<Rightarrow> parse_u16 p = Some actual
   | (Some p, None) \<Rightarrow> (case scheme_default_port (r_scheme r) of Some dflt \<Rightarrow> parse_u16 p = Some dflt | None \<Rightarrow> False))"

definition authority_granted :: "allow_authority \<Rightarrow> runtime_url \<Rightarrow> bool" where
  "authority_granted authority r = (case authority of
     BracketedIpv6 pat_authority \<Rightarrow>
       ipv6_authorities_equal (strip_pattern_default_port pat_authority (r_scheme r)) (runtime_authority r)
   | HostPort host port \<Rightarrow> (case host of Some g \<Rightarrow> g False (host_text r) | None \<Rightarrow> False) \<and> port_granted port r)"

definition allow_url_matches :: "url_env \<Rightarrow> allow_url_matcher \<Rightarrow> string \<Rightarrow> bool" where
  "allow_url_matches U matcher url = (case matcher of
     None \<Rightarrow> False
   | Some compiled \<Rightarrow> (case runtime_url_parse U url of
       None \<Rightarrow> False
     | Some r \<Rightarrow> allow_scheme_matches (ca_scheme compiled) (r_scheme r) \<and> authority_granted (ca_authority compiled) r
         \<and> allow_path_matches (ca_path compiled) (r_path r)))"

section \<open>Deny entries\<close>

datatype deny_host = DenyHost_Glob url_glob | DenyHost_Literal string

datatype deny_path = DenyPath_HostOnly | DenyPath_Glob url_glob | DenyPath_Broken

record compiled_deny =
  cd_ip :: "ip_addr option"
  cd_host :: deny_host
  cd_path :: deny_path

type_synonym deny_url_matcher = "compiled_deny option"

definition deny_path_new :: "url_env \<Rightarrow> string \<Rightarrow> deny_path" where
  "deny_path_new U pat_path = (if pat_path = [] \<or> pat_path = ''/'' then DenyPath_HostOnly
     else case url_glob_new U pat_path of Some g \<Rightarrow> DenyPath_Glob g | None \<Rightarrow> DenyPath_Broken)"

definition deny_url_matcher_new :: "url_env \<Rightarrow> string \<Rightarrow> deny_url_matcher" where
  "deny_url_matcher_new U pat = (case split_host_path pat of
     (None, _) \<Rightarrow> None
   | (Some pat_host, pat_path) \<Rightarrow>
       (let canonical_host = canonicalize_pattern_host U pat_host
        in Some \<lparr>cd_ip = parse_ip_host U pat_host,
             cd_host = (case url_glob_new U canonical_host of Some g \<Rightarrow> DenyHost_Glob g | None \<Rightarrow> DenyHost_Literal canonical_host),
             cd_path = deny_path_new U (collapse_empty_segments (canonicalize_pattern_path pat_path))\<rparr>))"

fun deny_host_matches :: "deny_host \<Rightarrow> string \<Rightarrow> bool" where
  "deny_host_matches (DenyHost_Glob g) url_host = g False url_host"
| "deny_host_matches (DenyHost_Literal canonical) url_host = eq_ignore_ascii_case canonical url_host"

fun deny_path_matches :: "deny_path \<Rightarrow> string \<Rightarrow> bool" where
  "deny_path_matches DenyPath_HostOnly url_path = True"
| "deny_path_matches (DenyPath_Glob g) url_path = g False (collapse_empty_segments url_path)"
| "deny_path_matches DenyPath_Broken url_path = True"

definition deny_url_matches :: "url_env \<Rightarrow> deny_url_matcher \<Rightarrow> string \<Rightarrow> bool" where
  "deny_url_matches U matcher url = (case matcher of
     None \<Rightarrow> False
   | Some compiled \<Rightarrow> (case runtime_url_parse U url of
       None \<Rightarrow> True
     | Some r \<Rightarrow>
         (case (cd_ip compiled, parse_ip_host U (host_text r)) of
            (Some pat_ip, Some url_ip) \<Rightarrow> pat_ip = url_ip
          | _ \<Rightarrow> deny_host_matches (cd_host compiled) (host_text r))
         \<and> deny_path_matches (cd_path compiled) (r_path r)))"

definition dead_unicode_glob_label :: "string \<Rightarrow> bool" where
  "dead_unicode_glob_label host \<longleftrightarrow> list_ex (\<lambda>label. \<not> is_ascii_str label \<and> has_glob_char label) (split_on (CHR ''.'') host)"

definition unmatchable_deny_url :: "url_env \<Rightarrow> string \<Rightarrow> bool" where
  "unmatchable_deny_url U pat = (case split_host_path pat of
     (None, _) \<Rightarrow> True
   | (Some host, _) \<Rightarrow> url_glob_new U (canonicalize_pattern_host U host) = None \<or> dead_unicode_glob_label host)"

section \<open>Canonical paths\<close>

lemma push_segments_no_dots:
  "''.'' \<notin> set out \<Longrightarrow> ''..'' \<notin> set out \<Longrightarrow> ''.'' \<notin> set (push_segments out segs) \<and> ''..'' \<notin> set (push_segments out segs)"
proof (induction out segs rule: push_segments.induct)
  case (2 out seg segs)
  have "s \<notin> set out \<Longrightarrow> s \<notin> set (if length out > 1 then butlast out else out)" for s :: string
    by (auto dest: in_set_butlastD)
  then show ?case using 2 by simp
qed simp

lemma collapse_no_double: "\<not> contains_sub (collapse_empty_segments path) ''//''"
proof -
  have "collapse_from b s \<noteq> u @ CHR ''/'' # CHR ''/'' # v \<and> (b \<longrightarrow> collapse_from b s \<noteq> CHR ''/'' # v)" for b s u v
    by (induction b s arbitrary: u v rule: collapse_from.induct) (auto simp: Cons_eq_append_conv)
  then show ?thesis by (simp add: contains_sub_iff collapse_empty_segments_def)
qed

section \<open>A deny entry for a host\<close>

lemma lower_dot_iff [simp]: "ascii_lower c = CHR ''.'' \<longleftrightarrow> c = CHR ''.''"
proof -
  have "char_of (code c + 32) \<noteq> (CHR ''.'' :: char)" if "65 \<le> code c" "code c \<le> 90"
  proof
    assume "char_of (code c + 32) = (CHR ''.'' :: char)"
    then have "code (char_of (code c + 32) :: char) = 46" by simp
    then show False using that by simp
  qed
  then show ?thesis by (auto simp: ascii_lower_def is_ascii_upper_def)
qed

lemma trim_dots_idem [simp]: "trim_dots (trim_dots s) = trim_dots s"
  by (simp add: trim_dots_def)

lemma trim_dots_lower: "trim_dots (to_ascii_lowercase s) = to_ascii_lowercase (trim_dots s)"
  by (simp add: trim_dots_def to_ascii_lowercase_def rev_map dropWhile_map comp_def)

lemma split_host_canonical:
  assumes "split_host_path pat = (Some h, path)"
  shows "trim_dots h = h" "to_ascii_lowercase h = h"
  using assms by (auto simp: split_host_path_def Let_def trim_dots_lower split: prod.splits if_splits)

lemma set_split_on: "x \<in> set (split_on c s) \<Longrightarrow> set x \<subseteq> set s"
  by (induction c s arbitrary: x rule: split_on.induct) (fastforce split: list.splits if_splits)+

text \<open>What the documentation of the glob library says of patterns without metacharacters.\<close>

definition literal_globs :: "url_env \<Rightarrow> bool" where
  "literal_globs U \<longleftrightarrow> (\<forall>p. \<not> has_glob_char p \<longrightarrow>
     (\<exists>g. url_glob_new U p = Some g \<and> (\<forall>t. g False t \<longleftrightarrow> eq_ignore_ascii_case p t)))"

end
