(* ===== verification/Managed_Policy.thy ===== *)
theory Managed_Policy
  imports Url_Matching Permission_Resolution Truncation
begin

text \<open>
  The managed policy on MCP servers, plugins and marketplaces (\<open>permission/managed_policy/\<close>): the keys of every
  managed layer, folded so that layers only tighten; the lists of allowed and denied servers; the verdict on a server.

  A layer is owned by the administrator or by the user. The theory shows that what the administrator's layers block stays
  blocked whatever the user's layers say, that a policy that cannot be read blocks everything it binds, that a deny entry
  for a host covers every address of it, and that the administrator's marketplaces win over the user's.
\<close>

section \<open>Layers\<close>

datatype policy_layer_tier =
    Tier_Mdm | Tier_SystemRequirements | Tier_SystemManaged | Tier_UserRequirements | Tier_UserManaged | Tier_Vendor

datatype policy_source_authority = Authority_Native | Authority_Advisory

datatype policy_layer_ownership = Owner_Admin | Owner_User

text \<open>The derived order of the variants.\<close>

fun tier_rank :: "policy_layer_tier \<Rightarrow> nat" where
  "tier_rank Tier_Mdm = 0"
| "tier_rank Tier_SystemRequirements = 1"
| "tier_rank Tier_SystemManaged = 2"
| "tier_rank Tier_UserRequirements = 3"
| "tier_rank Tier_UserManaged = 4"
| "tier_rank Tier_Vendor = 5"

fun tier_authority :: "policy_layer_tier \<Rightarrow> policy_source_authority" where
  "tier_authority Tier_Vendor = Authority_Advisory"
| "tier_authority _ = Authority_Native"

fun tier_ownership :: "policy_layer_tier \<Rightarrow> policy_layer_ownership" where
  "tier_ownership Tier_UserRequirements = Owner_User"
| "tier_ownership Tier_UserManaged = Owner_User"
| "tier_ownership _ = Owner_Admin"

record policy_layer =
  layer_tier :: policy_layer_tier
  layer_path :: string
  layer_value :: toml

datatype policy_pin = Unpinned | Pin_Disabled string policy_layer_ownership

fun pin_is_disabled :: "policy_pin \<Rightarrow> bool" where
  "pin_is_disabled Unpinned = False"
| "pin_is_disabled (Pin_Disabled _ _) = True"

fun pin_source :: "policy_pin \<Rightarrow> string option" where
  "pin_source Unpinned = None"
| "pin_source (Pin_Disabled path _) = Some path"

definition accepts_grant_from :: "policy_layer_ownership \<Rightarrow> policy_layer_ownership \<Rightarrow> bool" where
  "accepts_grant_from restriction grant \<longleftrightarrow> restriction = Owner_User \<or> grant = Owner_Admin"

section \<open>Servers\<close>

datatype policy_subject_origin = GrokNative | Foreign

datatype allowed_mcp_server =
    Allowed_Http string
  | Allowed_Stdio string
  | Allowed_StdioArgv "string list"
  | Allowed_Name string

text \<open>The servers of the protocol library, of which further kinds may appear.\<close>

datatype mcp_server =
    Server_Http string string
  | Server_Sse string string
  | Server_Stdio string string "string list"
  | Server_Unknown

fun mcp_server_name :: "mcp_server \<Rightarrow> string" where
  "mcp_server_name (Server_Http name _) = name"
| "mcp_server_name (Server_Sse name _) = name"
| "mcp_server_name (Server_Stdio name _ _) = name"
| "mcp_server_name Server_Unknown = []"

fun server_url :: "mcp_server \<Rightarrow> string option" where
  "server_url (Server_Http _ url) = Some url"
| "server_url (Server_Sse _ url) = Some url"
| "server_url _ = None"

definition MANAGED_MCP_PREFIX :: string where "MANAGED_MCP_PREFIX = ''grok_com_''"
definition MANAGED_MCP_NAME_MAX_CHARS :: nat where "MANAGED_MCP_NAME_MAX_CHARS = 39"

text \<open>The lower-casing of the Unicode tables is an argument, as in the policy.\<close>

definition normalize_managed_name :: "(string \<Rightarrow> string) \<Rightarrow> string \<Rightarrow> string" where
  "normalize_managed_name lower bare = replace '' '' ''_'' (lower bare)"

definition name_key :: "(string \<Rightarrow> string) \<Rightarrow> string \<Rightarrow> string" where
  "name_key lower s = normalize_managed_name lower (case strip_prefix MANAGED_MCP_PREFIX s of Some r \<Rightarrow> r | None \<Rightarrow> s)"

definition truncate_key :: "string \<Rightarrow> string" where
  "truncate_key key = (case nth_char_index key (MANAGED_MCP_NAME_MAX_CHARS - length MANAGED_MCP_PREFIX) of
     Some i \<Rightarrow> take i key | None \<Rightarrow> key)"

definition mcp_name_matches :: "(string \<Rightarrow> string) \<Rightarrow> string \<Rightarrow> string \<Rightarrow> bool" where
  "mcp_name_matches lower pat name =
     (let cut = (if starts_with name MANAGED_MCP_PREFIX \<and> length (str_chars name) = MANAGED_MCP_NAME_MAX_CHARS
                 then truncate_key else (\<lambda>k. k));
          pattern_key = cut (name_key lower pat); key = cut (name_key lower name)
      in pattern_key \<noteq> [] \<and> pattern_key = key)"

fun mcp_entry_matches :: "(string \<Rightarrow> string) \<Rightarrow> allowed_mcp_server \<Rightarrow> mcp_server \<Rightarrow> bool" where
  "mcp_entry_matches lower (Allowed_Name name) server = mcp_name_matches lower name (mcp_server_name server)"
| "mcp_entry_matches lower (Allowed_Stdio command) (Server_Stdio _ server_command _) = (command = server_command)"
| "mcp_entry_matches lower (Allowed_StdioArgv argv) (Server_Stdio _ server_command args) = argv_matches argv server_command args"
| "mcp_entry_matches lower _ _ = False"

fun mcp_entry_restricts :: "allowed_mcp_server \<Rightarrow> mcp_server \<Rightarrow> bool" where
  "mcp_entry_restricts _ Server_Unknown = True"
| "mcp_entry_restricts (Allowed_Name _) _ = True"
| "mcp_entry_restricts (Allowed_Http _) server = (server_url server \<noteq> None)"
| "mcp_entry_restricts _ server = (server_url server = None)"

section \<open>The list of one source\<close>

record 'm compiled_entry =
  entry_of :: allowed_mcp_server
  url_matcher :: "'m option"

definition compile_entry :: "(string \<Rightarrow> 'm) \<Rightarrow> allowed_mcp_server \<Rightarrow> 'm compiled_entry" where
  "compile_entry compile e = \<lparr>entry_of = e, url_matcher = (case e of Allowed_Http pat \<Rightarrow> Some (compile pat) | _ \<Rightarrow> None)\<rparr>"

record mcp_server_allowlist =
  allow_compiled :: "allow_url_matcher compiled_entry list"
  deny_compiled :: "deny_url_matcher compiled_entry list"
  only_managed :: bool
  lockdown :: bool
  list_ownership :: policy_layer_ownership
  list_path :: "string option"
  list_authority :: policy_source_authority

definition allowlist_new :: "url_env \<Rightarrow> allowed_mcp_server list \<Rightarrow> allowed_mcp_server list \<Rightarrow> string option \<Rightarrow> mcp_server_allowlist" where
  "allowlist_new U entries deny_entries path =
     \<lparr>allow_compiled = map (compile_entry (allow_url_matcher_new U)) entries,
      deny_compiled = map (compile_entry (deny_url_matcher_new U)) deny_entries,
      only_managed = False, lockdown = False, list_ownership = Owner_User, list_path = path, list_authority = Authority_Native\<rparr>"

definition list_binds :: "mcp_server_allowlist \<Rightarrow> policy_subject_origin \<Rightarrow> bool" where
  "list_binds l origin \<longleftrightarrow> list_authority l = Authority_Native \<or> origin = Foreign"

definition list_is_restricted :: "mcp_server_allowlist \<Rightarrow> bool" where
  "list_is_restricted l \<longleftrightarrow> lockdown l \<or> only_managed l \<or> allow_compiled l \<noteq> [] \<or> deny_compiled l \<noteq> []"

text \<open>The environment of the policy: addresses and globs, lower-casing, and the conversion of the policy keys of a TOML
  layer to JSON.\<close>

record policy_env =
  penv_urls :: url_env
  penv_lower :: "string \<Rightarrow> string"
  penv_json :: "(string \<times> toml) list \<Rightarrow> json option"

definition entry_hit :: "policy_env \<Rightarrow> ('m \<Rightarrow> string \<Rightarrow> bool) \<Rightarrow> mcp_server \<Rightarrow> 'm compiled_entry \<Rightarrow> bool" where
  "entry_hit E url_matches server ce = (case url_matcher ce of
     Some matcher \<Rightarrow> (case server_url server of Some url \<Rightarrow> url_matches matcher url | None \<Rightarrow> False)
   | None \<Rightarrow> mcp_entry_matches (penv_lower E) (entry_of ce) server)"

definition matches_allow_entry :: "policy_env \<Rightarrow> mcp_server_allowlist \<Rightarrow> mcp_server \<Rightarrow> bool" where
  "matches_allow_entry E l server \<longleftrightarrow> list_ex (entry_hit E (allow_url_matches (penv_urls E)) server) (allow_compiled l)"

definition list_denies :: "policy_env \<Rightarrow> mcp_server_allowlist \<Rightarrow> mcp_server \<Rightarrow> bool" where
  "list_denies E l server \<longleftrightarrow> list_ex (entry_hit E (deny_url_matches (penv_urls E)) server) (deny_compiled l)"

definition allows_ignoring_managed_only :: "policy_env \<Rightarrow> mcp_server_allowlist \<Rightarrow> mcp_server \<Rightarrow> bool" where
  "allows_ignoring_managed_only E l server =
     (if lockdown l then False
      else if \<not> list_is_restricted l then True
      else \<not> list_ex (\<lambda>ce. mcp_entry_restricts (entry_of ce) server) (allow_compiled l) \<or> matches_allow_entry E l server)"

section \<open>The lists of all sources\<close>

type_synonym mcp_server_policy = "mcp_server_allowlist list"

definition policy_is_restricted :: "mcp_server_policy \<Rightarrow> bool" where
  "policy_is_restricted ls \<longleftrightarrow> list_ex list_is_restricted ls"

definition binding_sources :: "mcp_server_policy \<Rightarrow> policy_subject_origin \<Rightarrow> mcp_server_allowlist list" where
  "binding_sources ls origin = filter (\<lambda>l. list_binds l origin) ls"

definition policy_managed_only :: "mcp_server_policy \<Rightarrow> policy_subject_origin \<Rightarrow> bool" where
  "policy_managed_only ls origin \<longleftrightarrow> list_ex only_managed (binding_sources ls origin)"

definition denying_source :: "policy_env \<Rightarrow> mcp_server_policy \<Rightarrow> mcp_server \<Rightarrow> policy_subject_origin \<Rightarrow> mcp_server_allowlist option" where
  "denying_source E ls server origin = List.find (\<lambda>l. list_denies E l server) (binding_sources ls origin)"

definition is_server_denied :: "policy_env \<Rightarrow> mcp_server_policy \<Rightarrow> mcp_server \<Rightarrow> policy_subject_origin \<Rightarrow> bool" where
  "is_server_denied E ls server origin \<longleftrightarrow> denying_source E ls server origin \<noteq> None"

definition grants_exception :: "policy_env \<Rightarrow> mcp_server_policy \<Rightarrow> mcp_server \<Rightarrow> policy_layer_ownership \<Rightarrow> bool" where
  "grants_exception E ls server restriction_ownership \<longleftrightarrow>
     list_ex (\<lambda>l. accepts_grant_from restriction_ownership (list_ownership l) \<and> matches_allow_entry E l server) ls"

definition blocking_allow_source ::
  "policy_env \<Rightarrow> mcp_server_policy \<Rightarrow> mcp_server \<Rightarrow> policy_subject_origin \<Rightarrow> mcp_server_allowlist option" where
  "blocking_allow_source E ls server origin =
     (case List.find (\<lambda>l. only_managed l \<and> \<not> grants_exception E ls server (list_ownership l)) (binding_sources ls origin) of
        Some l \<Rightarrow> Some l
      | None \<Rightarrow> List.find (\<lambda>l. \<not> allows_ignoring_managed_only E l server) (binding_sources ls origin))"

definition is_server_allowed :: "policy_env \<Rightarrow> mcp_server_policy \<Rightarrow> mcp_server \<Rightarrow> policy_subject_origin \<Rightarrow> bool" where
  "is_server_allowed E ls server origin \<longleftrightarrow> \<not> is_server_denied E ls server origin \<and> blocking_allow_source E ls server origin = None"

definition entry_count :: "mcp_server_policy \<Rightarrow> nat" where
  "entry_count ls = sum_list (map (\<lambda>l. length (allow_compiled l) + length (deny_compiled l)) ls)"

definition source_paths :: "mcp_server_policy \<Rightarrow> string list" where
  "source_paths ls = List.map_filter list_path ls"

section \<open>Marketplaces\<close>

record marketplace_allowlist =
  allowed_urls :: "string list"
  market_path :: "string option"
  market_authority :: policy_source_authority

definition normalize_git_url :: "string \<Rightarrow> string" where
  "normalize_git_url url0 =
     (let url = (case strip_suffix ''.git'' url0 of Some r \<Rightarrow> r | None \<Rightarrow> url0)
      in case split_once_str ''://'' url of
           Some (scheme, rest) \<Rightarrow> (case split_authority_path rest of (authority, path) \<Rightarrow>
             to_ascii_lowercase scheme @ ''://'' @ to_ascii_lowercase authority @ path)
         | None \<Rightarrow> (case split_once (CHR '':'') url of
             Some (user_host, path) \<Rightarrow> if CHR ''@'' \<in> set user_host then to_ascii_lowercase user_host @ '':'' @ path else url
           | None \<Rightarrow> url))"

definition market_binds :: "marketplace_allowlist \<Rightarrow> policy_subject_origin \<Rightarrow> bool" where
  "market_binds m origin \<longleftrightarrow> market_authority m = Authority_Native \<or> origin = Foreign"

definition market_is_lockdown :: "marketplace_allowlist \<Rightarrow> bool" where
  "market_is_lockdown m \<longleftrightarrow> allowed_urls m = []"

definition market_allows :: "marketplace_allowlist \<Rightarrow> string \<Rightarrow> bool" where
  "market_allows m url \<longleftrightarrow> list_ex (\<lambda>allowed. normalize_git_url allowed = normalize_git_url url) (allowed_urls m)"

definition NOT_IN_STRICT :: string where "NOT_IN_STRICT = ''source not in strictKnownMarketplaces''"

definition market_block_reason :: "marketplace_allowlist \<Rightarrow> string" where
  "market_block_reason m = (case market_path m of Some p \<Rightarrow> NOT_IN_STRICT @ '' ('' @ p @ '')'' | None \<Rightarrow> NOT_IN_STRICT)"

definition user_facing_policy_source :: "string \<Rightarrow> string" where
  "user_facing_policy_source path = (case path_file_name path of Some name \<Rightarrow> name | None \<Rightarrow> path)"

definition user_facing_block_reason :: "marketplace_allowlist \<Rightarrow> string" where
  "user_facing_block_reason m = (case market_path m of
     Some p \<Rightarrow> NOT_IN_STRICT @ '' ('' @ user_facing_policy_source p @ '')'' | None \<Rightarrow> NOT_IN_STRICT)"

type_synonym marketplace_policy = "marketplace_allowlist list"

definition market_restricted_for :: "marketplace_policy \<Rightarrow> policy_subject_origin \<Rightarrow> bool" where
  "market_restricted_for ms origin \<longleftrightarrow> list_ex (\<lambda>m. market_binds m origin) ms"

definition is_url_allowed :: "marketplace_policy \<Rightarrow> string \<Rightarrow> policy_subject_origin \<Rightarrow> bool" where
  "is_url_allowed ms url origin \<longleftrightarrow> list_all (\<lambda>m. market_allows m url) (filter (\<lambda>m. market_binds m origin) ms)"

definition market_blocking_source :: "marketplace_policy \<Rightarrow> string \<Rightarrow> policy_subject_origin \<Rightarrow> marketplace_allowlist option" where
  "market_blocking_source ms url origin = (case List.find (\<lambda>m. market_binds m origin \<and> \<not> market_allows m url) ms of
     Some m \<Rightarrow> Some m
   | None \<Rightarrow> List.find (\<lambda>m. market_binds m origin) ms)"

definition block_reason :: "marketplace_policy \<Rightarrow> string \<Rightarrow> policy_subject_origin \<Rightarrow> string" where
  "block_reason ms url origin = (case market_blocking_source ms url origin of Some m \<Rightarrow> market_block_reason m | None \<Rightarrow> NOT_IN_STRICT)"

definition add_block_reason :: "marketplace_policy \<Rightarrow> string \<Rightarrow> string option" where
  "add_block_reason ms identity =
     (if market_restricted_for ms Foreign \<and> \<not> is_url_allowed ms identity Foreign
      then Some (case market_blocking_source ms identity Foreign of Some m \<Rightarrow> user_facing_block_reason m | None \<Rightarrow> NOT_IN_STRICT)
      else None)"

datatype managed_marketplace_kind = Market_Git string "string option" | Market_Local string

record managed_marketplace =
  market_name :: string
  market_kind :: managed_marketplace_kind
  market_ownership :: policy_layer_ownership

section \<open>Keys of a source\<close>

text \<open>Equality of JSON values, which does not depend on the order of the fields of an object.\<close>

function json_eq :: "json \<Rightarrow> json \<Rightarrow> bool" where
  "json_eq a b = (case (a, b) of
     (JArray xs, JArray ys) \<Rightarrow> length xs = length ys \<and> list_all (\<lambda>(x, y). json_eq x y) (zip xs ys)
   | (JObject fs, JObject gs) \<Rightarrow> length fs = length gs
       \<and> list_all (\<lambda>(k, v). case map_of gs k of Some w \<Rightarrow> json_eq v w | None \<Rightarrow> False) fs
   | _ \<Rightarrow> a = b)"
  by pat_completeness auto
termination
proof (relation "measure (size \<circ> fst)")
  show "((x, y), (a, b)) \<in> measure (size \<circ> fst)"
    if "(p, q) = (a, b)" "p = JArray xs" "q = JArray ys" "z \<in> set (zip xs ys)" "(x, y) = z" for a b p q xs ys z x y
  proof -
    have "x \<in> set xs" using that(4,5) by (auto dest: set_zip_leftD)
    then show ?thesis using that(1,2) size_list_estimation' [of x xs "size x" size] by auto
  qed
  show "((v, w), (a, b)) \<in> measure (size \<circ> fst)"
    if "(p, q) = (a, b)" "p = JObject fs" "q = JObject gs" "z \<in> set fs" "(k, v) = z" "map_of gs k = Some w" for a b p q fs gs z k v w
    using that size_list_estimation' [of z fs "size v" "size_prod (\<lambda>x. 0) size"] by auto
qed auto

declare json_eq.simps [simp del]

datatype 'a policy_key = Key_Absent | Key_Present 'a | Key_Malformed

definition policy_field :: "json \<Rightarrow> string list \<Rightarrow> json policy_key" where
  "policy_field v keys = (case List.map_filter (obj_get v) keys of
     [] \<Rightarrow> Key_Absent
   | first # others \<Rightarrow> if list_ex (\<lambda>x. \<not> json_eq x first) others then Key_Malformed else Key_Present first)"

definition policy_bool :: "json \<Rightarrow> string list \<Rightarrow> bool \<Rightarrow> bool option" where
  "policy_bool v keys fail_closed = (case policy_field v keys of
     Key_Absent \<Rightarrow> None
   | Key_Malformed \<Rightarrow> Some fail_closed
   | Key_Present x \<Rightarrow> Some (case as_bool x of Some b \<Rightarrow> b | None \<Rightarrow> fail_closed))"

fun key_and_then :: "'a policy_key \<Rightarrow> ('a \<Rightarrow> 'b policy_key) \<Rightarrow> 'b policy_key" where
  "key_and_then Key_Absent f = Key_Absent"
| "key_and_then (Key_Present v) f = f v"
| "key_and_then Key_Malformed f = Key_Malformed"

definition key_locks_down :: "'a list policy_key \<Rightarrow> bool" where
  "key_locks_down k \<longleftrightarrow> k = Key_Present [] \<or> k = Key_Malformed"

fun key_entries :: "'a list policy_key \<Rightarrow> 'a list" where
  "key_entries (Key_Present es) = es"
| "key_entries _ = []"

definition policy_array :: "json \<Rightarrow> string list \<Rightarrow> json list policy_key" where
  "policy_array v keys = key_and_then (policy_field v keys) (\<lambda>x. case x of JArray arr \<Rightarrow> Key_Present arr | _ \<Rightarrow> Key_Malformed)"

datatype mcp_policy_list = List_Allow | List_Deny

fun list_keys :: "mcp_policy_list \<Rightarrow> string list" where
  "list_keys List_Allow = [''allowedMcpServers'', ''allowed_mcp_servers'']"
| "list_keys List_Deny = [''deniedMcpServers'', ''denied_mcp_servers'']"

definition SERVER_URL :: "string list" where "SERVER_URL = [''serverUrl'', ''server_url'']"
definition SERVER_COMMAND :: "string list" where "SERVER_COMMAND = [''serverCommand'', ''server_command'']"
definition SERVER_NAME :: "string list" where "SERVER_NAME = [''serverName'', ''server_name'']"

definition first_field :: "json \<Rightarrow> string list \<Rightarrow> json option" where
  "first_field e keys = (case List.map_filter (obj_get e) keys of x # _ \<Rightarrow> Some x | [] \<Rightarrow> None)"

definition entry_argv :: "json \<Rightarrow> string list option" where
  "entry_argv e = Option.bind (Option.bind (first_field e SERVER_COMMAND) (as_list as_str))
     (\<lambda>argv. if argv = [] then None else Some argv)"

definition parse_mcp_entry :: "url_env \<Rightarrow> json \<Rightarrow> mcp_policy_list \<Rightarrow> allowed_mcp_server option" where
  "parse_mcp_entry U e which =
     (if list_ex (\<lambda>keys. policy_field e keys = Key_Malformed) [SERVER_URL, SERVER_COMMAND, SERVER_NAME] then None
      else case Option.bind (first_field e SERVER_URL) as_str of
        Some url \<Rightarrow> if which = List_Deny \<and> unmatchable_deny_url U url then None else Some (Allowed_Http url)
      | None \<Rightarrow> (case entry_argv e of
          Some argv \<Rightarrow> Some (Allowed_StdioArgv argv)
        | None \<Rightarrow> (case Option.bind (obj_get e ''command'') as_str of
            Some cmd \<Rightarrow> Some (Allowed_Stdio cmd)
          | None \<Rightarrow> map_option Allowed_Name (Option.bind (first_field e SERVER_NAME) as_str))))"

definition parse_mcp_entries :: "url_env \<Rightarrow> json list \<Rightarrow> mcp_policy_list \<Rightarrow> allowed_mcp_server list option" where
  "parse_mcp_entries U arr which =
     (let parsed = map (\<lambda>e. parse_mcp_entry U e which) arr
      in if which = List_Deny \<and> list_ex (\<lambda>p. p = None) parsed then None else Some (List.map_filter (\<lambda>p. p) parsed))"

definition parse_mcp_entry_list :: "url_env \<Rightarrow> json \<Rightarrow> mcp_policy_list \<Rightarrow> allowed_mcp_server list policy_key" where
  "parse_mcp_entry_list U v which = key_and_then (policy_array v (list_keys which))
     (\<lambda>arr. case parse_mcp_entries U arr which of Some es \<Rightarrow> Key_Present es | None \<Rightarrow> Key_Malformed)"

definition marketplace_source_from_json :: "json \<Rightarrow> managed_marketplace_kind option" where
  "marketplace_source_from_json e =
     (let git_ref = Option.bind (case obj_get e ''ref'' of Some r \<Rightarrow> Some r | None \<Rightarrow> obj_get e ''branch'') as_str
      in case Option.bind (obj_get e ''source'') as_str of
           None \<Rightarrow> None
         | Some src \<Rightarrow>
             if src = ''git'' then map_option (\<lambda>url. Market_Git url git_ref) (Option.bind (obj_get e ''url'') as_str)
             else if src = ''github'' then map_option (\<lambda>repo. Market_Git (''https://github.com/'' @ repo @ ''.git'') git_ref)
               (Option.bind (obj_get e ''repo'') as_str)
             else if src = ''local'' then map_option Market_Local (Option.bind (obj_get e ''path'') as_str)
             else None)"

definition strict_url :: "json \<Rightarrow> string option" where
  "strict_url e = (case marketplace_source_from_json e of Some (Market_Git url _) \<Rightarrow> Some url | _ \<Rightarrow> None)"

definition parse_strict_marketplaces :: "json \<Rightarrow> string list policy_key" where
  "parse_strict_marketplaces v = key_and_then (policy_array v [''strictKnownMarketplaces'', ''strict_known_marketplaces''])
     (\<lambda>arr. Key_Present (List.map_filter strict_url arr))"

record extra_marketplaces_of =
  extra_entries :: "managed_marketplace list"
  pin_auto_update_off :: bool

definition extra_entry :: "policy_layer_ownership \<Rightarrow> string \<times> json \<Rightarrow> managed_marketplace list \<times> bool" where
  "extra_entry ownership nv = (case snd nv of
     JObject _ \<Rightarrow>
       ((case Option.bind (obj_get (snd nv) ''source'') marketplace_source_from_json of
           Some mk \<Rightarrow> [\<lparr>market_name = fst nv, market_kind = mk, market_ownership = ownership\<rparr>] | None \<Rightarrow> []),
        policy_bool (snd nv) [''autoUpdate'', ''auto_update''] False = Some False)
   | _ \<Rightarrow> ([], True))"

definition parse_extra_marketplaces :: "json \<Rightarrow> policy_layer_ownership \<Rightarrow> extra_marketplaces_of" where
  "parse_extra_marketplaces v ownership = (case policy_field v [''extraKnownMarketplaces'', ''extra_known_marketplaces''] of
     Key_Absent \<Rightarrow> \<lparr>extra_entries = [], pin_auto_update_off = False\<rparr>
   | Key_Malformed \<Rightarrow> \<lparr>extra_entries = [], pin_auto_update_off = True\<rparr>
   | Key_Present (JObject kvs) \<Rightarrow>
       \<lparr>extra_entries = concat (map (fst \<circ> extra_entry ownership) kvs),
        pin_auto_update_off = list_ex (snd \<circ> extra_entry ownership) kvs\<rparr>
   | Key_Present _ \<Rightarrow> \<lparr>extra_entries = [], pin_auto_update_off = True\<rparr>)"

section \<open>The settings\<close>

record policy_settings =
  base_settings :: managed_settings
  mcp_allowlist :: mcp_server_policy
  marketplace_lists :: marketplace_policy
  project_mcp :: policy_pin
  plugin_auto_update :: policy_pin
  extra_marketplaces :: "managed_marketplace list"

definition managed_settings_default :: managed_settings where
  "managed_settings_default = \<lparr>managed_rules = [], managed_default_mode = None, managed_path = None,
     managed_disable_telemetry = None, managed_disable_feedback = None, managed_disable_yolo = None\<rparr>"

definition pin_disabled :: "string \<Rightarrow> policy_layer_ownership \<Rightarrow> policy_pin \<Rightarrow> policy_pin" where
  "pin_disabled path ownership pin =
     (let upgrades = (ownership = Owner_Admin \<and> (case pin of Pin_Disabled _ Owner_User \<Rightarrow> True | _ \<Rightarrow> False))
      in if \<not> pin_is_disabled pin \<or> upgrades then Pin_Disabled path ownership else pin)"

fun claim_marketplace :: "managed_marketplace \<Rightarrow> managed_marketplace list \<Rightarrow> managed_marketplace list" where
  "claim_marketplace x [] = [x]"
| "claim_marketplace x (m # ms) =
     (if market_name m = market_name x
      then (if market_ownership m = Owner_User \<and> market_ownership x = Owner_Admin then x # ms else m # ms)
      else m # claim_marketplace x ms)"

text \<open>The list of servers that a source contributes, if any.\<close>

definition source_list :: "url_env \<Rightarrow> json \<Rightarrow> string \<Rightarrow> policy_layer_tier \<Rightarrow> mcp_server_allowlist list" where
  "source_list U v path tier =
     (let allow = parse_mcp_entry_list U v List_Allow; deny = parse_mcp_entry_list U v List_Deny;
          managed_only = (policy_bool v [''allowManagedMcpServersOnly'', ''allow_managed_mcp_servers_only''] True = Some True);
          locked = (key_locks_down allow \<or> deny = Key_Malformed)
      in if locked \<or> key_entries allow \<noteq> [] \<or> key_entries deny \<noteq> [] \<or> managed_only
         then [(allowlist_new U (key_entries allow) (key_entries deny) (Some path))
                \<lparr>list_authority := tier_authority tier, list_ownership := tier_ownership tier, only_managed := managed_only, lockdown := locked\<rparr>]
         else [])"

definition source_market :: "json \<Rightarrow> string \<Rightarrow> policy_layer_tier \<Rightarrow> marketplace_allowlist list" where
  "source_market v path tier = (let strict = parse_strict_marketplaces v
     in if strict = Key_Absent then []
        else [\<lparr>allowed_urls = key_entries strict, market_path = Some path, market_authority = tier_authority tier\<rparr>])"

definition apply_policy_source :: "url_env \<Rightarrow> policy_settings \<Rightarrow> json \<Rightarrow> string \<Rightarrow> policy_layer_tier \<Rightarrow> policy_settings" where
  "apply_policy_source U ms v path tier =
     (let ownership = tier_ownership tier;
          pin_if = (\<lambda>b pin. if b then pin_disabled path ownership pin else pin);
          extras = parse_extra_marketplaces v ownership
      in ms\<lparr>mcp_allowlist := mcp_allowlist ms @ source_list U v path tier,
            project_mcp := pin_if (policy_bool v [''enableAllProjectMcpServers'', ''enable_all_project_mcp_servers''] False = Some False)
              (project_mcp ms),
            plugin_auto_update := pin_if (pin_auto_update_off extras)
              (pin_if (policy_bool v [''pluginAutoUpdate'', ''plugin_auto_update''] False = Some False) (plugin_auto_update ms)),
            marketplace_lists := marketplace_lists ms @ source_market v path tier,
            extra_marketplaces := foldl (\<lambda>es e. claim_marketplace e es) (extra_marketplaces ms) (extra_entries extras)\<rparr>)"

definition unreadable_list :: "url_env \<Rightarrow> string \<Rightarrow> policy_layer_tier \<Rightarrow> mcp_server_allowlist" where
  "unreadable_list U path tier = (allowlist_new U [] [] (Some path))
     \<lparr>list_authority := tier_authority tier, list_ownership := tier_ownership tier, lockdown := True\<rparr>"

definition apply_unreadable_policy_source :: "url_env \<Rightarrow> policy_settings \<Rightarrow> string \<Rightarrow> policy_layer_tier \<Rightarrow> policy_settings" where
  "apply_unreadable_policy_source U ms path tier =
     ms\<lparr>mcp_allowlist := mcp_allowlist ms @ [unreadable_list U path tier],
        marketplace_lists := marketplace_lists ms @ [\<lparr>allowed_urls = [], market_path = Some path, market_authority = tier_authority tier\<rparr>],
        project_mcp := pin_disabled path (tier_ownership tier) (project_mcp ms),
        plugin_auto_update := pin_disabled path (tier_ownership tier) (plugin_auto_update ms)\<rparr>"

definition MANAGED_POLICY_CONFIG_KEYS :: "string list" where
  "MANAGED_POLICY_CONFIG_KEYS = [''allowedMcpServers'', ''allowed_mcp_servers'', ''deniedMcpServers'', ''denied_mcp_servers'',
     ''allowManagedMcpServersOnly'', ''allow_managed_mcp_servers_only'', ''enableAllProjectMcpServers'',
     ''enable_all_project_mcp_servers'', ''pluginAutoUpdate'', ''plugin_auto_update'', ''strictKnownMarketplaces'',
     ''strict_known_marketplaces'', ''extraKnownMarketplaces'', ''extra_known_marketplaces'']"

definition policy_table :: "toml \<Rightarrow> (string \<times> toml) list" where
  "policy_table v = (case v of Toml_Table kvs \<Rightarrow> filter (\<lambda>(k, _). k \<in> set MANAGED_POLICY_CONFIG_KEYS) kvs | _ \<Rightarrow> [])"

definition apply_layer :: "policy_env \<Rightarrow> policy_settings \<Rightarrow> policy_layer \<Rightarrow> policy_settings" where
  "apply_layer E ms l =
     (let tbl = policy_table (layer_value l)
      in if tbl = [] then ms
         else case penv_json E tbl of
           Some v \<Rightarrow> apply_policy_source (penv_urls E) ms v (layer_path l) (layer_tier l)
         | None \<Rightarrow> apply_unreadable_policy_source (penv_urls E) ms (layer_path l) (layer_tier l))"

definition resolve_managed_settings :: "policy_env \<Rightarrow> (json \<times> string) option \<Rightarrow> policy_layer list \<Rightarrow> policy_settings" where
  "resolve_managed_settings E claude toml_layers =
     (let base = \<lparr>base_settings = (case claude of Some (v, path) \<Rightarrow> parse_managed_settings_base v path | None \<Rightarrow> managed_settings_default),
            mcp_allowlist = [], marketplace_lists = [], project_mcp = Unpinned, plugin_auto_update = Unpinned, extra_marketplaces = []\<rparr>;
          ms = foldl (apply_layer E) base (sort_key (tier_rank \<circ> layer_tier) toml_layers)
      in case claude of Some (v, path) \<Rightarrow> apply_policy_source (penv_urls E) ms v path Tier_Vendor | None \<Rightarrow> ms)"

text \<open>The layers on disk, a requirements layer being the one of the device management or not.\<close>

definition managed_toml_policy_layers ::
  "(string \<times> bool \<times> toml) list \<Rightarrow> (string \<times> bool \<times> bool \<times> toml) list \<Rightarrow> policy_layer list" where
  "managed_toml_policy_layers managed requirements =
     map (\<lambda>(path, is_system, v). \<lparr>layer_tier = (if is_system then Tier_SystemManaged else Tier_UserManaged),
       layer_path = path, layer_value = v\<rparr>) managed
     @ map (\<lambda>(label, is_mdm, is_system, v). \<lparr>layer_tier = (if is_mdm then Tier_Mdm
         else if is_system then Tier_SystemRequirements else Tier_UserRequirements),
       layer_path = label, layer_value = v\<rparr>) requirements"

section \<open>The verdict\<close>

datatype mcp_block_reason = Block_Deny string | Block_NotGranted string | Block_Lockdown string | Block_ProjectPin string

datatype mcp_verdict = Verdict_Allowed | Verdict_Blocked mcp_block_reason

fun block_source :: "mcp_block_reason \<Rightarrow> string" where
  "block_source (Block_Deny s) = s"
| "block_source (Block_NotGranted s) = s"
| "block_source (Block_Lockdown s) = s"
| "block_source (Block_ProjectPin s) = s"

fun block_rule :: "mcp_block_reason \<Rightarrow> string" where
  "block_rule (Block_Deny _) = ''matches deniedMcpServers''"
| "block_rule (Block_NotGranted _) = ''not in allowedMcpServers''"
| "block_rule (Block_Lockdown _) = ''locked down by policy''"
| "block_rule (Block_ProjectPin _) = ''project MCP disabled by enableAllProjectMcpServers = false''"

definition reason_with :: "mcp_block_reason \<Rightarrow> string \<Rightarrow> string" where
  "reason_with r src = block_rule r @ '' ('' @ src @ '')''"

definition user_facing_reason :: "mcp_block_reason \<Rightarrow> string" where
  "user_facing_reason r = reason_with r (user_facing_policy_source (block_source r))"

record mcp_subject =
  subject_origin :: policy_subject_origin
  project_scoped :: bool

definition mcp_project_pin_block :: "policy_env \<Rightarrow> policy_settings \<Rightarrow> mcp_server \<Rightarrow> mcp_subject \<Rightarrow> mcp_block_reason option" where
  "mcp_project_pin_block E ms server subject = (case project_mcp ms of
     Unpinned \<Rightarrow> None
   | Pin_Disabled source ownership \<Rightarrow>
       if \<not> project_scoped subject \<or> grants_exception E (mcp_allowlist ms) server ownership then None
       else Some (Block_ProjectPin source))"

definition path_or_empty :: "mcp_server_allowlist \<Rightarrow> string" where
  "path_or_empty l = (case list_path l of Some p \<Rightarrow> p | None \<Rightarrow> [])"

definition mcp_verdict_of :: "policy_env \<Rightarrow> policy_settings \<Rightarrow> mcp_server \<Rightarrow> mcp_subject \<Rightarrow> mcp_verdict" where
  "mcp_verdict_of E ms server subject =
     (case denying_source E (mcp_allowlist ms) server (subject_origin subject) of
        Some l \<Rightarrow> Verdict_Blocked (Block_Deny (path_or_empty l))
      | None \<Rightarrow> (case blocking_allow_source E (mcp_allowlist ms) server (subject_origin subject) of
          Some l \<Rightarrow> Verdict_Blocked (if lockdown l then Block_Lockdown (path_or_empty l) else Block_NotGranted (path_or_empty l))
        | None \<Rightarrow> (case mcp_project_pin_block E ms server subject of
            Some rsn \<Rightarrow> Verdict_Blocked rsn | None \<Rightarrow> Verdict_Allowed)))"

section \<open>What the layers contribute\<close>

text \<open>The lists of servers and the pin on the servers of projects, of a layer and of the vendor's file.\<close>

definition layer_lists :: "policy_env \<Rightarrow> policy_layer \<Rightarrow> mcp_server_allowlist list" where
  "layer_lists E l =
     (let tbl = policy_table (layer_value l)
      in if tbl = [] then []
         else case penv_json E tbl of
           Some v \<Rightarrow> source_list (penv_urls E) v (layer_path l) (layer_tier l)
         | None \<Rightarrow> [unreadable_list (penv_urls E) (layer_path l) (layer_tier l)])"

definition vendor_lists :: "policy_env \<Rightarrow> (json \<times> string) option \<Rightarrow> mcp_server_allowlist list" where
  "vendor_lists E claude = (case claude of Some (v, path) \<Rightarrow> source_list (penv_urls E) v path Tier_Vendor | None \<Rightarrow> [])"

definition pins_projects :: "json \<Rightarrow> bool" where
  "pins_projects v \<longleftrightarrow> policy_bool v [''enableAllProjectMcpServers'', ''enable_all_project_mcp_servers''] False = Some False"

definition layer_pins :: "policy_env \<Rightarrow> policy_layer \<Rightarrow> (string \<times> policy_layer_ownership) list" where
  "layer_pins E l =
     (let tbl = policy_table (layer_value l)
      in if tbl = [] then []
         else if case penv_json E tbl of Some v \<Rightarrow> pins_projects v | None \<Rightarrow> True
         then [(layer_path l, tier_ownership (layer_tier l))] else [])"

definition vendor_pins :: "(json \<times> string) option \<Rightarrow> (string \<times> policy_layer_ownership) list" where
  "vendor_pins claude = (case claude of Some (v, path) \<Rightarrow> if pins_projects v then [(path, Owner_Admin)] else [] | None \<Rightarrow> [])"

definition pins_after :: "policy_pin \<Rightarrow> (string \<times> policy_layer_ownership) list \<Rightarrow> policy_pin" where
  "pins_after = foldl (\<lambda>pin (path, ownership). pin_disabled path ownership pin)"

lemma apply_layer_effect:
  "mcp_allowlist (apply_layer E ms l) = mcp_allowlist ms @ layer_lists E l"
  "project_mcp (apply_layer E ms l) = pins_after (project_mcp ms) (layer_pins E l)"
  by (simp_all add: apply_layer_def layer_lists_def layer_pins_def apply_policy_source_def apply_unreadable_policy_source_def
      pins_after_def pins_projects_def Let_def split: option.split)

lemma pins_after_append: "pins_after pin (ps @ qs) = pins_after (pins_after pin ps) qs"
  by (simp add: pins_after_def)

lemma apply_layers_effect:
  "mcp_allowlist (foldl (apply_layer E) ms ls) = mcp_allowlist ms @ concat (map (layer_lists E) ls)"
  "project_mcp (foldl (apply_layer E) ms ls) = pins_after (project_mcp ms) (concat (map (layer_pins E) ls))"
proof (induction ls arbitrary: ms)
  case Nil
  {
    case 1 show ?case by simp
  next
    case 2 show ?case by (simp add: pins_after_def)
  }
next
  case (Cons l ls)
  {
    case 1 show ?case by (simp add: Cons.IH apply_layer_effect)
  next
    case 2 show ?case by (simp add: Cons.IH apply_layer_effect pins_after_append)
  }
qed

lemma resolve_effect:
  "mcp_allowlist (resolve_managed_settings E claude ls) =
     concat (map (layer_lists E) (sort_key (tier_rank \<circ> layer_tier) ls)) @ vendor_lists E claude"
  "project_mcp (resolve_managed_settings E claude ls) =
     pins_after Unpinned (concat (map (layer_pins E) (sort_key (tier_rank \<circ> layer_tier) ls)) @ vendor_pins claude)"
  by (auto simp: resolve_managed_settings_def apply_layers_effect apply_policy_source_def vendor_lists_def vendor_pins_def
      pins_after_def pins_projects_def Let_def split: option.split)

lemma pins_after_Cons: "pins_after pin ((path, ow) # ps) = pins_after (pin_disabled path ow pin) ps"
  by (simp add: pins_after_def)

text \<open>A pin is never undone, and an administrator's pin is never taken over by the user.\<close>

lemma pins_after_shape:
  "pins_after pin ps = Unpinned \<longleftrightarrow> pin = Unpinned \<and> ps = []"
  "(\<exists>path. pins_after pin ps = Pin_Disabled path Owner_Admin) \<longleftrightarrow> (\<exists>path. pin = Pin_Disabled path Owner_Admin) \<or> Owner_Admin \<in> snd ` set ps"
proof (induction ps arbitrary: pin)
  case (Cons p ps)
  obtain path ow where p: "p = (path, ow)" by (cases p)
  have d: "pin_disabled path ow pin \<noteq> Unpinned"
    "(\<exists>path'. pin_disabled path ow pin = Pin_Disabled path' Owner_Admin) \<longleftrightarrow> (\<exists>path'. pin = Pin_Disabled path' Owner_Admin) \<or> ow = Owner_Admin"
    for pin by (cases pin; cases ow; auto simp: pin_disabled_def split: policy_layer_ownership.splits)+
  {
    case 1
    show ?case using Cons.IH(1) [of "pin_disabled path ow pin"] d(1) by (auto simp: p pins_after_Cons)
  next
    case 2
    show ?case using Cons.IH(2) [of "pin_disabled path ow pin"] d(2) by (auto simp: p pins_after_Cons)
  }
qed (simp_all add: pins_after_def)

section \<open>The verdict, read declaratively\<close>

definition list_admits :: "policy_env \<Rightarrow> mcp_server_policy \<Rightarrow> mcp_server \<Rightarrow> mcp_server_allowlist \<Rightarrow> bool" where
  "list_admits E ls server l \<longleftrightarrow> \<not> list_denies E l server \<and> allows_ignoring_managed_only E l server
     \<and> (only_managed l \<longrightarrow> grants_exception E ls server (list_ownership l))"

lemma find_None: "List.find P xs = None \<longleftrightarrow> (\<forall>x \<in> set xs. \<not> P x)"
  by (auto simp: find_None_iff)

lemma verdict_allowed_iff:
  "mcp_verdict_of E ms server subject = Verdict_Allowed \<longleftrightarrow>
     (\<forall>l \<in> set (mcp_allowlist ms). list_binds l (subject_origin subject) \<longrightarrow> list_admits E (mcp_allowlist ms) server l)
     \<and> mcp_project_pin_block E ms server subject = None"
proof -
  let ?B = "{l \<in> set (mcp_allowlist ms). list_binds l (subject_origin subject)}"
  have "mcp_verdict_of E ms server subject = Verdict_Allowed \<longleftrightarrow>
      denying_source E (mcp_allowlist ms) server (subject_origin subject) = None
      \<and> blocking_allow_source E (mcp_allowlist ms) server (subject_origin subject) = None
      \<and> mcp_project_pin_block E ms server subject = None"
    by (simp add: mcp_verdict_of_def split: option.split)
  moreover have "denying_source E (mcp_allowlist ms) server (subject_origin subject) = None \<longleftrightarrow> (\<forall>l \<in> ?B. \<not> list_denies E l server)"
    by (auto simp: denying_source_def binding_sources_def find_None)
  moreover have "blocking_allow_source E (mcp_allowlist ms) server (subject_origin subject) = None \<longleftrightarrow>
      (\<forall>l \<in> ?B. allows_ignoring_managed_only E l server \<and> (only_managed l \<longrightarrow> grants_exception E (mcp_allowlist ms) server (list_ownership l)))"
  proof -
    have "(case x of Some l \<Rightarrow> Some l | None \<Rightarrow> y) = None \<longleftrightarrow> x = None \<and> y = None" for x y :: "mcp_server_allowlist option"
      by (simp split: option.split)
    then show ?thesis by (auto simp: blocking_allow_source_def binding_sources_def find_None)
  qed
  ultimately show ?thesis by (auto simp: list_admits_def)
qed

lemma source_list_owner: "l \<in> set (source_list U v path tier) \<Longrightarrow> list_ownership l = tier_ownership tier"
  by (auto simp: source_list_def Let_def split: if_splits)

lemma layer_lists_owner: "l \<in> set (layer_lists E x) \<Longrightarrow> list_ownership l = tier_ownership (layer_tier x)"
  by (auto simp: layer_lists_def unreadable_list_def Let_def source_list_owner split: if_splits option.splits)

lemma layer_pins_owner: "p \<in> set (layer_pins E x) \<Longrightarrow> snd p = tier_ownership (layer_tier x)"
  by (auto simp: layer_pins_def Let_def split: if_splits)

lemma vendor_owner: "l \<in> set (vendor_lists E claude) \<Longrightarrow> list_ownership l = Owner_Admin"
  by (auto simp: vendor_lists_def source_list_owner split: option.splits)

definition admin_layers :: "policy_layer list \<Rightarrow> policy_layer list" where
  "admin_layers ls = filter (\<lambda>l. tier_ownership (layer_tier l) = Owner_Admin) ls"

lemma admin_lists:
  "set (mcp_allowlist (resolve_managed_settings E claude (admin_layers ls)))
     = {l \<in> set (mcp_allowlist (resolve_managed_settings E claude ls)). list_ownership l = Owner_Admin}"
  by (auto simp: resolve_effect admin_layers_def layer_lists_owner vendor_owner)

lemma admin_grants:
  "grants_exception E (mcp_allowlist (resolve_managed_settings E claude ls)) server Owner_Admin
     \<Longrightarrow> grants_exception E (mcp_allowlist (resolve_managed_settings E claude (admin_layers ls))) server ow"
  by (auto simp: grants_exception_def accepts_grant_from_def list_ex_iff admin_lists)

lemma admin_pin:
  assumes "project_mcp (resolve_managed_settings E claude (admin_layers ls)) \<noteq> Unpinned"
  shows "\<exists>path. project_mcp (resolve_managed_settings E claude ls) = Pin_Disabled path Owner_Admin"
proof -
  let ?ps = "concat (map (layer_pins E) (sort_key (tier_rank \<circ> layer_tier) (admin_layers ls))) @ vendor_pins claude"
  obtain p where p: "p \<in> set ?ps" using assms by (cases ?ps) (auto simp: resolve_effect pins_after_shape(1))
  then have "snd p = Owner_Admin"
    by (auto simp: admin_layers_def vendor_pins_def dest: layer_pins_owner split: option.splits if_splits)
  moreover have "p \<in> set (concat (map (layer_pins E) (sort_key (tier_rank \<circ> layer_tier) ls)) @ vendor_pins claude)"
    using p by (auto simp: admin_layers_def)
  ultimately show ?thesis unfolding resolve_effect pins_after_shape(2) by force
qed

text \<open>C27: The user's layers only tighten. A server that the administrator's layers and the vendor's file block, by a denied
  entry, a missing grant, a lockdown or the pin on the servers of projects, is blocked when any layers of the user are added,
  whatever they allow and wherever they stand.\<close>

theorem user_layers_only_tighten:
  assumes "mcp_verdict_of E (resolve_managed_settings E claude (admin_layers ls)) server subject \<noteq> Verdict_Allowed"
  shows "mcp_verdict_of E (resolve_managed_settings E claude ls) server subject \<noteq> Verdict_Allowed"
proof
  let ?A = "resolve_managed_settings E claude (admin_layers ls)"
  let ?L = "resolve_managed_settings E claude ls"
  assume ok: "mcp_verdict_of E ?L server subject = Verdict_Allowed"
  have "list_admits E (mcp_allowlist ?A) server l"
    if "l \<in> set (mcp_allowlist ?A)" "list_binds l (subject_origin subject)" for l
  proof -
    have l: "list_ownership l = Owner_Admin" "list_admits E (mcp_allowlist ?L) server l"
      using that ok by (simp_all add: admin_lists verdict_allowed_iff)
    then show ?thesis using admin_grants [of E claude ls server] by (auto simp: list_admits_def)
  qed
  moreover have "mcp_project_pin_block E ?A server subject = None"
  proof (cases "project_mcp ?A")
    case (Pin_Disabled path ow)
    then obtain q where "project_mcp ?L = Pin_Disabled q Owner_Admin" using admin_pin [of E claude ls] by auto
    then show ?thesis using ok admin_grants [of E claude ls server] Pin_Disabled
      by (auto simp: verdict_allowed_iff mcp_project_pin_block_def split: if_splits)
  qed (simp add: mcp_project_pin_block_def)
  ultimately show False using assms by (simp add: verdict_allowed_iff)
qed

text \<open>Marketplaces tighten in the same way: a source is allowed only when every list that binds it has it.\<close>

lemma marketplaces_only_tighten:
  "set ms \<subseteq> set ms' \<Longrightarrow> is_url_allowed ms' url origin \<Longrightarrow> is_url_allowed ms url origin"
  by (auto simp: is_url_allowed_def list_all_iff)

section \<open>Policies that cannot be read\<close>

text \<open>A key has two spellings; the first one counts, and it is ambiguous when both are there with different values.\<close>

definition value_of :: "json \<Rightarrow> string \<Rightarrow> string \<Rightarrow> json option" where
  "value_of v k1 k2 = (case obj_get v k1 of Some x \<Rightarrow> Some x | None \<Rightarrow> obj_get v k2)"

definition ambiguous :: "json \<Rightarrow> string \<Rightarrow> string \<Rightarrow> bool" where
  "ambiguous v k1 k2 \<longleftrightarrow> (\<exists>x y. obj_get v k1 = Some x \<and> obj_get v k2 = Some y \<and> \<not> json_eq y x)"

text \<open>An entry names servers by an address, by a command with its arguments, by a command, or by a name. It is unclear when it
  does neither, or spells one of these in two ways with different values.\<close>

definition unclear_entry :: "json \<Rightarrow> bool" where
  "unclear_entry e \<longleftrightarrow>
     ambiguous e ''serverUrl'' ''server_url'' \<or> ambiguous e ''serverCommand'' ''server_command'' \<or> ambiguous e ''serverName'' ''server_name''
     \<or> \<not> ((\<exists>url. value_of e ''serverUrl'' ''server_url'' = Some (JString url))
          \<or> (\<exists>argv. argv \<noteq> [] \<and> value_of e ''serverCommand'' ''server_command'' = Some (JArray (map JString argv)))
          \<or> (\<exists>cmd. obj_get e ''command'' = Some (JString cmd))
          \<or> (\<exists>name. value_of e ''serverName'' ''server_name'' = Some (JString name)))"

text \<open>An address that no server can have: without a host, with a host that is no pattern, or with a label of the host that mixes
  characters beyond ASCII, which hosts at run time do not have, with wildcards.\<close>

definition dead_address :: "url_env \<Rightarrow> string \<Rightarrow> bool" where
  "dead_address U url \<longleftrightarrow> (case fst (split_host_path url) of
     None \<Rightarrow> True
   | Some host \<Rightarrow> url_glob_new U (canonicalize_pattern_host U host) = None
       \<or> (\<exists>label \<in> set (split_on (CHR ''.'') host). (\<exists>c \<in> set label. 128 \<le> code c) \<and> (\<exists>c \<in> set label. c \<in> {CHR ''*'', CHR ''?'', CHR ''[''})))"

text \<open>A policy on servers is unusable when one of its lists is not an array or is spelled in two ways with different values, when
  every entry of the allowed servers is unclear, or when one entry of the denied servers is, or names an address that no
  server can have.\<close>

definition unusable_policy :: "url_env \<Rightarrow> json \<Rightarrow> bool" where
  "unusable_policy U v \<longleftrightarrow>
     ambiguous v ''allowedMcpServers'' ''allowed_mcp_servers'' \<or> ambiguous v ''deniedMcpServers'' ''denied_mcp_servers''
     \<or> (\<exists>x. value_of v ''allowedMcpServers'' ''allowed_mcp_servers'' = Some x
          \<and> (\<forall>entries. x = JArray entries \<longrightarrow> (\<forall>e \<in> set entries. unclear_entry e)))
     \<or> (\<exists>x. value_of v ''deniedMcpServers'' ''denied_mcp_servers'' = Some x
          \<and> (\<forall>entries. x = JArray entries \<longrightarrow> (\<exists>e \<in> set entries. unclear_entry e
               \<or> (\<exists>url. value_of e ''serverUrl'' ''server_url'' = Some (JString url) \<and> dead_address U url))))"

lemma two_spellings:
  "policy_field v [k1, k2] = (if ambiguous v k1 k2 then Key_Malformed
     else case value_of v k1 k2 of None \<Rightarrow> Key_Absent | Some x \<Rightarrow> Key_Present x)"
  "first_field v [k1, k2] = value_of v k1 k2"
  by (auto simp: policy_field_def first_field_def ambiguous_def value_of_def List.map_filter_simps split: option.split)

lemma dead_address_iff: "unmatchable_deny_url U url \<longleftrightarrow> dead_address U url"
proof -
  have "is_ascii_str label \<longleftrightarrow> (\<forall>c \<in> set label. code c < 128)" for label by (simp add: is_ascii_str_def list_all_iff)
  moreover have "has_glob_char label \<longleftrightarrow> (\<exists>c \<in> set label. c \<in> {CHR ''*'', CHR ''?'', CHR ''[''})" for label
    by (auto simp: has_glob_char_def GLOB_CHARS_def list_ex_iff)
  ultimately show ?thesis
    by (auto simp: unmatchable_deny_url_def dead_address_def dead_unicode_glob_label_def list_ex_iff not_less
        split: prod.split option.split)
qed

lemma those_strings: "those (map as_str js) = Some argv \<longleftrightarrow> js = map JString argv"
proof (induction js arbitrary: argv)
  case (Cons j js)
  then show ?case by (cases j; cases argv) (auto simp: as_str_def)
qed auto

lemma entry_argv_iff:
  "entry_argv e = Some argv \<longleftrightarrow> argv \<noteq> [] \<and> value_of e ''serverCommand'' ''server_command'' = Some (JArray (map JString argv))"
proof (cases "value_of e ''serverCommand'' ''server_command''")
  case (Some x)
  then show ?thesis
    by (cases x) (auto simp: entry_argv_def SERVER_COMMAND_def two_spellings(2) as_list_def those_strings bind_eq_Some_conv split: if_splits)
qed (simp add: entry_argv_def SERVER_COMMAND_def two_spellings(2))

lemma no_string: "(\<And>u. x \<noteq> Some (JString u)) \<Longrightarrow> Option.bind x as_str = None"
  by (cases x; cases "the x") (auto simp: as_str_def)

lemma unclear_not_parsed: "unclear_entry e \<Longrightarrow> parse_mcp_entry U e which = None"
proof -
  assume u: "unclear_entry e"
  show ?thesis
  proof (cases "list_ex (\<lambda>keys. policy_field e keys = Key_Malformed) [SERVER_URL, SERVER_COMMAND, SERVER_NAME]")
    case True
    then show ?thesis by (simp add: parse_mcp_entry_def)
  next
    case False
    then have "\<not> ambiguous e ''serverUrl'' ''server_url''" "\<not> ambiguous e ''serverCommand'' ''server_command''"
      "\<not> ambiguous e ''serverName'' ''server_name''"
      by (auto simp: SERVER_URL_def SERVER_COMMAND_def SERVER_NAME_def two_spellings(1))
    then have n: "value_of e ''serverUrl'' ''server_url'' \<noteq> Some (JString t)" "entry_argv e \<noteq> Some argv"
      "obj_get e ''command'' \<noteq> Some (JString t)" "value_of e ''serverName'' ''server_name'' \<noteq> Some (JString t)" for t argv
      using u unfolding unclear_entry_def entry_argv_iff by blast+
    have "entry_argv e = None" using n(2) by (cases "entry_argv e") blast+
    then show ?thesis using False no_string [OF n(1)] no_string [OF n(3)] no_string [OF n(4)]
      by (simp add: parse_mcp_entry_def SERVER_URL_def SERVER_NAME_def two_spellings(2))
  qed
qed

lemma dead_not_parsed:
  assumes "value_of e ''serverUrl'' ''server_url'' = Some (JString url)" "dead_address U url"
  shows "parse_mcp_entry U e List_Deny = None"
  using assms by (simp add: parse_mcp_entry_def SERVER_URL_def two_spellings(2) as_str_def dead_address_iff)

lemma map_filter_None: "list_all (\<lambda>x. f x = None) xs \<Longrightarrow> List.map_filter f xs = []"
  by (induction xs) (simp_all add: List.map_filter_simps)

lemma list_array:
  "policy_array v [k1, k2] = (if ambiguous v k1 k2 then Key_Malformed
     else case value_of v k1 k2 of None \<Rightarrow> Key_Absent | Some (JArray es) \<Rightarrow> Key_Present es | Some _ \<Rightarrow> Key_Malformed)"
  by (simp add: policy_array_def two_spellings(1) split: option.split json.split)

lemma unusable_locks:
  assumes "unusable_policy U v"
  shows "key_locks_down (parse_mcp_entry_list U v List_Allow) \<or> parse_mcp_entry_list U v List_Deny = Key_Malformed"
proof -
  have deny: "parse_mcp_entries U arr List_Deny = None"
    if "e \<in> set arr" "unclear_entry e \<or> (\<exists>url. value_of e ''serverUrl'' ''server_url'' = Some (JString url) \<and> dead_address U url)" for e arr
  proof -
    have "parse_mcp_entry U e List_Deny = None" using that(2) unclear_not_parsed dead_not_parsed by blast
    then show ?thesis using that(1) by (force simp: parse_mcp_entries_def Let_def list_ex_iff)
  qed
  have allow: "parse_mcp_entries U arr List_Allow = Some []" if "\<forall>e \<in> set arr. unclear_entry e" for arr
    using that unclear_not_parsed map_filter_None [of "\<lambda>p. p" "map (\<lambda>e. parse_mcp_entry U e List_Allow) arr"]
    by (simp add: parse_mcp_entries_def Let_def list_all_iff)
  from assms consider "ambiguous v ''allowedMcpServers'' ''allowed_mcp_servers''" | "ambiguous v ''deniedMcpServers'' ''denied_mcp_servers''"
    | x where "value_of v ''allowedMcpServers'' ''allowed_mcp_servers'' = Some x"
        "\<forall>entries. x = JArray entries \<longrightarrow> (\<forall>e \<in> set entries. unclear_entry e)"
    | x where "value_of v ''deniedMcpServers'' ''denied_mcp_servers'' = Some x"
        "\<forall>entries. x = JArray entries \<longrightarrow> (\<exists>e \<in> set entries. unclear_entry e
           \<or> (\<exists>url. value_of e ''serverUrl'' ''server_url'' = Some (JString url) \<and> dead_address U url))"
    unfolding unusable_policy_def by blast
  then show ?thesis
  proof cases
    case (3 x)
    then show ?thesis using allow by (cases x) (auto simp: parse_mcp_entry_list_def list_array key_locks_down_def)
  next
    case (4 x)
    then show ?thesis using deny by (cases x) (auto simp: parse_mcp_entry_list_def list_array)
  qed (simp_all add: parse_mcp_entry_list_def list_array key_locks_down_def)
qed

lemma locked_list_blocks:
  assumes "l \<in> set (mcp_allowlist ms)" "lockdown l" "list_binds l (subject_origin subject)"
  shows "mcp_verdict_of E ms server subject \<noteq> Verdict_Allowed"
  using assms by (auto simp: verdict_allowed_iff list_admits_def allows_ignoring_managed_only_def)

lemma unreadable_layer_locks:
  assumes "policy_table (layer_value x) \<noteq> []"
    and "case penv_json E (policy_table (layer_value x)) of Some v \<Rightarrow> unusable_policy (penv_urls E) v | None \<Rightarrow> True"
  shows "\<exists>l \<in> set (layer_lists E x). lockdown l \<and> list_authority l = tier_authority (layer_tier x)"
  using assms unusable_locks
  by (auto simp: layer_lists_def unreadable_list_def source_list_def Let_def split: option.splits)

lemma unusable_source_locks:
  assumes "unusable_policy U v"
  shows "\<exists>l \<in> set (source_list U v path tier). lockdown l \<and> list_authority l = tier_authority tier"
  using unusable_locks [OF assms] by (auto simp: source_list_def Let_def)


section \<open>Marketplaces that several layers name\<close>

lemma claim_names: "market_name ` set (claim_marketplace x ms) = insert (market_name x) (market_name ` set ms)"
  by (induction x ms rule: claim_marketplace.induct) auto

lemma claim_distinct: "distinct (map market_name ms) \<Longrightarrow> distinct (map market_name (claim_marketplace x ms))"
proof (induction x ms rule: claim_marketplace.induct)
  case (2 x m ms)
  have "market_name m \<notin> market_name ` set (claim_marketplace x ms)" if "market_name m \<noteq> market_name x"
    using 2(2) that by (simp add: claim_names)
  then show ?case using 2 by auto
qed simp

lemma claim_admin:
  "distinct (map market_name ms) \<Longrightarrow> m \<in> set (claim_marketplace x ms) \<Longrightarrow> market_name m = market_name x \<Longrightarrow>
     market_ownership x = Owner_Admin \<or> (\<exists>y \<in> set ms. market_name y = market_name x \<and> market_ownership y = Owner_Admin) \<Longrightarrow>
     market_ownership m = Owner_Admin"
proof (induction x ms rule: claim_marketplace.induct)
  case (2 x y ms)
  show ?case
  proof (cases "market_name y = market_name x")
    case True
    then have "market_name z \<noteq> market_name x" if "z \<in> set ms" for z
      using 2(2) imageI [OF that, of market_name] by auto
    then show ?thesis using 2(3-) True by (cases "market_ownership y") (auto split: if_splits)
  next
    case False
    then show ?thesis using 2 by auto
  qed
qed auto

lemma claim_keeps:
  "m \<in> set (claim_marketplace x ms) \<Longrightarrow> market_name m \<noteq> market_name x \<Longrightarrow> m \<in> set ms"
  by (induction x ms rule: claim_marketplace.induct) (auto split: if_splits)

text \<open>The names stay distinct, and a name that an administrator's entry claims is an administrator's.\<close>

lemma admin_marketplaces_win:
  assumes "distinct (map market_name ms)"
    and "\<exists>y \<in> set ms \<union> set es. market_name y = n \<and> market_ownership y = Owner_Admin"
    and "m \<in> set (foldl (\<lambda>ms e. claim_marketplace e ms) ms es)" "market_name m = n"
  shows "market_ownership m = Owner_Admin"
  using assms
proof (induction es arbitrary: ms)
  case Nil
  then obtain y where "y \<in> set ms" "market_name y = market_name m" "market_ownership y = Owner_Admin" by auto
  then show ?case using Nil by (metis distinct_map foldl_Nil inj_onD)
next
  case (Cons e es)
  let ?ms = "claim_marketplace e ms"
  have "\<exists>y \<in> set ?ms \<union> set es. market_name y = n \<and> market_ownership y = Owner_Admin"
  proof (cases "\<exists>y \<in> set es. market_name y = n \<and> market_ownership y = Owner_Admin")
    case False
    then obtain y where y: "y = e \<or> y \<in> set ms" "market_name y = n" "market_ownership y = Owner_Admin" using Cons.prems(2) by auto
    then have "n \<in> market_name ` set ?ms" by (auto simp: claim_names)
    then obtain z where z: "z \<in> set ?ms" "market_name z = n" by auto
    have "market_ownership z = Owner_Admin"
    proof (cases "n = market_name e")
      case True
      then show ?thesis using claim_admin [OF Cons.prems(1) z(1)] z(2) y by auto
    next
      case False
      then have "z \<in> set ms" "y \<in> set ms" using claim_keeps [OF z(1)] z(2) y by auto
      then show ?thesis using Cons.prems(1) y z(2) by (metis distinct_map inj_onD)
    qed
    then show ?thesis using z by auto
  qed auto
  then show ?case using Cons.IH [of ?ms] Cons.prems claim_distinct [OF Cons.prems(1)] by simp
qed

section \<open>Denied hosts\<close>

text \<open>C29: A deny entry for a host covers the host. When an entry names a host, without wildcards and without a path, it is accepted as
  enforceable and it matches every address whose host is that one, whatever its scheme, user, port, path and query,
  and every address that the parser rejects.\<close>

theorem host_deny_covers_host:
  assumes "literal_globs U" "split_host_path pat = (Some h, path)"
    and "collapse_empty_segments (canonicalize_pattern_path path) \<in> {[], ''/''}"
    and "\<not> has_glob_char h" "is_ascii_str h" "CHR ''%'' \<notin> set h"
    and "case runtime_url_parse U url of Some r \<Rightarrow> host_text r = h | None \<Rightarrow> True"
  shows "deny_url_matches U (deny_url_matcher_new U pat) url \<and> \<not> unmatchable_deny_url U pat"
proof -
  have h: "canonicalize_pattern_host U h = h"
    using split_host_canonical [OF assms(2)] assms(5,6) by (simp add: canonicalize_pattern_host_def)
  obtain g where g: "url_glob_new U h = Some g" "\<And>t. g False t \<longleftrightarrow> eq_ignore_ascii_case h t"
    using assms(1,4) by (auto simp: literal_globs_def)
  have p: "deny_path_new U (collapse_empty_segments (canonicalize_pattern_path path)) = DenyPath_HostOnly"
    using assms(3) by (auto simp: deny_path_new_def)
  have "deny_url_matches U (deny_url_matcher_new U pat) url"
    using assms(7) by (auto simp: deny_url_matches_def deny_url_matcher_new_def assms(2) h p g eq_ignore_ascii_case_def Let_def
        split: option.splits)
  moreover have "\<not> dead_unicode_glob_label h"
  proof -
    have "\<not> has_glob_char label" if "label \<in> set (split_on (CHR ''.'') h)" for label
    proof -
      have "set label \<subseteq> set h" using that by (rule set_split_on)
      then show ?thesis using assms(4) by (auto simp: has_glob_char_def list_ex_iff)
    qed
    then show ?thesis by (auto simp: dead_unicode_glob_label_def list_ex_iff)
  qed
  ultimately show ?thesis by (simp add: unmatchable_deny_url_def assms(2) h g)
qed

section \<open>Concrete policies\<close>

text \<open>A glob with the two wildcards, and a parser that knows three addresses of one host and one of another.\<close>

fun wild_match :: "string \<Rightarrow> string \<Rightarrow> bool" where
  "wild_match [] txt0 = (txt0 = [])"
| "wild_match (p # ps) txt0 =
     (if p = CHR ''*'' then wild_match ps txt0 \<or> (case txt0 of [] \<Rightarrow> False | c # cs \<Rightarrow> wild_match (p # ps) cs)
      else (case txt0 of [] \<Rightarrow> False | c # cs \<Rightarrow> (p = CHR ''?'' \<or> p = c) \<and> wild_match ps cs))"

definition demo_glob :: "string \<Rightarrow> url_glob option" where
  "demo_glob p = Some (\<lambda>case_sensitive txt0. if case_sensitive then wild_match p txt0
     else wild_match (to_ascii_lowercase p) (to_ascii_lowercase txt0))"

definition demo_address :: "string \<Rightarrow> nat option \<Rightarrow> string \<Rightarrow> parsed_url" where
  "demo_address host port path = \<lparr>p_scheme = ''https'', p_host = Some (Host_Domain host), p_port = port, p_path = path\<rparr>"

definition demo_urls :: url_env where
  "demo_urls = \<lparr>url_parse = map_of [(''https://evil.com/mcp?key=1'', demo_address ''evil.com'' None ''/mcp''),
      (''https://u@EVIL.com:81/x'', demo_address ''evil.com'' (Some 81) ''/x''),
      (''https://good.com/mcp'', demo_address ''good.com'' None ''/mcp'')],
     host_parse = (\<lambda>_. None), url_glob_new = demo_glob\<rparr>"

text \<open>The conversion to JSON of the values that the examples use.\<close>

fun demo_json :: "toml \<Rightarrow> json" where
  "demo_json (Toml_String s) = JString s"
| "demo_json (Toml_Boolean b) = JBool b"
| "demo_json (Toml_Array xs) = JArray (map demo_json xs)"
| "demo_json (Toml_Table kvs) = JObject (map (\<lambda>(k, v). (k, demo_json v)) kvs)"
| "demo_json _ = JNull"

definition demo_policy_env :: policy_env where
  "demo_policy_env = \<lparr>penv_urls = demo_urls, penv_lower = to_ascii_lowercase, penv_json = (\<lambda>tbl. Some (demo_json (Toml_Table tbl)))\<rparr>"

definition server_entry :: "string \<Rightarrow> string \<Rightarrow> toml" where
  "server_entry key value0 = Toml_Table [(key, Toml_String value0)]"

definition list_layer :: "policy_layer_tier \<Rightarrow> string \<Rightarrow> toml list \<Rightarrow> policy_layer" where
  "list_layer tier key es = \<lparr>layer_tier = tier, layer_path = ''/p'', layer_value = Toml_Table [(key, Toml_Array es)]\<rparr>"

abbreviation native_subject :: mcp_subject where
  "native_subject \<equiv> \<lparr>subject_origin = GrokNative, project_scoped = False\<rparr>"

lemma wild_match_literal: "\<not> has_glob_char p \<Longrightarrow> wild_match p txt0 \<longleftrightarrow> txt0 = p"
  by (induction p arbitrary: txt0) (auto simp: has_glob_char_def GLOB_CHARS_def split: list.splits)

lemma lower_glob_char: "ascii_lower c \<in> set GLOB_CHARS \<longleftrightarrow> c \<in> set GLOB_CHARS"
proof -
  have "char_of (code c + 32) \<notin> set GLOB_CHARS" if "65 \<le> code c" "code c \<le> 90"
  proof
    assume "char_of (code c + 32) \<in> set GLOB_CHARS"
    then consider "char_of (code c + 32) = CHR ''*''" | "char_of (code c + 32) = CHR ''?''" | "char_of (code c + 32) = CHR ''[''"
      by (auto simp: GLOB_CHARS_def)
    then have "code (char_of (code c + 32) :: char) \<in> {42, 63, 91}" by cases (simp_all del: of_char_of)
    then show False using that by auto
  qed
  moreover have "c \<notin> set GLOB_CHARS" if "65 \<le> code c" "code c \<le> 90" using that by (auto simp: GLOB_CHARS_def)
  ultimately show ?thesis by (simp add: ascii_lower_def is_ascii_upper_def)
qed

lemma demo_literal_globs: "literal_globs demo_urls"
  by (auto simp: literal_globs_def demo_urls_def demo_glob_def eq_ignore_ascii_case_def wild_match_literal has_glob_char_def
      list_ex_iff to_ascii_lowercase_def lower_glob_char)

theorem host_deny_covers_host_witness:
  "deny_url_matches demo_urls (deny_url_matcher_new demo_urls ''http://evil.com/'') ''https://u@EVIL.com:81/x''"
proof -
  have "split_host_path ''http://evil.com/'' = (Some ''evil.com'', ''/'')" by code_simp
  moreover have "collapse_empty_segments (canonicalize_pattern_path ''/'') \<in> {[], ''/''}" by code_simp
  moreover have "\<not> has_glob_char ''evil.com''" "is_ascii_str ''evil.com''" "CHR ''%'' \<notin> set ''evil.com''" by code_simp+
  moreover have "case runtime_url_parse demo_urls ''https://u@EVIL.com:81/x'' of Some r \<Rightarrow> host_text r = ''evil.com'' | None \<Rightarrow> True"
    by code_simp
  ultimately show ?thesis using host_deny_covers_host [OF demo_literal_globs] by blast
qed

text \<open>The system layer denies a host; the user's layer allows it by name.\<close>

definition user_allows_denied :: "policy_layer list" where
  "user_allows_denied = [list_layer Tier_UserManaged ''allowedMcpServers'' [server_entry ''serverName'' ''tool''],
     list_layer Tier_SystemRequirements ''deniedMcpServers'' [server_entry ''serverUrl'' ''evil.com'']]"

theorem user_layers_only_tighten_witness:
  "mcp_verdict_of demo_policy_env (resolve_managed_settings demo_policy_env None user_allows_denied)
     (Server_Http ''tool'' ''https://u@EVIL.com:81/x'') native_subject \<noteq> Verdict_Allowed"
proof (rule user_layers_only_tighten)
  show "mcp_verdict_of demo_policy_env (resolve_managed_settings demo_policy_env None (admin_layers user_allows_denied))
     (Server_Http ''tool'' ''https://u@EVIL.com:81/x'') native_subject \<noteq> Verdict_Allowed" by code_simp
qed

definition broken_deny :: policy_layer where
  "broken_deny = list_layer Tier_UserRequirements ''denied_mcp_servers'' [server_entry ''serverName'' ''a'', Toml_String ''evil.com'']"


text \<open>The settings file of another vendor advises only: unusable, it blocks a server of that vendor's configuration, and a server
  that was configured for grok stays allowed.\<close>

lemma vendor_file_advises:
  "mcp_verdict_of demo_policy_env (resolve_managed_settings demo_policy_env (Some (JObject [(''deniedMcpServers'', JString ''x'')], ''/v'')) [])
     (Server_Stdio ''b'' ''run'' []) native_subject = Verdict_Allowed"
  "mcp_verdict_of demo_policy_env (resolve_managed_settings demo_policy_env (Some (JObject [(''deniedMcpServers'', JString ''x'')], ''/v'')) [])
     (Server_Stdio ''b'' ''run'' []) \<lparr>subject_origin = Foreign, project_scoped = False\<rparr> \<noteq> Verdict_Allowed"
  by code_simp+

section \<open>A denied address with a query is not denied\<close>

text \<open>An entry that repeats the address of a server with its query is accepted, and the server is still allowed: the
  address at run time is compared without its query, and the question mark of the entry stands for one character.\<close>

lemma query_deny_matches_nothing:
  "mcp_verdict_of demo_policy_env (resolve_managed_settings demo_policy_env None
     [list_layer Tier_Mdm ''deniedMcpServers'' [server_entry ''serverUrl'' ''https://evil.com/mcp?key=1'']])
     (Server_Http ''tool'' ''https://evil.com/mcp?key=1'') native_subject = Verdict_Allowed"
  by code_simp

end
