(* ===== verification/Hook_Events.thy ===== *)
theory Hook_Events
  imports Truncation Json
begin

text \<open>
  The events that hooks observe or gate (\<open>xai-grok-hooks/src/event.rs\<close>): their names and spellings, the kind of
  gate each one is, the payload each one carries, the value a matcher tests, and the document a hook reads.

  The theory shows that the spellings of the events are told apart, and that the document keeps every field it had when
  the second spellings of the keys are added to it.
\<close>

section \<open>Events\<close>

datatype hook_event =
    Event_SessionStart | Event_UserPromptSubmit | Event_PreToolUse | Event_PostToolUse | Event_PostToolUseFailure
  | Event_PermissionDenied | Event_Stop | Event_StopFailure | Event_StopCancelled | Event_Notification
  | Event_SubagentStart | Event_SubagentStop | Event_SubagentEnd | Event_PreCompact | Event_PostCompact | Event_SessionEnd

datatype gate_kind = Gate_Observe | Gate_Tool | Gate_Stop | Gate_PostTool | Gate_Prompt

datatype matcher_policy = Matcher_Ignored | Matcher_Tested

record event_traits =
  et_gate :: gate_kind
  et_matcher :: matcher_policy
  et_hub_forward :: bool

definition ALL_EVENTS :: "hook_event list" where
  "ALL_EVENTS =
     [Event_SessionStart, Event_UserPromptSubmit, Event_PreToolUse, Event_PostToolUse, Event_PostToolUseFailure,
      Event_PermissionDenied, Event_Stop, Event_StopFailure, Event_StopCancelled, Event_Notification,
      Event_SubagentStart, Event_SubagentStop, Event_SubagentEnd, Event_PreCompact, Event_PostCompact, Event_SessionEnd]"

text \<open>The name an event is displayed with; the old spelling of the end of a subagent is displayed as the new one.\<close>

fun event_display :: "hook_event \<Rightarrow> string" where
  "event_display Event_SessionStart = ''session_start''"
| "event_display Event_UserPromptSubmit = ''user_prompt_submit''"
| "event_display Event_PreToolUse = ''pre_tool_use''"
| "event_display Event_PostToolUse = ''post_tool_use''"
| "event_display Event_PostToolUseFailure = ''post_tool_use_failure''"
| "event_display Event_PermissionDenied = ''permission_denied''"
| "event_display Event_Stop = ''stop''"
| "event_display Event_StopFailure = ''stop_failure''"
| "event_display Event_StopCancelled = ''stop_cancelled''"
| "event_display Event_Notification = ''notification''"
| "event_display Event_SubagentStart = ''subagent_start''"
| "event_display Event_SubagentStop = ''subagent_stop''"
| "event_display Event_SubagentEnd = ''subagent_stop''"
| "event_display Event_PreCompact = ''pre_compact''"
| "event_display Event_PostCompact = ''post_compact''"
| "event_display Event_SessionEnd = ''session_end''"

fun event_aliases :: "hook_event \<Rightarrow> string list" where
  "event_aliases Event_SessionStart = [''SessionStart'', ''session_start'', ''sessionStart'']"
| "event_aliases Event_UserPromptSubmit = [''UserPromptSubmit'', ''user_prompt_submit'', ''beforeSubmitPrompt'']"
| "event_aliases Event_PreToolUse =
     [''PreToolUse'', ''pre_tool_use'', ''preToolUse'', ''beforeShellExecution'', ''beforeMCPExecution'', ''beforeReadFile'']"
| "event_aliases Event_PostToolUse =
     [''PostToolUse'', ''post_tool_use'', ''postToolUse'', ''afterShellExecution'', ''afterMCPExecution'', ''afterFileEdit'',
      ''afterAgentResponse'', ''afterAgentThought'']"
| "event_aliases Event_PostToolUseFailure = [''PostToolUseFailure'', ''post_tool_use_failure'', ''postToolUseFailure'']"
| "event_aliases Event_PermissionDenied = [''PermissionDenied'', ''permission_denied'', ''permissionDenied'']"
| "event_aliases Event_Stop = [''Stop'', ''stop'']"
| "event_aliases Event_StopFailure = [''StopFailure'', ''stop_failure'', ''stopFailure'']"
| "event_aliases Event_StopCancelled = [''StopCancelled'', ''stop_cancelled'', ''stopCancelled'']"
| "event_aliases Event_Notification = [''Notification'', ''notification'']"
| "event_aliases Event_SubagentStart = [''SubagentStart'', ''subagent_start'', ''subagentStart'']"
| "event_aliases Event_SubagentStop = [''SubagentStop'', ''subagent_stop'', ''subagentStop'']"
| "event_aliases Event_SubagentEnd = [''SubagentEnd'', ''subagent_end'', ''subagentEnd'']"
| "event_aliases Event_PreCompact = [''PreCompact'', ''pre_compact'', ''preCompact'']"
| "event_aliases Event_PostCompact = [''PostCompact'', ''post_compact'', ''postCompact'']"
| "event_aliases Event_SessionEnd = [''SessionEnd'', ''session_end'', ''sessionEnd'']"

text \<open>The first arm whose spellings contain the key.\<close>

definition parse_key :: "string \<Rightarrow> hook_event option" where
  "parse_key s = find (\<lambda>e. s \<in> set (event_aliases e)) ALL_EVENTS"

definition pascal_case :: "hook_event \<Rightarrow> string" where
  "pascal_case e = hd (event_aliases e)"

definition traits_of :: "gate_kind \<Rightarrow> matcher_policy \<Rightarrow> bool \<Rightarrow> event_traits" where
  "traits_of g m h = \<lparr>et_gate = g, et_matcher = m, et_hub_forward = h\<rparr>"

fun traits :: "hook_event \<Rightarrow> event_traits" where
  "traits Event_UserPromptSubmit = traits_of Gate_Prompt Matcher_Ignored True"
| "traits Event_PreToolUse = traits_of Gate_Tool Matcher_Tested False"
| "traits Event_PostToolUse = traits_of Gate_PostTool Matcher_Tested True"
| "traits Event_Stop = traits_of Gate_Stop Matcher_Ignored True"
| "traits Event_SubagentStop = traits_of Gate_Stop Matcher_Tested True"
| "traits Event_SubagentEnd = traits_of Gate_Stop Matcher_Tested True"
| "traits _ = traits_of Gate_Observe Matcher_Tested True"

fun canonical :: "hook_event \<Rightarrow> hook_event" where
  "canonical Event_SubagentEnd = Event_SubagentStop"
| "canonical other = other"

definition hub_hook_kind :: "hook_event \<Rightarrow> string option" where
  "hub_hook_kind e = (if et_hub_forward (traits e) then Some (''hook.'' @ event_display e) else None)"

text \<open>The derived serialization, which keeps the old spelling apart.\<close>

definition event_serde :: "hook_event \<Rightarrow> string" where
  "event_serde e = (if e = Event_SubagentEnd then ''subagent_end'' else event_display e)"

section \<open>Clipping\<close>

definition MAX_STOP_ENTRY_TEXT_CHARS :: nat where "MAX_STOP_ENTRY_TEXT_CHARS = 1000"
definition MAX_CANCEL_TRIGGER_CHARS :: nat where "MAX_CANCEL_TRIGGER_CHARS = 64"
definition MAX_ASSISTANT_MESSAGE_CHARS :: nat where "MAX_ASSISTANT_MESSAGE_CHARS = 32768"
definition MAX_REASON_CHARS :: nat where "MAX_REASON_CHARS = 256"
definition MAX_HOOK_FEEDBACK_CHARS :: nat where "MAX_HOOK_FEEDBACK_CHARS = 10000"
definition MAX_HOOK_OUTPUT_REPLACEMENT_CHARS :: nat where "MAX_HOOK_OUTPUT_REPLACEMENT_CHARS = 64 * 1024"
definition MAX_PAYLOAD_SIZE :: nat where "MAX_PAYLOAD_SIZE = 128 * 1024"

abbreviation ELLIPSIS :: string where "ELLIPSIS \<equiv> [CHR 0xE2, CHR 0x80, CHR 0xA6]"

definition clip_text :: "string \<Rightarrow> nat \<Rightarrow> string" where
  "clip_text txt0 max_chars =
     (let char_count = length (str_chars txt0)
      in if char_count \<le> max_chars then txt0
         else concat (take max_chars (str_chars txt0)) @ ELLIPSIS @ '' [+'' @ dec_of_nat (char_count - max_chars) @ '' chars]'')"

definition clip_assistant_message :: "string \<Rightarrow> string" where
  "clip_assistant_message txt0 = clip_text txt0 MAX_ASSISTANT_MESSAGE_CHARS"

definition clip_stop_entry_text :: "string \<Rightarrow> string" where
  "clip_stop_entry_text txt0 = clip_text txt0 MAX_STOP_ENTRY_TEXT_CHARS"

definition clip_reason :: "string \<Rightarrow> string" where
  "clip_reason rsn = clip_text rsn MAX_REASON_CHARS"

text \<open>A payload that is too long is replaced by a prefix of its text, cut between characters. The serializer is an
  argument.\<close>

definition truncate_payload :: "(json \<Rightarrow> string) \<Rightarrow> json \<Rightarrow> json \<times> bool" where
  "truncate_payload to_text value =
     (let serialized = to_text value
      in if length serialized \<le> MAX_PAYLOAD_SIZE then (value, False)
         else (JString (take (walk_back serialized MAX_PAYLOAD_SIZE) serialized @ '' [truncated]''), True))"

section \<open>Payloads\<close>

datatype stop_failure_kind =
    Failure_RateLimit | Failure_AuthenticationFailed | Failure_InvalidRequest | Failure_ServerError
  | Failure_MaxOutputTokens | Failure_Unknown

fun stop_failure_text :: "stop_failure_kind \<Rightarrow> string" where
  "stop_failure_text Failure_RateLimit = ''rate_limit''"
| "stop_failure_text Failure_AuthenticationFailed = ''authentication_failed''"
| "stop_failure_text Failure_InvalidRequest = ''invalid_request''"
| "stop_failure_text Failure_ServerError = ''server_error''"
| "stop_failure_text Failure_MaxOutputTokens = ''max_output_tokens''"
| "stop_failure_text Failure_Unknown = ''unknown''"

datatype stop_cancelled_reason =
    Cancel_UserInterrupt | Cancel_PermissionRejected | Cancel_PermissionCancelled | Cancel_MaxTurns
  | Cancel_NoProgress | Cancel_Unknown

fun stop_cancelled_text :: "stop_cancelled_reason \<Rightarrow> string" where
  "stop_cancelled_text Cancel_UserInterrupt = ''user_interrupt''"
| "stop_cancelled_text Cancel_PermissionRejected = ''permission_rejected''"
| "stop_cancelled_text Cancel_PermissionCancelled = ''permission_cancelled''"
| "stop_cancelled_text Cancel_MaxTurns = ''max_turns''"
| "stop_cancelled_text Cancel_NoProgress = ''no_progress''"
| "stop_cancelled_text Cancel_Unknown = ''unknown''"

datatype cancelled_by = By_User | By_Runtime | By_Unknown

fun cancelled_by_text :: "cancelled_by \<Rightarrow> string" where
  "cancelled_by_text By_User = ''user''"
| "cancelled_by_text By_Runtime = ''runtime''"
| "cancelled_by_text By_Unknown = ''unknown''"

fun cancelled_by_of :: "stop_cancelled_reason \<Rightarrow> cancelled_by" where
  "cancelled_by_of Cancel_MaxTurns = By_Runtime"
| "cancelled_by_of Cancel_NoProgress = By_Runtime"
| "cancelled_by_of Cancel_Unknown = By_Unknown"
| "cancelled_by_of _ = By_User"

datatype subagent_stop_phase = Phase_Gate | Phase_Observe

fun phase_text :: "subagent_stop_phase \<Rightarrow> string" where
  "phase_text Phase_Gate = ''gate''"
| "phase_text Phase_Observe = ''observe''"

datatype background_task_type = Task_Shell | Task_Monitor | Task_Subagent

fun task_type_text :: "background_task_type \<Rightarrow> string" where
  "task_type_text Task_Shell = ''shell''"
| "task_type_text Task_Monitor = ''monitor''"
| "task_type_text Task_Subagent = ''subagent''"

record stop_background_task =
  bt_id :: string
  bt_type :: background_task_type
  bt_status :: string
  bt_description :: "string option"
  bt_command :: "string option"
  bt_agent_type :: "string option"

record stop_session_cron =
  cron_id :: string
  cron_schedule :: string
  cron_recurring :: bool
  cron_prompt :: string

record tool_payload =
  tp_tool_name :: string
  tp_tool_use_id :: string
  tp_tool_input :: json
  tp_input_truncated :: bool

datatype hook_payload =
    Payload_SessionStart string "string option" "string option"
  | Payload_SessionEnd string "u64 option" "u64 option" "string option"
  | Payload_Stop string bool "string option" "stop_background_task list option" "stop_session_cron list option"
  | Payload_StopFailure stop_failure_kind "string option" "string option" "string option"
  | Payload_StopCancelled stop_cancelled_reason cancelled_by "string option" "string option" "string option" "string option"
  | Payload_PreToolUse tool_payload "string option"
  | Payload_PostToolUse tool_payload json bool "u64 option" bool "string option"
  | Payload_PostToolUseFailure tool_payload string "u64 option" bool "string option"
  | Payload_PermissionDenied tool_payload
  | Payload_UserPromptSubmit "string option" "string option"
  | Payload_Notification string "string option" "string option" "string option"
  | Payload_SubagentStart string string "string option"
  | Payload_SubagentStop subagent_stop_phase string string "bool option" "string option"
  | Payload_PreCompact string
  | Payload_PostCompact string

fun payload_tool_name :: "hook_payload \<Rightarrow> string option" where
  "payload_tool_name (Payload_PreToolUse t _) = Some (tp_tool_name t)"
| "payload_tool_name (Payload_PostToolUse t _ _ _ _ _) = Some (tp_tool_name t)"
| "payload_tool_name (Payload_PostToolUseFailure t _ _ _ _) = Some (tp_tool_name t)"
| "payload_tool_name (Payload_PermissionDenied t) = Some (tp_tool_name t)"
| "payload_tool_name _ = None"

definition unless_empty :: "string \<Rightarrow> string option" where
  "unless_empty v = (if v = [] then None else Some v)"

text \<open>The value a matcher tests; the two events whose matcher is ignored have none.\<close>

fun match_value :: "hook_payload \<Rightarrow> string option" where
  "match_value (Payload_PreToolUse t _) = unless_empty (tp_tool_name t)"
| "match_value (Payload_PostToolUse t _ _ _ _ _) = unless_empty (tp_tool_name t)"
| "match_value (Payload_PostToolUseFailure t _ _ _ _) = unless_empty (tp_tool_name t)"
| "match_value (Payload_PermissionDenied t) = unless_empty (tp_tool_name t)"
| "match_value (Payload_Notification notification_type _ _ _) = unless_empty notification_type"
| "match_value (Payload_SubagentStart _ subagent_type _) = unless_empty subagent_type"
| "match_value (Payload_SubagentStop _ _ subagent_type _ _) = unless_empty subagent_type"
| "match_value (Payload_SessionStart source _ _) = unless_empty source"
| "match_value (Payload_PreCompact source) = unless_empty source"
| "match_value (Payload_PostCompact source) = unless_empty source"
| "match_value (Payload_SessionEnd rsn _ _ _) = unless_empty rsn"
| "match_value (Payload_StopFailure error _ _ _) = Some (stop_failure_text error)"
| "match_value (Payload_StopCancelled rsn _ _ _ _ _) = Some (stop_cancelled_text rsn)"
| "match_value (Payload_Stop _ _ _ _ _) = None"
| "match_value (Payload_UserPromptSubmit _ _) = None"

section \<open>The document a hook reads\<close>

abbreviation j_u64 :: "u64 \<Rightarrow> json" where "j_u64 w \<equiv> JNumber (uint w)"

definition background_task_json :: "stop_background_task \<Rightarrow> json" where
  "background_task_json t = JObject ([(''id'', JString (bt_id t)), (''type'', JString (task_type_text (bt_type t))),
     (''status'', JString (bt_status t))] @ skip_none ''description'' JString (bt_description t)
     @ skip_none ''command'' JString (bt_command t) @ skip_none ''agentType'' JString (bt_agent_type t))"

definition session_cron_json :: "stop_session_cron \<Rightarrow> json" where
  "session_cron_json c = JObject [(''id'', JString (cron_id c)), (''schedule'', JString (cron_schedule c)),
     (''recurring'', JBool (cron_recurring c)), (''prompt'', JString (cron_prompt c))]"

definition tool_fields :: "tool_payload \<Rightarrow> (string \<times> json) list" where
  "tool_fields t = [(''toolName'', JString (tp_tool_name t)), (''toolUseId'', JString (tp_tool_use_id t)),
     (''toolInput'', tp_tool_input t)]"

abbreviation input_truncated :: "tool_payload \<Rightarrow> string \<times> json" where
  "input_truncated t \<equiv> (''toolInputTruncated'', JBool (tp_input_truncated t))"

fun payload_fields :: "hook_payload \<Rightarrow> (string \<times> json) list" where
  "payload_fields (Payload_SessionStart source model agent) =
     (''source'', JString source) # skip_none ''modelId'' JString model @ skip_none ''agentType'' JString agent"
| "payload_fields (Payload_SessionEnd rsn turns calls sub_type) =
     (''reason'', JString rsn) # skip_none ''turnCount'' j_u64 turns @ skip_none ''toolCallCount'' j_u64 calls
     @ skip_none ''subagentType'' JString sub_type"
| "payload_fields (Payload_Stop rsn active msg tasks crons) =
     [(''reason'', JString rsn), (''stopHookActive'', JBool active)] @ skip_none ''lastAssistantMessage'' JString msg
     @ skip_none ''backgroundTasks'' (\<lambda>ts. JArray (map background_task_json ts)) tasks
     @ skip_none ''sessionCrons'' (\<lambda>cs. JArray (map session_cron_json cs)) crons"
| "payload_fields (Payload_StopFailure error details msg sub_type) =
     (''error'', JString (stop_failure_text error)) # skip_none ''errorDetails'' JString details
     @ skip_none ''lastAssistantMessage'' JString msg @ skip_none ''subagentType'' JString sub_type"
| "payload_fields (Payload_StopCancelled rsn by_whom trigger details msg sub_type) =
     [(''reason'', JString (stop_cancelled_text rsn)), (''cancelledBy'', JString (cancelled_by_text by_whom))]
     @ skip_none ''cancelTrigger'' JString trigger @ skip_none ''reasonDetails'' JString details
     @ skip_none ''lastAssistantMessage'' JString msg @ skip_none ''subagentType'' JString sub_type"
| "payload_fields (Payload_PreToolUse t sub_type) =
     tool_fields t @ [input_truncated t] @ skip_none ''subagentType'' JString sub_type"
| "payload_fields (Payload_PostToolUse t res res_truncated duration backgrounded sub_type) =
     tool_fields t @ [(''toolResult'', res), input_truncated t, (''toolResultTruncated'', JBool res_truncated)]
     @ skip_none ''durationMs'' j_u64 duration @ [(''isBackgrounded'', JBool backgrounded)]
     @ skip_none ''subagentType'' JString sub_type"
| "payload_fields (Payload_PostToolUseFailure t error duration interrupt sub_type) =
     tool_fields t @ [input_truncated t, (''error'', JString error)] @ skip_none ''durationMs'' j_u64 duration
     @ [(''isInterrupt'', JBool interrupt)] @ skip_none ''subagentType'' JString sub_type"
| "payload_fields (Payload_PermissionDenied t) = tool_fields t @ [input_truncated t]"
| "payload_fields (Payload_UserPromptSubmit prompt sub_type) =
     skip_none ''prompt'' JString prompt @ skip_none ''subagentType'' JString sub_type"
| "payload_fields (Payload_Notification notification_type msg title level) =
     (''notificationType'', JString notification_type) # skip_none ''message'' JString msg
     @ skip_none ''title'' JString title @ skip_none ''level'' JString level"
| "payload_fields (Payload_SubagentStart sub_id sub_type description) =
     [(''subagentId'', JString sub_id), (''subagentType'', JString sub_type)] @ skip_none ''description'' JString description"
| "payload_fields (Payload_SubagentStop phase sub_id sub_type active msg) =
     [(''phase'', JString (phase_text phase)), (''subagentId'', JString sub_id), (''subagentType'', JString sub_type)]
     @ skip_none ''stopHookActive'' JBool active @ skip_none ''lastAssistantMessage'' JString msg"
| "payload_fields (Payload_PreCompact source) = [(''source'', JString source)]"
| "payload_fields (Payload_PostCompact source) = [(''source'', JString source)]"

record hook_envelope =
  env_event :: hook_event
  env_session_id :: string
  env_cwd :: string
  env_workspace_root :: string
  env_timestamp :: string
  env_transcript_path :: "string option"
  env_client_identifier :: "string option"
  env_prompt_id :: "string option"
  env_permission_mode :: "string option"
  env_payload :: hook_payload

definition envelope_fields :: "hook_envelope \<Rightarrow> (string \<times> json) list" where
  "envelope_fields e =
     [(''hookEventName'', JString (event_serde (env_event e))), (''sessionId'', JString (env_session_id e)),
      (''cwd'', JString (env_cwd e)), (''workspaceRoot'', JString (env_workspace_root e)),
      (''timestamp'', JString (env_timestamp e))]
     @ skip_none ''transcriptPath'' JString (env_transcript_path e)
     @ skip_none ''clientIdentifier'' JString (env_client_identifier e)
     @ skip_none ''promptId'' JString (env_prompt_id e)
     @ skip_none ''permissionMode'' JString (env_permission_mode e)
     @ payload_fields (env_payload e)"

definition SNAKE_CASE_ALIASES :: "(string \<times> string) list" where
  "SNAKE_CASE_ALIASES =
     [(''hookEventName'', ''hook_event_name''), (''sessionId'', ''session_id''), (''transcriptPath'', ''transcript_path''),
      (''permissionMode'', ''permission_mode''), (''toolName'', ''tool_name''), (''toolInput'', ''tool_input''),
      (''toolResult'', ''tool_response''), (''toolUseId'', ''tool_use_id''), (''durationMs'', ''duration_ms''),
      (''isInterrupt'', ''is_interrupt'')]"

text \<open>\<open>map.entry(snake).or_insert(aliased)\<close>, and \<open>map.insert\<close>, which keeps the position of a key it replaces.\<close>

definition add_alias :: "string \<times> string \<Rightarrow> (string \<times> json) list \<Rightarrow> (string \<times> json) list" where
  "add_alias p kvs = (case map_of kvs (fst p) of
     None \<Rightarrow> kvs
   | Some v \<Rightarrow> if map_of kvs (snd p) = None then kvs @ [(snd p, v)] else kvs)"

definition map_insert :: "string \<Rightarrow> json \<Rightarrow> (string \<times> json) list \<Rightarrow> (string \<times> json) list" where
  "map_insert k v kvs =
     (if map_of kvs k = None then kvs @ [(k, v)] else map (\<lambda>p. if fst p = k then (k, v) else p) kvs)"

definition to_hook_json :: "hook_envelope \<Rightarrow> json" where
  "to_hook_json e = JObject (map_insert ''hook_event_name'' (JString (pascal_case (env_event e)))
     (fold add_alias SNAKE_CASE_ALIASES (envelope_fields e)))"

section \<open>Spellings and documents\<close>

lemma all_events [simp]: "e \<in> set ALL_EVENTS"
  by (cases e) (simp_all add: ALL_EVENTS_def)

text \<open>Every spelling names one event: the spellings of two events have nothing in common.\<close>

lemma spellings_distinct: "list_all (\<lambda>e. list_all (\<lambda>s. parse_key s = Some e) (event_aliases e)) ALL_EVENTS"
  by code_simp

lemma parse_key_alias: "s \<in> set (event_aliases e) \<Longrightarrow> parse_key s = Some e"
  using spellings_distinct all_events [of e] by (auto simp: list_all_iff)

lemma parse_key_Some: "parse_key s = Some e \<longleftrightarrow> s \<in> set (event_aliases e)"
  using parse_key_alias by (auto simp: parse_key_def find_Some_iff)

lemma parse_key_pascal: "parse_key (pascal_case e) = Some e"
  by (rule parse_key_alias) (cases e; simp add: pascal_case_def)

lemma parse_key_serde: "parse_key (event_serde e) = Some e"
  by (rule parse_key_alias) (cases e; simp add: event_serde_def)

lemma canonical_idem [simp]: "canonical (canonical e) = canonical e"
  by (cases e) simp_all

lemma canonical_display: "event_display (canonical e) = event_display e"
  by (cases e) simp_all

lemma canonical_traits: "traits (canonical e) = traits e"
  by (cases e) simp_all

text \<open>The events with a matcher that is ignored are those whose payload has no value to test.\<close>

lemma ignored_matcher_events: "et_matcher (traits e) = Matcher_Ignored \<longleftrightarrow> e = Event_Stop \<or> e = Event_UserPromptSubmit"
  by (cases e) (simp_all add: traits_of_def)

lemma clip_text_short: "length (str_chars s) \<le> n \<Longrightarrow> clip_text s n = s"
  by (simp add: clip_text_def)

lemma clip_text_long:
  assumes "n < length (str_chars s)"
  obtains rest where "s = concat (take n (str_chars s)) @ rest"
    "clip_text s n = concat (take n (str_chars s)) @ ELLIPSIS @ '' [+'' @ dec_of_nat (length (str_chars s) - n) @ '' chars]''"
proof
  show "s = concat (take n (str_chars s)) @ concat (drop n (str_chars s))"
    by (metis append_take_drop_id concat_append concat_str_chars)
qed (use assms in \<open>simp add: clip_text_def\<close>)

lemma map_of_append_None: "map_of (xs @ [(k, v)]) j = (if map_of xs j = None \<and> j = k then Some v else map_of xs j)"
  by (auto simp: map_add_def split: option.splits)

lemma map_of_update: "map_of (map (\<lambda>p. if fst p = k then (k, v) else p) xs) j
    = (if j = k \<and> map_of xs k \<noteq> None then Some v else map_of xs j)"
  by (induction xs) (auto split: if_splits)

lemma map_of_map_insert: "map_of (map_insert k v xs) j = (if j = k then Some v else map_of xs j)"
  by (simp only: map_insert_def map_of_append_None map_of_update split: if_split) auto

lemma map_of_add_alias:
  "map_of (add_alias p xs) j = (if map_of xs j = None \<and> j = snd p then map_of xs (fst p) else map_of xs j)"
  by (auto simp: add_alias_def map_of_append_None simp del: map_of_append split: option.splits)

lemma fold_alias_keeps: "map_of xs j = Some v \<Longrightarrow> map_of (fold add_alias ps xs) j = Some v"
  by (induction ps arbitrary: xs) (simp_all add: map_of_add_alias)

lemma fold_alias_other: "j \<notin> snd ` set ps \<Longrightarrow> map_of (fold add_alias ps xs) j = map_of xs j"
  by (induction ps arbitrary: xs) (simp_all add: map_of_add_alias)

text \<open>Where the second spellings are distinct, are not first spellings and are not used already, each one gets the
  value of its first spelling.\<close>

lemma fold_alias_at:
  assumes "(camel, snake) \<in> set ps" "distinct (map snd ps)" "fst ` set ps \<inter> snd ` set ps = {}"
    "map_of xs snake = None"
  shows "map_of (fold add_alias ps xs) snake = map_of xs camel"
  using assms
proof (induction ps arbitrary: xs)
  case (Cons p ps)
  show ?case
  proof (cases "p = (camel, snake)")
    case True
    then have "snake \<notin> snd ` set ps" using Cons.prems(2) by auto
    then show ?thesis using True Cons.prems by (simp add: fold_alias_other map_of_add_alias)
  next
    case False
    then have mem: "(camel, snake) \<in> set ps" using Cons.prems(1) by simp
    then have "snake \<noteq> snd p" "camel \<noteq> snd p" using Cons.prems by (force simp: image_iff)+
    then have "map_of (add_alias p xs) snake = None" "map_of (add_alias p xs) camel = map_of xs camel"
      using Cons.prems(4) by (simp_all add: map_of_add_alias)
    moreover have "map_of (fold add_alias ps (add_alias p xs)) snake = map_of (add_alias p xs) camel"
      using Cons.prems calculation(1) mem by (intro Cons.IH) auto
    ultimately show ?thesis by simp
  qed
qed simp

text \<open>The keys of the event have no underscore, which every second spelling has.\<close>

definition plain_keys :: "(string \<times> json) list \<Rightarrow> bool" where
  "plain_keys kvs \<longleftrightarrow> (\<forall>p \<in> set kvs. CHR ''_'' \<notin> set (fst p))"

lemma plain_keys_simps [simp]:
  "plain_keys []" "plain_keys (p # kvs) \<longleftrightarrow> CHR ''_'' \<notin> set (fst p) \<and> plain_keys kvs"
  "plain_keys (kvs @ kvs') \<longleftrightarrow> plain_keys kvs \<and> plain_keys kvs'"
  by (auto simp: plain_keys_def)

lemma plain_keys_skip_none [simp]: "CHR ''_'' \<notin> set k \<Longrightarrow> plain_keys (skip_none k f v)"
  by (simp add: skip_none_def split: option.split)

lemma plain_payload: "plain_keys (payload_fields p)"
  by (cases p) (simp_all add: tool_fields_def)

lemma no_snake_key:
  assumes "snake \<in> snd ` set SNAKE_CASE_ALIASES"
  shows "map_of (envelope_fields e) snake = None"
proof -
  have "CHR ''_'' \<in> set snake" using assms by (auto simp: SNAKE_CASE_ALIASES_def)
  moreover have "plain_keys (envelope_fields e)" by (simp add: envelope_fields_def plain_payload)
  ultimately show ?thesis by (auto simp: plain_keys_def map_of_eq_None_iff)
qed

text \<open>Of the document a hook reads: every field of the event is there under its own key, and every second spelling has
  the value of the first, but for the name of the event, which is given in the spelling of the settings files.\<close>

theorem hook_document_fields:
  shows "obj_get (to_hook_json e) ''hook_event_name'' = Some (JString (pascal_case (env_event e)))"
    and "map_of (envelope_fields e) k = Some v \<Longrightarrow> obj_get (to_hook_json e) k = Some v"
    and "(camel, snake) \<in> set SNAKE_CASE_ALIASES \<Longrightarrow> snake \<noteq> ''hook_event_name''
         \<Longrightarrow> obj_get (to_hook_json e) snake = map_of (envelope_fields e) camel"
proof -
  show "obj_get (to_hook_json e) ''hook_event_name'' = Some (JString (pascal_case (env_event e)))"
    by (simp add: to_hook_json_def map_of_map_insert)
  have none: "map_of (envelope_fields e) ''hook_event_name'' = None"
    by (rule no_snake_key) (simp add: SNAKE_CASE_ALIASES_def)
  show "map_of (envelope_fields e) k = Some v \<Longrightarrow> obj_get (to_hook_json e) k = Some v"
    using none by (auto simp: to_hook_json_def map_of_map_insert fold_alias_keeps)
  have "distinct (map snd SNAKE_CASE_ALIASES)" "fst ` set SNAKE_CASE_ALIASES \<inter> snd ` set SNAKE_CASE_ALIASES = {}"
    by (simp_all add: SNAKE_CASE_ALIASES_def)
  then show "(camel, snake) \<in> set SNAKE_CASE_ALIASES \<Longrightarrow> snake \<noteq> ''hook_event_name''
      \<Longrightarrow> obj_get (to_hook_json e) snake = map_of (envelope_fields e) camel"
    by (auto simp: to_hook_json_def map_of_map_insert intro!: fold_alias_at no_snake_key image_eqI)
qed

end
