(* ===== verification/Hook_Registry.thy ===== *)
theory Hook_Registry
  imports Hook_Events "HOL-Library.Char_ord" "HOL-Library.List_Lexorder"
begin

text \<open>
  Hooks as they are configured (\<open>xai-grok-hooks/src/matcher.rs\<close>, \<open>config.rs\<close>, \<open>discovery.rs\<close>, \<open>trust.rs\<close>, and the
  table of tool names of \<open>xai-grok-tools/src/types/claude_alias.rs\<close>): the matcher of a hook, the specification of a
  hook and its provenance, the registry and its removal of duplicates, the file of disabled hooks, and the reading of
  the settings that define hooks.

  The regular expressions, the expansion of environment variables by the library and the messages of the parsers are
  fields of an environment. The theory shows what a simple pattern matches; that of identical hooks the copy of the
  highest authority is kept, so that a hook of the administrator is neither shadowed nor disabled; and what
  disabling and enabling a hook do to the file.
\<close>

section \<open>Tool names of other settings\<close>

text \<open>A row: the name in the settings of the other program, and the tools here. The kind of tool a row resolves to is not
  used by hooks.\<close>

definition CLAUDE_TOOLS :: "(string \<times> string list) list" where
  "CLAUDE_TOOLS =
     [(''Read'', [''read_file'', ''hashline_read'']), (''Write'', [''write'', ''search_replace'', ''hashline_edit'']),
      (''Edit'', [''search_replace'', ''hashline_edit'']), (''MultiEdit'', [''search_replace'', ''hashline_edit'']),
      (''NotebookEdit'', [''search_replace'', ''hashline_edit'']), (''Bash'', [''run_terminal_command'']),
      (''PowerShell'', []), (''Grep'', [''grep'', ''hashline_grep'']), (''Glob'', [''list_dir'']), (''LS'', []),
      (''LSP'', [''lsp'']), (''WebSearch'', [''web_search'']), (''WebFetch'', [''web_fetch'']), (''DeployApp'', []),
      (''TodoWrite'', [''todo_write'']), (''AskUserQuestion'', [''ask_user_question'']),
      (''TaskOutput'', [''get_command_or_subagent_output'', ''get_terminal_command_output'']),
      (''BashOutput'', [''get_command_or_subagent_output'', ''get_terminal_command_output'']),
      (''BashOutputTool'', [''get_command_or_subagent_output'', ''get_terminal_command_output'']),
      (''AgentOutputTool'', [''get_command_or_subagent_output'', ''get_terminal_command_output'']),
      (''TaskStop'', [''kill_command_or_subagent'', ''kill_terminal_command'']),
      (''KillShell'', [''kill_command_or_subagent'', ''kill_terminal_command'']),
      (''KillBash'', [''kill_command_or_subagent'', ''kill_terminal_command'']),
      (''Skill'', [''skill'']), (''ToolSearch'', [''search_tool'']), (''Agent'', [''spawn_subagent'']),
      (''Task'', [''spawn_subagent'']), (''EnterPlanMode'', [''enter_plan_mode'']), (''ExitPlanMode'', [''exit_plan_mode'']),
      (''CronCreate'', [''scheduler_create'']), (''CronDelete'', [''scheduler_delete'']), (''CronList'', [''scheduler_list'']),
      (''ListMcpResourcesTool'', [''ListMcpResources''])]"

definition grok_names_for :: "string \<Rightarrow> string list" where
  "grok_names_for claude = (case find (\<lambda>t. fst t = claude) CLAUDE_TOOLS of Some t \<Rightarrow> snd t | None \<Rightarrow> [])"

definition claude_names_for :: "string \<Rightarrow> string list" where
  "claude_names_for grok_name = map fst (filter (\<lambda>t. grok_name \<in> set (snd t)) CLAUDE_TOOLS)"

section \<open>Matchers\<close>

datatype matcher_kind = Matcher_All | Matcher_Never | Matcher_Exact "string list" | Matcher_Regex string

text \<open>What the hooks use of libraries and of their surroundings: whether a text is a regular expression and whether one
  matches somewhere in a text, the variables of the process, the expansion of the library with its lookup, the text that
  marks what the expansion must leave alone, the value of a text and the messages of the parsers,
  and the document of a text with its fields as they are written.\<close>

record hook_env =
  rx_valid :: "string \<Rightarrow> bool"
  rx_match :: "string \<Rightarrow> string \<Rightarrow> bool"
  process_var :: "string \<Rightarrow> string option"
  shellexpand :: "string \<Rightarrow> (string \<Rightarrow> string option) \<Rightarrow> string"
  mask_sentinel :: string
  json_parse :: "string \<Rightarrow> string + json"
  json_document :: "string \<Rightarrow> json option"
  decode_error :: "json \<Rightarrow> string"

definition is_simple_form :: "string \<Rightarrow> bool" where
  "is_simple_form pattern \<longleftrightarrow> pattern \<noteq> []
     \<and> list_all (\<lambda>b. is_ascii_alphanumeric b \<or> b = CHR ''_'' \<or> b = CHR ''|'') pattern"

definition push_name :: "string \<Rightarrow> string list \<Rightarrow> string list" where
  "push_name name names = (if name \<noteq> [] \<and> name \<notin> set names then names @ [name] else names)"

definition exact_names :: "string \<Rightarrow> string list" where
  "exact_names pattern = fold (\<lambda>term names. fold push_name (term # grok_names_for term) names) (split_on (CHR ''|'') pattern) []"

definition matcher_new :: "hook_env \<Rightarrow> string \<Rightarrow> matcher_kind option" where
  "matcher_new H pattern =
     (if pattern = [] \<or> pattern = ''*'' then Some Matcher_All
      else if is_simple_form pattern then Some (Matcher_Exact (exact_names pattern))
      else if rx_valid H pattern then Some (Matcher_Regex pattern) else None)"

fun is_match :: "hook_env \<Rightarrow> matcher_kind \<Rightarrow> string \<Rightarrow> bool" where
  "is_match H Matcher_All tool_name = True"
| "is_match H Matcher_Never tool_name = False"
| "is_match H (Matcher_Exact names) tool_name = (tool_name \<in> set names)"
| "is_match H (Matcher_Regex regex) tool_name =
     (rx_match H regex tool_name \<or> list_ex (rx_match H regex) (claude_names_for tool_name))"

definition matcher_allows :: "hook_env \<Rightarrow> matcher_kind option \<Rightarrow> string option \<Rightarrow> bool" where
  "matcher_allows H m v = (case (m, v) of (Some k, Some value) \<Rightarrow> is_match H k value | _ \<Rightarrow> True)"

section \<open>Specifications\<close>

datatype hook_provenance =
    Prov_SystemManaged | Prov_Managed | Prov_Requirements | Prov_UserRequirements | Prov_User | Prov_File
  | Prov_Plugin | Prov_Unknown

fun is_managed_policy :: "hook_provenance \<Rightarrow> bool" where
  "is_managed_policy Prov_SystemManaged = True"
| "is_managed_policy Prov_Requirements = True"
| "is_managed_policy _ = False"

fun authority_rank :: "hook_provenance \<Rightarrow> nat" where
  "authority_rank Prov_SystemManaged = 6"
| "authority_rank Prov_Requirements = 5"
| "authority_rank Prov_Managed = 4"
| "authority_rank Prov_UserRequirements = 3"
| "authority_rank Prov_User = 2"
| "authority_rank Prov_File = 1"
| "authority_rank Prov_Plugin = 1"
| "authority_rank Prov_Unknown = 0"

definition provenance_from_str :: "string \<Rightarrow> hook_provenance" where
  "provenance_from_str s =
     (if s = ''system_managed'' then Prov_SystemManaged else if s = ''managed'' then Prov_Managed
      else if s = ''requirements'' then Prov_Requirements else if s = ''user_requirements'' then Prov_UserRequirements
      else if s = ''user'' then Prov_User else if s = ''file'' then Prov_File
      else if s = ''plugin'' then Prov_Plugin else Prov_Unknown)"

datatype handler_type = Handler_Command | Handler_Http

definition handler_from_str :: "string \<Rightarrow> handler_type option" where
  "handler_from_str s =
     (if s = ''command'' then Some Handler_Command else if s = ''http'' then Some Handler_Http else None)"

record hook_spec =
  spec_name :: string
  spec_event :: hook_event
  spec_handler :: handler_type
  spec_configured :: "string option"
  spec_matcher :: "matcher_kind option"
  spec_enabled :: bool
  spec_command :: "string option"
  spec_command_raw :: "string option"
  spec_url :: "string option"
  spec_url_raw :: "string option"
  spec_timeout_ms :: u64
  spec_source_dir :: string
  spec_extra_env :: "(string \<times> string) list"
  spec_layer :: hook_provenance

definition RUNNER_ALWAYS_SET_ENV :: "string list" where
  "RUNNER_ALWAYS_SET_ENV =
     [''GROK_HOOK_EVENT'', ''GROK_HOOK_NAME'', ''GROK_SESSION_ID'', ''GROK_WORKSPACE_ROOT'', ''CLAUDE_PROJECT_DIR'']"

definition GLOBAL_HOOK_PREFIX :: string where "GLOBAL_HOOK_PREFIX = ''global/''"
definition PROJECT_HOOK_PREFIX :: string where "PROJECT_HOOK_PREFIX = ''project/''"
definition PLUGIN_HOOK_PREFIX :: string where "PLUGIN_HOOK_PREFIX = ''plugin/''"
definition AGENT_HOOK_PREFIX :: string where "AGENT_HOOK_PREFIX = ''agent:''"

datatype hook_origin =
    Origin_SystemManaged | Origin_Managed | Origin_Requirements | Origin_UserConfig | Origin_UserFile
  | Origin_ProjectFile | Origin_Plugin | Origin_Agent | Origin_Unknown

definition hook_origin_of :: "hook_spec \<Rightarrow> hook_origin" where
  "hook_origin_of s = (case spec_layer s of
     Prov_SystemManaged \<Rightarrow> Origin_SystemManaged
   | Prov_Managed \<Rightarrow> Origin_Managed
   | Prov_Requirements \<Rightarrow> Origin_Requirements
   | Prov_UserRequirements \<Rightarrow> Origin_Requirements
   | Prov_User \<Rightarrow> Origin_UserConfig
   | Prov_Plugin \<Rightarrow> Origin_Plugin
   | Prov_Unknown \<Rightarrow> Origin_Unknown
   | Prov_File \<Rightarrow>
       if starts_with (spec_name s) GLOBAL_HOOK_PREFIX then Origin_UserFile
       else if starts_with (spec_name s) PROJECT_HOOK_PREFIX then Origin_ProjectFile
       else if starts_with (spec_name s) AGENT_HOOK_PREFIX then Origin_Agent
       else if starts_with (spec_name s) PLUGIN_HOOK_PREFIX then Origin_Plugin
       else Origin_Unknown)"

text \<open>The name of a hook as the user reads it: without the path of the entry that defined it.\<close>

datatype hook_display_name = Display_Named string | Display_Tier string

text \<open>\<open>str::split_once\<close> with a text; the first argument bounds the search by the length.\<close>

fun split_at_sub :: "string \<Rightarrow> string \<Rightarrow> string \<Rightarrow> (string \<times> string) option" where
  "split_at_sub sep before [] = (if sep = [] then Some (before, []) else None)"
| "split_at_sub sep before (c # cs) = (case strip_prefix sep (c # cs) of
     Some after \<Rightarrow> Some (before, after)
   | None \<Rightarrow> split_at_sub sep (before @ [c]) cs)"

definition is_index :: "string \<Rightarrow> bool" where
  "is_index s \<longleftrightarrow> s \<noteq> [] \<and> list_all is_ascii_digit s"

definition is_spec_path :: "string \<Rightarrow> bool" where
  "is_spec_path tail = (case split_once (CHR ''['') tail of
     None \<Rightarrow> False
   | Some (event, indices) \<Rightarrow> (case split_at_sub ''].hooks['' [] indices of
       None \<Rightarrow> False
     | Some (event_idx, rest) \<Rightarrow> (case strip_suffix '']'' rest of
         None \<Rightarrow> False
       | Some hook_idx \<Rightarrow> event \<noteq> [] \<and> list_all (\<lambda>b. is_ascii_lower b \<or> b = CHR ''_'') event
           \<and> is_index event_idx \<and> is_index hook_idx)))"

definition strip_spec_path :: "string \<Rightarrow> string" where
  "strip_spec_path qualified = (case rsplit_once (CHR '':'') qualified of
     Some (source, tail) \<Rightarrow> if source \<noteq> [] \<and> is_spec_path tail then source else qualified
   | None \<Rightarrow> qualified)"

definition hook_display_label :: "string \<Rightarrow> hook_display_name" where
  "hook_display_label qualified =
     (let source = strip_spec_path qualified
      in if source = ''user'' \<or> source = ''requirements/user'' then Display_Tier ''a user hook''
         else if source = ''managed'' then Display_Tier ''a managed hook''
         else if source = ''system_managed'' \<or> source = ''requirements/system'' then Display_Tier ''a managed policy hook''
         else Display_Named source)"

fun display_text :: "hook_display_name \<Rightarrow> string" where
  "display_text (Display_Named name) = name"
| "display_text (Display_Tier copy) = copy"

definition hook_display_name :: "string \<Rightarrow> string" where
  "hook_display_name qualified = display_text (hook_display_label qualified)"

section \<open>The registry\<close>

text \<open>The lists of an event; an event with no entry has none.\<close>

type_synonym hook_registry = "hook_event \<Rightarrow> hook_spec list"

definition empty_registry :: hook_registry where
  "empty_registry = (\<lambda>_. [])"

definition hooks_for :: "hook_registry \<Rightarrow> hook_event \<Rightarrow> hook_spec list" where
  "hooks_for R e = R e"

definition hooks_for_canonical :: "hook_registry \<Rightarrow> hook_event \<Rightarrow> hook_spec list" where
  "hooks_for_canonical R e =
     hooks_for R (canonical e) @ (if canonical e = Event_SubagentStop then hooks_for R Event_SubagentEnd else [])"

text \<open>The one rule for a hook the user disabled.\<close>

definition is_disabled :: "hook_spec \<Rightarrow> string list \<Rightarrow> bool" where
  "is_disabled s disabled \<longleftrightarrow> (\<not> spec_enabled s \<or> spec_name s \<in> set disabled) \<and> \<not> is_managed_policy (spec_layer s)"

definition has_enabled_hooks_for_canonical :: "hook_registry \<Rightarrow> hook_event \<Rightarrow> string list \<Rightarrow> bool" where
  "has_enabled_hooks_for_canonical R e disabled =
     (let enabled = list_ex (\<lambda>s. \<not> is_disabled s disabled)
      in enabled (hooks_for R (canonical e))
         \<or> (canonical e = Event_SubagentStop \<and> enabled (hooks_for R Event_SubagentEnd)))"

definition all_hooks :: "hook_registry \<Rightarrow> hook_spec list" where
  "all_hooks R = concat (map (hooks_for R) ALL_EVENTS)"

definition registry_is_empty :: "hook_registry \<Rightarrow> bool" where
  "registry_is_empty R = list_all (\<lambda>e. R e = []) ALL_EVENTS"

definition registry_len :: "hook_registry \<Rightarrow> nat" where
  "registry_len R = sum_list (map (\<lambda>e. length (R e)) ALL_EVENTS)"

definition push_spec :: "hook_spec \<Rightarrow> hook_registry \<Rightarrow> hook_registry" where
  "push_spec s R = R(spec_event s := R (spec_event s) @ [s])"

definition append_specs :: "hook_registry \<Rightarrow> hook_spec list \<Rightarrow> hook_registry" where
  "append_specs R specs = fold push_spec specs R"

text \<open>The list in the order of the events, which covers every event.\<close>

definition into_specs :: "hook_registry \<Rightarrow> hook_spec list" where
  "into_specs R = all_hooks R"

definition remove_by_prefix :: "hook_registry \<Rightarrow> string \<Rightarrow> hook_registry" where
  "remove_by_prefix R pre = (\<lambda>e. filter (\<lambda>s. \<not> starts_with (spec_name s) pre) (R e))"

text \<open>The first specification of a name, in the order in which the table gives its events.\<close>

definition find_by_name :: "hook_event list \<Rightarrow> hook_registry \<Rightarrow> string \<Rightarrow> hook_spec option" where
  "find_by_name order R name = find (\<lambda>s. spec_name s = name) (concat (map R order))"

definition recompile_spec :: "hook_env \<Rightarrow> hook_spec \<Rightarrow> hook_spec" where
  "recompile_spec H s = (case spec_configured s of
     None \<Rightarrow> s
   | Some pattern \<Rightarrow> s\<lparr>spec_matcher := Some (case matcher_new H pattern of Some m \<Rightarrow> m | None \<Rightarrow> Matcher_Never)\<rparr>)"

definition recompile_matchers :: "hook_env \<Rightarrow> hook_registry \<Rightarrow> hook_registry" where
  "recompile_matchers H R = (\<lambda>e. map (recompile_spec H) (R e))"

section \<open>Duplicates\<close>

type_synonym spec_key = "hook_event \<times> string \<times> string \<times> string"

definition or_default :: "string option \<Rightarrow> string" where
  "or_default v = (case v of Some s \<Rightarrow> s | None \<Rightarrow> [])"

definition content_key :: "hook_spec \<Rightarrow> spec_key" where
  "content_key s = (canonical (spec_event s), or_default (spec_command_raw s), or_default (spec_url_raw s),
     or_default (spec_configured s))"

abbreviation spec_rank :: "hook_spec \<Rightarrow> nat" where "spec_rank s \<equiv> authority_rank (spec_layer s)"

type_synonym dedup_state = "hook_registry \<times> (spec_key \<times> hook_event \<times> nat) list"

definition dedup_step :: "hook_spec \<Rightarrow> dedup_state \<Rightarrow> dedup_state" where
  "dedup_step s st = (case st of (hooks, seen) \<Rightarrow>
     (case map_of seen (content_key s) of
        None \<Rightarrow> (push_spec s hooks, (content_key s, spec_event s, length (hooks (spec_event s))) # seen)
      | Some (kept_event, kept_idx) \<Rightarrow>
          if kept_idx < length (hooks kept_event) \<and> spec_rank s > spec_rank (hooks kept_event ! kept_idx)
          then (hooks(kept_event := (hooks kept_event)[kept_idx := s\<lparr>spec_event := kept_event\<rparr>]), seen)
          else (hooks, seen)))"

definition registry_from_specs_deduped :: "hook_spec list \<Rightarrow> hook_registry" where
  "registry_from_specs_deduped specs = fst (fold dedup_step specs (empty_registry, []))"

section \<open>The file of disabled hooks\<close>

text \<open>The file: absent, unreadable, or its text.\<close>

datatype disk_file = Disk_Missing | Disk_Unreadable string | Disk_Text string

definition entry_line :: "string \<Rightarrow> bool" where
  "entry_line l \<longleftrightarrow> trim l \<noteq> [] \<and> \<not> starts_with (trim l) ''#''"

definition entry_names :: "string \<Rightarrow> string list" where
  "entry_names content = filter (\<lambda>l. l \<noteq> [] \<and> \<not> starts_with l ''#'') (map trim (lines content))"

definition list_trusted_projects_with_file :: "disk_file \<Rightarrow> string + string list" where
  "list_trusted_projects_with_file f = (case f of
     Disk_Text content \<Rightarrow> Inr (entry_names content)
   | Disk_Missing \<Rightarrow> Inr []
   | Disk_Unreadable e \<Rightarrow> Inl e)"

definition load_disabled :: "disk_file \<Rightarrow> string list" where
  "load_disabled f = (case f of Disk_Text content \<Rightarrow> entry_names content | _ \<Rightarrow> [])"

definition names_hook :: "string \<Rightarrow> string \<Rightarrow> bool" where
  "names_hook name l \<longleftrightarrow> entry_line l \<and> trim l = name"

definition is_hook_disabled_with_file :: "string \<Rightarrow> disk_file \<Rightarrow> bool" where
  "is_hook_disabled_with_file name f = (case f of Disk_Text content \<Rightarrow> list_ex (names_hook name) (lines content) | _ \<Rightarrow> False)"

definition hook_disabled_for_display_with :: "hook_spec \<Rightarrow> string list \<Rightarrow> bool" where
  "hook_disabled_for_display_with s disabled \<longleftrightarrow>
     \<not> is_managed_policy (spec_layer s) \<and> (\<not> spec_enabled s \<or> spec_name s \<in> set disabled)"

definition file_append :: "string \<Rightarrow> disk_file \<Rightarrow> disk_file" where
  "file_append t f = (case f of Disk_Missing \<Rightarrow> Disk_Text t | Disk_Text s \<Rightarrow> Disk_Text (s @ t) | Disk_Unreadable e \<Rightarrow> Disk_Unreadable e)"

text \<open>The second argument is the error of opening the file for writing, if it fails; a file that is open is written in
  full.\<close>

definition disable_hook_with_file :: "string \<Rightarrow> string option \<Rightarrow> disk_file \<Rightarrow> (string + unit) \<times> disk_file" where
  "disable_hook_with_file name open_error f =
     (if is_hook_disabled_with_file name f then (Inr (), f)
      else case open_error of
        Some e \<Rightarrow> (Inl (''failed to open disabled-hooks file: '' @ e), f)
      | None \<Rightarrow> (Inr (), file_append (name @ [NL]) f))"

definition enable_hook_with_file :: "string \<Rightarrow> string option \<Rightarrow> disk_file \<Rightarrow> (string + bool) \<times> disk_file" where
  "enable_hook_with_file name open_error f = (case f of
     Disk_Missing \<Rightarrow> (Inr False, f)
   | Disk_Unreadable e \<Rightarrow> (Inl (''failed to read disabled-hooks file: '' @ e), f)
   | Disk_Text content \<Rightarrow>
       (let new_lines = filter (\<lambda>l. \<not> names_hook name l) (lines content)
        in if \<not> list_ex (names_hook name) (lines content) then (Inr False, f)
           else case open_error of
             Some e \<Rightarrow> (Inl (''failed to open disabled-hooks file: '' @ e), f)
           | None \<Rightarrow> (Inr True, Disk_Text (concat (map (\<lambda>l. l @ [NL]) new_lines)))))"

section \<open>References to environment variables\<close>

record env_var_ref =
  ref_start :: nat
  ref_end :: nat
  ref_name :: string
  ref_braced :: bool
  ref_modifier :: bool

definition ident_byte :: "char \<Rightarrow> bool" where
  "ident_byte b \<longleftrightarrow> is_ascii_alphanumeric b \<or> b = CHR ''_''"

lemma dropWhile_shorter [simp]: "length (dropWhile P xs) \<le> length xs"
  by (induction xs) auto

text \<open>The loop of the iterator: the position and the text from it on. A brace without an end is skipped, as is a dollar
  sign before any other byte, together with that byte.\<close>

function refs_from :: "nat \<Rightarrow> string \<Rightarrow> env_var_ref list" where
  "refs_from pos [] = []"
| "refs_from pos (c # cs) =
     (if c \<noteq> CHR ''$'' then refs_from (pos + 1) cs
      else case cs of
        [] \<Rightarrow> []
      | d # ds \<Rightarrow>
          if d = CHR ''{'' then
            (let name = takeWhile ident_byte ds; after = dropWhile ident_byte ds;
                 modifier = takeWhile (\<lambda>b. b \<noteq> CHR ''}'') after; rest = dropWhile (\<lambda>b. b \<noteq> CHR ''}'') after
             in if rest = [] then refs_from (pos + 1) cs
                else \<lparr>ref_start = pos, ref_end = pos + 2 + length name + length modifier + 1, ref_name = name,
                      ref_braced = True, ref_modifier = name \<noteq> [] \<and> modifier \<noteq> []\<rparr>
                  # refs_from (pos + 2 + length name + length modifier + 1) (tl rest))
          else if is_ascii_alphabetic d \<or> d = CHR ''_'' then
            (let name = takeWhile ident_byte cs
             in \<lparr>ref_start = pos, ref_end = pos + 1 + length name, ref_name = name, ref_braced = False, ref_modifier = False\<rparr>
               # refs_from (pos + 1 + length name) (dropWhile ident_byte cs))
          else refs_from (pos + 2) ds)"
  by pat_completeness auto

termination
proof (relation "measure (\<lambda>(pos, s). length s)", goal_cases)
  case (4 pos c cs d ds x xa xb xc)
  then show ?case
    by (simp add: less_Suc_eq_le) (meson diff_le_self dropWhile_shorter le_SucI le_trans)
qed (auto simp: less_Suc_eq_le intro: le_trans [OF dropWhile_shorter])

definition iter_env_var_references :: "string \<Rightarrow> env_var_ref list" where
  "iter_env_var_references s = refs_from 0 s"

text \<open>The text between two references is copied; a braced reference with a modifier loses its opening to the mark.\<close>

fun mask_from :: "string \<Rightarrow> string \<Rightarrow> nat \<Rightarrow> env_var_ref list \<Rightarrow> string" where
  "mask_from input sentinel cursor [] = drop cursor input"
| "mask_from input sentinel cursor (r # rs) =
     take (ref_start r - cursor) (drop cursor input)
     @ (if ref_braced r \<and> ref_modifier r then sentinel @ take (ref_end r - (ref_start r + 2)) (drop (ref_start r + 2) input)
        else take (ref_end r - ref_start r) (drop (ref_start r) input))
     @ mask_from input sentinel (ref_end r) rs"

definition mask_modifier_forms :: "string \<Rightarrow> string \<Rightarrow> string" where
  "mask_modifier_forms input sentinel = mask_from input sentinel 0 (iter_env_var_references input)"

definition expand_env_vars_with_process_skip :: "hook_env \<Rightarrow> string \<Rightarrow> (string \<times> string) list \<Rightarrow> string list \<Rightarrow> string" where
  "expand_env_vars_with_process_skip H input extra skip =
     (let lookup = (\<lambda>name. case map_of extra name of
            Some v \<Rightarrow> Some v
          | None \<Rightarrow> if name \<in> set skip then None else process_var H name);
          expanded = shellexpand H (mask_modifier_forms input (mask_sentinel H)) lookup
      in if contains_sub expanded (mask_sentinel H) then replace (mask_sentinel H) ''${'' expanded else expanded)"

definition expand_env_vars_with_extra :: "hook_env \<Rightarrow> string \<Rightarrow> (string \<times> string) list \<Rightarrow> string" where
  "expand_env_vars_with_extra H input extra = expand_env_vars_with_process_skip H input extra []"

definition expand_env_skipping_runner_vars :: "hook_env \<Rightarrow> string \<Rightarrow> string" where
  "expand_env_skipping_runner_vars H input = expand_env_vars_with_process_skip H input [] RUNNER_ALWAYS_SET_ENV"

section \<open>Settings\<close>

text \<open>A struct is read from an object, or from an array of its fields in order, of which those with a default may be
  missing at the end.\<close>

definition struct_fields :: "(string \<times> bool) list \<Rightarrow> json \<Rightarrow> (string \<times> json) list option" where
  "struct_fields names j = (case j of
     JObject kvs \<Rightarrow> Some kvs
   | JArray xs \<Rightarrow> if length xs \<le> length names \<and> list_all snd (drop (length xs) names)
                 then Some (zip (map fst names) xs) else None
   | _ \<Rightarrow> None)"

text \<open>A field of a struct; a document that names it twice is refused.\<close>

definition field_of :: "(string \<times> json) list \<Rightarrow> string \<Rightarrow> json option option" where
  "field_of kvs k = (case filter (\<lambda>p. fst p = k) kvs of [] \<Rightarrow> Some None | [p] \<Rightarrow> Some (Some (snd p)) | _ \<Rightarrow> None)"

definition read_field :: "(json option \<Rightarrow> 'a option) \<Rightarrow> (string \<times> json) list \<Rightarrow> string \<Rightarrow> 'a option" where
  "read_field f kvs k = Option.bind (field_of kvs k) f"

record raw_handler =
  raw_type :: string
  raw_command :: "string option"
  raw_url :: "string option"
  raw_timeout :: "u64 option"
  raw_env :: "(string \<times> string) list"

record matcher_group =
  group_matcher :: "string option"
  group_hooks :: "raw_handler list"

definition as_string_map :: "json \<Rightarrow> (string \<times> string) list option" where
  "as_string_map j = (case j of
     JObject kvs \<Rightarrow> those (map (\<lambda>(k, v). map_option (Pair k) (as_str v)) kvs)
   | _ \<Rightarrow> None)"

definition raw_handler_of :: "json \<Rightarrow> raw_handler option" where
  "raw_handler_of j =
     Option.bind (struct_fields [(''type'', False), (''command'', False), (''url'', False), (''timeout'', False), (''env'', True)] j) (\<lambda>kvs.
     Option.bind (read_field (required as_str) kvs ''type'') (\<lambda>ty.
     Option.bind (read_field (optional as_str) kvs ''command'') (\<lambda>cmd.
     Option.bind (read_field (optional as_str) kvs ''url'') (\<lambda>url.
     Option.bind (read_field (optional as_unsigned) kvs ''timeout'') (\<lambda>timeout.
     Option.bind (read_field (optional as_string_map) kvs ''env'') (\<lambda>env.
       Some \<lparr>raw_type = ty, raw_command = cmd, raw_url = url, raw_timeout = timeout,
             raw_env = (case env of Some e \<Rightarrow> e | None \<Rightarrow> [])\<rparr>))))))"

definition matcher_group_of :: "json \<Rightarrow> matcher_group option" where
  "matcher_group_of j =
     Option.bind (struct_fields [(''matcher'', True), (''hooks'', False)] j) (\<lambda>kvs.
     Option.bind (read_field (optional as_str) kvs ''matcher'') (\<lambda>m.
     Option.bind (read_field (required (as_list raw_handler_of)) kvs ''hooks'') (\<lambda>hs.
       Some \<lparr>group_matcher = m, group_hooks = hs\<rparr>)))"

record hooks_map =
  map_events :: "hook_event \<Rightarrow> matcher_group list"
  map_skipped :: "string list"

datatype group_error_policy = Policy_Fail | Policy_SkipEvent

text \<open>The entries in the order in which the table gives them, which is not the order of the document.\<close>

fun assemble :: "('v \<Rightarrow> string + matcher_group list) \<Rightarrow> group_error_policy \<Rightarrow> (string \<times> 'v) list \<Rightarrow> hooks_map \<Rightarrow> string + hooks_map" where
  "assemble parse_groups policy [] m = Inr m"
| "assemble parse_groups policy ((key, val) # entries) m =
     (case parse_key key of
        None \<Rightarrow> assemble parse_groups policy entries (m\<lparr>map_skipped := map_skipped m @ [key]\<rparr>)
      | Some event \<Rightarrow> (case parse_groups val of
          Inr groups \<Rightarrow> assemble parse_groups policy entries
             (m\<lparr>map_events := (map_events m)(event := map_events m event @ groups)\<rparr>)
        | Inl detail \<Rightarrow> (case policy of
            Policy_Fail \<Rightarrow> Inl (''invalid matcher groups for event '' @ [CHR 0x27] @ key @ [CHR 0x27] @ '': '' @ detail)
          | Policy_SkipEvent \<Rightarrow> assemble parse_groups policy entries (m\<lparr>map_skipped := map_skipped m @ [key]\<rparr>))))"

definition empty_hooks_map :: hooks_map where
  "empty_hooks_map = \<lparr>map_events = (\<lambda>_. []), map_skipped = []\<rparr>"

text \<open>The first argument is the order of the table.\<close>

definition hooks_map_from_value :: "((string \<times> json) list \<Rightarrow> (string \<times> json) list) \<Rightarrow> hook_env \<Rightarrow> json \<Rightarrow> string + hooks_map" where
  "hooks_map_from_value order H value = (case value of
     JObject kvs \<Rightarrow> assemble (\<lambda>v. case as_list matcher_group_of v of Some gs \<Rightarrow> Inr gs | None \<Rightarrow> Inl (decode_error H v))
                    Policy_Fail (order kvs) empty_hooks_map
   | _ \<Rightarrow> Inl (''invalid hooks structure: '' @ decode_error H value))"

datatype hook_error =
    Error_ReadFile string string
  | Error_ParseFile string string
  | Error_InvalidMatcher string string string
  | Error_Timeout string u64
  | Error_CommandFailed string string
  | Error_InvalidOutput string string
  | Error_CommandNotFound string string
  | Error_InvalidConfig string string string
  | Error_UnsupportedHandlerType string string string

definition DEFAULT_TIMEOUT_MS :: u64 where "DEFAULT_TIMEOUT_MS = 5 * 1000"
definition DEFAULT_VERIFICATION_GATE_TIMEOUT_MS :: u64 where "DEFAULT_VERIFICATION_GATE_TIMEOUT_MS = 600 * 1000"
definition DEFAULT_PROMPT_GATE_TIMEOUT_MS :: u64 where "DEFAULT_PROMPT_GATE_TIMEOUT_MS = 30 * 1000"
definition SESSION_END_HOOK_BUDGET_DEFAULT_MS :: u64 where "SESSION_END_HOOK_BUDGET_DEFAULT_MS = 1500"
definition SESSION_END_HOOK_BUDGET_MAX_MS :: u64 where "SESSION_END_HOOK_BUDGET_MAX_MS = 60000"

definition resolve_session_end_default :: "string option \<Rightarrow> u64" where
  "resolve_session_end_default value = (case value of
     None \<Rightarrow> SESSION_END_HOOK_BUDGET_DEFAULT_MS
   | Some v \<Rightarrow> (case parse_unsigned (2 ^ 64 - 1) (trim v) of
       Some ms \<Rightarrow> if ms > 0 then min (of_nat ms) SESSION_END_HOOK_BUDGET_MAX_MS else SESSION_END_HOOK_BUDGET_DEFAULT_MS
     | None \<Rightarrow> SESSION_END_HOOK_BUDGET_DEFAULT_MS))"

definition session_end_default_timeout_ms :: "hook_env \<Rightarrow> u64" where
  "session_end_default_timeout_ms H = resolve_session_end_default (process_var H ''GROK_SESSION_END_HOOKS_TIMEOUT_MS'')"

definition default_timeout_ms :: "hook_env \<Rightarrow> hook_event \<Rightarrow> u64" where
  "default_timeout_ms H event =
     (if event = Event_SessionEnd then session_end_default_timeout_ms H
      else case et_gate (traits event) of
        Gate_Stop \<Rightarrow> DEFAULT_VERIFICATION_GATE_TIMEOUT_MS
      | Gate_PostTool \<Rightarrow> DEFAULT_VERIFICATION_GATE_TIMEOUT_MS
      | Gate_Prompt \<Rightarrow> DEFAULT_PROMPT_GATE_TIMEOUT_MS
      | _ \<Rightarrow> DEFAULT_TIMEOUT_MS)"

record spec_context =
  ctx_name_prefix :: string
  ctx_source_dir :: string
  ctx_error_path :: string
  ctx_provenance :: hook_provenance

definition resolve_group_matcher ::
  "hook_env \<Rightarrow> string option \<Rightarrow> hook_event \<Rightarrow> string \<Rightarrow> spec_context \<Rightarrow> hook_error + string option \<times> matcher_kind option" where
  "resolve_group_matcher H group_m event label ctx =
     (let configured = (case group_m of Some s \<Rightarrow> if s = [] then None else Some s | None \<Rightarrow> None)
      in if configured \<noteq> None \<and> et_matcher (traits event) = Matcher_Ignored then Inr (configured, None)
         else case configured of
           None \<Rightarrow> Inr (None, None)
         | Some pattern \<Rightarrow> (case matcher_new H pattern of
             Some m \<Rightarrow> Inr (configured, Some m)
           | None \<Rightarrow> Inl (Error_InvalidMatcher label (ctx_error_path ctx) pattern)))"

definition strip_reserved_env_keys :: "(string \<times> string) list \<Rightarrow> (string \<times> string) list" where
  "strip_reserved_env_keys env = filter (\<lambda>p. fst p \<notin> set RUNNER_ALWAYS_SET_ENV) env"

definition spec_timeout_of :: "hook_env \<Rightarrow> u64 option \<Rightarrow> hook_event \<Rightarrow> u64" where
  "spec_timeout_of H timeout event =
     (if timeout = None \<or> timeout = Some 0 then default_timeout_ms H event
      else let ms = saturating_mul (the timeout) 1000
           in if event = Event_SessionEnd then min ms SESSION_END_HOOK_BUDGET_MAX_MS else ms)"

definition build_one_spec ::
  "hook_env \<Rightarrow> raw_handler \<Rightarrow> hook_event \<Rightarrow> string \<Rightarrow> string option \<Rightarrow> matcher_kind option \<Rightarrow> spec_context \<Rightarrow> hook_error + hook_spec" where
  "build_one_spec H handler event name configured compiled ctx =
     (let extra = strip_reserved_env_keys (raw_env handler);
          expand = (\<lambda>t. expand_env_vars_with_process_skip H t extra RUNNER_ALWAYS_SET_ENV);
          spec = (\<lambda>ty cmd cmd_raw url url_raw.
            \<lparr>spec_name = name, spec_event = event, spec_handler = ty, spec_configured = configured, spec_matcher = compiled,
             spec_enabled = True, spec_command = cmd, spec_command_raw = cmd_raw, spec_url = url, spec_url_raw = url_raw,
             spec_timeout_ms = spec_timeout_of H (raw_timeout handler) event, spec_source_dir = ctx_source_dir ctx,
             spec_extra_env = extra, spec_layer = ctx_provenance ctx\<rparr>)
      in case handler_from_str (raw_type handler) of
           None \<Rightarrow> Inl (Error_UnsupportedHandlerType name (ctx_error_path ctx) (raw_type handler))
         | Some Handler_Command \<Rightarrow> (case raw_command handler of
             None \<Rightarrow> Inl (Error_InvalidConfig name (ctx_error_path ctx)
                       (''command handler requires a '' @ [CHR 0x27] @ ''command'' @ [CHR 0x27] @ '' field''))
           | Some command \<Rightarrow> Inr (spec Handler_Command (Some (expand command)) (Some command) None None))
         | Some Handler_Http \<Rightarrow> (case raw_url handler of
             None \<Rightarrow> Inl (Error_InvalidConfig name (ctx_error_path ctx)
                       (''http handler requires a '' @ [CHR 0x27] @ ''url'' @ [CHR 0x27] @ '' field''))
           | Some url \<Rightarrow> Inr (spec Handler_Http None None (Some (expand url)) (Some url))))"

definition group_label :: "string \<Rightarrow> hook_event \<Rightarrow> nat \<Rightarrow> string" where
  "group_label name_prefix event group_idx = name_prefix @ '':'' @ event_display event @ ''['' @ dec_of_nat group_idx @ '']''"

definition hook_label :: "string \<Rightarrow> nat \<Rightarrow> string" where
  "hook_label label hook_idx = label @ ''.hooks['' @ dec_of_nat hook_idx @ '']''"

definition build_group ::
  "hook_env \<Rightarrow> spec_context \<Rightarrow> hook_event \<Rightarrow> nat \<times> matcher_group \<Rightarrow> (hook_error + hook_spec) list" where
  "build_group H ctx event p = (case p of (group_idx, grp) \<Rightarrow>
     (let label = group_label (ctx_name_prefix ctx) event group_idx
      in case resolve_group_matcher H (group_matcher grp) event label ctx of
           Inl e \<Rightarrow> [Inl e]
         | Inr (configured, compiled) \<Rightarrow>
             map (\<lambda>(hook_idx, handler). build_one_spec H handler event (hook_label label hook_idx) configured compiled ctx)
               (List.enumerate 0 (group_hooks grp))))"

definition specs_of :: "(hook_error + hook_spec) list \<Rightarrow> hook_spec list" where
  "specs_of rs = filter_map (\<lambda>r. case r of Inr s \<Rightarrow> Some s | Inl _ \<Rightarrow> None) rs"

definition errors_of :: "(hook_error + hook_spec) list \<Rightarrow> hook_error list" where
  "errors_of rs = filter_map (\<lambda>r. case r of Inl e \<Rightarrow> Some e | Inr _ \<Rightarrow> None) rs"

definition built :: "hook_env \<Rightarrow> hooks_map \<Rightarrow> spec_context \<Rightarrow> (hook_error + hook_spec) list" where
  "built H m ctx = concat (map (\<lambda>event. concat (map (build_group H ctx event) (List.enumerate 0 (map_events m event)))) ALL_EVENTS)"

definition build_specs :: "hook_env \<Rightarrow> hooks_map \<Rightarrow> spec_context \<Rightarrow> hook_spec list \<times> hook_error list" where
  "build_specs H m ctx = (specs_of (built H m ctx), errors_of (built H m ctx))"

text \<open>\<open>Path::file_stem\<close>: the last component without its last extension.\<close>

definition file_stem :: "string \<Rightarrow> string option" where
  "file_stem p =
     (let name = rev (takeWhile (\<lambda>c. c \<noteq> CHR ''/'') (skip_seps_rev (rev p)))
      in if name = [] \<or> name = ''..'' \<or> name = ''.'' then None
         else case rsplit_once (CHR ''.'') name of
           Some (before, _) \<Rightarrow> Some (if before = [] then name else before)
         | None \<Rightarrow> Some name)"

definition stem_or_unknown :: "string \<Rightarrow> string" where
  "stem_or_unknown p = (case file_stem p of Some s \<Rightarrow> s | None \<Rightarrow> ''unknown'')"

type_synonym table_order = "(string \<times> json) list \<Rightarrow> (string \<times> json) list"

definition parse_hooks_from_value_with_dir ::
  "table_order \<Rightarrow> hook_env \<Rightarrow> json \<Rightarrow> string \<Rightarrow> string \<Rightarrow> hook_spec list \<times> hook_error list" where
  "parse_hooks_from_value_with_dir order H hooks source_name source_dir = (case hooks_map_from_value order H hooks of
     Inl detail \<Rightarrow> ([], [Error_ParseFile source_name detail])
   | Inr m \<Rightarrow> build_specs H m \<lparr>ctx_name_prefix = stem_or_unknown source_name, ctx_source_dir = source_dir,
               ctx_error_path = source_name, ctx_provenance = Prov_File\<rparr>)"

definition parse_hooks_from_value :: "table_order \<Rightarrow> hook_env \<Rightarrow> json \<Rightarrow> string \<Rightarrow> hook_spec list \<times> hook_error list" where
  "parse_hooks_from_value order H hooks source_name = parse_hooks_from_value_with_dir order H hooks source_name ''.''"

definition parse_hook_file :: "table_order \<Rightarrow> hook_env \<Rightarrow> string \<Rightarrow> string \<Rightarrow> hook_spec list \<times> hook_error list" where
  "parse_hook_file order H content path = (case json_parse H content of
     Inl detail \<Rightarrow> ([], [Error_ParseFile path detail])
   | Inr top_level \<Rightarrow> (case obj_get top_level ''hooks'' of
       None \<Rightarrow> ([], [])
     | Some value \<Rightarrow> (case hooks_map_from_value order H value of
         Inl detail \<Rightarrow> ([], [Error_ParseFile path detail])
       | Inr m \<Rightarrow> build_specs H m \<lparr>ctx_name_prefix = stem_or_unknown path,
                   ctx_source_dir = (case path_parent path of Some d \<Rightarrow> d | None \<Rightarrow> ''.''),
                   ctx_error_path = path, ctx_provenance = Prov_File\<rparr>)))"

text \<open>A layer of the configuration; the values of its format and their reading are parameters.\<close>

record 't hook_config_layer =
  hl_provenance :: hook_provenance
  hl_source_name :: string
  hl_path :: string
  hl_hooks :: 't

record 't toml_lib =
  toml_entries :: "'t \<Rightarrow> string + (string \<times> 't) list"
  toml_groups :: "'t \<Rightarrow> string + matcher_group list"

definition hooks_map_from_toml_value :: "'t toml_lib \<Rightarrow> 't \<Rightarrow> string + hooks_map" where
  "hooks_map_from_toml_value T value = (case toml_entries T value of
     Inl e \<Rightarrow> Inl (''invalid hooks structure: '' @ e)
   | Inr entries \<Rightarrow> assemble (toml_groups T) Policy_SkipEvent entries empty_hooks_map)"

definition parse_config_layer ::
  "'t toml_lib \<Rightarrow> hook_env \<Rightarrow> string option \<Rightarrow> 't hook_config_layer \<Rightarrow> hook_spec list \<times> hook_error list" where
  "parse_config_layer T H home layer = (case hooks_map_from_toml_value T (hl_hooks layer) of
     Inl detail \<Rightarrow> ([], [Error_ParseFile (hl_path layer) detail])
   | Inr m \<Rightarrow> build_specs H m \<lparr>ctx_name_prefix = hl_source_name layer,
       ctx_source_dir = (case path_parent (hl_path layer) of
          Some d \<Rightarrow> if d \<noteq> [] then d else (case home of Some h \<Rightarrow> h | None \<Rightarrow> ''.'')
        | None \<Rightarrow> (case home of Some h \<Rightarrow> h | None \<Rightarrow> ''.'')),
       ctx_error_path = hl_path layer, ctx_provenance = hl_provenance layer\<rparr>)"

definition collect :: "(hook_spec list \<times> hook_error list) list \<Rightarrow> hook_spec list \<times> hook_error list" where
  "collect rs = (concat (map fst rs), concat (map snd rs))"

definition parse_hooks_from_config_layers ::
  "'t toml_lib \<Rightarrow> hook_env \<Rightarrow> string option \<Rightarrow> 't hook_config_layer list \<Rightarrow> hook_spec list \<times> hook_error list" where
  "parse_hooks_from_config_layers T H home layers = collect (map (parse_config_layer T H home) layers)"

section \<open>Sources\<close>

text \<open>The layers, of the highest precedence first. The reading of a file up to its table of hooks is an argument: it is
  absent when the file is, cannot be read, or has no such table.\<close>

definition hook_config_layers_at :: "(string \<Rightarrow> 't option) \<Rightarrow> string option \<Rightarrow> string option \<Rightarrow> 't hook_config_layer list" where
  "hook_config_layers_at read_hooks system_dir user_home =
     filter_map (\<lambda>(dir, filename, provenance, source_name). case dir of
         None \<Rightarrow> None
       | Some d \<Rightarrow> map_option (\<lambda>hooks. \<lparr>hl_provenance = provenance, hl_source_name = source_name,
                     hl_path = path_join d filename, hl_hooks = hooks\<rparr>) (read_hooks (path_join d filename)))
       [(system_dir, ''requirements.toml'', Prov_Requirements, ''requirements/system''),
        (user_home, ''requirements.toml'', Prov_UserRequirements, ''requirements/user''),
        (user_home, ''config.toml'', Prov_User, ''user''),
        (user_home, ''managed_config.toml'', Prov_Managed, ''managed''),
        (system_dir, ''managed_config.toml'', Prov_SystemManaged, ''system_managed'')]"

datatype hook_source = Source_SettingsFile string | Source_Directory string

text \<open>The files: the text of one, the entries of a directory, each with its error where the listing has one, and what is
  a plain file or a directory.\<close>

record hook_fs =
  hf_read :: "string \<Rightarrow> disk_file"
  hf_dir :: "string \<Rightarrow> (string + (string + string) list) option"
  hf_is_file :: "string \<Rightarrow> bool"
  hf_is_dir :: "string \<Rightarrow> bool"

definition is_direct_hook_json_name :: "string \<Rightarrow> bool" where
  "is_direct_hook_json_name name \<longleftrightarrow>
     ends_with name ''.json'' \<and> length name > 5 \<and> \<not> starts_with name ''.''
     \<and> \<not> (ends_with name ''~'' \<or> ends_with name ''.swp'' \<or> ends_with name ''.swo'')"

definition load_hooks_from_settings_file :: "table_order \<Rightarrow> hook_env \<Rightarrow> hook_fs \<Rightarrow> string \<Rightarrow> hook_spec list \<times> hook_error list" where
  "load_hooks_from_settings_file order H F path = (case hf_read F path of
     Disk_Missing \<Rightarrow> ([], [])
   | Disk_Unreadable e \<Rightarrow> ([], [Error_ReadFile path e])
   | Disk_Text content \<Rightarrow> parse_hook_file order H content path)"

text \<open>In a directory, the absence of a file that was listed is an error too.\<close>

definition load_listed_file :: "table_order \<Rightarrow> hook_env \<Rightarrow> hook_fs \<Rightarrow> string \<Rightarrow> hook_spec list \<times> hook_error list" where
  "load_listed_file order H F path = (case hf_read F path of
     Disk_Missing \<Rightarrow> ([], [Error_ReadFile path ''not found''])
   | Disk_Unreadable e \<Rightarrow> ([], [Error_ReadFile path e])
   | Disk_Text content \<Rightarrow> parse_hook_file order H content path)"

definition listed_json_files :: "hook_fs \<Rightarrow> string \<Rightarrow> (string + string) list \<Rightarrow> string list" where
  "listed_json_files F dir entries =
     map (path_join dir) (sort (filter (\<lambda>name. is_direct_hook_json_name name \<and> hf_is_file F (path_join dir name))
       (filter_map (\<lambda>r. case r of Inr name \<Rightarrow> Some name | Inl _ \<Rightarrow> None) entries)))"

definition load_hooks_from_directory :: "table_order \<Rightarrow> hook_env \<Rightarrow> hook_fs \<Rightarrow> string \<Rightarrow> hook_spec list \<times> hook_error list" where
  "load_hooks_from_directory order H F dir = (case hf_dir F dir of
     None \<Rightarrow> ([], [])
   | Some (Inl e) \<Rightarrow> ([], [Error_ReadFile dir e])
   | Some (Inr entries) \<Rightarrow>
       collect (([], filter_map (\<lambda>r. case r of Inl e \<Rightarrow> Some (Error_ReadFile dir e) | Inr _ \<Rightarrow> None) entries)
                # map (load_listed_file order H F) (listed_json_files F dir entries)))"

fun load_from_source :: "table_order \<Rightarrow> hook_env \<Rightarrow> hook_fs \<Rightarrow> hook_source \<Rightarrow> hook_spec list \<times> hook_error list" where
  "load_from_source order H F (Source_SettingsFile path) = load_hooks_from_settings_file order H F path"
| "load_from_source order H F (Source_Directory dir) = load_hooks_from_directory order H F dir"

definition prefixed :: "string \<Rightarrow> hook_spec list \<times> hook_error list \<Rightarrow> hook_spec list \<times> hook_error list" where
  "prefixed pre r = (map (\<lambda>s. s\<lparr>spec_name := pre @ spec_name s\<rparr>) (fst r), snd r)"

definition collect_specs_from_sources ::
  "table_order \<Rightarrow> hook_env \<Rightarrow> hook_fs \<Rightarrow> hook_source list \<Rightarrow> hook_source list \<Rightarrow> hook_spec list \<times> hook_error list" where
  "collect_specs_from_sources order H F global project =
     collect (map (\<lambda>s. prefixed GLOBAL_HOOK_PREFIX (load_from_source order H F s)) global
              @ map (\<lambda>s. prefixed PROJECT_HOOK_PREFIX (load_from_source order H F s)) project)"

definition load_hooks_from_sources ::
  "table_order \<Rightarrow> hook_env \<Rightarrow> hook_fs \<Rightarrow> hook_source list \<Rightarrow> hook_source list \<Rightarrow> hook_registry \<times> hook_error list" where
  "load_hooks_from_sources order H F global project =
     (case collect_specs_from_sources order H F global project of (specs, errors) \<Rightarrow> (registry_from_specs_deduped specs, errors))"

text \<open>The sources of a session: those of the program, which another part of the configuration resolves, and those of the
  two other programs whose settings are read.\<close>

record hook_source_paths =
  source_global :: "hook_source list"
  source_project :: "hook_source list"

definition classify_grok_hook_source :: "hook_fs \<Rightarrow> string \<Rightarrow> hook_source" where
  "classify_grok_hook_source F path = (if hf_is_dir F path then Source_Directory path else Source_SettingsFile path)"

definition claude_sources :: "string \<Rightarrow> hook_source list" where
  "claude_sources root =
     [Source_SettingsFile (path_join (path_join root ''.claude'') ''settings.json''),
      Source_SettingsFile (path_join (path_join root ''.claude'') ''settings.local.json'')]"

definition cursor_sources :: "string \<Rightarrow> hook_source list" where
  "cursor_sources root = [Source_SettingsFile (path_join (path_join root ''.cursor'') ''hooks.json'')]"

definition discover_hook_source_paths ::
  "hook_fs \<Rightarrow> string list \<Rightarrow> string option \<Rightarrow> string option \<Rightarrow> bool \<Rightarrow> bool \<Rightarrow> hook_source_paths" where
  "discover_hook_source_paths F grok_paths home git_root include_claude include_cursor =
     \<lparr>source_global = map (classify_grok_hook_source F) grok_paths
        @ (case home of None \<Rightarrow> [] | Some h \<Rightarrow>
             (if include_claude then claude_sources h else []) @ (if include_cursor then cursor_sources h else [])),
      source_project = (case git_root of None \<Rightarrow> [] | Some root \<Rightarrow>
             (if include_claude then claude_sources root else [])
             @ [classify_grok_hook_source F (path_join (path_join root ''.grok'') ''hooks'')]
             @ (if include_cursor then cursor_sources root else []))\<rparr>"

definition as_sources :: "hook_source_paths \<Rightarrow> bool \<Rightarrow> hook_source list \<times> hook_source list" where
  "as_sources p include_project = (source_global p, if include_project then source_project p else [])"

definition assemble_hooks ::
  "'t toml_lib \<Rightarrow> table_order \<Rightarrow> hook_env \<Rightarrow> hook_fs \<Rightarrow> string option \<Rightarrow> 't hook_config_layer list \<Rightarrow> hook_source_paths \<Rightarrow> bool
   \<Rightarrow> hook_registry \<times> hook_error list" where
  "assemble_hooks T order H F home layers paths trusted =
     (case parse_hooks_from_config_layers T H home layers of (specs, errors) \<Rightarrow>
      case as_sources paths trusted of (global, project) \<Rightarrow>
      case collect_specs_from_sources order H F global project of (file_specs, file_errors) \<Rightarrow>
        (registry_from_specs_deduped (specs @ file_specs), errors @ file_errors))"

section \<open>What a pattern matches\<close>

lemma set_push_name: "set (push_name n ns) = set ns \<union> {m. m = n \<and> m \<noteq> []}"
  by (auto simp: push_name_def)

lemma set_fold_push: "set (fold push_name ns acc) = set acc \<union> {m \<in> set ns. m \<noteq> []}"
  by (induction ns arbitrary: acc) (auto simp: set_push_name)

lemma set_fold_terms:
  "set (fold (\<lambda>term names. fold push_name (term # grok_names_for term) names) ts acc)
   = set acc \<union> {m. m \<noteq> [] \<and> (\<exists>t \<in> set ts. m = t \<or> m \<in> set (grok_names_for t))}"
  by (induction ts arbitrary: acc) (auto simp: set_fold_push set_push_name)

lemma set_exact_names:
  "set (exact_names pattern) = {m. m \<noteq> [] \<and> (\<exists>t \<in> set (split_on (CHR ''|'') pattern). m = t \<or> m \<in> set (grok_names_for t))}"
  unfolding exact_names_def by (subst set_fold_terms) simp

text \<open>A pattern of names matches a tool exactly when one of its terms is the name of the tool, or a name that other
  settings have for it; it never matches a part of a name.\<close>

lemma simple_pattern_matches:
  assumes "is_simple_form pattern" "tool \<noteq> []"
  obtains m where "matcher_new H pattern = Some m"
    "is_match H m tool \<longleftrightarrow> (\<exists>t \<in> set (split_on (CHR ''|'') pattern). tool = t \<or> tool \<in> set (grok_names_for t))"
proof -
  have "pattern \<noteq> []" "pattern \<noteq> ''*''" using assms(1) by (auto simp: is_simple_form_def is_ascii_alphanumeric_def
      is_ascii_alphabetic_def is_ascii_digit_def is_ascii_upper_def is_ascii_lower_def)
  with assms that show ?thesis by (simp add: matcher_new_def set_exact_names)
qed

lemma find_hit: "find P xs = Some x \<Longrightarrow> x \<in> set xs \<and> P x"
  by (auto simp: find_Some_iff)

lemma alias_rows_distinct: "distinct (map fst CLAUDE_TOOLS)"
  by (simp add: CLAUDE_TOOLS_def)

text \<open>The two directions of the table agree.\<close>

lemma alias_directions: "g \<in> set (grok_names_for c) \<longleftrightarrow> c \<in> set (claude_names_for g)"
proof
  assume "g \<in> set (grok_names_for c)"
  then obtain t where t: "find (\<lambda>t. fst t = c) CLAUDE_TOOLS = Some t" "g \<in> set (snd t)"
    by (cases "find (\<lambda>t. fst t = c) CLAUDE_TOOLS") (simp_all add: grok_names_for_def)
  then show "c \<in> set (claude_names_for g)" using find_hit [OF t(1)] by (cases t) (auto simp: claude_names_for_def image_iff)
next
  assume "c \<in> set (claude_names_for g)"
  then obtain t where t: "t \<in> set CLAUDE_TOOLS" "fst t = c" "g \<in> set (snd t)" by (auto simp: claude_names_for_def)
  then have "find (\<lambda>t. fst t = c) CLAUDE_TOOLS \<noteq> None" unfolding find_None_iff by blast
  then obtain u where u: "find (\<lambda>t. fst t = c) CLAUDE_TOOLS = Some u" by blast
  then have "u \<in> set CLAUDE_TOOLS" "fst u = c" using find_hit by fastforce+
  then have "u = t" using t alias_rows_distinct inj_onD [OF distinct_map [THEN iffD1, THEN conjunct2], of fst CLAUDE_TOOLS u t] by simp
  then show "g \<in> set (grok_names_for c)" using t u by (simp add: grok_names_for_def)
qed

lemma matcher_allows_None [simp]: "matcher_allows H None v" "matcher_allows H m None"
  by (simp_all add: matcher_allows_def split: option.splits)

section \<open>Duplicates keep the highest authority\<close>

lemma managed_rank: "is_managed_policy p \<longleftrightarrow> authority_rank p \<ge> 5"
  by (cases p) simp_all

text \<open>The table of what was seen points at the kept hooks and knows every one of them; a kept hook is one of those
  handled so far, under the event it is kept for; and every hook handled so far has a kept copy of at least its
  authority.\<close>

definition seen_sound :: "dedup_state \<Rightarrow> bool" where
  "seen_sound st \<longleftrightarrow> (\<forall>k e i. map_of (snd st) k = Some (e, i) \<longrightarrow> i < length (fst st e) \<and> content_key (fst st e ! i) = k)"

definition seen_complete :: "dedup_state \<Rightarrow> bool" where
  "seen_complete st \<longleftrightarrow> (\<forall>e i. i < length (fst st e) \<longrightarrow> map_of (snd st) (content_key (fst st e ! i)) = Some (e, i))"

definition kept_from :: "hook_spec list \<Rightarrow> hook_registry \<Rightarrow> bool" where
  "kept_from specs R \<longleftrightarrow> (\<forall>e. \<forall>k \<in> set (R e). \<exists>s \<in> set specs. k = s\<lparr>spec_event := e\<rparr> \<and> canonical (spec_event s) = canonical e)"

definition outranked :: "hook_spec \<Rightarrow> hook_registry \<Rightarrow> bool" where
  "outranked s R \<longleftrightarrow> (\<exists>e. \<exists>k \<in> set (R e). content_key k = content_key s \<and> spec_rank s \<le> spec_rank k)"

lemma content_key_event: "canonical (spec_event s) = canonical e \<Longrightarrow> content_key (s\<lparr>spec_event := e\<rparr>) = content_key s"
  by (simp add: content_key_def)

lemma content_key_canonical: "content_key s = content_key t \<Longrightarrow> canonical (spec_event s) = canonical (spec_event t)"
  by (simp add: content_key_def)

lemma seen_soundD:
  "seen_sound st \<Longrightarrow> map_of (snd st) k = Some (e, i) \<Longrightarrow> i < length (fst st e) \<and> content_key (fst st e ! i) = k"
  unfolding seen_sound_def by blast

lemma seen_soundI:
  "(\<And>k e i. map_of (snd st) k = Some (e, i) \<Longrightarrow> i < length (fst st e) \<and> content_key (fst st e ! i) = k) \<Longrightarrow> seen_sound st"
  unfolding seen_sound_def by blast

text \<open>The three outcomes of a step.\<close>

lemma dedup_step_cases:
  assumes "seen_sound (hooks, seen)"
  obtains (new) "map_of seen (content_key s) = None"
      "dedup_step s (hooks, seen) = (push_spec s hooks, (content_key s, spec_event s, length (hooks (spec_event s))) # seen)"
  | (better) e i where "map_of seen (content_key s) = Some (e, i)" "i < length (hooks e)" "content_key (hooks e ! i) = content_key s"
      "spec_rank (hooks e ! i) < spec_rank s"
      "dedup_step s (hooks, seen) = (hooks(e := (hooks e)[i := s\<lparr>spec_event := e\<rparr>]), seen)"
  | (dup) e i where "map_of seen (content_key s) = Some (e, i)" "i < length (hooks e)" "content_key (hooks e ! i) = content_key s"
      "spec_rank s \<le> spec_rank (hooks e ! i)" "dedup_step s (hooks, seen) = (hooks, seen)"
proof (cases "map_of seen (content_key s)")
  case (Some p)
  obtain e i where p: "p = (e, i)" by (cases p)
  have "i < length (hooks e)" "content_key (hooks e ! i) = content_key s" using seen_soundD [OF assms, of "content_key s" e i] Some p by simp_all
  with Some p better dup show ?thesis by (cases "spec_rank s > spec_rank (hooks e ! i)") (simp_all add: dedup_step_def)
qed (use new in \<open>simp add: dedup_step_def\<close>)

text \<open>Under the events as they are kept, a copy under another spelling has the same content.\<close>

definition filed :: "hook_registry \<Rightarrow> bool" where
  "filed R \<longleftrightarrow> (\<forall>e. \<forall>s \<in> set (R e). spec_event s = e)"

lemma filed_step:
  assumes "seen_sound (hooks, seen)" "filed hooks"
  shows "filed (fst (dedup_step s (hooks, seen)))"
  using assms(1)
proof (cases rule: dedup_step_cases [of _ _ s])
  case (better e i)
  then show ?thesis using assms(2) set_update_subset_insert [of "hooks e" i "s\<lparr>spec_event := e\<rparr>"]
    by (auto simp: filed_def)
qed (use assms(2) in \<open>auto simp: filed_def push_spec_def\<close>)

lemma better_key:
  assumes "filed hooks" "i < length (hooks e)" "content_key (hooks e ! i) = content_key s"
  shows "content_key (s\<lparr>spec_event := e\<rparr>) = content_key s"
proof (rule content_key_event)
  have "spec_event (hooks e ! i) = e" using assms by (simp add: filed_def)
  then show "canonical (spec_event s) = canonical e" using content_key_canonical [OF assms(3)] by simp
qed

lemma seen_sound_step:
  assumes "seen_sound (hooks, seen)" "filed hooks"
  shows "seen_sound (dedup_step s (hooks, seen))"
  using assms(1)
proof (cases rule: dedup_step_cases [of _ _ s])
  case new
  show ?thesis unfolding new(2)
  proof (rule seen_soundI)
    fix k e i
    assume "map_of (snd (push_spec s hooks, (content_key s, spec_event s, length (hooks (spec_event s))) # seen)) k = Some (e, i)"
    then show "i < length (fst (push_spec s hooks, (content_key s, spec_event s, length (hooks (spec_event s))) # seen) e)
        \<and> content_key (fst (push_spec s hooks, (content_key s, spec_event s, length (hooks (spec_event s))) # seen) e ! i) = k"
      using seen_soundD [OF assms(1), of k e i] by (auto simp: push_spec_def nth_append split: if_splits)
  qed
next
  case (better e i)
  show ?thesis unfolding better(5)
  proof (rule seen_soundI)
    fix k e' j
    assume "map_of (snd (hooks(e := (hooks e)[i := s\<lparr>spec_event := e\<rparr>]), seen)) k = Some (e', j)"
    then show "j < length (fst (hooks(e := (hooks e)[i := s\<lparr>spec_event := e\<rparr>]), seen) e')
        \<and> content_key (fst (hooks(e := (hooks e)[i := s\<lparr>spec_event := e\<rparr>]), seen) e' ! j) = k"
      using seen_soundD [OF assms(1), of k e' j] better_key [OF assms(2) better(2,3)] better(2,3)
      by (auto simp: nth_list_update)
  qed
qed (use assms in simp)

lemma seen_complete_step:
  assumes "seen_sound (hooks, seen)" "filed hooks" "seen_complete (hooks, seen)"
  shows "seen_complete (dedup_step s (hooks, seen))"
  using assms(1)
proof (cases rule: dedup_step_cases [of _ _ s])
  case new
  then have "\<And>e i. i < length (hooks e) \<Longrightarrow> content_key (hooks e ! i) \<noteq> content_key s"
    using assms(3) unfolding seen_complete_def by (metis fst_conv snd_conv option.distinct(1))
  then show ?thesis using assms(3) new by (auto simp: seen_complete_def push_spec_def nth_append less_Suc_eq)
next
  case (better e i)
  then show ?thesis using assms(3) better_key [OF assms(2) better(2,3)]
    by (auto simp: seen_complete_def nth_list_update split: if_splits)
qed (use assms in simp)

lemma kept_from_step:
  assumes "seen_sound (hooks, seen)" "filed hooks" "kept_from specs hooks"
  shows "kept_from (specs @ [s]) (fst (dedup_step s (hooks, seen)))"
  using assms(1)
proof (cases rule: dedup_step_cases [of _ _ s])
  case new
  have "s = s\<lparr>spec_event := spec_event s\<rparr>" by simp
  with new assms(3) show ?thesis by (auto simp: kept_from_def push_spec_def)
next
  case (better e i)
  have "spec_event (hooks e ! i) = e" using better(2) assms(2) by (simp add: filed_def)
  then have "canonical (spec_event s) = canonical e" using content_key_canonical [OF better(3)] by simp
  moreover have "k \<in> set (hooks e) \<or> k = s\<lparr>spec_event := e\<rparr>" if "k \<in> set ((hooks e)[i := s\<lparr>spec_event := e\<rparr>])" for k
    using that set_update_subset_insert by fastforce
  ultimately show ?thesis using better assms(3) by (fastforce simp: kept_from_def)
qed (use assms in \<open>auto simp: kept_from_def\<close>)

lemma outranked_step:
  assumes "seen_sound (hooks, seen)" "filed hooks" "t = s \<or> outranked t hooks"
  shows "outranked t (fst (dedup_step s (hooks, seen)))"
  using assms(1)
proof (cases rule: dedup_step_cases [of _ _ s])
  case new
  show ?thesis
  proof (cases "t = s")
    case True
    then show ?thesis unfolding new(2) outranked_def by (intro exI [of _ "spec_event s"] bexI [of _ s]) (simp_all add: push_spec_def)
  next
    case False
    then obtain e k where "k \<in> set (hooks e)" "content_key k = content_key t" "spec_rank t \<le> spec_rank k"
      using assms(3) by (auto simp: outranked_def)
    then show ?thesis unfolding new(2) outranked_def by (intro exI [of _ e] bexI [of _ k]) (auto simp: push_spec_def)
  qed
next
  case (better e i)
  note key = better_key [OF assms(2) better(2,3)]
  let ?k = "s\<lparr>spec_event := e\<rparr>"
  have mem: "?k \<in> set ((hooks e)[i := ?k])" using better(2) by (simp add: set_update_memI)
  consider "t = s" | e' j where "j < length (hooks e')" "content_key (hooks e' ! j) = content_key t" "spec_rank t \<le> spec_rank (hooks e' ! j)"
    using assms(3) by (auto simp: outranked_def in_set_conv_nth)
  then show ?thesis
  proof cases
    case 2
    show ?thesis
    proof (cases "e' = e \<and> j = i")
      case True
      then show ?thesis using 2 better key mem unfolding outranked_def better(5)
        by (intro exI [of _ e] bexI [of _ ?k]) auto
    next
      case False
      then have "hooks e' ! j \<in> set ((hooks(e := (hooks e)[i := ?k])) e')"
        using 2(1) by (auto simp: set_conv_nth nth_list_update intro!: exI [of _ j])
      then show ?thesis using 2(2,3) unfolding outranked_def better(5) fst_conv by blast
    qed
  qed (use better key mem in \<open>auto simp: outranked_def intro!: exI [of _ e] bexI [of _ ?k]\<close>)
next
  case (dup e i)
  then have "outranked s hooks" unfolding outranked_def by (intro exI [of _ e] bexI [of _ "hooks e ! i"]) simp_all
  then show ?thesis using assms(3) dup(5) by auto
qed

definition dedup_inv :: "hook_spec list \<Rightarrow> dedup_state \<Rightarrow> bool" where
  "dedup_inv ds st \<longleftrightarrow> seen_sound st \<and> filed (fst st) \<and> seen_complete st \<and> kept_from ds (fst st)
     \<and> (\<forall>t \<in> set ds. outranked t (fst st))"

lemma dedup_inv_step: "dedup_inv ds st \<Longrightarrow> dedup_inv (ds @ [s]) (dedup_step s st)"
  by (cases st)
    (auto simp: dedup_inv_def intro: seen_sound_step filed_step seen_complete_step kept_from_step outranked_step)

lemma dedup_inv_fold: "dedup_inv ds st \<Longrightarrow> dedup_inv (ds @ ss) (fold dedup_step ss st)"
proof (induction ss arbitrary: st ds)
  case (Cons s ss)
  then show ?case using Cons.IH [OF dedup_inv_step [OF Cons.prems, of s]] by simp
qed simp

lemma deduped:
  "filed (registry_from_specs_deduped specs)" "kept_from specs (registry_from_specs_deduped specs)"
  "s \<in> set specs \<Longrightarrow> outranked s (registry_from_specs_deduped specs)"
  "\<exists>seen. seen_sound (registry_from_specs_deduped specs, seen) \<and> seen_complete (registry_from_specs_deduped specs, seen)"
proof -
  let ?st = "fold dedup_step specs (empty_registry, [])"
  have "dedup_inv ([] @ specs) ?st"
    by (rule dedup_inv_fold)
      (simp add: dedup_inv_def seen_sound_def filed_def seen_complete_def kept_from_def empty_registry_def)
  then show "filed (registry_from_specs_deduped specs)" "kept_from specs (registry_from_specs_deduped specs)"
    "s \<in> set specs \<Longrightarrow> outranked s (registry_from_specs_deduped specs)"
    "\<exists>seen. seen_sound (registry_from_specs_deduped specs, seen) \<and> seen_complete (registry_from_specs_deduped specs, seen)"
    by (auto simp: dedup_inv_def registry_from_specs_deduped_def intro!: exI [of _ "snd ?st"])
qed

text \<open>What is kept under an event is what runs for it.\<close>

lemma filed_canonical:
  assumes "filed R" "k \<in> set (R e)" "canonical e = canonical event"
  shows "k \<in> set (hooks_for_canonical R event)"
  using assms(2,3) by (cases e; cases event) (auto simp: hooks_for_canonical_def hooks_for_def)

lemma kept_copy:
  assumes "s \<in> set specs"
  obtains k t where "k \<in> set (hooks_for_canonical (registry_from_specs_deduped specs) (spec_event s))" "t \<in> set specs"
    "content_key k = content_key s" "spec_rank s \<le> spec_rank k" "k = t\<lparr>spec_event := spec_event k\<rparr>"
    "canonical (spec_event t) = canonical (spec_event k)" "k \<in> set (registry_from_specs_deduped specs (spec_event k))"
proof -
  obtain e k where k: "k \<in> set (registry_from_specs_deduped specs e)" "content_key k = content_key s" "spec_rank s \<le> spec_rank k"
    using deduped(3) [OF assms] by (auto simp: outranked_def)
  have e: "spec_event k = e" using deduped(1) k(1) by (auto simp: filed_def)
  have "k \<in> set (hooks_for_canonical (registry_from_specs_deduped specs) (spec_event s))"
    using filed_canonical [OF deduped(1) k(1), of "spec_event s"] content_key_canonical [OF k(2)] e by simp
  moreover obtain t where "t \<in> set specs" "k = t\<lparr>spec_event := e\<rparr>" "canonical (spec_event t) = canonical e"
    using deduped(2) k(1) unfolding kept_from_def by blast
  ultimately show ?thesis using that [of k t] k e by simp
qed

lemma registry_unique:
  assumes "i < length (registry_from_specs_deduped specs e)" "j < length (registry_from_specs_deduped specs e')"
    "content_key (registry_from_specs_deduped specs e ! i) = content_key (registry_from_specs_deduped specs e' ! j)"
  shows "e = e' \<and> i = j"
proof -
  obtain seen where "seen_complete (registry_from_specs_deduped specs, seen)" using deduped(4) by blast
  then have at: "\<And>e i. i < length (registry_from_specs_deduped specs e)
      \<Longrightarrow> map_of seen (content_key (registry_from_specs_deduped specs e ! i)) = Some (e, i)"
    unfolding seen_complete_def by simp
  have "Some (e, i) = Some (e', j)" unfolding at [OF assms(1), symmetric] at [OF assms(2), symmetric] assms(3) by (rule refl)
  then show ?thesis by simp
qed

section \<open>Disabling and enabling\<close>

text \<open>The display agrees with the rule of the dispatch.\<close>

lemma display_agrees: "hook_disabled_for_display_with s disabled = is_disabled s disabled"
  by (auto simp: hook_disabled_for_display_with_def is_disabled_def)

lemma loaded_names: "name \<in> set (load_disabled f) \<longleftrightarrow> is_hook_disabled_with_file name f"
  by (auto simp: load_disabled_def is_hook_disabled_with_file_def entry_names_def names_hook_def entry_line_def list_ex_iff
      split: disk_file.splits)

lemma split_inclusive_whole: "s = [] \<or> last s = c \<Longrightarrow> split_inclusive c (s @ t) = split_inclusive c s @ split_inclusive c t"
proof (induction s)
  case (Cons a s)
  have "s \<noteq> [] \<Longrightarrow> split_inclusive c s \<noteq> []" by (metis concat.simps(1) concat_split_inclusive)
  then show ?case using Cons by (cases "s = []") (auto split: list.splits)
qed simp

lemma lines_whole: "s = [] \<or> last s = NL \<Longrightarrow> lines (s @ t) = lines s @ lines t"
  by (simp add: lines_def split_inclusive_whole)

lemma split_inclusive_piece: "l \<in> set (split_inclusive c s) \<Longrightarrow> c \<notin> set (butlast l)"
  by (induction s arbitrary: l) (auto split: list.splits if_splits)

lemma trim_CR: "trim (l @ [CR]) = trim l"
  by (rule trim_append_ws) (simp add: ws_encodings_def)

lemma trim_written: "trim (line_content (l @ [NL])) = trim l"
  by (auto simp: line_content_snoc strip_suffix_iff trim_CR split: option.split)

lemma names_hook_written: "names_hook name (line_content (l @ [NL])) = names_hook name l"
  by (simp add: names_hook_def entry_line_def trim_written)

lemma lines_written:
  "\<forall>l \<in> set ls. NL \<notin> set l \<Longrightarrow> lines (concat (map (\<lambda>l. l @ [NL]) ls)) = map (\<lambda>l. line_content (l @ [NL])) ls"
  by (induction ls) (simp_all add: lines_def split_inclusive_append)

lemma line_no_NL: "l \<in> set (lines s) \<Longrightarrow> NL \<notin> set l"
proof -
  assume "l \<in> set (lines s)"
  then obtain p where p: "p \<in> set (split_inclusive NL s)" "l = line_content p" by (auto simp: lines_def)
  have "NL \<notin> set (butlast p)" using split_inclusive_piece [OF p(1)] .
  then show ?thesis
  proof (cases "ends_with p [NL]")
    case True
    then obtain q where "p = q @ [NL]" by (auto simp: ends_with_iff)
    with \<open>NL \<notin> set (butlast p)\<close> p(2) show ?thesis
      by (auto simp: line_content_snoc strip_suffix_iff split: option.splits)
  next
    case False
    then have "p = [] \<or> last p \<noteq> NL" by (cases p rule: rev_cases) (auto simp: ends_with_iff)
    with \<open>NL \<notin> set (butlast p)\<close> p(2) False show ?thesis by (cases p rule: rev_cases) auto
  qed
qed

text \<open>A name as the program makes them, and a file whose last line is ended.\<close>

definition hook_identifier :: "string \<Rightarrow> bool" where
  "hook_identifier name \<longleftrightarrow> name \<noteq> [] \<and> trim name = name \<and> NL \<notin> set name \<and> \<not> starts_with name ''#''"

definition ended_file :: "disk_file \<Rightarrow> bool" where
  "ended_file f = (case f of Disk_Missing \<Rightarrow> True | Disk_Unreadable _ \<Rightarrow> False | Disk_Text s \<Rightarrow> s = [] \<or> last s = NL)"

lemma names_hook_self: "hook_identifier name \<Longrightarrow> names_hook n name \<longleftrightarrow> n = name"
  by (auto simp: names_hook_def entry_line_def hook_identifier_def)

lemma disable_effect:
  assumes "hook_identifier name" "ended_file f"
  shows "is_hook_disabled_with_file n (snd (disable_hook_with_file name None f)) \<longleftrightarrow> n = name \<or> is_hook_disabled_with_file n f"
    and "fst (disable_hook_with_file name None f) = Inr ()"
    and "ended_file (snd (disable_hook_with_file name None f))"
proof -
  have one: "lines (name @ [NL]) = [line_content (name @ [NL])]"
    using assms(1) by (simp add: lines_def split_inclusive_append hook_identifier_def)
  have self: "names_hook n (line_content (name @ [NL])) \<longleftrightarrow> n = name"
    using assms(1) by (simp add: names_hook_written names_hook_self)
  show "is_hook_disabled_with_file n (snd (disable_hook_with_file name None f)) \<longleftrightarrow> n = name \<or> is_hook_disabled_with_file n f"
  proof (cases f)
    case (Disk_Text s)
    then show ?thesis using assms(2) one self lines_whole [of s "name @ [NL]"]
      by (auto simp: disable_hook_with_file_def is_hook_disabled_with_file_def file_append_def ended_file_def)
  qed (use assms(2) one self in \<open>auto simp: disable_hook_with_file_def is_hook_disabled_with_file_def file_append_def ended_file_def\<close>)
qed (use assms(2) in \<open>auto simp: disable_hook_with_file_def file_append_def ended_file_def split: disk_file.splits\<close>)

lemma enable_effect:
  assumes "f = Disk_Text s"
  shows "is_hook_disabled_with_file n (snd (enable_hook_with_file name None f)) \<longleftrightarrow> n \<noteq> name \<and> is_hook_disabled_with_file n f"
    and "fst (enable_hook_with_file name None f) = Inr (is_hook_disabled_with_file name f)"
proof -
  have other: "names_hook n l \<Longrightarrow> names_hook name l \<Longrightarrow> n = name" for l by (simp add: names_hook_def)
  have w: "lines (concat (map (\<lambda>l. l @ [NL]) (filter (\<lambda>l. \<not> names_hook name l) (lines s))))
      = map (\<lambda>l. line_content (l @ [NL])) (filter (\<lambda>l. \<not> names_hook name l) (lines s))"
    by (rule lines_written) (auto dest: line_no_NL)
  show "is_hook_disabled_with_file n (snd (enable_hook_with_file name None f)) \<longleftrightarrow> n \<noteq> name \<and> is_hook_disabled_with_file n f"
    using other unfolding assms
    by (auto simp: enable_hook_with_file_def is_hook_disabled_with_file_def w list_ex_iff names_hook_written)
  show "fst (enable_hook_with_file name None f) = Inr (is_hook_disabled_with_file name f)"
    by (auto simp: assms enable_hook_with_file_def is_hook_disabled_with_file_def)
qed

lemma load_disabled_iff: "hook_identifier n \<Longrightarrow> n \<in> set (load_disabled f) \<longleftrightarrow> is_hook_disabled_with_file n f"
  by (auto simp: load_disabled_def is_hook_disabled_with_file_def entry_names_def names_hook_def entry_line_def list_ex_iff
      hook_identifier_def split: disk_file.splits)

text \<open>C33: Disabling a hook and enabling it again. On a file whose last line is ended, disabling adds exactly the named hook to
  those that dispatch will skip, and reports no error; enabling then finds the name and leaves exactly the others of before.\<close>

theorem disable_then_enable:
  assumes "hook_identifier name" "hook_identifier n" "ended_file f"
    and "disable_hook_with_file name None f = (r, f1)" "enable_hook_with_file name None f1 = (r', f2)"
  shows "r = Inr () \<and> r' = Inr True
    \<and> (n \<in> set (load_disabled f1) \<longleftrightarrow> n = name \<or> n \<in> set (load_disabled f))
    \<and> (n \<in> set (load_disabled f2) \<longleftrightarrow> n \<noteq> name \<and> n \<in> set (load_disabled f))"
proof -
  note d = disable_effect(1) [OF assms(1,3), of n] disable_effect(1) [OF assms(1,3), of name] disable_effect(2) [OF assms(1,3)]
  have one: "is_hook_disabled_with_file name f1" using d assms(4) by simp
  then obtain s where s: "f1 = Disk_Text s" by (cases f1) (simp_all add: is_hook_disabled_with_file_def)
  note e = enable_effect(1) [OF s, of n name] enable_effect(2) [OF s, of name]
  show ?thesis using d e one assms(2,4,5) by (auto simp: load_disabled_iff)
qed

theorem disable_then_enable_witness:
  "''global/lint'' \<in> set (load_disabled (snd (disable_hook_with_file ''user/a'' None (Disk_Text (''global/lint'' @ [NL])))))
   \<and> ''global/lint'' \<in> set (load_disabled (snd (enable_hook_with_file ''user/a'' None
        (snd (disable_hook_with_file ''user/a'' None (Disk_Text (''global/lint'' @ [NL])))))))"
proof -
  have i: "hook_identifier ''user/a''" "hook_identifier ''global/lint''" by code_simp+
  have f: "ended_file (Disk_Text (''global/lint'' @ [NL]))" by code_simp
  have l: "''global/lint'' \<in> set (load_disabled (Disk_Text (''global/lint'' @ [NL])))" by code_simp
  show ?thesis
    using disable_then_enable [OF i f prod.collapse [symmetric] prod.collapse [symmetric]] l by simp
qed

text \<open>On a file that an editor left without a final line break, the name is appended to the last line: neither hook is
  disabled afterwards, and no error is reported.\<close>

lemma disable_merges_unended_line:
  "disable_hook_with_file ''user/a'' None (Disk_Text ''global/lint'') = (Inr (), Disk_Text (''global/lintuser/a'' @ [NL]))"
  "load_disabled (Disk_Text (''global/lintuser/a'' @ [NL])) = [''global/lintuser/a'']"
  by code_simp+

text \<open>The name \<open>ListDir\<close> stands for no tool, so a matcher of that name never selects \<open>list_dir\<close>.\<close>

lemma ListDir_is_no_alias:
  "matcher_new H ''ListDir'' = Some (Matcher_Exact [''ListDir''])" "\<not> is_match H (Matcher_Exact [''ListDir'']) ''list_dir''"
proof -
  have "is_simple_form ''ListDir''" "exact_names ''ListDir'' = [''ListDir'']" by code_simp+
  then show "matcher_new H ''ListDir'' = Some (Matcher_Exact [''ListDir''])" by (simp add: matcher_new_def)
qed simp

section \<open>Specifications as they are read\<close>

text \<open>The matcher of a specification is that of its pattern, unless its event ignores matchers; a pattern is not empty.\<close>

definition compiled_spec :: "hook_env \<Rightarrow> hook_spec \<Rightarrow> bool" where
  "compiled_spec H s \<longleftrightarrow> (case spec_configured s of
     None \<Rightarrow> spec_matcher s = None
   | Some p \<Rightarrow> p \<noteq> [] \<and> (if et_matcher (traits (spec_event s)) = Matcher_Ignored then spec_matcher s = None
       else matcher_new H p \<noteq> None \<and> spec_matcher s = matcher_new H p))"

definition read_spec :: "hook_env \<Rightarrow> hook_provenance \<Rightarrow> hook_spec \<Rightarrow> bool" where
  "read_spec H prov s \<longleftrightarrow> compiled_spec H s \<and> spec_layer s = prov \<and> spec_enabled s
     \<and> (\<forall>k \<in> set RUNNER_ALWAYS_SET_ENV. map_of (spec_extra_env s) k = None)"

lemma resolve_matcher_compiled:
  assumes "resolve_group_matcher H m event label ctx = Inr (configured, compiled)"
    and "spec_event s = event" "spec_configured s = configured" "spec_matcher s = compiled"
  shows "compiled_spec H s"
proof (cases "matcher_new H (the configured)")
  case None
  then show ?thesis using assms by (auto simp: resolve_group_matcher_def compiled_spec_def Let_def split: option.splits if_splits)
next
  case (Some k)
  then show ?thesis using assms
    by (auto simp: resolve_group_matcher_def compiled_spec_def Let_def split: option.splits if_splits) (metis)
qed

lemma no_reserved: "k \<in> set RUNNER_ALWAYS_SET_ENV \<Longrightarrow> map_of (strip_reserved_env_keys env) k = None"
  by (auto simp: strip_reserved_env_keys_def map_of_eq_None_iff)

lemma build_one_spec_read:
  assumes "build_one_spec H handler event name configured compiled ctx = Inr s"
  shows "spec_event s = event" "spec_configured s = configured" "spec_matcher s = compiled" "spec_layer s = ctx_provenance ctx"
    "spec_enabled s" "spec_extra_env s = strip_reserved_env_keys (raw_env handler)"
  using assms by (auto simp: build_one_spec_def Let_def split: option.splits handler_type.splits)

lemma set_specs_of: "s \<in> set (specs_of rs) \<longleftrightarrow> Inr s \<in> set rs"
  by (auto simp: specs_of_def set_filter_map split: sum.splits) (metis sum.exhaust)

lemma build_specs_read:
  assumes "s \<in> set (fst (build_specs H m ctx))"
  shows "read_spec H (ctx_provenance ctx) s"
proof -
  obtain event i grp where g: "Inr s \<in> set (build_group H ctx event (i, grp))"
    using assms by (auto simp: build_specs_def built_def set_specs_of)
  let ?label = "group_label (ctx_name_prefix ctx) event i"
  obtain configured compiled where r: "resolve_group_matcher H (group_matcher grp) event ?label ctx = Inr (configured, compiled)"
    using g by (auto simp: build_group_def Let_def split: sum.splits)
  then obtain j handler where "build_one_spec H handler event (hook_label ?label j) configured compiled ctx = Inr s"
    using g by (auto simp: build_group_def Let_def)
  note b = build_one_spec_read [OF this]
  show ?thesis using resolve_matcher_compiled [OF r b(1-3)] b(4-6) by (simp add: read_spec_def no_reserved)
qed

lemma set_collect: "s \<in> set (fst (collect rs)) \<longleftrightarrow> (\<exists>r \<in> set rs. s \<in> set (fst r))"
  by (auto simp: collect_def)

lemma config_layer_read:
  assumes "s \<in> set (fst (parse_hooks_from_config_layers T H home layers))"
  obtains layer where "layer \<in> set layers" "read_spec H (hl_provenance layer) s"
proof -
  obtain layer where l: "layer \<in> set layers" "s \<in> set (fst (parse_config_layer T H home layer))"
    using assms by (auto simp: parse_hooks_from_config_layers_def set_collect)
  then have "read_spec H (hl_provenance layer) s"
    by (cases "hooks_map_from_toml_value T (hl_hooks layer)")
      (auto simp: parse_config_layer_def dest!: build_specs_read)
  with l(1) that show ?thesis by blast
qed

lemma hook_file_read: "s \<in> set (fst (parse_hook_file order H content path)) \<Longrightarrow> read_spec H Prov_File s"
  by (auto simp: parse_hook_file_def split: sum.splits option.splits dest!: build_specs_read)

lemma listed_file_read: "s \<in> set (fst (load_listed_file order H F path)) \<Longrightarrow> read_spec H Prov_File s"
  by (cases "hf_read F path") (auto simp: load_listed_file_def dest: hook_file_read)

lemma source_read:
  assumes "s \<in> set (fst (load_from_source order H F src))"
  shows "read_spec H Prov_File s"
  using assms
proof (cases src)
  case (Source_SettingsFile path)
  then show ?thesis using assms
    by (cases "hf_read F path") (auto simp: load_hooks_from_settings_file_def dest: hook_file_read)
next
  case (Source_Directory dir)
  then show ?thesis using assms
    by (auto simp: load_hooks_from_directory_def set_collect split: option.splits sum.splits dest: listed_file_read)
qed

lemma read_spec_name [simp]: "read_spec H p (s\<lparr>spec_name := n\<rparr>) = read_spec H p s"
  by (cases "spec_configured s") (simp_all add: read_spec_def compiled_spec_def)

lemma sources_read:
  assumes "s \<in> set (fst (collect_specs_from_sources order H F global project))"
  shows "read_spec H Prov_File s"
proof -
  obtain src t n where "t \<in> set (fst (load_from_source order H F src))" "s = t\<lparr>spec_name := n\<rparr>"
    using assms by (auto simp: collect_specs_from_sources_def set_collect prefixed_def)
  then show ?thesis using source_read [of t order H F src] by simp
qed

lemma assembled:
  obtains file_specs where
    "fst (assemble_hooks T order H F home layers paths trusted)
      = registry_from_specs_deduped (fst (parse_hooks_from_config_layers T H home layers) @ file_specs)"
    "\<forall>s \<in> set file_specs. read_spec H Prov_File s"
  using sources_read [of _ order H F "source_global paths" "snd (as_sources paths trusted)"]
  by (fastforce simp: assemble_hooks_def as_sources_def split: prod.splits)

lemma compiled_same_key:
  assumes "compiled_spec H s" "compiled_spec H t" "content_key s = content_key t"
  shows "spec_matcher s = spec_matcher t"
proof -
  have "spec_configured s = spec_configured t"
    using assms by (auto simp: content_key_def or_default_def compiled_spec_def split: option.splits)
  moreover have "traits (spec_event s) = traits (spec_event t)"
    using assms(3) canonical_traits by (metis content_key_canonical)
  ultimately show ?thesis using assms(1,2) by (auto simp: compiled_spec_def split: option.splits if_splits)
qed

text \<open>Reading the matchers again after a registry was sent over the wire changes nothing where matchers are tested.\<close>

lemma recompile_read:
  "compiled_spec H s \<Longrightarrow> et_matcher (traits (spec_event s)) = Matcher_Tested \<Longrightarrow> recompile_spec H s = s"
  by (cases s) (auto simp: recompile_spec_def compiled_spec_def split: option.splits if_splits)

end
