(* ===== verification/Hook_Documents.thy ===== *)
theory Hook_Documents
  imports Hook_Registry
begin

text \<open>
  What a hook answers (\<open>xai-grok-hooks/src/runner/mod.rs\<close> and the parsers of \<open>runner/command.rs\<close> and
  \<open>runner/http.rs\<close>, with the outcomes of \<open>result.rs\<close>): the documents of the gates, and the outcome of a hook from
  its output and its exit code or the status of its response.

  The theory shows when a hook denies a tool call, from the command line and over HTTP, that exit code 2 denies or
  blocks whatever a gate hook prints, except for a hook at the stop of a turn, and that a hook that failed keeps its
  verdict and loses what it wanted to change.
\<close>

section \<open>Outcomes\<close>

type_synonym json_map = "(string \<times> json) list"

record stop_override =
  so_reason :: "string option"

record stop_outcome =
  st_block_reason :: "string option"
  st_additional_context :: "string option"
  st_force_stop :: "stop_override option"

datatype replacement_kind = Replace_Builtin | Replace_Mcp

record output_replacement =
  or_kind :: replacement_kind
  or_hook_name :: string
  or_value :: json

record post_outcome =
  po_block_reason :: "string option"
  po_additional_context :: "string option"
  po_replacement :: "output_replacement option"

definition stop_default :: stop_outcome where
  "stop_default = \<lparr>st_block_reason = None, st_additional_context = None, st_force_stop = None\<rparr>"

definition post_default :: post_outcome where
  "post_default = \<lparr>po_block_reason = None, po_additional_context = None, po_replacement = None\<rparr>"

definition post_is_empty :: "post_outcome \<Rightarrow> bool" where
  "post_is_empty o1 \<longleftrightarrow> po_block_reason o1 = None \<and> po_additional_context o1 = None \<and> po_replacement o1 = None"

definition stop_is_empty :: "stop_outcome \<Rightarrow> bool" where
  "stop_is_empty o1 \<longleftrightarrow> st_block_reason o1 = None \<and> st_additional_context o1 = None \<and> st_force_stop o1 = None"

fun wire_field :: "replacement_kind \<Rightarrow> string" where
  "wire_field Replace_Builtin = ''updatedToolOutput''"
| "wire_field Replace_Mcp = ''updatedMCPToolOutput''"

datatype hook_runner_result =
    Ran_Allow "json_map option" "string option"
  | Ran_Ask "string option" "json_map option" "string option"
  | Ran_Defer
  | Ran_Deny string string
  | Ran_Block string string
  | Ran_Stop stop_outcome
  | Ran_PostToolUse post_outcome "string option"
  | Ran_Success
  | Ran_Failed string

section \<open>The document of a tool gate\<close>

record gate_specific =
  gs_permission_decision :: "string option"
  gs_permission_reason :: "string option"
  gs_updated_input :: "json option"
  gs_additional_context :: "json option"
  gs_rest :: json_map

record gate_json =
  gj_decision :: "string option"
  gj_reason :: "string option"
  gj_specific :: "gate_specific option"
  gj_rest :: json_map

text \<open>The keys that are not fields, each once, with its last value.\<close>

definition rest_of :: "string list \<Rightarrow> json_map \<Rightarrow> json_map" where
  "rest_of known kvs = fold (\<lambda>p. map_insert (fst p) (snd p)) (filter (\<lambda>p. fst p \<notin> set known) kvs) []"

abbreviation any_json :: "json \<Rightarrow> json option" where "any_json \<equiv> Some"

definition gate_specific_of :: "json \<Rightarrow> gate_specific option" where
  "gate_specific_of j = (case j of
     JObject kvs \<Rightarrow>
       Option.bind (read_field (optional as_str) kvs ''permissionDecision'') (\<lambda>d.
       Option.bind (read_field (optional as_str) kvs ''permissionDecisionReason'') (\<lambda>r.
       Option.bind (read_field (optional any_json) kvs ''updatedInput'') (\<lambda>u.
       Option.bind (read_field (optional any_json) kvs ''additionalContext'') (\<lambda>c.
         Some \<lparr>gs_permission_decision = d, gs_permission_reason = r, gs_updated_input = u, gs_additional_context = c,
               gs_rest = rest_of [''permissionDecision'', ''permissionDecisionReason'', ''updatedInput'', ''additionalContext''] kvs\<rparr>))))
   | _ \<Rightarrow> None)"

definition gate_json_of :: "json \<Rightarrow> gate_json option" where
  "gate_json_of j = (case j of
     JObject kvs \<Rightarrow>
       Option.bind (read_field (optional as_str) kvs ''decision'') (\<lambda>d.
       Option.bind (read_field (optional as_str) kvs ''reason'') (\<lambda>r.
       Option.bind (read_field (optional gate_specific_of) kvs ''hookSpecificOutput'') (\<lambda>s.
         Some \<lparr>gj_decision = d, gj_reason = r, gj_specific = s,
               gj_rest = rest_of [''decision'', ''reason'', ''hookSpecificOutput''] kvs\<rparr>)))
   | _ \<Rightarrow> None)"

definition is_gate_document :: "gate_json \<Rightarrow> bool" where
  "is_gate_document g \<longleftrightarrow> gj_decision g \<noteq> None \<or> gj_specific g \<noteq> None
     \<or> list_ex (\<lambda>p. fst p \<in> set [''updatedInput'', ''permissionDecision'', ''permissionDecisionReason'', ''continue'', ''additionalContext''])
          (gj_rest g)"

definition non_empty :: "string option \<Rightarrow> string option" where
  "non_empty v = (case v of None \<Rightarrow> None | Some s \<Rightarrow> if trim s = [] then None else Some (trim s))"

definition permission_decision :: "gate_json \<Rightarrow> string option" where
  "permission_decision g = non_empty (Option.bind (gj_specific g) gs_permission_decision)"

definition permission_decision_reason :: "gate_json \<Rightarrow> string option" where
  "permission_decision_reason g = Option.bind (gj_specific g) gs_permission_reason"

datatype decision_field = Field_TopLevel | Field_HookSpecific

fun field_wire_name :: "decision_field \<Rightarrow> string" where
  "field_wire_name Field_TopLevel = ''decision''"
| "field_wire_name Field_HookSpecific = ''hookSpecificOutput.permissionDecision''"

datatype decision_token = Token_Allow | Token_Deny | Token_Ask | Token_Defer | Token_Unknown decision_field string

definition classify_token :: "decision_field \<Rightarrow> string \<Rightarrow> decision_token" where
  "classify_token field token =
     (if token = ''allow'' \<or> token = ''approve'' then Token_Allow
      else if token = ''deny'' \<or> token = ''block'' then Token_Deny
      else if token = ''ask'' then Token_Ask
      else if token = ''defer'' then Token_Defer
      else Token_Unknown field token)"

definition or_else :: "'a option \<Rightarrow> 'a option \<Rightarrow> 'a option" where
  "or_else a b = (case a of Some x \<Rightarrow> Some x | None \<Rightarrow> b)"

definition resolve_decision :: "gate_json \<Rightarrow> decision_token \<times> string option" where
  "resolve_decision g =
     ((case permission_decision g of
         Some token \<Rightarrow> classify_token Field_HookSpecific token
       | None \<Rightarrow> (case non_empty (gj_decision g) of
           Some token \<Rightarrow> classify_token Field_TopLevel token
         | None \<Rightarrow> Token_Allow)),
      or_else (non_empty (permission_decision_reason g)) (non_empty (gj_reason g)))"

text \<open>A rewrite that is not an object is an error of its own.\<close>

definition take_updated_input :: "gate_json \<Rightarrow> unit + json_map option" where
  "take_updated_input g = (case Option.bind (gj_specific g) gs_updated_input of
     None \<Rightarrow> Inr None
   | Some (JObject input) \<Rightarrow> Inr (Some input)
   | Some _ \<Rightarrow> Inl ())"

definition raw_additional_context :: "gate_json \<Rightarrow> json option" where
  "raw_additional_context g = Option.bind (gj_specific g) gs_additional_context"

definition gate_context :: "gate_json \<Rightarrow> string option" where
  "gate_context g = Option.bind (raw_additional_context g) (\<lambda>j. Option.bind (as_str j) (\<lambda>t.
     if trim t = [] then None else Some (clip_text t MAX_HOOK_FEEDBACK_CHARS)))"

definition SILENTLY_IGNORED_TOP_LEVEL_KEYS :: "string list" where
  "SILENTLY_IGNORED_TOP_LEVEL_KEYS = [''hookEventName'', ''continue'', ''systemMessage'']"
definition SILENTLY_IGNORED_NESTED_KEYS :: "string list" where
  "SILENTLY_IGNORED_NESTED_KEYS = [''hookEventName'']"

definition only_if :: "bool \<Rightarrow> 'a \<Rightarrow> 'a list" where
  "only_if b x = (if b then [x] else [])"

text \<open>What the document had that changed nothing, for the log.\<close>

definition ignored_parts :: "gate_json \<Rightarrow> decision_token \<Rightarrow> string list" where
  "ignored_parts g decision =
     filter (\<lambda>k. k \<notin> set SILENTLY_IGNORED_TOP_LEVEL_KEYS) (map fst (gj_rest g))
     @ (case gj_specific g of None \<Rightarrow> [] | Some s \<Rightarrow>
          map (\<lambda>k. ''hookSpecificOutput.'' @ k) (filter (\<lambda>k. k \<notin> set SILENTLY_IGNORED_NESTED_KEYS) (map fst (gs_rest s))))
     @ only_if (map_of (gj_rest g) ''continue'' = Some (JBool False)) ''continue: false''
     @ only_if ((decision = Token_Allow \<or> decision = Token_Defer)
             \<and> (non_empty (gj_reason g) \<noteq> None \<or> non_empty (permission_decision_reason g) \<noteq> None))
         ''reason (only a deny or an ask has one)''
     @ only_if (decision = Token_Defer \<and> Option.bind (gj_specific g) gs_updated_input \<noteq> None) ''hookSpecificOutput.updatedInput''
     @ only_if ((case raw_additional_context g of Some j \<Rightarrow> as_str j = None | None \<Rightarrow> False)
             \<or> ((decision = Token_Defer \<or> decision = Token_Deny) \<and> gate_context g \<noteq> None)) ''hookSpecificOutput.additionalContext''"

datatype hook_health = Healthy | Broken

definition health_from_success :: "bool \<Rightarrow> hook_health" where
  "health_from_success ok = (if ok then Healthy else Broken)"

definition drop_if_broken :: "'a option \<Rightarrow> hook_health \<Rightarrow> 'a option" where
  "drop_if_broken v health = (if health = Broken then None else v)"

definition resolve_rewrite :: "gate_json \<Rightarrow> hook_health \<Rightarrow> json_map option" where
  "resolve_rewrite g health = drop_if_broken (case take_updated_input g of Inr u \<Rightarrow> u | Inl _ \<Rightarrow> None) health"

datatype gate_outcome =
    Outcome_Allow "json_map option" "string option"
  | Outcome_Ask "string option" "json_map option" "string option"
  | Outcome_Defer
  | Outcome_Deny string
  | Outcome_Failed string

abbreviation QUOTE :: string where "QUOTE \<equiv> [CHR 0x27]"

definition gate_outcome_of :: "gate_json \<Rightarrow> string \<Rightarrow> string option \<Rightarrow> hook_health \<Rightarrow> gate_outcome" where
  "gate_outcome_of g name fallback_reason health = (case resolve_decision g of (token, rsn) \<Rightarrow>
     (case token of
        Token_Deny \<Rightarrow> Outcome_Deny (clip_reason (case or_else rsn fallback_reason of
            Some r \<Rightarrow> r | None \<Rightarrow> ''denied by hook '' @ QUOTE @ name @ QUOTE))
      | Token_Unknown field t \<Rightarrow> Outcome_Failed (''unknown decision value '' @ QUOTE @ clip_reason t @ QUOTE @ '' in '' @ QUOTE @ field_wire_name field @ QUOTE)
      | Token_Ask \<Rightarrow> Outcome_Ask (map_option clip_reason rsn) (resolve_rewrite g health) (drop_if_broken (gate_context g) health)
      | Token_Defer \<Rightarrow> Outcome_Defer
      | Token_Allow \<Rightarrow> Outcome_Allow (resolve_rewrite g health) (drop_if_broken (gate_context g) health)))"

text \<open>A warning for the user, in any document.\<close>

definition extract_system_message :: "hook_env \<Rightarrow> string \<Rightarrow> string option" where
  "extract_system_message H stdout = (case json_parse H (trim stdout) of
     Inl _ \<Rightarrow> None
   | Inr v \<Rightarrow> map_option clip_reason (non_empty (Option.bind (obj_get v ''systemMessage'') as_str)))"

section \<open>The documents of the other gates\<close>

definition quoted_unknown :: "string \<Rightarrow> string" where
  "quoted_unknown other = ''unknown decision value '' @ QUOTE @ other @ QUOTE"

definition non_blank :: "string option \<Rightarrow> string option" where
  "non_blank v = (case v of None \<Rightarrow> None | Some s \<Rightarrow> if trim s = [] then None else Some s)"

record prompt_json =
  pj_decision :: "string option"
  pj_reason :: "string option"

definition prompt_json_of :: "json \<Rightarrow> prompt_json option" where
  "prompt_json_of j =
     Option.bind (struct_fields [(''decision'', True), (''reason'', True)] j) (\<lambda>kvs.
     Option.bind (read_field (optional as_str) kvs ''decision'') (\<lambda>d.
     Option.bind (read_field (optional as_str) kvs ''reason'') (\<lambda>r.
       Some \<lparr>pj_decision = d, pj_reason = r\<rparr>)))"

definition prompt_json_to_block :: "prompt_json \<Rightarrow> string \<Rightarrow> string option \<Rightarrow> string + string option" where
  "prompt_json_to_block p name fallback_reason = (case pj_decision p of
     None \<Rightarrow> Inr None
   | Some d \<Rightarrow>
       if d = ''block'' then Inr (Some (case or_else (non_blank (pj_reason p)) fallback_reason of
           Some r \<Rightarrow> r | None \<Rightarrow> ''Prompt blocked by hook '' @ QUOTE @ name @ QUOTE))
       else if d = ''approve'' then Inr None
       else Inl (quoted_unknown d))"

record stop_json =
  sj_decision :: "string option"
  sj_reason :: "string option"
  sj_continue :: "bool option"
  sj_stop_reason :: "string option"
  sj_context :: "string option option"

definition stop_specific_of :: "json \<Rightarrow> string option option" where
  "stop_specific_of j = Option.bind (struct_fields [(''additionalContext'', True)] j)
     (\<lambda>kvs. read_field (optional as_str) kvs ''additionalContext'')"

definition stop_json_of :: "json \<Rightarrow> stop_json option" where
  "stop_json_of j =
     Option.bind (struct_fields [(''decision'', True), (''reason'', True), (''continue'', True), (''stopReason'', True), (''hookSpecificOutput'', True)] j) (\<lambda>kvs.
     Option.bind (read_field (optional as_str) kvs ''decision'') (\<lambda>d.
     Option.bind (read_field (optional as_str) kvs ''reason'') (\<lambda>r.
     Option.bind (read_field (optional as_bool) kvs ''continue'') (\<lambda>c.
     Option.bind (read_field (optional as_str) kvs ''stopReason'') (\<lambda>s.
     Option.bind (read_field (optional stop_specific_of) kvs ''hookSpecificOutput'') (\<lambda>h.
       Some \<lparr>sj_decision = d, sj_reason = r, sj_continue = c, sj_stop_reason = s, sj_context = h\<rparr>))))))"

definition feedback :: "string option \<Rightarrow> string option" where
  "feedback v = map_option (\<lambda>c. clip_text c MAX_HOOK_FEEDBACK_CHARS) (non_blank v)"

definition stop_json_to_outcome :: "stop_json \<Rightarrow> string \<Rightarrow> string + stop_outcome" where
  "stop_json_to_outcome j name =
     (let outcome = (\<lambda>block. Inr \<lparr>st_block_reason = block, st_additional_context = feedback (Option.bind (sj_context j) (\<lambda>c. c)),
            st_force_stop = (if sj_continue j = Some False then Some \<lparr>so_reason = sj_stop_reason j\<rparr> else None)\<rparr>)
      in case sj_decision j of
           None \<Rightarrow> outcome None
         | Some d \<Rightarrow>
             if d = ''block'' then outcome (Some (case non_blank (sj_reason j) of
                 Some r \<Rightarrow> r | None \<Rightarrow> ''Blocked by stop hook '' @ QUOTE @ name @ QUOTE))
             else if d = ''approve'' then outcome None
             else Inl (quoted_unknown d))"

record post_specific =
  ps_context :: "string option"
  ps_updated_output :: "json option"
  ps_updated_mcp_output :: "json option"

record post_json =
  tj_decision :: "string option"
  tj_reason :: "string option"
  tj_specific :: "post_specific option"

text \<open>These have no defaults: an array must name every field.\<close>

definition post_specific_of :: "json \<Rightarrow> post_specific option" where
  "post_specific_of j =
     Option.bind (struct_fields [(''additionalContext'', False), (''updatedToolOutput'', False), (''updatedMCPToolOutput'', False)] j) (\<lambda>kvs.
     Option.bind (read_field (optional as_str) kvs ''additionalContext'') (\<lambda>c.
     Option.bind (read_field (optional any_json) kvs ''updatedToolOutput'') (\<lambda>u.
     Option.bind (read_field (optional any_json) kvs ''updatedMCPToolOutput'') (\<lambda>m.
       Some \<lparr>ps_context = c, ps_updated_output = u, ps_updated_mcp_output = m\<rparr>))))"

definition post_json_of :: "json \<Rightarrow> post_json option" where
  "post_json_of j =
     Option.bind (struct_fields [(''decision'', False), (''reason'', False), (''hookSpecificOutput'', False)] j) (\<lambda>kvs.
     Option.bind (read_field (optional as_str) kvs ''decision'') (\<lambda>d.
     Option.bind (read_field (optional as_str) kvs ''reason'') (\<lambda>r.
     Option.bind (read_field (optional post_specific_of) kvs ''hookSpecificOutput'') (\<lambda>s.
       Some \<lparr>tj_decision = d, tj_reason = r, tj_specific = s\<rparr>))))"

definition post_replacement :: "post_specific \<Rightarrow> string \<Rightarrow> output_replacement option" where
  "post_replacement s name = (case (ps_updated_output s, ps_updated_mcp_output s) of
     (Some v, _) \<Rightarrow> Some \<lparr>or_kind = Replace_Builtin, or_hook_name = name, or_value = v\<rparr>
   | (None, Some v) \<Rightarrow> Some \<lparr>or_kind = Replace_Mcp, or_hook_name = name, or_value = v\<rparr>
   | (None, None) \<Rightarrow> None)"

definition post_block :: "post_json \<Rightarrow> string \<Rightarrow> string option \<times> string option" where
  "post_block j name = (case tj_decision j of
     None \<Rightarrow> (None, None)
   | Some d \<Rightarrow>
       if d = ''block'' then (Some (case feedback (tj_reason j) of
           Some r \<Rightarrow> r | None \<Rightarrow> ''Blocked by post_tool_use hook '' @ QUOTE @ name @ QUOTE), None)
       else if d = ''approve'' then (None, None)
       else (None, Some (''unrecognized decision value '' @ QUOTE @ clip_reason d @ QUOTE
              @ ''; only '' @ [CHR 0x22] @ ''block'' @ [CHR 0x22] @ '' is honored'')))"

definition post_tool_use_json_to_outcome :: "post_json \<Rightarrow> string \<Rightarrow> hook_health \<Rightarrow> post_outcome \<times> string option" where
  "post_tool_use_json_to_outcome j name health = (case post_block j name of (block, failure) \<Rightarrow>
     (\<lparr>po_block_reason = block,
       po_additional_context = drop_if_broken (feedback (Option.bind (tj_specific j) ps_context)) health,
       po_replacement = drop_if_broken (Option.bind (tj_specific j) (\<lambda>s. post_replacement s name)) health\<rparr>, failure))"

section \<open>Commands\<close>

definition GATE_EXIT_CODE :: int where "GATE_EXIT_CODE = 2"
definition MAX_OUTPUT_BYTES :: nat where "MAX_OUTPUT_BYTES = 16 * MAX_HOOK_OUTPUT_REPLACEMENT_CHARS"

definition dec_of_int :: "int \<Rightarrow> string" where
  "dec_of_int i = (if i < 0 then CHR ''-'' # dec_of_nat (nat (- i)) else dec_of_nat (nat i))"

definition stderr_first_line :: "string \<Rightarrow> string option" where
  "stderr_first_line stderr = find (\<lambda>l. l \<noteq> []) (map trim (lines stderr))"

definition append_stderr_line :: "string \<Rightarrow> string \<Rightarrow> string" where
  "append_stderr_line message stderr = (case stderr_first_line stderr of
     Some line \<Rightarrow> message @ '': '' @ clip_reason line
   | None \<Rightarrow> message)"

definition failed_with_exit_code :: "int \<Rightarrow> string \<Rightarrow> hook_runner_result" where
  "failed_with_exit_code exit_code stderr = Ran_Failed (append_stderr_line (''exit code '' @ dec_of_int exit_code) stderr)"

definition trimmed_document :: "hook_env \<Rightarrow> string \<Rightarrow> json option" where
  "trimmed_document H stdout = (if trim stdout = [] then None else json_document H (trim stdout))"

definition gate_document :: "hook_env \<Rightarrow> string \<Rightarrow> gate_json option" where
  "gate_document H stdout = (case Option.bind (trimmed_document H stdout) gate_json_of of
     Some g \<Rightarrow> if is_gate_document g then Some g else None
   | None \<Rightarrow> None)"

definition exit_code_result :: "string \<Rightarrow> int \<Rightarrow> string \<Rightarrow> hook_runner_result" where
  "exit_code_result stderr exit_code name =
     (if exit_code = 0 then Ran_Allow None None
      else if exit_code = GATE_EXIT_CODE then
        Ran_Deny (case stderr_first_line stderr of Some l \<Rightarrow> clip_reason l
            | None \<Rightarrow> ''denied by hook '' @ QUOTE @ name @ QUOTE @ '' (exit code 2)'') name
      else failed_with_exit_code exit_code stderr)"

definition parse_blocking_result :: "hook_env \<Rightarrow> string \<Rightarrow> string \<Rightarrow> int \<Rightarrow> string \<Rightarrow> hook_runner_result" where
  "parse_blocking_result H stdout stderr exit_code name = (case gate_document H stdout of
     None \<Rightarrow> exit_code_result stderr exit_code name
   | Some g \<Rightarrow> (case gate_outcome_of g name (stderr_first_line stderr) (health_from_success (exit_code = 0)) of
       Outcome_Deny rsn \<Rightarrow> Ran_Deny rsn name
     | Outcome_Allow input ctx \<Rightarrow>
         if exit_code = GATE_EXIT_CODE then exit_code_result stderr exit_code name else Ran_Allow input ctx
     | Outcome_Ask rsn input ctx \<Rightarrow>
         if exit_code = GATE_EXIT_CODE then exit_code_result stderr exit_code name else Ran_Ask rsn input ctx
     | Outcome_Defer \<Rightarrow>
         if exit_code = GATE_EXIT_CODE then exit_code_result stderr exit_code name else Ran_Defer
     | Outcome_Failed err \<Rightarrow>
         if exit_code \<noteq> GATE_EXIT_CODE then Ran_Failed (append_stderr_line err stderr)
         else Ran_Deny (clip_reason (case stderr_first_line stderr of Some l \<Rightarrow> err @ '': '' @ l | None \<Rightarrow> err)) name))"

definition parse_stop_result :: "hook_env \<Rightarrow> string \<Rightarrow> string \<Rightarrow> int \<Rightarrow> string \<Rightarrow> hook_runner_result" where
  "parse_stop_result H stdout stderr exit_code name = (case Option.bind (trimmed_document H stdout) stop_json_of of
     Some j \<Rightarrow> (case stop_json_to_outcome j name of Inr outcome \<Rightarrow> Ran_Stop outcome | Inl err \<Rightarrow> Ran_Failed err)
   | None \<Rightarrow>
       if exit_code = 0 then Ran_Stop stop_default
       else if exit_code = GATE_EXIT_CODE then
         Ran_Stop (stop_default\<lparr>st_block_reason := Some (if trim stderr = []
           then ''Blocked by stop hook '' @ QUOTE @ name @ QUOTE @ '' (exit code 2)'' else trim stderr)\<rparr>)
       else failed_with_exit_code exit_code stderr)"

definition prompt_exit_result :: "string \<Rightarrow> int \<Rightarrow> string \<Rightarrow> hook_runner_result" where
  "prompt_exit_result stderr exit_code name =
     (if exit_code = 0 then Ran_Success
      else if exit_code = GATE_EXIT_CODE then
        Ran_Block (if trim stderr = [] then ''Prompt blocked by hook '' @ QUOTE @ name @ QUOTE @ '' (exit code 2)'' else trim stderr) name
      else failed_with_exit_code exit_code stderr)"

definition parse_prompt_result :: "hook_env \<Rightarrow> string \<Rightarrow> string \<Rightarrow> int \<Rightarrow> string \<Rightarrow> hook_runner_result" where
  "parse_prompt_result H stdout stderr exit_code name = (case Option.bind (trimmed_document H stdout) prompt_json_of of
     Some j \<Rightarrow> (case prompt_json_to_block j name (if trim stderr = [] then None else Some (trim stderr)) of
         Inr (Some rsn) \<Rightarrow> Ran_Block rsn name
       | Inr None \<Rightarrow> prompt_exit_result stderr exit_code name
       | Inl err \<Rightarrow> if exit_code = GATE_EXIT_CODE then prompt_exit_result stderr exit_code name
                    else Ran_Failed (append_stderr_line err stderr))
   | None \<Rightarrow> prompt_exit_result stderr exit_code name)"

definition parse_post_tool_use_result :: "hook_env \<Rightarrow> string \<Rightarrow> string \<Rightarrow> int \<Rightarrow> string \<Rightarrow> hook_runner_result" where
  "parse_post_tool_use_result H stdout stderr exit_code name =
     (case (case Option.bind (trimmed_document H stdout) post_json_of of
              Some j \<Rightarrow> post_tool_use_json_to_outcome j name (health_from_success (exit_code = 0))
            | None \<Rightarrow> (post_default, None)) of (parsed, failure) \<Rightarrow>
      let outcome = (if exit_code = GATE_EXIT_CODE \<and> po_block_reason parsed = None \<and> trim stderr \<noteq> []
                     then parsed\<lparr>po_block_reason := Some (clip_text (trim stderr) MAX_HOOK_FEEDBACK_CHARS)\<rparr> else parsed)
      in if exit_code \<noteq> 0 \<and> exit_code \<noteq> GATE_EXIT_CODE then
           (let exit_failure = append_stderr_line (''exit code '' @ dec_of_int exit_code) stderr
            in if post_is_empty outcome then Ran_Failed exit_failure else Ran_PostToolUse outcome (Some exit_failure))
         else Ran_PostToolUse outcome failure)"

section \<open>Responses\<close>

text \<open>The status of a response; its text is that of the library.\<close>

record http_status =
  status_code :: nat
  status_text :: string

definition status_is_success :: "http_status \<Rightarrow> bool" where
  "status_is_success s \<longleftrightarrow> 200 \<le> status_code s \<and> status_code s < 300"

definition status_failure :: "http_status \<Rightarrow> hook_runner_result" where
  "status_failure s = Ran_Failed (''HTTP status '' @ status_text s)"

definition parse_http_stop_result :: "hook_env \<Rightarrow> string \<Rightarrow> http_status \<Rightarrow> string \<Rightarrow> hook_runner_result" where
  "parse_http_stop_result H response_text s name =
     (if \<not> status_is_success s then status_failure s
      else case Option.bind (trimmed_document H response_text) stop_json_of of
        Some j \<Rightarrow> (case stop_json_to_outcome j name of Inr outcome \<Rightarrow> Ran_Stop outcome | Inl err \<Rightarrow> Ran_Failed err)
      | None \<Rightarrow> Ran_Stop stop_default)"

definition parse_http_post_tool_use_result :: "hook_env \<Rightarrow> string \<Rightarrow> http_status \<Rightarrow> string \<Rightarrow> hook_runner_result" where
  "parse_http_post_tool_use_result H response_text s name =
     (if \<not> status_is_success s then status_failure s
      else case Option.bind (trimmed_document H response_text) post_json_of of
        Some j \<Rightarrow> (case post_tool_use_json_to_outcome j name Healthy of (outcome, failure) \<Rightarrow> Ran_PostToolUse outcome failure)
      | None \<Rightarrow> Ran_PostToolUse post_default None)"

definition parse_http_prompt_result :: "hook_env \<Rightarrow> string \<Rightarrow> http_status \<Rightarrow> string \<Rightarrow> hook_runner_result" where
  "parse_http_prompt_result H response_text s name =
     (if \<not> status_is_success s then status_failure s
      else case Option.bind (trimmed_document H response_text) prompt_json_of of
        Some j \<Rightarrow> (case prompt_json_to_block j name None of
            Inr (Some rsn) \<Rightarrow> Ran_Block rsn name
          | Inr None \<Rightarrow> Ran_Success
          | Inl err \<Rightarrow> Ran_Failed err)
      | None \<Rightarrow> Ran_Success)"

text \<open>The document of a response is read without trimming it first. The message of a parser is an argument.\<close>

definition parse_http_blocking_result :: "hook_env \<Rightarrow> (string \<Rightarrow> string) \<Rightarrow> string \<Rightarrow> http_status \<Rightarrow> string \<Rightarrow> hook_runner_result" where
  "parse_http_blocking_result H parse_error response_text s name =
     (if trim response_text = [] then
        (if status_is_success s then Ran_Allow None None
         else Ran_Failed (''HTTP status '' @ status_text s @ '' with empty body''))
      else case Option.bind (json_document H response_text) gate_json_of of
        Some g \<Rightarrow>
          if is_gate_document g then
            (case gate_outcome_of g name None (health_from_success (status_is_success s)) of
               Outcome_Deny rsn \<Rightarrow> Ran_Deny rsn name
             | Outcome_Ask rsn input ctx \<Rightarrow> Ran_Ask rsn input ctx
             | Outcome_Defer \<Rightarrow> Ran_Defer
             | Outcome_Allow input ctx \<Rightarrow> Ran_Allow input ctx
             | Outcome_Failed err \<Rightarrow> Ran_Failed (err @ '' (HTTP status '' @ status_text s @ '')''))
          else if status_is_success s then Ran_Allow None None
          else Ran_Failed (''HTTP status '' @ status_text s @ '' with non-decision body'')
      | None \<Rightarrow>
          if status_is_success s then Ran_Allow None None
          else Ran_Failed (''HTTP status '' @ status_text s @ '' and failed to parse response: '' @ parse_error response_text))"

section \<open>When a hook denies\<close>

lemmas outcome_splits = option.splits decision_token.splits gate_outcome.splits if_splits prod.splits sum.splits

definition denies :: "gate_json \<Rightarrow> bool" where
  "denies g \<longleftrightarrow> fst (resolve_decision g) = Token_Deny"

lemma outcome_deny: "(\<exists>rsn. gate_outcome_of g name fallback health = Outcome_Deny rsn) \<longleftrightarrow> denies g"
  by (auto simp: gate_outcome_of_def denies_def split: prod.splits decision_token.splits)

lemma outcome_deny_cases:
  "denies g \<Longrightarrow> \<exists>rsn. gate_outcome_of g name fallback health = Outcome_Deny rsn"
  "gate_outcome_of g name fallback health = Outcome_Deny rsn \<Longrightarrow> denies g"
  using outcome_deny by blast+

lemma exit_two: "\<exists>rsn. exit_code_result stderr GATE_EXIT_CODE name = Ran_Deny rsn name"
  by (simp add: exit_code_result_def GATE_EXIT_CODE_def)

text \<open>A command denies a tool call exactly when it exits with code 2 or prints a document of the gate whose decision is a
  denial, whatever its exit code.\<close>

lemma command_denies:
  "(\<exists>rsn h. parse_blocking_result H stdout stderr exit_code name = Ran_Deny rsn h)
   \<longleftrightarrow> exit_code = GATE_EXIT_CODE \<or> (\<exists>g. gate_document H stdout = Some g \<and> denies g)"
proof (cases "exit_code = GATE_EXIT_CODE")
  case True
  then show ?thesis using exit_two [of stderr name]
    by (auto simp: parse_blocking_result_def split: option.split gate_outcome.split)
next
  case False
  then show ?thesis
    by (auto simp: parse_blocking_result_def exit_code_result_def failed_with_exit_code_def
        split: option.splits gate_outcome.splits if_splits dest: outcome_deny_cases(2) outcome_deny_cases(1))
      (metis gate_outcome.distinct outcome_deny_cases(1))+
qed

text \<open>The answers of a tool gate.\<close>

fun tool_answer :: "string \<Rightarrow> hook_runner_result \<Rightarrow> bool" where
  "tool_answer name (Ran_Allow _ _) = True"
| "tool_answer name (Ran_Ask _ _ _) = True"
| "tool_answer name Ran_Defer = True"
| "tool_answer name (Ran_Deny _ h) = (h = name)"
| "tool_answer name (Ran_Failed _) = True"
| "tool_answer name _ = False"

lemma command_tool_answer: "tool_answer name (parse_blocking_result H stdout stderr exit_code name)"
  by (auto simp: parse_blocking_result_def exit_code_result_def failed_with_exit_code_def
      split: option.split gate_outcome.split)

lemma http_tool_answer: "tool_answer name (parse_http_blocking_result H pe body s name)"
  by (auto simp: parse_http_blocking_result_def split: option.split gate_outcome.split)

lemma http_denies:
  "(\<exists>rsn h. parse_http_blocking_result H pe body s name = Ran_Deny rsn h)
   \<longleftrightarrow> trim body \<noteq> [] \<and> (\<exists>g. Option.bind (json_document H body) gate_json_of = Some g \<and> is_gate_document g \<and> denies g)"
proof (cases "Option.bind (json_document H body) gate_json_of")
  case (Some g)
  then show ?thesis
  proof (cases "denies g")
    case True
    then obtain rsn where "gate_outcome_of g name None (health_from_success (status_is_success s)) = Outcome_Deny rsn"
      using outcome_deny_cases(1) by blast
    with Some True show ?thesis by (auto simp: parse_http_blocking_result_def)
  next
    case False
    with Some show ?thesis
      by (auto simp: parse_http_blocking_result_def split: gate_outcome.splits if_splits dest: outcome_deny_cases(2))
  qed
qed (auto simp: parse_http_blocking_result_def)

text \<open>A rewrite that is no object is left out, and the decision beside it stands.\<close>

lemma non_object_rewrite_dropped:
  assumes "gj_specific g = Some spc" "gs_updated_input spc = Some v" "\<forall>kvs. v \<noteq> JObject kvs" "fst (resolve_decision g) = Token_Allow"
  shows "gate_outcome_of g name fallback Healthy = Outcome_Allow None (gate_context g)"
  using assms by (cases v) (auto simp: gate_outcome_of_def resolve_rewrite_def take_updated_input_def drop_if_broken_def split: prod.split)

text \<open>A hook that failed changes nothing: what it would rewrite or add is dropped.\<close>

fun changes_nothing :: "hook_runner_result \<Rightarrow> bool" where
  "changes_nothing (Ran_Allow input ctx) = (input = None \<and> ctx = None)"
| "changes_nothing (Ran_Ask _ input ctx) = (input = None \<and> ctx = None)"
| "changes_nothing (Ran_PostToolUse o1 _) = (po_additional_context o1 = None \<and> po_replacement o1 = None)"
| "changes_nothing _ = True"

lemma drop_broken [simp]: "drop_if_broken v Broken = None"
  by (simp add: drop_if_broken_def)

lemma gate_outcome_broken:
  "gate_outcome_of g name fallback Broken = Outcome_Allow i c \<Longrightarrow> i = None \<and> c = None"
  "gate_outcome_of g name fallback Broken = Outcome_Ask r i c \<Longrightarrow> i = None \<and> c = None"
  by (auto simp: gate_outcome_of_def resolve_rewrite_def split: prod.splits decision_token.splits)

lemma broken_command_changes_nothing:
  assumes "exit_code \<noteq> 0"
  shows "changes_nothing (parse_blocking_result H stdout stderr exit_code name)"
    and "changes_nothing (parse_post_tool_use_result H stdout stderr exit_code name)"
proof -
  have b: "health_from_success False = Broken" by (simp add: health_from_success_def)
  show "changes_nothing (parse_blocking_result H stdout stderr exit_code name)"
    using assms
    by (auto simp: parse_blocking_result_def b exit_code_result_def failed_with_exit_code_def
        split: option.split gate_outcome.split dest: gate_outcome_broken)
  show "changes_nothing (parse_post_tool_use_result H stdout stderr exit_code name)"
    using assms by (auto simp: parse_post_tool_use_result_def b post_tool_use_json_to_outcome_def post_default_def Let_def
        split: option.split prod.split)
qed

lemma prompt_exit_two_blocks: "\<exists>rsn. parse_prompt_result H stdout stderr GATE_EXIT_CODE name = Ran_Block rsn name"
  by (auto simp: parse_prompt_result_def prompt_exit_result_def GATE_EXIT_CODE_def split: option.split sum.split)

text \<open>At the stop of a turn the document wins, an empty one too: exit code 2 with a message on the other stream does
  not block then.\<close>

lemma stop_document_hides_exit_code:
  assumes "trim stdout \<noteq> []" "json_document H (trim stdout) = Some (JObject [])"
  shows "parse_stop_result H stdout stderr GATE_EXIT_CODE name = Ran_Stop stop_default"
  using assms by (simp add: parse_stop_result_def trimmed_document_def stop_json_of_def struct_fields_def read_field_def field_of_def
      optional_def stop_json_to_outcome_def stop_default_def feedback_def non_blank_def)

end
