(* ===== verification/Hook_Runner.thy ===== *)
theory Hook_Runner
  imports Hook_Documents Url_Matching
begin

unbundle bit_operations_syntax

text \<open>
  Running a hook (\<open>xai-grok-hooks/src/runner/command.rs\<close>, \<open>runner/http.rs\<close>): what is checked before a command is
  started and the environment it is started with, the check of the address of an HTTP hook, and the result of the run for
  each kind of gate. The process, the network and the resolver are fields of a runtime.

  The theory shows that a command sees the true values of the variables of the runner whatever its settings say; which
  addresses of four octets are refused, as blocks of addresses; and that a request is sent only to an address that was
  checked, over the secure scheme.
\<close>

section \<open>Variables of a command\<close>

definition blank :: "char \<Rightarrow> bool" where
  "blank c \<longleftrightarrow> c = CHR '' '' \<or> c = CHR 0x09"

text \<open>The bytes before the position, the last one first.\<close>

definition is_statement_start :: "string \<Rightarrow> bool" where
  "is_statement_start before = (case dropWhile blank before of
     [] \<Rightarrow> True
   | c # _ \<Rightarrow> c \<in> {CHR '';'', CHR ''&'', CHR ''|'', NL, CHR ''('', CHR ''{''})"

definition ident_start :: "char \<Rightarrow> bool" where
  "ident_start c \<longleftrightarrow> is_ascii_alphabetic c \<or> c = CHR ''_''"

text \<open>The names after \<open>read\<close>, and what follows them.\<close>

function read_names :: "string \<Rightarrow> string list \<times> string" where
  "read_names [] = ([], [])"
| "read_names (c # cs) =
     (if c \<in> {CHR '';'', CHR ''&'', CHR ''|'', NL, CHR ''<'', CHR ''>''} then ([], c # cs)
      else if blank c then read_names cs
      else if c = CHR ''-'' then read_names (dropWhile (\<lambda>b. \<not> blank b) cs)
      else if \<not> ident_start c then ([], c # cs)
      else (case read_names (dropWhile ident_byte cs) of (names, rest) \<Rightarrow> ((c # takeWhile ident_byte cs) # names, rest)))"
  by pat_completeness auto
termination
  by (relation "measure length") (auto simp: less_Suc_eq_le)

lemma read_names_rest: "length (snd (read_names s)) \<le> length s"
  by (induction s rule: read_names.induct)
    (auto split: prod.split intro: le_trans [OF _ le_trans [OF dropWhile_shorter]] le_SucI)

function assignments_from :: "string \<Rightarrow> string \<Rightarrow> string list" where
  "assignments_from before [] = []"
| "assignments_from before (c # cs) =
     (if \<not> ident_start c then assignments_from (c # before) cs
      else let ident = c # takeWhile ident_byte cs; rest = dropWhile ident_byte cs; at = rev ident @ before
           in if starts_with rest ''='' \<and> is_statement_start before then ident # assignments_from at rest
              else if ident = ''read'' \<and> is_statement_start before then
                (let (names, rest') = read_names rest
                 in names @ assignments_from (rev (take (length rest - length rest') rest) @ at) rest')
              else assignments_from at rest)"
  by pat_completeness auto
termination
proof (relation "measure (\<lambda>(before, s). length s)", goal_cases)
  case (4 before c cs ident rest at p names rest')
  then have "length rest' \<le> length rest" using read_names_rest [of rest] by (metis snd_conv)
  then have "length rest' \<le> length cs" using 4(3) dropWhile_shorter [of ident_byte cs] le_trans by blast
  then show ?case by (simp add: less_Suc_eq_le)
qed (auto simp: less_Suc_eq_le)

definition find_local_shell_assignments :: "string \<Rightarrow> string list" where
  "find_local_shell_assignments command = assignments_from [] command"

definition find_unresolved_env_vars :: "hook_env \<Rightarrow> string \<Rightarrow> (string \<times> string) list \<Rightarrow> string list" where
  "find_unresolved_env_vars H command extra =
     remdups_adj (sort (map ref_name (filter (\<lambda>r. \<not> (ref_name r = [] \<or> ref_modifier r)
       \<and> ref_name r \<notin> set RUNNER_ALWAYS_SET_ENV \<and> map_of extra (ref_name r) = None \<and> process_var H (ref_name r) = None
       \<and> ref_name r \<notin> set (find_local_shell_assignments command)) (iter_env_var_references command))))"

section \<open>Commands\<close>

text \<open>How a command is started: by a shell, or as a program at a path.\<close>

datatype hook_launch = Launch_Shell string | Launch_Program string

text \<open>What becomes of the process: it is not started, the session is closed before it ran, it takes too long, waiting for
  it fails, or it ends, with an exit code unless a signal ended it, and its two outputs.\<close>

datatype process_end =
    Proc_NotStarted string
  | Proc_SessionClosed
  | Proc_TimedOut
  | Proc_WaitFailed string
  | Proc_Exited "int option" string string

text \<open>The response to a request: none, in time or at all, a body that cannot be read, or a status and the bytes of the body.\<close>

datatype http_end =
    Http_TimedOut
  | Http_SendFailed string
  | Http_BodyFailed http_status string
  | Http_Responded http_status string

record hook_url =
  hu_scheme :: string
  hu_host :: "string option"
  hu_port_or_default :: "nat option"

record hook_runtime =
  rt_session_id :: string
  rt_workspace_root :: string
  rt_serialize :: "json \<Rightarrow> string + string"
  rt_exists :: "string \<Rightarrow> bool"
  rt_run :: "hook_launch \<Rightarrow> (string \<times> string) list \<Rightarrow> string \<Rightarrow> u64 \<Rightarrow> process_end"
  rt_lossy :: "string \<Rightarrow> string"
  rt_parse_url :: "string \<Rightarrow> string + hook_url"
  rt_lookup :: "string \<Rightarrow> string + ip_addr list"
  rt_lookup_in_time :: bool
  rt_post :: "string \<Rightarrow> string \<Rightarrow> u64 \<Rightarrow> http_end"
  rt_parse_error :: "string \<Rightarrow> string"

definition truncate_output :: "hook_runtime \<Rightarrow> string \<Rightarrow> string" where
  "truncate_output rt bytes =
     (if length bytes \<le> MAX_OUTPUT_BYTES then rt_lossy rt bytes
      else rt_lossy rt (take MAX_OUTPUT_BYTES bytes) @ '' [truncated]'')"

definition is_shell_command :: "string \<Rightarrow> bool" where
  "is_shell_command command \<longleftrightarrow>
     list_ex (\<lambda>c. c \<in> {CHR '' '', CHR ''|'', CHR ''&'', CHR '';'', CHR ''>'', CHR ''<'', CHR ''$''}) command
     \<or> starts_with command ''~''"

definition resolve_command_path :: "hook_spec \<Rightarrow> string option" where
  "resolve_command_path s = map_option (\<lambda>c. if starts_with c ''/'' then c else path_join (spec_source_dir s) c) (spec_command s)"

definition identity_env :: "hook_runtime \<Rightarrow> hook_spec \<Rightarrow> hook_envelope \<Rightarrow> (string \<times> string) list" where
  "identity_env rt s e =
     [(''GROK_HOOK_EVENT'', event_display (env_event e)), (''GROK_HOOK_NAME'', spec_name s),
      (''GROK_SESSION_ID'', rt_session_id rt), (''GROK_WORKSPACE_ROOT'', rt_workspace_root rt),
      (''CLAUDE_PROJECT_DIR'', rt_workspace_root rt)]"

text \<open>The variables in the order they are set: a later one replaces an earlier one.\<close>

definition set_vars :: "(string \<times> string) list \<Rightarrow> (string \<times> string) list \<Rightarrow> (string \<times> string) list" where
  "set_vars vars env = rev vars @ env"

definition child_env :: "hook_runtime \<Rightarrow> hook_spec \<Rightarrow> hook_envelope \<Rightarrow> (string \<times> string) list" where
  "child_env rt s e = set_vars (identity_env rt s e) (set_vars (spec_extra_env s) [])"

definition launch_of :: "hook_env \<Rightarrow> hook_runtime \<Rightarrow> hook_spec \<Rightarrow> string \<Rightarrow> string + hook_launch" where
  "launch_of H rt s command =
     (if is_shell_command command then
        (let unresolved = find_unresolved_env_vars H command (spec_extra_env s)
         in if unresolved \<noteq> [] then Inl (''hook not executed: required env var(s) not set: ''
                @ join '', '' (map (\<lambda>v. ''${'' @ v @ ''}'') unresolved))
            else Inr (Launch_Shell command))
      else (let path = (if starts_with command ''/'' then command else path_join (spec_source_dir s) command)
            in if rt_exists rt path then Inr (Launch_Program path) else Inl (''command not found: '' @ path)))"

definition interpret_output :: "hook_env \<Rightarrow> gate_kind \<Rightarrow> string \<Rightarrow> string \<Rightarrow> int \<Rightarrow> string \<Rightarrow> hook_runner_result" where
  "interpret_output H mode stdout stderr exit_code name = (case mode of
     Gate_Observe \<Rightarrow> if exit_code = 0 then Ran_Success else failed_with_exit_code exit_code stderr
   | Gate_Tool \<Rightarrow> parse_blocking_result H stdout stderr exit_code name
   | Gate_Stop \<Rightarrow> parse_stop_result H stdout stderr exit_code name
   | Gate_PostTool \<Rightarrow> parse_post_tool_use_result H stdout stderr exit_code name
   | Gate_Prompt \<Rightarrow> parse_prompt_result H stdout stderr exit_code name)"

definition timed_out :: "u64 \<Rightarrow> string" where
  "timed_out ms = ''timed out after '' @ dec_of_nat (unat ms) @ ''ms''"

definition run_command_hook ::
  "hook_env \<Rightarrow> hook_runtime \<Rightarrow> hook_spec \<Rightarrow> hook_envelope \<Rightarrow> gate_kind \<Rightarrow> hook_runner_result \<times> string option" where
  "run_command_hook H rt s e mode = (case spec_command s of
     None \<Rightarrow> (Ran_Failed (''command hook has no '' @ QUOTE @ ''command'' @ QUOTE @ '' field''), None)
   | Some command \<Rightarrow> (case rt_serialize rt (to_hook_json e) of
       Inl err \<Rightarrow> (Ran_Failed (''failed to serialize envelope: '' @ err), None)
     | Inr stdin \<Rightarrow> (case launch_of H rt s command of
         Inl err \<Rightarrow> (Ran_Failed err, None)
       | Inr launch \<Rightarrow> (case rt_run rt launch (child_env rt s e) stdin (spec_timeout_ms s) of
           Proc_NotStarted err \<Rightarrow> (Ran_Failed (''failed to spawn command: '' @ err), None)
         | Proc_SessionClosed \<Rightarrow> (Ran_Failed ''session closed before the hook ran'', None)
         | Proc_TimedOut \<Rightarrow> (Ran_Failed (timed_out (spec_timeout_ms s)), None)
         | Proc_WaitFailed err \<Rightarrow> (Ran_Failed (''command execution failed: '' @ err), None)
         | Proc_Exited status out err \<Rightarrow>
             (let exit_code = (case status of Some c \<Rightarrow> c | None \<Rightarrow> -1); stdout = truncate_output rt out
              in (interpret_output H mode stdout (truncate_output rt err) exit_code (spec_name s),
                  extract_system_message H stdout))))))"

section \<open>Addresses\<close>

definition is_blocked_ipv4 :: "ipv4 \<Rightarrow> bool" where
  "is_blocked_ipv4 octets =
     (let a = octets ! 0; b = octets ! 1
      in if a = 127 then False
         else if a = 10 then True
         else if a = 172 \<and> 16 \<le> b \<and> b \<le> 31 then True
         else if a = 192 \<and> b = 168 then True
         else if a = 169 \<and> b = 254 then True
         else if a = 100 \<and> 64 \<le> b \<and> b \<le> 127 then True
         else octets = [0, 0, 0, 0])"

fun is_blocked_ip :: "ip_addr \<Rightarrow> bool" where
  "is_blocked_ip (IpAddr_V4 v4) = is_blocked_ipv4 v4"
| "is_blocked_ip (IpAddr_V6 v6) =
     (if v6 = [0, 0, 0, 0, 0, 0, 0, 1] then False
      else if v6 = [0, 0, 0, 0, 0, 0, 0, 0] then True
      else case to_ipv4_mapped v6 of
        Some v4 \<Rightarrow> is_blocked_ipv4 v4
      | None \<Rightarrow> (let g = (of_nat (v6 ! 0) :: 16 word) in g AND 0xffc0 = 0xfe80 \<or> g AND 0xfe00 = 0xfc00))"

text \<open>\<open>str::parse\<close> of an address: of the old kind first, of at most fifteen bytes.\<close>

definition parse_ip_addr :: "string \<Rightarrow> ip_addr option" where
  "parse_ip_addr s = (case (if length s \<le> 15 then read_octets 4 0 s else None) of
     Some (octets, []) \<Rightarrow> Some (IpAddr_V4 octets)
   | _ \<Rightarrow> map_option IpAddr_V6 (parse_ipv6 s))"

definition ip_display :: "ip_addr \<Rightarrow> string" where
  "ip_display ip = (case ip of IpAddr_V4 a \<Rightarrow> ipv4_display a | IpAddr_V6 a \<Rightarrow> ipv6_display a)"

definition validate_hook_url :: "hook_runtime \<Rightarrow> string \<Rightarrow> string + unit" where
  "validate_hook_url rt url = (case rt_parse_url rt url of
     Inl e \<Rightarrow> Inl (''invalid URL: '' @ e)
   | Inr u \<Rightarrow>
       if hu_scheme u \<noteq> ''https'' then
         Inl (''only https:// URLs are allowed for HTTP hooks, got '' @ hu_scheme u @ ''://'')
       else (case hu_host u of
         None \<Rightarrow> Inl ''URL has no host''
       | Some host \<Rightarrow> (case parse_ip_addr host of
           Some ip \<Rightarrow> if is_blocked_ip ip then Inl (''URL resolves to blocked private/internal IP: '' @ ip_display ip) else Inr ()
         | None \<Rightarrow>
             (let port = (case hu_port_or_default u of Some p \<Rightarrow> p | None \<Rightarrow> 443)
              in case rt_lookup rt (host @ '':'' @ dec_of_nat port) of
                   Inl e \<Rightarrow> Inl (''DNS resolution failed for '' @ host @ '': '' @ e)
                 | Inr addrs \<Rightarrow>
                     if addrs = [] then Inl (''DNS resolved no addresses for '' @ host)
                     else (case find is_blocked_ip addrs of
                       Some ip \<Rightarrow> Inl (''URL host '' @ host @ '' resolves to blocked private/internal IP: '' @ ip_display ip)
                     | None \<Rightarrow> Inr ())))))"

record http_info =
  hi_expanded_url :: string
  hi_source_url :: "string option"
  hi_status :: "nat option"
  hi_preview :: "string option"

definition RESPONSE_PREVIEW_MAX :: nat where "RESPONSE_PREVIEW_MAX = 200"

text \<open>The index of the last character that starts within the limit.\<close>

definition truncate_preview :: "string \<Rightarrow> string" where
  "truncate_preview s =
     (let trimmed = trim s
      in if length trimmed \<le> RESPONSE_PREVIEW_MAX then trimmed
         else take (walk_back trimmed RESPONSE_PREVIEW_MAX) trimmed @ ''...'')"

definition interpret_response :: "hook_env \<Rightarrow> hook_runtime \<Rightarrow> gate_kind \<Rightarrow> string \<Rightarrow> http_status \<Rightarrow> string \<Rightarrow> hook_runner_result" where
  "interpret_response H rt mode body status name = (case mode of
     Gate_Tool \<Rightarrow> parse_http_blocking_result H (rt_parse_error rt) body status name
   | Gate_Stop \<Rightarrow> parse_http_stop_result H body status name
   | Gate_PostTool \<Rightarrow> parse_http_post_tool_use_result H body status name
   | Gate_Prompt \<Rightarrow> parse_http_prompt_result H body status name
   | Gate_Observe \<Rightarrow> if status_is_success status then Ran_Success else status_failure status)"

type_synonym hook_run_output = "hook_runner_result \<times> http_info option \<times> string option"

definition run_http_hook ::
  "hook_env \<Rightarrow> hook_runtime \<Rightarrow> hook_spec \<Rightarrow> hook_envelope \<Rightarrow> gate_kind \<Rightarrow> hook_run_output" where
  "run_http_hook H rt s e mode = (case spec_url s of
     None \<Rightarrow> (Ran_Failed (''http hook has no '' @ QUOTE @ ''url'' @ QUOTE @ '' field''), None, None)
   | Some configured_url \<Rightarrow>
       (let url = expand_env_vars_with_extra H configured_url (set_vars (identity_env rt s e) (spec_extra_env s));
            log_url = (case spec_url_raw s of Some u \<Rightarrow> u | None \<Rightarrow> url);
            info = (\<lambda>status preview. Some \<lparr>hi_expanded_url = url, hi_source_url = spec_url_raw s, hi_status = status, hi_preview = preview\<rparr>)
        in case (if rt_lookup_in_time rt then validate_hook_url rt url
                 else Inl (''URL validation timed out after '' @ dec_of_nat (unat (spec_timeout_ms s)) @ ''ms'')) of
             Inl rsn \<Rightarrow> (Ran_Failed (''blocked by SSRF protection: '' @ rsn), info None None, None)
           | Inr _ \<Rightarrow> (case rt_serialize rt (to_hook_json e) of
               Inl err \<Rightarrow> (Ran_Failed (''failed to serialize envelope: '' @ err), info None None, None)
             | Inr body \<Rightarrow> (case rt_post rt url body (spec_timeout_ms s) of
                 Http_TimedOut \<Rightarrow> (Ran_Failed (timed_out (spec_timeout_ms s)), info None None, None)
               | Http_SendFailed err \<Rightarrow> (Ran_Failed (''HTTP request failed for '' @ log_url @ '': '' @ err), info None None, None)
               | Http_BodyFailed status err \<Rightarrow>
                   (Ran_Failed (''failed to read response body for '' @ log_url @ '': '' @ err), info (Some (status_code status)) None, None)
               | Http_Responded status bytes \<Rightarrow>
                   (let response = rt_lossy rt (take MAX_OUTPUT_BYTES bytes)
                    in (interpret_response H rt mode response status (spec_name s),
                        info (Some (status_code status)) (if trim response = [] then None else Some (truncate_preview response)),
                        extract_system_message H response))))))"

definition run_hook :: "hook_env \<Rightarrow> hook_runtime \<Rightarrow> hook_spec \<Rightarrow> hook_envelope \<Rightarrow> gate_kind \<Rightarrow> hook_run_output" where
  "run_hook H rt s e mode = (case spec_handler s of
     Handler_Command \<Rightarrow> (case run_command_hook H rt s e mode of (r, msg) \<Rightarrow> (r, None, msg))
   | Handler_Http \<Rightarrow> run_http_hook H rt s e mode)"

section \<open>What a command sees\<close>

lemma identity_keys: "distinct (map fst (identity_env rt s e))" "fst ` set (identity_env rt s e) = set RUNNER_ALWAYS_SET_ENV"
  by (simp_all add: identity_env_def RUNNER_ALWAYS_SET_ENV_def)

text \<open>The variables of the runner have their true values, whatever the settings of the hook set.\<close>

lemma identity_not_spoofed:
  assumes "(k, v) \<in> set (identity_env rt s e)"
  shows "map_of (child_env rt s e) k = Some v"
proof -
  have "map_of (rev (identity_env rt s e)) k = Some v"
    using assms identity_keys(1) [of rt s e] by (intro map_of_is_SomeI) (simp_all add: rev_map [symmetric])
  then show ?thesis by (simp add: child_env_def set_vars_def)
qed

section \<open>Which addresses are refused\<close>

text \<open>An address of four octets as a number, and a block of addresses by its prefix.\<close>

definition ipv4_number :: "ipv4 \<Rightarrow> nat" where
  "ipv4_number a = foldl (\<lambda>acc o1. 256 * acc + o1) 0 a"

definition in_block :: "nat \<Rightarrow> ipv4 \<Rightarrow> nat \<Rightarrow> bool" where
  "in_block n base len \<longleftrightarrow> n div 2 ^ (32 - len) = ipv4_number base div 2 ^ (32 - len)"

definition octets :: "ipv4 \<Rightarrow> bool" where
  "octets a \<longleftrightarrow> length a = 4 \<and> (\<forall>o1 \<in> set a. o1 < 256)"

lemma div_block_8:
  assumes "b < 256" "c < 256" "d < 256"
  shows "(256 * (256 * (256 * a + b) + c) + d) div 16777216 = (a::nat)"
  using assms by simp

lemma div_block_16:
  assumes "c < 256" "d < 256"
  shows "(256 * (256 * (256 * a + b) + c) + d) div 65536 = 256 * a + (b::nat)"
  using assms by simp

lemma div_block_hi:
  assumes "c < 256" "d < 256"
  shows "(256 * (256 * (256 * a + b) + c) + d) div (65536 * m) = (256 * a + (b::nat)) div m"
  using div_block_16 [OF assms, of a b] by (simp add: div_mult2_eq)

lemma digits_eq:
  assumes "q < m" "y < m"
  shows "m * p + q = m * x + y \<longleftrightarrow> p = x \<and> q = (y::nat)"
proof
  assume h: "m * p + q = m * x + y"
  have m: "m \<noteq> 0" using assms(1) by simp
  have "p = (m * p + q) div m" "x = (m * x + y) div m" using assms m by (simp_all add: div_mult_self4)
  with h have "p = x" by simp
  with h show "p = x \<and> q = y" by simp
qed simp

lemma digits_div:
  assumes "q < k * m" "0 < m"
  shows "(k * m * p + q) div m = k * p + (q::nat) div m \<and> q div m < k"
proof -
  have "k * m * p + q = q + k * p * m" by simp
  then have "(k * m * p + q) div m = k * p + q div m" using assms(2) by (simp only: div_mult_self1)
  then show ?thesis using assms(1) by (simp add: less_mult_imp_div_less)
qed

text \<open>The private blocks, the link-local block, the shared block of carriers, and the unspecified address.\<close>

lemma blocked_ipv4_exact:
  assumes "octets a"
  shows "is_blocked_ipv4 a \<longleftrightarrow>
     in_block (ipv4_number a) [10, 0, 0, 0] 8 \<or> in_block (ipv4_number a) [172, 16, 0, 0] 12
     \<or> in_block (ipv4_number a) [192, 168, 0, 0] 16 \<or> in_block (ipv4_number a) [169, 254, 0, 0] 16
     \<or> in_block (ipv4_number a) [100, 64, 0, 0] 10 \<or> ipv4_number a = 0"
proof -
  obtain p q r t where a: "a = [p, q, r, t]" "p < 256" "q < 256" "r < 256" "t < 256"
    using assms by (auto simp: octets_def length_Suc_conv numeral_eq_Suc)
  have n: "ipv4_number a = 256 * (256 * (256 * p + q) + r) + t" by (simp add: ipv4_number_def a)
  have b8: "in_block (ipv4_number a) [10, 0, 0, 0] 8 \<longleftrightarrow> p = 10"
    using a div_block_8 [of q r t p] by (simp add: in_block_def n) (simp add: ipv4_number_def)
  have b16: "in_block (ipv4_number a) [x, y, 0, 0] 16 \<longleftrightarrow> p = x \<and> q = y" if "y < 256" for x y
  proof -
    have "256 * p + q = 256 * x + y \<longleftrightarrow> p = x \<and> q = y" using a(3) that by (rule digits_eq)
    moreover have "ipv4_number [x, y, 0, 0] = 256 * (256 * (256 * x + y) + 0) + 0" by (simp add: ipv4_number_def)
    moreover have "ipv4_number a div 65536 = 256 * p + q" unfolding n using a(4,5) by (rule div_block_16)
    moreover have "(256 * (256 * (256 * x + y) + 0) + 0) div 65536 = 256 * x + y" by (rule div_block_16) simp_all
    moreover have "(2::nat) ^ (32 - 16) = 65536" by simp
    ultimately show ?thesis unfolding in_block_def by (simp only:)
  qed
  have b12: "in_block (ipv4_number a) [172, 16, 0, 0] 12 \<longleftrightarrow> p = 172 \<and> 16 \<le> q \<and> q \<le> 31"
  proof -
    have "(256 * p + q) div 16 = 16 * p + q div 16" "q div 16 < 16" using digits_div [of q 16 16 p] a(3) by simp_all
    then have "(256 * p + q) div 16 = 2753 \<longleftrightarrow> p = 172 \<and> q div 16 = 1" using digits_eq [of "q div 16" 16 1 p 172] by simp
    then have "(256 * p + q) div 16 = 2753 \<longleftrightarrow> p = 172 \<and> 16 \<le> q \<and> q \<le> 31" by auto
    then show ?thesis using div_block_hi [of r t p q 16] a by (simp add: in_block_def n) (simp add: ipv4_number_def)
  qed
  have b10: "in_block (ipv4_number a) [100, 64, 0, 0] 10 \<longleftrightarrow> p = 100 \<and> 64 \<le> q \<and> q \<le> 127"
  proof -
    have "(256 * p + q) div 64 = 4 * p + q div 64" "q div 64 < 4" using digits_div [of q 4 64 p] a(3) by simp_all
    then have "(256 * p + q) div 64 = 401 \<longleftrightarrow> p = 100 \<and> q div 64 = 1" using digits_eq [of "q div 64" 4 1 p 100] by simp
    then have "(256 * p + q) div 64 = 401 \<longleftrightarrow> p = 100 \<and> 64 \<le> q \<and> q \<le> 127" by auto
    then show ?thesis using div_block_hi [of r t p q 64] a by (simp add: in_block_def n) (simp add: ipv4_number_def)
  qed
  have z: "ipv4_number a = 0 \<longleftrightarrow> a = [0, 0, 0, 0]" unfolding n by (simp add: a)
  show ?thesis unfolding b8 b16 [of 168 192, simplified] b16 [of 254 169, simplified] b12 b10 z
    by (auto simp: is_blocked_ipv4_def a)
qed

text \<open>The addresses a host stands for: itself, or what the resolver gives for it.\<close>

definition destinations :: "hook_runtime \<Rightarrow> hook_url \<Rightarrow> ip_addr list option" where
  "destinations rt u = (case hu_host u of
     None \<Rightarrow> None
   | Some host \<Rightarrow> (case parse_ip_addr host of
       Some ip \<Rightarrow> Some [ip]
     | None \<Rightarrow> (case rt_lookup rt (host @ '':'' @ dec_of_nat (case hu_port_or_default u of Some p \<Rightarrow> p | None \<Rightarrow> 443)) of
         Inr addrs \<Rightarrow> Some addrs
       | Inl _ \<Rightarrow> None)))"

lemma validate_exact:
  "validate_hook_url rt url = Inr () \<longleftrightarrow>
     (\<exists>u addrs. rt_parse_url rt url = Inr u \<and> hu_scheme u = ''https'' \<and> destinations rt u = Some addrs \<and> addrs \<noteq> []
        \<and> (\<forall>ip \<in> set addrs. \<not> is_blocked_ip ip))"
proof (cases "rt_parse_url rt url")
  case (Inr u)
  show ?thesis
  proof (cases "hu_host u")
    case (Some host)
    show ?thesis
    proof (cases "parse_ip_addr host")
      case None
      with Inr Some show ?thesis
        by (auto simp: validate_hook_url_def destinations_def Let_def find_None_iff split: sum.splits option.splits dest!: find_hit)
    qed (use Inr Some in \<open>auto simp: validate_hook_url_def destinations_def\<close>)
  qed (use Inr in \<open>simp add: validate_hook_url_def destinations_def\<close>)
qed (simp add: validate_hook_url_def)

text \<open>A list of digits as a number, and a block of the newer addresses, of eight groups of sixteen bits, by its prefix.\<close>

definition number :: "nat \<Rightarrow> nat list \<Rightarrow> nat" where
  "number b a = foldl (\<lambda>acc d. b * acc + d) 0 a"

definition in_block6 :: "ipv6 \<Rightarrow> ipv6 \<Rightarrow> nat \<Rightarrow> bool" where
  "in_block6 a base len \<longleftrightarrow> number 65536 a div 2 ^ (128 - len) = number 65536 base div 2 ^ (128 - len)"

definition groups :: "ipv6 \<Rightarrow> bool" where
  "groups a \<longleftrightarrow> length a = 8 \<and> (\<forall>g \<in> set a. g < 65536)"

lemma number_foldl: "foldl (\<lambda>acc d. b * acc + d) k a = k * b ^ length a + number b a"
proof (induction a arbitrary: k)
  case (Cons d a)
  have "foldl (\<lambda>acc d. b * acc + d) k (d # a) = (b * k + d) * b ^ length a + number b a" using Cons by simp
  moreover have "number b (d # a) = d * b ^ length a + number b a" using Cons [of d] by (simp add: number_def)
  ultimately show ?case by (simp add: algebra_simps)
qed (simp add: number_def)

lemma number_Cons: "number b (d # a) = d * b ^ length a + number b a"
  using number_foldl [of b d a] by (simp add: number_def)

lemma number_bound: "\<forall>d \<in> set a. d < b \<Longrightarrow> number b a < b ^ length a"
proof (induction a)
  case (Cons d a)
  then have "Suc d \<le> b" "number b a < b ^ length a" by auto
  then have "number b (d # a) < Suc d * b ^ length a" by (simp add: number_Cons)
  also have "\<dots> \<le> b * b ^ length a" using \<open>Suc d \<le> b\<close> by (rule mult_le_mono1)
  finally show ?case by simp
qed (simp add: number_def)

lemma number_prefix:
  assumes "\<forall>x \<in> set (d # a). x < b"
  shows "number b (d # a) div (b ^ length a * m) = d div m"
proof -
  have z: "0 < b ^ length a" using number_bound [of a b] assms by simp
  have "number b (d # a) div b ^ length a = d"
    using number_bound [of a b] assms z by (simp add: number_Cons div_eq_0_iff)
  then show ?thesis by (simp add: div_mult2_eq)
qed

text \<open>The test of the first group by a mask is the test of the prefix.\<close>

lemma group_prefix:
  assumes "g < 65536" "n \<le> 16" "c < 2 ^ (16 - n)"
  shows "(of_nat g :: 16 word) AND NOT (mask n) = push_bit n (of_nat c) \<longleftrightarrow> g div 2 ^ n = c"
proof -
  let ?w = "of_nat g :: 16 word"
  have u: "unat ?w = g" using assms(1) by (simp add: unat_of_nat take_bit_nat_eq_self)
  have c: "unat (of_nat c :: 16 word) = c"
  proof -
    have "(2::nat) ^ (16 - n) \<le> 2 ^ 16" by (rule power_increasing) simp_all
    then have "c < 2 ^ 16" using assms(3) by linarith
    then show ?thesis by (simp add: unat_of_nat take_bit_nat_eq_self)
  qed
  have a: "?w AND NOT (mask n) = push_bit n (drop_bit n ?w)"
    by (rule bit_word_eqI) (auto simp: bit_simps)
  have i: "push_bit n (drop_bit n ?w) = push_bit n (of_nat c) \<longleftrightarrow> drop_bit n ?w = of_nat c"
  proof
    assume e: "push_bit n (drop_bit n ?w) = push_bit n (of_nat c)"
    show "drop_bit n ?w = of_nat c"
    proof (rule bit_word_eqI)
      fix k assume k: "k < LENGTH(16)"
      show "bit (drop_bit n ?w) k = bit (of_nat c :: 16 word) k"
      proof (cases "k < 16 - n")
        case True
        have "bit (push_bit n (drop_bit n ?w)) (n + k) = bit (push_bit n (of_nat c :: 16 word)) (n + k)" using e by simp
        then show ?thesis using True by (auto simp: bit_simps)
      next
        case False
        have "\<not> bit c k"
        proof -
          have "(2::nat) ^ (16 - n) \<le> 2 ^ k" using False by (intro power_increasing) simp_all
          then have "c < 2 ^ k" using assms(3) by linarith
          then show ?thesis by (simp add: bit_iff_odd)
        qed
        then show ?thesis using False by (auto simp: bit_simps)
      qed
    qed
  qed simp
  have "drop_bit n ?w = of_nat c \<longleftrightarrow> unat (drop_bit n ?w) = unat (of_nat c :: 16 word)" by (simp add: word_unat_eq_iff)
  also have "unat (drop_bit n ?w) = g div 2 ^ n" unfolding unat_drop_bit_eq u by (rule drop_bit_eq_div)
  also note c
  finally show ?thesis using a i by simp
qed

lemma link_local_group: "g < 65536 \<Longrightarrow> (of_nat g :: 16 word) AND 0xffc0 = 0xfe80 \<longleftrightarrow> g div 64 = 1018"
proof -
  have "NOT (mask 6) = (0xffc0 :: 16 word)" "push_bit 6 (of_nat 1018) = (0xfe80 :: 16 word)" by code_simp+
  then show "g < 65536 \<Longrightarrow> ?thesis" using group_prefix [of g 6 1018] by (simp only:) simp
qed

lemma unique_local_group: "g < 65536 \<Longrightarrow> (of_nat g :: 16 word) AND 0xfe00 = 0xfc00 \<longleftrightarrow> g div 512 = 126"
proof -
  have "NOT (mask 9) = (0xfe00 :: 16 word)" "push_bit 9 (of_nat 126) = (0xfc00 :: 16 word)" by code_simp+
  then show "g < 65536 \<Longrightarrow> ?thesis" using group_prefix [of g 9 126] by (simp only:) simp
qed

text \<open>The addresses no request may go to: the private, link-local and carrier blocks and the unspecified address, of the
  older kind or mapped into the newer one, and the link-local and unique-local blocks and the unspecified address of the
  newer kind.\<close>

definition refused_ipv4 :: "ipv4 \<Rightarrow> bool" where
  "refused_ipv4 a \<longleftrightarrow> in_block (ipv4_number a) [10, 0, 0, 0] 8 \<or> in_block (ipv4_number a) [172, 16, 0, 0] 12
     \<or> in_block (ipv4_number a) [192, 168, 0, 0] 16 \<or> in_block (ipv4_number a) [169, 254, 0, 0] 16
     \<or> in_block (ipv4_number a) [100, 64, 0, 0] 10 \<or> ipv4_number a = 0"

fun refused_address :: "ip_addr \<Rightarrow> bool" where
  "refused_address (IpAddr_V4 a) = refused_ipv4 a"
| "refused_address (IpAddr_V6 v) \<longleftrightarrow> (\<exists>a. to_ipv4_mapped v = Some a \<and> refused_ipv4 a)
     \<or> in_block6 v [0xfe80, 0, 0, 0, 0, 0, 0, 0] 10 \<or> in_block6 v [0xfc00, 0, 0, 0, 0, 0, 0, 0] 7 \<or> v = [0, 0, 0, 0, 0, 0, 0, 0]"

fun valid_address :: "ip_addr \<Rightarrow> bool" where
  "valid_address (IpAddr_V4 a) = octets a"
| "valid_address (IpAddr_V6 v) = groups v"

lemma mapped_octets: "groups v \<Longrightarrow> to_ipv4_mapped v = Some a \<Longrightarrow> octets a"
  by (auto simp: to_ipv4_mapped_def groups_def octets_def split: list.splits if_splits)

lemma block6_first:
  assumes "groups v"
  shows "in_block6 v [0xfe80, 0, 0, 0, 0, 0, 0, 0] 10 \<longleftrightarrow> v ! 0 div 64 = 1018"
    and "in_block6 v [0xfc00, 0, 0, 0, 0, 0, 0, 0] 7 \<longleftrightarrow> v ! 0 div 512 = 126"
proof -
  obtain g gs where v: "v = g # gs" "length gs = 7" using assms by (cases v) (auto simp: groups_def)
  have p: "number 65536 v div (65536 ^ 7 * m) = g div m" for m
    using number_prefix [of g gs 65536 m] assms v by (simp add: groups_def)
  have q: "number 65536 [c, 0, 0, 0, 0, 0, 0, 0] div (65536 ^ 7 * m) = c div m" if "c < 65536" for c m
    using number_prefix [of c "[0, 0, 0, 0, 0, 0, 0]" 65536 m] that by simp
  have e: "(2::nat) ^ (128 - 10) = 65536 ^ 7 * 64" "(2::nat) ^ (128 - 7) = 65536 ^ 7 * 512" by simp_all
  show "in_block6 v [0xfe80, 0, 0, 0, 0, 0, 0, 0] 10 \<longleftrightarrow> v ! 0 div 64 = 1018"
    unfolding in_block6_def e(1) p by (subst q) (simp_all add: v)
  show "in_block6 v [0xfc00, 0, 0, 0, 0, 0, 0, 0] 7 \<longleftrightarrow> v ! 0 div 512 = 126"
    unfolding in_block6_def e(2) p by (subst q) (simp_all add: v)
qed

lemma blocked_exact:
  assumes "valid_address ip"
  shows "is_blocked_ip ip \<longleftrightarrow> refused_address ip"
proof (cases ip)
  case (IpAddr_V4 a)
  then show ?thesis using blocked_ipv4_exact [of a] assms by (simp add: refused_ipv4_def)
next
  case (IpAddr_V6 v)
  have v: "groups v" using assms IpAddr_V6 by simp
  then have g: "v ! 0 < 65536" by (simp add: groups_def)
  show ?thesis
  proof (cases "to_ipv4_mapped v")
    case (Some a)
    then have "v ! 0 = 0" "v \<noteq> [0, 0, 0, 0, 0, 0, 0, 1]" "v \<noteq> [0, 0, 0, 0, 0, 0, 0, 0]"
      by (auto simp: to_ipv4_mapped_def split: list.splits if_splits)
    then show ?thesis
      using Some blocked_ipv4_exact [OF mapped_octets [OF v Some]] block6_first [OF v] unfolding IpAddr_V6 is_blocked_ip.simps
      by (simp add: refused_ipv4_def)
  next
    case None
    have "v ! 0 div 64 \<noteq> 1018 \<and> v ! 0 div 512 \<noteq> 126" if "v = [0, 0, 0, 0, 0, 0, 0, 1]" using that by simp
    then show ?thesis
      using None block6_first [OF v] link_local_group [OF g] unique_local_group [OF g] unfolding IpAddr_V6 is_blocked_ip.simps
      by (auto simp: Let_def)
  qed
qed

text \<open>Whether a run sends a request: whether its result can depend on what sending one does.\<close>

definition sends_request :: "hook_env \<Rightarrow> hook_runtime \<Rightarrow> hook_spec \<Rightarrow> hook_envelope \<Rightarrow> gate_kind \<Rightarrow> bool" where
  "sends_request H rt s e mode \<longleftrightarrow>
     (\<exists>post post'. run_hook H (rt\<lparr>rt_post := post\<rparr>) s e mode \<noteq> run_hook H (rt\<lparr>rt_post := post'\<rparr>) s e mode)"

lemma validated_sends:
  assumes "spec_handler s = Handler_Http" "spec_url s = Some configured_url"
    and "validate_hook_url rt (expand_env_vars_with_extra H configured_url (set_vars (identity_env rt s e) (spec_extra_env s))) = Inr ()"
    and "rt_lookup_in_time rt" "rt_serialize rt (to_hook_json e) = Inr body"
  shows "sends_request H rt s e mode"
proof -
  have v: "validate_hook_url (rt\<lparr>rt_post := post\<rparr>) url = validate_hook_url rt url" for post url
    unfolding validate_hook_url_def by (cases rt) (simp only: hook_runtime.simps)
  have i: "identity_env (rt\<lparr>rt_post := post\<rparr>) s e = identity_env rt s e" for post by (simp add: identity_env_def)
  have "run_hook H (rt\<lparr>rt_post := \<lambda>_ _ _. Http_TimedOut\<rparr>) s e mode
      \<noteq> run_hook H (rt\<lparr>rt_post := \<lambda>_ _ _. Http_SendFailed []\<rparr>) s e mode"
    using assms by (simp add: run_hook_def run_http_hook_def Let_def i v timed_out_def)
  then show ?thesis unfolding sends_request_def by blast
qed

text \<open>C32: A hook over HTTP is called only at an address that was checked. A run sends a request exactly when the address,
  after its variables are replaced, parses, has the secure scheme, and stands, by itself or by what the name resolver
  returns for the check, for at least one address and for none of a private, link-local, unique-local or carrier block nor
  the unspecified one, provided the resolver answers in time and the event can be written; otherwise the run fails. What the name
  resolves to when the request itself is made is outside the check.\<close>

theorem request_only_after_check:
  assumes "spec_handler s = Handler_Http" "spec_url s = Some configured_url"
    and "url = expand_env_vars_with_extra H configured_url (set_vars (identity_env rt s e) (spec_extra_env s))"
    and "\<forall>u ips. rt_parse_url rt url = Inr u \<and> destinations rt u = Some ips \<longrightarrow> (\<forall>ip \<in> set ips. valid_address ip)"
  shows "(sends_request H rt s e mode \<longleftrightarrow>
      rt_lookup_in_time rt \<and> (\<exists>body. rt_serialize rt (to_hook_json e) = Inr body)
      \<and> (\<exists>u ips. rt_parse_url rt url = Inr u \<and> hu_scheme u = ''https'' \<and> destinations rt u = Some ips \<and> ips \<noteq> []
           \<and> (\<forall>ip \<in> set ips. \<not> refused_address ip)))
    \<and> (\<not> sends_request H rt s e mode \<longrightarrow> (\<exists>rsn info. run_hook H rt s e mode = (Ran_Failed rsn, info, None)))"
proof -
  have check: "validate_hook_url rt url = Inr () \<longleftrightarrow>
      (\<exists>u ips. rt_parse_url rt url = Inr u \<and> hu_scheme u = ''https'' \<and> destinations rt u = Some ips \<and> ips \<noteq> []
         \<and> (\<forall>ip \<in> set ips. \<not> refused_address ip))"
    unfolding validate_exact using assms(4) blocked_exact by metis
  have v: "validate_hook_url (rt\<lparr>rt_post := post\<rparr>) url = validate_hook_url rt url" for post
    unfolding validate_hook_url_def by (cases rt) (simp only: hook_runtime.simps)
  have i: "identity_env (rt\<lparr>rt_post := post\<rparr>) s e = identity_env rt s e" for post by (simp add: identity_env_def)
  show ?thesis
  proof (cases "rt_lookup_in_time rt \<and> (\<exists>body. rt_serialize rt (to_hook_json e) = Inr body) \<and> validate_hook_url rt url = Inr ()")
    case True
    then show ?thesis using validated_sends [OF assms(1,2)] assms(3) check by blast
  next
    case False
    have "\<exists>rsn info. \<forall>post. run_hook H (rt\<lparr>rt_post := post\<rparr>) s e mode = (Ran_Failed rsn, info, None)"
      using False assms(1,2) by (cases "validate_hook_url rt url"; cases "rt_serialize rt (to_hook_json e)")
        (auto simp: run_hook_def run_http_hook_def Let_def i v assms(3) [symmetric])
    then obtain rsn info where f: "run_hook H (rt\<lparr>rt_post := post\<rparr>) s e mode = (Ran_Failed rsn, info, None)" for post by blast
    then have "\<not> sends_request H rt s e mode" by (simp add: sends_request_def)
    moreover have "run_hook H rt s e mode = (Ran_Failed rsn, info, None)" using f [of "rt_post rt"] by simp
    ultimately show ?thesis using False check by blast
  qed
qed

definition metadata_hook :: hook_spec where
  "metadata_hook = \<lparr>spec_name = ''user:pre_tool_use[0].hooks[0]'', spec_event = Event_PreToolUse, spec_handler = Handler_Http,
     spec_configured = None, spec_matcher = None, spec_enabled = True, spec_command = None, spec_command_raw = None,
     spec_url = Some ''https://meta.example/latest'', spec_url_raw = Some ''https://meta.example/latest'',
     spec_timeout_ms = 5000, spec_source_dir = ''/w'', spec_extra_env = [], spec_layer = Prov_User\<rparr>"

definition demo_envelope :: "string \<Rightarrow> hook_envelope" where
  "demo_envelope tool = \<lparr>env_event = Event_PreToolUse, env_session_id = ''s'', env_cwd = ''/w'', env_workspace_root = ''/w'',
     env_timestamp = ''t'', env_transcript_path = None, env_client_identifier = None, env_prompt_id = None, env_permission_mode = None,
     env_payload = Payload_PreToolUse \<lparr>tp_tool_name = tool, tp_tool_use_id = ''c'', tp_tool_input = JNull, tp_input_truncated = False\<rparr> None\<rparr>"

definition demo_hook_env :: hook_env where
  "demo_hook_env = \<lparr>rx_valid = (\<lambda>_. False), rx_match = (\<lambda>_ _. False), process_var = (\<lambda>_. None), shellexpand = (\<lambda>s _. s),
     mask_sentinel = ''mark'', json_parse = (\<lambda>_. Inl ''none''), json_document = (\<lambda>_. None), decode_error = (\<lambda>_. ''bad'')\<rparr>"

text \<open>A host of the open network whose name also resolves to a link-local address.\<close>

definition metadata_runtime :: hook_runtime where
  "metadata_runtime = \<lparr>rt_session_id = ''s'', rt_workspace_root = ''/w'', rt_serialize = (\<lambda>_. Inr ''event''), rt_exists = (\<lambda>_. True),
     rt_run = (\<lambda>_ _ _ _. Proc_Exited (Some 0) [] []), rt_lossy = (\<lambda>b. b),
     rt_parse_url = (\<lambda>_. Inr \<lparr>hu_scheme = ''https'', hu_host = Some ''meta.example'', hu_port_or_default = Some 443\<rparr>),
     rt_lookup = (\<lambda>_. Inr [IpAddr_V4 [93, 184, 216, 34], IpAddr_V6 [65152, 0, 0, 0, 0, 0, 0, 1]]),
     rt_lookup_in_time = True, rt_post = (\<lambda>_ _ _. Http_TimedOut), rt_parse_error = (\<lambda>_. ''bad'')\<rparr>"

theorem request_only_after_check_witness:
  "\<not> sends_request demo_hook_env metadata_runtime metadata_hook (demo_envelope ''grep'') Gate_Tool"
proof
  let ?u = "\<lparr>hu_scheme = ''https'', hu_host = Some ''meta.example'', hu_port_or_default = Some 443\<rparr>"
  let ?ips = "[IpAddr_V4 [93, 184, 216, 34], IpAddr_V6 [65152, 0, 0, 0, 0, 0, 0, 1]]"
  assume sends: "sends_request demo_hook_env metadata_runtime metadata_hook (demo_envelope ''grep'') Gate_Tool"
  have m: "spec_handler metadata_hook = Handler_Http" "spec_url metadata_hook = Some ''https://meta.example/latest''"
    by (simp_all add: metadata_hook_def)
  have p: "rt_parse_url metadata_runtime url = Inr ?u" for url by (simp add: metadata_runtime_def)
  have d: "destinations metadata_runtime ?u = Some ?ips"
  proof -
    have "parse_ip_addr ''meta.example'' = None" by code_simp
    then show ?thesis by (simp add: destinations_def metadata_runtime_def)
  qed
  have valid: "valid_address ip" if "ip \<in> set ?ips" for ip using that by (auto simp: octets_def groups_def)
  let ?url = "expand_env_vars_with_extra demo_hook_env ''https://meta.example/latest''
      (set_vars (identity_env metadata_runtime metadata_hook (demo_envelope ''grep'')) (spec_extra_env metadata_hook))"
  have v: "\<forall>u ips. rt_parse_url metadata_runtime ?url = Inr u \<and> destinations metadata_runtime u = Some ips
      \<longrightarrow> (\<forall>ip \<in> set ips. valid_address ip)" using valid unfolding p sum.inject by (metis d option.inject)
  obtain u ips where "rt_parse_url metadata_runtime ?url = Inr u" "destinations metadata_runtime u = Some ips"
    "\<forall>ip \<in> set ips. \<not> refused_address ip"
    using request_only_after_check [where mode = Gate_Tool and rt = metadata_runtime and H = demo_hook_env and e = "demo_envelope ''grep''", OF m refl v] sends by blast
  then have "\<forall>ip \<in> set ?ips. \<not> refused_address ip" unfolding p sum.inject by (metis d option.inject)
  moreover have "refused_address (IpAddr_V6 [65152, 0, 0, 0, 0, 0, 0, 1])"
    using block6_first(1) [of "[65152, 0, 0, 0, 0, 0, 0, 1]"] by (simp add: groups_def)
  ultimately show False by (simp del: refused_address.simps)
qed

section \<open>Results of a run\<close>

lemma run_hook_tool_answer: "tool_answer (spec_name s) (fst (run_hook H rt s e Gate_Tool))"
  by (auto simp: run_hook_def run_command_hook_def run_http_hook_def interpret_output_def interpret_response_def Let_def
      command_tool_answer http_tool_answer split: handler_type.split option.split sum.split process_end.split http_end.split)

text \<open>A command that ran and ended with code 2.\<close>

definition exits_with :: "hook_env \<Rightarrow> hook_runtime \<Rightarrow> hook_spec \<Rightarrow> hook_envelope \<Rightarrow> int \<Rightarrow> bool" where
  "exits_with H rt s e exit_code = (case (spec_handler s, spec_command s, rt_serialize rt (to_hook_json e)) of
     (Handler_Command, Some command, Inr stdin) \<Rightarrow> (case launch_of H rt s command of
         Inr launch \<Rightarrow> (case rt_run rt launch (child_env rt s e) stdin (spec_timeout_ms s) of
             Proc_Exited (Some c) _ _ \<Rightarrow> c = exit_code
           | _ \<Rightarrow> False)
       | _ \<Rightarrow> False)
   | _ \<Rightarrow> False)"

lemma exit_two_denies:
  assumes "exits_with H rt s e 2"
  shows "\<exists>rsn. fst (run_hook H rt s e Gate_Tool) = Ran_Deny rsn (spec_name s)"
proof -
  obtain command stdin launch out err where c: "spec_handler s = Handler_Command" "spec_command s = Some command"
    "rt_serialize rt (to_hook_json e) = Inr stdin" "launch_of H rt s command = Inr launch"
    "rt_run rt launch (child_env rt s e) stdin (spec_timeout_ms s) = Proc_Exited (Some 2) out err"
    using assms by (auto simp: exits_with_def split: handler_type.splits option.splits sum.splits process_end.splits)
  have "fst (run_hook H rt s e Gate_Tool)
      = parse_blocking_result H (truncate_output rt out) (truncate_output rt err) 2 (spec_name s)"
    using c by (simp add: run_hook_def run_command_hook_def interpret_output_def Let_def)
  moreover obtain rsn h where "parse_blocking_result H (truncate_output rt out) (truncate_output rt err) 2 (spec_name s) = Ran_Deny rsn h"
    using command_denies [of H "truncate_output rt out" "truncate_output rt err" 2 "spec_name s"] by (auto simp: GATE_EXIT_CODE_def)
  ultimately show ?thesis
    using command_tool_answer [of "spec_name s" H "truncate_output rt out" "truncate_output rt err" 2] by simp
qed

end
