(* ===== verification/Hook_Dispatch.thy ===== *)
theory Hook_Dispatch
  imports Hook_Runner
begin

text \<open>
  The dispatch of an event to its hooks (\<open>xai-grok-hooks/src/dispatcher.rs\<close>): the gates before a tool call and
  before a prompt, which stop at the first hook that blocks; the stop of a turn, the result of a tool and the failure of
  one, where every hook is heard; and the events that are only observed. The time a hook took, which is only reported, is
  left out. What runs a hook is an argument.

  The theory states the decision of a gate as a function of the answers of the hooks that apply, shows that the dispatch
  computes it, and interprets the interface of a runner of tool hooks on the runner of the program: a hook of the
  administrator applies whatever the user disabled, and its exit code 2 denies the call.
\<close>

section \<open>Results\<close>

datatype hook_run_result =
    Run_Success string "http_info option" "string option"
  | Run_Skipped string
  | Run_Blocked string string "http_info option" "string option"
  | Run_Failed string string "http_info option" "string option"

datatype hook_decision =
    Decision_Allow
  | Decision_Ask string "string option"
  | Decision_Defer string
  | Decision_Deny string string

datatype prompt_decision = Prompt_Passes | Prompt_Blocked string string

definition applicable :: "hook_env \<Rightarrow> string list \<Rightarrow> string option \<Rightarrow> hook_spec \<Rightarrow> bool" where
  "applicable H disabled mv s \<longleftrightarrow> \<not> is_disabled s disabled \<and> matcher_allows H (spec_matcher s) mv"

definition eligible_or_record_skip ::
  "hook_env \<Rightarrow> hook_spec \<Rightarrow> string option \<Rightarrow> hook_run_result list \<Rightarrow> string list \<Rightarrow> bool \<times> hook_run_result list" where
  "eligible_or_record_skip H s mv results disabled =
     (if is_disabled s disabled then (False, results @ [Run_Skipped (spec_name s)])
      else (matcher_allows H (spec_matcher s) mv, results))"

definition runnable_count :: "hook_env \<Rightarrow> hook_registry \<Rightarrow> hook_envelope \<Rightarrow> string list \<Rightarrow> nat" where
  "runnable_count H R e disabled =
     length (filter (\<lambda>s. matcher_allows H (spec_matcher s) (match_value (env_payload e)))
       (filter (\<lambda>s. \<not> is_disabled s disabled) (hooks_for_canonical R (env_event e))))"

section \<open>The gates that stop at a block\<close>

record input_rewrite =
  ir_hook_name :: string
  ir_input :: json_map

record additional_context =
  ac_hook_name :: string
  ac_text :: string

record gate_state =
  gt_pending_ask :: "(string \<times> string option) option"
  gt_deferring_hook :: "string option"
  gt_updated_input :: "input_rewrite option"
  gt_additional_context :: "additional_context list"
  gt_results :: "hook_run_result list"

definition gate_start :: gate_state where
  "gate_start = \<lparr>gt_pending_ask = None, gt_deferring_hook = None, gt_updated_input = None, gt_additional_context = [], gt_results = []\<rparr>"

definition record_ask :: "string \<Rightarrow> string option \<Rightarrow> gate_state \<Rightarrow> gate_state" where
  "record_ask name rsn st = st\<lparr>gt_pending_ask := Some (name, rsn)\<rparr>"

definition record_rewrite :: "string \<Rightarrow> json_map option \<Rightarrow> gate_state \<Rightarrow> gate_state" where
  "record_rewrite name input st = (case input of
     None \<Rightarrow> st | Some i \<Rightarrow> st\<lparr>gt_updated_input := Some \<lparr>ir_hook_name = name, ir_input = i\<rparr>\<rparr>)"

definition record_additional_context :: "string \<Rightarrow> string option \<Rightarrow> gate_state \<Rightarrow> gate_state" where
  "record_additional_context name ctx st = (case ctx of
     None \<Rightarrow> st
   | Some t \<Rightarrow> st\<lparr>gt_additional_context := gt_additional_context st @ [\<lparr>ac_hook_name = name, ac_text = t\<rparr>]\<rparr>)"

definition record_run :: "hook_run_result \<Rightarrow> gate_state \<Rightarrow> gate_state" where
  "record_run r st = st\<lparr>gt_results := gt_results st @ [r]\<rparr>"

text \<open>The answer of one hook: a block with the results so far, or the next state.\<close>

definition gate_answer :: "string \<Rightarrow> hook_spec \<Rightarrow> hook_run_output \<Rightarrow> gate_state \<Rightarrow> (string \<times> hook_run_result list) + gate_state" where
  "gate_answer block_verb s out st = (case out of (result, http, msg) \<Rightarrow>
     (let name = spec_name s; success = record_run (Run_Success name http msg)
      in case result of
           Ran_Deny rsn _ \<Rightarrow> Inl (rsn, gt_results st @ [Run_Blocked name (block_verb @ '': '' @ rsn) http msg])
         | Ran_Block rsn _ \<Rightarrow> Inl (rsn, gt_results st @ [Run_Blocked name (block_verb @ '': '' @ rsn) http msg])
         | Ran_Allow input ctx \<Rightarrow> Inr (success (record_additional_context name ctx (record_rewrite name input st)))
         | Ran_Ask rsn input ctx \<Rightarrow>
             Inr (success (record_ask name rsn (record_additional_context name ctx (record_rewrite name input st))))
         | Ran_Defer \<Rightarrow> Inr (success (st\<lparr>gt_deferring_hook := Some name\<rparr>))
         | Ran_Failed err \<Rightarrow> Inr (record_run (Run_Failed name err http msg) st)
         | _ \<Rightarrow> Inr (success st)))"

record sequential_gate =
  sg_block :: "(string \<times> string) option"
  sg_pending_ask :: "(string \<times> string option) option"
  sg_deferring_hook :: "string option"
  sg_updated_input :: "input_rewrite option"
  sg_additional_context :: "additional_context list"
  sg_results :: "hook_run_result list"

fun gate_loop ::
  "hook_env \<Rightarrow> string \<Rightarrow> string option \<Rightarrow> string list \<Rightarrow> (hook_spec \<Rightarrow> hook_run_output) \<Rightarrow> hook_spec list \<Rightarrow> gate_state \<Rightarrow> sequential_gate" where
  "gate_loop H verb mv disabled run [] st =
     \<lparr>sg_block = None, sg_pending_ask = gt_pending_ask st, sg_deferring_hook = gt_deferring_hook st,
      sg_updated_input = gt_updated_input st, sg_additional_context = gt_additional_context st, sg_results = gt_results st\<rparr>"
| "gate_loop H verb mv disabled run (s # ss) st =
     (case eligible_or_record_skip H s mv (gt_results st) disabled of
        (False, results) \<Rightarrow> gate_loop H verb mv disabled run ss (st\<lparr>gt_results := results\<rparr>)
      | (True, results) \<Rightarrow> (case gate_answer verb s (run s) (st\<lparr>gt_results := results\<rparr>) of
          Inr st' \<Rightarrow> gate_loop H verb mv disabled run ss st'
        | Inl (rsn, results') \<Rightarrow>
            \<lparr>sg_block = Some (spec_name s, rsn), sg_pending_ask = None, sg_deferring_hook = None, sg_updated_input = None,
             sg_additional_context = [], sg_results = results'\<rparr>))"

definition dispatch_sequential_gate ::
  "hook_env \<Rightarrow> hook_registry \<Rightarrow> hook_event \<Rightarrow> string \<Rightarrow> hook_envelope \<Rightarrow> string list \<Rightarrow> (hook_spec \<Rightarrow> hook_run_output) \<Rightarrow> sequential_gate" where
  "dispatch_sequential_gate H R event verb e disabled run =
     gate_loop H verb (match_value (env_payload e)) disabled run (hooks_for R event) gate_start"

record pre_tool_use_result =
  pre_decision :: hook_decision
  pre_updated_input :: "input_rewrite option"
  pre_additional_context :: "additional_context list"
  pre_results :: "hook_run_result list"

definition gate_decision :: "sequential_gate \<Rightarrow> hook_decision" where
  "gate_decision g = (case sg_block g of
     Some (name, rsn) \<Rightarrow> Decision_Deny name rsn
   | None \<Rightarrow> (case (sg_pending_ask g, sg_deferring_hook g) of
       (Some (name, rsn), _) \<Rightarrow> Decision_Ask name rsn
     | (None, Some name) \<Rightarrow> Decision_Defer name
     | (None, None) \<Rightarrow> Decision_Allow))"

definition dispatch_pre_tool_use ::
  "hook_env \<Rightarrow> hook_runtime \<Rightarrow> hook_registry \<Rightarrow> hook_envelope \<Rightarrow> string list \<Rightarrow> pre_tool_use_result" where
  "dispatch_pre_tool_use H rt R e disabled =
     (let g = dispatch_sequential_gate H R Event_PreToolUse ''denied'' e disabled (\<lambda>s. run_hook H rt s e Gate_Tool)
      in \<lparr>pre_decision = gate_decision g, pre_updated_input = sg_updated_input g,
          pre_additional_context = sg_additional_context g, pre_results = sg_results g\<rparr>)"

definition dispatch_prompt_gate ::
  "hook_env \<Rightarrow> hook_runtime \<Rightarrow> hook_registry \<Rightarrow> hook_envelope \<Rightarrow> string list \<Rightarrow> prompt_decision \<times> hook_run_result list" where
  "dispatch_prompt_gate H rt R e disabled =
     (let g = dispatch_sequential_gate H R Event_UserPromptSubmit ''blocked'' e disabled (\<lambda>s. run_hook H rt s e Gate_Prompt)
      in (case sg_block g of Some (name, rsn) \<Rightarrow> Prompt_Blocked rsn name | None \<Rightarrow> Prompt_Passes, sg_results g))"

section \<open>The stop of a turn\<close>

record stop_block =
  sb_hook_name :: string
  sb_reason :: string

record stop_dispatch =
  sd_blocks :: "stop_block list"
  sd_additional_context :: "string list"
  sd_prevent_continuation :: "stop_block option"
  sd_results :: "hook_run_result list"

definition stop_dispatch_default :: stop_dispatch where
  "stop_dispatch_default = \<lparr>sd_blocks = [], sd_additional_context = [], sd_prevent_continuation = None, sd_results = []\<rparr>"

definition wants_continuation :: "stop_dispatch \<Rightarrow> bool" where
  "wants_continuation d \<longleftrightarrow> sd_prevent_continuation d = None \<and> (sd_blocks d \<noteq> [] \<or> sd_additional_context d \<noteq> [])"

record stop_signals =
  sig_block_reason :: "string option"
  sig_stop_reason :: "string option"
  sig_additional_context :: "string option"

definition stop_absorb :: "string \<Rightarrow> stop_signals \<Rightarrow> stop_dispatch \<Rightarrow> stop_dispatch" where
  "stop_absorb name sig d =
     d\<lparr>sd_prevent_continuation := (case (sig_stop_reason sig, sd_prevent_continuation d) of
          (Some rsn, None) \<Rightarrow> Some \<lparr>sb_hook_name = name, sb_reason = rsn\<rparr> | (_, p) \<Rightarrow> p),
       sd_blocks := sd_blocks d @ (case sig_block_reason sig of Some rsn \<Rightarrow> [\<lparr>sb_hook_name = name, sb_reason = rsn\<rparr>] | None \<Rightarrow> []),
       sd_additional_context := sd_additional_context d @ (case sig_additional_context sig of Some c \<Rightarrow> [c] | None \<Rightarrow> [])\<rparr>"

definition stop_detail :: "bool \<Rightarrow> string option \<Rightarrow> string option \<Rightarrow> string option" where
  "stop_detail prevented prevent_reason block_reason =
     (if prevented then Some (case prevent_reason of
          Some rsn \<Rightarrow> ''prevented continuation: '' @ rsn | None \<Rightarrow> ''prevented continuation'')
      else map_option (\<lambda>rsn. ''blocked stop: '' @ rsn) block_reason)"

definition stop_outcome_detail :: "stop_outcome \<Rightarrow> string option" where
  "stop_outcome_detail o1 =
     stop_detail (st_force_stop o1 \<noteq> None) (Option.bind (st_force_stop o1) so_reason) (st_block_reason o1)"

definition push_stop_result :: "hook_run_result \<Rightarrow> stop_dispatch \<Rightarrow> stop_dispatch" where
  "push_stop_result r d = d\<lparr>sd_results := sd_results d @ [r]\<rparr>"

definition stop_step :: "hook_spec \<Rightarrow> hook_run_output \<Rightarrow> stop_dispatch \<Rightarrow> stop_dispatch" where
  "stop_step s out d = (case out of (result, http, msg) \<Rightarrow>
     (case result of
        Ran_Stop o1 \<Rightarrow>
          stop_absorb (spec_name s)
            \<lparr>sig_block_reason = st_block_reason o1,
             sig_stop_reason = map_option (\<lambda>f. case so_reason f of Some r \<Rightarrow> r | None \<Rightarrow> ''stopped by hook'') (st_force_stop o1),
             sig_additional_context = st_additional_context o1\<rparr>
            (push_stop_result (case stop_outcome_detail o1 of
               Some detail \<Rightarrow> Run_Blocked (spec_name s) detail http msg
             | None \<Rightarrow> Run_Success (spec_name s) http msg) d)
      | Ran_Failed err \<Rightarrow> push_stop_result (Run_Failed (spec_name s) err http msg) d
      | _ \<Rightarrow> push_stop_result (Run_Success (spec_name s) http msg) d))"

fun stop_loop ::
  "hook_env \<Rightarrow> string option \<Rightarrow> string list \<Rightarrow> (hook_spec \<Rightarrow> hook_run_output) \<Rightarrow> hook_spec list \<Rightarrow> stop_dispatch \<Rightarrow> stop_dispatch" where
  "stop_loop H mv disabled run [] d = d"
| "stop_loop H mv disabled run (s # ss) d = (case eligible_or_record_skip H s mv (sd_results d) disabled of
     (ok, results) \<Rightarrow> stop_loop H mv disabled run ss
       (if ok then stop_step s (run s) (d\<lparr>sd_results := results\<rparr>) else d\<lparr>sd_results := results\<rparr>))"

definition dispatch_stop ::
  "hook_env \<Rightarrow> hook_runtime \<Rightarrow> hook_registry \<Rightarrow> hook_event \<Rightarrow> hook_envelope \<Rightarrow> string list \<Rightarrow> stop_dispatch" where
  "dispatch_stop H rt R event e disabled =
     (if et_gate (traits event) \<noteq> Gate_Stop then stop_dispatch_default
      else stop_loop H (match_value (env_payload e)) disabled (\<lambda>s. run_hook H rt s e Gate_Stop)
             (hooks_for_canonical R (canonical event)) stop_dispatch_default)"

section \<open>The result of a tool\<close>

record selected_replacement =
  sr_replacement :: output_replacement
  sr_run_index :: nat

record post_result =
  pr_blocks :: "stop_block list"
  pr_additional_context :: "additional_context list"
  pr_builtin_replacement :: "selected_replacement option"
  pr_mcp_replacement :: "selected_replacement option"
  pr_results :: "hook_run_result list"

definition post_result_default :: post_result where
  "post_result_default = \<lparr>pr_blocks = [], pr_additional_context = [], pr_builtin_replacement = None, pr_mcp_replacement = None,
     pr_results = []\<rparr>"

definition set_replacement :: "output_replacement \<Rightarrow> nat \<Rightarrow> post_result \<Rightarrow> post_result" where
  "set_replacement r run_index p =
     (let chosen = Some \<lparr>sr_replacement = r, sr_run_index = run_index\<rparr>
      in case or_kind r of
           Replace_Builtin \<Rightarrow> p\<lparr>pr_builtin_replacement := chosen\<rparr>
         | Replace_Mcp \<Rightarrow> p\<lparr>pr_mcp_replacement := chosen\<rparr>)"

definition post_absorb :: "string \<Rightarrow> nat \<Rightarrow> post_outcome \<Rightarrow> post_result \<Rightarrow> post_result" where
  "post_absorb name run_index o1 p =
     (let p1 = p\<lparr>pr_blocks := pr_blocks p @ (case po_block_reason o1 of Some rsn \<Rightarrow> [\<lparr>sb_hook_name = name, sb_reason = rsn\<rparr>] | None \<Rightarrow> []),
                 pr_additional_context := pr_additional_context p
                   @ (case po_additional_context o1 of Some t \<Rightarrow> [\<lparr>ac_hook_name = name, ac_text = t\<rparr>] | None \<Rightarrow> [])\<rparr>
      in case po_replacement o1 of Some r \<Rightarrow> set_replacement r run_index p1 | None \<Rightarrow> p1)"

text \<open>The results of the client, which carry no replacement, follow those of the settings.\<close>

definition post_merge :: "post_result \<Rightarrow> post_result \<Rightarrow> post_result" where
  "post_merge p other = p\<lparr>pr_results := pr_results p @ pr_results other, pr_blocks := pr_blocks p @ pr_blocks other,
     pr_additional_context := pr_additional_context p @ pr_additional_context other\<rparr>"

definition run_or_failed :: "string \<Rightarrow> string option \<Rightarrow> http_info option \<Rightarrow> string option \<Rightarrow> hook_run_result" where
  "run_or_failed name failure http msg = (case failure of
     Some err \<Rightarrow> Run_Failed name err http msg | None \<Rightarrow> Run_Success name http msg)"

definition post_step :: "hook_spec \<Rightarrow> hook_run_output \<Rightarrow> post_result \<Rightarrow> post_result" where
  "post_step s out p = (case out of (result, http, msg) \<Rightarrow>
     (let push = (\<lambda>r. p\<lparr>pr_results := pr_results p @ [r]\<rparr>)
      in case result of
           Ran_PostToolUse o1 failure \<Rightarrow>
             post_absorb (spec_name s) (length (pr_results p)) o1 (push (run_or_failed (spec_name s) failure http msg))
         | Ran_Failed err \<Rightarrow> push (Run_Failed (spec_name s) err http msg)
         | _ \<Rightarrow> push (Run_Success (spec_name s) http msg)))"

fun post_loop ::
  "hook_env \<Rightarrow> string option \<Rightarrow> string list \<Rightarrow> (hook_spec \<Rightarrow> hook_run_output) \<Rightarrow> hook_spec list \<Rightarrow> post_result \<Rightarrow> post_result" where
  "post_loop H mv disabled run [] p = p"
| "post_loop H mv disabled run (s # ss) p = (case eligible_or_record_skip H s mv (pr_results p) disabled of
     (ok, results) \<Rightarrow> post_loop H mv disabled run ss
       (if ok then post_step s (run s) (p\<lparr>pr_results := results\<rparr>) else p\<lparr>pr_results := results\<rparr>))"

definition dispatch_post_tool_use ::
  "hook_env \<Rightarrow> hook_runtime \<Rightarrow> hook_registry \<Rightarrow> hook_envelope \<Rightarrow> string list \<Rightarrow> post_result" where
  "dispatch_post_tool_use H rt R e disabled =
     post_loop H (match_value (env_payload e)) disabled (\<lambda>s. run_hook H rt s e (et_gate (traits Event_PostToolUse)))
       (hooks_for_canonical R Event_PostToolUse) post_result_default"

text \<open>After a failure only the note of a hook is kept.\<close>

record post_failure_result =
  pf_additional_context :: "additional_context list"
  pf_results :: "hook_run_result list"

definition post_failure_step :: "hook_spec \<Rightarrow> hook_run_output \<Rightarrow> post_failure_result \<Rightarrow> post_failure_result" where
  "post_failure_step s out p = (case out of (result, http, msg) \<Rightarrow>
     (let push = (\<lambda>r. p\<lparr>pf_results := pf_results p @ [r]\<rparr>)
      in case result of
           Ran_PostToolUse o1 failure \<Rightarrow>
             (push (run_or_failed (spec_name s) failure http msg))\<lparr>pf_additional_context := pf_additional_context p
                @ (case po_additional_context o1 of Some t \<Rightarrow> [\<lparr>ac_hook_name = spec_name s, ac_text = t\<rparr>] | None \<Rightarrow> [])\<rparr>
         | Ran_Failed err \<Rightarrow> push (Run_Failed (spec_name s) err http msg)
         | _ \<Rightarrow> push (Run_Success (spec_name s) http msg)))"

fun post_failure_loop ::
  "hook_env \<Rightarrow> string option \<Rightarrow> string list \<Rightarrow> (hook_spec \<Rightarrow> hook_run_output) \<Rightarrow> hook_spec list \<Rightarrow> post_failure_result \<Rightarrow> post_failure_result" where
  "post_failure_loop H mv disabled run [] p = p"
| "post_failure_loop H mv disabled run (s # ss) p = (case eligible_or_record_skip H s mv (pf_results p) disabled of
     (ok, results) \<Rightarrow> post_failure_loop H mv disabled run ss
       (if ok then post_failure_step s (run s) (p\<lparr>pf_results := results\<rparr>) else p\<lparr>pf_results := results\<rparr>))"

definition dispatch_post_tool_use_failure ::
  "hook_env \<Rightarrow> hook_runtime \<Rightarrow> hook_registry \<Rightarrow> hook_envelope \<Rightarrow> string list \<Rightarrow> post_failure_result" where
  "dispatch_post_tool_use_failure H rt R e disabled =
     post_failure_loop H (match_value (env_payload e)) disabled (\<lambda>s. run_hook H rt s e Gate_PostTool)
       (hooks_for_canonical R Event_PostToolUseFailure) \<lparr>pf_additional_context = [], pf_results = []\<rparr>"

section \<open>Events that are observed\<close>

definition observe_result :: "hook_spec \<Rightarrow> hook_run_output \<Rightarrow> hook_run_result" where
  "observe_result s out = (case out of (result, http, msg) \<Rightarrow>
     (case result of
        Ran_Failed err \<Rightarrow> Run_Failed (spec_name s) err http msg
      | Ran_Stop _ \<Rightarrow> Run_Failed (spec_name s) ''a gate hook result routed to the observe dispatch'' http msg
      | Ran_PostToolUse _ _ \<Rightarrow> Run_Failed (spec_name s) ''a gate hook result routed to the observe dispatch'' http msg
      | _ \<Rightarrow> Run_Success (spec_name s) http msg))"

fun observe_loop ::
  "hook_env \<Rightarrow> string option \<Rightarrow> string list \<Rightarrow> (hook_spec \<Rightarrow> hook_run_output) \<Rightarrow> hook_spec list \<Rightarrow> hook_run_result list \<Rightarrow> hook_run_result list" where
  "observe_loop H mv disabled run [] results = results"
| "observe_loop H mv disabled run (s # ss) results = (case eligible_or_record_skip H s mv results disabled of
     (ok, results') \<Rightarrow> observe_loop H mv disabled run ss (if ok then results' @ [observe_result s (run s)] else results'))"

definition dispatch_non_blocking ::
  "hook_env \<Rightarrow> hook_runtime \<Rightarrow> hook_registry \<Rightarrow> hook_event \<Rightarrow> hook_envelope \<Rightarrow> string list \<Rightarrow> hook_run_result list" where
  "dispatch_non_blocking H rt R event e disabled =
     observe_loop H (match_value (env_payload e)) disabled (\<lambda>s. run_hook H rt s e Gate_Observe) (hooks_for_canonical R event) []"

text \<open>The counts that are recorded of a dispatch: successes, failures, blocks and skips.\<close>

definition dispatch_counts :: "hook_run_result list \<Rightarrow> nat \<times> nat \<times> nat \<times> nat" where
  "dispatch_counts rs =
     (length (filter (\<lambda>r. case r of Run_Success _ _ _ \<Rightarrow> True | _ \<Rightarrow> False) rs),
      length (filter (\<lambda>r. case r of Run_Failed _ _ _ _ \<Rightarrow> True | _ \<Rightarrow> False) rs),
      length (filter (\<lambda>r. case r of Run_Blocked _ _ _ _ \<Rightarrow> True | _ \<Rightarrow> False) rs),
      length (filter (\<lambda>r. case r of Run_Skipped _ \<Rightarrow> True | _ \<Rightarrow> False) rs))"

section \<open>The decision as a function of the answers\<close>

fun is_block :: "hook_runner_result \<Rightarrow> bool" where
  "is_block (Ran_Deny _ _) = True"
| "is_block (Ran_Block _ _) = True"
| "is_block _ = False"

fun block_reason_of :: "hook_runner_result \<Rightarrow> string" where
  "block_reason_of (Ran_Deny rsn _) = rsn"
| "block_reason_of (Ran_Block rsn _) = rsn"
| "block_reason_of _ = []"

definition last_opt :: "'a list \<Rightarrow> 'a option" where
  "last_opt xs = (if xs = [] then None else Some (last xs))"

type_synonym hook_answer = "string \<times> hook_runner_result"

definition asks_of :: "hook_answer list \<Rightarrow> (string \<times> string option) list" where
  "asks_of as = filter_map (\<lambda>(n, r). case r of Ran_Ask rsn _ _ \<Rightarrow> Some (n, rsn) | _ \<Rightarrow> None) as"

definition defers_of :: "hook_answer list \<Rightarrow> string list" where
  "defers_of as = filter_map (\<lambda>(n, r). case r of Ran_Defer \<Rightarrow> Some n | _ \<Rightarrow> None) as"

definition rewrites_of :: "hook_answer list \<Rightarrow> input_rewrite list" where
  "rewrites_of as = filter_map (\<lambda>(n, r). case r of
     Ran_Allow (Some i) _ \<Rightarrow> Some \<lparr>ir_hook_name = n, ir_input = i\<rparr>
   | Ran_Ask _ (Some i) _ \<Rightarrow> Some \<lparr>ir_hook_name = n, ir_input = i\<rparr>
   | _ \<Rightarrow> None) as"

definition contexts_of :: "hook_answer list \<Rightarrow> additional_context list" where
  "contexts_of as = filter_map (\<lambda>(n, r). case r of
     Ran_Allow _ (Some t) \<Rightarrow> Some \<lparr>ac_hook_name = n, ac_text = t\<rparr>
   | Ran_Ask _ _ (Some t) \<Rightarrow> Some \<lparr>ac_hook_name = n, ac_text = t\<rparr>
   | _ \<Rightarrow> None) as"

text \<open>The first block decides; else the last hook that asks; else the last one that defers.\<close>

definition verdict :: "hook_answer list \<Rightarrow> hook_decision" where
  "verdict as = (case find (\<lambda>a. is_block (snd a)) as of
     Some (n, r) \<Rightarrow> Decision_Deny n (block_reason_of r)
   | None \<Rightarrow> (case last_opt (asks_of as) of
       Some (n, rsn) \<Rightarrow> Decision_Ask n rsn
     | None \<Rightarrow> (case last_opt (defers_of as) of Some n \<Rightarrow> Decision_Defer n | None \<Rightarrow> Decision_Allow)))"

definition blocked :: "hook_answer list \<Rightarrow> bool" where
  "blocked as = list_ex (\<lambda>a. is_block (snd a)) as"

definition answers :: "hook_env \<Rightarrow> string option \<Rightarrow> string list \<Rightarrow> (hook_spec \<Rightarrow> hook_run_output) \<Rightarrow> hook_spec list \<Rightarrow> hook_answer list" where
  "answers H mv disabled run ss = map (\<lambda>s. (spec_name s, fst (run s))) (filter (applicable H disabled mv) ss)"

definition then_last :: "'a list \<Rightarrow> 'a option \<Rightarrow> 'a option" where
  "then_last xs d = (if xs = [] then d else Some (last xs))"

lemma then_last_append: "then_last (xs @ ys) d = then_last ys (then_last xs d)"
  by (simp add: then_last_def)

lemma then_last_None [simp]: "then_last xs None = last_opt xs"
  by (simp add: then_last_def last_opt_def)

lemmas answer_lists = asks_of_def defers_of_def rewrites_of_def contexts_of_def
lemmas gate_records = record_run_def record_ask_def record_rewrite_def record_additional_context_def

lemma answer_lists_append:
  "asks_of (as @ bs) = asks_of as @ asks_of bs" "defers_of (as @ bs) = defers_of as @ defers_of bs"
  "rewrites_of (as @ bs) = rewrites_of as @ rewrites_of bs" "contexts_of (as @ bs) = contexts_of as @ contexts_of bs"
  by (simp_all add: answer_lists)

text \<open>The state after the answers so far.\<close>

definition tracks :: "hook_answer list \<Rightarrow> gate_state \<Rightarrow> bool" where
  "tracks as st \<longleftrightarrow> gt_pending_ask st = last_opt (asks_of as) \<and> gt_deferring_hook st = last_opt (defers_of as)
     \<and> gt_updated_input st = last_opt (rewrites_of as) \<and> gt_additional_context st = contexts_of as"

lemma tracks_results [simp]: "tracks as (st\<lparr>gt_results := rs\<rparr>) = tracks as st"
  by (simp add: tracks_def)

lemma gate_answer_block:
  "is_block (fst out) \<Longrightarrow> \<exists>rs. gate_answer verb s out st = Inl (block_reason_of (fst out), rs)"
  by (cases out; cases "fst out") (auto simp: gate_answer_def Let_def)

lemma gate_answer_goes_on:
  assumes "\<not> is_block (fst out)" "tracks as st"
  obtains st' where "gate_answer verb s out st = Inr st'" "tracks (as @ [(spec_name s, fst out)]) st'"
proof -
  obtain r http msg where out: "out = (r, http, msg)" by (cases out)
  show ?thesis using assms that unfolding out
    by (cases r) (auto simp: gate_answer_def Let_def tracks_def answer_lists_append answer_lists gate_records last_opt_def
        split: option.split)
qed

definition gate_follows :: "sequential_gate \<Rightarrow> hook_answer list \<Rightarrow> bool" where
  "gate_follows g as \<longleftrightarrow> gate_decision g = verdict as
     \<and> sg_updated_input g = (if blocked as then None else last_opt (rewrites_of as))
     \<and> sg_additional_context g = (if blocked as then [] else contexts_of as)"

text \<open>The loop, from a state after the answers \<open>as\<close>, none of which blocked.\<close>

lemma gate_loop_exact:
  assumes "tracks as st" "\<not> blocked as"
  shows "gate_follows (gate_loop H verb mv disabled run ss st) (as @ answers H mv disabled run ss)"
  using assms
proof (induction ss arbitrary: as st)
  case Nil
  then have "find (\<lambda>a. is_block (snd a)) as = None" by (auto simp: find_None_iff blocked_def list_ex_iff)
  with Nil show ?case by (simp add: gate_follows_def answers_def gate_decision_def verdict_def tracks_def split: option.split prod.split)
next
  case (Cons s ss)
  show ?case
  proof (cases "applicable H disabled mv s")
    case False
    then have "\<exists>rs. eligible_or_record_skip H s mv (gt_results st) disabled = (False, rs)"
      by (auto simp: eligible_or_record_skip_def applicable_def)
    moreover have "answers H mv disabled run (s # ss) = answers H mv disabled run ss" using False by (simp add: answers_def)
    ultimately show ?thesis using Cons.IH Cons.prems by auto
  next
    case True
    then have el: "eligible_or_record_skip H s mv (gt_results st) disabled = (True, gt_results st)"
      by (simp add: eligible_or_record_skip_def applicable_def)
    have ans: "answers H mv disabled run (s # ss) = (spec_name s, fst (run s)) # answers H mv disabled run ss"
      using True by (simp add: answers_def)
    show ?thesis
    proof (cases "is_block (fst (run s))")
      case True
      then obtain rs where "gate_answer verb s (run s) st = Inl (block_reason_of (fst (run s)), rs)"
        using gate_answer_block by blast
      moreover have "find (\<lambda>a. is_block (snd a)) (as @ (spec_name s, fst (run s)) # answers H mv disabled run ss)
          = Some (spec_name s, fst (run s))"
        using Cons.prems(2) True by (induction as) (auto simp: blocked_def)
      ultimately show ?thesis using el ans True by (simp add: gate_follows_def gate_decision_def verdict_def blocked_def)
    next
      case False
      then obtain st' where st': "gate_answer verb s (run s) st = Inr st'" "tracks (as @ [(spec_name s, fst (run s))]) st'"
        using gate_answer_goes_on Cons.prems(1) by blast
      have "\<not> blocked (as @ [(spec_name s, fst (run s))])" using Cons.prems(2) False by (simp add: blocked_def)
      then show ?thesis using Cons.IH [OF st'(2)] el ans st'(1) by simp
    qed
  qed
qed

text \<open>What is reported: one entry for every hook that was disabled or ran, up to the first one that blocks.\<close>

definition heard :: "hook_env \<Rightarrow> string option \<Rightarrow> string list \<Rightarrow> (hook_spec \<Rightarrow> hook_run_output) \<Rightarrow> hook_spec list \<Rightarrow> hook_spec list" where
  "heard H mv disabled run ss =
     (let goes_on = (\<lambda>s. \<not> (applicable H disabled mv s \<and> is_block (fst (run s))))
      in takeWhile goes_on ss @ take 1 (dropWhile goes_on ss))"

definition report :: "hook_env \<Rightarrow> string \<Rightarrow> string option \<Rightarrow> string list \<Rightarrow> (hook_spec \<Rightarrow> hook_run_output) \<Rightarrow> hook_spec \<Rightarrow> hook_run_result list" where
  "report H verb mv disabled run s =
     (if is_disabled s disabled then [Run_Skipped (spec_name s)]
      else if \<not> matcher_allows H (spec_matcher s) mv then []
      else (case run s of (r, http, msg) \<Rightarrow>
        if is_block r then [Run_Blocked (spec_name s) (verb @ '': '' @ block_reason_of r) http msg]
        else (case r of Ran_Failed err \<Rightarrow> [Run_Failed (spec_name s) err http msg] | _ \<Rightarrow> [Run_Success (spec_name s) http msg])))"

lemma gate_answer_report:
  assumes "applicable H disabled mv s"
  shows "case gate_answer verb s (run s) st of
      Inl (rsn, rs) \<Rightarrow> is_block (fst (run s)) \<and> rs = gt_results st @ report H verb mv disabled run s
    | Inr st' \<Rightarrow> \<not> is_block (fst (run s)) \<and> gt_results st' = gt_results st @ report H verb mv disabled run s"
proof -
  obtain r http msg where out: "run s = (r, http, msg)" by (cases "run s")
  show ?thesis using assms unfolding out
    by (cases r) (auto simp: gate_answer_def Let_def gate_records report_def applicable_def out split: option.split)
qed

lemma gate_loop_reports:
  "sg_results (gate_loop H verb mv disabled run ss st)
     = gt_results st @ concat (map (report H verb mv disabled run) (heard H mv disabled run ss))"
proof (induction ss arbitrary: st)
  case Nil
  then show ?case by (simp add: heard_def)
next
  case (Cons s ss)
  show ?case
  proof (cases "applicable H disabled mv s")
    case False
    then have "eligible_or_record_skip H s mv (gt_results st) disabled = (False, gt_results st @ report H verb mv disabled run s)"
      by (auto simp: eligible_or_record_skip_def applicable_def report_def)
    then show ?thesis using Cons.IH False by (simp add: heard_def Let_def)
  next
    case True
    then have "eligible_or_record_skip H s mv (gt_results st) disabled = (True, gt_results st)"
      by (simp add: eligible_or_record_skip_def applicable_def)
    then show ?thesis using Cons.IH True gate_answer_report [OF True, of run st verb]
      by (auto simp: heard_def Let_def split: sum.splits)
  qed
qed

section \<open>The interface of a runner of tool hooks\<close>

text \<open>What the gate before a tool call relies on: a run answers for its own hook and with an answer of that gate.\<close>

locale tool_runner =
  fixes run :: "hook_spec \<Rightarrow> hook_run_output"
  assumes answer_of_gate: "tool_answer (spec_name s) (fst (run s))"
begin

lemma block_is_denial: "is_block (fst (run s)) \<longleftrightarrow> (\<exists>rsn. fst (run s) = Ran_Deny rsn (spec_name s))"
  using answer_of_gate [of s] by (cases "fst (run s)") auto

lemma denial_stands:
  assumes "s \<in> set ss" "applicable H disabled mv s" "fst (run s) = Ran_Deny rsn n"
  shows "\<exists>n' rsn'. verdict (answers H mv disabled run ss) = Decision_Deny n' rsn'"
proof -
  have "(spec_name s, fst (run s)) \<in> set (answers H mv disabled run ss)" using assms(1,2) by (auto simp: answers_def)
  then have "find (\<lambda>a. is_block (snd a)) (answers H mv disabled run ss) \<noteq> None"
    using assms(3) unfolding find_None_iff by force
  then show ?thesis by (auto simp: verdict_def split: prod.split)
qed

lemma ask_or_denial:
  assumes "s \<in> set ss" "applicable H disabled mv s" "fst (run s) = Ran_Ask rsn i c"
  shows "(\<exists>n' rsn'. verdict (answers H mv disabled run ss) = Decision_Deny n' rsn')
    \<or> (\<exists>n' rsn'. verdict (answers H mv disabled run ss) = Decision_Ask n' rsn')"
proof -
  have "(spec_name s, fst (run s)) \<in> set (answers H mv disabled run ss)" using assms(1,2) by (auto simp: answers_def)
  then have "(spec_name s, rsn) \<in> set (asks_of (answers H mv disabled run ss))"
    using assms(3) by (force simp: asks_of_def set_filter_map)
  then have "asks_of (answers H mv disabled run ss) \<noteq> []" by auto
  then show ?thesis by (auto simp: verdict_def last_opt_def split: prod.split option.split)
qed

lemma allowed_only_if_none_objects:
  assumes "verdict (answers H mv disabled run ss) = Decision_Allow" "s \<in> set ss" "applicable H disabled mv s"
  shows "(\<exists>i c. fst (run s) = Ran_Allow i c) \<or> (\<exists>err. fst (run s) = Ran_Failed err)"
proof -
  have mem: "(spec_name s, fst (run s)) \<in> set (answers H mv disabled run ss)" using assms(2,3) by (auto simp: answers_def)
  have "find (\<lambda>a. is_block (snd a)) (answers H mv disabled run ss) = None" "asks_of (answers H mv disabled run ss) = []"
    "defers_of (answers H mv disabled run ss) = []"
    using assms(1) by (auto simp: verdict_def last_opt_def split: option.splits if_splits prod.splits)
  then have "\<not> is_block (fst (run s))" "\<not> (\<exists>r i c. fst (run s) = Ran_Ask r i c)" "fst (run s) \<noteq> Ran_Defer"
    using mem by (auto simp: find_None_iff asks_of_def defers_of_def concat_eq_Nil_conv map_filter_def filter_empty_conv split: option.splits)
  then show ?thesis using answer_of_gate [of s] by (cases "fst (run s)") auto
qed

end

interpretation pre: tool_runner "\<lambda>s. run_hook H rt s e Gate_Tool" for H rt e
  by unfold_locales (rule run_hook_tool_answer)

section \<open>Properties of the gates\<close>

lemma tracks_start: "tracks [] gate_start"
  by (simp add: tracks_def gate_start_def answer_lists last_opt_def)

lemma sequential_gate_exact:
  "gate_follows (dispatch_sequential_gate H R event verb e disabled run)
     (answers H (match_value (env_payload e)) disabled run (hooks_for R event))"
  using gate_loop_exact [OF tracks_start, of H verb "match_value (env_payload e)" disabled run "hooks_for R event"]
  by (simp add: dispatch_sequential_gate_def blocked_def)

abbreviation tool_answers :: "hook_env \<Rightarrow> hook_runtime \<Rightarrow> hook_registry \<Rightarrow> hook_envelope \<Rightarrow> string list \<Rightarrow> hook_answer list" where
  "tool_answers H rt R e disabled \<equiv>
     answers H (match_value (env_payload e)) disabled (\<lambda>s. run_hook H rt s e Gate_Tool) (hooks_for R Event_PreToolUse)"

lemma pre_tool_use_follows:
  "pre_decision (dispatch_pre_tool_use H rt R e disabled) = verdict (tool_answers H rt R e disabled)"
  "pre_updated_input (dispatch_pre_tool_use H rt R e disabled)
     = (if blocked (tool_answers H rt R e disabled) then None else last_opt (rewrites_of (tool_answers H rt R e disabled)))"
  "pre_additional_context (dispatch_pre_tool_use H rt R e disabled)
     = (if blocked (tool_answers H rt R e disabled) then [] else contexts_of (tool_answers H rt R e disabled))"
  using sequential_gate_exact [of H R Event_PreToolUse "''denied''" e disabled "\<lambda>s. run_hook H rt s e Gate_Tool"]
  by (simp_all add: dispatch_pre_tool_use_def gate_follows_def Let_def)

lemma pre_tool_use_reports:
  "pre_results (dispatch_pre_tool_use H rt R e disabled) =
     concat (map (report H ''denied'' (match_value (env_payload e)) disabled (\<lambda>s. run_hook H rt s e Gate_Tool))
       (heard H (match_value (env_payload e)) disabled (\<lambda>s. run_hook H rt s e Gate_Tool) (hooks_for R Event_PreToolUse)))"
  by (simp add: dispatch_pre_tool_use_def dispatch_sequential_gate_def gate_loop_reports gate_start_def Let_def)

text \<open>C30: The decision before a tool call is a function of the answers of the hooks that apply, whatever the loop does on the
  way. The first hook that denies decides; where none does, the last that asks; else the last that defers; else the call is
  allowed. A denial discards what the hooks would change, and otherwise the last rewrite is taken and every note is kept, in
  the order of the hooks. Reported is every hook that is disabled or was run, up to the one that denied.\<close>

theorem pre_tool_use_exact:
  "dispatch_pre_tool_use H rt R e disabled =
     (let as = tool_answers H rt R e disabled;
          mv = match_value (env_payload e); run = (\<lambda>s. run_hook H rt s e Gate_Tool)
      in \<lparr>pre_decision = verdict as,
          pre_updated_input = (if blocked as then None else last_opt (rewrites_of as)),
          pre_additional_context = (if blocked as then [] else contexts_of as),
          pre_results = concat (map (report H ''denied'' mv disabled run) (heard H mv disabled run (hooks_for R Event_PreToolUse)))\<rparr>)"
  by (simp add: Let_def pre_tool_use_follows [symmetric] pre_tool_use_reports [symmetric])

lemma canonical_PreToolUse [simp]: "canonical ev = Event_PreToolUse \<longleftrightarrow> ev = Event_PreToolUse"
  by (cases ev) simp_all

text \<open>The copy that is kept of a hook of the administrator before a tool call: itself one of the administrator's, with the
  same matcher.\<close>

lemma managed_copy:
  assumes "s \<in> set (fst (parse_hooks_from_config_layers T H home layers))" "is_managed_policy (spec_layer s)"
    "spec_event s = Event_PreToolUse"
  obtains t where "t \<in> set (hooks_for (fst (assemble_hooks T order H F home layers paths trusted)) Event_PreToolUse)"
    "t \<in> set (fst (parse_hooks_from_config_layers T H home layers))" "is_managed_policy (spec_layer t)"
    "content_key t = content_key s" "spec_matcher t = spec_matcher s"
proof -
  let ?specs = "fst (parse_hooks_from_config_layers T H home layers)"
  obtain file_specs where R: "fst (assemble_hooks T order H F home layers paths trusted) = registry_from_specs_deduped (?specs @ file_specs)"
    and files: "\<forall>s \<in> set file_specs. read_spec H Prov_File s" using assembled by blast
  have "s \<in> set (?specs @ file_specs)" using assms(1) by simp
  then obtain k t where k: "t \<in> set (?specs @ file_specs)" "content_key k = content_key s" "spec_rank s \<le> spec_rank k"
    "k = t\<lparr>spec_event := spec_event k\<rparr>" "canonical (spec_event t) = canonical (spec_event k)"
    "k \<in> set (registry_from_specs_deduped (?specs @ file_specs) (spec_event k))"
    by (rule kept_copy)
  have ev: "spec_event k = Event_PreToolUse" using content_key_canonical [OF k(2)] assms(3) by simp
  then have "spec_event t = Event_PreToolUse" using k(5) by simp
  then have kt: "k = t" using k(4) ev by simp
  have m: "is_managed_policy (spec_layer t)" using k(3) assms(2) kt by (simp add: managed_rank)
  then have "t \<notin> set file_specs" using files by (auto simp: read_spec_def)
  then have t: "t \<in> set ?specs" using k(1) by simp
  have "compiled_spec H t" "compiled_spec H s" using config_layer_read t assms(1) by (metis read_spec_def)+
  then have "spec_matcher t = spec_matcher s" using compiled_same_key k(2) kt by blast
  with that [of t] t m k(2,6) kt ev R show ?thesis by (simp add: hooks_for_def)
qed

text \<open>C31: A hook of the administrator cannot be kept from deciding. When a hook before tool calls comes from a layer of the
  administrator and its command refuses the call with exit code 2, the call is denied, whatever the file of disabled hooks
  says, whatever other layers, files and projects define, the same command included, and whatever the hooks print.\<close>

theorem managed_hook_denies:
  assumes "s \<in> set (fst (parse_hooks_from_config_layers T H home layers))"
    and "is_managed_policy (spec_layer s)" "spec_event s = Event_PreToolUse"
    and "matcher_allows H (spec_matcher s) (match_value (env_payload e))"
    and "\<And>t. t \<in> set (fst (parse_hooks_from_config_layers T H home layers)) \<Longrightarrow> is_managed_policy (spec_layer t)
         \<Longrightarrow> content_key t = content_key s \<Longrightarrow> exits_with H rt t e 2"
  shows "\<exists>n rsn. pre_decision (dispatch_pre_tool_use H rt (fst (assemble_hooks T order H F home layers paths trusted)) e disabled)
    = Decision_Deny n rsn"
proof -
  obtain t where t: "t \<in> set (hooks_for (fst (assemble_hooks T order H F home layers paths trusted)) Event_PreToolUse)"
    "t \<in> set (fst (parse_hooks_from_config_layers T H home layers))" "is_managed_policy (spec_layer t)"
    "content_key t = content_key s" "spec_matcher t = spec_matcher s"
    using managed_copy [OF assms(1-3)] by blast
  have "applicable H disabled (match_value (env_payload e)) t" using t(3,5) assms(4) by (simp add: applicable_def is_disabled_def)
  moreover obtain rsn where "fst (run_hook H rt t e Gate_Tool) = Ran_Deny rsn (spec_name t)"
    using exit_two_denies [OF assms(5) [OF t(2-4)]] by blast
  ultimately show ?thesis using pre.denial_stands t(1) by (simp add: pre_tool_use_follows(1))
qed

section \<open>Examples\<close>

definition demo_runtime :: "(hook_launch \<Rightarrow> process_end) \<Rightarrow> hook_runtime" where
  "demo_runtime run = \<lparr>rt_session_id = ''s'', rt_workspace_root = ''/w'', rt_serialize = (\<lambda>_. Inr ''event''), rt_exists = (\<lambda>_. True),
     rt_run = (\<lambda>launch _ _ _. run launch), rt_lossy = (\<lambda>b. b), rt_parse_url = (\<lambda>_. Inl ''none''), rt_lookup = (\<lambda>_. Inl ''none''),
     rt_lookup_in_time = True, rt_post = (\<lambda>_ _ _. Http_TimedOut), rt_parse_error = (\<lambda>_. ''bad'')\<rparr>"

definition demo_toml :: "json toml_lib" where
  "demo_toml = \<lparr>toml_entries = (\<lambda>j. case j of JObject kvs \<Rightarrow> Inr kvs | _ \<Rightarrow> Inl ''no table''),
     toml_groups = (\<lambda>j. case as_list matcher_group_of j of Some gs \<Rightarrow> Inr gs | None \<Rightarrow> Inl ''no groups'')\<rparr>"

definition guard_hooks :: json where
  "guard_hooks = JObject [(''PreToolUse'', JArray [JObject [(''matcher'', JString ''Bash''),
     (''hooks'', JArray [JObject [(''type'', JString ''command''), (''command'', JString ''/opt/guard'')]])]])]"

definition guard_layer :: "hook_provenance \<Rightarrow> string \<Rightarrow> json hook_config_layer" where
  "guard_layer prov name = \<lparr>hl_provenance = prov, hl_source_name = name, hl_path = ''/etc/grok/x.toml'', hl_hooks = guard_hooks\<rparr>"

abbreviation guard_layers :: "json hook_config_layer list" where
  "guard_layers \<equiv> [guard_layer Prov_User ''user'', guard_layer Prov_SystemManaged ''system_managed'']"

definition guard_spec :: hook_spec where
  "guard_spec = \<lparr>spec_name = ''system_managed:pre_tool_use[0].hooks[0]'', spec_event = Event_PreToolUse,
     spec_handler = Handler_Command, spec_configured = Some ''Bash'',
     spec_matcher = Some (Matcher_Exact [''Bash'', ''run_terminal_command'']), spec_enabled = True,
     spec_command = Some ''/opt/guard'', spec_command_raw = Some ''/opt/guard'', spec_url = None, spec_url_raw = None,
     spec_timeout_ms = 5000, spec_source_dir = ''/etc/grok'', spec_extra_env = [], spec_layer = Prov_SystemManaged\<rparr>"

definition user_guard_spec :: hook_spec where
  "user_guard_spec = guard_spec\<lparr>spec_name := ''user:pre_tool_use[0].hooks[0]'', spec_layer := Prov_User\<rparr>"

lemma guard_specs: "fst (parse_hooks_from_config_layers demo_toml demo_hook_env None guard_layers) = [user_guard_spec, guard_spec]"
  by code_simp

text \<open>A user defines the same hook in a layer that is read first and disables both names.\<close>

theorem managed_hook_denies_witness:
  "\<exists>n rsn. pre_decision (dispatch_pre_tool_use demo_hook_env (demo_runtime (\<lambda>_. Proc_Exited (Some 2) [] ''no''))
     (fst (assemble_hooks demo_toml (\<lambda>kvs. kvs) demo_hook_env
        \<lparr>hf_read = (\<lambda>_. Disk_Missing), hf_dir = (\<lambda>_. None), hf_is_file = (\<lambda>_. False), hf_is_dir = (\<lambda>_. False)\<rparr>
        None guard_layers \<lparr>source_global = [], source_project = []\<rparr> True))
     (demo_envelope ''run_terminal_command'') [spec_name guard_spec, spec_name user_guard_spec]) = Decision_Deny n rsn"
proof (rule managed_hook_denies)
  show "guard_spec \<in> set (fst (parse_hooks_from_config_layers demo_toml demo_hook_env None guard_layers))"
    unfolding guard_specs by simp
  show "is_managed_policy (spec_layer guard_spec)" "spec_event guard_spec = Event_PreToolUse" by code_simp+
  show "matcher_allows demo_hook_env (spec_matcher guard_spec) (match_value (env_payload (demo_envelope ''run_terminal_command'')))"
    by code_simp
  fix t
  assume "t \<in> set (fst (parse_hooks_from_config_layers demo_toml demo_hook_env None guard_layers))" "is_managed_policy (spec_layer t)"
  then have "t = guard_spec" unfolding guard_specs by (auto simp: user_guard_spec_def)
  moreover have "exits_with demo_hook_env (demo_runtime (\<lambda>_. Proc_Exited (Some 2) [] ''no'')) guard_spec
      (demo_envelope ''run_terminal_command'') 2" by code_simp
  ultimately show "exits_with demo_hook_env (demo_runtime (\<lambda>_. Proc_Exited (Some 2) [] ''no'')) t
      (demo_envelope ''run_terminal_command'') 2" by simp
qed

end
