(* ===== verification/Text_Edit.thy ===== *)
theory Text_Edit
  imports Truncation
begin

text \<open>
  Finding and replacing text inside a file: the helpers of the tool \<open>search_replace\<close>
  (\<open>implementations/grok_build/search_replace/helpers.rs\<close>) and the table of confusable characters
  (\<open>util/unicode_confusables.rs\<close>), both of \<open>xai-grok-tools\<close>. A string is its bytes; a slice that is out of range or
  cuts a character is a panic of the source, the result \<open>None\<close>.

  The theory shows that replacing at the positions of all matches is the replacement of the standard library, that
  matches found after normalising typography are disjoint regions of the text, each of which reads as the pattern, and that
  no slice of these functions fails on text made of whole characters.
\<close>

section \<open>Slices and matches of the standard library\<close>

definition str_slice :: "string \<Rightarrow> nat \<Rightarrow> nat \<Rightarrow> string option" where
  "str_slice s a b = (if a \<le> b \<and> b \<le> length s \<and> is_char_boundary s a \<and> is_char_boundary s b
     then Some (take (b - a) (drop a s)) else None)"

text \<open>\<open>match_indices\<close> for a non-empty pattern: non-overlapping, left to right. The first argument counts the bytes of a match
  still to be skipped, the second is the index.\<close>

fun match_indices_from :: "nat \<Rightarrow> nat \<Rightarrow> 'a list \<Rightarrow> 'a list \<Rightarrow> nat list" where
  "match_indices_from k i p [] = []"
| "match_indices_from (Suc k) i p (x # xs) = match_indices_from k (Suc i) p xs"
| "match_indices_from 0 i p (x # xs) =
     (if starts_with (x # xs) p then i # match_indices_from (length p - 1) (Suc i) p xs
      else match_indices_from 0 (Suc i) p xs)"

definition match_indices :: "'a list \<Rightarrow> 'a list \<Rightarrow> nat list" where
  "match_indices s p = match_indices_from 0 0 p s"

fun offsets_from :: "nat \<Rightarrow> string list \<Rightarrow> (nat \<times> string) list" where
  "offsets_from i [] = []"
| "offsets_from i (c # cs) = (i, c) # offsets_from (i + length c) cs"

definition char_indices :: "string \<Rightarrow> (nat \<times> string) list" where
  "char_indices s = offsets_from 0 (str_chars s)"

section \<open>Confusable characters\<close>

definition CONFUSABLE_MAP :: "(string \<times> string) list" where
  "CONFUSABLE_MAP = [
     ([CHR 0xE2, CHR 0x80, CHR 0x9C], [CHR 0x22]),
     ([CHR 0xE2, CHR 0x80, CHR 0x9D], [CHR 0x22]),
     ([CHR 0xE2, CHR 0x80, CHR 0x98], [CHR 0x27]),
     ([CHR 0xE2, CHR 0x80, CHR 0x99], [CHR 0x27]),
     ([CHR 0xE2, CHR 0x80, CHR 0x94], ''--''),
     ([CHR 0xE2, CHR 0x80, CHR 0x93], ''-''),
     ([CHR 0xE2, CHR 0x80, CHR 0xA6], ''...''),
     ([CHR 0xC2, CHR 0xA0], '' '')]"

definition confusable :: "string \<Rightarrow> string option" where
  "confusable c = map_of CONFUSABLE_MAP c"

definition has_confusables :: "string \<Rightarrow> bool" where
  "has_confusables s = list_ex (\<lambda>c. confusable c \<noteq> None) (str_chars s)"

definition plain_char :: "string \<Rightarrow> string" where
  "plain_char c = (case confusable c of Some r \<Rightarrow> r | None \<Rightarrow> c)"

definition normalize_confusables :: "string \<Rightarrow> string" where
  "normalize_confusables s = concat (map plain_char (str_chars s))"

record confusable_hit =
  byte_offset :: nat
  unicode_char :: string
  ascii_replacement :: string
  line_number :: nat

fun hits_from :: "nat \<Rightarrow> (nat \<times> string) list \<Rightarrow> confusable_hit list" where
  "hits_from line [] = []"
| "hits_from line ((off, c) # cs) =
     (case confusable c of
        Some r \<Rightarrow> [\<lparr>byte_offset = off, unicode_char = c, ascii_replacement = r, line_number = line\<rparr>]
      | None \<Rightarrow> [])
     @ hits_from (if c = [NL] then line + 1 else line) cs"

definition detect_confusables :: "string \<Rightarrow> confusable_hit list" where
  "detect_confusables s = hits_from 1 (char_indices s)"

definition char_map :: "nat \<Rightarrow> string \<Rightarrow> nat list" where
  "char_map off c = (case confusable c of Some r \<Rightarrow> replicate (length r) off | None \<Rightarrow> [off..<off + length c])"

definition build_offset_map :: "string \<Rightarrow> string \<times> nat list" where
  "build_offset_map s =
     (let (normalized, offset_map) =
            foldl (\<lambda>(normalized, offset_map) (off, c). (normalized @ plain_char c, offset_map @ char_map off c)) ([], []) (char_indices s)
      in (normalized, offset_map @ [length s]))"

section \<open>Replacing\<close>

text \<open>The loop of both replacement functions: regions of the text, each its start and its length, become the new string.\<close>

fun splice :: "string \<Rightarrow> string \<Rightarrow> (nat \<times> nat) list \<Rightarrow> nat \<Rightarrow> string \<Rightarrow> nat list \<Rightarrow> (string \<times> nat list) option" where
  "splice txt new_string [] last_end out positions =
     (case str_slice txt last_end (length txt) of None \<Rightarrow> None | Some t \<Rightarrow> Some (out @ t, positions))"
| "splice txt new_string ((start, len) # ms) last_end out positions =
     (case str_slice txt last_end start of
        None \<Rightarrow> None
      | Some t \<Rightarrow> splice txt new_string ms (start + len) (out @ t @ new_string) (positions @ [length (out @ t)]))"

definition replace_using_positions :: "string \<Rightarrow> nat list \<Rightarrow> string \<Rightarrow> string \<Rightarrow> (string \<times> nat list) option" where
  "replace_using_positions txt match_positions old_string new_string =
     splice txt new_string (map (\<lambda>pos. (pos, length old_string)) match_positions) 0 [] []"

record normalized_match =
  original_start :: nat
  original_len :: nat

datatype normalized_match_result = Norm_NoMatch | Norm_Matches "normalized_match list" | Norm_Ambiguous

text \<open>One candidate: validated or rejected.\<close>

definition candidate :: "string \<Rightarrow> nat list \<Rightarrow> string \<Rightarrow> nat \<Rightarrow> normalized_match option option" where
  "candidate txt offset_map norm_pattern norm_start =
     (let orig_start = offset_map ! norm_start; orig_end = offset_map ! (norm_start + length norm_pattern)
      in if orig_end \<le> orig_start then Some None
         else case str_slice txt orig_start orig_end of
                None \<Rightarrow> None
              | Some orig_slice \<Rightarrow>
                  if normalize_confusables orig_slice \<noteq> norm_pattern then Some None
                  else Some (Some \<lparr>original_start = orig_start, original_len = orig_end - orig_start\<rparr>))"

fun candidates :: "string \<Rightarrow> nat list \<Rightarrow> string \<Rightarrow> nat list \<Rightarrow> (normalized_match list \<times> bool) option" where
  "candidates txt offset_map norm_pattern [] = Some ([], False)"
| "candidates txt offset_map norm_pattern (i # is) =
     (case candidate txt offset_map norm_pattern i of
        None \<Rightarrow> None
      | Some found \<Rightarrow>
          (case candidates txt offset_map norm_pattern is of
             None \<Rightarrow> None
           | Some (validated, rejected) \<Rightarrow>
               (case found of Some m \<Rightarrow> Some (m # validated, rejected) | None \<Rightarrow> Some (validated, True))))"

fun some_overlap :: "normalized_match list \<Rightarrow> bool" where
  "some_overlap (m # n # ms) \<longleftrightarrow> original_start m + original_len m > original_start n \<or> some_overlap (n # ms)"
| "some_overlap _ = False"

definition find_normalized_match_positions :: "string \<Rightarrow> string \<Rightarrow> normalized_match_result option" where
  "find_normalized_match_positions txt pat =
     (let (norm_text, offset_map) = build_offset_map txt; norm_pattern = normalize_confusables pat
      in if norm_pattern = [] then Some Norm_NoMatch
         else case candidates txt offset_map norm_pattern (match_indices norm_text norm_pattern) of
                None \<Rightarrow> None
              | Some (validated, rejected) \<Rightarrow>
                  Some (if validated = [] then (if rejected then Norm_Ambiguous else Norm_NoMatch)
                        else if some_overlap validated then Norm_Ambiguous
                        else Norm_Matches validated))"

definition replace_normalized_matches :: "string \<Rightarrow> normalized_match list \<Rightarrow> string \<Rightarrow> (string \<times> nat list) option" where
  "replace_normalized_matches txt ms new_string =
     splice txt new_string (map (\<lambda>m. (original_start m, original_len m)) ms) 0 [] []"

section \<open>Reporting an edit\<close>

record line_range =
  start_line :: nat
  end_line :: nat

definition compute_line_range :: "string \<Rightarrow> nat \<Rightarrow> string \<Rightarrow> line_range option" where
  "compute_line_range txt start_pos inserted_text =
     (case str_slice txt 0 start_pos of
        None \<Rightarrow> None
      | Some before \<Rightarrow>
          (let start = count_list before NL; lines_in_inserted = max (length (split_inclusive NL inserted_text)) 1
           in Some \<lparr>start_line = start, end_line = start + lines_in_inserted - 1\<rparr>))"

text \<open>A slice of a vector, both ends in range.\<close>

definition vec_slice :: "'a list \<Rightarrow> nat \<Rightarrow> nat \<Rightarrow> 'a list option" where
  "vec_slice xs a b = (if a \<le> b \<and> b \<le> length xs then Some (take (b - a) (drop a xs)) else None)"

text \<open>The arrow between a line number and its line, U+2192.\<close>

abbreviation ARROW :: string where "ARROW \<equiv> [CHR 0xE2, CHR 0x86, CHR 0x92]"

definition render_snippet :: "string \<Rightarrow> string \<Rightarrow> nat \<Rightarrow> nat \<Rightarrow> (string \<times> string \<times> string) option" where
  "render_snippet new_text new_string start_pos context_size =
     (case compute_line_range new_text start_pos new_string of
        None \<Rightarrow> None
      | Some r \<Rightarrow>
          (let ls = split_inclusive NL new_text; total = length ls;
               snippet_start = start_line r - context_size;
               snippet_end = min (end_line r + context_size) (total - 1)
           in case (if snippet_start < start_line r then vec_slice ls snippet_start (start_line r) else Some []) of
                None \<Rightarrow> None
              | Some before_context \<Rightarrow>
                  (case (if end_line r < snippet_end then vec_slice ls (end_line r + 1) (snippet_end + 1) else Some []) of
                     None \<Rightarrow> None
                   | Some after_context \<Rightarrow>
                       if snippet_end < snippet_start then None
                       else Some (concat (take (snippet_end - snippet_start + 1) (drop snippet_start
                              (map (\<lambda>(n, l). dec_of_nat (n + 1) @ ARROW @ l) (List.enumerate 0 ls)))),
                            concat before_context, concat after_context))))"

record edit_detail =
  ed_old_string :: string
  old_line :: nat
  ed_new_string :: string
  new_line :: nat
  context_before :: string
  context_after :: string
  line_prefix :: string

definition edit_detail_at :: "string \<Rightarrow> string \<Rightarrow> string \<Rightarrow> nat \<Rightarrow> nat \<Rightarrow> edit_detail option" where
  "edit_detail_at new_text old_string new_string context_lines start_pos =
     (case (render_snippet new_text new_string start_pos context_lines, compute_line_range new_text start_pos new_string,
            str_slice new_text 0 start_pos) of
        (Some (_, before, after), Some r, Some pre) \<Rightarrow>
          (let line_start = length pre - length (takeWhile (\<lambda>c. c \<noteq> NL) (rev pre))
           in case str_slice new_text line_start start_pos of
                None \<Rightarrow> None
              | Some line_pre \<Rightarrow>
                  Some \<lparr>ed_old_string = old_string, old_line = start_line r + 1, ed_new_string = new_string,
                    new_line = start_line r + 1, context_before = before, context_after = after, line_prefix = line_pre\<rparr>)
      | _ \<Rightarrow> None)"

fun sequence_options :: "'a option list \<Rightarrow> 'a list option" where
  "sequence_options [] = Some []"
| "sequence_options (None # xs) = None"
| "sequence_options (Some x # xs) = map_option (Cons x) (sequence_options xs)"

definition build_edit_details :: "string \<Rightarrow> string \<Rightarrow> string \<Rightarrow> nat list \<Rightarrow> nat \<Rightarrow> edit_detail list option" where
  "build_edit_details new_text old_string new_string new_positions context_lines =
     sequence_options (map (edit_detail_at new_text old_string new_string context_lines) new_positions)"

section \<open>Text made of whole characters\<close>

lemma well_formed_split:
  "well_formed (a @ b) \<Longrightarrow> b = [] \<or> \<not> is_continuation (hd b) \<Longrightarrow> well_formed a \<and> well_formed b"
proof (induction a rule: well_formed.induct)
  case (2 c cs)
  let ?n = "char_len c - 1"
  have n: "?n \<le> length cs"
  proof (rule ccontr)
    assume long: "\<not> ?n \<le> length cs"
    then have "b \<noteq> []" "hd b \<in> set (take ?n (cs @ b))" using 2(2) by (cases b; cases "?n - length cs"; auto)+
    then show False using 2(2,3) by (auto simp: list_all_iff)
  qed
  have "well_formed (drop ?n cs @ b)" using 2(2) n by simp
  then show ?case using 2(1) [OF _ 2(3)] 2(2) n by simp
qed simp

lemma well_formed_append: "well_formed a \<Longrightarrow> well_formed (a @ b) \<longleftrightarrow> well_formed b"
  by (induction a rule: well_formed.induct) auto

lemma well_formed_hd: "well_formed b \<Longrightarrow> b = [] \<or> \<not> is_continuation (hd b)"
  by (cases b) auto

lemma well_formed_appendD:
  assumes "well_formed (a @ b)" "well_formed b"
  shows "well_formed a"
  using well_formed_split [OF assms(1) well_formed_hd [OF assms(2)]] by simp

lemma well_formed_middle:
  assumes "well_formed (a @ p @ b)" "well_formed p" "p \<noteq> []"
  shows "well_formed a" "well_formed b"
proof -
  have "p @ b = [] \<or> \<not> is_continuation (hd (p @ b))" using assms(2,3) well_formed_hd [of p] by auto
  then have "well_formed a \<and> well_formed (p @ b)" by (rule well_formed_split [OF assms(1)])
  then show "well_formed a" "well_formed b" using assms(2) by (simp_all add: well_formed_append)
qed

lemma well_formed_concat: "list_all well_formed xs \<Longrightarrow> well_formed (concat xs)"
  by (induction xs) (auto simp: well_formed_append)

lemma boundary_append: "well_formed b \<Longrightarrow> is_char_boundary (a @ b) (length a)"
  using well_formed_hd [of b] by (cases b) (auto simp: is_char_boundary_def)

lemma well_formed_at:
  assumes "well_formed s" "is_char_boundary s i" "i \<le> length s"
  shows "well_formed (take i s)" "well_formed (drop i s)"
proof -
  have "drop i s = [] \<or> \<not> is_continuation (hd (drop i s)) \<or> i = 0"
    using assms(2) by (auto simp: is_char_boundary_def hd_drop_conv_nth)
  then have "well_formed (take i s) \<and> well_formed (drop i s)"
    using well_formed_split [of "take i s" "drop i s"] assms(1) by auto
  then show "well_formed (take i s)" "well_formed (drop i s)" by auto
qed

lemma str_slice_middle:
  "well_formed b \<Longrightarrow> well_formed c \<Longrightarrow> str_slice (a @ b @ c) (length a) (length a + length b) = Some b"
  using boundary_append [of "b @ c" a] boundary_append [of c "a @ b"]
  by (auto simp: str_slice_def well_formed_append)

lemma str_slice_rest: "well_formed b \<Longrightarrow> str_slice (a @ b) (length a) (length (a @ b)) = Some b"
  using str_slice_middle [of b "[]" a] by simp

lemma chars_well_formed:
  "well_formed s \<Longrightarrow> c \<in> set (str_chars s) \<Longrightarrow> well_formed c \<and> c \<noteq> [] \<and> list_all is_continuation (tl c)"
  by (induction s rule: str_chars.induct) (auto simp: min_def)

section \<open>Regions of a text\<close>

text \<open>A text as an alternation of kept parts and regions, and where the regions are.\<close>

fun weave :: "('a list \<times> 'a list) list \<Rightarrow> 'a list \<Rightarrow> 'a list" where
  "weave [] z = z"
| "weave ((a, r) # ps) z = a @ r @ weave ps z"

fun regions :: "nat \<Rightarrow> ('a list \<times> 'a list) list \<Rightarrow> (nat \<times> nat) list" where
  "regions i [] = []"
| "regions i ((a, r) # ps) = (i + length a, length r) # regions (i + length a + length r) ps"

definition with_regions :: "'a list \<Rightarrow> ('a list \<times> 'a list) list \<Rightarrow> ('a list \<times> 'a list) list" where
  "with_regions new_string ps = map (\<lambda>(a, r). (a, new_string)) ps"

definition whole_parts :: "(string \<times> string) list \<Rightarrow> string \<Rightarrow> bool" where
  "whole_parts ps z \<longleftrightarrow> list_all (\<lambda>(a, r). well_formed a \<and> well_formed r) ps \<and> well_formed z"

lemma whole_parts_simps [simp]:
  "whole_parts [] z \<longleftrightarrow> well_formed z"
  "whole_parts ((a, r) # ps) z \<longleftrightarrow> well_formed a \<and> well_formed r \<and> whole_parts ps z"
  by (auto simp: whole_parts_def)

lemma with_regions_simps [simp]:
  "with_regions new_string [] = []"
  "with_regions new_string ((a, r) # ps) = (a, new_string) # with_regions new_string ps"
  by (simp_all add: with_regions_def)

lemma whole_parts_weave: "whole_parts ps z \<Longrightarrow> well_formed (weave ps z)"
  by (induction ps) (auto simp: well_formed_append)

lemma whole_parts_with: "whole_parts ps z \<Longrightarrow> well_formed new_string \<Longrightarrow> whole_parts (with_regions new_string ps) z"
  by (induction ps) auto

lemma splice_weave:
  "whole_parts ps z \<Longrightarrow>
   splice (pre @ weave ps z) new_string (regions (length pre) ps) (length pre) out positions
   = Some (out @ weave (with_regions new_string ps) z, positions @ map fst (regions (length out) (with_regions new_string ps)))"
proof (induction ps arbitrary: pre out positions)
  case Nil
  then show ?case using str_slice_rest [of z pre] by simp
next
  case (Cons p ps)
  obtain a r where p: "p = (a, r)" by fastforce
  have wf: "well_formed a" "well_formed (r @ weave ps z)"
    using Cons.prems by (auto simp: p well_formed_append whole_parts_weave)
  show ?case
    using Cons.IH [of "pre @ a @ r" "out @ a @ new_string" "positions @ [length (out @ a)]"] Cons.prems
      str_slice_middle [OF wf, of pre]
    by (simp add: p add.assoc)
qed

section \<open>Exact matches\<close>

text \<open>The parts of a text before its matches, and the rest.\<close>

fun pieces_from :: "nat \<Rightarrow> 'a list \<Rightarrow> 'a list \<Rightarrow> 'a list list \<times> 'a list" where
  "pieces_from k p [] = ([], [])"
| "pieces_from (Suc k) p (x # xs) = pieces_from k p xs"
| "pieces_from 0 p (x # xs) =
     (if starts_with (x # xs) p then (let (as, z) = pieces_from (length p - 1) p xs in ([] # as, z))
      else (case pieces_from 0 p xs of ([], z) \<Rightarrow> ([], x # z) | (a # as, z) \<Rightarrow> ((x # a) # as, z)))"

definition occurrences :: "'a list \<Rightarrow> 'a list \<Rightarrow> ('a list \<times> 'a list) list \<times> 'a list" where
  "occurrences p s = (let (as, z) = pieces_from 0 p s in (map (\<lambda>a. (a, p)) as, z))"

lemma pieces_from_shape:
  assumes "p \<noteq> []" "k \<le> length s" "pieces_from k p s = (as, z)"
  shows "weave (map (\<lambda>a. (a, p)) as) z = drop k s
    \<and> match_indices_from k i p s = map fst (regions (i + k) (map (\<lambda>a. (a, p)) as))
    \<and> replace_from k p r s = weave (map (\<lambda>a. (a, r)) as) z"
  using assms
proof (induction k p s arbitrary: i as z rule: pieces_from.induct)
  case (3 p x xs)
  show ?case
  proof (cases "starts_with (x # xs) p")
    case True
    then obtain q where q: "x # xs = p @ q" by (auto simp: starts_with_iff)
    obtain y p' where p: "p = y # p'" using 3(3) by (cases p) auto
    then have xs: "xs = p' @ q" and len: "length p - 1 \<le> length xs" using q by auto
    obtain bs z' where r: "pieces_from (length p - 1) p xs = (bs, z')" by fastforce
    have az: "as = [] # bs" "z = z'" using 3(5) r True by auto
    have d: "drop (length p - 1) xs = q" by (simp add: xs p)
    have e: "Suc i + (length p - 1) = i + length p" by (simp add: p)
    have "weave (map (\<lambda>a. (a, p)) bs) z' = q"
      "match_indices_from (length p - 1) (Suc i) p xs = map fst (regions (i + length p) (map (\<lambda>a. (a, p)) bs))"
      "replace_from (length p - 1) p r xs = weave (map (\<lambda>a. (a, r)) bs) z'"
      using 3(1) [OF True 3(3) len r, of "Suc i"] unfolding d e by blast+
    then show ?thesis using True by (simp add: az q [symmetric])
  next
    case False
    obtain bs y where r: "pieces_from 0 p xs = (bs, y)" by fastforce
    show ?thesis using 3(2) [OF False 3(3) _ r, of "Suc i"] 3(5) r False by (cases bs) auto
  qed
qed auto

lemma occurrences_shape:
  assumes "p \<noteq> []" "occurrences p s = (ps, z)"
  shows "weave ps z = s" "match_indices s p = map fst (regions 0 ps)" "replace p r s = weave (with_regions r ps) z"
    "\<forall>(a, q) \<in> set ps. q = p"
proof -
  obtain as where as: "pieces_from 0 p s = (as, z)" "ps = map (\<lambda>a. (a, p)) as"
    using assms(2) by (auto simp: occurrences_def split: prod.splits)
  have "with_regions r ps = map (\<lambda>a. (a, r)) as" by (simp add: as(2) with_regions_def)
  then show "weave ps z = s" "match_indices s p = map fst (regions 0 ps)" "replace p r s = weave (with_regions r ps) z"
    "\<forall>(a, q) \<in> set ps. q = p"
    using pieces_from_shape [OF assms(1) _ as(1), of 0 r] by (auto simp: as(2) match_indices_def replace_def)
qed

lemma weave_whole_parts:
  "well_formed (weave ps z) \<Longrightarrow> \<forall>(a, q) \<in> set ps. q = p \<Longrightarrow> well_formed p \<Longrightarrow> p \<noteq> [] \<Longrightarrow> whole_parts ps z"
proof (induction ps)
  case (Cons x ps)
  then obtain a where x: "x = (a, p)" by (cases x) auto
  have "well_formed a" "well_formed (weave ps z)" using Cons.prems well_formed_middle [of a p "weave ps z"] by (simp_all add: x)
  then show ?case using Cons by (simp add: x)
qed simp

lemma occurrences_whole_parts:
  assumes "p \<noteq> []" "well_formed p" "well_formed s" "occurrences p s = (ps, z)"
  shows "whole_parts ps z"
  using weave_whole_parts [of ps z p] occurrences_shape(1,4) [OF assms(1,4)] assms(1-3) by simp

lemma replace_well_formed:
  assumes "p \<noteq> []" "well_formed p" "well_formed r" "well_formed s"
  shows "well_formed (replace p r s)"
proof -
  obtain ps z where o: "occurrences p s = (ps, z)" by fastforce
  show ?thesis
    using whole_parts_weave [OF whole_parts_with [OF occurrences_whole_parts [OF assms(1,2,4) o] assms(3)]]
    by (simp add: occurrences_shape(3) [OF assms(1) o])
qed

lemma regions_same_length: "\<forall>(a, q) \<in> set ps. q = p \<Longrightarrow> map (\<lambda>i. (i, length p)) (map fst (regions i ps)) = regions i ps"
  by (induction ps arbitrary: i) auto

text \<open>Replacing at the positions of all matches is the replacement of the standard library.\<close>

lemma replace_using_positions_exact:
  assumes "p \<noteq> []" "well_formed p" "well_formed s" "occurrences p s = (ps, z)"
  shows "replace_using_positions s (match_indices s p) p r
    = Some (replace p r s, map fst (regions 0 (with_regions r ps)))"
proof -
  note shape = occurrences_shape [OF assms(1,4)]
  have "map (\<lambda>pos. (pos, length p)) (match_indices s p) = regions 0 ps"
    using regions_same_length [OF shape(4), of 0] by (simp add: shape(2))
  then show ?thesis
    using splice_weave [OF occurrences_whole_parts [OF assms], of "[]" r "[]" "[]"] shape(1)
    by (simp add: replace_using_positions_def shape(3))
qed

lemma match_indices_from_occurs: "p \<noteq> [] \<Longrightarrow> match_indices_from 0 i p (a @ p @ b) \<noteq> []"
proof (induction a arbitrary: i)
  case Nil
  then obtain x xs where "p @ b = x # xs" "starts_with (x # xs) p" by (cases p) (auto simp: starts_with_iff)
  then show ?case by simp
qed simp

lemma match_indices_Nil:
  assumes "p \<noteq> []"
  shows "match_indices s p = [] \<longleftrightarrow> \<not> contains_sub s p"
proof
  assume "match_indices s p = []"
  then show "\<not> contains_sub s p"
    using match_indices_from_occurs [OF assms, of 0] by (auto simp: contains_sub_iff match_indices_def)
next
  assume none: "\<not> contains_sub s p"
  obtain ps z where o: "occurrences p s = (ps, z)" by fastforce
  note shape = occurrences_shape [OF assms o]
  have "ps = []"
  proof (rule ccontr)
    assume "ps \<noteq> []"
    then obtain a ps' where "ps = (a, p) # ps'" using shape(4) by (cases ps) auto
    then have "s = a @ p @ weave ps' z" using shape(1) by simp
    then show False using none by (auto simp: contains_sub_iff)
  qed
  then show "match_indices s p = []" by (simp add: shape(2))
qed

section \<open>Matches after normalisation\<close>

lemma confusable_plain: "confusable c = Some r \<Longrightarrow> well_formed r \<and> r \<noteq> [] \<and> c \<noteq> []"
  by (auto simp: confusable_def CONFUSABLE_MAP_def is_continuation_def char_len_def split: if_splits)

lemma plain_char_whole: "well_formed c \<Longrightarrow> c \<noteq> [] \<Longrightarrow> well_formed (plain_char c) \<and> plain_char c \<noteq> []"
  using confusable_plain by (auto simp: plain_char_def split: option.splits)

lemma normalize_well_formed: "well_formed s \<Longrightarrow> well_formed (normalize_confusables s)"
  unfolding normalize_confusables_def
  by (rule well_formed_concat) (auto simp: list_all_iff dest: chars_well_formed intro: plain_char_whole [THEN conjunct1])

lemma normalize_Nil: "well_formed s \<Longrightarrow> normalize_confusables s = [] \<longleftrightarrow> s = []"
  using plain_char_whole chars_well_formed [of s] by (cases s) (fastforce simp: normalize_confusables_def)+

text \<open>Where a prefix of the characters ends, in the original and in the normalised text.\<close>

definition orig_end :: "string list \<Rightarrow> nat \<Rightarrow> nat" where
  "orig_end cs m = length (concat (take m cs))"

definition norm_end :: "string list \<Rightarrow> nat \<Rightarrow> nat" where
  "norm_end cs m = length (concat (map plain_char (take m cs)))"

lemma build_offset_map_from:
  "foldl (\<lambda>(normalized, offset_map) (off, c). (normalized @ plain_char c, offset_map @ char_map off c)) (n0, m0) (offsets_from i cs)
   = (n0 @ concat (map plain_char cs), m0 @ concat (map (\<lambda>(off, c). char_map off c) (offsets_from i cs)))"
  by (induction cs arbitrary: i n0 m0) auto

lemma length_char_map: "length (char_map off c) = length (plain_char c)"
  by (auto simp: char_map_def plain_char_def split: option.splits)

lemma length_offset_map:
  "length (concat (map (\<lambda>(off, c). char_map off c) (offsets_from i cs))) = length (concat (map plain_char cs))"
  by (induction cs arbitrary: i) (auto simp: length_char_map)

lemma build_offset_map_shape:
  "build_offset_map s = (normalize_confusables s, concat (map (\<lambda>(off, c). char_map off c) (char_indices s)) @ [length s])"
  unfolding build_offset_map_def char_indices_def build_offset_map_from by (simp add: normalize_confusables_def)

lemma offset_map_nth:
  "j < length (concat (map plain_char cs)) \<Longrightarrow>
   \<exists>m d. m < length cs \<and> d < length (plain_char (cs ! m)) \<and> j = norm_end cs m + d
     \<and> concat (map (\<lambda>(off, c). char_map off c) (offsets_from i cs)) ! j = char_map (i + orig_end cs m) (cs ! m) ! d
     \<and> concat (map plain_char cs) ! j = plain_char (cs ! m) ! d"
proof (induction cs arbitrary: i j)
  case (Cons c cs)
  show ?case
  proof (cases "j < length (plain_char c)")
    case True
    then show ?thesis
      by (intro exI [of _ 0] exI [of _ j]) (simp add: norm_end_def orig_end_def nth_append length_char_map)
  next
    case False
    then have "j - length (plain_char c) < length (concat (map plain_char cs))" using Cons.prems by simp
    then obtain m d where md: "m < length cs" "d < length (plain_char (cs ! m))" "j - length (plain_char c) = norm_end cs m + d"
      "concat (map (\<lambda>(off, c). char_map off c) (offsets_from (i + length c) cs)) ! (j - length (plain_char c))
         = char_map (i + length c + orig_end cs m) (cs ! m) ! d"
      "concat (map plain_char cs) ! (j - length (plain_char c)) = plain_char (cs ! m) ! d"
      using Cons.IH [of _ "i + length c"] by blast
    then show ?thesis using False
      by (intro exI [of _ "Suc m"] exI [of _ d]) (simp add: norm_end_def orig_end_def nth_append length_char_map add.assoc)
  qed
qed simp

lemma char_map_nth:
  assumes "well_formed c" "list_all is_continuation (tl c)" "c \<noteq> []" "d < length (plain_char c)" "\<not> is_continuation (plain_char c ! d)"
  shows "char_map off c ! d = off"
proof (cases "confusable c")
  case None
  then have "c ! d \<notin> set (tl c)" "d < length c" using assms by (auto simp: plain_char_def list_all_iff)
  then have "d = 0" by (cases d; cases c) (auto simp: nth_Cons')
  then show ?thesis using None \<open>d < length c\<close> by (simp add: char_map_def)
qed (use assms(4) in \<open>simp add: char_map_def plain_char_def\<close>)

text \<open>The map sends a position between characters of the normalised text to a position between characters of
  the original.\<close>

lemma offset_map_boundary:
  assumes "well_formed s" "is_char_boundary (normalize_confusables s) j" "j \<le> length (normalize_confusables s)"
  shows "\<exists>m \<le> length (str_chars s). snd (build_offset_map s) ! j = orig_end (str_chars s) m \<and> norm_end (str_chars s) m \<le> j
    \<and> (m < length (str_chars s) \<longrightarrow> j < norm_end (str_chars s) (Suc m)) \<and> (m = length (str_chars s) \<longrightarrow> j = norm_end (str_chars s) m)"
proof (cases "j = length (normalize_confusables s)")
  case True
  show ?thesis
    by (intro exI [of _ "length (str_chars s)"])
      (simp add: True build_offset_map_shape orig_end_def norm_end_def nth_append length_offset_map normalize_confusables_def char_indices_def)
next
  case False
  let ?cs = "str_chars s"
  have j: "j < length (concat (map plain_char ?cs))" using assms(3) False by (simp add: normalize_confusables_def)
  obtain m d where md: "m < length ?cs" "d < length (plain_char (?cs ! m))" "j = norm_end ?cs m + d"
    "concat (map (\<lambda>(off, c). char_map off c) (offsets_from 0 ?cs)) ! j = char_map (orig_end ?cs m) (?cs ! m) ! d"
    "concat (map plain_char ?cs) ! j = plain_char (?cs ! m) ! d"
    using offset_map_nth [OF j, of 0] by auto
  have "\<not> is_continuation (concat (map plain_char ?cs) ! j)"
    using assms(2) j normalize_well_formed [OF assms(1)] well_formed_hd [of "normalize_confusables s"]
    by (auto simp: is_char_boundary_def normalize_confusables_def hd_conv_nth)
  then have "char_map (orig_end ?cs m) (?cs ! m) ! d = orig_end ?cs m"
    using char_map_nth chars_well_formed [OF assms(1) nth_mem [OF md(1)]] md(2,5) by metis
  moreover have "j < norm_end ?cs (Suc m)" using md(1-3) by (simp add: norm_end_def take_Suc_conv_app_nth)
  ultimately show ?thesis
    using md j by (intro exI [of _ m]) (auto simp: build_offset_map_shape nth_append length_offset_map char_indices_def)
qed

abbreviation to_original :: "string \<Rightarrow> nat \<Rightarrow> nat" where
  "to_original s j \<equiv> snd (build_offset_map s) ! j"

lemma length_concat_take_mono: "m \<le> m' \<Longrightarrow> length (concat (take m xs)) \<le> length (concat (take m' xs))"
proof -
  assume "m \<le> m'"
  then have "take m' xs = take m xs @ take (m' - m) (drop m xs)" by (metis le_add_diff_inverse take_add)
  then show ?thesis by simp
qed

lemma orig_end_mono: "m \<le> m' \<Longrightarrow> orig_end cs m \<le> orig_end cs m'"
  by (simp add: orig_end_def length_concat_take_mono)

lemma norm_end_mono: "m \<le> m' \<Longrightarrow> norm_end cs m \<le> norm_end cs m'"
  using length_concat_take_mono [of m m' "map plain_char cs"] by (simp add: norm_end_def take_map)

lemma orig_end_boundary:
  assumes "well_formed s"
  shows "is_char_boundary s (orig_end (str_chars s) m)" "orig_end (str_chars s) m \<le> length s"
proof -
  let ?a = "concat (take m (str_chars s))" and ?b = "concat (drop m (str_chars s))"
  have s: "s = ?a @ ?b" by (metis append_take_drop_id concat_append concat_str_chars)
  have "well_formed ?b"
    by (rule well_formed_concat) (auto simp: list_all_iff dest!: in_set_dropD chars_well_formed [OF assms])
  then have "is_char_boundary (?a @ ?b) (length ?a)" by (rule boundary_append)
  then show "is_char_boundary s (orig_end (str_chars s) m)" by (simp only: orig_end_def s [symmetric])
  show "orig_end (str_chars s) m \<le> length s" by (metis le_add1 length_append orig_end_def s)
qed

lemma to_original_boundary:
  assumes "well_formed s" "is_char_boundary (normalize_confusables s) j" "j \<le> length (normalize_confusables s)"
  shows "is_char_boundary s (to_original s j) \<and> to_original s j \<le> length s"
  using offset_map_boundary [OF assms] orig_end_boundary [OF assms(1)] by auto

lemma to_original_mono:
  assumes "well_formed s" "is_char_boundary (normalize_confusables s) j" "is_char_boundary (normalize_confusables s) k"
    and "j \<le> k" "k \<le> length (normalize_confusables s)"
  shows "to_original s j \<le> to_original s k"
proof -
  let ?cs = "str_chars s"
  obtain m where m: "m \<le> length ?cs" "to_original s j = orig_end ?cs m" "norm_end ?cs m \<le> j"
    using offset_map_boundary [OF assms(1,2)] assms(4,5) by fastforce
  obtain n where n: "n \<le> length ?cs" "to_original s k = orig_end ?cs n" "n < length ?cs \<longrightarrow> k < norm_end ?cs (Suc n)"
    using offset_map_boundary [OF assms(1,3,5)] by blast
  have "m \<le> n"
  proof (rule ccontr)
    assume "\<not> m \<le> n"
    then have "k < norm_end ?cs (Suc n)" "norm_end ?cs (Suc n) \<le> norm_end ?cs m" using m(1) n by (auto intro: norm_end_mono)
    then show False using m(3) assms(4) by simp
  qed
  then show ?thesis using m(2) n(2) by (simp add: orig_end_mono)
qed

text \<open>Regions in order, without overlap, between characters, from a position on.\<close>

fun region_list :: "string \<Rightarrow> nat \<Rightarrow> (nat \<times> nat) list \<Rightarrow> bool" where
  "region_list s lo [] \<longleftrightarrow> lo \<le> length s \<and> is_char_boundary s lo"
| "region_list s lo ((a, l) # rs) \<longleftrightarrow> is_char_boundary s lo \<and> lo \<le> a \<and> is_char_boundary s a \<and> region_list s (a + l) rs"

lemma region_list_start: "region_list s lo rs \<Longrightarrow> is_char_boundary s lo \<and> lo \<le> length s"
  by (induction s lo rs rule: region_list.induct) auto

lemma region_list_from: "region_list s lo rs \<Longrightarrow> lo' \<le> lo \<Longrightarrow> is_char_boundary s lo' \<Longrightarrow> region_list s lo' rs"
  by (cases rs) auto

lemma region_list_weave:
  "well_formed s \<Longrightarrow> region_list s lo rs \<Longrightarrow>
   \<exists>ps z. drop lo s = weave ps z \<and> regions lo ps = rs \<and> whole_parts ps z \<and> map snd ps = map (\<lambda>(a, l). take l (drop a s)) rs"
proof (induction s lo rs rule: region_list.induct)
  case (1 s lo)
  then show ?case using well_formed_at(2) by (intro exI [of _ "[]"] exI [of _ "drop lo s"]) auto
next
  case (2 s lo a l rs)
  obtain ps z where ps: "drop (a + l) s = weave ps z" "regions (a + l) ps = rs" "whole_parts ps z"
    "map snd ps = map (\<lambda>(a, l). take l (drop a s)) rs" using 2 by auto
  let ?k = "take (a - lo) (drop lo s)" and ?r = "take l (drop a s)"
  have le: "lo \<le> a" "a + l \<le> length s" "is_char_boundary s a" "is_char_boundary s lo" "is_char_boundary s (a + l)"
    using 2(3) region_list_start [of s "a + l" rs] by auto
  have "well_formed (drop lo s)" "well_formed (drop a s)" "well_formed (drop (a + l) s)"
    using well_formed_at(2) [OF 2(2)] le by auto
  moreover have split: "drop lo s = ?k @ drop a s" "drop a s = ?r @ drop (a + l) s"
    using le(1) by (metis append_take_drop_id drop_drop le_add_diff_inverse2) (metis append_take_drop_id drop_drop add.commute)
  ultimately have wf: "well_formed ?k" "well_formed ?r" using well_formed_appendD by metis+
  have "drop lo s = weave ((?k, ?r) # ps) z" using split ps(1) by (metis weave.simps(2))
  moreover have "length ?k = a - lo" "length ?r = l" using le by auto
  ultimately show ?case using ps wf le
    by (intro exI [of _ "(?k, ?r) # ps"] exI [of _ z]) auto
qed

lemma region_list_no_overlap:
  "region_list s lo (map (\<lambda>m. (original_start m, original_len m)) ms) \<Longrightarrow> \<not> some_overlap ms"
  by (induction ms arbitrary: lo rule: some_overlap.induct) auto

lemma to_original_slice:
  assumes "well_formed s" "is_char_boundary (normalize_confusables s) j" "is_char_boundary (normalize_confusables s) k"
    and "j \<le> k" "k \<le> length (normalize_confusables s)"
  shows "str_slice s (to_original s j) (to_original s k)
    = Some (take (to_original s k - to_original s j) (drop (to_original s j) s))"
  using to_original_mono [OF assms] to_original_boundary [OF assms(1,2)] to_original_boundary [OF assms(1,3,5)] assms(4,5)
  by (simp add: str_slice_def)

lemma candidates_sound:
  assumes "well_formed s" "q \<noteq> []"
  shows "normalize_confusables s = pre @ weave ps z \<Longrightarrow> whole_parts ps z \<Longrightarrow> \<forall>(a, r) \<in> set ps. r = q \<Longrightarrow>
    \<exists>ms rejected. candidates s (snd (build_offset_map s)) q (map fst (regions (length pre) ps)) = Some (ms, rejected)
      \<and> region_list s (to_original s (length pre)) (map (\<lambda>m. (original_start m, original_len m)) ms)
      \<and> list_all (\<lambda>m. normalize_confusables (take (original_len m) (drop (original_start m) s)) = q) ms
      \<and> (rejected \<longrightarrow> ps \<noteq> []) \<and> (ps \<noteq> [] \<longrightarrow> rejected \<or> ms \<noteq> [])"
proof (induction ps arbitrary: pre)
  case Nil
  then have "is_char_boundary (normalize_confusables s) (length pre)" "length pre \<le> length (normalize_confusables s)"
    by (simp_all add: boundary_append)
  then show ?case using to_original_boundary [OF assms(1)] by (auto intro: exI [of _ False])
next
  case (Cons p ps)
  then obtain a where p: "p = (a, q)" by (cases p) auto
  let ?N = "normalize_confusables s" and ?i = "length pre" and ?j = "length pre + length a"
  let ?k = "length pre + length a + length q"
  have wf: "well_formed a" "well_formed q" "well_formed (weave ps z)" "whole_parts ps z"
    using Cons.prems(2) by (auto simp: p whole_parts_weave)
  have N: "?N = pre @ a @ q @ weave ps z" using Cons.prems(1) by (simp add: p)
  have b: "is_char_boundary ?N ?i" "is_char_boundary ?N ?j" "is_char_boundary ?N ?k" "?k \<le> length ?N"
    using boundary_append [of "a @ q @ weave ps z" pre] boundary_append [of "q @ weave ps z" "pre @ a"]
      boundary_append [of "weave ps z" "pre @ a @ q"] wf by (simp_all add: N well_formed_append add.assoc)
  have mono: "to_original s ?i \<le> to_original s ?j" "to_original s ?j \<le> to_original s ?k"
    using to_original_mono [OF assms(1) b(1,2)] to_original_mono [OF assms(1) b(2,3)] b(4) by auto
  have bo: "is_char_boundary s (to_original s ?i)" "is_char_boundary s (to_original s ?j)"
    using to_original_boundary [OF assms(1) b(1)] to_original_boundary [OF assms(1) b(2)] b(4) by auto
  obtain ms rejected where IH: "candidates s (snd (build_offset_map s)) q (map fst (regions ?k ps)) = Some (ms, rejected)"
    "region_list s (to_original s ?k) (map (\<lambda>m. (original_start m, original_len m)) ms)"
    "list_all (\<lambda>m. normalize_confusables (take (original_len m) (drop (original_start m) s)) = q) ms"
    using Cons.IH [of "pre @ a @ q"] N wf(4) Cons.prems(3) by (auto simp: add.assoc)
  have slice: "str_slice s (to_original s ?j) (to_original s ?k) = Some (take (to_original s ?k - to_original s ?j) (drop (to_original s ?j) s))"
    by (rule to_original_slice [OF assms(1) b(2,3)]) (use b(4) in auto)
  have "candidate s (snd (build_offset_map s)) q ?j = Some None \<or>
    (candidate s (snd (build_offset_map s)) q ?j = Some (Some \<lparr>original_start = to_original s ?j,
       original_len = to_original s ?k - to_original s ?j\<rparr>)
     \<and> normalize_confusables (take (to_original s ?k - to_original s ?j) (drop (to_original s ?j) s)) = q)"
    by (auto simp: candidate_def Let_def slice)
  then show ?case
  proof
    assume "candidate s (snd (build_offset_map s)) q ?j = Some None"
    then show ?thesis using IH region_list_from [OF IH(2) _ bo(1)] mono by (auto simp: p intro: exI [of _ True])
  next
    assume "candidate s (snd (build_offset_map s)) q ?j = Some (Some \<lparr>original_start = to_original s ?j,
       original_len = to_original s ?k - to_original s ?j\<rparr>)
     \<and> normalize_confusables (take (to_original s ?k - to_original s ?j) (drop (to_original s ?j) s)) = q"
    then show ?thesis using IH bo mono by (auto simp: p)
  qed
qed

lemma normalized_search_sound:
  assumes "well_formed s" "well_formed p" "p \<noteq> []"
  shows "case find_normalized_match_positions s p of
      None \<Rightarrow> False
    | Some Norm_NoMatch \<Rightarrow> \<not> contains_sub (normalize_confusables s) (normalize_confusables p)
    | Some Norm_Ambiguous \<Rightarrow> contains_sub (normalize_confusables s) (normalize_confusables p)
    | Some (Norm_Matches ms) \<Rightarrow> ms \<noteq> [] \<and> (\<exists>ps z. s = weave ps z \<and> length ps = length ms \<and> whole_parts ps z
        \<and> (\<forall>(a, r) \<in> set ps. normalize_confusables r = normalize_confusables p)
        \<and> (\<forall>new. replace_normalized_matches s ms new
              = Some (weave (with_regions new ps) z, map fst (regions 0 (with_regions new ps)))))"
proof -
  let ?N = "normalize_confusables s" and ?q = "normalize_confusables p"
  let ?pairs = "map (\<lambda>m. (original_start m, original_len m))"
  have q: "?q \<noteq> []" "well_formed ?q" using assms normalize_Nil normalize_well_formed by auto
  obtain ps z where o: "occurrences ?q ?N = (ps, z)" by fastforce
  note shape = occurrences_shape [OF q(1) o]
  have wp: "whole_parts ps z" by (rule occurrences_whole_parts [OF q normalize_well_formed [OF assms(1)] o])
  obtain ms rejected where c:
    "candidates s (snd (build_offset_map s)) ?q (match_indices ?N ?q) = Some (ms, rejected)"
    "region_list s (to_original s 0) (?pairs ms)"
    "list_all (\<lambda>m. normalize_confusables (take (original_len m) (drop (original_start m) s)) = ?q) ms"
    "rejected \<longrightarrow> ps \<noteq> []" "ps \<noteq> [] \<longrightarrow> rejected \<or> ms \<noteq> []"
    using candidates_sound [OF assms(1) q(1), of "[]" ps z] shape wp by auto
  have reg: "region_list s 0 (?pairs ms)" by (rule region_list_from [OF c(2)]) (auto simp: is_char_boundary_def)
  have ps: "ps = [] \<longleftrightarrow> \<not> contains_sub ?N ?q"
    using match_indices_Nil [OF q(1), of ?N] by (cases ps) (auto simp: shape(2))
  have res: "find_normalized_match_positions s p = Some (if ms = [] then (if rejected then Norm_Ambiguous else Norm_NoMatch) else Norm_Matches ms)"
    using c(1) q(1) region_list_no_overlap [OF reg]
    by (simp add: find_normalized_match_positions_def build_offset_map_shape Let_def)
  obtain rs y where w: "s = weave rs y" "regions 0 rs = ?pairs ms" "whole_parts rs y"
    "map snd rs = map (\<lambda>(a, l). take l (drop a s)) (?pairs ms)"
    using region_list_weave [OF assms(1) reg] by auto
  have len: "length rs = length ms" using arg_cong [OF w(4), of length] by simp
  have "\<forall>r \<in> set (map snd rs). normalize_confusables r = ?q" using c(3) by (simp add: w(4) list_all_iff)
  moreover have "replace_normalized_matches s ms new
     = Some (weave (with_regions new rs) y, map fst (regions 0 (with_regions new rs)))" for new
    using splice_weave [OF w(3), of "[]" new "[]" "[]"] w(1,2) by (simp add: replace_normalized_matches_def)
  ultimately show ?thesis using res ps c(4,5) w(1,3) len by (cases "ms = []") fastforce+
qed

text \<open>Matches found after normalising typography are what they claim to be. On text and pattern of whole characters the search
  never fails. Matches are disjoint regions of the text, in order, each of which reads as the pattern when both are normalised,
  and the replacement changes these regions and nothing else. Without a match the normalised text does
  not contain the normalised pattern, and where the answer is ambiguous it does.\<close>

theorem normalized_matches_sound:
  assumes "well_formed s" "well_formed p" "p \<noteq> []"
  shows "case find_normalized_match_positions s p of
      None \<Rightarrow> False
    | Some Norm_NoMatch \<Rightarrow> \<not> contains_sub (normalize_confusables s) (normalize_confusables p)
    | Some Norm_Ambiguous \<Rightarrow> contains_sub (normalize_confusables s) (normalize_confusables p)
    | Some (Norm_Matches ms) \<Rightarrow> ms \<noteq> [] \<and> (\<exists>ps z. s = weave ps z \<and> length ps = length ms \<and> whole_parts ps z
        \<and> (\<forall>(a, r) \<in> set ps. normalize_confusables r = normalize_confusables p)
        \<and> (\<forall>new. replace_normalized_matches s ms new
              = Some (weave (with_regions new ps) z, map fst (regions 0 (with_regions new ps)))))"
  by (rule normalized_search_sound [OF assms])

theorem normalized_matches_sound_witness:
  "\<exists>ps z. [CHR 0xE2, CHR 0x80, CHR 0x9C] @ ''a'' @ [CHR 0xE2, CHR 0x80, CHR 0x9D] @ '' b'' = weave ps z \<and> length ps = 1
     \<and> (\<forall>(a, r) \<in> set ps. normalize_confusables r = [CHR 0x22] @ ''a'' @ [CHR 0x22])"
proof -
  let ?s = "[CHR 0xE2, CHR 0x80, CHR 0x9C] @ ''a'' @ [CHR 0xE2, CHR 0x80, CHR 0x9D] @ '' b''" and ?p = "[CHR 0x22] @ ''a'' @ [CHR 0x22]"
  have "well_formed ?s" "well_formed ?p" "?p \<noteq> []" by code_simp+
  moreover have "find_normalized_match_positions ?s ?p = Some (Norm_Matches [\<lparr>original_start = 0, original_len = 7\<rparr>])" by code_simp
  moreover have "normalize_confusables ?p = ?p" by code_simp
  ultimately show ?thesis using normalized_matches_sound [of ?s ?p] by auto
qed

text \<open>The map is not an inverse for part of a replacement: the first dash of the two that stand for an em dash maps to no text
  at all. The search relies on checking every region again.\<close>

lemma offset_map_not_inverse:
  "let s = [CHR 0xE2, CHR 0x80, CHR 0x94]
   in normalize_confusables s = ''--'' \<and> str_slice s (to_original s 0) (to_original s 1) = Some []"
  by code_simp

section \<open>Reports never fail\<close>

lemma count_split_inclusive: "count_list s c \<le> length (split_inclusive c s)"
  by (induction s) (auto split: list.splits)

lemma render_snippet_total:
  assumes "well_formed a" "well_formed b" "0 < n"
  shows "render_snippet (a @ b) new_string (length a) n \<noteq> None"
    "compute_line_range (a @ b) (length a) new_string \<noteq> None"
proof -
  have slice: "str_slice (a @ b) 0 (length a) = Some a" using str_slice_middle [OF assms(1,2), of "[]"] by simp
  then show "compute_line_range (a @ b) (length a) new_string \<noteq> None" by (simp add: compute_line_range_def Let_def)
  define ls where "ls = split_inclusive NL (a @ b)"
  define st where "st = count_list a NL"
  define en where "en = st + max (length (split_inclusive NL new_string)) 1 - 1"
  have range: "compute_line_range (a @ b) (length a) new_string = Some \<lparr>start_line = st, end_line = en\<rparr>"
    by (simp add: compute_line_range_def slice Let_def st_def en_def)
  have st: "st \<le> length ls" using count_split_inclusive [of "a @ b" NL] by (simp add: st_def ls_def)
  then have ok: "st - n \<le> min (en + n) (length ls - 1)" using assms(3) by (auto simp: en_def)
  have before: "(if st - n < st then vec_slice ls (st - n) st else Some []) \<noteq> None" using st by (simp add: vec_slice_def)
  have after: "(if en < min (en + n) (length ls - 1) then vec_slice ls (en + 1) (min (en + n) (length ls - 1) + 1) else Some []) \<noteq> None"
    by (auto simp: vec_slice_def)
  show "render_snippet (a @ b) new_string (length a) n \<noteq> None"
    unfolding render_snippet_def range option.case Let_def line_range.select_convs ls_def [symmetric]
    using before after ok by (auto simp del: min_less_iff_conj split: option.split)
qed

lemma line_prefix_slice:
  assumes "well_formed a" "well_formed b"
  shows "str_slice (a @ b) (length a - length (takeWhile (\<lambda>c. c \<noteq> NL) (rev a))) (length a) = Some (rev (takeWhile (\<lambda>c. c \<noteq> NL) (rev a)))"
proof -
  let ?v = "rev (takeWhile (\<lambda>c. c \<noteq> NL) (rev a))" and ?u = "rev (dropWhile (\<lambda>c. c \<noteq> NL) (rev a))"
  have a: "a = ?u @ ?v" by (metis rev_append rev_rev_ident takeWhile_dropWhile_id)
  have "well_formed ?v"
  proof (cases "dropWhile (\<lambda>c. c \<noteq> NL) (rev a)")
    case Nil
    then have "?v = a" by (metis a append_Nil rev.simps(1))
    then show ?thesis using assms(1) by simp
  next
    case (Cons x xs)
    then have "x = NL" using hd_dropWhile [of "\<lambda>c. c \<noteq> NL" "rev a"] by auto
    then have "a = rev xs @ [NL] @ ?v" using a Cons by simp
    then show ?thesis using well_formed_middle(2) [of "rev xs" "[NL]" ?v] assms(1)
      by (simp add: is_continuation_def char_len_def)
  qed
  moreover have len: "length a - length (takeWhile (\<lambda>c. c \<noteq> NL) (rev a)) = length ?u" "length a = length ?u + length ?v"
    using arg_cong [OF a, of length] by auto
  ultimately have "str_slice (?u @ ?v @ b) (length ?u) (length ?u + length ?v) = Some ?v" using str_slice_middle assms(2) by blast
  then show ?thesis unfolding len(1) using a len(2) by (metis append.assoc)
qed

lemma edit_detail_total:
  assumes "well_formed a" "well_formed b" "0 < n"
  shows "edit_detail_at (a @ b) old_string new_string n (length a) \<noteq> None"
proof -
  have "str_slice (a @ b) 0 (length a) = Some a" using str_slice_middle [OF assms(1,2), of "[]"] by simp
  then show ?thesis using render_snippet_total [OF assms, of new_string] line_prefix_slice [OF assms(1,2)]
    by (auto simp: edit_detail_at_def Let_def)
qed

lemma sequence_options_total: "\<forall>x \<in> set xs. x \<noteq> None \<Longrightarrow> \<exists>ys. sequence_options xs = Some ys \<and> length ys = length xs"
  by (induction xs rule: sequence_options.induct) auto

lemma region_starts:
  "whole_parts ps z \<Longrightarrow> well_formed pre \<Longrightarrow> i \<in> set (map fst (regions (length pre) ps)) \<Longrightarrow>
   \<exists>a b. pre @ weave ps z = a @ b \<and> length a = i \<and> well_formed a \<and> well_formed b"
proof (induction ps arbitrary: pre)
  case (Cons p ps)
  obtain a r where p: "p = (a, r)" by fastforce
  show ?case
  proof (cases "i = length pre + length a")
    case True
    then show ?thesis using Cons.prems(1,2)
      by (intro exI [of _ "pre @ a"] exI [of _ "r @ weave ps z"]) (auto simp: p well_formed_append whole_parts_weave)
  next
    case False
    then have "i \<in> set (map fst (regions (length (pre @ a @ r)) ps))" using Cons.prems(3) by (auto simp: p add.assoc)
    then show ?thesis using Cons.IH [of "pre @ a @ r"] Cons.prems(1,2) by (auto simp: p well_formed_append)
  qed
qed simp

lemma build_edit_details_total:
  assumes "whole_parts ps z" "0 < n"
  shows "\<exists>ds. build_edit_details (weave ps z) old_string new_string (map fst (regions 0 ps)) n = Some ds \<and> length ds = length ps"
proof -
  have "edit_detail_at (weave ps z) old_string new_string n i \<noteq> None" if i: "i \<in> set (map fst (regions 0 ps))" for i
  proof -
    obtain a b where "weave ps z = a @ b" "length a = i" "well_formed a" "well_formed b"
      using region_starts [OF assms(1), of "[]" i] i by auto
    then show ?thesis using edit_detail_total [OF _ _ assms(2)] by metis
  qed
  moreover have "length (regions i ps) = length ps" for i by (induction ps arbitrary: i) auto
  ultimately show ?thesis
    using sequence_options_total [of "map (edit_detail_at (weave ps z) old_string new_string n) (map fst (regions 0 ps))"]
    by (simp add: build_edit_details_def)
qed

end
