(* ===== verification/Search_Replace.thy ===== *)
theory Search_Replace
  imports Text_Edit Patch_Tool Session_Setup
begin

text \<open>
  The tool \<open>search_replace\<close> of \<open>xai-grok-tools\<close> (\<open>implementations/grok_build/search_replace/mod.rs\<close> and its
  \<open>versions/legacy_0_4_10.rs\<close>, with \<open>util/fs.rs\<close> and \<open>util/query_tools.rs\<close>): the tool with which the model edits a file by
  naming a text and its replacement. The file system, the memory policy, the template renderer and the gitignore filter are
  arguments; \<open>None\<close> is a panic.

  The theory shows that a call either replaces whole regions that read as the named text, keeping everything else, or
  leaves the file alone, that it never panics, and that on files with one kind of line ending the rest of the file
  keeps its bytes. It also shows where the code falls short of that: mixed line endings, overlapping
  occurrences, bytes that are not UTF-8, and names of files that the rules of the permission engine do not recognise.
\<close>

section \<open>Interfaces\<close>

datatype io_kind = Io_NotFound | Io_AlreadyExists | Io_InvalidFilename | Io_IsADirectory | Io_PermissionDenied | Io_Other

record fs_failure =
  io_error_kind :: "io_kind option"
  failure_text :: string

record 'fs edit_ops =
  ed_read :: "'fs \<Rightarrow> string \<Rightarrow> fs_failure + string"
  ed_write :: "'fs \<Rightarrow> string \<Rightarrow> string \<Rightarrow> (fs_failure + unit) \<times> 'fs"
  ed_lossy :: "string \<Rightarrow> string"
  ed_canonicalize :: "'fs \<Rightarrow> string \<Rightarrow> io_kind + string"
  ed_is_dir :: "'fs \<Rightarrow> string \<Rightarrow> bool"
  ed_read_dir :: "'fs \<Rightarrow> string \<Rightarrow> string option list option"
  ed_not_found_hint :: "'fs \<Rightarrow> string \<Rightarrow> string \<Rightarrow> string \<Rightarrow> string"

record search_replace_params =
  empty_old_string_does_not_override :: bool
  unicode_normalized_fallback :: bool
  include_user_edit_hint :: bool

definition search_replace_params_default :: search_replace_params where
  "search_replace_params_default =
     \<lparr>empty_old_string_does_not_override = False, unicode_normalized_fallback = False, include_user_edit_hint = True\<rparr>"

record query_tools =
  tool_jq :: "string option"
  tool_python :: "string option"
  tool_sed :: "string option"
  tool_cut :: "string option"

text \<open>The resources of a session that the tool looks up.\<close>

record 'fs edit_resources =
  res_env :: manager_env
  res_cwd :: "string option"
  res_display_cwd :: "string option"
  res_fs :: "'fs edit_ops option"
  res_notifications :: bool
  res_hints :: "bool option"
  res_respect_gitignore :: "bool option"
  res_gitignore :: "(string \<Rightarrow> bool) option"
  res_params :: "search_replace_params option"
  res_renderer :: "(string \<Rightarrow> string + string) option"
  res_memory :: "'fs memory_access option"
  res_query_tools :: query_tools

record call_context =
  ctx_cwd :: "string option"
  ctx_behavior_version :: "string option"
  ctx_call_id :: string

record search_replace_input =
  sr_file_path :: string
  sr_old_string :: string
  sr_new_string :: string
  sr_replace_all :: bool

record edits_applied =
  ea_old_string :: string
  ea_new_string :: string
  ea_prompt :: string
  ea_prompt_concise :: "string option"
  ea_absolute_path :: string
  ea_details :: "edit_detail list"
  ea_unicode_normalized :: bool

datatype search_replace_output =
    Out_FileAlreadyExists string
  | Out_EditsApplied edits_applied
  | Out_MultipleMatchesFound string
  | Out_NoMatchesFound string string
  | Out_InvalidInput string
  | Out_FileNotFound string
  | Out_FilenameTooLong string

datatype edit_error = MissingResource string | InvalidArguments string | ExecutionFailed string

datatype search_replace_version = Version_Current | Version_Legacy0_4_10

definition from_contract :: "string option \<Rightarrow> search_replace_version" where
  "from_contract v = (if v = Some ''legacy-0.4.10'' then Version_Legacy0_4_10 else Version_Current)"

definition is_legacy :: "search_replace_version \<Rightarrow> bool" where
  "is_legacy v \<longleftrightarrow> v = Version_Legacy0_4_10"

definition CONTEXT_LINES :: nat where "CONTEXT_LINES = 3"
definition NAME_MAX :: nat where "NAME_MAX = 255"

definition render :: "'fs edit_resources \<Rightarrow> string \<Rightarrow> edit_error + string" where
  "render R template = (case res_renderer R of
     None \<Rightarrow> Inl (MissingResource ''TemplateRenderer'')
   | Some f \<Rightarrow> (case f template of Inl e \<Rightarrow> Inl (InvalidArguments e) | Inr s \<Rightarrow> Inr s))"

section \<open>Paths\<close>

text \<open>The no-break spaces U+202F and U+00A0.\<close>

definition FILENAME_SPECIAL_CHARACTER_MAP :: "(string \<times> string) list" where
  "FILENAME_SPECIAL_CHARACTER_MAP = [([CHR 0xE2, CHR 0x80, CHR 0xAF], '' ''), ([CHR 0xC2, CHR 0xA0], '' '')]"

definition normalize_filename :: "string \<Rightarrow> string" where
  "normalize_filename s = concat (map (\<lambda>c. case map_of FILENAME_SPECIAL_CHARACTER_MAP c of Some r \<Rightarrow> r | None \<Rightarrow> c) (str_chars s))"

text \<open>The loop over the entries of the directory; an entry whose name is not text is skipped, and an entry with exactly the
  name ends the search.\<close>

fun scan_entries :: "string \<Rightarrow> string option list \<Rightarrow> string list \<Rightarrow> string list option" where
  "scan_entries file_name [] found = Some found"
| "scan_entries file_name (None # es) found = scan_entries file_name es found"
| "scan_entries file_name (Some e # es) found =
     (if e = file_name then None
      else if normalize_filename e = normalize_filename file_name then scan_entries file_name es (found @ [e])
      else scan_entries file_name es found)"

definition try_resolve_unicode_filename :: "'fs edit_ops \<Rightarrow> 'fs \<Rightarrow> string \<Rightarrow> string option" where
  "try_resolve_unicode_filename ops st path = (case (path_file_name path, path_parent path) of
     (Some file_name, Some parent) \<Rightarrow>
       (case ed_read_dir ops st parent of
          None \<Rightarrow> None
        | Some entries \<Rightarrow>
            (case scan_entries file_name entries [] of Some [e] \<Rightarrow> Some (path_join parent e) | _ \<Rightarrow> None))
   | _ \<Rightarrow> None)"

definition target_path :: "'fs edit_ops \<Rightarrow> 'fs \<Rightarrow> string \<Rightarrow> string" where
  "target_path ops st resolved = (case ed_canonicalize ops st resolved of
     Inr p \<Rightarrow> p
   | Inl e \<Rightarrow> if e = Io_NotFound
       then (case try_resolve_unicode_filename ops st resolved of Some p \<Rightarrow> p | None \<Rightarrow> resolved)
       else resolved)"

definition validate_path_length :: "string \<Rightarrow> search_replace_output option" where
  "validate_path_length file_path =
     (case filter (\<lambda>name. length name > NAME_MAX) (filter_map (\<lambda>c. case c of Normal s \<Rightarrow> Some s | _ \<Rightarrow> None) (components file_path)) of
        [] \<Rightarrow> None
      | name # _ \<Rightarrow> Some (Out_FilenameTooLong (''Error: file name exceeds the '' @ dec_of_nat NAME_MAX @ ''-character limit ('' @
          dec_of_nat (length name) @ '' characters). Please use a shorter file name.'')))"

definition NAME_TOO_LONG :: string where
  "NAME_TOO_LONG = ''Error: file name exceeds the '' @ dec_of_nat NAME_MAX @ ''-character limit. Please use a shorter file name.''"

definition display_cwd_or_cwd :: "string \<Rightarrow> string option \<Rightarrow> string" where
  "display_cwd_or_cwd cwd display = (case display of Some d \<Rightarrow> d | None \<Rightarrow> cwd)"

definition format_not_found_error :: "'fs edit_ops \<Rightarrow> 'fs \<Rightarrow> string \<Rightarrow> string \<Rightarrow> string \<Rightarrow> string \<Rightarrow> bool \<Rightarrow> string" where
  "format_not_found_error ops st display_path resolved cwd display_cwd hints_enabled =
     ''Error: '' @ display_path @ '' does not exist.''
     @ (if hints_enabled then ed_not_found_hint ops st resolved cwd display_cwd else [])"

section \<open>Hints\<close>

text \<open>\<open>max_by_key\<close> with the length: the last of the longest.\<close>

definition longest :: "string list \<Rightarrow> string option" where
  "longest ws = foldl (\<lambda>best w. case best of None \<Rightarrow> Some w | Some b \<Rightarrow> if length w \<ge> length b then Some w else best) None ws"

definition build_nearest_match_hint :: "string \<Rightarrow> string \<Rightarrow> string" where
  "build_nearest_match_hint file old_string =
     (let first_line = (case lines old_string of l # _ \<Rightarrow> l | [] \<Rightarrow> []);
          keyword = (case longest (split_whitespace first_line) of Some w \<Rightarrow> w | None \<Rightarrow> [])
      in if keyword = [] then []
         else (case find (\<lambda>(_, l). contains_sub l keyword) (List.enumerate 0 (lines file)) of
                 None \<Rightarrow> []
               | Some (i, l) \<Rightarrow> truncate_str_with_marker
                   ([NL, NL] @ ''Nearest match: line '' @ dec_of_nat (i + 1) @ '': '' @ trim_end l) 200))"

definition edit_tools :: "query_tools \<Rightarrow> string list" where
  "edit_tools q = map (\<lambda>t. ''`'' @ t @ ''`'') (filter_map (\<lambda>t. t) [tool_python q, tool_sed q])"

definition examples_clause :: "string list \<Rightarrow> string" where
  "examples_clause tools = (case tools of
     [] \<Rightarrow> []
   | [a] \<Rightarrow> '' (e.g. '' @ a @ '')''
   | [a, b] \<Rightarrow> '' (e.g. '' @ a @ '' or '' @ b @ '')''
   | _ \<Rightarrow> '' (e.g. '' @ join '', '' (butlast tools) @ '', or '' @ last tools @ '')'')"

definition MAX_LISTED_LINES :: nat where "MAX_LISTED_LINES = 8"

definition line_summary :: "nat list \<Rightarrow> string" where
  "line_summary affected =
     (if length affected \<le> MAX_LISTED_LINES then join '', '' (map dec_of_nat affected)
      else join '', '' (map dec_of_nat (take MAX_LISTED_LINES affected)) @ '' (and '' @
        dec_of_nat (length affected - MAX_LISTED_LINES) @ '' more)'')"

definition confusable_hint_text :: "nat list \<Rightarrow> query_tools \<Rightarrow> string \<Rightarrow> string \<Rightarrow> string \<Rightarrow> string" where
  "confusable_hint_text affected tools read_tool_name old_string_param execute_tool_name =
     [NL, NL] @ ''The nearest matching region contains Unicode typography characters (smart quotes, em-dashes, etc.) on lines ''
     @ line_summary affected @ '' that look identical to ASCII''
     @ (if read_tool_name = [] then [] else '' in '' @ read_tool_name @ '' output'')
     @ '' but differ at the byte level. Re-read the file and use a shorter ''
     @ (if old_string_param = [] then ''old_string'' else old_string_param)
     @ '' anchored on nearby ASCII-only context''
     @ (if edit_tools tools = [] \<or> execute_tool_name = [] then []
        else '', or use '' @ execute_tool_name @ '' with a short script'' @ examples_clause (edit_tools tools) @ '' to edit the file directly'')
     @ ''.''"

text \<open>The outer option is a panic, the inner one that there is no hint.\<close>

definition build_confusable_hint ::
  "string \<Rightarrow> string \<Rightarrow> query_tools \<Rightarrow> string \<Rightarrow> string \<Rightarrow> string \<Rightarrow> string option option" where
  "build_confusable_hint file old_string tools read_tool_name old_string_param execute_tool_name =
     (if \<not> has_confusables file then Some None
      else
        (let (norm_file, offset_map) = build_offset_map file; norm_old = normalize_confusables old_string
         in case match_indices norm_file norm_old of
              [] \<Rightarrow> Some None
            | norm_start # _ \<Rightarrow>
                (case (str_slice file 0 (offset_map ! norm_start), str_slice file 0 (offset_map ! (norm_start + length norm_old))) of
                   (Some before, Some through) \<Rightarrow>
                     (let first_line = count_list before NL + 1; last_line = count_list through NL + 1;
                          affected = remdups_adj (map line_number
                            (filter (\<lambda>h. line_number h \<ge> first_line \<and> line_number h \<le> last_line) (detect_confusables file)))
                      in Some (if affected = [] then None
                           else Some (confusable_hint_text affected tools read_tool_name old_string_param execute_tool_name)))
                 | _ \<Rightarrow> None)))"

section \<open>Creating a file\<close>

abbreviation OLD_STRING_NAME :: string where "OLD_STRING_NAME \<equiv> ''${{ params.edit.old_string }}''"
abbreviation REPLACE_ALL_NAME :: string where "REPLACE_ALL_NAME \<equiv> ''${{ params.edit.replace_all }}''"
abbreviation READ_NAME :: string where "READ_NAME \<equiv> ''${{ tools.by_kind.read }}''"
abbreviation EXECUTE_NAME :: string where "EXECUTE_NAME \<equiv> ''${{ tools.by_kind.execute }}''"

definition ambiguous_message :: "string \<Rightarrow> string" where
  "ambiguous_message name =
     ''The string to replace was found via Unicode normalization but the match is ambiguous (partial or overlapping). Use a more specific ''
     @ name @ '' that avoids lines with Unicode typography characters.''"

definition several_normalized_message :: "string \<Rightarrow> string" where
  "several_normalized_message name =
     ''The string to replace was found multiple times in the file (via Unicode normalization). Use '' @ name
     @ '' to replace all occurrences, or include more context to only edit one occurrence.''"

definition several_message :: "string \<Rightarrow> string" where
  "several_message name = ''The string to replace was found multiple times in the file. Use '' @ name
     @ '' to replace all occurrences, or include more context to only edit one occurrence.''"

definition not_found_message :: "string \<Rightarrow> string" where
  "not_found_message name = ''The string to replace was not found in the file, use the '' @ name @ '' tool to see the correct string.''"

definition not_empty_message :: "string \<Rightarrow> string" where
  "not_empty_message name = name @ '' is empty, which is only allowed when creating a new file or when the file is empty.''"

definition rendered :: "'fs edit_resources \<Rightarrow> string \<Rightarrow> (string \<Rightarrow> search_replace_output) \<Rightarrow> edit_error + search_replace_output" where
  "rendered R template f = (case render R template of Inl e \<Rightarrow> Inl e | Inr name \<Rightarrow> Inr (f name))"

text \<open>The write: the memory policy first, the file system for paths outside it.\<close>

definition write_edited ::
  "'fs memory_access option \<Rightarrow> 'fs edit_ops \<Rightarrow> string \<Rightarrow> string \<Rightarrow> string \<Rightarrow> 'fs \<Rightarrow> ((string + fs_failure) + unit) \<times> 'fs" where
  "write_edited mem ops policy_path path cont st = (case write_memory_v2_file mem st policy_path cont of
     (Inl e, st1) \<Rightarrow> (Inl (Inl e), st1)
   | (Inr (Written _), st1) \<Rightarrow> (Inr (), st1)
   | (Inr Outside, st1) \<Rightarrow>
       (case ed_write ops st1 path cont of (Inl f, st2) \<Rightarrow> (Inl (Inr f), st2) | (Inr _, st2) \<Rightarrow> (Inr (), st2)))"

definition creation_failure ::
  "'fs edit_ops \<Rightarrow> 'fs \<Rightarrow> string \<Rightarrow> string \<Rightarrow> string \<Rightarrow> string option \<Rightarrow> bool \<Rightarrow> fs_failure \<Rightarrow> search_replace_output" where
  "creation_failure ops st file_path path cwd display_cwd hints_enabled e = (case io_error_kind e of
     Some Io_NotFound \<Rightarrow>
       (let dcwd = display_cwd_or_cwd cwd display_cwd
        in Out_FileNotFound (format_not_found_error ops st (path_join dcwd file_path) path cwd dcwd hints_enabled))
   | Some Io_AlreadyExists \<Rightarrow> Out_InvalidInput (''Error: cannot create '' @ file_path @
       ''. A component of the path already exists as a file where a directory is expected.'')
   | Some Io_InvalidFilename \<Rightarrow> Out_FilenameTooLong NAME_TOO_LONG
   | _ \<Rightarrow> Out_InvalidInput (''Error: failed to write '' @ file_path @ '': '' @ failure_text e))"

definition notify :: "file_written \<Rightarrow> 'fs tool_state \<Rightarrow> 'fs tool_state" where
  "notify n st = st\<lparr>notified := notified st @ [n]\<rparr>"

definition handle_new_file_creation ::
  "'fs edit_resources \<Rightarrow> 'fs edit_ops \<Rightarrow> search_replace_input \<Rightarrow> string \<Rightarrow> string \<Rightarrow> string \<Rightarrow> string \<Rightarrow> string option \<Rightarrow> bool
   \<Rightarrow> bool \<Rightarrow> 'fs tool_state \<Rightarrow> (edit_error + search_replace_output) \<times> 'fs tool_state" where
  "handle_new_file_creation R ops input call_id path policy_path cwd display_cwd hints_enabled no_override st =
     (let file_exists = (case ed_read ops (fs st) path of Inr bytes \<Rightarrow> bytes \<noteq> [] | Inl _ \<Rightarrow> False);
          txt_old = (case ed_read ops (fs st) path of Inr bytes \<Rightarrow> Some (ed_lossy ops bytes) | Inl _ \<Rightarrow> None)
      in if file_exists \<and> no_override then
           (rendered R OLD_STRING_NAME (\<lambda>name. Out_FileAlreadyExists
              (not_empty_message name)), st)
         else (case write_edited (res_memory R) ops policy_path path (sr_new_string input) (fs st) of
             (Inl (Inl e), s) \<Rightarrow> (Inr (Out_InvalidInput e), st\<lparr>fs := s\<rparr>)
           | (Inl (Inr e), s) \<Rightarrow>
               (Inr (creation_failure ops s (sr_file_path input) path cwd display_cwd hints_enabled e), st\<lparr>fs := s\<rparr>)
           | (Inr _, s) \<Rightarrow>
               (let previous = (case txt_old of Some t \<Rightarrow> if file_exists \<and> \<not> no_override then Some t else None | None \<Rightarrow> None)
                in (Inr (Out_EditsApplied \<lparr>ea_old_string = sr_old_string input, ea_new_string = sr_new_string input,
                      ea_prompt = ''The file '' @ sr_file_path input @ '' has been created successfully.'',
                      ea_prompt_concise = Some (''The file '' @ sr_file_path input @ '' has been created.''),
                      ea_absolute_path = path,
                      ea_details = [\<lparr>ed_old_string = sr_old_string input, old_line = 1, ed_new_string = sr_new_string input, new_line = 1,
                        context_before = [], context_after = [], line_prefix = []\<rparr>],
                      ea_unicode_normalized = False\<rparr>),
                    notify \<lparr>tool_call_id = call_id, absolute_path = path, fw_content = sr_new_string input,
                      previous_content = previous, is_new_file = (previous = None)\<rparr> (st\<lparr>fs := s\<rparr>)))))"

section \<open>Replacing in a file\<close>

definition read_failure ::
  "'fs edit_ops \<Rightarrow> 'fs \<Rightarrow> string \<Rightarrow> string \<Rightarrow> string \<Rightarrow> string option \<Rightarrow> bool \<Rightarrow> fs_failure \<Rightarrow> edit_error + search_replace_output" where
  "read_failure ops st file_path path cwd display_cwd hints_enabled e = (case io_error_kind e of
     Some Io_NotFound \<Rightarrow>
       (let dcwd = display_cwd_or_cwd cwd display_cwd
        in Inr (Out_FileNotFound (format_not_found_error ops st (path_join dcwd file_path) path cwd dcwd hints_enabled)))
   | Some Io_IsADirectory \<Rightarrow> Inr (Out_InvalidInput (''Error: '' @ file_path @ '' is a directory, not a file.''))
   | Some Io_InvalidFilename \<Rightarrow> Inr (Out_FilenameTooLong NAME_TOO_LONG)
   | Some Io_PermissionDenied \<Rightarrow> Inr (Out_InvalidInput (''Error: permission denied reading '' @ file_path @ ''.''))
   | _ \<Rightarrow> Inl (ExecutionFailed (failure_text e)))"

definition write_failure :: "string \<Rightarrow> fs_failure \<Rightarrow> search_replace_output" where
  "write_failure file_path e = (case io_error_kind e of
     Some Io_AlreadyExists \<Rightarrow> Out_InvalidInput (''Error: cannot write '' @ file_path @
       ''. A component of the path already exists as a file where a directory is expected.'')
   | Some Io_InvalidFilename \<Rightarrow> Out_FilenameTooLong NAME_TOO_LONG
   | _ \<Rightarrow> Out_InvalidInput (''Error: failed to write '' @ file_path @ '': '' @ failure_text e))"

text \<open>Where the text occurs: exactly, or after normalisation when that is enabled and there is no exact match. The flag says
  which; the left case ends the call.\<close>

definition locate ::
  "'fs edit_resources \<Rightarrow> string \<Rightarrow> search_replace_input \<Rightarrow> ((edit_error + search_replace_output) + nat list \<times> bool) option" where
  "locate R match_text input =
     (let positions = match_indices match_text (sr_old_string input);
          fallback = (case res_params R of Some p \<Rightarrow> unicode_normalized_fallback p | None \<Rightarrow> False)
      in if positions \<noteq> [] \<or> \<not> fallback then Some (Inr (positions, False))
         else (case find_normalized_match_positions match_text (sr_old_string input) of
             None \<Rightarrow> None
           | Some Norm_NoMatch \<Rightarrow> Some (Inr ([], False))
           | Some Norm_Ambiguous \<Rightarrow> Some (Inl (rendered R OLD_STRING_NAME (\<lambda>name. Out_MultipleMatchesFound (ambiguous_message name))))
           | Some (Norm_Matches ms) \<Rightarrow>
               if length ms > 1 \<and> \<not> sr_replace_all input then
                 Some (Inl (rendered R REPLACE_ALL_NAME (\<lambda>name. Out_MultipleMatchesFound (several_normalized_message name))))
               else Some (Inr (map original_start ms, True))))"

definition no_match ::
  "'fs edit_resources \<Rightarrow> bool \<Rightarrow> bool \<Rightarrow> string \<Rightarrow> string \<Rightarrow> string \<Rightarrow> (edit_error + search_replace_output) option" where
  "no_match R legacy user_hint path match_text old_string =
     (case render R READ_NAME of Inl e \<Rightarrow> Some (Inl e) | Inr read_name \<Rightarrow>
     (case render R OLD_STRING_NAME of Inl e \<Rightarrow> Some (Inl e) | Inr old_param \<Rightarrow>
     (case render R EXECUTE_NAME of Inl e \<Rightarrow> Some (Inl e) | Inr execute_name \<Rightarrow>
       (case (if legacy then Some None
              else build_confusable_hint match_text old_string (res_query_tools R) read_name old_param execute_name) of
          None \<Rightarrow> None
        | Some confusable_hint \<Rightarrow>
            Some (Inr (Out_NoMatchesFound
              (not_found_message read_name
               @ (if user_hint then '' The user may have changed the file since you last read it.'' else [])
               @ (if legacy then [] else build_nearest_match_hint match_text old_string)
               @ (case confusable_hint of Some h \<Rightarrow> h | None \<Rightarrow> [])) path))))))"

definition replaced ::
  "string \<Rightarrow> search_replace_input \<Rightarrow> nat list \<Rightarrow> bool \<Rightarrow> string \<Rightarrow> (search_replace_output + string \<times> nat list) option" where
  "replaced match_text input positions normalized path =
     (if normalized then
        (case find_normalized_match_positions match_text (sr_old_string input) of
           None \<Rightarrow> None
         | Some (Norm_Matches ms) \<Rightarrow> map_option Inr (replace_normalized_matches match_text ms (sr_new_string input))
         | Some _ \<Rightarrow> Some (Inl (Out_NoMatchesFound ''Internal error: normalized match disappeared on re-evaluation'' path)))
      else map_option Inr (replace_using_positions match_text positions (sr_old_string input) (sr_new_string input)))"

definition to_lf :: "string \<Rightarrow> string" where "to_lf s = replace [CR, NL] [NL] s"
definition to_crlf :: "string \<Rightarrow> string" where "to_crlf s = replace [NL] [CR, NL] s"

definition match_view :: "string \<Rightarrow> string" where
  "match_view txt_old = (if contains_sub txt_old [CR, NL] then to_lf txt_old else txt_old)"

definition write_view :: "string \<Rightarrow> string \<Rightarrow> string" where
  "write_view txt_old txt_new = (if contains_sub txt_old [CR, NL] then to_crlf (to_lf txt_new) else txt_new)"

definition updated_messages :: "string \<Rightarrow> nat \<Rightarrow> string \<times> string" where
  "updated_messages file_path n =
     (if n = 1 then (''The file '' @ file_path @ '' has been updated successfully.'', ''The file '' @ file_path @ '' has been updated.'')
      else (''The file '' @ file_path @ '' has been updated. All occurrences were successfully replaced.'',
            ''The file '' @ file_path @ '' has been updated. All occurrences were replaced.''))"

text \<open>The end of a replacement: write, notify, report.\<close>

definition commit_replacement ::
  "'fs edit_resources \<Rightarrow> 'fs edit_ops \<Rightarrow> search_replace_input \<Rightarrow> string \<Rightarrow> string \<Rightarrow> string \<Rightarrow> string \<Rightarrow> string \<times> nat list \<Rightarrow> bool
   \<Rightarrow> 'fs tool_state \<Rightarrow> ((edit_error + search_replace_output) \<times> 'fs tool_state) option" where
  "commit_replacement R ops input call_id path policy_path txt_old edited normalized st =
     (let (txt_new, new_positions) = edited; write_text = write_view txt_old txt_new
      in case write_edited (res_memory R) ops policy_path path write_text (fs st) of
           (Inl (Inl e), s) \<Rightarrow> Some (Inr (Out_InvalidInput e), st\<lparr>fs := s\<rparr>)
         | (Inl (Inr e), s) \<Rightarrow> Some (Inr (write_failure (sr_file_path input) e), st\<lparr>fs := s\<rparr>)
         | (Inr _, s) \<Rightarrow>
             (case build_edit_details txt_new (sr_old_string input) (sr_new_string input) new_positions CONTEXT_LINES of
                None \<Rightarrow> None
              | Some details \<Rightarrow>
                  Some (Inr (Out_EditsApplied \<lparr>ea_old_string = sr_old_string input, ea_new_string = sr_new_string input,
                      ea_prompt = fst (updated_messages (sr_file_path input) (length new_positions)),
                      ea_prompt_concise = Some (snd (updated_messages (sr_file_path input) (length new_positions))),
                      ea_absolute_path = path, ea_details = details, ea_unicode_normalized = normalized\<rparr>),
                    notify \<lparr>tool_call_id = call_id, absolute_path = path, fw_content = write_text,
                      previous_content = Some txt_old, is_new_file = False\<rparr> (st\<lparr>fs := s\<rparr>))))"

definition handle_replacement ::
  "'fs edit_resources \<Rightarrow> 'fs edit_ops \<Rightarrow> search_replace_input \<Rightarrow> string \<Rightarrow> string \<Rightarrow> string \<Rightarrow> string \<Rightarrow> string option \<Rightarrow> bool
   \<Rightarrow> bool \<Rightarrow> bool \<Rightarrow> 'fs tool_state \<Rightarrow> ((edit_error + search_replace_output) \<times> 'fs tool_state) option" where
  "handle_replacement R ops input call_id path policy_path cwd display_cwd hints_enabled legacy user_hint st =
     (case ed_read ops (fs st) path of
        Inl e \<Rightarrow> Some (read_failure ops (fs st) (sr_file_path input) path cwd display_cwd hints_enabled e, st)
      | Inr bytes \<Rightarrow>
          (let txt_old = ed_lossy ops bytes; match_text = match_view txt_old
           in case locate R match_text input of
                None \<Rightarrow> None
              | Some (Inl res) \<Rightarrow> Some (res, st)
              | Some (Inr (positions, normalized)) \<Rightarrow>
                  if positions = [] then
                    map_option (\<lambda>res. (res, st)) (no_match R legacy user_hint path match_text (sr_old_string input))
                  else if length positions > 1 \<and> \<not> sr_replace_all input then
                    Some (rendered R REPLACE_ALL_NAME (\<lambda>name. Out_MultipleMatchesFound (several_message name)), st)
                  else (case replaced match_text input positions normalized path of
                      None \<Rightarrow> None
                    | Some (Inl out) \<Rightarrow> Some (Inr out, st)
                    | Some (Inr edited) \<Rightarrow> commit_replacement R ops input call_id path policy_path txt_old edited normalized st)))"

section \<open>The tool\<close>

definition run_search_replace ::
  "'fs edit_resources \<Rightarrow> call_context \<Rightarrow> search_replace_input \<Rightarrow> 'fs tool_state
   \<Rightarrow> ((edit_error + search_replace_output) \<times> 'fs tool_state) option" where
  "run_search_replace R ctx input st =
     (case (case ctx_cwd ctx of Some d \<Rightarrow> Some d | None \<Rightarrow> res_cwd R) of
        None \<Rightarrow> Some (Inl (MissingResource ''Cwd''), st)
      | Some cwd \<Rightarrow>
     (case res_fs R of
        None \<Rightarrow> Some (Inl (MissingResource ''FileSystem''), st)
      | Some ops \<Rightarrow>
     if \<not> res_notifications R then Some (Inl (MissingResource ''NotificationHandle''), st)
     else
       (let resolved = resolve_model_path (res_env R) cwd (res_display_cwd R) (sr_file_path input);
            path = target_path ops (fs st) resolved;
            hints_enabled = (res_hints R = Some True);
            legacy = is_legacy (from_contract (ctx_behavior_version ctx));
            respect = (case res_respect_gitignore R of Some b \<Rightarrow> b | None \<Rightarrow> True);
            ignored = (case res_gitignore R of Some f \<Rightarrow> f path | None \<Rightarrow> False);
            no_override = (case res_params R of Some p \<Rightarrow> empty_old_string_does_not_override p | None \<Rightarrow> False);
            user_hint = (case res_params R of Some p \<Rightarrow> include_user_edit_hint p | None \<Rightarrow> True)
        in case validate_path_length (sr_file_path input) of
             Some err \<Rightarrow> Some (Inr err, st)
           | None \<Rightarrow>
               if ed_is_dir ops (fs st) path then Some (Inr (Out_InvalidInput ''File path is a directory''), st)
               else if \<not> legacy \<and> respect \<and> ignored then
                 Some (Inr (Out_InvalidInput (''Error: '' @ sr_file_path input @ '' is ignored by .gitignore and cannot be edited.'')), st)
               else if sr_old_string input = sr_new_string input then
                 Some (Inr (Out_InvalidInput ''Old string and new string are the same''), st)
               else if sr_old_string input = [] then
                 Some (handle_new_file_creation R ops input (ctx_call_id ctx) path resolved cwd (res_display_cwd R) hints_enabled no_override st)
               else handle_replacement R ops input (ctx_call_id ctx) path resolved cwd (res_display_cwd R) hints_enabled legacy user_hint st)))"

text \<open>The version of 0.4.10 turns the structured errors into plain ones with the texts of that time.\<close>

fun downgraded :: "string \<Rightarrow> string \<Rightarrow> string \<Rightarrow> string \<Rightarrow> search_replace_output \<Rightarrow> search_replace_output" where
  "downgraded file_path read_name replace_all_name old_string_name (Out_FileAlreadyExists _) =
     Out_InvalidInput (not_empty_message old_string_name)"
| "downgraded file_path read_name replace_all_name old_string_name (Out_FileNotFound _) =
     Out_InvalidInput (''File not found: '' @ file_path @ ''. Please check the path and try again.'')"
| "downgraded file_path read_name replace_all_name old_string_name (Out_FilenameTooLong msg) = Out_InvalidInput msg"
| "downgraded file_path read_name replace_all_name old_string_name (Out_MultipleMatchesFound _) =
     Out_InvalidInput (several_message replace_all_name)"
| "downgraded file_path read_name replace_all_name old_string_name (Out_NoMatchesFound _ _) =
     Out_InvalidInput (not_found_message read_name)"
| "downgraded file_path read_name replace_all_name old_string_name other = other"

definition downgrade_structured_errors ::
  "'fs edit_resources \<Rightarrow> string \<Rightarrow> search_replace_output \<Rightarrow> edit_error + search_replace_output" where
  "downgrade_structured_errors R file_path out =
     (case render R READ_NAME of Inl e \<Rightarrow> Inl e | Inr read_name \<Rightarrow>
     (case render R REPLACE_ALL_NAME of Inl e \<Rightarrow> Inl e | Inr replace_all_name \<Rightarrow>
     (case render R OLD_STRING_NAME of Inl e \<Rightarrow> Inl e | Inr old_string_name \<Rightarrow>
       Inr (downgraded file_path read_name replace_all_name old_string_name out))))"

definition run_tool ::
  "'fs edit_resources \<Rightarrow> call_context \<Rightarrow> search_replace_input \<Rightarrow> 'fs tool_state
   \<Rightarrow> ((edit_error + search_replace_output) \<times> 'fs tool_state) option" where
  "run_tool R ctx input st = (case run_search_replace R ctx input st of
     Some (Inr out, st') \<Rightarrow>
       Some (if is_legacy (from_contract (ctx_behavior_version ctx)) then downgrade_structured_errors R (sr_file_path input) out
             else Inr out, st')
   | other \<Rightarrow> other)"

section \<open>Replacing regions\<close>

lemma crlf_well_formed: "well_formed [CR, NL]" "well_formed [NL]"
  by (simp_all add: is_continuation_def char_len_def)

lemma to_lf_well_formed: "well_formed s \<Longrightarrow> well_formed (to_lf s)"
  unfolding to_lf_def by (rule replace_well_formed) (simp_all only: crlf_well_formed, simp_all)

lemma match_view_well_formed: "well_formed s \<Longrightarrow> well_formed (match_view s)"
  by (simp add: match_view_def to_lf_well_formed)

lemma hint_never_panics:
  assumes "well_formed file" "well_formed old_string" "old_string \<noteq> []"
  shows "build_confusable_hint file old_string tools r p x \<noteq> None"
proof -
  let ?N = "normalize_confusables file" and ?q = "normalize_confusables old_string"
  have q: "?q \<noteq> []" "well_formed ?q" using assms normalize_Nil normalize_well_formed by auto
  obtain ps z where o: "occurrences ?q ?N = (ps, z)" by fastforce
  note shape = occurrences_shape [OF q(1) o]
  have wp: "whole_parts ps z" by (rule occurrences_whole_parts [OF q normalize_well_formed [OF assms(1)] o])
  have "str_slice file 0 (to_original file i) \<noteq> None \<and> str_slice file 0 (to_original file (i + length ?q)) \<noteq> None"
    if m: "match_indices ?N ?q = i # is" for i "is"
  proof -
    obtain a ps' where ps: "ps = (a, ?q) # ps'" "i = length a" using m shape(2,4) by (cases ps) auto
    then have N: "?N = a @ ?q @ weave ps' z" and wf: "well_formed a" "well_formed (weave ps' z)"
      using shape(1) wp whole_parts_weave by auto
    have b: "is_char_boundary ?N i" "is_char_boundary ?N (i + length ?q)" "i + length ?q \<le> length ?N"
      using boundary_append [of "?q @ weave ps' z" a] boundary_append [of "weave ps' z" "a @ ?q"] wf q(2)
      by (simp_all add: N ps(2) well_formed_append)
    then have "is_char_boundary file (to_original file i) \<and> to_original file i \<le> length file"
      "is_char_boundary file (to_original file (i + length ?q)) \<and> to_original file (i + length ?q) \<le> length file"
      using to_original_boundary [OF assms(1)] by auto
    then show ?thesis by (simp add: str_slice_def is_char_boundary_def)
  qed
  then show ?thesis
    by (cases "match_indices ?N ?q") (auto simp: build_confusable_hint_def build_offset_map_shape Let_def)
qed

lemma no_match_total:
  assumes "well_formed file" "well_formed old_string" "old_string \<noteq> []"
  obtains res where "no_match R legacy user_hint path file old_string = Some res" "\<forall>e. res \<noteq> Inr (Out_EditsApplied e)"
proof -
  have h: "\<exists>h. build_confusable_hint file old_string (res_query_tools R) r p x = Some h" for r p x
    using hint_never_panics [OF assms] by simp
  have "\<exists>res. no_match R legacy user_hint path file old_string = Some res \<and> (\<forall>e. res \<noteq> Inr (Out_EditsApplied e))"
  proof (cases "\<exists>a b c. render R READ_NAME = Inr a \<and> render R OLD_STRING_NAME = Inr b \<and> render R EXECUTE_NAME = Inr c")
    case True
    then obtain a b c where "render R READ_NAME = Inr a" "render R OLD_STRING_NAME = Inr b" "render R EXECUTE_NAME = Inr c" by blast
    moreover obtain k where "build_confusable_hint file old_string (res_query_tools R) a b c = Some k" using h by blast
    ultimately show ?thesis by (cases legacy) (simp_all add: no_match_def)
  next
    case False
    then obtain e where "no_match R legacy user_hint path file old_string = Some (Inl e)"
      by (cases "render R READ_NAME"; cases "render R OLD_STRING_NAME"; cases "render R EXECUTE_NAME") (auto simp: no_match_def)
    then show ?thesis by simp
  qed
  then show ?thesis using that by blast
qed

text \<open>What the search hands to the replacement: the regions to replace.\<close>

definition chosen_regions :: "string \<Rightarrow> search_replace_input \<Rightarrow> bool \<Rightarrow> (string \<times> string) list \<Rightarrow> string \<Rightarrow> bool" where
  "chosen_regions txt0 input normalized ps z \<longleftrightarrow> txt0 = weave ps z \<and> whole_parts ps z \<and> ps \<noteq> []
     \<and> (\<forall>(a, r) \<in> set ps. normalize_confusables r = normalize_confusables (sr_old_string input))
     \<and> (\<not> normalized \<longrightarrow> (ps, z) = occurrences (sr_old_string input) txt0 \<and> (\<forall>(a, r) \<in> set ps. r = sr_old_string input))
     \<and> (normalized \<longrightarrow> \<not> contains_sub txt0 (sr_old_string input))"

lemma located_exact:
  assumes "well_formed txt0" "well_formed (sr_old_string input)" "sr_old_string input \<noteq> []"
    and "match_indices txt0 (sr_old_string input) \<noteq> []"
  shows "\<exists>ps z. chosen_regions txt0 input False ps z \<and> length (match_indices txt0 (sr_old_string input)) = length ps
    \<and> replaced txt0 input (match_indices txt0 (sr_old_string input)) False path
      = Some (Inr (weave (with_regions (sr_new_string input) ps) z, map fst (regions 0 (with_regions (sr_new_string input) ps))))"
proof -
  let ?old = "sr_old_string input"
  obtain ps z where o: "occurrences ?old txt0 = (ps, z)" by fastforce
  note shape = occurrences_shape [OF assms(3) o]
  have len: "length (regions i ps) = length ps" for i by (induction ps arbitrary: i) auto
  have "chosen_regions txt0 input False ps z"
    using shape occurrences_whole_parts [OF assms(3,2,1) o] assms(4) o by (auto simp: chosen_regions_def)
  then show ?thesis
    using replace_using_positions_exact [OF assms(3,2,1) o, of "sr_new_string input"] shape(2) shape(3) [of "sr_new_string input"] len
    by (auto simp: replaced_def)
qed

lemma located_normalized:
  assumes "well_formed txt0" "well_formed (sr_old_string input)" "sr_old_string input \<noteq> []"
    and "match_indices txt0 (sr_old_string input) = []" "find_normalized_match_positions txt0 (sr_old_string input) = Some (Norm_Matches ms)"
  shows "\<exists>ps z. chosen_regions txt0 input True ps z \<and> length (map original_start ms) = length ps
    \<and> replaced txt0 input (map original_start ms) True path
      = Some (Inr (weave (with_regions (sr_new_string input) ps) z, map fst (regions 0 (with_regions (sr_new_string input) ps))))"
proof -
  obtain ps z where ps: "txt0 = weave ps z" "length ps = length ms" "whole_parts ps z" "ms \<noteq> []"
    "\<forall>(a, r) \<in> set ps. normalize_confusables r = normalize_confusables (sr_old_string input)"
    "\<And>new. replace_normalized_matches txt0 ms new = Some (weave (with_regions new ps) z, map fst (regions 0 (with_regions new ps)))"
    using normalized_search_sound [OF assms(1-3)] assms(5) by auto
  then have "chosen_regions txt0 input True ps z"
    using assms(4) match_indices_Nil [OF assms(3)] by (auto simp: chosen_regions_def)
  moreover have "replaced txt0 input (map original_start ms) True path
      = Some (Inr (weave (with_regions (sr_new_string input) ps) z, map fst (regions 0 (with_regions (sr_new_string input) ps))))"
    by (simp add: replaced_def assms(5) ps(6))
  ultimately show ?thesis using ps(2) by (intro exI [of _ ps] exI [of _ z]) simp
qed

text \<open>The write of a call: what it was given and that it succeeded, or that it failed.\<close>

definition unchanged_or_failed ::
  "'fs edit_resources \<Rightarrow> 'fs edit_ops \<Rightarrow> string \<Rightarrow> string \<Rightarrow> 'fs tool_state \<Rightarrow> 'fs tool_state \<Rightarrow> bool" where
  "unchanged_or_failed R ops policy_path path st st' \<longleftrightarrow> notified st' = notified st
     \<and> (fs st' = fs st \<or> (\<exists>e cont. write_edited (res_memory R) ops policy_path path cont (fs st) = (Inl e, fs st')))"

definition applied ::
  "'fs edit_resources \<Rightarrow> 'fs edit_ops \<Rightarrow> search_replace_input \<Rightarrow> string \<Rightarrow> string \<Rightarrow> string \<Rightarrow> string \<Rightarrow> edits_applied
   \<Rightarrow> 'fs tool_state \<Rightarrow> 'fs tool_state \<Rightarrow> bool" where
  "applied R ops input call_id path policy_path before e st st' \<longleftrightarrow>
     (\<exists>ps z after. chosen_regions (match_view before) input (ea_unicode_normalized e) ps z
       \<and> (sr_replace_all input \<or> length ps = 1)
       \<and> after = write_view before (weave (with_regions (sr_new_string input) ps) z)
       \<and> write_edited (res_memory R) ops policy_path path after (fs st) = (Inr (), fs st')
       \<and> notified st' = notified st @ [\<lparr>tool_call_id = call_id, absolute_path = path, fw_content = after,
           previous_content = Some before, is_new_file = False\<rparr>]
       \<and> length (ea_details e) = length ps \<and> ea_absolute_path e = path)"

lemma commit_applies:
  assumes "chosen_regions (match_view before) input normalized ps z" "well_formed (sr_new_string input)"
    and "sr_replace_all input \<or> length ps = 1"
  shows "\<exists>res st'. commit_replacement R ops input call_id path policy_path before
      (weave (with_regions (sr_new_string input) ps) z, map fst (regions 0 (with_regions (sr_new_string input) ps))) normalized st
        = Some (res, st')
    \<and> (case res of Inr (Out_EditsApplied e) \<Rightarrow> applied R ops input call_id path policy_path before e st st'
       | _ \<Rightarrow> unchanged_or_failed R ops policy_path path st st')"
proof -
  let ?new = "sr_new_string input"
  let ?after = "write_view before (weave (with_regions ?new ps) z)"
  have wp: "whole_parts (with_regions ?new ps) z" using assms(1,2) by (simp add: chosen_regions_def whole_parts_with)
  have "length (with_regions ?new ps) = length ps" by (simp add: with_regions_def)
  then obtain ds where ds: "build_edit_details (weave (with_regions ?new ps) z) (sr_old_string input) ?new
      (map fst (regions 0 (with_regions ?new ps))) CONTEXT_LINES = Some ds" "length ds = length ps"
    using build_edit_details_total [OF wp, of CONTEXT_LINES "sr_old_string input" ?new] by (auto simp: CONTEXT_LINES_def)
  obtain w s where w: "write_edited (res_memory R) ops policy_path path ?after (fs st) = (w, s)" by fastforce
  show ?thesis
  proof (cases w)
    case (Inl f)
    have "unchanged_or_failed R ops policy_path path st (st\<lparr>fs := s\<rparr>)" using w Inl by (auto simp: unchanged_or_failed_def)
    then show ?thesis using w Inl
      by (cases f) (auto simp: commit_replacement_def write_failure_def split: option.splits io_kind.splits)
  next
    case (Inr u)
    let ?n = "\<lparr>tool_call_id = call_id, absolute_path = path, fw_content = ?after, previous_content = Some before, is_new_file = False\<rparr>"
    have "applied R ops input call_id path policy_path before e st (notify ?n (st\<lparr>fs := s\<rparr>))"
      if "ea_unicode_normalized e = normalized" "ea_details e = ds" "ea_absolute_path e = path" for e
      unfolding applied_def using assms(1,3) w Inr ds(2) that
      by (intro exI [of _ ps] exI [of _ z] exI [of _ ?after]) (simp add: notify_def)
    then show ?thesis using w Inr ds(1) by (simp add: commit_replacement_def)
  qed
qed

lemma handle_located:
  assumes "ed_read ops (fs st) path = Inr bytes" "locate R (match_view (ed_lossy ops bytes)) input = Some (Inr (positions, normalized))"
    and "positions \<noteq> []" "\<not> (length positions > 1 \<and> \<not> sr_replace_all input)"
    and "replaced (match_view (ed_lossy ops bytes)) input positions normalized path = Some (Inr edited)"
  shows "handle_replacement R ops input call_id path policy_path cwd display_cwd hints_enabled legacy user_hint st
    = commit_replacement R ops input call_id path policy_path (ed_lossy ops bytes) edited normalized st"
  unfolding handle_replacement_def assms(1) sum.case Let_def assms(2) option.case prod.case if_not_P [OF assms(3)]
    if_not_P [OF assms(4)] assms(5) ..

lemma handle_ended:
  assumes "ed_read ops (fs st) path = Inr bytes" "locate R (match_view (ed_lossy ops bytes)) input = Some (Inl res)"
  shows "handle_replacement R ops input call_id path policy_path cwd display_cwd hints_enabled legacy user_hint st = Some (res, st)"
  unfolding handle_replacement_def assms(1) sum.case Let_def assms(2) option.case ..

lemma handle_none:
  assumes "ed_read ops (fs st) path = Inr bytes" "locate R (match_view (ed_lossy ops bytes)) input = Some (Inr ([], normalized))"
    and "no_match R legacy user_hint path (match_view (ed_lossy ops bytes)) (sr_old_string input) = Some res"
  shows "handle_replacement R ops input call_id path policy_path cwd display_cwd hints_enabled legacy user_hint st = Some (res, st)"
  unfolding handle_replacement_def assms(1) sum.case Let_def assms(2) option.case prod.case using assms(3) by simp

lemma handle_several:
  assumes "ed_read ops (fs st) path = Inr bytes" "locate R (match_view (ed_lossy ops bytes)) input = Some (Inr (positions, normalized))"
    and "length positions > 1" "\<not> sr_replace_all input"
  shows "\<exists>res. handle_replacement R ops input call_id path policy_path cwd display_cwd hints_enabled legacy user_hint st = Some (res, st)
    \<and> (\<forall>e. res \<noteq> Inr (Out_EditsApplied e))"
  unfolding handle_replacement_def assms(1) sum.case Let_def assms(2) option.case prod.case
  using assms(3,4) by (cases positions) (auto simp: rendered_def split: sum.split)

lemma not_applied:
  "\<forall>e. res \<noteq> Inr (Out_EditsApplied e) \<Longrightarrow> (case res of Inr (Out_EditsApplied e) \<Rightarrow> P e | _ \<Rightarrow> Q) = Q"
  by (auto split: sum.split search_replace_output.split)

lemma handle_replacement_cases:
  assumes "ed_read ops (fs st) path = Inr bytes" "well_formed (ed_lossy ops bytes)"
    and "well_formed (sr_old_string input)" "sr_old_string input \<noteq> []" "well_formed (sr_new_string input)"
  shows "\<exists>res st'. handle_replacement R ops input call_id path policy_path cwd display_cwd hints_enabled legacy user_hint st = Some (res, st')
    \<and> (case res of
         Inr (Out_EditsApplied e) \<Rightarrow> applied R ops input call_id path policy_path (ed_lossy ops bytes) e st st'
       | _ \<Rightarrow> unchanged_or_failed R ops policy_path path st st')"
proof -
  let ?before = "ed_lossy ops bytes" and ?old = "sr_old_string input"
  let ?txt = "match_view (ed_lossy ops bytes)"
  note wf = match_view_well_formed [OF assms(2)]
  have same: "unchanged_or_failed R ops policy_path path st st" by (simp add: unchanged_or_failed_def)
  have ended: ?thesis
    if "handle_replacement R ops input call_id path policy_path cwd display_cwd hints_enabled legacy user_hint st = Some (res, st)"
      "\<forall>e. res \<noteq> Inr (Out_EditsApplied e)" for res
    using that same by (simp add: not_applied)
  have edit: ?thesis
    if loc: "locate R ?txt input = Some (Inr (positions, normalized))" and ne: "positions \<noteq> []"
      and ch: "chosen_regions ?txt input normalized ps z" "length positions = length ps"
      and rep: "replaced ?txt input positions normalized path = Some (Inr (weave (with_regions (sr_new_string input) ps) z,
        map fst (regions 0 (with_regions (sr_new_string input) ps))))" for positions normalized ps z
  proof (cases "length positions > 1 \<and> \<not> sr_replace_all input")
    case True
    then show ?thesis using handle_several [OF assms(1) loc] ended by blast
  next
    case False
    then have one: "sr_replace_all input \<or> length ps = 1" using ne ch(2) by (cases ps; cases "tl ps") auto
    show ?thesis using commit_applies [OF ch(1) assms(5) one, of R ops call_id path policy_path st]
      unfolding handle_located [OF assms(1) loc ne False rep] .
  qed
  show ?thesis
  proof (cases "match_indices ?txt ?old = []")
    case False
    then show ?thesis using located_exact [OF wf assms(3,4) False, of path] edit [of "match_indices ?txt ?old" False]
      by (auto simp: locate_def)
  next
    case True
    have none: ?thesis if "locate R ?txt input = Some (Inr ([], False))"
    proof -
      obtain res where res: "no_match R legacy user_hint path ?txt ?old = Some res" "\<forall>e. res \<noteq> Inr (Out_EditsApplied e)"
        by (rule no_match_total [OF wf assms(3,4)])
      show ?thesis by (rule ended [OF handle_none [OF assms(1) that res(1)] res(2)])
    qed
    show ?thesis
    proof (cases "locate R ?txt input")
      case None
      then show ?thesis using True normalized_search_sound [OF wf assms(3,4)]
        by (auto simp: locate_def Let_def split: if_splits option.splits normalized_match_result.splits)
    next
      case (Some l)
      then consider "l = Inr ([], False)" | r where "l = Inl r" "\<forall>e. r \<noteq> Inr (Out_EditsApplied e)"
        | ms where "l = Inr (map original_start ms, True)" "find_normalized_match_positions ?txt ?old = Some (Norm_Matches ms)"
        using True by (auto simp: locate_def rendered_def Let_def split: if_splits option.splits normalized_match_result.splits sum.splits)
      then show ?thesis
      proof cases
        case 1
        then show ?thesis using none Some by simp
      next
        case (2 r)
        then show ?thesis using ended [OF handle_ended [OF assms(1)]] Some by blast
      next
        case (3 ms)
        have "ms \<noteq> []" using normalized_search_sound [OF wf assms(3,4)] 3(2) by simp
        then show ?thesis using located_normalized [OF wf assms(3,4) True 3(2), of path] edit [of "map original_start ms" True] Some 3(1)
          by auto
      qed
    qed
  qed
qed

text \<open>C39: A replacement is exact or leaves the file alone. Whatever the arguments, the call returns. When it reports an edit, the text
  that was read, with its line endings made uniform, is an alternation of kept parts and at least one region, only one unless all were
  asked for, each region reads as the old string (byte for byte unless the fallback was used, in which case there is no exact
  occurrence), the text in which every region is the new string has been written, once, and one notification carries the text
  before and after. Otherwise nothing is reported and nothing was written, or the write itself failed.\<close>

theorem replacement_exact_or_untouched:
  assumes "ed_read ops (fs st) path = Inr bytes" "well_formed (ed_lossy ops bytes)"
    and "well_formed (sr_old_string input)" "sr_old_string input \<noteq> []" "well_formed (sr_new_string input)"
  shows "\<exists>res st'. handle_replacement R ops input call_id path policy_path cwd display_cwd hints_enabled legacy user_hint st = Some (res, st')
    \<and> (case res of
         Inr (Out_EditsApplied e) \<Rightarrow> applied R ops input call_id path policy_path (ed_lossy ops bytes) e st st'
       | _ \<Rightarrow> unchanged_or_failed R ops policy_path path st st')"
  by (rule handle_replacement_cases [OF assms])

section \<open>Line endings\<close>

lemma to_crlf_simps [simp]:
  "to_crlf [] = []" "to_crlf (c # s) = (if c = NL then CR # NL # to_crlf s else c # to_crlf s)"
  by (auto simp: to_crlf_def replace_def starts_with_def)

lemma to_crlf_append: "to_crlf (a @ b) = to_crlf a @ to_crlf b"
  by (induction a) auto

lemma to_lf_Cons: "c \<noteq> CR \<Longrightarrow> to_lf (c # s) = c # to_lf s"
  by (simp add: to_lf_def replace_def starts_with_def)

lemma to_lf_crlf: "to_lf (CR # NL # s) = NL # to_lf s"
  by (simp add: to_lf_def replace_def starts_with_def)

lemma to_lf_no_CR: "CR \<notin> set s \<Longrightarrow> to_lf s = s"
  by (induction s) (auto simp: to_lf_Cons to_lf_def [of "[]"])

lemma to_crlf_weave: "to_crlf (weave ps z) = weave (map (\<lambda>(a, r). (to_crlf a, to_crlf r)) ps) (to_crlf z)"
  by (induction ps) (auto simp: to_crlf_append)

lemma set_weave: "set (weave ps z) = (\<Union>(a, r) \<in> set ps. set a \<union> set r) \<union> set z"
  by (induction ps) auto

text \<open>A file in which every line ends with a carriage return and a line feed, and no carriage return stands elsewhere.\<close>

definition crlf_file :: "string \<Rightarrow> bool" where
  "crlf_file s \<longleftrightarrow> CR \<notin> set (to_lf s) \<and> to_crlf (to_lf s) = s"

definition endings :: "string \<Rightarrow> string \<Rightarrow> string" where
  "endings before s = (if contains_sub before [CR, NL] then to_crlf s else s)"

lemma views_keep_the_rest:
  assumes "match_view before = weave ps z" "\<forall>(a, r) \<in> set ps. r = old"
    and "contains_sub before [CR, NL] \<Longrightarrow> crlf_file before \<and> CR \<notin> set new"
  shows "\<exists>qs y. before = weave (with_regions (endings before old) qs) y \<and> length qs = length ps
    \<and> write_view before (weave (with_regions new ps) z) = weave (with_regions (endings before new) qs) y"
proof (cases "contains_sub before [CR, NL]")
  case False
  moreover have "with_regions old ps = ps" using assms(2) by (induction ps) auto
  ultimately show ?thesis using assms(1)
    by (intro exI [of _ ps] exI [of _ z]) (simp add: match_view_def write_view_def endings_def)
next
  case True
  have crlf: "crlf_file before" "CR \<notin> set new" using assms(3) [OF True] by auto
  let ?qs = "map (\<lambda>(a, r). (to_crlf a, to_crlf r)) ps"
  have lf: "to_lf before = weave ps z" using assms(1) True by (simp add: match_view_def)
  have old: "before = weave (with_regions (endings before old) ?qs) (to_crlf z)"
  proof -
    have "before = weave ?qs (to_crlf z)" using crlf(1) lf by (simp add: crlf_file_def to_crlf_weave)
    moreover have "with_regions (to_crlf old) ?qs = ?qs" using assms(2) by (induction ps) auto
    ultimately show ?thesis using True by (simp add: endings_def)
  qed
  have "CR \<notin> set (weave ps z)" using crlf(1) lf by (simp add: crlf_file_def)
  then have "CR \<notin> set (weave (with_regions new ps) z)" using crlf(2) by (induction ps) auto
  moreover have "map (\<lambda>(a, r). (to_crlf a, to_crlf r)) (with_regions new ps) = with_regions (to_crlf new) ?qs"
    by (induction ps) auto
  ultimately have "write_view before (weave (with_regions new ps) z) = weave (with_regions (endings before new) ?qs) (to_crlf z)"
    using True by (simp add: write_view_def endings_def to_lf_no_CR to_crlf_weave)
  then show ?thesis using old by (intro exI [of _ ?qs] exI [of _ "to_crlf z"]) simp
qed

section \<open>The whole tool\<close>

lemma downgraded_applied: "downgraded a b c d out = Out_EditsApplied e \<Longrightarrow> out = Out_EditsApplied e"
  by (cases out) auto

lemma run_tool_applied:
  assumes "run_tool R ctx input st = Some (Inr (Out_EditsApplied e), st')"
  shows "run_search_replace R ctx input st = Some (Inr (Out_EditsApplied e), st')"
  using assms
  by (auto simp: run_tool_def downgrade_structured_errors_def dest: downgraded_applied split: option.splits sum.splits if_splits)

lemma read_failure_not_applied: "read_failure ops s file_path path cwd display_cwd hints_enabled f \<noteq> Inr (Out_EditsApplied e)"
  by (auto simp: read_failure_def Let_def split: option.split io_kind.split)

lemma locate_not_applied: "locate R match_text input = Some (Inl r) \<Longrightarrow> r \<noteq> Inr (Out_EditsApplied e)"
  by (auto simp: locate_def rendered_def Let_def split: if_splits option.splits normalized_match_result.splits sum.splits)

lemma no_match_not_applied: "no_match R legacy user_hint path match_text old = Some r \<Longrightarrow> r \<noteq> Inr (Out_EditsApplied e)"
  by (auto simp: no_match_def split: sum.splits option.splits if_splits)

lemma replaced_not_applied: "replaced match_text input positions normalized path = Some (Inl out) \<Longrightarrow> out \<noteq> Out_EditsApplied e"
  by (auto simp: replaced_def split: if_splits option.splits normalized_match_result.splits)

lemma commit_path:
  "commit_replacement R ops input call_id path policy_path before edited normalized st = Some (Inr (Out_EditsApplied e), st')
   \<Longrightarrow> ea_absolute_path e = path"
  by (auto simp: commit_replacement_def write_failure_def Let_def split: prod.splits sum.splits option.splits io_kind.splits)

lemma handle_replacement_path:
  assumes "handle_replacement R ops input call_id path policy_path cwd display_cwd hints_enabled legacy user_hint st
      = Some (Inr (Out_EditsApplied e), st')"
  obtains bytes where "ed_read ops (fs st) path = Inr bytes" "ea_absolute_path e = path"
proof (cases "ed_read ops (fs st) path")
  case (Inl f)
  then show ?thesis using assms by (auto simp: handle_replacement_def read_failure_not_applied)
next
  case (Inr bytes)
  have "ea_absolute_path e = path"
    using assms Inr
    by (auto simp: handle_replacement_def Let_def rendered_def split: option.splits sum.splits prod.splits if_splits
        dest: locate_not_applied no_match_not_applied replaced_not_applied commit_path)
  then show ?thesis using that Inr by blast
qed

lemma validate_not_applied: "validate_path_length p \<noteq> Some (Out_EditsApplied e)"
  by (auto simp: validate_path_length_def split: list.split)

lemma run_search_replace_applied:
  assumes "run_search_replace R ctx input st = Some (Inr (Out_EditsApplied e), st')" "res_fs R = Some ops" "sr_old_string input \<noteq> []"
  obtains path policy_path cwd legacy user_hint hints_enabled where
    "handle_replacement R ops input (ctx_call_id ctx) path policy_path cwd (res_display_cwd R) hints_enabled legacy user_hint st
      = Some (Inr (Out_EditsApplied e), st')"
  using assms validate_not_applied by (auto simp: run_search_replace_def Let_def split: option.splits if_splits)

text \<open>What the trait \<open>AsyncFileSystem\<close> promises, of reading and of a write that succeeds, for the files it shows.\<close>

definition edit_fs_laws :: "'fs edit_ops \<Rightarrow> ('fs \<Rightarrow> string \<Rightarrow> string option) \<Rightarrow> bool" where
  "edit_fs_laws ops view \<longleftrightarrow>
     (\<forall>s p bytes. ed_read ops s p = Inr bytes \<longleftrightarrow> view s p = Some bytes)
     \<and> (\<forall>s p cont u s'. ed_write ops s p cont = (Inr u, s') \<longrightarrow> view s' = (view s)(p \<mapsto> cont))"

text \<open>C40: An edit changes what it names and nothing else. When the tool reports an edit of a file of whole characters whose lines all end
  the same way, then the file before is an alternation of kept parts and occurrences of the old string, one occurrence unless all
  were asked for; the file afterwards has the same kept parts, byte for byte, around the new string, both strings with the
  line endings of the file; and every other file is as it was.\<close>

theorem edit_keeps_the_rest:
  assumes "run_tool R ctx input st = Some (Inr (Out_EditsApplied e), st')" "sr_old_string input \<noteq> []"
    and "edit_fs_laws ops view" "res_fs R = Some ops" "res_memory R = None"
    and "\<not> ea_unicode_normalized e"
    and "view (fs st) (ea_absolute_path e) = Some before" "ed_lossy ops before = before" "well_formed before"
    and "well_formed (sr_old_string input)" "well_formed (sr_new_string input)"
    and "contains_sub before [CR, NL] \<Longrightarrow> crlf_file before \<and> CR \<notin> set (sr_new_string input)"
  shows "\<exists>ps z. before = weave (with_regions (endings before (sr_old_string input)) ps) z
    \<and> ps \<noteq> [] \<and> (sr_replace_all input \<or> length ps = 1)
    \<and> view (fs st') = (view (fs st))(ea_absolute_path e \<mapsto> weave (with_regions (endings before (sr_new_string input)) ps) z)"
proof -
  obtain path policy_path cwd legacy user_hint hints_enabled where h:
    "handle_replacement R ops input (ctx_call_id ctx) path policy_path cwd (res_display_cwd R) hints_enabled legacy user_hint st
      = Some (Inr (Out_EditsApplied e), st')"
    by (rule run_search_replace_applied [OF run_tool_applied [OF assms(1)] assms(4,2)])
  obtain bytes where read: "ed_read ops (fs st) path = Inr bytes" and path: "ea_absolute_path e = path"
    by (rule handle_replacement_path [OF h])
  then have bytes: "bytes = before" using assms(3,7) by (simp add: edit_fs_laws_def)
  have "applied R ops input (ctx_call_id ctx) path policy_path before e st st'"
    using handle_replacement_cases [OF read _ assms(10,2,11), of R "ctx_call_id ctx" policy_path cwd "res_display_cwd R" hints_enabled
        legacy user_hint] assms(8,9) unfolding h by (simp add: bytes)
  then obtain ps z where ps: "chosen_regions (match_view before) input False ps z" "sr_replace_all input \<or> length ps = 1"
    "write_edited None ops policy_path path (write_view before (weave (with_regions (sr_new_string input) ps) z)) (fs st) = (Inr (), fs st')"
    using assms(5,6) by (auto simp: applied_def)
  have regions: "match_view before = weave ps z" "\<forall>(a, r) \<in> set ps. r = sr_old_string input" "ps \<noteq> []"
    using ps(1) by (auto simp: chosen_regions_def)
  obtain qs y where qs: "before = weave (with_regions (endings before (sr_old_string input)) qs) y" "length qs = length ps"
    "write_view before (weave (with_regions (sr_new_string input) ps) z) = weave (with_regions (endings before (sr_new_string input)) qs) y"
    using views_keep_the_rest [OF regions(1,2) assms(12)] by blast
  have "view (fs st') = (view (fs st))(path \<mapsto> weave (with_regions (endings before (sr_new_string input)) qs) y)"
    using ps(3) assms(3) by (auto simp: write_edited_def write_memory_v2_file_def edit_fs_laws_def qs(3) split: prod.splits sum.splits)
  moreover have "qs \<noteq> []" "sr_replace_all input \<or> length qs = 1" using qs(2) ps(2) regions(3) by auto
  ultimately show ?thesis using qs(1) path by blast
qed

section \<open>Concrete edits\<close>

text \<open>A file system that is a map from paths to contents, with one directory, and a decoder that replaces the bytes of text
  that is not made of whole characters by U+FFFD.\<close>

definition demo_lossy :: "string \<Rightarrow> string" where
  "demo_lossy s = (if well_formed s then s
     else concat (map (\<lambda>c. if code c < 0x80 then [c] else [CHR 0xEF, CHR 0xBF, CHR 0xBD]) s))"

definition demo_edit_fs :: "string option list \<Rightarrow> (string \<Rightarrow> string option) edit_ops" where
  "demo_edit_fs entries = \<lparr>
     ed_read = (\<lambda>s p. case s p of None \<Rightarrow> Inl \<lparr>io_error_kind = Some Io_NotFound, failure_text = ''not found''\<rparr> | Some c \<Rightarrow> Inr c),
     ed_write = (\<lambda>s p c. (Inr (), s(p \<mapsto> c))), ed_lossy = demo_lossy,
     ed_canonicalize = (\<lambda>s p. case s p of None \<Rightarrow> Inl Io_NotFound | Some _ \<Rightarrow> Inr p),
     ed_is_dir = (\<lambda>s p. False), ed_read_dir = (\<lambda>s p. Some entries), ed_not_found_hint = (\<lambda>s p c d. [])\<rparr>"

definition demo_edit_resources :: "'fs edit_ops \<Rightarrow> 'fs edit_resources" where
  "demo_edit_resources ops = \<lparr>res_env = mgr_env demo_actor, res_cwd = Some ''/w'', res_display_cwd = None, res_fs = Some ops,
     res_notifications = True, res_hints = None, res_respect_gitignore = None, res_gitignore = None, res_params = None,
     res_renderer = Some Inr, res_memory = None,
     res_query_tools = \<lparr>tool_jq = None, tool_python = None, tool_sed = None, tool_cut = None\<rparr>\<rparr>"

abbreviation demo_call :: call_context where
  "demo_call \<equiv> \<lparr>ctx_cwd = None, ctx_behavior_version = None, ctx_call_id = ''c''\<rparr>"

definition replace_once :: "string \<Rightarrow> string \<Rightarrow> string \<Rightarrow> search_replace_input" where
  "replace_once path old new = \<lparr>sr_file_path = path, sr_old_string = old, sr_new_string = new, sr_replace_all = False\<rparr>"

text \<open>The contents of a file after a reported edit.\<close>

definition edited_file ::
  "(string \<Rightarrow> string option) edit_ops \<Rightarrow> (string \<Rightarrow> string option) \<Rightarrow> search_replace_input \<Rightarrow> string \<Rightarrow> string option" where
  "edited_file ops s input path = (case run_tool (demo_edit_resources ops) demo_call input \<lparr>fs = s, notified = []\<rparr> of
     Some (Inr (Out_EditsApplied e), st') \<Rightarrow> fs st' path
   | _ \<Rightarrow> None)"

definition demo_edit :: "string \<Rightarrow> string \<Rightarrow> string \<Rightarrow> string option" where
  "demo_edit before old new = edited_file (demo_edit_fs []) [''/w/a'' \<mapsto> before] (replace_once ''a'' old new) ''/w/a''"

lemma demo_edit_laws: "edit_fs_laws (demo_edit_fs entries) (\<lambda>s. s)"
  by (auto simp: edit_fs_laws_def demo_edit_fs_def split: option.splits)

lemma reported_editE:
  assumes "case r of Some (Inr (Out_EditsApplied e), _) \<Rightarrow> P e | _ \<Rightarrow> False"
  obtains e st' where "r = Some (Inr (Out_EditsApplied e), st')" "P e"
proof -
  obtain out st' where "r = Some (Inr out, st')" using assms by (cases r) (auto split: sum.splits)
  then show ?thesis using assms that by (cases out) auto
qed

theorem replacement_exact_or_untouched_witness:
  "\<exists>e st'. handle_replacement (demo_edit_resources (demo_edit_fs [])) (demo_edit_fs []) (replace_once ''a'' ''x'' ''y'') ''c''
      ''/w/a'' ''/w/a'' ''/w'' None False False True \<lparr>fs = [''/w/a'' \<mapsto> ''axb''], notified = []\<rparr> = Some (Inr (Out_EditsApplied e), st')
    \<and> applied (demo_edit_resources (demo_edit_fs [])) (demo_edit_fs [])
         (replace_once ''a'' ''x'' ''y'') ''c'' ''/w/a'' ''/w/a'' ''axb'' e \<lparr>fs = [''/w/a'' \<mapsto> ''axb''], notified = []\<rparr> st'"
proof -
  let ?st = "\<lparr>fs = [''/w/a'' \<mapsto> ''axb''], notified = []\<rparr>"
  let ?run = "handle_replacement (demo_edit_resources (demo_edit_fs [])) (demo_edit_fs []) (replace_once ''a'' ''x'' ''y'') ''c''
      ''/w/a'' ''/w/a'' ''/w'' None False False True ?st"
  have r: "ed_read (demo_edit_fs []) (fs ?st) ''/w/a'' = Inr ''axb''" by (simp add: demo_edit_fs_def)
  have l: "ed_lossy (demo_edit_fs []) ''axb'' = ''axb''" by code_simp
  have wf: "well_formed (ed_lossy (demo_edit_fs []) ''axb'')" "well_formed (sr_old_string (replace_once ''a'' ''x'' ''y''))"
    "sr_old_string (replace_once ''a'' ''x'' ''y'') \<noteq> []" "well_formed (sr_new_string (replace_once ''a'' ''x'' ''y''))" by code_simp+
  have "case ?run of Some (Inr (Out_EditsApplied e), _) \<Rightarrow> True | _ \<Rightarrow> False" by code_simp
  then obtain e st' where e: "?run = Some (Inr (Out_EditsApplied e), st')" by (rule reported_editE)
  show ?thesis
    using replacement_exact_or_untouched [where R = "demo_edit_resources (demo_edit_fs [])" and call_id = "''c''" and policy_path = "''/w/a''"
        and cwd = "''/w''" and display_cwd = None and hints_enabled = False and legacy = False and user_hint = True, OF r wf]
    unfolding e l by simp
qed

text \<open>A file with carriage returns: the second line is replaced, with the endings of the file.\<close>

theorem edit_keeps_the_rest_witness:
  "\<exists>ps z. ''a'' @ [CR, NL] @ ''x'' @ [CR, NL] = weave (with_regions (to_crlf (''x'' @ [NL])) ps) z \<and> length ps = 1"
proof -
  let ?before = "''a'' @ [CR, NL] @ ''x'' @ [CR, NL]" and ?input = "replace_once ''a'' (''x'' @ [NL]) (''y'' @ [NL])"
  let ?st = "\<lparr>fs = [''/w/a'' \<mapsto> ?before], notified = []\<rparr>" and ?R = "demo_edit_resources (demo_edit_fs [])"
  have "case run_tool ?R demo_call ?input ?st of
      Some (Inr (Out_EditsApplied e), _) \<Rightarrow> ea_absolute_path e = ''/w/a'' \<and> \<not> ea_unicode_normalized e | _ \<Rightarrow> False" by code_simp
  then obtain e st' where e: "run_tool ?R demo_call ?input ?st = Some (Inr (Out_EditsApplied e), st')"
    "ea_absolute_path e = ''/w/a'' \<and> \<not> ea_unicode_normalized e" by (rule reported_editE)
  have wf: "sr_old_string ?input \<noteq> []" "ed_lossy (demo_edit_fs []) ?before = ?before" "well_formed ?before"
    "well_formed (sr_old_string ?input)" "well_formed (sr_new_string ?input)" "contains_sub ?before [CR, NL]"
    "crlf_file ?before" "CR \<notin> set (sr_new_string ?input)" "sr_old_string ?input = ''x'' @ [NL]" "\<not> sr_replace_all ?input" by code_simp+
  show ?thesis
    using edit_keeps_the_rest [OF e(1) wf(1) demo_edit_laws _ _ conjunct2 [OF e(2)] _ wf(2-5)] wf(6-10) e(2)
    by (auto simp: demo_edit_resources_def endings_def)
qed

section \<open>Where an edit does more or less than it says\<close>

lemma mixed_endings_rewritten:
  "demo_edit (''a'' @ [CR, NL] @ ''b'' @ [NL] @ ''c'' @ [NL]) ''a'' ''x'' = Some (''x'' @ [CR, NL] @ ''b'' @ [CR, NL] @ ''c'' @ [CR, NL])"
  by code_simp

lemma crlf_pattern_not_found:
  "contains_sub (''a'' @ [CR, NL] @ ''b'' @ [CR, NL]) (''a'' @ [CR, NL] @ ''b'')
   \<and> demo_edit (''a'' @ [CR, NL] @ ''b'' @ [CR, NL]) (''a'' @ [CR, NL] @ ''b'') ''x'' = None"
  by code_simp

lemma overlapping_occurrence_edited:
  "let before = ''}'' @ [NL] @ ''}'' @ [NL] @ ''}'' @ [NL]; old = ''}'' @ [NL] @ ''}'' @ [NL]
   in starts_with before old \<and> starts_with (drop 2 before) old \<and> demo_edit before old ''x'' = Some (''x}'' @ [NL])"
  by code_simp

lemma invalid_bytes_replaced:
  "demo_edit ([CHR 0xFF] @ '' a'') ''a'' ''b'' = Some ([CHR 0xEF, CHR 0xBF, CHR 0xBD] @ '' b'')"
  by code_simp

lemma legacy_error_after_write:
  "case run_tool ((demo_edit_resources (demo_edit_fs []))\<lparr>res_renderer := None\<rparr>)
     \<lparr>ctx_cwd = None, ctx_behavior_version = Some ''legacy-0.4.10'', ctx_call_id = ''c''\<rparr> (replace_once ''a'' ''x'' ''y'')
     \<lparr>fs = [''/w/a'' \<mapsto> ''x''], notified = []\<rparr> of
     Some (Inl (MissingResource _), st') \<Rightarrow> fs st' ''/w/a'' = Some ''y''
   | _ \<Rightarrow> False"
  by code_simp

lemma unreadable_file_overwritten:
  "case run_tool ((demo_edit_resources ((demo_edit_fs [])\<lparr>ed_read := (\<lambda>s p. Inl \<lparr>io_error_kind = Some Io_PermissionDenied, failure_text = []\<rparr>)\<rparr>))
        \<lparr>res_params := Some (search_replace_params_default\<lparr>empty_old_string_does_not_override := True\<rparr>)\<rparr>)
     demo_call (replace_once ''a'' [] ''y'') \<lparr>fs = [''/w/a'' \<mapsto> ''x''], notified = []\<rparr> of
     Some (Inr (Out_EditsApplied e), st') \<Rightarrow> fs st' ''/w/a'' = Some ''y''
   | _ \<Rightarrow> False"
  by code_simp

text \<open>The rules are matched against the path as the model wrote it; the tool strips white space, quotes and escapes from it first, and
  looks for a file whose name differs in no-break spaces when there is none. So a file that a rule protects from
  edits is edited under another spelling of its name.\<close>

definition srv_guarded :: manager_config where
  "srv_guarded = demo_config\<lparr>cfg_policy := Some (compiled_policy_new demo_env (permission_config_new
     [\<lparr>action = Action_Deny, tool = Filter_Edit, pattern = Some ''/srv/*'', pattern_mode = Mode_Glob\<rparr>,
      \<lparr>action = Action_Deny, tool = Filter_Edit, pattern = Some (''/w/a'' @ [CHR 0xC2, CHR 0xA0] @ ''b''), pattern_mode = Mode_Glob\<rparr>]))\<rparr>"

lemma quoted_path_escapes_rule:
  "\<not> permitted_in srv_guarded (In_SearchReplace ''/srv/x'') \<and> permitted_in srv_guarded (In_SearchReplace ([CHR 0x27] @ ''/srv/x'' @ [CHR 0x27]))
   \<and> edited_file (demo_edit_fs []) [''/srv/x'' \<mapsto> ''1''] (replace_once ([CHR 0x27] @ ''/srv/x'' @ [CHR 0x27]) ''1'' ''2'') ''/srv/x'' = Some ''2''"
  by code_simp

lemma similar_name_escapes_rule:
  "let name = ''a'' @ [CHR 0xC2, CHR 0xA0] @ ''b''
   in \<not> permitted_in srv_guarded (In_SearchReplace (''/w/'' @ name)) \<and> permitted_in srv_guarded (In_SearchReplace ''/w/a b'')
     \<and> edited_file (demo_edit_fs [Some name]) [''/w/'' @ name \<mapsto> ''1''] (replace_once ''/w/a b'' ''1'' ''2'') (''/w/'' @ name) = Some ''2''"
  by code_simp

text \<open>A detail of an edit carries the line in the new text twice, although the first is meant to be the line in the
  original: with all occurrences replaced by a longer text the second occurrence, on line 2, is reported on line 3.\<close>

lemma old_line_counts_new_text:
  "case replace_using_positions (''a'' @ [NL] @ ''a'') [0, 2] ''a'' (''x'' @ [NL] @ ''y'') of
     Some (t, positions) \<Rightarrow> map_option (map old_line) (build_edit_details t ''a'' (''x'' @ [NL] @ ''y'') positions CONTEXT_LINES) = Some [1, 3]
   | None \<Rightarrow> False"
  by code_simp

end
