(* ===== verification/Spec2Isabelle.thy ===== *)
theory Spec2Isabelle
  imports Message_Delivery Circuit_Breaker Interjection Prompt_Queue Token_Estimation Patch_Tool Session_Setup Managed_Policy Hook_Dispatch Search_Replace
begin

text \<open>
  This development models the decision-making cores of a coding agent written in Rust and proves them
  correct. The program (\<open>src/crates\<close>) is a terminal client, an agent runtime and a set of tools. What it
  does to the user's machine goes through two narrow places, which are modelled in full depth: the
  permission engine, which decides whether a tool call runs, and the two tools that rewrite files, one by patches and one by
  naming a text and its replacement.
  Around them stand small self-contained cores that other parts rely on: message delivery, the circuit
  breaker, interjections, the prompt queue, token estimation and the cutting of text.

  \<^bold>\<open>How the parts interact.\<close> A tool call becomes an access (\<open>access_kind\<close>). The manager asks the policy for
  the verdict of the rules on the access; for a shell command it also asks the two shell gates, which
  parse the script and judge every command and every file in it. It evaluates the command against the
  answers remembered for the project, looks whether a protected file is edited, and runs through its
  stages: deny rules, the always-approve mode, remembered answers, allow rules, the classifier of the automatic
  mode, the sandbox, the prompt policy, the user. The answer of the user may be stored. Handles change
  the modes of the manager through messages and two shared flags. The rules themselves are resolved when a session
  starts, from requirements, managed settings, configuration files, imported settings and the command line. While the
  session plans, a second gate before the manager admits edits of the plan only. Before both, hooks that the user or the
  administrator configured are run on the call: they may deny it, have the user asked, or rewrite its input. Which servers and marketplaces may be used at
  all is decided by the managed policy, folded from layers of the administrator and of the user.

  \<^bold>\<open>The theories.\<close>
  \<^item> \<open>Prelude\<close>: characters, strings and lists as the Rust standard library has them, and the collections of
    rules shared by the components. \<open>Ranked\<close>: the locale of verdicts combined by severity, interpreted for
    the gates and for decisions. \<open>Ledger\<close>: the locale of things that enter, leave and are held, interpreted
    for the delivery lifecycle and the event queue. \<open>Json\<close>: the values of JSON.
  \<^item> Shell scripts. \<open>Shell_Tree\<close> (\<open>permission/bash_command_splitting.rs\<close>): decomposition of a syntax
    tree into plain commands; it is complete. \<open>Shell_Words\<close> (same file): wrappers such as \<open>timeout\<close> and
    transparent prefixes; normalisation reaches the unique innermost command. \<open>Shell_Inline\<close> (same file):
    scripts given to \<open>sh -c\<close> and programs that run other programs.
  \<^item> Rules. \<open>Permission_Rules\<close> (\<open>permission/types.rs\<close>, \<open>rules.rs\<close>): vocabulary and rule parser, with a round
    trip. \<open>Path_Matching\<close> (\<open>policy.rs\<close>, \<open>xai-grok-paths\<close>): path normalisation and symbolic links.
    \<open>Permission_Policy\<close> (\<open>policy.rs\<close>): compiled policies and their evaluation; the order of rules does not
    matter and links only make decisions stricter. \<open>Permission_Gate\<close>: the exact meaning of the shell gate
    and of allowing a chain, by refinement from a declarative reading of the exposed commands.
  \<^item> Effects of shell commands. \<open>Shell_Access\<close> and \<open>File_Gate\<close> (\<open>shell_access.rs\<close>): invocations,
    redirections, the paths a script touches, and the gate over them, which is exact. \<open>Exec_Risk\<close>
    (\<open>exec_risk.rs\<close>, \<open>git_content_filters.rs\<close>): options and repository configurations that make a read-only
    command run something. \<open>Bash_Evaluation\<close> (\<open>manager/mod.rs\<close>, \<open>manager/bash_grants.rs\<close>, parts of
    \<open>auto_mode/mod.rs\<close>): the evaluation of one shell request. \<open>Protected_Edits\<close>: files whose edit needs a
    confirmation.
  \<^item> Remembered answers. \<open>Grant_State\<close> (\<open>state.rs\<close>): the state, its merge and its store shared by interleaved
    sessions. \<open>Session_Grants\<close> (\<open>manager/mod.rs\<close>, \<open>web_fetch/domain.rs\<close>): decisions from remembered answers.
  \<^item> The manager. \<open>Auto_Classifier\<close> (\<open>auto_mode/\<close>): the rules, the request to the model, the reading of the
    reply. \<open>Permission_Manager\<close> (\<open>gate_preflight.rs\<close>, \<open>manager/mod.rs\<close>, \<open>manager/request_classification.rs\<close>,
    \<open>prompter.rs\<close>): the actor, one definition per stage. \<open>Manager_Decisions\<close>: what holds of every
    request. \<open>Permission_Handle\<close>: what holds of every run, and of every interleaving of handles and actor.
  \<^item> Sessions. \<open>Permission_Resolution\<close> (\<open>permission/resolution.rs\<close>, \<open>permission/claude_settings.rs\<close>): the rules of a session
    from all their sources, the default mode and the pin. \<open>Plan_Mode\<close> (\<open>session/plan_mode.rs\<close> and
    \<open>session/acp_session_impl/tool_calls.rs\<close> of \<open>xai-grok-shell\<close>, \<open>permission/types.rs\<close>): from tool input to access, the tracker of
    plan mode and its gate. \<open>Session_Setup\<close> (\<open>util/config/permissions.rs\<close> and \<open>session/acp_session_impl/spawn.rs\<close> of \<open>xai-grok-shell\<close>): the mode of
    a launch and the start of the manager on the resolved rules, with the theorems that compose all of this.
  \<^item> Managed policy (\<open>permission/managed_policy/\<close>). \<open>Url_Matching\<close> (\<open>url_match.rs\<close>): addresses of servers against
    the patterns of allow and deny entries. \<open>Managed_Policy\<close> (\<open>layer.rs\<close>, \<open>mcp.rs\<close>, \<open>marketplace.rs\<close>, \<open>parse.rs\<close>,
    \<open>mod.rs\<close>, \<open>verdict.rs\<close>): the keys of every layer, their fold, and the verdict on a server.
  \<^item> Hooks (\<open>xai-grok-hooks\<close>). \<open>Hook_Events\<close> (\<open>event.rs\<close>): the events, their aliases and traits, and the document sent
    to a hook. \<open>Hook_Registry\<close> (\<open>config.rs\<close>, \<open>matcher.rs\<close>, \<open>env_expand.rs\<close>, \<open>discovery.rs\<close>, \<open>trust.rs\<close>, and the layers and
    sources in \<open>xai-grok-config\<close> and \<open>xai-grok-shell/src/util/hooks.rs\<close>): from settings to the registry, and the list of
    disabled hooks. \<open>Hook_Documents\<close> (\<open>result.rs\<close>, \<open>runner/mod.rs\<close>, the parsers of \<open>runner/command.rs\<close> and \<open>runner/http.rs\<close>):
    what an answer means at each gate. \<open>Hook_Runner\<close> (\<open>runner/\<close>): one run of a hook. \<open>Hook_Dispatch\<close> (\<open>dispatcher.rs\<close>): every
    dispatcher, and the locale of a runner of tool hooks, interpreted on the one of the program.
  \<^item> Patches (\<open>xai-grok-tools/src/implementations/codex/apply_patch\<close>). \<open>Patch_Parser\<close>: the grammar, with a
    round trip. \<open>Patch_Apply\<close>: the search for context and the replacements. \<open>Patch_Tool\<close>: the whole tool on
    a file system, all or nothing.
  \<^item> Edits (\<open>xai-grok-tools/src/implementations/grok_build/search_replace\<close>). \<open>Text_Edit\<close> (\<open>helpers.rs\<close>,
    \<open>util/unicode_confusables.rs\<close>): matches, exact and after normalising typography, and their replacement.
    \<open>Search_Replace\<close> (\<open>mod.rs\<close>, \<open>versions/legacy_0_4_10.rs\<close>): the tool on a file system, its composition with the
    rules of the permission engine, and the cases in which it does not keep to its description.
  \<^item> Other cores. \<open>Message_Delivery\<close> (\<open>xai-message-delivery-core\<close>), \<open>Sliding_Window\<close> and \<open>Circuit_Breaker\<close>
    (\<open>xai-circuit-breaker\<close>), \<open>Interjection\<close> (\<open>xai-interjection-core\<close>), \<open>Prompt_Queue\<close>
    (\<open>xai-prompt-queue\<close>), \<open>Token_Estimation\<close> (\<open>xai-token-estimation\<close>), \<open>Truncation\<close>
    (\<open>xai-grok-tools/src/util/truncate.rs\<close>).

  \<^bold>\<open>State and operations.\<close> A struct is a record, an enum a datatype with its variants, a method a function
  from the old state to the result and the new state. Errors are values of sum or option types; slices
  that would be out of range are such values too, and are shown not to occur where the code relies on it. A file is a
  list of bytes, a disk a function from paths to what reading them gives. The actor of the manager is a
  function of its state, one command and the world around that command; the interleaving with handles is
  a step relation over single stores and messages.

  \<^bold>\<open>What the lemmas show.\<close> Of the manager: no mode, grant or model overrides a deny rule; a hook's question
  and an edit, \<open>mkdir\<close> or \<open>touch\<close> that names a protected file reach the user (patches and other writes of
  shell commands do not, which is shown by an example); an ask rule is waived in listed cases only; only an
  answer for always is remembered; modes, counters and flags are consistent over every run. Of
  sessions: a deny rule of any consulted file is enforced on every request, an untrusted project has no
  say, under the pin nothing but an administrator's rule stands in for the always-approve mode and requests
  that name protected files need an answer, and the end of planning is announced. Of the managed policy: the user's layers only
  tighten what the administrator's decide, a policy that was loaded and is unusable blocks the servers it binds, and a denied
  host is denied in every spelling. Of hooks: the decision before a tool call is the declared function of the answers, a
  hook of the administrator that refuses cannot be disabled or shadowed, a request is sent exactly when every address its host
  resolved to passed the check, and
  disabling a hook is undone by enabling it. Of the
  gates: they compute exactly the strictest verdict over what a script exposes, and ask when something
  is hidden. Of remembered answers: none is lost, none outlives a reset but those that
  another open session writes again, and none covers more than it was given for. Of patches: parsing inverts printing, the search finds the strictest and leftmost
  place, an update replaces one segment per chunk of the text on disk, and nothing is written unless everything applies. Of edits: an edit
  replaces whole regions that read as the named text and keeps every other byte, or writes nothing. Of
  delivery and of the event queue: what enters leaves once. Of the breaker: the window is the recent
  history, it trips at the threshold, sheds, probes and recovers.

  \<^bold>\<open>Bounds.\<close> Recursion into scripts inside scripts carries the source's own depth, eight levels; unwrapping
  stops after eight wrappers and eight prefixes, and normalisation after sixteen rounds, as in the
  source; a chain of symbolic links is followed for forty steps. These are limits of the program and not
  fuel of the model: what lies beyond them is a branch of the code, and it asks. Classifier denials stop
  at three in a row or twenty in all, and twelve decisions are kept. Loops without such limits are
  structural or have a termination proof, so every definition is total.

  \<^bold>\<open>Arguments of the model.\<close> Third-party code is a record of functions: the shell parser (its syntax trees
  are a datatype), the glob and URL crates, Unicode lower-casing, the file system, the git library, JSON
  text, regular expressions, the expansion of variables, processes, name resolution and the network, the channel to the model. Theorems hold for all of them; where one is restricted, a witness instantiates it.

  \<^bold>\<open>Not modelled.\<close> Reading and merging of configuration files below the resolution, where the model
  starts from what each file parses to; which files of hooks the global configuration lists; the durations, process groups and
  Windows shells of hooks; the construction and the display of prompts and the exchange with the client, of
  which the possible answers are modelled; identifiers, times and gauges of telemetry events; the JSON
  schema and the system prompt sent to the model; the shell runtime, terminals, sampling, user
  interface, login and updates, which are input and output; vendored code. The breaker is modelled one
  call at a time; its behaviour under concurrent callers depends on a lock that is not.
\<close>

end
